(* ===== verification/Prelude.thy ===== *)
theory Prelude
  imports Complex_Main "HOL-Library.Word" "HOL-Library.Finite_Map"
begin

text \<open>
  Shared vocabulary of the Hypercolor development: the machine integer types of the
  Rust sources, byte-order conversions, the slice operations the packet builders use
  (\<open>copy_from_slice\<close>, \<open>chunks\<close>), and the interface of a state machine whose
  operations keep an invariant, from which every component derives that the invariant
  holds after any sequence of operations.

  A Rust \<^verbatim>\<open>HashMap\<close> is a finite map (\<open>fmap\<close>): finite, unordered, compared by
  contents. A \<^verbatim>\<open>HashSet\<close> is an \<open>fset\<close>. A \<^verbatim>\<open>Vec\<close> or slice is a list. \<^verbatim>\<open>usize\<close> is
  a \<open>nat\<close> with the 64-bit wrap-around written out where the source can overflow.
\<close>

unbundle bit_operations_syntax

type_synonym u8 = "8 word"
type_synonym u16 = "16 word"
type_synonym u32 = "32 word"
type_synonym u64 = "64 word"
type_synonym bytes = "8 word list"

named_theorems wire_simps \<open>layout of encoded packets\<close>
named_theorems fault_simps \<open>error and panic branches\<close>

section \<open>State machines and their invariants\<close>

text \<open>
  A run of a machine whose operations may panic: the state after a list of operations,
  \<open>None\<close> as soon as one of them panics.
\<close>

primrec run :: "('s \<Rightarrow> 'e \<Rightarrow> 's option) \<Rightarrow> 's \<Rightarrow> 'e list \<Rightarrow> 's option" where
  "run step s [] = Some s"
| "run step s (e # es) = (case step s e of None \<Rightarrow> None | Some s' \<Rightarrow> run step s' es)"

lemma run_append:
  "run step s (es @ fs) = (case run step s es of None \<Rightarrow> None | Some s' \<Rightarrow> run step s' fs)"
  by (induction es arbitrary: s) (auto split: option.split)

lemma run_total: "run (\<lambda>s e. Some (step s e)) s es = Some (foldl step s es)"
  by (induction es arbitrary: s) auto

text \<open>
  The contract the stateful components share: every operation that returns keeps the
  invariant. Then so does every run, and every state passed on the way satisfies it.
\<close>

locale fallible_machine =
  fixes step :: "'s \<Rightarrow> 'e \<Rightarrow> 's option"
    and inv :: "'s \<Rightarrow> bool"
  assumes inv_step_Some: "inv s \<Longrightarrow> step s e = Some s' \<Longrightarrow> inv s'"
begin

lemma run_Some_inv: "inv s \<Longrightarrow> run step s es = Some s' \<Longrightarrow> inv s'"
  by (induction es arbitrary: s) (auto intro: inv_step_Some split: option.splits)

lemma run_prefix_Some:
  assumes "inv s" "run step s es = Some s'"
  shows "\<exists>t. run step s (take n es) = Some t \<and> inv t"
proof -
  have "run step s (take n es @ drop n es) = Some s'" using assms(2) by simp
  then obtain t where "run step s (take n es) = Some t"
    unfolding run_append by (cases "run step s (take n es)") simp_all
  then show ?thesis using assms(1) run_Some_inv by blast
qed

end

text \<open>The same for a machine that never panics.\<close>

locale invariant_machine =
  fixes step :: "'s \<Rightarrow> 'e \<Rightarrow> 's"
    and inv :: "'s \<Rightarrow> bool"
  assumes inv_step: "inv s \<Longrightarrow> inv (step s e)"

sublocale invariant_machine \<subseteq> fallible_machine "\<lambda>s e. Some (step s e)" inv
  by unfold_locales (auto intro: inv_step)

context invariant_machine
begin

lemma run_inv: "inv s \<Longrightarrow> inv (foldl step s es)"
  using run_Some_inv [of s es] by (simp add: run_total)

end

section \<open>Saturating and wrapping arithmetic\<close>

definition saturating_succ :: "'a::len word \<Rightarrow> 'a word" where
  "saturating_succ w = (if w = - 1 then w else w + 1)"

lemma unat_saturating_succ:
  "unat (saturating_succ w) = min (Suc (unat w)) (2 ^ LENGTH('a) - 1)"
  for w :: "'a::len word"
proof (cases "w = - 1")
  case True
  then show ?thesis
    by (simp add: saturating_succ_def unsigned_minus_1_eq_mask mask_eq_exp_minus_1)
next
  case False
  then have "w + 1 \<noteq> 0"
    by (metis add.commute add_diff_cancel_left' diff_0)
  then have "unat (1 + w) = Suc (unat w)"
    by (intro unatSuc) (simp add: add.commute)
  moreover have "unat (1 + w) < 2 ^ LENGTH('a)"
    by (rule unsigned_less)
  ultimately show ?thesis
    using False by (simp add: saturating_succ_def add.commute)
qed

section \<open>Byte order\<close>

text \<open>\<^verbatim>\<open>to_be_bytes\<close> / \<^verbatim>\<open>to_le_bytes\<close> and their inverses at the widths the wire formats use.\<close>

definition be16 :: "u16 \<Rightarrow> bytes" where
  "be16 w = [ucast (drop_bit 8 w), ucast w]"

definition from_be16 :: "u8 \<Rightarrow> u8 \<Rightarrow> u16" where
  "from_be16 h l = push_bit 8 (ucast h) OR ucast l"

definition le16 :: "u16 \<Rightarrow> bytes" where
  "le16 w = [ucast w, ucast (drop_bit 8 w)]"

definition be32 :: "u32 \<Rightarrow> bytes" where
  "be32 w = [ucast (drop_bit 24 w), ucast (drop_bit 16 w), ucast (drop_bit 8 w), ucast w]"

definition from_be32 :: "u8 \<Rightarrow> u8 \<Rightarrow> u8 \<Rightarrow> u8 \<Rightarrow> u32" where
  "from_be32 a b c d =
     push_bit 24 (ucast a) OR push_bit 16 (ucast b) OR push_bit 8 (ucast c) OR ucast d"

definition le64 :: "u64 \<Rightarrow> bytes" where
  "le64 w = map (\<lambda>i. ucast (drop_bit (8 * i) w)) [0..<8]"

definition le32 :: "u32 \<Rightarrow> bytes" where
  "le32 w = [ucast w, ucast (drop_bit 8 w), ucast (drop_bit 16 w), ucast (drop_bit 24 w)]"

definition from_le32 :: "u8 \<Rightarrow> u8 \<Rightarrow> u8 \<Rightarrow> u8 \<Rightarrow> u32" where
  "from_le32 a b c d = from_be32 d c b a"

lemma length_be_le [simp, wire_simps]:
  "length (be16 w) = 2" "length (le16 w) = 2" "length (be32 v) = 4" "length (le32 v) = 4"
  by (simp_all add: be16_def le16_def be32_def le32_def)

lemma length_le64 [simp]: "length (le64 w) = 8"
  by (simp add: le64_def)

lemma from_be16_be16 [simp]: "from_be16 (be16 w ! 0) (be16 w ! 1) = w"
  unfolding from_be16_def be16_def
  by (rule bit_word_eqI) (auto simp: bit_simps)

lemma from_be16_parts [simp]: "from_be16 (ucast (drop_bit 8 w)) (ucast w) = w"
  using from_be16_be16 [of w] by (simp add: be16_def)

lemma from_be32_parts [simp]:
  "from_be32 (ucast (drop_bit 24 w)) (ucast (drop_bit 16 w)) (ucast (drop_bit 8 w)) (ucast w) = w"
proof (rule bit_word_eqI)
  fix n :: nat
  assume "n < LENGTH(32)"
  then consider "n < 8" | "8 \<le> n" "n < 16" | "16 \<le> n" "n < 24" | "24 \<le> n" "n < 32"
    by force
  then show "bit (from_be32 (ucast (drop_bit 24 w)) (ucast (drop_bit 16 w))
      (ucast (drop_bit 8 w)) (ucast w)) n = bit w n"
    by cases (auto simp: from_be32_def bit_simps)
qed

lemma from_le32_parts [simp]:
  "from_le32 (ucast w) (ucast (drop_bit 8 w)) (ucast (drop_bit 16 w)) (ucast (drop_bit 24 w)) = w"
  by (simp add: from_le32_def)

section \<open>Slices\<close>

text \<open>
  \<open>copy_at i src buf\<close> is \<^verbatim>\<open>buf[i..i + src.len()].copy_from_slice(src)\<close>; the range must
  lie in the buffer, which every use below establishes (Rust panics otherwise).
\<close>

definition copy_at :: "nat \<Rightarrow> 'a list \<Rightarrow> 'a list \<Rightarrow> 'a list" where
  "copy_at i src buf = take i buf @ src @ drop (i + length src) buf"

lemma length_copy_at [simp]: "i + length src \<le> length buf \<Longrightarrow> length (copy_at i src buf) = length buf"
  by (simp add: copy_at_def)

lemma nth_copy_at:
  "i + length src \<le> length buf \<Longrightarrow> k < length buf \<Longrightarrow>
   copy_at i src buf ! k = (if i \<le> k \<and> k < i + length src then src ! (k - i) else buf ! k)"
  by (auto simp: copy_at_def nth_append)

lemma take_drop_copy_at:
  "i + length src \<le> length buf \<Longrightarrow> take (length src) (drop i (copy_at i src buf)) = src"
  by (simp add: copy_at_def)

lemma copy_at_block: "length a = i \<Longrightarrow> copy_at i src (a @ b) = a @ src @ drop (length src) b"
  by (simp add: copy_at_def)

text \<open>\<open>slice i n xs\<close> is \<^verbatim>\<open>xs[i..i + n]\<close>. Reading back a written range gives what was written,
  and reading a disjoint one is not affected.\<close>

definition slice :: "nat \<Rightarrow> nat \<Rightarrow> 'a list \<Rightarrow> 'a list" where
  "slice i n xs = take n (drop i xs)"

lemma length_slice [simp]: "i + n \<le> length xs \<Longrightarrow> length (slice i n xs) = n"
  by (simp add: slice_def)

lemma slice_copy_at_same:
  "length src = n \<Longrightarrow> i + n \<le> length buf \<Longrightarrow> slice i n (copy_at i src buf) = src"
  by (simp add: slice_def copy_at_def)

lemma slice_copy_at_disjoint:
  assumes "j + length src \<le> length buf" "i + n \<le> j \<or> j + length src \<le> i"
  shows "slice i n (copy_at j src buf) = slice i n buf"
  using assms(2)
proof
  assume "i + n \<le> j"
  then show ?thesis using assms(1)
    by (simp add: slice_def copy_at_def drop_take min_absorb1)
next
  assume "j + length src \<le> i"
  then show ?thesis using assms(1)
    by (simp add: slice_def copy_at_def)
qed

lemma slice_append: "slice i (n + m) xs = slice i n xs @ slice (i + n) m xs"
  unfolding slice_def take_add drop_drop by (simp add: add.commute [of n i])

lemma slice_copy_at_padded:
  assumes "length src \<le> n" "i + n \<le> length buf" "slice i n buf = replicate n z"
  shows "slice i n (copy_at i src buf) = src @ replicate (n - length src) z"
proof -
  let ?k = "length src"
  have "slice i n (copy_at i src buf) = slice i ?k (copy_at i src buf) @ slice (i + ?k) (n - ?k) (copy_at i src buf)"
    using slice_append [of i ?k "n - ?k" "copy_at i src buf"] assms(1) by simp
  moreover have "slice i ?k (copy_at i src buf) = src"
    using assms(1,2) by (intro slice_copy_at_same) simp_all
  moreover have "slice (i + ?k) (n - ?k) (copy_at i src buf) = slice (i + ?k) (n - ?k) buf"
    using assms(1,2) by (intro slice_copy_at_disjoint) simp_all
  moreover have "slice (i + ?k) (n - ?k) buf = drop ?k (slice i n buf)"
    by (simp add: slice_def drop_take add.commute)
  ultimately show ?thesis
    using assms(1,3) by simp
qed

lemma slice_copy_at_inside:
  "j + n \<le> length src \<Longrightarrow> i + length src \<le> length buf \<Longrightarrow> slice (i + j) n (copy_at i src buf) = slice j n src"
  by (simp add: slice_def copy_at_def)

lemma list_update_copy_at: "k < length xs \<Longrightarrow> xs[k := v] = copy_at k [v] xs"
  by (simp add: copy_at_def upd_conv_take_nth_drop)

lemma slice_update_other: "k < i \<or> i + n \<le> k \<Longrightarrow> slice i n (xs[k := v]) = slice i n xs"
  by (auto simp: slice_def drop_update_swap)

lemma slice_update_same: "k < length xs \<Longrightarrow> slice k (Suc 0) (xs[k := v]) = [v]"
  by (simp add: slice_def take_Suc hd_drop_conv_nth del: drop_update_cancel)

lemma slice_take: "i + n \<le> m \<Longrightarrow> slice i n (take m xs) = slice i n xs"
  by (simp add: slice_def drop_take min_absorb1)

lemma take_slice: "take (i + n) xs = take i xs @ slice i n xs"
  by (simp add: slice_def take_add)

lemma nth_slice: "k < length xs \<Longrightarrow> slice k 1 xs = [xs ! k]"
  by (simp add: slice_def take_Suc_conv_app_nth hd_drop_conv_nth take_Suc)

lemma list_update_numeral [simp]: "(x # xs)[numeral n := y] = x # xs[pred_numeral n := y]"
  by (simp add: numeral_eq_Suc)

text \<open>\<^verbatim>\<open>slice::chunks(n)\<close>: consecutive chunks of \<open>n\<close>, the last one possibly shorter (\<open>n \<noteq> 0\<close>).\<close>

function chunks :: "nat \<Rightarrow> 'a list \<Rightarrow> 'a list list" where
  "chunks n xs = (if xs = [] \<or> n = 0 then [] else take n xs # chunks n (drop n xs))"
  by pat_completeness auto
termination
  by (relation "measure (\<lambda>(n, xs). length xs)") auto

declare chunks.simps [simp del]

lemma chunks_Nil [simp]: "chunks n [] = []"
  by (simp add: chunks.simps)

lemma chunks_step: "xs \<noteq> [] \<Longrightarrow> 0 < n \<Longrightarrow> chunks n xs = take n xs # chunks n (drop n xs)"
  by (subst chunks.simps) simp

lemma concat_chunks: "0 < n \<Longrightarrow> concat (chunks n xs) = xs"
proof (induction n xs rule: chunks.induct)
  case (1 n xs)
  then show ?case by (cases "xs = []") (simp_all add: chunks_step)
qed

lemma chunks_bounds: "0 < n \<Longrightarrow> c \<in> set (chunks n xs) \<Longrightarrow> 0 < length c \<and> length c \<le> n"
proof (induction n xs rule: chunks.induct)
  case (1 n xs)
  then show ?case by (cases "xs = []") (auto simp: chunks_step)
qed

lemma length_chunks: "0 < n \<Longrightarrow> length (chunks n xs) = (length xs + n - 1) div n"
proof (induction n xs rule: chunks.induct)
  case (1 n xs)
  show ?case
  proof (cases "xs = []")
    case True
    with 1 show ?thesis by simp
  next
    case False
    then have "0 < length xs" by simp
    with 1 False have len: "length (chunks n xs) = Suc ((length xs - n + n - 1) div n)"
      by (simp add: chunks_step)
    show ?thesis
    proof (cases "n \<le> length xs")
      case True
      then have "length xs + n - 1 = length xs - 1 + n" using \<open>0 < length xs\<close> by simp
      then have "(length xs + n - 1) div n = Suc ((length xs - 1) div n)"
        using \<open>0 < n\<close> by (simp only: div_add_self2)
      with len True show ?thesis by simp
    next
      case False
      with len \<open>0 < length xs\<close> \<open>0 < n\<close> have "length (chunks n xs) = 1" by simp
      moreover obtain m where "length xs = Suc m"
        using \<open>0 < length xs\<close> gr0_implies_Suc by blast
      then have "(length xs + n - 1) div n = 1"
        using False by (intro div_nat_eqI) simp_all
      ultimately show ?thesis by simp
    qed
  qed
qed

lemma nth_chunks:
  "0 < n \<Longrightarrow> i < length (chunks n xs) \<Longrightarrow> chunks n xs ! i = take n (drop (i * n) xs)"
proof (induction i arbitrary: xs)
  case 0
  then show ?case by (cases "xs = []") (auto simp: chunks_step)
next
  case (Suc i)
  then have "xs \<noteq> []" by auto
  with Suc show ?case by (simp add: chunks_step add.commute)
qed

section \<open>Finite maps\<close>

lemma fmlookup_fmdrop_neq [simp]: "k \<noteq> k' \<Longrightarrow> fmlookup (fmdrop k m) k' = fmlookup m k'"
  by simp

text \<open>\<^verbatim>\<open>HashMap::retain\<close> with a predicate on the values.\<close>

definition fmretain :: "('v \<Rightarrow> bool) \<Rightarrow> ('k, 'v) fmap \<Rightarrow> ('k, 'v) fmap" where
  "fmretain P m = fmfilter (\<lambda>k. case fmlookup m k of None \<Rightarrow> False | Some v \<Rightarrow> P v) m"

lemma fmlookup_fmretain [simp]:
  "fmlookup (fmretain P m) k = (case fmlookup m k of None \<Rightarrow> None | Some v \<Rightarrow> if P v then Some v else None)"
  by (auto simp: fmretain_def split: option.splits)

end
