(* ===== verification/Rust_Str.thy ===== *)
theory Rust_Str
  imports Prelude
begin

text \<open>
  The \<^verbatim>\<open>str\<close> operations the device code uses. A string is the list of its UTF-8 bytes
  (\<open>string\<close>), so \<open>length\<close> is \<^verbatim>\<open>str::len\<close>. Character classes and case mapping are the
  ASCII ones the sources ask for. \<^verbatim>\<open>str::trim\<close> and \<^verbatim>\<open>str::to_lowercase\<close> are modelled on
  ASCII: the non-ASCII white space and letters they also treat are outside the model.
\<close>

definition byte_of :: "char \<Rightarrow> nat" where
  "byte_of c = of_char c"

definition is_ascii_digit :: "char \<Rightarrow> bool" where
  "is_ascii_digit c \<longleftrightarrow> 48 \<le> byte_of c \<and> byte_of c \<le> 57"

definition is_ascii_uppercase :: "char \<Rightarrow> bool" where
  "is_ascii_uppercase c \<longleftrightarrow> 65 \<le> byte_of c \<and> byte_of c \<le> 90"

definition is_ascii_lowercase :: "char \<Rightarrow> bool" where
  "is_ascii_lowercase c \<longleftrightarrow> 97 \<le> byte_of c \<and> byte_of c \<le> 122"

definition is_ascii_alphanumeric :: "char \<Rightarrow> bool" where
  "is_ascii_alphanumeric c \<longleftrightarrow> is_ascii_digit c \<or> is_ascii_uppercase c \<or> is_ascii_lowercase c"

definition is_ascii_hexdigit :: "char \<Rightarrow> bool" where
  "is_ascii_hexdigit c \<longleftrightarrow> is_ascii_digit c \<or> (65 \<le> byte_of c \<and> byte_of c \<le> 70)
     \<or> (97 \<le> byte_of c \<and> byte_of c \<le> 102)"

definition is_ascii_graphic :: "char \<Rightarrow> bool" where
  "is_ascii_graphic c \<longleftrightarrow> 33 \<le> byte_of c \<and> byte_of c \<le> 126"

text \<open>\<^verbatim>\<open>char::is_ascii_whitespace\<close>: space, tab, LF, FF, CR (not VT).\<close>

definition is_ascii_whitespace :: "char \<Rightarrow> bool" where
  "is_ascii_whitespace c \<longleftrightarrow> byte_of c \<in> {32, 9, 10, 12, 13}"

text \<open>ASCII part of \<^verbatim>\<open>char::is_whitespace\<close>, used by \<^verbatim>\<open>trim\<close> (VT included).\<close>

definition is_whitespace :: "char \<Rightarrow> bool" where
  "is_whitespace c \<longleftrightarrow> byte_of c \<in> {32, 9, 10, 11, 12, 13}"

definition to_ascii_lower :: "char \<Rightarrow> char" where
  "to_ascii_lower c = (if is_ascii_uppercase c then char_of (byte_of c + 32) else c)"

definition to_ascii_lowercase :: "string \<Rightarrow> string" where
  "to_ascii_lowercase = map to_ascii_lower"

definition eq_ignore_ascii_case :: "string \<Rightarrow> string \<Rightarrow> bool" where
  "eq_ignore_ascii_case s t \<longleftrightarrow> to_ascii_lowercase s = to_ascii_lowercase t"

definition trim_matches :: "(char \<Rightarrow> bool) \<Rightarrow> string \<Rightarrow> string" where
  "trim_matches P s = rev (dropWhile P (rev (dropWhile P s)))"

definition trim :: "string \<Rightarrow> string" where
  "trim = trim_matches is_whitespace"

fun strip_prefix :: "string \<Rightarrow> string \<Rightarrow> string option" where
  "strip_prefix [] s = Some s"
| "strip_prefix (p # ps) [] = None"
| "strip_prefix (p # ps) (c # cs) = (if p = c then strip_prefix ps cs else None)"

fun split_once :: "char \<Rightarrow> string \<Rightarrow> (string \<times> string) option" where
  "split_once d [] = None"
| "split_once d (c # cs) =
     (if c = d then Some ([], cs)
      else map_option (\<lambda>(a, b). (c # a, b)) (split_once d cs))"

definition rsplit_once :: "char \<Rightarrow> string \<Rightarrow> (string \<times> string) option" where
  "rsplit_once d s = map_option (\<lambda>(a, b). (rev b, rev a)) (split_once d (rev s))"

section \<open>Hexadecimal numbers\<close>

definition hex_val :: "char \<Rightarrow> nat option" where
  "hex_val c =
     (if is_ascii_digit c then Some (byte_of c - 48)
      else if 65 \<le> byte_of c \<and> byte_of c \<le> 70 then Some (byte_of c - 55)
      else if 97 \<le> byte_of c \<and> byte_of c \<le> 102 then Some (byte_of c - 87)
      else None)"

text \<open>
  \<^verbatim>\<open>u16::from_str_radix(s, 16)\<close>: one optional leading plus sign, at least one digit, no
  other characters, and no overflow past 16 bits; \<open>None\<close> is the \<^verbatim>\<open>Err\<close>.
\<close>

fun hex_digits :: "nat \<Rightarrow> string \<Rightarrow> nat option" where
  "hex_digits acc [] = Some acc"
| "hex_digits acc (c # cs) =
     (case hex_val c of
        None \<Rightarrow> None
      | Some v \<Rightarrow> if 65535 < 16 * acc + v then None else hex_digits (16 * acc + v) cs)"

definition u16_from_hex :: "string \<Rightarrow> u16 option" where
  "u16_from_hex s =
     (let ds = (case s of [] \<Rightarrow> [] | c # cs \<Rightarrow> if c = CHR ''+'' then cs else s)
      in if ds = [] then None else map_option word_of_nat (hex_digits 0 ds))"

definition hex_char :: "bool \<Rightarrow> nat \<Rightarrow> char" where
  "hex_char upper d = (if d < 10 then char_of (48 + d) else char_of ((if upper then 55 else 87) + d))"

text \<open>\<^verbatim>\<open>{:0WIDTHx}\<close> and \<^verbatim>\<open>{:0WIDTHX}\<close>: the digits of \<open>n\<close>, left padded with zeros to the width.\<close>

fun hex_rev :: "bool \<Rightarrow> nat \<Rightarrow> string" where
  "hex_rev upper n =
     (if n < 16 then [hex_char upper n] else hex_char upper (n mod 16) # hex_rev upper (n div 16))"

definition fmt_hex :: "bool \<Rightarrow> nat \<Rightarrow> nat \<Rightarrow> string" where
  "fmt_hex upper width n =
     (let ds = rev (hex_rev upper n) in replicate (width - length ds) (CHR ''0'') @ ds)"

declare hex_rev.simps [simp del]

section \<open>Facts\<close>

lemma strip_prefix_append [simp]: "strip_prefix p (p @ s) = Some s"
  by (induction p) auto

lemma strip_prefix_Some: "strip_prefix p s = Some r \<longleftrightarrow> s = p @ r"
  by (induction p s rule: strip_prefix.induct) auto

lemma set_trim_matches: "set (trim_matches P s) \<subseteq> set s"
  by (auto simp: trim_matches_def dest!: set_dropWhileD)

lemma to_ascii_lower_not_upper: "\<not> is_ascii_uppercase (to_ascii_lower c)"
proof (cases "is_ascii_uppercase c")
  case True
  then have "byte_of (char_of (byte_of c + 32)) = byte_of c + 32"
    by (simp add: byte_of_def is_ascii_uppercase_def)
  then show ?thesis using True by (simp add: to_ascii_lower_def is_ascii_uppercase_def)
qed (simp add: to_ascii_lower_def)

lemma to_ascii_lower_idem [simp]: "to_ascii_lower (to_ascii_lower c) = to_ascii_lower c"
  using to_ascii_lower_not_upper [of c] by (simp add: to_ascii_lower_def [of "to_ascii_lower c"])

lemma to_ascii_lowercase_idem [simp]:
  "to_ascii_lowercase (to_ascii_lowercase s) = to_ascii_lowercase s"
  by (simp add: to_ascii_lowercase_def)

lemma trim_matches_no_ends:
  assumes "trim_matches P s \<noteq> []"
  shows "\<not> P (hd (trim_matches P s))" "\<not> P (last (trim_matches P s))"
proof -
  let ?d = "dropWhile P s"
  have ne: "dropWhile P (rev ?d) \<noteq> []" using assms by (simp add: trim_matches_def)
  then show "\<not> P (last (trim_matches P s))"
    by (simp add: trim_matches_def last_rev hd_dropWhile)
  have dne: "?d \<noteq> []" using ne by (metis dropWhile.simps(1) rev.simps(1))
  have "\<exists>ys. rev ?d = ys @ dropWhile P (rev ?d)"
    by (metis takeWhile_dropWhile_id)
  then obtain ys where "rev ?d = ys @ dropWhile P (rev ?d)" by blast
  then have "?d = rev (dropWhile P (rev ?d)) @ rev ys"
    by (metis rev_append rev_rev_ident)
  then have "hd (trim_matches P s) = hd ?d"
    using ne by (metis hd_append2 rev_is_Nil_conv trim_matches_def)
  then show "\<not> P (hd (trim_matches P s))"
    using dne by (simp add: hd_dropWhile)
qed

lemma trim_matches_infix: "\<exists>u v. s = u @ trim_matches P s @ v"
proof -
  let ?d = "dropWhile P s"
  have "rev ?d = takeWhile P (rev ?d) @ dropWhile P (rev ?d)" by simp
  then have "?d = trim_matches P s @ rev (takeWhile P (rev ?d))"
    unfolding trim_matches_def by (metis rev_append rev_rev_ident)
  then show ?thesis by (metis takeWhile_dropWhile_id)
qed

lemma trim_matches_id: "s \<noteq> [] \<Longrightarrow> \<not> P (hd s) \<Longrightarrow> \<not> P (last s) \<Longrightarrow> trim_matches P s = s"
proof -
  assume s: "s \<noteq> []" "\<not> P (hd s)" "\<not> P (last s)"
  then have "dropWhile P s = s" by (cases s) auto
  moreover have "dropWhile P (rev s) = rev s" 
    using s by (cases s rule: rev_cases) simp_all
  ultimately show ?thesis by (simp add: trim_matches_def)
qed

section \<open>Hexadecimal round trip\<close>

lemma byte_of_char_of: "n < 256 \<Longrightarrow> byte_of (char_of n) = n"
  by (simp add: byte_of_def)

lemma hex_char_cases:
  assumes "d < 16"
  shows "hex_val (hex_char u d) = Some d \<and> hex_char u d \<noteq> CHR '':'' \<and> hex_char u d \<noteq> CHR ''+''"
proof -
  define n where "n = (if d < 10 then 48 + d else (if u then 55 else 87) + d)"
  have n: "n < 256" "hex_char u d = char_of n" using assms by (auto simp: n_def hex_char_def)
  then have b: "byte_of (hex_char u d) = n" by (simp add: byte_of_char_of)
  have "n \<noteq> 58 \<and> n \<noteq> 43" using assms by (auto simp: n_def)
  then have "hex_char u d \<noteq> CHR '':'' \<and> hex_char u d \<noteq> CHR ''+''"
    using b by (auto simp: byte_of_def)
  moreover have "hex_val (hex_char u d) = Some d"
    using assms unfolding hex_val_def is_ascii_digit_def b by (auto simp: n_def)
  ultimately show ?thesis by blast
qed

lemma hex_digits_hex_rev:
  "n \<le> 65535 \<Longrightarrow> hex_digits 0 (rev (hex_rev u n) @ rest) = hex_digits n rest"
proof (induction u n arbitrary: rest rule: hex_rev.induct)
  case (1 u n)
  show ?case
  proof (cases "n < 16")
    case True
    then show ?thesis using hex_char_cases [of n u] 1 by (simp add: hex_rev.simps)
  next
    case False
    then have "hex_rev u n = hex_char u (n mod 16) # hex_rev u (n div 16)"
      by (subst hex_rev.simps) simp
    moreover have "hex_val (hex_char u (n mod 16)) = Some (n mod 16)"
      using hex_char_cases [of "n mod 16" u] by simp
    moreover have "16 * (n div 16) + n mod 16 = n" by simp
    ultimately show ?thesis using 1 False by simp
  qed
qed

lemma hex_digits_zeros: "hex_digits 0 (replicate k (CHR ''0'') @ ds) = hex_digits 0 ds"
  by (induction k) (simp_all add: hex_val_def is_ascii_digit_def byte_of_def)

lemma hex_rev_chars: "c \<in> set (hex_rev u n) \<Longrightarrow> \<exists>d < 16. c = hex_char u d"
proof (induction u n rule: hex_rev.induct)
  case (1 u n)
  then show ?case
    by (cases "n < 16") (auto simp: hex_rev.simps [of u n] intro: exI [of _ "n mod 16"])
qed

lemma fmt_hex_chars: "c \<in> set (fmt_hex u w n) \<Longrightarrow> c \<noteq> CHR '':'' \<and> c \<noteq> CHR ''+''"
  using hex_rev_chars hex_char_cases by (fastforce simp: fmt_hex_def Let_def)

lemma fmt_hex_no_colon [simp]: "CHR '':'' \<notin> set (fmt_hex u w n)"
  using fmt_hex_chars by blast

lemma fmt_hex_not_Nil: "fmt_hex u w n \<noteq> []"
  by (subst fmt_hex_def, subst hex_rev.simps) (simp add: Let_def)

text \<open>Parsing back a formatted 16-bit number.\<close>

lemma u16_from_hex_fmt: "u16_from_hex (fmt_hex u w (unat v)) = Some v"
proof -
  have b: "unat v \<le> 65535" using unsigned_less [of v, where ?'a = nat] by simp
  obtain c cs where s: "fmt_hex u w (unat v) = c # cs" using fmt_hex_not_Nil by (cases "fmt_hex u w (unat v)") auto
  then have "c \<noteq> CHR ''+''" using fmt_hex_chars [of c u w "unat v"] by simp
  moreover have "hex_digits 0 (fmt_hex u w (unat v)) = Some (unat v)"
    using hex_digits_hex_rev [OF b, of u "[]"] by (simp add: fmt_hex_def Let_def hex_digits_zeros)
  ultimately show ?thesis using s by (simp add: u16_from_hex_def)
qed

lemma split_once_append: "d \<notin> set a \<Longrightarrow> split_once d (a @ d # b) = Some (a, b)"
  by (induction a) auto

lemma rsplit_once_append: "d \<notin> set b \<Longrightarrow> rsplit_once d (a @ d # b) = Some (a, b)"
  by (simp add: rsplit_once_def split_once_append)

section \<open>Decimal numbers\<close>

text \<open>\<^verbatim>\<open>{}\<close> of an unsigned integer.\<close>

fun dec_rev :: "nat \<Rightarrow> string" where
  "dec_rev n = char_of (48 + n mod 10) # (if n < 10 then [] else dec_rev (n div 10))"

declare dec_rev.simps [simp del]

definition fmt_dec :: "nat \<Rightarrow> string" where
  "fmt_dec n = rev (dec_rev n)"

lemma dec_rev_digits: "c \<in> set (dec_rev n) \<Longrightarrow> is_ascii_digit c"
proof (induction n rule: dec_rev.induct)
  case (1 n)
  have "is_ascii_digit (char_of (48 + n mod 10))"
    using mod_less_divisor [of 10 n] by (simp add: is_ascii_digit_def byte_of_char_of)
  with 1 show ?case by (subst (asm) (2) dec_rev.simps) (auto split: if_splits)
qed

lemma dec_rev_inj: "dec_rev m = dec_rev n \<Longrightarrow> m = n"
proof (induction m arbitrary: n rule: dec_rev.induct)
  case (1 m)
  have heads: "char_of (48 + m mod 10) = (char_of (48 + n mod 10) :: char)"
    and tails: "(if m < 10 then [] else dec_rev (m div 10)) = (if n < 10 then [] else dec_rev (n div 10))"
    using 1(2) by (simp_all add: dec_rev.simps [of m] dec_rev.simps [of n])
  have digit: "byte_of (char_of (48 + k mod 10)) = 48 + k mod 10" for k :: nat
    using mod_less_divisor [of 10 k] by (simp add: byte_of_char_of)
  have "48 + m mod 10 = 48 + n mod 10"
    using arg_cong [OF heads, of byte_of] unfolding digit .
  then have "m mod 10 = n mod 10" by simp
  moreover have "m div 10 = n div 10"
  proof (cases "m < 10")
    case True
    then have "n < 10" using tails by (cases "n < 10") (simp_all add: dec_rev.simps [of "n div 10"])
    with True show ?thesis by simp
  next
    case False
    then have "\<not> n < 10" using tails by (auto simp: dec_rev.simps [of "m div 10"])
    with False tails 1(1) show ?thesis by simp
  qed
  ultimately show ?case by (metis div_mult_mod_eq)
qed

lemma fmt_dec_inj: "fmt_dec m = fmt_dec n \<longleftrightarrow> m = n"
  using dec_rev_inj by (auto simp: fmt_dec_def)

lemma fmt_dec_no_colon [simp]: "CHR '':'' \<notin> set (fmt_dec n)"
  using dec_rev_digits [of "CHR '':''" n] by (auto simp: fmt_dec_def is_ascii_digit_def byte_of_def)

end
