(* ===== verification/Ieee.thy ===== *)
theory Ieee
  imports Prelude "HOL-Library.Log_Nat"
begin

text \<open>
  IEEE 754 binary64 and binary32 as Rust's \<^verbatim>\<open>f64\<close> and \<^verbatim>\<open>f32\<close> use them, and \<^verbatim>\<open>std::time::Duration\<close>. A finite value
  is the rational it denotes; every arithmetic operation rounds the exact rational result to
  the nearest representable value, ties to even, with gradual underflow and overflow to an
  infinity. The two zeros are one value, which no code modelled here can tell apart.

  A \<open>duration\<close> and an \<open>instant\<close> are whole nanoseconds. \<^verbatim>\<open>as_secs_f64\<close> and
  \<^verbatim>\<open>from_secs_f64\<close> are the conversions of the standard library, the second with its panics.
\<close>

section \<open>Rounding to the nearest integer, ties to even\<close>

definition round_even :: "rat \<Rightarrow> int" where
  "round_even q =
     (let f = \<lfloor>q\<rfloor>; d = q - of_int f
      in if d < 1 / 2 then f else if 1 / 2 < d then f + 1 else if even f then f else f + 1)"

lemma round_even_of_int [simp]: "round_even (of_int n) = n"
  by (simp add: round_even_def)

lemma round_even_floor: "\<lfloor>q\<rfloor> \<le> round_even q" "round_even q \<le> \<lfloor>q\<rfloor> + 1"
  by (simp_all add: round_even_def Let_def)

lemma round_even_mono: "p \<le> q \<Longrightarrow> round_even p \<le> round_even q"
proof -
  assume le: "p \<le> q"
  then have fl: "\<lfloor>p\<rfloor> \<le> \<lfloor>q\<rfloor>" by (rule floor_mono)
  show ?thesis
  proof (cases "\<lfloor>p\<rfloor> = \<lfloor>q\<rfloor>")
    case True
    then show ?thesis using le by (auto simp: round_even_def Let_def)
  next
    case False
    with fl have "\<lfloor>p\<rfloor> + 1 \<le> \<lfloor>q\<rfloor>" by simp
    then show ?thesis using round_even_floor [of p] round_even_floor [of q] by linarith
  qed
qed

lemma round_even_le_int: "q \<le> of_int n \<Longrightarrow> round_even q \<le> n"
  using round_even_mono [of q "of_int n"] by simp

lemma round_even_ge_int: "of_int n \<le> q \<Longrightarrow> n \<le> round_even q"
  using round_even_mono [of "of_int n" q] by simp

lemma round_even_near: "\<bar>of_int (round_even q) - q\<bar> \<le> 1 / 2"
proof -
  have "of_int \<lfloor>q\<rfloor> \<le> q" "q < of_int \<lfloor>q\<rfloor> + 1"
    using floor_correct [of q] by simp_all
  then show ?thesis
    by (auto simp: round_even_def Let_def abs_le_iff)
qed

section \<open>The grid of a binary format\<close>

text \<open>\<open>binexp q\<close> is the exponent of the leading bit of a positive \<open>q\<close>.\<close>

definition binexp :: "rat \<Rightarrow> int" where
  "binexp q =
     (let (a, b) = quotient_of q; e = bitlen a - bitlen b
      in if 2 powi e \<le> q then e else e - 1)"

text \<open>
  A binary format is given by the number of fraction bits \<open>p\<close> of its significand and the least
  exponent \<open>emin\<close> of a normal value. \<open>ulp_of p emin q\<close> is the spacing of its values around a
  positive \<open>q\<close>, and \<open>round_to p emin q\<close> the nearest of them, ties to even, gradual underflow
  included and the exponent unbounded above.
\<close>

definition ulp_of :: "int \<Rightarrow> int \<Rightarrow> rat \<Rightarrow> rat" where
  "ulp_of p emin q = 2 powi (max (binexp q) emin - p)"

definition round_pos :: "int \<Rightarrow> int \<Rightarrow> rat \<Rightarrow> rat" where
  "round_pos p emin q = of_int (round_even (q / ulp_of p emin q)) * ulp_of p emin q"

definition round_to :: "int \<Rightarrow> int \<Rightarrow> rat \<Rightarrow> rat" where
  "round_to p emin q =
     (if q = 0 then 0 else if q < 0 then - round_pos p emin (- q) else round_pos p emin q)"

lemma ulp_of_pos [simp]: "0 < ulp_of p emin q"
  by (simp add: ulp_of_def)

lemma ulp_of_nonzero [simp]: "ulp_of p emin q \<noteq> 0"
  by (simp add: ulp_of_def)

lemma bitlen_pos_bounds:
  assumes "0 < a"
  shows "(2::rat) powi (bitlen a - 1) \<le> of_int a" "of_int a < (2::rat) powi bitlen a"
proof -
  have b: "2 ^ nat (bitlen a - 1) \<le> a" "a < 2 ^ nat (bitlen a)"
    using bitlen_bounds [OF assms] by simp_all
  have pos: "0 < bitlen a" using assms bitlen_nonneg [of a] bitlen_eq_zero_iff [of a] by linarith
  have "(2::rat) powi (bitlen a - 1) = of_int (2 ^ nat (bitlen a - 1))"
    using pos by (simp add: power_int_def)
  also have "\<dots> \<le> of_int a" using b(1) by (simp only: of_int_le_iff)
  finally show "(2::rat) powi (bitlen a - 1) \<le> of_int a" .
  have "(of_int a :: rat) < of_int (2 ^ nat (bitlen a))" using b(2) by (simp only: of_int_less_iff)
  also have "\<dots> = 2 powi bitlen a" using pos by (simp add: power_int_def)
  finally show "of_int a < (2::rat) powi bitlen a" .
qed

lemma binexp_bounds:
  assumes "0 < q"
  shows "2 powi binexp q \<le> q" "q < 2 powi (binexp q + 1)"
proof -
  obtain a b where ab: "quotient_of q = (a, b)" by force
  have b: "0 < b" using ab by (rule quotient_of_denom_pos)
  have q: "q = of_int a / of_int b" using ab by (rule quotient_of_div)
  have a: "0 < a" using assms b q by (simp add: zero_less_divide_iff)
  define e where "e = bitlen a - bitlen b"
  have "q < 2 powi bitlen a / 2 powi (bitlen b - 1)"
    unfolding q using bitlen_pos_bounds [OF a] bitlen_pos_bounds [OF b] a b
    by (intro frac_less) simp_all
  then have hi: "q < 2 powi (e + 1)"
    by (simp add: e_def power_int_diff [symmetric] algebra_simps)
  have "2 powi (bitlen a - 1) / 2 powi bitlen b \<le> q"
    unfolding q using bitlen_pos_bounds [OF a] bitlen_pos_bounds [OF b] a b
    by (intro frac_le) simp_all
  then have lo: "2 powi (e - 1) \<le> q"
    by (simp add: e_def power_int_diff [symmetric] algebra_simps)
  have "binexp q = (if 2 powi e \<le> q then e else e - 1)"
    by (simp add: binexp_def ab e_def)
  with hi lo show "2 powi binexp q \<le> q" "q < 2 powi (binexp q + 1)"
    by (auto split: if_splits)
qed

lemma two_powi_less_iff: "(2::rat) powi a < 2 powi b \<longleftrightarrow> a < b"
proof
  assume lt: "(2::rat) powi a < 2 powi b"
  show "a < b"
  proof (rule ccontr)
    assume "\<not> a < b"
    then have "(2::rat) powi b \<le> 2 powi a" by (intro power_int_increasing) simp_all
    with lt show False by simp
  qed
qed (simp add: power_int_strict_increasing)

lemma binexp_mono: "0 < p \<Longrightarrow> p \<le> q \<Longrightarrow> binexp p \<le> binexp q"
proof (rule ccontr)
  assume p: "0 < p" "p \<le> q" and "\<not> binexp p \<le> binexp q"
  then have "(2::rat) powi (binexp q + 1) \<le> 2 powi binexp p"
    by (intro power_int_increasing) simp_all
  also have "\<dots> \<le> p" using p by (intro binexp_bounds)
  finally show False using binexp_bounds(2) [of q] p by simp
qed

lemma binexp_eqI: "2 powi e \<le> q \<Longrightarrow> q < 2 powi (e + 1) \<Longrightarrow> binexp q = e"
proof -
  assume q: "2 powi e \<le> q" "q < 2 powi (e + 1)"
  have pos: "0 < q" using q(1) by (rule less_le_trans [rotated]) simp
  have "(2::rat) powi e < 2 powi (binexp q + 1)" using binexp_bounds(2) [OF pos] q by linarith
  moreover have "(2::rat) powi binexp q < 2 powi (e + 1)" using binexp_bounds(1) [OF pos] q by linarith
  ultimately show ?thesis by (simp add: two_powi_less_iff)
qed

lemma round_even_eqI: "\<bar>q - of_int n\<bar> < 1 / 2 \<Longrightarrow> round_even q = n"
proof -
  assume near: "\<bar>q - of_int n\<bar> < 1 / 2"
  have "\<bar>of_int (round_even q) - (of_int n :: rat)\<bar> < 1"
    using near round_even_near [of q] by linarith
  then show ?thesis by linarith
qed

lemma round_pos_le_grid:
  "q \<le> of_int k * ulp_of p emin q \<Longrightarrow> round_pos p emin q \<le> of_int k * ulp_of p emin q"
  by (simp add: round_pos_def round_even_le_int pos_divide_le_eq)

lemma round_pos_ge_grid:
  "of_int k * ulp_of p emin q \<le> q \<Longrightarrow> of_int k * ulp_of p emin q \<le> round_pos p emin q"
  by (simp add: round_pos_def round_even_ge_int pos_le_divide_eq)

lemma round_pos_nonneg: "0 \<le> q \<Longrightarrow> 0 \<le> round_pos p emin q"
  using round_pos_ge_grid [of 0 p emin q] by simp

text \<open>A power of two at or above the underflow threshold lies on every coarser and finer grid.\<close>

lemma power_two_on_grid:
  assumes "max (binexp q) emin - p \<le> m"
  shows "2 powi m = of_int (2 ^ nat (m - (max (binexp q) emin - p))) * ulp_of p emin q"
  using assms by (simp add: ulp_of_def power_int_def [symmetric] power_int_add [symmetric]
      of_nat_power [symmetric] flip: power_int_of_nat)

lemma round_pos_mono:
  assumes x: "0 < x" and xy: "x \<le> y" and p: "0 \<le> p"
  shows "round_pos p emin x \<le> round_pos p emin y"
proof (cases "max (binexp x) emin = max (binexp y) emin")
  case True
  then have "ulp_of p emin x = ulp_of p emin y" by (simp add: ulp_of_def)
  moreover have "x / ulp_of p emin y \<le> y / ulp_of p emin y"
    using xy by (intro divide_right_mono) (simp_all add: less_imp_le)
  ultimately show ?thesis
    using round_even_mono by (simp add: round_pos_def)
next
  case False
  define m where "m = binexp y"
  from False binexp_mono [OF x xy] have m: "max (binexp x) emin < m" "emin < m"
    by (auto simp: m_def max_def split: if_splits)
  have "x < 2 powi (binexp x + 1)" using x by (rule binexp_bounds)
  also have "\<dots> \<le> (2::rat) powi m" using m by (intro power_int_increasing) simp_all
  finally have "x \<le> 2 powi m" by simp
  then have "round_pos p emin x \<le> 2 powi m"
    using power_two_on_grid [of x emin p m] m p
      round_pos_le_grid [of x "2 ^ nat (m - (max (binexp x) emin - p))" p emin] by simp
  also have "2 powi m \<le> y" using binexp_bounds(1) [of y] x xy by (simp add: m_def)
  then have "2 powi m \<le> round_pos p emin y"
    using power_two_on_grid [of y emin p m] m p
      round_pos_ge_grid [of "2 ^ nat (m - (max (binexp y) emin - p))" p emin y] by (simp add: m_def)
  finally show ?thesis .
qed

lemma round_to_0 [simp]: "round_to p emin 0 = 0"
  by (simp add: round_to_def)

lemma round_to_minus [simp]: "round_to p emin (- q) = - round_to p emin q"
  by (simp add: round_to_def)

lemma round_to_nonneg: "0 \<le> q \<Longrightarrow> 0 \<le> round_to p emin q"
  by (simp add: round_to_def round_pos_nonneg)

lemma round_to_mono:
  assumes p: "0 \<le> p" and xy: "x \<le> y"
  shows "round_to p emin x \<le> round_to p emin y"
proof -
  consider "x < 0" "y < 0" | "x \<le> 0" "0 \<le> y" | "0 < x" using xy by linarith
  then show ?thesis
  proof cases
    case 1
    then show ?thesis using round_pos_mono [of "- y" "- x" p emin] xy p by (simp add: round_to_def)
  next
    case 2
    then have "0 \<le> round_to p emin (- x)" "0 \<le> round_to p emin y"
      by (simp_all only: round_to_nonneg neg_0_le_iff_le)
    then show ?thesis by simp
  next
    case 3
    then show ?thesis using round_pos_mono [of x y p emin] xy p by (simp add: round_to_def)
  qed
qed

text \<open>The rounding error is at most half the spacing.\<close>

lemma round_pos_near: "\<bar>round_pos p emin q - q\<bar> \<le> ulp_of p emin q / 2"
proof -
  let ?u = "ulp_of p emin q"
  have "round_pos p emin q - q = (of_int (round_even (q / ?u)) - q / ?u) * ?u"
    by (simp add: round_pos_def field_simps)
  also have "\<bar>\<dots>\<bar> = \<bar>of_int (round_even (q / ?u)) - q / ?u\<bar> * ?u"
    by (simp add: abs_mult abs_of_pos)
  also have "\<dots> \<le> 1 / 2 * ?u"
    by (intro mult_right_mono round_even_near) (simp add: less_imp_le)
  finally show ?thesis by simp
qed

text \<open>A multiple of a power of two not below its own spacing is exact, and rounding gives one.\<close>

lemma round_pos_exact:
  assumes q: "q = of_int k * 2 powi m" and m: "max (binexp q) emin - p \<le> m"
  shows "round_pos p emin q = q"
proof -
  let ?k = "k * 2 ^ nat (m - (max (binexp q) emin - p))"
  have "q = of_int k * (of_int (2 ^ nat (m - (max (binexp q) emin - p))) * ulp_of p emin q)"
    using q power_two_on_grid [OF m] by simp
  then have "q / ulp_of p emin q = of_int ?k" by (simp add: divide_eq_eq)
  then have "round_pos p emin q = of_int ?k * ulp_of p emin q"
    by (simp only: round_pos_def round_even_of_int)
  also have "\<dots> = q" using \<open>q / ulp_of p emin q = of_int ?k\<close> by (simp add: divide_eq_eq)
  finally show ?thesis .
qed

lemma round_pos_idem:
  assumes q: "0 < q" and p: "0 \<le> p" and r: "0 < round_pos p emin q"
  shows "round_pos p emin (round_pos p emin q) = round_pos p emin q"
proof -
  define e where "e = max (binexp q) emin - p"
  let ?r = "round_pos p emin q" and ?top = "2 powi (max (binexp q) emin + 1)"
  have on: "?r = of_int (round_even (q / ulp_of p emin q)) * 2 powi e"
    by (simp add: round_pos_def ulp_of_def e_def)
  have "q < 2 powi (binexp q + 1)" by (rule binexp_bounds [OF q])
  also have "\<dots> \<le> (?top :: rat)" by (intro power_int_increasing) simp_all
  finally have "?r \<le> ?top"
    using power_two_on_grid [of q emin p "max (binexp q) emin + 1"] p
      round_pos_le_grid [of q "2 ^ nat (max (binexp q) emin + 1 - (max (binexp q) emin - p))" p emin] by simp
  then consider "?r < ?top" | "?r = ?top" by linarith
  then show ?thesis
  proof cases
    case 1
    then have "(2::rat) powi binexp ?r < ?top" using binexp_bounds(1) [OF r] by linarith
    then have "binexp ?r \<le> max (binexp q) emin" unfolding two_powi_less_iff by simp
    then show ?thesis by (intro round_pos_exact [OF on]) (simp add: e_def)
  next
    case 2
    then have "binexp ?r = max (binexp q) emin + 1" by (intro binexp_eqI) (simp_all add: two_powi_less_iff)
    then show ?thesis using 2 p
      by (intro round_pos_exact [where k = 1 and m = "max (binexp q) emin + 1"]) simp_all
  qed
qed

lemma round_to_idem: "0 \<le> p \<Longrightarrow> round_to p emin (round_to p emin q) = round_to p emin q"
proof -
  assume p: "0 \<le> p"
  have pos: "round_to p emin (round_pos p emin x) = round_pos p emin x" if x: "0 < x" for x
    using round_pos_idem [OF x p, of emin] round_pos_nonneg [of x p emin] x
    by (auto simp: round_to_def)
  consider "q < 0" | "q = 0" | "0 < q" by linarith
  then show ?thesis
  proof cases
    case 1
    then have "round_to p emin q = - round_pos p emin (- q)" by (simp add: round_to_def)
    with pos [of "- q"] 1 show ?thesis by simp
  next
    case 3
    then have "round_to p emin q = round_pos p emin q" by (simp add: round_to_def)
    with pos [of q] 3 show ?thesis by simp
  qed simp
qed

text \<open>Integers of at most \<open>p + 1\<close> bits are exact.\<close>

lemma round_to_of_nat:
  assumes n: "n < 2 ^ Suc k" and emin: "emin \<le> 0"
  shows "round_to (int k) emin (of_nat n) = of_nat n"
proof (cases "n = 0")
  case False
  then have pos: "0 < (of_nat n :: rat)" by simp
  have "(of_nat n :: rat) < of_nat (2 ^ Suc k)" using n by (simp only: of_nat_less_iff)
  then have "(of_nat n :: rat) < 2 powi int (Suc k)"
    by (simp only: power_int_of_nat of_nat_power of_nat_numeral)
  with binexp_bounds(1) [OF pos] have "(2::rat) powi binexp (of_nat n) < 2 powi int (Suc k)" by linarith
  then have "binexp (of_nat n) \<le> int k" unfolding two_powi_less_iff by simp
  with emin have "round_pos (int k) emin (of_nat n) = of_nat n"
    by (intro round_pos_exact [where k = "int n" and m = 0]) simp_all
  with pos show ?thesis by (simp add: round_to_def)
qed simp

text \<open>
  Evaluation: the rounding of a positive rational is decided by its binary exponent and the
  nearest multiple of the grid spacing, so concrete values are computed by plain arithmetic.
\<close>

lemma round_to_eqI:
  assumes "2 powi e \<le> q" "q < 2 powi (e + 1)" "emin \<le> e"
    and "\<bar>q / 2 powi (e - p) - of_int n\<bar> < 1 / 2"
  shows "round_to p emin q = of_int n * 2 powi (e - p)"
proof -
  have pos: "0 < q" using assms(1) by (rule less_le_trans [rotated]) simp
  have "ulp_of p emin q = 2 powi (e - p)"
    using binexp_eqI [OF assms(1,2)] assms(3) by (simp add: ulp_of_def)
  with assms(4) pos show ?thesis by (simp add: round_to_def round_pos_def round_even_eqI)
qed

section \<open>Rounding to binary64 and to binary32\<close>

definition rnd :: "rat \<Rightarrow> rat" where
  "rnd = round_to 52 (- 1022)"

definition rnd32 :: "rat \<Rightarrow> rat" where
  "rnd32 = round_to 23 (- 126)"

lemma rnd_0 [simp]: "rnd 0 = 0"
  by (simp add: rnd_def)

lemma rnd32_0 [simp]: "rnd32 0 = 0"
  by (simp add: rnd32_def)

lemma rnd_minus [simp]: "rnd (- q) = - rnd q"
  by (simp add: rnd_def)

lemma rnd32_minus [simp]: "rnd32 (- q) = - rnd32 q"
  by (simp add: rnd32_def)

lemma rnd_nonneg [intro]: "0 \<le> q \<Longrightarrow> 0 \<le> rnd q"
  by (simp add: rnd_def round_to_nonneg)

lemma rnd32_nonneg [intro]: "0 \<le> q \<Longrightarrow> 0 \<le> rnd32 q"
  by (simp add: rnd32_def round_to_nonneg)

lemma rnd_mono: "p \<le> q \<Longrightarrow> rnd p \<le> rnd q"
  by (simp add: rnd_def round_to_mono)

lemma rnd32_mono: "p \<le> q \<Longrightarrow> rnd32 p \<le> rnd32 q"
  by (simp add: rnd32_def round_to_mono)

lemma rnd32_idem [simp]: "rnd32 (rnd32 q) = rnd32 q"
  by (simp add: rnd32_def round_to_idem)

lemma rnd_of_nat: "n < 2 ^ 53 \<Longrightarrow> rnd (of_nat n) = of_nat n"
  using round_to_of_nat [of n 52 "- 1022"] by (simp add: rnd_def)

lemma rnd32_of_nat: "n < 2 ^ 24 \<Longrightarrow> rnd32 (of_nat n) = of_nat n"
  using round_to_of_nat [of n 23 "- 126"] by (simp add: rnd32_def)

lemmas rnd_eqI = round_to_eqI [where p = 52 and emin = "- 1022", folded rnd_def]
lemmas rnd32_eqI = round_to_eqI [where p = 23 and emin = "- 126", folded rnd32_def]

section \<open>binary64 values and operations\<close>

datatype f64 =
    NaN
  | Inf bool \<comment> \<open>\<open>Inf True\<close> is negative infinity\<close>
  | Fin rat

definition f64_max_finite :: rat where
  "f64_max_finite = 2 ^ 1024"

definition f64_of_rat :: "rat \<Rightarrow> f64" where
  "f64_of_rat q =
     (let r = rnd q
      in if f64_max_finite \<le> r then Inf False
         else if r \<le> - f64_max_finite then Inf True else Fin r)"

fun f64_neg :: "f64 \<Rightarrow> f64" where
  "f64_neg NaN = NaN"
| "f64_neg (Inf s) = Inf (\<not> s)"
| "f64_neg (Fin q) = Fin (- q)"

fun f64_add :: "f64 \<Rightarrow> f64 \<Rightarrow> f64" where
  "f64_add (Fin a) (Fin b) = f64_of_rat (a + b)"
| "f64_add (Fin a) (Inf s) = Inf s"
| "f64_add (Inf s) (Fin b) = Inf s"
| "f64_add (Inf s) (Inf t) = (if s = t then Inf s else NaN)"
| "f64_add _ _ = NaN"

definition f64_sub :: "f64 \<Rightarrow> f64 \<Rightarrow> f64" where
  "f64_sub x y = f64_add x (f64_neg y)"

fun f64_mul :: "f64 \<Rightarrow> f64 \<Rightarrow> f64" where
  "f64_mul (Fin a) (Fin b) = f64_of_rat (a * b)"
| "f64_mul (Fin a) (Inf s) = (if a = 0 then NaN else Inf (s \<noteq> (a < 0)))"
| "f64_mul (Inf s) (Fin b) = (if b = 0 then NaN else Inf (s \<noteq> (b < 0)))"
| "f64_mul (Inf s) (Inf t) = Inf (s \<noteq> t)"
| "f64_mul _ _ = NaN"

fun f64_div :: "f64 \<Rightarrow> f64 \<Rightarrow> f64" where
  "f64_div (Fin a) (Fin b) =
     (if b = 0 then (if a = 0 then NaN else Inf (a < 0)) else f64_of_rat (a / b))"
| "f64_div (Fin a) (Inf s) = Fin 0"
| "f64_div (Inf s) (Fin b) = Inf (s \<noteq> (b < 0))"
| "f64_div _ _ = NaN"

text \<open>Comparisons are false on \<open>NaN\<close>.\<close>

fun f64_less :: "f64 \<Rightarrow> f64 \<Rightarrow> bool" where
  "f64_less (Fin a) (Fin b) \<longleftrightarrow> a < b"
| "f64_less (Fin a) (Inf s) \<longleftrightarrow> \<not> s"
| "f64_less (Inf s) (Fin b) \<longleftrightarrow> s"
| "f64_less (Inf s) (Inf t) \<longleftrightarrow> s \<and> \<not> t"
| "f64_less _ _ \<longleftrightarrow> False"

definition f64_le :: "f64 \<Rightarrow> f64 \<Rightarrow> bool" where
  "f64_le x y \<longleftrightarrow> x \<noteq> NaN \<and> y \<noteq> NaN \<and> \<not> f64_less y x"

text \<open>\<^verbatim>\<open>f64::min\<close> and \<^verbatim>\<open>f64::max\<close> return the other operand when one is \<open>NaN\<close>.\<close>

definition f64_min :: "f64 \<Rightarrow> f64 \<Rightarrow> f64" where
  "f64_min x y = (if x = NaN then y else if y = NaN then x else if f64_less y x then y else x)"

definition f64_max :: "f64 \<Rightarrow> f64 \<Rightarrow> f64" where
  "f64_max x y = (if x = NaN then y else if y = NaN then x else if f64_less x y then y else x)"

text \<open>Order of the extended rationals underlying the non-\<open>NaN\<close> values, as one number per value.\<close>

definition is_f64 :: "f64 \<Rightarrow> bool" where
  "is_f64 x \<longleftrightarrow> (case x of Fin q \<Rightarrow> rnd q = q \<and> \<bar>q\<bar> < f64_max_finite | _ \<Rightarrow> True)"

section \<open>binary32 values and operations\<close>

type_synonym f32 = f64

definition f32_of_rat :: "rat \<Rightarrow> f32" where
  "f32_of_rat q =
     (let r = rnd32 q in if 2 ^ 128 \<le> r then Inf False else if r \<le> - (2 ^ 128) then Inf True else Fin r)"

fun is_finite_f :: "f32 \<Rightarrow> bool" where
  "is_finite_f (Fin q) = True"
| "is_finite_f _ = False"

text \<open>\<^verbatim>\<open>f32::clamp\<close> with ordered, non-NaN bounds: NaN passes through.\<close>

definition f32_clamp :: "f32 \<Rightarrow> f32 \<Rightarrow> f32 \<Rightarrow> f32" where
  "f32_clamp x lo hi =
     (let y = (if f64_less x lo then lo else x) in if f64_less hi y then hi else y)"

fun f32_add :: "f32 \<Rightarrow> f32 \<Rightarrow> f32" where
  "f32_add (Fin a) (Fin b) = f32_of_rat (a + b)"
| "f32_add (Fin a) (Inf s) = Inf s"
| "f32_add (Inf s) (Fin b) = Inf s"
| "f32_add (Inf s) (Inf t) = (if s = t then Inf s else NaN)"
| "f32_add _ _ = NaN"

fun f32_mul :: "f32 \<Rightarrow> f32 \<Rightarrow> f32" where
  "f32_mul (Fin a) (Fin b) = f32_of_rat (a * b)"
| "f32_mul (Fin a) (Inf s) = (if a = 0 then NaN else Inf (s \<noteq> (a < 0)))"
| "f32_mul (Inf s) (Fin b) = (if b = 0 then NaN else Inf (s \<noteq> (b < 0)))"
| "f32_mul (Inf s) (Inf t) = Inf (s \<noteq> t)"
| "f32_mul _ _ = NaN"

definition f32_sub :: "f32 \<Rightarrow> f32 \<Rightarrow> f32" where
  "f32_sub x y = f32_add x (f64_neg y)"

fun f32_div :: "f32 \<Rightarrow> f32 \<Rightarrow> f32" where
  "f32_div (Fin a) (Fin b) =
     (if b = 0 then (if a = 0 then NaN else Inf (a < 0)) else f32_of_rat (a / b))"
| "f32_div (Fin a) (Inf s) = Fin 0"
| "f32_div (Inf s) (Fin b) = Inf (s \<noteq> (b < 0))"
| "f32_div _ _ = NaN"

fun f32_abs :: "f32 \<Rightarrow> f32" where
  "f32_abs NaN = NaN"
| "f32_abs (Inf s) = Inf False"
| "f32_abs (Fin q) = Fin \<bar>q\<bar>"

lemma f32_clamp_finite: "is_finite_f x \<Longrightarrow> is_finite_f (f32_clamp x (Fin a) (Fin b))"
  by (cases x) (simp_all add: f32_clamp_def Let_def)

lemma f32_clamp_range:
  "is_finite_f x \<Longrightarrow> a \<le> b \<Longrightarrow>
     f64_le (Fin a) (f32_clamp x (Fin a) (Fin b)) \<and> f64_le (f32_clamp x (Fin a) (Fin b)) (Fin b)"
  by (cases x) (auto simp: f32_clamp_def Let_def f64_le_def)

lemma f32_of_rat_small: "\<bar>q\<bar> \<le> 2 \<Longrightarrow> f32_of_rat q = Fin (rnd32 q)"
proof -
  assume "\<bar>q\<bar> \<le> 2"
  then have "- q \<le> 2" "q \<le> 2" by (simp_all add: abs_le_iff)
  then have "- rnd32 q \<le> 2" "rnd32 q \<le> 2"
    using rnd32_mono [of q 2] rnd32_mono [of "- q" 2] rnd32_of_nat [of 2] by simp_all
  then show ?thesis by (simp add: f32_of_rat_def Let_def)
qed

section \<open>Durations\<close>

type_synonym duration = nat
type_synonym instant = nat

abbreviation (input) nanos_per_sec :: nat where
  "nanos_per_sec \<equiv> 1000000000"

definition duration_limit :: nat where
  "duration_limit = 2 ^ 64 * nanos_per_sec"

definition from_secs :: "nat \<Rightarrow> duration" where
  "from_secs n = n * nanos_per_sec"

definition as_secs_f64 :: "duration \<Rightarrow> f64" where
  "as_secs_f64 d =
     f64_add (f64_of_rat (of_nat (d div nanos_per_sec)))
       (f64_div (f64_of_rat (of_nat (d mod nanos_per_sec))) (Fin (of_nat nanos_per_sec)))"

text \<open>\<open>None\<close> is the panic on a negative, non-finite or too large number of seconds.\<close>

definition from_secs_f64 :: "f64 \<Rightarrow> duration option" where
  "from_secs_f64 x =
     (case x of
        Fin q \<Rightarrow>
          if q < 0 then None
          else (let n = nat (round_even (q * of_nat nanos_per_sec))
                in if n < duration_limit then Some n else None)
      | _ \<Rightarrow> None)"

definition saturating_duration_since :: "instant \<Rightarrow> instant \<Rightarrow> duration" where
  "saturating_duration_since now earlier = now - earlier"

section \<open>Bounds by powers of two\<close>

lemma rnd_le_pow2: "q \<le> 2 ^ n \<Longrightarrow> rnd q \<le> 2 ^ n" if "n \<le> 1023"
proof -
  assume q: "q \<le> 2 ^ n"
  have "rnd (2 powi int n) = of_int (2 ^ 52) * 2 powi (int n - 52)"
  proof (rule rnd_eqI)
    show "\<bar>2 powi int n / 2 powi (int n - 52) - of_int (2 ^ 52)\<bar> < (1/2 :: rat)"
      by (simp add: power_int_diff)
    show "(2::rat) powi int n < 2 powi (int n + 1)" unfolding two_powi_less_iff by simp
  qed simp_all
  also have "\<dots> = 2 powi int n" by (simp add: power_int_diff)
  finally have "rnd (2 ^ n) = 2 ^ n" by simp
  with rnd_mono [OF q] show ?thesis by simp
qed

lemma rnd_abs_le_pow2: "n \<le> 1023 \<Longrightarrow> \<bar>q\<bar> \<le> 2 ^ n \<Longrightarrow> \<bar>rnd q\<bar> \<le> 2 ^ n"
  using rnd_le_pow2 [of n q] rnd_le_pow2 [of n "- q"] by (simp add: abs_le_iff)

lemma f64_of_rat_Fin: "\<bar>q\<bar> \<le> 2 ^ 1023 \<Longrightarrow> f64_of_rat q = Fin (rnd q)"
proof -
  assume "\<bar>q\<bar> \<le> 2 ^ 1023"
  then have "\<bar>rnd q\<bar> \<le> 2 ^ 1023" by (intro rnd_abs_le_pow2) simp_all
  also have "(2::rat) ^ 1023 < 2 ^ 1024" by simp
  finally have "\<bar>rnd q\<bar> < f64_max_finite" by (simp add: f64_max_finite_def)
  then show ?thesis by (auto simp: f64_of_rat_def Let_def)
qed

lemma as_secs_f64_Fin:
  assumes "d < 2 ^ k * 1000000000" and k: "k \<le> 64"
  shows "\<exists>s. as_secs_f64 d = Fin s \<and> 0 \<le> s \<and> s \<le> 2 ^ Suc k"
proof -
  let ?secs = "of_nat (d div 1000000000) :: rat" and ?nanos = "of_nat (d mod 1000000000) :: rat"
  have big: "(2::rat) ^ k \<le> 2 ^ 1023" "(2::rat) ^ Suc k \<le> 2 ^ 1023"
    by (rule power_increasing; use k in simp)+
  have "d div 1000000000 < 2 ^ k"
    using assms by (simp add: less_mult_imp_div_less)
  then have "?secs \<le> of_nat (2 ^ k)" by (simp only: of_nat_le_iff less_imp_le)
  then have s: "?secs \<le> 2 ^ k" by simp
  have n: "?nanos \<le> of_nat 1000000000"
    by (simp only: of_nat_le_iff mod_less_divisor less_imp_le zero_less_numeral)
  have rs: "f64_of_rat ?secs = Fin (rnd ?secs)" "0 \<le> rnd ?secs"
    using order_trans [OF s big(1)] by (auto intro!: f64_of_rat_Fin)
  have rsk: "rnd ?secs \<le> 2 ^ k"
    by (rule rnd_le_pow2) (use s k in simp_all)
  have rn: "f64_of_rat ?nanos = Fin (rnd ?nanos)" "rnd ?nanos = ?nanos"
    using n by (auto intro!: f64_of_rat_Fin rnd_of_nat order_trans [OF n])
  have q: "0 \<le> ?nanos / 1000000000" "?nanos / 1000000000 \<le> 1" using n by simp_all
  then have rq: "f64_of_rat (?nanos / 1000000000) = Fin (rnd (?nanos / 1000000000))"
      "0 \<le> rnd (?nanos / 1000000000)" "rnd (?nanos / 1000000000) \<le> 1"
    using rnd_le_pow2 [of 0 "?nanos / 1000000000"] by (auto intro!: f64_of_rat_Fin elim: order_trans)
  define t where "t = rnd ?secs + rnd (?nanos / 1000000000)"
  have "1 \<le> (2::rat) ^ k" by simp
  then have t: "0 \<le> t" "t \<le> 2 ^ Suc k" using rs rsk rq unfolding t_def power_Suc by linarith+
  have "as_secs_f64 d = f64_of_rat t"
    using rs rn rq by (simp add: as_secs_f64_def t_def)
  also have "\<dots> = Fin (rnd t)"
    using t order_trans [OF t(2) big(2)] by (intro f64_of_rat_Fin) simp
  finally have "as_secs_f64 d = Fin (rnd t)" .
  moreover have "rnd t \<le> 2 ^ Suc k" by (rule rnd_le_pow2) (use t k in simp_all)
  ultimately show ?thesis using t by (auto intro: rnd_nonneg)
qed

lemma tenth_f64: "f64_of_rat (1 / 10) = Fin (3602879701896397 / 36028797018963968)"
proof -
  have "rnd (1 / 10) = of_int 7205759403792794 * 2 powi (- 4 - 52)"
    by (rule rnd_eqI) (simp_all add: power_int_def power_divide)
  also have "\<dots> = 3602879701896397 / 36028797018963968" by (simp add: power_int_def power_divide)
  finally have "rnd (1 / 10) = 3602879701896397 / 36028797018963968" .
  then show ?thesis using f64_of_rat_Fin [of "1 / 10"] by (simp add: order_trans [of _ 1])
qed

lemma from_secs_f64_Some:
  assumes "0 \<le> q" "q \<le> 2 ^ 63"
  shows "from_secs_f64 (Fin q) = Some (nat (round_even (q * 1000000000)))"
    "nat (round_even (q * 1000000000)) < duration_limit"
proof -
  have "q * 1000000000 \<le> 2 ^ 63 * 1000000000" using assms(2) by simp
  also have "\<dots> = of_int (2 ^ 63 * 1000000000)" by simp
  finally have "round_even (q * 1000000000) \<le> 2 ^ 63 * 1000000000"
    by (rule round_even_le_int)
  then show lim: "nat (round_even (q * 1000000000)) < duration_limit"
    by (simp add: duration_limit_def)
  then show "from_secs_f64 (Fin q) = Some (nat (round_even (q * 1000000000)))"
    using assms(1) by (simp add: from_secs_f64_def Let_def)
qed

lemma max_tenth_nanos:
  assumes "0 \<le> q" "q \<le> r" "r \<le> 2 ^ 63"
  shows "\<exists>d hi. from_secs_f64 (f64_max (Fin q) (f64_of_rat (1 / 10))) = Some d \<and>
           from_secs_f64 (f64_max (Fin r) (f64_of_rat (1 / 10))) = Some hi \<and>
           100000000 \<le> d \<and> d \<le> hi \<and> hi < duration_limit"
proof -
  define t :: rat where "t = 3602879701896397 / 36028797018963968"
  define q' where "q' = max q t"
  define r' where "r' = max r t"
  have mx: "f64_max (Fin q) (f64_of_rat (1 / 10)) = Fin q'" "f64_max (Fin r) (f64_of_rat (1 / 10)) = Fin r'"
    by (auto simp: f64_max_def tenth_f64 q'_def r'_def t_def)
  have t: "0 \<le> t" "t \<le> 2 ^ 63" by (simp_all add: t_def)
  have bounds: "0 \<le> q'" "q' \<le> 2 ^ 63" "0 \<le> r'" "r' \<le> 2 ^ 63" "q' \<le> r'" "t \<le> q'"
    using assms t by (auto simp: q'_def r'_def max_def)
  have "round_even (t * 1000000000) = 100000000"
    by (rule round_even_eqI) (simp add: t_def)
  moreover have "round_even (t * 1000000000) \<le> round_even (q' * 1000000000)"
    "round_even (q' * 1000000000) \<le> round_even (r' * 1000000000)"
    using bounds by (auto intro!: round_even_mono)
  ultimately show ?thesis
    using from_secs_f64_Some [OF bounds(1,2)] from_secs_f64_Some [OF bounds(3,4)] by (auto simp: mx)
qed

end
