(* ===== verification/Device_Types.thy ===== *)
theory Device_Types
  imports Rust_Str Ieee
begin

text \<open>
  Identity and description types of \<^verbatim>\<open>hypercolor-types/src/device.rs\<close>: device states,
  typed errors and their recovery class, transport identifiers, connection handles with
  their global counter, fingerprints and the device id derived from one.

  A \<open>device_id\<close> is a UUID (128 bits). Topology, colour format and layout hint of a
  segment are one opaque component of type \<open>'p\<close>: no operation modelled here looks into them.
\<close>

type_synonym device_id = "128 word"

section \<open>States, errors, recovery\<close>

datatype device_state = Known | Connected | Active | Reconnecting | Disabled

fun variant_name :: "device_state \<Rightarrow> string" where
  "variant_name Known = ''Known''"
| "variant_name Connected = ''Connected''"
| "variant_name Active = ''Active''"
| "variant_name Reconnecting = ''Reconnecting''"
| "variant_name Disabled = ''Disabled''"

definition is_renderable :: "device_state \<Rightarrow> bool" where
  "is_renderable s \<longleftrightarrow> s = Connected \<or> s = Active"

datatype device_error =
    ConnectionFailed string string
  | WriteError string string
  | Timeout duration
  | NotAdopted device_id
  | NotFound string
  | ProtocolError string string
  | Disconnected string
  | PermissionDenied string string
  | InvalidHandle u64 string
  | InvalidTransition string string string
  | Unsupported string string

datatype error_recoverability = Retry | Reconnect | Permanent

fun recoverability :: "device_error \<Rightarrow> error_recoverability" where
  "recoverability (Timeout _) = Retry"
| "recoverability (ConnectionFailed _ _) = Reconnect"
| "recoverability (WriteError _ _) = Reconnect"
| "recoverability (ProtocolError _ _) = Reconnect"
| "recoverability (Disconnected _) = Reconnect"
| "recoverability (NotAdopted _) = Permanent"
| "recoverability (NotFound _) = Permanent"
| "recoverability (PermissionDenied _ _) = Permanent"
| "recoverability (InvalidHandle _ _) = Permanent"
| "recoverability (InvalidTransition _ _ _) = Permanent"
| "recoverability (Unsupported _ _) = Permanent"

section \<open>Fingerprints\<close>

datatype fingerprint_namespace = UsbNs | SmBusNs | NetNs | CloudNs | BridgeNs

fun namespace_str :: "fingerprint_namespace \<Rightarrow> string" where
  "namespace_str UsbNs = ''usb''"
| "namespace_str SmBusNs = ''smbus''"
| "namespace_str NetNs = ''net''"
| "namespace_str CloudNs = ''cloud''"
| "namespace_str BridgeNs = ''bridge''"

datatype device_fingerprint = DeviceFingerprint string

fun as_str :: "device_fingerprint \<Rightarrow> string" where
  "as_str (DeviceFingerprint s) = s"

text \<open>\<^verbatim>\<open>DeviceFingerprint::mint\<close>; \<open>None\<close> is the panic of its assertions.\<close>

definition mint :: "fingerprint_namespace \<Rightarrow> string \<Rightarrow> string \<Rightarrow> device_fingerprint option" where
  "mint ns driver key =
     (let driver = to_ascii_lowercase (trim driver)
      in if driver = [] \<or> CHR '':'' \<in> set driver then None
         else if key = [] then None
         else Some (DeviceFingerprint (namespace_str ns @ '':'' @ driver @ '':'' @ key)))"

definition fnv_prime :: u64 where "fnv_prime = 0x100000001B3"
definition fnv_offset_a :: u64 where "fnv_offset_a = 0xCBF29CE484222325"
definition fnv_offset_b :: u64 where "fnv_offset_b = 0x84222325CBF29CE4"

definition fnv_step :: "u64 \<times> u64 \<Rightarrow> char \<Rightarrow> u64 \<times> u64" where
  "fnv_step = (\<lambda>(a, b) c.
     let v = word_of_nat (byte_of c)
     in ((a XOR v) * fnv_prime, (b XOR word_rotl 1 v) * fnv_prime))"

definition be64 :: "u64 \<Rightarrow> bytes" where
  "be64 w = map (\<lambda>i. ucast (drop_bit (8 * (7 - i)) w)) [0..<8]"

text \<open>The sixteen bytes of the UUIDv8 derived from a fingerprint.\<close>

definition stable_device_bytes :: "device_fingerprint \<Rightarrow> bytes" where
  "stable_device_bytes fp =
     (let (a, b) = foldl fnv_step (fnv_offset_a, fnv_offset_b) (as_str fp);
          bs = be64 a @ be64 b;
          bs = bs[6 := (bs ! 6 AND 0x0F) OR 0x80]
      in bs[8 := (bs ! 8 AND 0x3F) OR 0x80])"

section \<open>Identifiers and handles\<close>

datatype ip_addr = V4 "32 word" | V6 "128 word"

datatype device_identifier =
    UsbHid u16 u16 "string option" "string option"
  | SmBus string u16
  | Network string "ip_addr option" "string option"
  | Bridge string string

fun display_short :: "device_identifier \<Rightarrow> string" where
  "display_short (UsbHid v p serial _) =
     ''USB '' @ fmt_hex True 4 (unat v) @ '':'' @ fmt_hex True 4 (unat p) @
     (case serial of Some s \<Rightarrow> '' ['' @ s @ '']'' | None \<Rightarrow> [])"
| "display_short (SmBus bus_path address) =
     ''SMBus '' @ bus_path @ '' [0x'' @ fmt_hex True 2 (unat address) @ '']''"
| "display_short (Network mac _ hostname) =
     (case hostname of Some h \<Rightarrow> h @ '' ('' @ mac @ '')'' | None \<Rightarrow> mac)"
| "display_short (Bridge service serial) = service @ '':'' @ serial"

fun identifier_fingerprint :: "device_identifier \<Rightarrow> string \<Rightarrow> device_fingerprint option" where
  "identifier_fingerprint (UsbHid v p serial usb_path) driver =
     (let key = (case serial of Some s \<Rightarrow> s
                 | None \<Rightarrow> (case usb_path of Some u \<Rightarrow> u | None \<Rightarrow> ''unknown''))
      in mint UsbNs driver (fmt_hex False 4 (unat v) @ '':'' @ fmt_hex False 4 (unat p) @ '':'' @ key))"
| "identifier_fingerprint (SmBus bus_path address) driver =
     mint SmBusNs driver (bus_path @ '':'' @ fmt_hex False 2 (unat address))"
| "identifier_fingerprint (Network mac _ _) driver = mint NetNs driver (to_ascii_lowercase mac)"
| "identifier_fingerprint (Bridge service serial) driver =
     mint BridgeNs driver (service @ '':'' @ serial)"

record device_handle =
  handle_id :: u64
  handle_device :: device_identifier
  handle_backend :: string

text \<open>
  \<^verbatim>\<open>DeviceHandle::new\<close> takes the next value of the process-wide counter
  \<^verbatim>\<open>NEXT_DEVICE_HANDLE_ID\<close>, passed and returned explicitly.
\<close>

definition new_handle :: "u64 \<Rightarrow> device_identifier \<Rightarrow> string \<Rightarrow> device_handle \<times> u64" where
  "new_handle next_id device backend =
     (\<lparr>handle_id = next_id, handle_device = device, handle_backend = backend\<rparr>, next_id + 1)"

section \<open>Device descriptions\<close>

datatype connection_type = CtUsb | CtSmBus | CtNetwork | CtBluetooth | CtBridge

datatype driver_transport_kind =
  TkNetwork | TkUsb | TkSmbus | TkMidi | TkSerial | TkVirtual | TkBridge | TkCustom string

record device_origin =
  driver_id :: string
  backend_id :: string
  transport :: driver_transport_kind
  protocol_id :: "string option"

record 'p segment_info =
  seg_name :: string
  seg_led_count :: u32
  seg_presentation :: 'p

datatype device_color_space = CsRgb | CsCieXy

record device_features =
  scroll_mode :: bool
  scroll_smart_reel :: bool
  scroll_acceleration :: bool
  max_display_frame_len :: "nat option"

record device_capabilities =
  led_count :: u32
  supports_direct :: bool
  supports_brightness :: bool
  has_display :: bool
  display_resolution :: "(u32 \<times> u32) option"
  max_fps :: u32
  color_space :: device_color_space
  features :: device_features

definition default_capabilities :: device_capabilities where
  "default_capabilities =
     \<lparr>led_count = 0, supports_direct = True, supports_brightness = False, has_display = False,
      display_resolution = None, max_fps = 60, color_space = CsRgb,
      features = \<lparr>scroll_mode = False, scroll_smart_reel = False, scroll_acceleration = False,
                  max_display_frame_len = None\<rparr>\<rparr>"

record device_family =
  family_id :: string
  family_name :: string

record 'p device_info =
  info_id :: device_id
  info_name :: string
  vendor :: string
  family :: device_family
  model :: "string option"
  conn_type :: connection_type
  origin :: device_origin
  segments :: "'p segment_info list"
  firmware_version :: "string option"
  capabilities :: device_capabilities

text \<open>\<^verbatim>\<open>Iterator::sum\<close> over \<^verbatim>\<open>u32\<close> wraps in release builds.\<close>

definition total_led_count :: "'p device_info \<Rightarrow> u32" where
  "total_led_count info = sum_list (map seg_led_count (segments info))"

definition info_driver_id :: "'p device_info \<Rightarrow> string" where
  "info_driver_id info = driver_id (origin info)"

definition output_backend_id :: "'p device_info \<Rightarrow> string" where
  "output_backend_id info = backend_id (origin info)"

datatype connect_behavior = AutoConnect | Deferred

definition should_auto_connect :: "connect_behavior \<Rightarrow> bool" where
  "should_auto_connect b \<longleftrightarrow> b = AutoConnect"

definition merge_behavior :: "connect_behavior \<Rightarrow> connect_behavior \<Rightarrow> connect_behavior" where
  "merge_behavior a b = (if a = AutoConnect \<or> b = AutoConnect then AutoConnect else Deferred)"

datatype display_rotation = Deg0 | Deg90 | Deg180 | Deg270

text \<open>\<^verbatim>\<open>brightness\<close> is an \<^verbatim>\<open>f32\<close>; only comparisons and \<^verbatim>\<open>clamp\<close> are applied to it.\<close>

record device_user_settings =
  set_name :: "string option"
  enabled :: bool
  brightness :: f64
  display_rotation :: display_rotation

definition default_user_settings :: device_user_settings where
  "default_user_settings =
     \<lparr>set_name = None, enabled = True, brightness = Fin 1, display_rotation = Deg0\<rparr>"

section \<open>Facts\<close>

lemma namespace_str_inject [simp]: "namespace_str a = namespace_str b \<longleftrightarrow> a = b"
  by (cases a; cases b) simp_all

lemma colon_free_append_eq:
  "CHR '':'' \<notin> set xs \<Longrightarrow> CHR '':'' \<notin> set ys \<Longrightarrow>
   xs @ '':'' @ r = ys @ '':'' @ s \<longleftrightarrow> xs = ys \<and> r = s"
proof (induction xs arbitrary: ys)
  case Nil
  then show ?case by (cases ys) auto
next
  case (Cons x xs)
  then show ?case by (cases ys) auto
qed

lemma colon_free_namespace [simp]: "CHR '':'' \<notin> set (namespace_str ns)"
  by (cases ns) simp_all

lemma mint_Some_iff:
  "mint ns driver key = Some fp \<longleftrightarrow>
     to_ascii_lowercase (trim driver) \<noteq> [] \<and> CHR '':'' \<notin> set (to_ascii_lowercase (trim driver)) \<and>
     key \<noteq> [] \<and>
     fp = DeviceFingerprint (namespace_str ns @ '':'' @ to_ascii_lowercase (trim driver) @ '':'' @ key)"
  by (auto simp: mint_def Let_def)

text \<open>A fingerprint determines its namespace, its canonical driver name and its key.\<close>

lemma mint_inject:
  assumes "mint ns d k = Some fp" "mint ns' d' k' = Some fp"
  shows "ns = ns' \<and> to_ascii_lowercase (trim d) = to_ascii_lowercase (trim d') \<and> k = k'"
proof -
  have "namespace_str ns @ '':'' @ to_ascii_lowercase (trim d) @ '':'' @ k =
      namespace_str ns' @ '':'' @ to_ascii_lowercase (trim d') @ '':'' @ k'"
    using assms by (auto simp: mint_Some_iff)
  then have "namespace_str ns = namespace_str ns'"
    and r: "to_ascii_lowercase (trim d) @ '':'' @ k = to_ascii_lowercase (trim d') @ '':'' @ k'"
    by (simp_all only: colon_free_append_eq colon_free_namespace not_False_eq_True simp_thms)
  moreover from r have "to_ascii_lowercase (trim d) = to_ascii_lowercase (trim d') \<and> k = k'"
    using assms by (subst (asm) colon_free_append_eq) (auto simp: mint_Some_iff)
  ultimately show ?thesis by simp
qed

lemma length_be64 [simp]: "length (be64 w) = 8"
  by (simp add: be64_def)

lemma length_stable_device_bytes [simp]: "length (stable_device_bytes fp) = 16"
  by (simp add: stable_device_bytes_def Let_def split: prod.split)

end
