(* ===== verification/State_Machine.thy ===== *)
theory State_Machine
  imports Device_Types
begin

text \<open>
  The per-device lifecycle state machine of \<^verbatim>\<open>hypercolor-core/src/device/state_machine.rs\<close>:
  connection states, reconnect backoff with jitter, flap detection and the bounded
  transition history.

  Every method is one definition over the record \<open>device_sm\<close>. A method that returns
  \<^verbatim>\<open>Result\<close> yields the machine and \<open>device_error + 'a\<close>; the methods that grow a backoff delay
  can panic in \<^verbatim>\<open>Duration::from_secs_f64\<close> and yield an option, \<open>None\<close> being the panic. The
  clock reading a method takes through \<^verbatim>\<open>Instant::now()\<close> is the argument \<open>clk\<close>.
\<close>

section \<open>Data\<close>

definition RECONNECT_STABLE_AFTER :: duration where
  "RECONNECT_STABLE_AFTER = from_secs 10"

definition FLAP_ESCALATION_THRESHOLD :: u32 where
  "FLAP_ESCALATION_THRESHOLD = 3"

record reconnect_policy =
  initial_delay :: duration
  max_delay :: duration
  backoff_factor :: f64
  max_attempts :: "u32 option"
  jitter :: f64

definition default_policy :: reconnect_policy where
  "default_policy =
     \<lparr>initial_delay = from_secs 1, max_delay = from_secs 60, backoff_factor = Fin 2,
      max_attempts = None, jitter = f64_of_rat (1 / 10)\<rparr>"

record reconnect_status =
  since :: instant
  attempt :: u32
  next_retry :: duration

record flap_escalation =
  esc_flaps :: u32
  esc_next_retry :: duration

record flap_tracker =
  connected_at :: "instant option"
  unproven_delay :: "duration option"
  flaps :: u32
  escalation_pending :: bool

definition default_flap :: flap_tracker where
  "default_flap =
     \<lparr>connected_at = None, unproven_delay = None, flaps = 0, escalation_pending = False\<rparr>"

record transition_record =
  tr_from :: string
  tr_to :: string
  tr_reason :: string

record device_sm =
  sm_state :: device_state
  sm_device :: device_identifier
  sm_handle :: "device_handle option"
  sm_reconnect :: "reconnect_status option"
  sm_policy :: reconnect_policy
  sm_flap :: flap_tracker
  last_transition :: instant
  transition_history :: "transition_record list"
  history_limit :: nat

definition with_policy :: "device_identifier \<Rightarrow> reconnect_policy \<Rightarrow> instant \<Rightarrow> device_sm" where
  "with_policy device policy clk =
     \<lparr>sm_state = Known, sm_device = device, sm_handle = None, sm_reconnect = None,
      sm_policy = policy, sm_flap = default_flap, last_transition = clk,
      transition_history = [], history_limit = 64\<rparr>"

section \<open>Shared helpers\<close>

definition set_state :: "device_sm \<Rightarrow> device_state \<Rightarrow> string \<Rightarrow> instant \<Rightarrow> device_sm" where
  "set_state m next_state reason clk =
     (let r = \<lparr>tr_from = variant_name (sm_state m), tr_to = variant_name next_state,
               tr_reason = reason\<rparr>;
          h = (if history_limit m \<le> length (transition_history m)
               then drop 1 (transition_history m) else transition_history m)
      in m\<lparr>sm_state := next_state, last_transition := clk, transition_history := h @ [r]\<rparr>)"

definition invalid_transition :: "device_sm \<Rightarrow> string \<Rightarrow> device_error" where
  "invalid_transition m to =
     InvalidTransition (display_short (sm_device m)) (variant_name (sm_state m)) to"

text \<open>One backoff step: grow, cap, jitter by the parity of the step, floor at 0.1 s.\<close>

definition grow_delay :: "reconnect_policy \<Rightarrow> duration \<Rightarrow> u32 \<Rightarrow> duration option" where
  "grow_delay p current step =
     (let base = f64_min (f64_mul (as_secs_f64 current) (backoff_factor p))
                         (as_secs_f64 (max_delay p));
          centered = (if unat step mod 2 = 0 then Fin 1 else Fin (- 1));
          j = f64_mul centered (jitter p)
      in from_secs_f64 (f64_max (f64_mul base (f64_add (Fin 1) j)) (f64_of_rat (1 / 10))))"

section \<open>Operations\<close>

definition flap_count :: "device_sm \<Rightarrow> u32" where
  "flap_count m = flaps (sm_flap m)"

definition is_flapping :: "device_sm \<Rightarrow> bool" where
  "is_flapping m \<longleftrightarrow> FLAP_ESCALATION_THRESHOLD \<le> flaps (sm_flap m)"

definition take_flap_escalation :: "device_sm \<Rightarrow> device_sm \<times> flap_escalation option" where
  "take_flap_escalation m =
     (let m' = m\<lparr>sm_flap := (sm_flap m)\<lparr>escalation_pending := False\<rparr>\<rparr>
      in if \<not> escalation_pending (sm_flap m) then (m', None)
         else (m', Some \<lparr>esc_flaps = flaps (sm_flap m),
                         esc_next_retry = (case sm_reconnect m of
                            None \<Rightarrow> initial_delay (sm_policy m)
                          | Some st \<Rightarrow> next_retry st)\<rparr>))"

definition on_connected_at ::
    "device_sm \<Rightarrow> device_handle \<Rightarrow> instant \<Rightarrow> instant \<Rightarrow> device_sm \<times> (device_error + unit)" where
  "on_connected_at m h now clk =
     (if sm_state m = Known \<or> sm_state m = Reconnecting
      then (set_state
              (m\<lparr>sm_handle := Some h,
                 sm_flap := (sm_flap m)\<lparr>connected_at := Some now,
                   unproven_delay := map_option next_retry (sm_reconnect m)\<rparr>,
                 sm_reconnect := None\<rparr>)
              Connected ''connect'' clk, Inr ())
      else (m, Inl (invalid_transition m ''Connected'')))"

definition on_connect_failed :: "device_sm \<Rightarrow> instant \<Rightarrow> device_sm \<times> (device_error + duration)" where
  "on_connect_failed m clk =
     (case sm_state m of
        Known \<Rightarrow>
          (let delay = initial_delay (sm_policy m)
           in (set_state
                 (m\<lparr>sm_handle := None,
                    sm_reconnect := Some \<lparr>since = clk, attempt = 0, next_retry = delay\<rparr>\<rparr>)
                 Reconnecting ''connect_failed'' clk, Inr delay))
      | Reconnecting \<Rightarrow>
          (let m' = (if sm_reconnect m = None
                     then m\<lparr>sm_reconnect := Some \<lparr>since = clk, attempt = 0,
                              next_retry = initial_delay (sm_policy m)\<rparr>\<rparr>
                     else m)
           in (m', Inr (case sm_reconnect m' of
                          None \<Rightarrow> initial_delay (sm_policy m')
                        | Some st \<Rightarrow> next_retry st)))
      | _ \<Rightarrow> (m, Inl (invalid_transition m ''Reconnecting'')))"

definition on_connect_abandoned :: "device_sm \<Rightarrow> instant \<Rightarrow> device_sm" where
  "on_connect_abandoned m clk =
     (let m' = m\<lparr>sm_handle := None, sm_reconnect := None, sm_flap := default_flap\<rparr>
      in if sm_state m' = Reconnecting then set_state m' Known ''connect_abandoned'' clk else m')"

definition on_frame_success :: "device_sm \<Rightarrow> instant \<Rightarrow> device_sm \<times> (device_error + unit)" where
  "on_frame_success m clk =
     (case sm_state m of
        Connected \<Rightarrow> (set_state m Active ''first_frame'' clk, Inr ())
      | Active \<Rightarrow> (m, Inr ())
      | _ \<Rightarrow> (m, Inl (invalid_transition m ''Active'')))"

text \<open>The retry delay a reconnect left on probation, if the connection failed inside the window.\<close>

definition unstable_reconnect_delay :: "flap_tracker \<Rightarrow> instant \<Rightarrow> duration option" where
  "unstable_reconnect_delay f now =
     (case unproven_delay f of
        None \<Rightarrow> None
      | Some d \<Rightarrow>
          (case connected_at f of
             None \<Rightarrow> None
           | Some c \<Rightarrow>
               if saturating_duration_since now c < RECONNECT_STABLE_AFTER then Some d else None))"

definition on_comm_error_at ::
    "device_sm \<Rightarrow> instant \<Rightarrow> instant \<Rightarrow> (device_sm \<times> (device_error + unit)) option" where
  "on_comm_error_at m now clk =
     (if sm_state m = Connected \<or> sm_state m = Active
      then
        (let f = (sm_flap m)\<lparr>escalation_pending := False\<rparr>;
             r = (case unstable_reconnect_delay f now of
                    Some previous \<Rightarrow>
                      (let n = saturating_succ (flaps f);
                           f' = f\<lparr>flaps := n,
                                  escalation_pending := (n = FLAP_ESCALATION_THRESHOLD)\<rparr>
                       in map_option (Pair f') (grow_delay (sm_policy m) previous n))
                  | None \<Rightarrow> Some (default_flap, initial_delay (sm_policy m)))
         in map_option (\<lambda>(f', delay).
              (set_state
                 (m\<lparr>sm_flap := f'\<lparr>connected_at := None, unproven_delay := None\<rparr>,
                    sm_handle := None,
                    sm_reconnect := Some \<lparr>since = now, attempt = 0, next_retry = delay\<rparr>\<rparr>)
                 Reconnecting ''comm_error'' clk, Inr ())) r)
      else Some (m, Inl (invalid_transition m ''Reconnecting'')))"

definition on_reconnect_requested_at ::
    "device_sm \<Rightarrow> instant \<Rightarrow> instant \<Rightarrow> device_sm \<times> (device_error + unit)" where
  "on_reconnect_requested_at m now clk =
     (if sm_state m = Connected \<or> sm_state m = Active
      then
        (let proved_stable = (case connected_at (sm_flap m) of
               None \<Rightarrow> True
             | Some c \<Rightarrow> RECONNECT_STABLE_AFTER \<le> saturating_duration_since now c);
             f = (if proved_stable then default_flap else sm_flap m)
         in (set_state
               (m\<lparr>sm_flap := f\<lparr>connected_at := None, unproven_delay := None,
                               escalation_pending := False\<rparr>,
                  sm_handle := None,
                  sm_reconnect := Some \<lparr>since = now, attempt = 0,
                                       next_retry = initial_delay (sm_policy m)\<rparr>\<rparr>)
               Reconnecting ''reconnect_requested'' clk, Inr ()))
      else (m, Inl (invalid_transition m ''Reconnecting'')))"

text \<open>The inner option is the method's result: \<open>None\<close> when no reconnect is pending or exhausted.\<close>

definition on_reconnect_failed ::
    "device_sm \<Rightarrow> instant \<Rightarrow> (device_sm \<times> duration option) option" where
  "on_reconnect_failed m clk =
     (case sm_reconnect m of
        None \<Rightarrow> Some (m, None)
      | Some st \<Rightarrow>
          (let st = st\<lparr>attempt := saturating_succ (attempt st), since := clk\<rparr>;
               m = m\<lparr>sm_reconnect := Some st\<rparr>
           in if (case max_attempts (sm_policy m) of None \<Rightarrow> False | Some n \<Rightarrow> n \<le> attempt st)
              then Some (set_state
                           (m\<lparr>sm_handle := None, sm_reconnect := None, sm_flap := default_flap\<rparr>)
                           Known ''reconnect_exhausted'' clk, None)
              else map_option (\<lambda>next.
                     (m\<lparr>sm_reconnect := Some (st\<lparr>next_retry := next\<rparr>)\<rparr>, Some next))
                   (grow_delay (sm_policy m) (next_retry st) (attempt st))))"

definition on_user_disable :: "device_sm \<Rightarrow> instant \<Rightarrow> device_sm" where
  "on_user_disable m clk =
     set_state (m\<lparr>sm_handle := None, sm_reconnect := None, sm_flap := default_flap\<rparr>)
       Disabled ''user_disable'' clk"

definition on_user_enable :: "device_sm \<Rightarrow> instant \<Rightarrow> device_sm" where
  "on_user_enable m clk =
     (if sm_state m = Disabled then set_state m Known ''user_enable'' clk else m)"

definition on_hot_unplug :: "device_sm \<Rightarrow> instant \<Rightarrow> device_sm" where
  "on_hot_unplug m clk =
     set_state (m\<lparr>sm_handle := None, sm_reconnect := None, sm_flap := default_flap\<rparr>)
       Known ''hot_unplug'' clk"

record debug_snapshot =
  snap_device :: string
  snap_state :: string
  has_handle :: bool
  snap_handle_id :: "u64 option"
  reconnect_attempt :: "u32 option"
  next_retry_ms :: "u64 option"
  reconnect_flaps :: u32
  transition_count :: nat
  transitions :: "transition_record list"

definition debug_snapshot :: "device_sm \<Rightarrow> debug_snapshot" where
  "debug_snapshot m =
     \<lparr>snap_device = display_short (sm_device m), snap_state = variant_name (sm_state m),
      has_handle = (sm_handle m \<noteq> None), snap_handle_id = map_option handle_id (sm_handle m),
      reconnect_attempt = map_option attempt (sm_reconnect m),
      next_retry_ms = map_option
        (\<lambda>r. let ms = next_retry r div 1000000 in if ms < 2 ^ 64 then word_of_nat ms else - 1)
        (sm_reconnect m),
      reconnect_flaps = flaps (sm_flap m),
      transition_count = length (transition_history m),
      transitions = transition_history m\<rparr>"

section \<open>The step relation\<close>

text \<open>One rule per method call that the orchestration makes; a panicking call is no step.\<close>

datatype sm_event =
    EvConnected device_handle instant
  | EvConnectFailed
  | EvConnectAbandoned
  | EvFrameSuccess
  | EvCommError instant
  | EvReconnectRequested instant
  | EvReconnectFailed
  | EvUserDisable
  | EvUserEnable
  | EvHotUnplug
  | EvTakeEscalation

fun sm_exec :: "device_sm \<Rightarrow> sm_event \<Rightarrow> instant \<Rightarrow> device_sm option" where
  "sm_exec m (EvConnected h now) clk = Some (fst (on_connected_at m h now clk))"
| "sm_exec m EvConnectFailed clk = Some (fst (on_connect_failed m clk))"
| "sm_exec m EvConnectAbandoned clk = Some (on_connect_abandoned m clk)"
| "sm_exec m EvFrameSuccess clk = Some (fst (on_frame_success m clk))"
| "sm_exec m (EvCommError now) clk = map_option fst (on_comm_error_at m now clk)"
| "sm_exec m (EvReconnectRequested now) clk = Some (fst (on_reconnect_requested_at m now clk))"
| "sm_exec m EvReconnectFailed clk = map_option fst (on_reconnect_failed m clk)"
| "sm_exec m EvUserDisable clk = Some (on_user_disable m clk)"
| "sm_exec m EvUserEnable clk = Some (on_user_enable m clk)"
| "sm_exec m EvHotUnplug clk = Some (on_hot_unplug m clk)"
| "sm_exec m EvTakeEscalation clk = Some (fst (take_flap_escalation m))"

inductive sm_step :: "device_sm \<Rightarrow> sm_event \<Rightarrow> device_sm \<Rightarrow> bool" where
  sm_stepI: "sm_exec m e clk = Some m' \<Longrightarrow> sm_step m e m'"

inductive_cases sm_stepE [elim]: "sm_step m e m'"

inductive sm_reachable :: "device_identifier \<Rightarrow> reconnect_policy \<Rightarrow> device_sm \<Rightarrow> bool"
  for device policy where
  reach_start: "sm_reachable device policy (with_policy device policy clk)"
| reach_step: "sm_reachable device policy m \<Longrightarrow> sm_step m e m' \<Longrightarrow> sm_reachable device policy m'"

section \<open>The invariant\<close>

text \<open>
  Consecutive history records join up, and the last one ends in the current state: the
  history is a path of the state graph, bounded by its limit.
\<close>

fun chained :: "string \<Rightarrow> transition_record list \<Rightarrow> string \<Rightarrow> bool" where
  "chained a [] b \<longleftrightarrow> a = b"
| "chained a (r # rs) b \<longleftrightarrow> tr_from r = a \<and> chained (tr_to r) rs b"

definition history_ok :: "device_sm \<Rightarrow> bool" where
  "history_ok m \<longleftrightarrow>
     length (transition_history m) \<le> history_limit m \<and> 0 < history_limit m \<and>
     (\<exists>a. chained a (transition_history m) (variant_name (sm_state m)))"

definition flap_ok :: "device_sm \<Rightarrow> bool" where
  "flap_ok m \<longleftrightarrow>
     (connected_at (sm_flap m) \<noteq> None \<longrightarrow> is_renderable (sm_state m)) \<and>
     (unproven_delay (sm_flap m) \<noteq> None \<longrightarrow> connected_at (sm_flap m) \<noteq> None) \<and>
     (escalation_pending (sm_flap m) \<longrightarrow> FLAP_ESCALATION_THRESHOLD \<le> flaps (sm_flap m)) \<and>
     (sm_state m = Disabled \<longrightarrow> sm_flap m = default_flap)"

definition link_ok :: "device_sm \<Rightarrow> bool" where
  "link_ok m \<longleftrightarrow>
     (sm_reconnect m \<noteq> None \<longleftrightarrow> sm_state m = Reconnecting) \<and>
     (sm_handle m \<noteq> None \<longrightarrow> is_renderable (sm_state m))"

definition sm_inv :: "device_sm \<Rightarrow> bool" where
  "sm_inv m \<longleftrightarrow> link_ok m \<and> flap_ok m \<and> history_ok m"

lemmas sm_op_defs =
  on_connected_at_def on_connect_failed_def on_connect_abandoned_def on_frame_success_def
  on_comm_error_at_def on_reconnect_requested_at_def on_reconnect_failed_def
  on_user_disable_def on_user_enable_def on_hot_unplug_def take_flap_escalation_def

lemmas sm_splits = device_state.splits option.splits if_splits prod.splits

lemma set_state_fields [simp]:
  "sm_state (set_state m s r clk) = s"
  "sm_device (set_state m s r clk) = sm_device m"
  "sm_handle (set_state m s r clk) = sm_handle m"
  "sm_reconnect (set_state m s r clk) = sm_reconnect m"
  "sm_policy (set_state m s r clk) = sm_policy m"
  "sm_flap (set_state m s r clk) = sm_flap m"
  "history_limit (set_state m s r clk) = history_limit m"
  by (simp_all add: set_state_def Let_def)

lemma chained_snoc: "chained a (rs @ [r]) b \<longleftrightarrow> chained a rs (tr_from r) \<and> tr_to r = b"
  by (induction rs arbitrary: a) auto

lemma chained_drop1: "chained a rs b \<Longrightarrow> \<exists>a'. chained a' (drop 1 rs) b"
  by (cases rs) auto

lemma history_ok_set_state:
  assumes "history_ok m"
  shows "history_ok (set_state m s r clk)"
proof -
  obtain a where "chained a (transition_history m) (variant_name (sm_state m))"
    using assms by (auto simp: history_ok_def)
  then show ?thesis
    using assms chained_drop1 by (fastforce simp: history_ok_def set_state_def chained_snoc Let_def)
qed

lemma history_ok_cong:
  "transition_history m' = transition_history m \<Longrightarrow> history_limit m' = history_limit m \<Longrightarrow>
   sm_state m' = sm_state m \<Longrightarrow> history_ok m' = history_ok m"
  by (simp add: history_ok_def)

lemma history_ok_updates [simp]:
  "history_ok (m\<lparr>sm_handle := h\<rparr>) = history_ok m"
  "history_ok (m\<lparr>sm_reconnect := r\<rparr>) = history_ok m"
  "history_ok (m\<lparr>sm_flap := f\<rparr>) = history_ok m"
  by (simp_all add: history_ok_def)

lemma sm_exec_history_ok: "history_ok m \<Longrightarrow> sm_exec m e clk = Some m' \<Longrightarrow> history_ok m'"
  by (cases e) (auto simp: sm_op_defs Let_def history_ok_set_state split: sm_splits)

lemma sm_exec_link_ok: "link_ok m \<Longrightarrow> sm_exec m e clk = Some m' \<Longrightarrow> link_ok m'"
  by (cases e) (auto simp: sm_op_defs link_ok_def is_renderable_def Let_def split: sm_splits)

lemma default_flap_fields [simp]:
  "connected_at default_flap = None" "unproven_delay default_flap = None"
  "flaps default_flap = 0" "escalation_pending default_flap = False"
  by (simp_all add: default_flap_def)

text \<open>A machine whose tracker was reset, or whose tracker lost its connection fields, is in order.\<close>

lemma flap_ok_default: "sm_flap m = default_flap \<Longrightarrow> flap_ok m"
  by (simp add: flap_ok_def)

lemma flap_ok_disconnected:
  "connected_at (sm_flap m) = None \<Longrightarrow> unproven_delay (sm_flap m) = None \<Longrightarrow>
   escalation_pending (sm_flap m) \<longrightarrow> FLAP_ESCALATION_THRESHOLD \<le> flaps (sm_flap m) \<Longrightarrow>
   sm_state m \<noteq> Disabled \<Longrightarrow> flap_ok m"
  by (simp add: flap_ok_def)

lemma flap_ok_connected:
  "flap_ok m \<Longrightarrow> is_renderable (sm_state m') \<Longrightarrow> flaps (sm_flap m') = flaps (sm_flap m) \<Longrightarrow>
   escalation_pending (sm_flap m') = escalation_pending (sm_flap m) \<Longrightarrow>
   connected_at (sm_flap m') \<noteq> None \<or> unproven_delay (sm_flap m') = None \<Longrightarrow> flap_ok m'"
  by (auto simp: flap_ok_def is_renderable_def)

lemma flap_ok_reconnect_update [simp]: "flap_ok (m\<lparr>sm_reconnect := r\<rparr>) = flap_ok m"
  by (simp add: flap_ok_def)

lemma comm_error_flap_ok:
  assumes "flap_ok m" "on_comm_error_at m now clk = Some (m', r)"
  shows "flap_ok m'"
proof (cases "sm_state m = Connected \<or> sm_state m = Active")
  case True
  with assms(2) show ?thesis
    by (intro flap_ok_disconnected)
      (auto simp: on_comm_error_at_def Let_def split: option.splits)
next
  case False
  with assms show ?thesis by (simp add: on_comm_error_at_def)
qed

lemma reconnect_failed_flap_ok:
  assumes "flap_ok m" "on_reconnect_failed m clk = Some (m', r)"
  shows "flap_ok m'"
  using assms
  by (cases "sm_reconnect m")
    (auto simp: on_reconnect_failed_def Let_def flap_ok_default split: if_splits option.splits)

lemma reconnect_requested_flap_ok:
  "flap_ok m \<Longrightarrow> flap_ok (fst (on_reconnect_requested_at m now clk))"
  by (auto simp: on_reconnect_requested_at_def Let_def intro: flap_ok_disconnected)

lemma connect_failed_flap_ok: "flap_ok m \<Longrightarrow> flap_ok (fst (on_connect_failed m clk))"
  by (auto simp: on_connect_failed_def Let_def flap_ok_def is_renderable_def split: device_state.splits)

lemma connected_flap_ok: "flap_ok m \<Longrightarrow> flap_ok (fst (on_connected_at m h now clk))"
  by (auto simp: on_connected_at_def is_renderable_def intro: flap_ok_connected)

lemma frame_success_flap_ok: "flap_ok m \<Longrightarrow> flap_ok (fst (on_frame_success m clk))"
  by (auto simp: on_frame_success_def flap_ok_def is_renderable_def split: device_state.splits)

lemma take_escalation_flap_ok: "flap_ok m \<Longrightarrow> flap_ok (fst (take_flap_escalation m))"
  by (auto simp: take_flap_escalation_def flap_ok_def Let_def default_flap_def)

lemma user_enable_flap_ok: "flap_ok m \<Longrightarrow> flap_ok (on_user_enable m clk)"
  by (auto simp: on_user_enable_def flap_ok_def)

lemma reset_flap_ok:
  "flap_ok (on_connect_abandoned m clk)" "flap_ok (on_user_disable m clk)"
  "flap_ok (on_hot_unplug m clk)"
  by (simp_all add: on_connect_abandoned_def on_user_disable_def on_hot_unplug_def Let_def
      flap_ok_default)

lemma sm_exec_flap_ok: "flap_ok m \<Longrightarrow> sm_exec m e clk = Some m' \<Longrightarrow> flap_ok m'"
  by (cases e)
    (auto simp: connected_flap_ok connect_failed_flap_ok frame_success_flap_ok
      reconnect_requested_flap_ok take_escalation_flap_ok user_enable_flap_ok reset_flap_ok
      intro: comm_error_flap_ok reconnect_failed_flap_ok)

lemma sm_exec_inv: "sm_inv m \<Longrightarrow> sm_exec m e clk = Some m' \<Longrightarrow> sm_inv m'"
  by (auto simp: sm_inv_def intro: sm_exec_link_ok sm_exec_flap_ok sm_exec_history_ok)

lemma with_policy_inv: "sm_inv (with_policy device policy clk)"
  by (auto simp: sm_inv_def link_ok_def flap_ok_def history_ok_def with_policy_def)

lemma sm_reachable_inv: "sm_reachable device policy m \<Longrightarrow> sm_inv m"
  by (induction rule: sm_reachable.induct) (auto intro: with_policy_inv sm_exec_inv)

lemma sm_exec_policy: "sm_exec m e clk = Some m' \<Longrightarrow> sm_policy m' = sm_policy m"
  by (cases e) (auto simp: sm_op_defs Let_def split: sm_splits)

lemma sm_exec_device: "sm_exec m e clk = Some m' \<Longrightarrow> sm_device m' = sm_device m"
  by (cases e) (auto simp: sm_op_defs Let_def split: sm_splits)

lemma sm_exec_limit: "sm_exec m e clk = Some m' \<Longrightarrow> history_limit m' = history_limit m"
  by (cases e) (auto simp: sm_op_defs Let_def split: sm_splits)

end
