(* ===== verification/Lifecycle.thy ===== *)
theory Lifecycle
  imports State_Machine
begin

text \<open>
  The lifecycle manager of \<^verbatim>\<open>hypercolor-core/src/device/lifecycle.rs\<close>: one state machine per
  tracked device, the connects in flight, the scheduled reconnects, and the actions every
  handler returns for the asynchronous executor.

  The handlers are definitions over the record \<open>lifecycle\<close> with the prefix \<open>lc_\<close>. A handler
  takes one clock reading \<open>clk\<close>, which stands for the calls of \<^verbatim>\<open>Instant::now()\<close> it makes.
  \<open>sid\<close> is the textual form of a device id (\<^verbatim>\<open>uuid::Uuid\<close>'s \<^verbatim>\<open>Display\<close>, outside the repository).
  The process-wide handle counter is the component \<open>next_handle_id\<close>.
\<close>

section \<open>Layout ids and transport identifiers\<close>

fun sanitize_loop :: "bool \<Rightarrow> string \<Rightarrow> string" where
  "sanitize_loop prev_was_dash [] = []"
| "sanitize_loop prev_was_dash (ch # cs) =
     (let mapped = (if is_ascii_alphanumeric ch \<or> ch = CHR '':'' \<or> ch = CHR ''_'' \<or> ch = CHR ''-''
                    then to_ascii_lower ch else CHR ''-'')
      in if mapped = CHR ''-''
         then (if prev_was_dash then sanitize_loop True cs else mapped # sanitize_loop True cs)
         else mapped # sanitize_loop False cs)"

definition sanitize_component :: "string \<Rightarrow> string" where
  "sanitize_component input =
     (let out = trim_matches (\<lambda>c. c = CHR ''-'') (sanitize_loop False (trim input))
      in if out = [] then ''device'' else out)"

definition layout_owner_id :: "'p device_info \<Rightarrow> string" where
  "layout_owner_id info =
     (let d = trim (info_driver_id info)
      in sanitize_component (if d = [] then trim (output_backend_id info) else d))"

definition layout_device_id :: "'p device_info \<Rightarrow> string" where
  "layout_device_id info = layout_owner_id info @ '':'' @ sanitize_component (info_name info)"

definition strip_or_self :: "string \<Rightarrow> string \<Rightarrow> string" where
  "strip_or_self p s = (case strip_prefix p s of Some r \<Rightarrow> r | None \<Rightarrow> s)"

definition layout_device_id_with_fingerprint ::
    "'p device_info \<Rightarrow> device_fingerprint option \<Rightarrow> string" where
  "layout_device_id_with_fingerprint info fingerprint =
     (let owner = layout_owner_id info; owner_prefix = owner @ '':'' in
      case fingerprint of
        None \<Rightarrow> layout_device_id info
      | Some fp \<Rightarrow>
          (let value = to_ascii_lowercase (as_str fp) in
           case strip_prefix ''net:'' value of
             Some v \<Rightarrow> (case strip_prefix owner_prefix v of
                 Some scoped \<Rightarrow> owner @ '':'' @ sanitize_component scoped
               | None \<Rightarrow> owner @ '':'' @ v)
           | None \<Rightarrow> (case strip_prefix ''bridge:'' value of
             Some v \<Rightarrow> (case strip_prefix owner_prefix v of
                 Some scoped \<Rightarrow> owner @ '':'' @ sanitize_component scoped
               | None \<Rightarrow> layout_device_id info)
           | None \<Rightarrow> (case strip_prefix ''usb:'' value of
             Some v \<Rightarrow> owner @ '':'' @ sanitize_component (strip_or_self owner_prefix v)
           | None \<Rightarrow> (case strip_prefix ''smbus:'' value of
             Some v \<Rightarrow> owner @ '':'' @ sanitize_component (strip_or_self owner_prefix v)
           | None \<Rightarrow> (case strip_prefix owner_prefix value of
             Some v \<Rightarrow> owner @ '':'' @ sanitize_component v
           | None \<Rightarrow> layout_device_id info))))))"

definition fallback_identifier ::
    "(device_id \<Rightarrow> string) \<Rightarrow> 'p device_info \<Rightarrow> string \<Rightarrow> device_identifier" where
  "fallback_identifier sid info backend =
     Network (backend @ '':'' @ sid (info_id info)) None (Some (info_name info))"

text \<open>The \<^verbatim>\<open>usb:\<close> branch: vendor and product in hex, then an identity key.\<close>

definition usb_identifier :: "string \<Rightarrow> device_identifier option" where
  "usb_identifier rest =
     (case split_once (CHR '':'') rest of
        None \<Rightarrow> None
      | Some (raw_vendor, rest') \<Rightarrow>
          (case split_once (CHR '':'') rest' of
             None \<Rightarrow> None
           | Some (raw_product, identity_key) \<Rightarrow>
               (case (u16_from_hex raw_vendor, u16_from_hex raw_product) of
                  (Some v, Some p) \<Rightarrow>
                    (let key = trim identity_key
                     in Some (UsbHid v p (if key \<noteq> [] \<and> key \<noteq> ''unknown'' then Some key else None) None))
                | _ \<Rightarrow> None)))"

definition smbus_identifier :: "string \<Rightarrow> device_identifier" where
  "smbus_identifier rest =
     (case rsplit_once (CHR '':'') rest of
        None \<Rightarrow> SmBus rest 0
      | Some (bus, raw) \<Rightarrow> SmBus bus (case u16_from_hex raw of Some a \<Rightarrow> a | None \<Rightarrow> 0))"

definition identifier_for_device ::
    "(device_id \<Rightarrow> string) \<Rightarrow> 'p device_info \<Rightarrow> device_fingerprint option \<Rightarrow> device_identifier" where
  "identifier_for_device sid info fingerprint =
     (let fallback = fallback_identifier sid info (output_backend_id info);
          owner_prefix = layout_owner_id info @ '':'' in
      case fingerprint of
        None \<Rightarrow> fallback
      | Some fp \<Rightarrow>
          (let value = as_str fp in
           case strip_prefix ''smbus:'' value of
             Some rest \<Rightarrow> smbus_identifier (strip_or_self owner_prefix rest)
           | None \<Rightarrow>
          (case Option.bind (strip_prefix ''usb:'' value) (\<lambda>r. usb_identifier (strip_or_self owner_prefix r)) of
             Some i \<Rightarrow> i
           | None \<Rightarrow>
          (case Option.bind (strip_prefix ''bridge:'' value) (split_once (CHR '':'')) of
             Some (service, serial) \<Rightarrow> Bridge service serial
           | None \<Rightarrow>
          (case strip_prefix ''net:'' value of
             Some rest \<Rightarrow> Network rest None
               (case strip_prefix owner_prefix rest of
                  Some h \<Rightarrow> Some h | None \<Rightarrow> Some (info_name info))
           | None \<Rightarrow> fallback)))))"

section \<open>State\<close>

datatype lifecycle_action =
    Connect device_id string string
  | Disconnect device_id string
  | MapLayout string string device_id
  | Unmap string
  | SpawnReconnect device_id duration
  | CancelReconnect device_id

record managed_device =
  state_machine :: device_sm
  managed_backend :: string
  layout_id :: string
  managed_identifier :: device_identifier
  behavior :: connect_behavior

record lifecycle =
  lc_devices :: "(device_id, managed_device) fmap"
  connect_in_flight :: "(device_id, instant) fmap"
  reconnect_scheduled :: "device_id fset"
  lc_policy :: reconnect_policy
  in_flight_stale_after :: duration
  next_handle_id :: u64

definition CONNECT_IN_FLIGHT_STALE_AFTER :: duration where
  "CONNECT_IN_FLIGHT_STALE_AFTER = from_secs 60"

definition with_reconnect_policy :: "reconnect_policy \<Rightarrow> u64 \<Rightarrow> lifecycle" where
  "with_reconnect_policy policy handles =
     \<lparr>lc_devices = fmempty, connect_in_flight = fmempty, reconnect_scheduled = {||},
      lc_policy = policy, in_flight_stale_after = CONNECT_IN_FLIGHT_STALE_AFTER,
      next_handle_id = handles\<rparr>"

definition default_lifecycle :: "u64 \<Rightarrow> lifecycle" where
  "default_lifecycle = with_reconnect_policy (default_policy\<lparr>max_attempts := Some 6\<rparr>)"

definition with_connect_in_flight_stale_after :: "lifecycle \<Rightarrow> duration \<Rightarrow> lifecycle" where
  "with_connect_in_flight_stale_after L d = L\<lparr>in_flight_stale_after := d\<rparr>"

definition lc_state :: "lifecycle \<Rightarrow> device_id \<Rightarrow> device_state option" where
  "lc_state L i = map_option (\<lambda>d. sm_state (state_machine d)) (fmlookup (lc_devices L) i)"

definition layout_device_id_for :: "lifecycle \<Rightarrow> device_id \<Rightarrow> string option" where
  "layout_device_id_for L i = map_option layout_id (fmlookup (lc_devices L) i)"

definition connect_in_flight_since :: "lifecycle \<Rightarrow> device_id \<Rightarrow> instant option" where
  "connect_in_flight_since L i = fmlookup (connect_in_flight L) i"

definition in_flight :: "lifecycle \<Rightarrow> device_id \<Rightarrow> bool" where
  "in_flight L i \<longleftrightarrow> fmlookup (connect_in_flight L) i \<noteq> None"

section \<open>Shared steps of the handlers\<close>

definition put_device :: "lifecycle \<Rightarrow> device_id \<Rightarrow> managed_device \<Rightarrow> lifecycle" where
  "put_device L i d = L\<lparr>lc_devices := fmupd i d (lc_devices L)\<rparr>"

definition put_machine :: "lifecycle \<Rightarrow> device_id \<Rightarrow> managed_device \<Rightarrow> device_sm \<Rightarrow> lifecycle" where
  "put_machine L i d m = put_device L i (d\<lparr>state_machine := m\<rparr>)"

definition mark_connect_in_flight :: "lifecycle \<Rightarrow> device_id \<Rightarrow> instant \<Rightarrow> lifecycle" where
  "mark_connect_in_flight L i clk = L\<lparr>connect_in_flight := fmupd i clk (connect_in_flight L)\<rparr>"

definition clear_in_flight :: "lifecycle \<Rightarrow> device_id \<Rightarrow> lifecycle" where
  "clear_in_flight L i = L\<lparr>connect_in_flight := fmdrop i (connect_in_flight L)\<rparr>"

definition schedule :: "lifecycle \<Rightarrow> device_id \<Rightarrow> lifecycle" where
  "schedule L i = L\<lparr>reconnect_scheduled := finsert i (reconnect_scheduled L)\<rparr>"

definition unschedule :: "lifecycle \<Rightarrow> device_id \<Rightarrow> lifecycle" where
  "unschedule L i = L\<lparr>reconnect_scheduled := reconnect_scheduled L |-| {|i|}\<rparr>"

definition connect_action :: "device_id \<Rightarrow> managed_device \<Rightarrow> lifecycle_action" where
  "connect_action i d = Connect i (managed_backend d) (layout_id d)"

definition disconnect_action :: "device_id \<Rightarrow> managed_device \<Rightarrow> lifecycle_action" where
  "disconnect_action i d = Disconnect i (managed_backend d)"

definition cancel_if :: "bool \<Rightarrow> device_id \<Rightarrow> lifecycle_action list" where
  "cancel_if b i = (if b then [CancelReconnect i] else [])"

type_synonym lc_result = "lifecycle \<times> (device_error + lifecycle_action list)"

section \<open>Handlers\<close>

definition rebind_layout_device_id ::
    "lifecycle \<Rightarrow> device_id \<Rightarrow> string \<Rightarrow> lifecycle \<times> (string \<times> string) option" where
  "rebind_layout_device_id L i layout =
     (case fmlookup (lc_devices L) i of
        None \<Rightarrow> (L, None)
      | Some d \<Rightarrow> (put_device L i (d\<lparr>layout_id := layout\<rparr>), Some (managed_backend d, layout_id d)))"

text \<open>\<^verbatim>\<open>devices.entry(id).or_insert_with\<close> and the three assignments to the entry.\<close>

definition discovered_entry ::
    "(device_id \<Rightarrow> string) \<Rightarrow> lifecycle \<Rightarrow> device_id \<Rightarrow> 'p device_info \<Rightarrow> device_fingerprint option \<Rightarrow>
     connect_behavior \<Rightarrow> instant \<Rightarrow> managed_device" where
  "discovered_entry sid L i info fp b clk =
     (let backend = to_ascii_lowercase (output_backend_id info);
          layout = layout_device_id_with_fingerprint info fp;
          d = (case fmlookup (lc_devices L) i of
                 Some d \<Rightarrow> d
               | None \<Rightarrow>
                   (let ident = identifier_for_device sid info fp
                    in \<lparr>state_machine = with_policy ident (lc_policy L) clk,
                        managed_backend = backend, layout_id = layout,
                        managed_identifier = ident, behavior = b\<rparr>))
      in d\<lparr>managed_backend := backend, layout_id := layout, behavior := b\<rparr>)"

definition lc_on_discovered_with_behavior ::
    "(device_id \<Rightarrow> string) \<Rightarrow> lifecycle \<Rightarrow> device_id \<Rightarrow> 'p device_info \<Rightarrow> device_fingerprint option \<Rightarrow>
     connect_behavior \<Rightarrow> instant \<Rightarrow> lifecycle \<times> lifecycle_action list" where
  "lc_on_discovered_with_behavior sid L i info fp b clk =
     (let connect_already_in_flight = in_flight L i;
          d = discovered_entry sid L i info fp b clk;
          actions = cancel_if (i |\<in>| reconnect_scheduled L) i;
          L = unschedule L i
      in if \<not> should_auto_connect (behavior d)
         then (case sm_state (state_machine d) of
                 Connected \<Rightarrow> (put_machine L i d (on_hot_unplug (state_machine d) clk),
                               actions @ [disconnect_action i d, Unmap (layout_id d)])
               | Active \<Rightarrow> (put_machine L i d (on_hot_unplug (state_machine d) clk),
                            actions @ [disconnect_action i d, Unmap (layout_id d)])
               | Reconnecting \<Rightarrow> (put_machine L i d (on_hot_unplug (state_machine d) clk), actions)
               | _ \<Rightarrow> (put_device L i d, actions))
         else if (sm_state (state_machine d) = Known \<or> sm_state (state_machine d) = Reconnecting)
                 \<and> \<not> connect_already_in_flight
         then (mark_connect_in_flight (put_device L i d) i clk, actions @ [connect_action i d])
         else (put_device L i d, actions))"

definition retry_stale_known_connect ::
    "lifecycle \<Rightarrow> device_id \<Rightarrow> instant \<Rightarrow> lifecycle \<times> lifecycle_action option" where
  "retry_stale_known_connect L i clk =
     (case fmlookup (connect_in_flight L) i of
        None \<Rightarrow> (L, None)
      | Some started_at \<Rightarrow>
          if saturating_duration_since clk started_at < in_flight_stale_after L then (L, None)
          else (case fmlookup (lc_devices L) i of
                  None \<Rightarrow> (L, None)
                | Some d \<Rightarrow>
                    if sm_state (state_machine d) \<noteq> Known \<or> \<not> should_auto_connect (behavior d)
                    then (L, None)
                    else (mark_connect_in_flight L i clk, Some (connect_action i d))))"

definition lc_on_connected ::
    "(device_id \<Rightarrow> string) \<Rightarrow> lifecycle \<Rightarrow> device_id \<Rightarrow> instant \<Rightarrow> lc_result" where
  "lc_on_connected sid L i clk =
     (let L1 = clear_in_flight L i;
          reconnect_canceled = i |\<in>| reconnect_scheduled L1;
          L2 = unschedule L1 i
      in case fmlookup (lc_devices L2) i of
           None \<Rightarrow> (L2, Inl (NotFound (sid i)))
         | Some d \<Rightarrow>
             (let (h, next_id) = new_handle (next_handle_id L2) (managed_identifier d) (managed_backend d);
                  L3 = L2\<lparr>next_handle_id := next_id\<rparr>;
                  (m, r) = on_connected_at (state_machine d) h clk clk;
                  L4 = put_machine L3 i d m
              in case r of Inl e \<Rightarrow> (L4, Inl e)
                         | Inr _ \<Rightarrow> (L4, Inr (cancel_if reconnect_canceled i))))"

definition lc_on_connect_failed ::
    "(device_id \<Rightarrow> string) \<Rightarrow> lifecycle \<Rightarrow> device_id \<Rightarrow> instant \<Rightarrow> lc_result" where
  "lc_on_connect_failed sid L i clk =
     (let L1 = clear_in_flight L i
      in case fmlookup (lc_devices L1) i of
           None \<Rightarrow> (L1, Inl (NotFound (sid i)))
         | Some d \<Rightarrow>
             (let (m, r) = on_connect_failed (state_machine d) clk;
                  L2 = put_machine L1 i d m
              in case r of Inl e \<Rightarrow> (L2, Inl e)
                         | Inr delay \<Rightarrow> (schedule L2 i, Inr [SpawnReconnect i delay])))"

definition lc_on_connect_abandoned ::
    "(device_id \<Rightarrow> string) \<Rightarrow> lifecycle \<Rightarrow> device_id \<Rightarrow> instant \<Rightarrow> lc_result" where
  "lc_on_connect_abandoned sid L i clk =
     (let L1 = clear_in_flight L i;
          reconnect_canceled = i |\<in>| reconnect_scheduled L1;
          L2 = unschedule L1 i
      in case fmlookup (lc_devices L2) i of
           None \<Rightarrow> (L2, Inl (NotFound (sid i)))
         | Some d \<Rightarrow> (put_machine L2 i d (on_connect_abandoned (state_machine d) clk),
                      Inr (cancel_if reconnect_canceled i)))"

definition lc_on_frame_success ::
    "(device_id \<Rightarrow> string) \<Rightarrow> lifecycle \<Rightarrow> device_id \<Rightarrow> instant \<Rightarrow> lifecycle \<times> (device_error + unit)" where
  "lc_on_frame_success sid L i clk =
     (case fmlookup (lc_devices L) i of
        None \<Rightarrow> (L, Inl (NotFound (sid i)))
      | Some d \<Rightarrow> (let (m, r) = on_frame_success (state_machine d) clk in (put_machine L i d m, r)))"

text \<open>\<open>None\<close>: the transition's delay computation panics.\<close>

definition reconnect_after ::
    "(device_id \<Rightarrow> string) \<Rightarrow> lifecycle \<Rightarrow> device_id \<Rightarrow>
     (device_sm \<Rightarrow> (device_sm \<times> (device_error + unit)) option) \<Rightarrow> lc_result option" where
  "reconnect_after sid L i transition =
     (let L1 = clear_in_flight L i
      in case fmlookup (lc_devices L1) i of
           None \<Rightarrow> Some (L1, Inl (NotFound (sid i)))
         | Some d \<Rightarrow>
             (case transition (state_machine d) of
                None \<Rightarrow> None
              | Some (m, Inl e) \<Rightarrow> Some (put_machine L1 i d m, Inl e)
              | Some (m, Inr _) \<Rightarrow>
                  (let L2 = put_machine L1 i d m;
                       actions = [disconnect_action i d, Unmap (layout_id d)]
                   in case sm_reconnect m of
                        None \<Rightarrow> Some (L2, Inr actions)
                      | Some st \<Rightarrow> Some (schedule L2 i, Inr (actions @ [SpawnReconnect i (next_retry st)])))))"

definition lc_on_comm_error_at ::
    "(device_id \<Rightarrow> string) \<Rightarrow> lifecycle \<Rightarrow> device_id \<Rightarrow> instant \<Rightarrow> instant \<Rightarrow> lc_result option" where
  "lc_on_comm_error_at sid L i now clk = reconnect_after sid L i (\<lambda>m. on_comm_error_at m now clk)"

definition lc_on_reconnect_requested ::
    "(device_id \<Rightarrow> string) \<Rightarrow> lifecycle \<Rightarrow> device_id \<Rightarrow> instant \<Rightarrow> lc_result option" where
  "lc_on_reconnect_requested sid L i clk =
     reconnect_after sid L i (\<lambda>m. Some (on_reconnect_requested_at m clk clk))"

definition lc_flap_count :: "lifecycle \<Rightarrow> device_id \<Rightarrow> u32 option" where
  "lc_flap_count L i = map_option (\<lambda>d. flap_count (state_machine d)) (fmlookup (lc_devices L) i)"

definition lc_is_flapping :: "lifecycle \<Rightarrow> device_id \<Rightarrow> bool" where
  "lc_is_flapping L i \<longleftrightarrow>
     (case fmlookup (lc_devices L) i of None \<Rightarrow> False | Some d \<Rightarrow> is_flapping (state_machine d))"

definition lc_take_flap_escalation ::
    "lifecycle \<Rightarrow> device_id \<Rightarrow> lifecycle \<times> flap_escalation option" where
  "lc_take_flap_escalation L i =
     (case fmlookup (lc_devices L) i of
        None \<Rightarrow> (L, None)
      | Some d \<Rightarrow> (let (m, e) = take_flap_escalation (state_machine d) in (put_machine L i d m, e)))"

definition lc_on_reconnect_attempt ::
    "lifecycle \<Rightarrow> device_id \<Rightarrow> instant \<Rightarrow> lifecycle \<times> lifecycle_action option" where
  "lc_on_reconnect_attempt L i clk =
     (if in_flight L i then (L, None)
      else case fmlookup (lc_devices L) i of
             None \<Rightarrow> (L, None)
           | Some d \<Rightarrow>
               if sm_state (state_machine d) \<noteq> Reconnecting then (L, None)
               else (mark_connect_in_flight L i clk, Some (connect_action i d)))"

definition lc_on_reconnect_failed ::
    "(device_id \<Rightarrow> string) \<Rightarrow> lifecycle \<Rightarrow> device_id \<Rightarrow> instant \<Rightarrow> lc_result option" where
  "lc_on_reconnect_failed sid L i clk =
     (let L1 = clear_in_flight L i
      in case fmlookup (lc_devices L1) i of
           None \<Rightarrow> Some (L1, Inl (NotFound (sid i)))
         | Some d \<Rightarrow>
             (case on_reconnect_failed (state_machine d) clk of
                None \<Rightarrow> None
              | Some (m, next_delay) \<Rightarrow>
                  (let L2 = put_machine L1 i d m
                   in case next_delay of
                        Some delay \<Rightarrow> Some (schedule L2 i, Inr [SpawnReconnect i delay])
                      | None \<Rightarrow> Some (unschedule L2 i,
                                      Inr (cancel_if (i |\<in>| reconnect_scheduled L2) i)))))"

definition lc_on_device_vanished ::
    "lifecycle \<Rightarrow> device_id \<Rightarrow> instant \<Rightarrow> lifecycle \<times> lifecycle_action list" where
  "lc_on_device_vanished L i clk =
     (case fmlookup (lc_devices L) i of
        None \<Rightarrow> (L, [])
      | Some d \<Rightarrow>
          (let L1 = clear_in_flight (put_machine L i d (on_hot_unplug (state_machine d) clk)) i;
               actions = (if is_renderable (sm_state (state_machine d)) then [disconnect_action i d] else [])
                         @ [Unmap (layout_id d)]
           in (unschedule L1 i, actions @ cancel_if (i |\<in>| reconnect_scheduled L1) i)))"

definition lc_on_user_disable ::
    "(device_id \<Rightarrow> string) \<Rightarrow> lifecycle \<Rightarrow> device_id \<Rightarrow> instant \<Rightarrow> lc_result" where
  "lc_on_user_disable sid L i clk =
     (let reconnect_canceled = i |\<in>| reconnect_scheduled L;
          L1 = clear_in_flight (unschedule L i) i
      in case fmlookup (lc_devices L1) i of
           None \<Rightarrow> (L1, Inl (NotFound (sid i)))
         | Some d \<Rightarrow>
             (put_machine L1 i d (on_user_disable (state_machine d) clk),
              Inr ((if is_renderable (sm_state (state_machine d)) then [disconnect_action i d] else [])
                   @ [Unmap (layout_id d)] @ cancel_if reconnect_canceled i)))"

definition lc_on_user_enable ::
    "(device_id \<Rightarrow> string) \<Rightarrow> lifecycle \<Rightarrow> device_id \<Rightarrow> instant \<Rightarrow> lc_result" where
  "lc_on_user_enable sid L i clk =
     (let connect_already_in_flight = in_flight L i
      in case fmlookup (lc_devices L) i of
           None \<Rightarrow> (L, Inl (NotFound (sid i)))
         | Some d \<Rightarrow>
             (let was_disabled = (sm_state (state_machine d) = Disabled);
                  m = on_user_enable (state_machine d) clk;
                  L1 = put_machine L i d m
              in if was_disabled \<and> sm_state m = Known \<and> should_auto_connect (behavior d)
                    \<and> \<not> connect_already_in_flight
                 then (mark_connect_in_flight L1 i clk, Inr [connect_action i d])
                 else (L1, Inr [])))"

definition lc_on_runtime_deactivate ::
    "(device_id \<Rightarrow> string) \<Rightarrow> lifecycle \<Rightarrow> device_id \<Rightarrow> instant \<Rightarrow> lc_result" where
  "lc_on_runtime_deactivate sid L i clk =
     (let reconnect_canceled = i |\<in>| reconnect_scheduled L;
          L1 = clear_in_flight (unschedule L i) i
      in case fmlookup (lc_devices L1) i of
           None \<Rightarrow> (L1, Inl (NotFound (sid i)))
         | Some d \<Rightarrow>
             (let off = put_machine L1 i d (on_hot_unplug (state_machine d) clk);
                  (L2, actions) =
                    (case sm_state (state_machine d) of
                       Connected \<Rightarrow> (off, [disconnect_action i d, Unmap (layout_id d)])
                     | Active \<Rightarrow> (off, [disconnect_action i d, Unmap (layout_id d)])
                     | Reconnecting \<Rightarrow> (off, [Unmap (layout_id d)])
                     | _ \<Rightarrow> (L1, []))
              in (L2, Inr (actions @ cancel_if reconnect_canceled i))))"

end
