(* ===== verification/Reconnect.thy ===== *)
theory Reconnect
  imports State_Machine
begin

text \<open>
  What the lifecycle state machine promises: the invariant of every reachable machine,
  bounds of the reconnect delay, exhaustion of the retry budget and the one-shot flap
  escalation.
\<close>

interpretation sm: fallible_machine "\<lambda>m (e, clk). sm_exec m e clk" sm_inv
  by unfold_locales (auto intro: sm_exec_inv)

section \<open>Backoff bounds\<close>

text \<open>
  The policies for which no delay computation panics: a finite non-negative growth
  factor, a jitter representable in \<^verbatim>\<open>f64\<close> between 0 and 1, and a cap below \<open>2 ^ 61\<close>
  seconds. \<open>jittered_cap\<close> is the delay computed from the cap with the jitter added.
\<close>

definition policy_sane :: "reconnect_policy \<Rightarrow> bool" where
  "policy_sane p \<longleftrightarrow>
     (case backoff_factor p of Fin b \<Rightarrow> 0 \<le> b | _ \<Rightarrow> False) \<and>
     (case jitter p of Fin j \<Rightarrow> 0 \<le> j \<and> j \<le> 1 \<and> rnd j = j | _ \<Rightarrow> False) \<and>
     initial_delay p < duration_limit \<and> max_delay p < 2 ^ 61 * nanos_per_sec"

definition jittered_cap :: "reconnect_policy \<Rightarrow> duration option" where
  "jittered_cap p =
     from_secs_f64 (f64_max (f64_mul (as_secs_f64 (max_delay p)) (f64_add (Fin 1) (jitter p)))
                            (f64_of_rat (1 / 10)))"

lemma capped_base:
  assumes "cur < duration_limit" "backoff_factor p = Fin b" "0 \<le> b"
    and M: "as_secs_f64 (max_delay p) = Fin M" "0 \<le> M"
  shows "\<exists>x. f64_min (f64_mul (as_secs_f64 cur) (backoff_factor p)) (as_secs_f64 (max_delay p)) = Fin x
           \<and> 0 \<le> x \<and> x \<le> M"
proof -
  obtain c where c: "as_secs_f64 cur = Fin c" "0 \<le> c"
    using as_secs_f64_Fin [of cur 64] assms(1) by (auto simp: duration_limit_def)
  then have "0 \<le> rnd (c * b)" using assms(3) by (auto intro: rnd_nonneg)
  then show ?thesis using c assms
    by (auto simp: f64_min_def f64_of_rat_def Let_def f64_max_finite_def)
qed

lemma jitter_factor:
  assumes "0 \<le> j" "j \<le> 1" "rnd j = j" "s = Fin 1 \<or> s = Fin (- 1)"
  shows "\<exists>y. f64_add (Fin 1) (f64_mul s (Fin j)) = Fin y \<and> 0 \<le> y \<and> y \<le> rnd (1 + j) \<and> rnd (1 + j) \<le> 2"
proof -
  have two: "rnd (1 + j) \<le> 2" using rnd_le_pow2 [of 1 "1 + j"] assms by simp
  have j: "f64_of_rat j = Fin j" "f64_of_rat (- j) = Fin (- j)"
    using assms by (auto simp: f64_of_rat_Fin)
  have "f64_of_rat (1 + j) = Fin (rnd (1 + j))" "f64_of_rat (1 - j) = Fin (rnd (1 - j))"
    using assms by (auto intro!: f64_of_rat_Fin)
  moreover have "rnd (1 - j) \<le> rnd (1 + j)" using assms by (intro rnd_mono) simp
  moreover have "0 \<le> rnd (1 - j)" "0 \<le> rnd (1 + j)" using assms by (auto intro!: rnd_nonneg)
  ultimately show ?thesis using assms(4) j two by auto
qed

lemma grow_delay_sane:
  assumes "policy_sane p" "cur < duration_limit"
  shows "\<exists>d cap. grow_delay p cur step = Some d \<and> jittered_cap p = Some cap \<and>
           100000000 \<le> d \<and> d \<le> cap \<and> cap < duration_limit"
proof -
  obtain b j where b: "backoff_factor p = Fin b" "0 \<le> b" and j: "jitter p = Fin j" "0 \<le> j" "j \<le> 1" "rnd j = j"
    and md: "max_delay p < 2 ^ 61 * 1000000000"
    using assms(1) by (auto simp: policy_sane_def split: f64.splits)
  obtain M where M: "as_secs_f64 (max_delay p) = Fin M" "0 \<le> M" "M \<le> 2 ^ 62"
    using as_secs_f64_Fin [OF md] by auto
  obtain x where x: "f64_min (f64_mul (as_secs_f64 cur) (backoff_factor p)) (as_secs_f64 (max_delay p)) = Fin x"
      "0 \<le> x" "x \<le> M"
    using capped_base [OF assms(2) b M(1,2)] by blast
  define s where "s = (if unat step mod 2 = 0 then Fin 1 else Fin (- 1))"
  obtain y where y: "f64_add (Fin 1) (f64_mul s (Fin j)) = Fin y" "0 \<le> y" "y \<le> rnd (1 + j)" "rnd (1 + j) \<le> 2"
    using jitter_factor [OF j(2-4), of s] by (cases "unat step mod 2 = 0") (auto simp: s_def)
  have xy: "0 \<le> x * y" "x * y \<le> M * rnd (1 + j)" "M * rnd (1 + j) \<le> 2 ^ 63"
    using x y M mult_mono [of M "2 ^ 62" "rnd (1 + j)" 2] by (auto intro!: mult_mono)
  have r63: "rnd (M * rnd (1 + j)) \<le> 2 ^ 63" by (rule rnd_le_pow2) (use xy in simp_all)
  have p1: "f64_mul (Fin x) (Fin y) = Fin (rnd (x * y))"
    "f64_mul (Fin M) (Fin (rnd (1 + j))) = Fin (rnd (M * rnd (1 + j)))"
    using xy by (auto intro!: f64_of_rat_Fin simp: abs_le_iff)
  have p2: "f64_add (Fin 1) (Fin j) = Fin (rnd (1 + j))" using j by (auto intro!: f64_of_rat_Fin)
  have q: "0 \<le> rnd (x * y)" "rnd (x * y) \<le> rnd (M * rnd (1 + j))"
    using xy by (auto intro: rnd_nonneg rnd_mono)
  have "grow_delay p cur step = from_secs_f64 (f64_max (Fin (rnd (x * y))) (f64_of_rat (1 / 10)))"
    using x(1) y(1) p1 j(1) by (simp add: grow_delay_def Let_def s_def)
  moreover have "jittered_cap p = from_secs_f64 (f64_max (Fin (rnd (M * rnd (1 + j)))) (f64_of_rat (1 / 10)))"
    using M(1) p1 p2 j(1) by (simp add: jittered_cap_def)
  ultimately show ?thesis using max_tenth_nanos [OF q r63] by (metis)
qed


section \<open>Flap streaks\<close>

text \<open>Reconnect, fail, and let the executor take the pending escalation, once per element.\<close>

fun flap_cycles ::
    "device_sm \<Rightarrow> (device_handle \<times> instant \<times> instant) list \<Rightarrow>
     (device_sm \<times> flap_escalation list) option" where
  "flap_cycles m [] = Some (m, [])"
| "flap_cycles m ((h, up, down) # cs) =
     (case on_comm_error_at (fst (on_connected_at m h up up)) down down of
        None \<Rightarrow> None
      | Some (m1, _) \<Rightarrow>
          (case take_flap_escalation m1 of
             (m2, e) \<Rightarrow> map_option (\<lambda>(m3, es). (m3, (case e of None \<Rightarrow> es | Some x \<Rightarrow> x # es)))
                          (flap_cycles m2 cs)))"

definition unstable_cycle :: "device_handle \<times> instant \<times> instant \<Rightarrow> bool" where
  "unstable_cycle c \<longleftrightarrow> (case c of (h, up, down) \<Rightarrow> down - up < RECONNECT_STABLE_AFTER)"

lemma flap_cycle:
  assumes "policy_sane (sm_policy m)" "sm_state m = Reconnecting" "sm_reconnect m = Some st"
    and "next_retry st < duration_limit" "down - up < RECONNECT_STABLE_AFTER"
  shows "\<exists>m1 st1. on_comm_error_at (fst (on_connected_at m h up up)) down down = Some (m1, Inr ()) \<and>
    sm_policy m1 = sm_policy m \<and> sm_state m1 = Reconnecting \<and> sm_reconnect m1 = Some st1 \<and>
    Some (next_retry st1) = grow_delay (sm_policy m) (next_retry st) (saturating_succ (flaps (sm_flap m))) \<and>
    next_retry st1 < duration_limit \<and> 100000000 \<le> next_retry st1 \<and>
    flaps (sm_flap m1) = saturating_succ (flaps (sm_flap m)) \<and>
    escalation_pending (sm_flap m1) = (saturating_succ (flaps (sm_flap m)) = FLAP_ESCALATION_THRESHOLD)"
proof -
  obtain d where "grow_delay (sm_policy m) (next_retry st) (saturating_succ (flaps (sm_flap m))) = Some d"
      "d < duration_limit" "100000000 \<le> d"
    using grow_delay_sane [OF assms(1,4)] by (meson le_less_trans)
  with assms show ?thesis
    by (simp add: on_connected_at_def on_comm_error_at_def unstable_reconnect_delay_def
        saturating_duration_since_def Let_def)
qed

lemma saturating_succ_of_nat:
  "Suc k < 2 ^ 32 \<Longrightarrow> saturating_succ (of_nat k :: u32) = of_nat (Suc k)"
proof -
  assume k: "Suc k < 2 ^ 32"
  have "unat (saturating_succ (of_nat k :: u32)) = Suc k"
    using k by (simp add: unat_saturating_succ unat_of_nat)
  then show ?thesis using k by (simp add: word_unat_eq_iff unat_of_nat del: of_nat_Suc)
qed

lemma flap_cycles_count:
  assumes "policy_sane (sm_policy m)" "sm_state m = Reconnecting" "sm_reconnect m = Some st"
    and "next_retry st < duration_limit" "flaps (sm_flap m) = of_nat k"
    and "k + length cs < 2 ^ 32" "\<forall>c \<in> set cs. unstable_cycle c"
  shows "\<exists>m' es. flap_cycles m cs = Some (m', es) \<and> sm_state m' = Reconnecting \<and>
    flaps (sm_flap m') = of_nat (k + length cs) \<and>
    map esc_flaps es = (if k < 3 \<and> 3 \<le> k + length cs then [3] else [])"
  using assms
proof (induction cs arbitrary: m st k)
  case Nil
  then show ?case by simp
next
  case (Cons c cs)
  obtain h up down where c: "c = (h, up, down)" by (cases c)
  obtain m1 st1 where m1:
    "on_comm_error_at (fst (on_connected_at m h up up)) down down = Some (m1, Inr ())"
    "sm_policy m1 = sm_policy m" "sm_state m1 = Reconnecting" "sm_reconnect m1 = Some st1"
    "next_retry st1 < duration_limit"
    "flaps (sm_flap m1) = of_nat (Suc k)"
    "escalation_pending (sm_flap m1) = (of_nat (Suc k) = FLAP_ESCALATION_THRESHOLD)"
    using flap_cycle [OF Cons.prems(1-4), of down up h] Cons.prems(5-7) c
      saturating_succ_of_nat [of k] by (auto simp: unstable_cycle_def)
  have three: "of_nat (Suc k) = FLAP_ESCALATION_THRESHOLD \<longleftrightarrow> Suc k = 3"
    using Cons.prems(6) by (simp add: FLAP_ESCALATION_THRESHOLD_def word_unat_eq_iff unat_of_nat del: of_nat_Suc)
  define m2 where "m2 = fst (take_flap_escalation m1)"
  have m2: "sm_policy m2 = sm_policy m" "sm_state m2 = Reconnecting" "sm_reconnect m2 = Some st1"
    "flaps (sm_flap m2) = of_nat (Suc k)"
    using m1 by (simp_all add: m2_def take_flap_escalation_def Let_def)
  obtain m' es where IH: "flap_cycles m2 cs = Some (m', es)" "sm_state m' = Reconnecting"
    "flaps (sm_flap m') = of_nat (Suc k + length cs)"
    "map esc_flaps es = (if Suc k < 3 \<and> 3 \<le> Suc k + length cs then [3] else [])"
    using Cons.IH [of m2 st1 "Suc k"] m1(5) m2 Cons.prems(1,6,7) by auto
  have esc: "take_flap_escalation m1 = (m2,
      if Suc k = 3 then Some \<lparr>esc_flaps = of_nat (Suc k), esc_next_retry = next_retry st1\<rparr> else None)"
    using m1 three by (simp add: take_flap_escalation_def Let_def m2_def)
  consider "k = 2" | "k < 2" | "2 < k" by linarith
  then show ?case
    by cases (use m1(1) IH in \<open>simp_all add: c esc\<close>)
qed

section \<open>Retry exhaustion\<close>

fun fail_run :: "device_sm \<Rightarrow> instant list \<Rightarrow> (device_sm \<times> duration option list) option" where
  "fail_run m [] = Some (m, [])"
| "fail_run m (clk # clks) =
     (case on_reconnect_failed m clk of
        None \<Rightarrow> None
      | Some (m', r) \<Rightarrow> map_option (\<lambda>(m'', rs). (m'', r # rs)) (fail_run m' clks))"

definition within_cap :: "reconnect_policy \<Rightarrow> duration \<Rightarrow> bool" where
  "within_cap p d \<longleftrightarrow>
     100000000 \<le> d \<and> (case jittered_cap p of None \<Rightarrow> False | Some cap \<Rightarrow> d \<le> cap)"

lemma reconnect_failed_retries:
  assumes "policy_sane (sm_policy m)" "max_attempts (sm_policy m) = Some n"
    and "sm_reconnect m = Some st" "next_retry st < duration_limit"
    and "saturating_succ (attempt st) < n"
  shows "\<exists>d st'. on_reconnect_failed m clk = Some (m\<lparr>sm_reconnect := Some st'\<rparr>, Some d) \<and>
    next_retry st' = d \<and> attempt st' = saturating_succ (attempt st) \<and>
    within_cap (sm_policy m) d \<and> d < duration_limit"
proof -
  obtain d cap where "grow_delay (sm_policy m) (next_retry st) (saturating_succ (attempt st)) = Some d"
      "jittered_cap (sm_policy m) = Some cap" "d \<le> cap" "cap < duration_limit" "100000000 \<le> d"
    using grow_delay_sane [OF assms(1,4)] by blast
  with assms show ?thesis
    by (auto simp: on_reconnect_failed_def Let_def within_cap_def linorder_not_le)
qed

lemma reconnect_failed_exhausted:
  assumes "max_attempts (sm_policy m) = Some n" "sm_reconnect m = Some st"
    and "n \<le> saturating_succ (attempt st)"
  shows "\<exists>m'. on_reconnect_failed m clk = Some (m', None) \<and> sm_state m' = Known \<and>
    sm_reconnect m' = None \<and> sm_flap m' = default_flap"
  using assms by (simp add: on_reconnect_failed_def Let_def)

lemma fail_run_exhausts:
  assumes "policy_sane (sm_policy m)" "max_attempts (sm_policy m) = Some n"
    and "sm_reconnect m = Some st" "next_retry st < duration_limit"
    and "attempt st < n" "length clks = unat n - unat (attempt st)"
  shows "\<exists>m' ds. fail_run m clks = Some (m', map Some ds @ [None]) \<and> sm_state m' = Known \<and>
    sm_reconnect m' = None \<and> sm_flap m' = default_flap \<and>
    (\<forall>d \<in> set ds. within_cap (sm_policy m) d)"
  using assms
proof (induction clks arbitrary: m st)
  case Nil
  then show ?case by (simp add: word_less_nat_alt)
next
  case (Cons clk clks)
  have "unat n < 2 ^ LENGTH(32)" by (rule unsigned_less)
  then have att: "unat (saturating_succ (attempt st)) = Suc (unat (attempt st))"
    using Cons.prems(5) by (simp add: unat_saturating_succ word_less_nat_alt)
  show ?case
  proof (cases "saturating_succ (attempt st) < n")
    case True
    then obtain d st' where step:
      "on_reconnect_failed m clk = Some (m\<lparr>sm_reconnect := Some st'\<rparr>, Some d)"
      "next_retry st' = d" "attempt st' = saturating_succ (attempt st)"
      "within_cap (sm_policy m) d" "d < duration_limit"
      using reconnect_failed_retries [OF Cons.prems(1-4) True] by blast
    have "length clks = unat n - unat (attempt st')" using Cons.prems(6) step(3) att by simp
    then obtain m' ds where "fail_run (m\<lparr>sm_reconnect := Some st'\<rparr>) clks = Some (m', map Some ds @ [None])"
      "sm_state m' = Known" "sm_reconnect m' = None" "sm_flap m' = default_flap"
      "\<forall>d \<in> set ds. within_cap (sm_policy m) d"
      using Cons.IH [of "m\<lparr>sm_reconnect := Some st'\<rparr>" st'] Cons.prems step True att by auto
    then show ?thesis using step by (intro exI [of _ m'] exI [of _ "d # ds"]) simp
  next
    case False
    then have n: "n \<le> saturating_succ (attempt st)" by simp
    then have "unat n \<le> Suc (unat (attempt st))" using att by (simp add: word_le_nat_alt)
    moreover have "Suc (length clks) = unat n - unat (attempt st)" using Cons.prems(6) by simp
    ultimately have "length clks = 0" by linarith
    then have "clks = []" by simp
    moreover obtain m' where "on_reconnect_failed m clk = Some (m', None)" "sm_state m' = Known"
      "sm_reconnect m' = None" "sm_flap m' = default_flap"
      using reconnect_failed_exhausted [OF Cons.prems(2,3) n] by blast
    ultimately show ?thesis by (intro exI [of _ m'] exI [of _ "[]"]) simp
  qed
qed

section \<open>The default policy\<close>

lemma rnd_tenth: "rnd (3602879701896397 / 36028797018963968) = 3602879701896397 / 36028797018963968"
proof -
  have "rnd (3602879701896397 / 36028797018963968) = of_int 7205759403792794 * 2 powi (- 4 - 52)"
    by (rule rnd_eqI) (simp_all add: power_int_def power_divide)
  then show ?thesis by (simp add: power_int_def power_divide)
qed

lemma default_policy_sane: "policy_sane default_policy"
  by (simp add: policy_sane_def default_policy_def tenth_f64 rnd_tenth from_secs_def duration_limit_def)

lemma sixty_secs: "as_secs_f64 (from_secs 60) = Fin 60"
  using rnd_of_nat [of 60] rnd_of_nat [of 0]
  by (simp add: as_secs_f64_def from_secs_def f64_of_rat_Fin)

lemma default_jittered_cap: "jittered_cap default_policy = Some 66000000000"
proof -
  have f: "f64_add (Fin 1) (f64_of_rat (1 / 10)) = Fin (2476979795053773 / 2251799813685248)"
  proof -
    have "rnd (1 + 3602879701896397 / 36028797018963968) = of_int 4953959590107546 * 2 powi (0 - 52)"
      by (rule rnd_eqI) (simp_all add: power_int_def power_divide)
    then show ?thesis by (simp add: tenth_f64 f64_of_rat_Fin power_int_def power_divide)
  qed
  have g: "f64_mul (Fin 60) (Fin (2476979795053773 / 2251799813685248)) = Fin 66"
  proof -
    have "rnd (60 * (2476979795053773 / 2251799813685248)) = of_int 4644337115725824 * 2 powi (6 - 52)"
      by (rule rnd_eqI) (simp_all add: power_int_def power_divide)
    then show ?thesis by (simp add: f64_of_rat_Fin power_int_def power_divide)
  qed
  have "round_even 66000000000 = 66000000000"
    using round_even_of_int [of 66000000000] by simp
  then show ?thesis
    using f g
    by (simp add: jittered_cap_def default_policy_def sixty_secs tenth_f64 f64_max_def
        from_secs_f64_def duration_limit_def)
qed

section \<open>Properties\<close>

text \<open>Reachability is the same as a run of operations from a fresh machine.\<close>

abbreviation sm_run :: "device_sm \<Rightarrow> (sm_event \<times> instant) list \<Rightarrow> device_sm option" where
  "sm_run \<equiv> run (\<lambda>m (e, clk). sm_exec m e clk)"

lemma sm_run_reachable:
  "sm_reachable device policy m \<Longrightarrow> sm_run m es = Some m' \<Longrightarrow> sm_reachable device policy m'"
proof (induction es arbitrary: m)
  case (Cons ec es)
  obtain e clk where ec: "ec = (e, clk)" by (cases ec)
  with Cons.prems(2) obtain m1 where "sm_exec m e clk = Some m1" "sm_run m1 es = Some m'"
    by (auto split: option.splits)
  then show ?case using Cons.IH [of m1] Cons.prems(1) by (blast intro: sm_stepI reach_step)
qed simp

lemma sm_reachable_origin:
  "sm_reachable device policy m \<Longrightarrow>
   sm_device m = device \<and> sm_policy m = policy \<and> history_limit m = 64"
proof (induction rule: sm_reachable.induct)
  case (reach_step m e m')
  from reach_step(2) obtain clk where "sm_exec m e clk = Some m'" by auto
  with reach_step show ?case using sm_exec_device sm_exec_policy sm_exec_limit by metis
qed (simp add: with_policy_def)

text \<open>C1: Every machine reachable from \<open>with_policy\<close> by any sequence of lifecycle events is
  well formed: a reconnect is pending exactly in state Reconnecting, a handle is held only
  while the device is renderable, a pending escalation means the streak has reached the
  threshold, and the transition history is a connected path of at most 64 records that ends
  in the current state. Device and policy are the ones it was created with.\<close>

theorem reachable_machine_wellformed:
  assumes "sm_reachable device policy m"
  shows "(sm_reconnect m \<noteq> None \<longleftrightarrow> sm_state m = Reconnecting) \<and>
    (sm_handle m = None \<or> is_renderable (sm_state m)) \<and>
    (escalation_pending (sm_flap m) \<longrightarrow> is_flapping m) \<and>
    length (transition_history m) \<le> 64 \<and>
    (\<exists>a. chained a (transition_history m) (variant_name (sm_state m))) \<and>
    sm_device m = device \<and> sm_policy m = policy"
  using sm_reachable_inv [OF assms] sm_reachable_origin [OF assms]
  by (auto simp: sm_inv_def link_ok_def flap_ok_def history_ok_def is_flapping_def)

definition demo_id :: device_identifier where
  "demo_id = Network ''wled:00'' None None"

definition demo_handle :: device_handle where
  "demo_handle = \<lparr>handle_id = 1, handle_device = demo_id, handle_backend = ''wled''\<rparr>"

theorem reachable_machine_wellformed_witness:
  "\<exists>m. sm_run (with_policy demo_id default_policy 0)
         [(EvConnected demo_handle 5, 5), (EvFrameSuccess, 6), (EvCommError 9, 9)] = Some m \<and>
       sm_state m = Reconnecting \<and> sm_reconnect m \<noteq> None \<and> length (transition_history m) \<le> 64"
proof -
  let ?es = "[(EvConnected demo_handle 5, 5), (EvFrameSuccess, 6), (EvCommError 9, 9)]"
  obtain m where m: "sm_run (with_policy demo_id default_policy 0) ?es = Some m" "sm_state m = Reconnecting"
    by (simp add: with_policy_def on_connected_at_def on_frame_success_def on_comm_error_at_def
        unstable_reconnect_delay_def saturating_duration_since_def RECONNECT_STABLE_AFTER_def
        from_secs_def Let_def set_state_def)
  have "sm_reachable demo_id default_policy m"
    using sm_run_reachable [OF reach_start m(1)] .
  from reachable_machine_wellformed [OF this] m show ?thesis by blast
qed

text \<open>C2: With a retry budget of \<open>n\<close> attempts and a sane policy, failed reconnects never
  panic: every failure before the budget is spent schedules a retry after at least 0.1 s and
  at most the jittered cap, and exactly the failure that spends it abandons the device to
  Known, with no pending reconnect and the flap history cleared.\<close>

theorem retry_budget_exhausts:
  assumes "policy_sane (sm_policy m)" "max_attempts (sm_policy m) = Some n"
    and "sm_reconnect m = Some st" "next_retry st < duration_limit"
    and "attempt st < n" "length clks = unat n - unat (attempt st)"
  shows "\<exists>m' ds. fail_run m clks = Some (m', map Some ds @ [None]) \<and> sm_state m' = Known \<and>
    sm_reconnect m' = None \<and> sm_flap m' = default_flap \<and>
    (\<forall>d \<in> set ds. within_cap (sm_policy m) d)"
  by (rule fail_run_exhausts [OF assms])

definition six_attempts :: reconnect_policy where
  "six_attempts = default_policy\<lparr>max_attempts := Some 6\<rparr>"

definition failing_machine :: device_sm where
  "failing_machine = fst (on_connect_failed (with_policy demo_id six_attempts 0) 0)"

lemma failing_machine_fields:
  "sm_policy failing_machine = six_attempts" "sm_state failing_machine = Reconnecting"
  "flaps (sm_flap failing_machine) = 0"
  "sm_reconnect failing_machine = Some \<lparr>since = 0, attempt = 0, next_retry = from_secs 1\<rparr>"
  by (simp_all add: failing_machine_def on_connect_failed_def with_policy_def six_attempts_def
      default_policy_def Let_def)

lemma six_attempts_sane: "policy_sane six_attempts"
  using default_policy_sane by (simp add: six_attempts_def policy_sane_def)

theorem retry_budget_exhausts_witness:
  "\<exists>m' ds. fail_run failing_machine [1, 2, 3, 4, 5, 6] = Some (m', map Some ds @ [None]) \<and>
     sm_state m' = Known \<and> sm_reconnect m' = None"
  using retry_budget_exhausts [of failing_machine 6 _ "[1, 2, 3, 4, 5, 6]"]
  by (auto simp: failing_machine_fields six_attempts_sane)
    (auto simp: six_attempts_def from_secs_def duration_limit_def)

text \<open>A device that keeps reconnecting and failing again before it proved stable
  escalates exactly once per streak: however many unstable cycles run, each followed by the
  executor taking the pending escalation, exactly one report is delivered, at the third
  flap, and the streak counter counts every cycle.\<close>

theorem flap_escalates_once:
  assumes "policy_sane (sm_policy m)" "sm_state m = Reconnecting" "sm_reconnect m = Some st"
    and "next_retry st < duration_limit" "flaps (sm_flap m) = 0"
    and "length cs < 2 ^ 32" "\<forall>c \<in> set cs. unstable_cycle c"
  shows "\<exists>m' es. flap_cycles m cs = Some (m', es) \<and> sm_state m' = Reconnecting \<and>
    flaps (sm_flap m') = of_nat (length cs) \<and>
    map esc_flaps es = (if 3 \<le> length cs then [3] else [])"
  using flap_cycles_count [OF assms(1-4), of 0 cs] assms(5-7) by simp

theorem flap_escalates_once_witness:
  "\<exists>m' es. flap_cycles failing_machine (replicate 5 (demo_handle, 7, 8)) = Some (m', es) \<and>
     flaps (sm_flap m') = 5 \<and> map esc_flaps es = [3]"
  using flap_escalates_once [of failing_machine _ "replicate 5 (demo_handle, 7, 8)"]
  by (auto simp: failing_machine_fields six_attempts_sane unstable_cycle_def RECONNECT_STABLE_AFTER_def
      from_secs_def duration_limit_def)

text \<open>C3: Under the default policy every computed backoff delay exists, is at least 0.1 s
  and at most 66 s. The bound is attained, so the documented maximum of 60 s between retries
  is exceeded by the jitter that is applied after the cap.\<close>

theorem default_delay_bounds:
  assumes "current < duration_limit"
  shows "(\<exists>d. grow_delay default_policy current step = Some d \<and>
            100000000 \<le> d \<and> d \<le> 66000000000) \<and>
    grow_delay default_policy (from_secs 60) 2 = Some 66000000000 \<and>
    max_delay default_policy < 66000000000"
proof (intro conjI)
  show "\<exists>d. grow_delay default_policy current step = Some d \<and> 100000000 \<le> d \<and> d \<le> 66000000000"
    using grow_delay_sane [OF default_policy_sane assms, of step] default_jittered_cap by auto
  show "max_delay default_policy < 66000000000"
    by (simp add: default_policy_def from_secs_def)
  show "grow_delay default_policy (from_secs 60) 2 = Some 66000000000"
    using default_jittered_cap sixty_secs rnd_of_nat [of 120]
    by (simp add: grow_delay_def jittered_cap_def default_policy_def f64_min_def
        f64_of_rat_Fin tenth_f64 rnd_tenth)
qed

theorem default_delay_bounds_witness:
  "\<exists>d. grow_delay default_policy (from_secs 1) 1 = Some d \<and> 100000000 \<le> d \<and> d \<le> 66000000000"
  using default_delay_bounds [of "from_secs 1" 1] by (simp add: from_secs_def duration_limit_def)

end
