(* ===== verification/Lifecycle_Props.thy ===== *)
theory Lifecycle_Props
  imports Lifecycle Reconnect
begin

text \<open>
  What the lifecycle manager promises its executor, for every sequence of events: the
  invariant that ties scheduled reconnects and connects in flight to device states, the
  meaning of every emitted action, and that the executor's set of reconnect timers, driven
  by the actions alone, is the manager's. Further: layout id components and the round trip
  between transport identifiers and fingerprints.
\<close>

section \<open>Events\<close>

datatype 'p lc_event =
    LcRebind device_id string
  | LcDiscovered device_id "'p device_info" "device_fingerprint option" connect_behavior
  | LcRetryStale device_id
  | LcConnected device_id
  | LcConnectFailed device_id
  | LcConnectAbandoned device_id
  | LcFrameSuccess device_id
  | LcCommError device_id instant
  | LcReconnectRequested device_id
  | LcTakeEscalation device_id
  | LcReconnectAttempt device_id
  | LcReconnectFailed device_id
  | LcVanished device_id
  | LcUserDisable device_id
  | LcUserEnable device_id
  | LcDeactivate device_id

fun event_device :: "'p lc_event \<Rightarrow> device_id" where
  "event_device (LcRebind i _) = i"
| "event_device (LcDiscovered i _ _ _) = i"
| "event_device (LcRetryStale i) = i"
| "event_device (LcConnected i) = i"
| "event_device (LcConnectFailed i) = i"
| "event_device (LcConnectAbandoned i) = i"
| "event_device (LcFrameSuccess i) = i"
| "event_device (LcCommError i _) = i"
| "event_device (LcReconnectRequested i) = i"
| "event_device (LcTakeEscalation i) = i"
| "event_device (LcReconnectAttempt i) = i"
| "event_device (LcReconnectFailed i) = i"
| "event_device (LcVanished i) = i"
| "event_device (LcUserDisable i) = i"
| "event_device (LcUserEnable i) = i"
| "event_device (LcDeactivate i) = i"

text \<open>An \<^verbatim>\<open>Err\<close> result carries no actions for the executor.\<close>

fun emitted :: "lc_result \<Rightarrow> lifecycle \<times> lifecycle_action list" where
  "emitted (L, Inl e) = (L, [])"
| "emitted (L, Inr acts) = (L, acts)"

definition opt_action :: "lifecycle \<times> lifecycle_action option \<Rightarrow> lifecycle \<times> lifecycle_action list" where
  "opt_action r = (fst r, (case snd r of None \<Rightarrow> [] | Some a \<Rightarrow> [a]))"

fun lc_exec ::
    "(device_id \<Rightarrow> string) \<Rightarrow> lifecycle \<Rightarrow> 'p lc_event \<Rightarrow> instant \<Rightarrow>
     (lifecycle \<times> lifecycle_action list) option" where
  "lc_exec sid L (LcRebind i s) clk = Some (fst (rebind_layout_device_id L i s), [])"
| "lc_exec sid L (LcDiscovered i info fp b) clk =
     Some (lc_on_discovered_with_behavior sid L i info fp b clk)"
| "lc_exec sid L (LcRetryStale i) clk = Some (opt_action (retry_stale_known_connect L i clk))"
| "lc_exec sid L (LcConnected i) clk = Some (emitted (lc_on_connected sid L i clk))"
| "lc_exec sid L (LcConnectFailed i) clk = Some (emitted (lc_on_connect_failed sid L i clk))"
| "lc_exec sid L (LcConnectAbandoned i) clk = Some (emitted (lc_on_connect_abandoned sid L i clk))"
| "lc_exec sid L (LcFrameSuccess i) clk = Some (fst (lc_on_frame_success sid L i clk), [])"
| "lc_exec sid L (LcCommError i now) clk = map_option emitted (lc_on_comm_error_at sid L i now clk)"
| "lc_exec sid L (LcReconnectRequested i) clk = map_option emitted (lc_on_reconnect_requested sid L i clk)"
| "lc_exec sid L (LcTakeEscalation i) clk = Some (fst (lc_take_flap_escalation L i), [])"
| "lc_exec sid L (LcReconnectAttempt i) clk = Some (opt_action (lc_on_reconnect_attempt L i clk))"
| "lc_exec sid L (LcReconnectFailed i) clk = map_option emitted (lc_on_reconnect_failed sid L i clk)"
| "lc_exec sid L (LcVanished i) clk = Some (lc_on_device_vanished L i clk)"
| "lc_exec sid L (LcUserDisable i) clk = Some (emitted (lc_on_user_disable sid L i clk))"
| "lc_exec sid L (LcUserEnable i) clk = Some (emitted (lc_on_user_enable sid L i clk))"
| "lc_exec sid L (LcDeactivate i) clk = Some (emitted (lc_on_runtime_deactivate sid L i clk))"

section \<open>What the shared steps do to one device\<close>

lemma lc_view_simps [simp]:
  "fmlookup (lc_devices (put_machine L i d m)) j =
     (if i = j then Some (d\<lparr>state_machine := m\<rparr>) else fmlookup (lc_devices L) j)"
  "fmlookup (lc_devices (put_device L i d)) j = (if i = j then Some d else fmlookup (lc_devices L) j)"
  "lc_devices (mark_connect_in_flight L i clk) = lc_devices L"
  "lc_devices (clear_in_flight L i) = lc_devices L"
  "lc_devices (schedule L i) = lc_devices L"
  "lc_devices (unschedule L i) = lc_devices L"
  "connect_in_flight (put_machine L i d m) = connect_in_flight L"
  "connect_in_flight (put_device L i d) = connect_in_flight L"
  "fmlookup (connect_in_flight (mark_connect_in_flight L i clk)) j =
     (if i = j then Some clk else fmlookup (connect_in_flight L) j)"
  "fmlookup (connect_in_flight (clear_in_flight L i)) j =
     (if i = j then None else fmlookup (connect_in_flight L) j)"
  "connect_in_flight (schedule L i) = connect_in_flight L"
  "connect_in_flight (unschedule L i) = connect_in_flight L"
  "reconnect_scheduled (put_machine L i d m) = reconnect_scheduled L"
  "reconnect_scheduled (put_device L i d) = reconnect_scheduled L"
  "reconnect_scheduled (mark_connect_in_flight L i clk) = reconnect_scheduled L"
  "reconnect_scheduled (clear_in_flight L i) = reconnect_scheduled L"
  "reconnect_scheduled (schedule L i) = finsert i (reconnect_scheduled L)"
  "reconnect_scheduled (unschedule L i) = reconnect_scheduled L |-| {|i|}"
  by (simp_all add: put_machine_def put_device_def mark_connect_in_flight_def clear_in_flight_def
      schedule_def unschedule_def)

lemmas lc_op_defs =
  rebind_layout_device_id_def lc_on_discovered_with_behavior_def retry_stale_known_connect_def
  lc_on_connected_def lc_on_connect_failed_def lc_on_connect_abandoned_def lc_on_frame_success_def
  lc_on_comm_error_at_def lc_on_reconnect_requested_def reconnect_after_def
  lc_take_flap_escalation_def lc_on_reconnect_attempt_def lc_on_reconnect_failed_def
  lc_on_device_vanished_def lc_on_user_disable_def lc_on_user_enable_def
  lc_on_runtime_deactivate_def opt_action_def

lemmas lc_splits = option.splits if_splits prod.splits sum.splits device_state.splits

lemma lc_next_handle_id [simp]:
  "lc_devices (L\<lparr>next_handle_id := n\<rparr>) = lc_devices L"
  "connect_in_flight (L\<lparr>next_handle_id := n\<rparr>) = connect_in_flight L"
  "reconnect_scheduled (L\<lparr>next_handle_id := n\<rparr>) = reconnect_scheduled L"
  by simp_all

text \<open>A handler touches only the device of its event.\<close>

lemma lc_exec_frame:
  assumes "lc_exec sid L e clk = Some (L', acts)" "j \<noteq> event_device e"
  shows "fmlookup (lc_devices L') j = fmlookup (lc_devices L) j \<and>
    fmlookup (connect_in_flight L') j = fmlookup (connect_in_flight L) j \<and>
    (j |\<in>| reconnect_scheduled L' \<longleftrightarrow> j |\<in>| reconnect_scheduled L)"
  using assms
  by (cases e) (auto simp: lc_op_defs Let_def new_handle_def split: lc_splits)

definition cell_ok :: "lifecycle \<Rightarrow> device_id \<Rightarrow> bool" where
  "cell_ok L i \<longleftrightarrow>
     (case fmlookup (lc_devices L) i of
        None \<Rightarrow> \<not> in_flight L i \<and> i |\<notin>| reconnect_scheduled L
      | Some d \<Rightarrow> sm_inv (state_machine d) \<and>
          (i |\<in>| reconnect_scheduled L \<longrightarrow> sm_state (state_machine d) = Reconnecting) \<and>
          (in_flight L i \<longrightarrow> sm_state (state_machine d) = Known \<or> sm_state (state_machine d) = Reconnecting))"

definition lc_inv :: "lifecycle \<Rightarrow> bool" where
  "lc_inv L \<longleftrightarrow> (\<forall>i. cell_ok L i)"

lemma discovered_entry_machine:
  "state_machine (discovered_entry sid L i info fp b clk) =
     (case fmlookup (lc_devices L) i of
        Some d \<Rightarrow> state_machine d
      | None \<Rightarrow> with_policy (identifier_for_device sid info fp) (lc_policy L) clk)"
  "behavior (discovered_entry sid L i info fp b clk) = b"
  by (simp_all add: discovered_entry_def Let_def split: option.split)

text \<open>The state-machine calls of the handlers, with the state they lead to.\<close>

lemma sm_op_inv:
  assumes "sm_inv m"
  shows "sm_inv (fst (on_connected_at m h now clk))" "sm_inv (fst (on_connect_failed m clk))"
    "sm_inv (on_connect_abandoned m clk)" "sm_inv (fst (on_frame_success m clk))"
    "sm_inv (fst (on_reconnect_requested_at m now clk))"
    "sm_inv (on_user_disable m clk)" "sm_inv (on_user_enable m clk)" "sm_inv (on_hot_unplug m clk)"
    "sm_inv (fst (take_flap_escalation m))"
  using sm_exec_inv [OF assms, of "EvConnected h now" clk] sm_exec_inv [OF assms, of EvConnectFailed clk]
    sm_exec_inv [OF assms, of EvConnectAbandoned clk] sm_exec_inv [OF assms, of EvFrameSuccess clk]
    sm_exec_inv [OF assms, of "EvReconnectRequested now" clk]
    sm_exec_inv [OF assms, of EvUserDisable clk]
    sm_exec_inv [OF assms, of EvUserEnable clk] sm_exec_inv [OF assms, of EvHotUnplug clk]
    sm_exec_inv [OF assms, of EvTakeEscalation clk]
  by simp_all

lemma sm_op_state [simp]:
  "sm_state (on_hot_unplug m clk) = Known" "sm_state (on_user_disable m clk) = Disabled"
  "sm_state (on_user_enable m clk) = (if sm_state m = Disabled then Known else sm_state m)"
  "sm_state (on_connect_abandoned m clk) = (if sm_state m = Reconnecting then Known else sm_state m)"
  "sm_state (fst (take_flap_escalation m)) = sm_state m"
  "sm_state (fst (on_connected_at m h now clk)) =
     (if sm_state m = Known \<or> sm_state m = Reconnecting then Connected else sm_state m)"
  "sm_state (fst (on_connect_failed m clk)) = (if sm_state m = Known then Reconnecting else sm_state m)"
  "sm_state (fst (on_frame_success m clk)) = (if sm_state m = Connected then Active else sm_state m)"
  "sm_state (fst (on_reconnect_requested_at m now clk)) =
     (if is_renderable (sm_state m) then Reconnecting else sm_state m)"
  by (auto simp: sm_op_defs Let_def is_renderable_def split: device_state.split)


lemma on_comm_error_at_state:
  assumes "on_comm_error_at m now clk = Some (m', r)"
  shows "sm_state m' = (if is_renderable (sm_state m) then Reconnecting else sm_state m)"
    "is_renderable (sm_state m) \<Longrightarrow> r = Inr ()"
    "\<not> is_renderable (sm_state m) \<Longrightarrow> m' = m \<and> (\<exists>e. r = Inl e)"
  using assms by (auto simp: on_comm_error_at_def Let_def is_renderable_def split: option.splits if_splits)

lemma on_reconnect_failed_state:
  assumes "on_reconnect_failed m clk = Some (m', r)" "link_ok m"
  shows "r = None \<Longrightarrow> sm_state m' = (if sm_state m = Reconnecting then Known else sm_state m)"
    "r = Some delay \<Longrightarrow> sm_state m = Reconnecting \<and> sm_state m' = Reconnecting \<and>
       map_option next_retry (sm_reconnect m') = Some delay"
  using assms
  by (auto simp: on_reconnect_failed_def Let_def link_ok_def split: option.splits if_splits)

lemma on_connect_failed_result:
  assumes "on_connect_failed m clk = (m', r)" "link_ok m"
  shows "r = Inr delay \<Longrightarrow> sm_state m' = Reconnecting \<and> map_option next_retry (sm_reconnect m') = Some delay"
    "r = Inl e \<Longrightarrow> m' = m \<and> sm_state m \<noteq> Known \<and> sm_state m \<noteq> Reconnecting"
  using assms
  by (auto simp: on_connect_failed_def Let_def link_ok_def split: device_state.splits option.splits)

lemma on_connected_at_result:
  assumes "on_connected_at m h now clk = (m', r)"
  shows "r = Inl e \<Longrightarrow> m' = m \<and> sm_state m \<noteq> Known \<and> sm_state m \<noteq> Reconnecting"
    "r = Inr u \<Longrightarrow> sm_state m' = Connected \<and> (sm_state m = Known \<or> sm_state m = Reconnecting)"
  using assms by (auto simp: on_connected_at_def split: if_splits)

lemma on_reconnect_requested_result:
  assumes "on_reconnect_requested_at m now clk = (m', r)"
  shows "r = Inl e \<Longrightarrow> m' = m \<and> \<not> is_renderable (sm_state m)"
    "r = Inr u \<Longrightarrow> sm_state m' = Reconnecting \<and> is_renderable (sm_state m)"
  using assms by (auto simp: on_reconnect_requested_at_def Let_def is_renderable_def split: if_splits)


lemma sm_op_inv_eq:
  assumes "sm_inv m"
  shows "on_connected_at m h now clk = (m', r1) \<Longrightarrow> sm_inv m'"
    "on_connect_failed m clk = (m', r2) \<Longrightarrow> sm_inv m'"
    "on_frame_success m clk = (m', r3) \<Longrightarrow> sm_inv m'"
    "on_reconnect_requested_at m now clk = (m', r4) \<Longrightarrow> sm_inv m'"
    "take_flap_escalation m = (m', r5) \<Longrightarrow> sm_inv m'"
    "on_comm_error_at m now clk = Some (m', r6) \<Longrightarrow> sm_inv m'"
    "on_reconnect_failed m clk = Some (m', r7) \<Longrightarrow> sm_inv m'"
  using sm_op_inv [OF assms] sm_exec_inv [OF assms, of "EvCommError now" clk]
    sm_exec_inv [OF assms, of EvReconnectFailed clk]
  by (metis fst_conv | simp)+

lemma sm_inv_link: "sm_inv m \<Longrightarrow> link_ok m"
  by (simp add: sm_inv_def)

lemma on_frame_success_state:
  "on_frame_success m clk = (m', r) \<Longrightarrow> sm_state m' = (if sm_state m = Connected then Active else sm_state m)"
  using sm_op_state(8) [of m clk] by simp

lemma take_flap_escalation_state: "take_flap_escalation m = (m', r) \<Longrightarrow> sm_state m' = sm_state m"
  using sm_op_state(5) [of m] by simp


section \<open>What one handler call may do\<close>

definition lc_renderable :: "lifecycle \<Rightarrow> device_id \<Rightarrow> bool" where
  "lc_renderable L i \<longleftrightarrow> (case lc_state L i of None \<Rightarrow> False | Some s \<Rightarrow> is_renderable s)"

text \<open>The executor's set of reconnect timers, driven by the emitted actions.\<close>

fun apply_timer :: "device_id fset \<Rightarrow> lifecycle_action \<Rightarrow> device_id fset" where
  "apply_timer S (SpawnReconnect i d) = finsert i S"
| "apply_timer S (CancelReconnect i) = S |-| {|i|}"
| "apply_timer S _ = S"

definition lc_next_retry :: "lifecycle \<Rightarrow> device_id \<Rightarrow> duration option" where
  "lc_next_retry L i =
     Option.bind (fmlookup (lc_devices L) i) (\<lambda>d. map_option next_retry (sm_reconnect (state_machine d)))"

fun action_ok :: "lifecycle \<Rightarrow> lifecycle \<Rightarrow> device_id \<Rightarrow> instant \<Rightarrow> lifecycle_action \<Rightarrow> bool" where
  "action_ok L L' i clk (Connect j b l) \<longleftrightarrow>
     j = i \<and> fmlookup (connect_in_flight L') i = Some clk \<and>
     (lc_state L' i = Some Known \<or> lc_state L' i = Some Reconnecting) \<and>
     (case fmlookup (lc_devices L') i of None \<Rightarrow> False
      | Some d \<Rightarrow> b = managed_backend d \<and> l = layout_id d)"
| "action_ok L L' i clk (Disconnect j b) \<longleftrightarrow>
     j = i \<and> lc_renderable L i \<and> \<not> lc_renderable L' i \<and> \<not> in_flight L' i"
| "action_ok L L' i clk (MapLayout l b j) \<longleftrightarrow> False"
| "action_ok L L' i clk (Unmap l) \<longleftrightarrow> \<not> lc_renderable L' i"
| "action_ok L L' i clk (SpawnReconnect j d) \<longleftrightarrow>
     j = i \<and> lc_state L' i = Some Reconnecting \<and> lc_next_retry L' i = Some d"
| "action_ok L L' i clk (CancelReconnect j) \<longleftrightarrow> j = i \<and> i |\<in>| reconnect_scheduled L"

text \<open>A device waiting to reconnect has a timer running or a connect in flight.\<close>

definition live_at :: "lifecycle \<Rightarrow> device_id \<Rightarrow> bool" where
  "live_at L i \<longleftrightarrow> lc_state L i \<noteq> Some Reconnecting \<or> i |\<in>| reconnect_scheduled L \<or> in_flight L i"

text \<open>\<open>rejected\<close>: the event is a reconnect trigger for a device that is not renderable.\<close>

definition step_ok ::
    "lifecycle \<Rightarrow> device_id \<Rightarrow> instant \<Rightarrow> bool \<Rightarrow> lifecycle \<times> lifecycle_action list \<Rightarrow> bool" where
  "step_ok L i clk rejected r \<longleftrightarrow>
     (live_at L i \<and> \<not> rejected \<longrightarrow> live_at (fst r) i) \<and>
     cell_ok (fst r) i \<and>
     reconnect_scheduled (fst r) = foldl apply_timer (reconnect_scheduled L) (snd r) \<and>
     list_all (action_ok L (fst r) i clk) (snd r) \<and>
     (lc_renderable L i \<and> \<not> lc_renderable (fst r) i \<longrightarrow> list_ex (\<lambda>a. \<exists>b. a = Disconnect i b) (snd r))"

lemma cell_ok_None:
  "fmlookup (lc_devices L) i = None \<Longrightarrow>
   cell_ok L i \<longleftrightarrow> fmlookup (connect_in_flight L) i = None \<and> i |\<notin>| reconnect_scheduled L"
  by (simp add: cell_ok_def in_flight_def)

lemma cell_ok_Some:
  "fmlookup (lc_devices L) i = Some d \<Longrightarrow>
   cell_ok L i \<longleftrightarrow> sm_inv (state_machine d) \<and>
     (i |\<in>| reconnect_scheduled L \<longrightarrow> sm_state (state_machine d) = Reconnecting) \<and>
     (fmlookup (connect_in_flight L) i = None \<or> sm_state (state_machine d) = Known \<or>
      sm_state (state_machine d) = Reconnecting)"
  by (auto simp: cell_ok_def in_flight_def)

lemma lc_state_lookup [simp]:
  "fmlookup (lc_devices L) i = None \<Longrightarrow> lc_state L i = None"
  "fmlookup (lc_devices L) i = Some d \<Longrightarrow> lc_state L i = Some (sm_state (state_machine d))"
  by (simp_all add: lc_state_def)

lemma cancel_if_simps [simp]: "cancel_if False i = []" "cancel_if True i = [CancelReconnect i]"
  by (simp_all add: cancel_if_def)

lemma foldl_timer_cancel_if [simp]:
  "foldl apply_timer S (cancel_if (i |\<in>| S) i) = S |-| {|i|}"
  by (auto simp: cancel_if_def)

lemma fminus_notin [simp]: "i |\<notin>| S \<Longrightarrow> S |-| {|i|} = S"
  by auto

lemma list_all_cancel_if [simp]:
  "list_all (action_ok L L' i clk) (cancel_if b i) \<longleftrightarrow> (b \<longrightarrow> i |\<in>| reconnect_scheduled L)"
  "list_ex (\<lambda>a. \<exists>c. a = Disconnect i c) (cancel_if b i) \<longleftrightarrow> False"
  by (simp_all add: cancel_if_def)

lemmas step_simps = step_ok_def live_at_def cell_ok_None cell_ok_Some lc_renderable_def is_renderable_def
  lc_next_retry_def in_flight_def connect_action_def disconnect_action_def Let_def opt_action_def

lemma step_rebind: "cell_ok L i \<Longrightarrow> step_ok L i clk False (fst (rebind_layout_device_id L i s), [])"
  by (cases "fmlookup (lc_devices L) i") (auto simp: step_simps rebind_layout_device_id_def)

lemma step_retry_stale: "cell_ok L i \<Longrightarrow> step_ok L i clk False (opt_action (retry_stale_known_connect L i clk))"
  by (cases "fmlookup (lc_devices L) i"; cases "fmlookup (connect_in_flight L) i")
    (auto simp: step_simps retry_stale_known_connect_def)

lemma step_reconnect_attempt: "cell_ok L i \<Longrightarrow> step_ok L i clk False (opt_action (lc_on_reconnect_attempt L i clk))"
  by (cases "fmlookup (lc_devices L) i"; cases "fmlookup (connect_in_flight L) i")
    (auto simp: step_simps lc_on_reconnect_attempt_def)

lemma step_frame_success: "cell_ok L i \<Longrightarrow> step_ok L i clk False (fst (lc_on_frame_success sid L i clk), [])"
proof (cases "fmlookup (lc_devices L) i")
  case (Some d)
  obtain m r where "on_frame_success (state_machine d) clk = (m, r)" by fastforce
  moreover assume "cell_ok L i"
  ultimately show ?thesis using Some on_frame_success_state sm_op_inv_eq(3)
    by (cases "sm_state (state_machine d)") (auto simp: step_simps lc_on_frame_success_def)
qed (auto simp: step_simps lc_on_frame_success_def)

lemma step_take_escalation: "cell_ok L i \<Longrightarrow> step_ok L i clk False (fst (lc_take_flap_escalation L i), [])"
proof (cases "fmlookup (lc_devices L) i")
  case (Some d)
  obtain m r where "take_flap_escalation (state_machine d) = (m, r)" by fastforce
  moreover assume "cell_ok L i"
  ultimately show ?thesis using Some take_flap_escalation_state sm_op_inv_eq(5)
    by (cases "sm_state (state_machine d)") (auto simp: step_simps lc_take_flap_escalation_def)
qed (auto simp: step_simps lc_take_flap_escalation_def)

lemma step_vanished: "cell_ok L i \<Longrightarrow> step_ok L i clk False (lc_on_device_vanished L i clk)"
  by (cases "fmlookup (lc_devices L) i")
    (auto simp: step_simps lc_on_device_vanished_def sm_op_inv)

lemma step_user_disable: "cell_ok L i \<Longrightarrow> step_ok L i clk False (emitted (lc_on_user_disable sid L i clk))"
  by (cases "fmlookup (lc_devices L) i")
    (auto simp: step_simps lc_on_user_disable_def sm_op_inv)

lemma step_user_enable: "cell_ok L i \<Longrightarrow> step_ok L i clk False (emitted (lc_on_user_enable sid L i clk))"
  by (cases "fmlookup (lc_devices L) i")
    (auto simp: step_simps lc_on_user_enable_def sm_op_inv)

lemma step_deactivate: "cell_ok L i \<Longrightarrow> step_ok L i clk False (emitted (lc_on_runtime_deactivate sid L i clk))"
proof (cases "fmlookup (lc_devices L) i")
  case (Some d)
  then show "cell_ok L i \<Longrightarrow> ?thesis"
    by (cases "sm_state (state_machine d)") (auto simp: step_simps lc_on_runtime_deactivate_def sm_op_inv)
qed (auto simp: step_simps lc_on_runtime_deactivate_def)

lemma step_abandoned: "cell_ok L i \<Longrightarrow> step_ok L i clk False (emitted (lc_on_connect_abandoned sid L i clk))"
  by (cases "fmlookup (lc_devices L) i")
    (auto simp: step_simps lc_on_connect_abandoned_def sm_op_inv)


lemma step_connected: "cell_ok L i \<Longrightarrow> step_ok L i clk False (emitted (lc_on_connected sid L i clk))"
proof (cases "fmlookup (lc_devices L) i")
  case (Some d)
  assume ok: "cell_ok L i"
  define h where "h = \<lparr>handle_id = next_handle_id (unschedule (clear_in_flight L i) i),
    handle_device = managed_identifier d, handle_backend = managed_backend d\<rparr>"
  obtain m r where op: "on_connected_at (state_machine d) h clk clk = (m, r)" by fastforce
  then have "sm_inv m" using ok Some by (auto simp: cell_ok_Some intro: sm_op_inv_eq)
  then show ?thesis using ok Some op on_connected_at_result [OF op]
    by (cases r) (auto simp: step_simps lc_on_connected_def new_handle_def h_def [symmetric])
qed (auto simp: step_simps lc_on_connected_def)

lemma step_connect_failed: "cell_ok L i \<Longrightarrow> step_ok L i clk False (emitted (lc_on_connect_failed sid L i clk))"
proof (cases "fmlookup (lc_devices L) i")
  case (Some d)
  assume ok: "cell_ok L i"
  obtain m r where op: "on_connect_failed (state_machine d) clk = (m, r)" by fastforce
  have inv: "sm_inv m" "link_ok (state_machine d)"
    using ok Some op by (auto simp: cell_ok_Some sm_inv_link intro: sm_op_inv_eq)
  show ?thesis using ok Some op inv on_connect_failed_result [OF op inv(2)]
    by (cases r) (auto simp: step_simps lc_on_connect_failed_def on_connect_failed_def split: device_state.splits)
qed (auto simp: step_simps lc_on_connect_failed_def)

lemma step_reconnect_failed:
  assumes "cell_ok L i" "lc_on_reconnect_failed sid L i clk = Some res"
  shows "step_ok L i clk False (emitted res)"
proof (cases "fmlookup (lc_devices L) i")
  case (Some d)
  with assms(2) obtain m r where op: "on_reconnect_failed (state_machine d) clk = Some (m, r)"
    by (auto simp: lc_on_reconnect_failed_def Let_def split: option.splits)
  have inv: "sm_inv m" "link_ok (state_machine d)"
    using assms Some op sm_op_inv_eq(7) by (auto simp: cell_ok_Some sm_inv_link)
  show ?thesis using assms Some op inv on_reconnect_failed_state [OF op inv(2)]
    by (cases r; cases "sm_state (state_machine d)") (auto simp: step_simps lc_on_reconnect_failed_def)
qed (use assms in \<open>auto simp: step_simps lc_on_reconnect_failed_def\<close>)

text \<open>The two reconnect triggers share \<open>reconnect_after\<close>: a rejected transition changes nothing else.\<close>

lemma step_reconnect_after:
  assumes "cell_ok L i" "reconnect_after sid L i f = Some res"
    and f: "\<And>m m' r. sm_inv m \<Longrightarrow> f m = Some (m', r) \<Longrightarrow>
      sm_inv m' \<and> (\<forall>e. r = Inl e \<longrightarrow> m' = m) \<and>
      (\<forall>u. r = Inr u \<longrightarrow> is_renderable (sm_state m) \<and> sm_state m' = Reconnecting)"
  shows "step_ok L i clk (\<not> lc_renderable L i) (emitted res)"
proof (cases "fmlookup (lc_devices L) i")
  case (Some d)
  with assms(2) obtain m r where op: "f (state_machine d) = Some (m, r)"
    by (auto simp: reconnect_after_def Let_def split: option.splits)
  have inv: "sm_inv (state_machine d)" using assms(1) Some by (simp add: cell_ok_Some)
  have fm: "sm_inv m" "\<forall>e. r = Inl e \<longrightarrow> m = state_machine d"
    "\<forall>u. r = Inr u \<longrightarrow> is_renderable (sm_state (state_machine d)) \<and> sm_state m = Reconnecting"
    using f [OF inv op] by auto
  have "sm_state m = Reconnecting \<Longrightarrow> \<exists>st. sm_reconnect m = Some st"
    using fm(1) by (simp add: sm_inv_def link_ok_def)
  then show ?thesis using assms(1,2) Some op fm
    by (cases r) (auto simp: step_simps reconnect_after_def)
qed (use assms in \<open>auto simp: step_simps reconnect_after_def\<close>)

lemma step_comm_error:
  assumes "cell_ok L i" "lc_on_comm_error_at sid L i now clk = Some res"
  shows "step_ok L i clk' (\<not> lc_renderable L i) (emitted res)"
proof (rule step_reconnect_after [OF assms(1) assms(2) [unfolded lc_on_comm_error_at_def]])
  fix m m' :: device_sm and r :: "device_error + unit"
  assume inv: "sm_inv m" and op: "on_comm_error_at m now clk = Some (m', r)"
  show "sm_inv m' \<and> (\<forall>e. r = Inl e \<longrightarrow> m' = m) \<and>
      (\<forall>u. r = Inr u \<longrightarrow> is_renderable (sm_state m) \<and> sm_state m' = Reconnecting)"
    using on_comm_error_at_state [OF op] sm_op_inv_eq(6) [OF inv op]
    by (cases "is_renderable (sm_state m)") auto
qed

lemma step_reconnect_requested:
  assumes "cell_ok L i" "lc_on_reconnect_requested sid L i clk = Some res"
  shows "step_ok L i clk' (\<not> lc_renderable L i) (emitted res)"
proof (rule step_reconnect_after [OF assms(1) assms(2) [unfolded lc_on_reconnect_requested_def]])
  fix m m' :: device_sm and r :: "device_error + unit"
  assume inv: "sm_inv m" and "Some (on_reconnect_requested_at m clk clk) = Some (m', r)"
  then have op: "on_reconnect_requested_at m clk clk = (m', r)" by simp
  show "sm_inv m' \<and> (\<forall>e. r = Inl e \<longrightarrow> m' = m) \<and>
      (\<forall>u. r = Inr u \<longrightarrow> is_renderable (sm_state m) \<and> sm_state m' = Reconnecting)"
    using on_reconnect_requested_result [OF op] sm_op_inv_eq(4) [OF inv op] by auto
qed

lemma step_discovered:
  assumes "cell_ok L i"
  shows "step_ok L i clk False (lc_on_discovered_with_behavior sid L i info fp b clk)"
proof -
  define d where "d = discovered_entry sid L i info fp b clk"
  have inv: "sm_inv (state_machine d)" "behavior d = b"
    using assms
    by (auto simp: d_def discovered_entry_machine cell_ok_def with_policy_inv split: option.splits)
  have st: "fmlookup (connect_in_flight L) i = None \<or> sm_state (state_machine d) = Known \<or>
      sm_state (state_machine d) = Reconnecting"
    using assms
    by (auto simp: d_def discovered_entry_machine cell_ok_def in_flight_def split: option.splits)
  have sched: "i |\<in>| reconnect_scheduled L \<longrightarrow> sm_state (state_machine d) = Reconnecting"
    using assms
    by (auto simp: d_def discovered_entry_machine cell_ok_def split: option.splits)
  have rend: "lc_renderable L i = is_renderable (sm_state (state_machine d))"
    by (auto simp: d_def discovered_entry_machine lc_renderable_def lc_state_def with_policy_def
        is_renderable_def split: option.splits)
  show ?thesis using inv st sched rend unfolding lc_on_discovered_with_behavior_def Let_def d_def [symmetric]
    by (cases "sm_state (state_machine d)")
      (auto simp: step_ok_def live_at_def cell_ok_Some lc_renderable_def [of "put_machine _ _ _ _"]
        lc_renderable_def [of "put_device _ _ _"] lc_renderable_def [of "mark_connect_in_flight _ _ _"]
        is_renderable_def in_flight_def connect_action_def disconnect_action_def sm_op_inv)
qed

fun reconnect_trigger :: "'p lc_event \<Rightarrow> bool" where
  "reconnect_trigger (LcCommError _ _) = True"
| "reconnect_trigger (LcReconnectRequested _) = True"
| "reconnect_trigger _ = False"

lemma lc_exec_step_ok:
  assumes "lc_exec sid L e clk = Some r" "cell_ok L (event_device e)"
  shows "step_ok L (event_device e) clk (reconnect_trigger e \<and> \<not> lc_renderable L (event_device e)) r"
  using assms
  by (cases e)
    (auto simp: step_rebind step_discovered step_retry_stale step_connected step_connect_failed
      step_abandoned step_frame_success step_take_escalation step_reconnect_attempt step_vanished
      step_user_disable step_user_enable step_deactivate
      intro: step_comm_error step_reconnect_requested step_reconnect_failed)

lemma lc_exec_inv:
  assumes "lc_exec sid L e clk = Some (L', acts)" "lc_inv L"
  shows "lc_inv L'"
  unfolding lc_inv_def
proof
  fix j
  have "step_ok L (event_device e) clk (reconnect_trigger e \<and> \<not> lc_renderable L (event_device e)) (L', acts)"
    using lc_exec_step_ok [OF assms(1)] assms(2) by (simp add: lc_inv_def)
  moreover have "j \<noteq> event_device e \<Longrightarrow> cell_ok L' j = cell_ok L j"
    using lc_exec_frame [OF assms(1)] by (auto simp: cell_ok_def in_flight_def split: option.splits)
  ultimately show "cell_ok L' j"
    using assms(2) by (cases "j = event_device e") (auto simp: step_ok_def lc_inv_def)
qed


lemma cell_ok_states:
  assumes "cell_ok L i"
  shows "i |\<in>| reconnect_scheduled L \<Longrightarrow> lc_state L i = Some Reconnecting"
    "in_flight L i \<Longrightarrow> lc_state L i = Some Known \<or> lc_state L i = Some Reconnecting"
  using assms by (auto simp: cell_ok_def lc_state_def split: option.splits)

section \<open>Runs\<close>

primrec lc_run ::
    "(device_id \<Rightarrow> string) \<Rightarrow> lifecycle \<Rightarrow> ('p lc_event \<times> instant) list \<Rightarrow>
     (lifecycle \<times> lifecycle_action list) option" where
  "lc_run sid L [] = Some (L, [])"
| "lc_run sid L (ec # es) =
     (case lc_exec sid L (fst ec) (snd ec) of
        None \<Rightarrow> None
      | Some (L1, acts) \<Rightarrow> map_option (\<lambda>(L2, acts2). (L2, acts @ acts2)) (lc_run sid L1 es))"

interpretation lc: fallible_machine "\<lambda>L (e, clk). map_option fst (lc_exec sid L e clk)" lc_inv for sid
  by unfold_locales (auto dest: lc_exec_inv)

lemma lc_run_is_run:
  "map_option fst (lc_run sid L es) = run (\<lambda>L (e, clk). map_option fst (lc_exec sid L e clk)) L es"
proof (induction es arbitrary: L)
  case (Cons ec es)
  show ?case
  proof (cases "lc_exec sid L (fst ec) (snd ec)")
    case (Some r)
    obtain L1 acts where "r = (L1, acts)" by (cases r)
    with Some show ?thesis using Cons.IH [of L1]
      by (cases "lc_run sid L1 es") (auto simp: case_prod_beta)
  qed (simp add: case_prod_beta)
qed simp

lemma lc_run_inv:
  assumes "lc_inv L" "lc_run sid L es = Some (L', acts)"
  shows "lc_inv L'"
  using lc.run_Some_inv [OF assms(1), of sid es L'] lc_run_is_run [of sid L es] assms(2) by simp

lemma lc_run_timers:
  "lc_inv L \<Longrightarrow> lc_run sid L es = Some (L', acts) \<Longrightarrow>
   reconnect_scheduled L' = foldl apply_timer (reconnect_scheduled L) acts"
proof (induction es arbitrary: L acts)
  case (Cons ec es)
  then obtain L1 a b where step: "lc_exec sid L (fst ec) (snd ec) = Some (L1, a)"
      "lc_run sid L1 es = Some (L', b)" "acts = a @ b"
    by (auto split: option.splits)
  have "reconnect_scheduled L1 = foldl apply_timer (reconnect_scheduled L) a"
    using lc_exec_step_ok [OF step(1)] Cons.prems(1) by (simp add: step_ok_def lc_inv_def)
  then show ?case
    using Cons.IH [OF lc_exec_inv [OF step(1) Cons.prems(1)] step(2)] step(3) by simp
qed simp

lemma lc_inv_start: "lc_inv (with_reconnect_policy p h)"
  by (simp add: lc_inv_def with_reconnect_policy_def cell_ok_def in_flight_def)

text \<open>
  A connect is handed out only for a device with none in flight, or in place of one that has been
  in flight for at least the stale time, for a device that is still Known and connects automatically.
\<close>

lemma lc_exec_connect_fresh:
  assumes "lc_exec sid L e clk = Some (L', acts)" "Connect j b l \<in> set acts"
  shows "(case connect_in_flight_since L j of
      None \<Rightarrow> True
    | Some started \<Rightarrow> e = LcRetryStale j \<and> in_flight_stale_after L \<le> saturating_duration_since clk started \<and>
        (\<exists>d. fmlookup (lc_devices L) j = Some d \<and> sm_state (state_machine d) = Known \<and>
           should_auto_connect (behavior d)))"
  using assms
  by (cases e) (auto simp: lc_op_defs Let_def connect_action_def disconnect_action_def in_flight_def
      connect_in_flight_since_def lc_state_def cancel_if_def new_handle_def split: lc_splits)


section \<open>Sanitised components\<close>

definition slug_char :: "char \<Rightarrow> bool" where
  "slug_char c \<longleftrightarrow>
     is_ascii_digit c \<or> is_ascii_lowercase c \<or> c = CHR '':'' \<or> c = CHR ''_'' \<or> c = CHR ''-''"

definition is_slug :: "string \<Rightarrow> bool" where
  "is_slug s \<longleftrightarrow> s \<noteq> [] \<and> list_all slug_char s \<and> hd s \<noteq> CHR ''-'' \<and> last s \<noteq> CHR ''-'' \<and>
     successively (\<lambda>a b. \<not> (a = CHR ''-'' \<and> b = CHR ''-'')) s"

lemma byte_lit: "byte_of CHR '':'' = 58" "byte_of CHR ''_'' = 95" "byte_of CHR ''-'' = 45"
  by (simp_all add: byte_of_def)

lemma slug_char_mapped:
  assumes "is_ascii_alphanumeric ch \<or> ch = CHR '':'' \<or> ch = CHR ''_'' \<or> ch = CHR ''-''"
  shows "slug_char (to_ascii_lower ch)"
proof (cases "is_ascii_uppercase ch")
  case True
  then have "byte_of (char_of (byte_of ch + 32)) = byte_of ch + 32"
    by (simp add: byte_of_def is_ascii_uppercase_def)
  then show ?thesis using True
    by (simp add: to_ascii_lower_def slug_char_def is_ascii_uppercase_def is_ascii_lowercase_def)
qed (use assms in \<open>auto simp: to_ascii_lower_def slug_char_def is_ascii_alphanumeric_def\<close>)

lemma slug_char_fixed:
  assumes "slug_char c"
  shows "to_ascii_lower c = c" "\<not> is_whitespace c"
    "is_ascii_alphanumeric c \<or> c = CHR '':'' \<or> c = CHR ''_'' \<or> c = CHR ''-''"
  using assms byte_lit
  by (auto simp: slug_char_def to_ascii_lower_def is_whitespace_def is_ascii_digit_def
      is_ascii_lowercase_def is_ascii_uppercase_def is_ascii_alphanumeric_def)

lemma sanitize_loop_slug:
  "list_all slug_char (sanitize_loop p s) \<and>
   successively (\<lambda>a b. \<not> (a = CHR ''-'' \<and> b = CHR ''-'')) (sanitize_loop p s) \<and>
   (p \<longrightarrow> sanitize_loop p s = [] \<or> hd (sanitize_loop p s) \<noteq> CHR ''-'')"
proof (induction p s rule: sanitize_loop.induct)
  case (2 p ch cs)
  define mapped where "mapped = (if is_ascii_alphanumeric ch \<or> ch = CHR '':'' \<or> ch = CHR ''_'' \<or> ch = CHR ''-''
      then to_ascii_lower ch else CHR ''-'')"
  have "slug_char mapped" using slug_char_mapped by (auto simp: mapped_def slug_char_def)
  then show ?case using 2 [OF mapped_def]
    by (auto simp: mapped_def [symmetric] successively_Cons Let_def)
qed simp

lemma sanitize_loop_fixed:
  "list_all slug_char s \<Longrightarrow> successively (\<lambda>a b. \<not> (a = CHR ''-'' \<and> b = CHR ''-'')) s \<Longrightarrow>
   (p \<longrightarrow> s = [] \<or> hd s \<noteq> CHR ''-'') \<Longrightarrow> sanitize_loop p s = s"
proof (induction s arbitrary: p)
  case (Cons c s)
  have c: "to_ascii_lower c = c" "is_ascii_alphanumeric c \<or> c = CHR '':'' \<or> c = CHR ''_'' \<or> c = CHR ''-''"
    using Cons.prems(1) slug_char_fixed by auto
  show ?case
  proof (cases "c = CHR ''-''")
    case True
    then have "sanitize_loop True s = s"
      using Cons.prems by (intro Cons.IH) (auto simp: successively_Cons)
    then show ?thesis using True Cons.prems(3) c by (auto simp: Let_def)
  next
    case False
    then have "sanitize_loop False s = s"
      using Cons.prems by (intro Cons.IH) (auto simp: successively_Cons)
    then show ?thesis using False c by (auto simp: Let_def)
  qed
qed simp

lemma is_slug_sanitize: "is_slug (sanitize_component input)"
proof -
  define dash where "dash = (\<lambda>c. c = CHR ''-'')"
  define l where "l = sanitize_loop False (trim input)"
  obtain u v where uv: "l = u @ trim_matches dash l @ v" using trim_matches_infix by blast
  have l: "list_all slug_char l" "successively (\<lambda>a b. \<not> (a = CHR ''-'' \<and> b = CHR ''-'')) l"
    using sanitize_loop_slug [of False "trim input"] by (simp_all add: l_def)
  have "list_all slug_char (trim_matches dash l)"
    "successively (\<lambda>a b. \<not> (a = CHR ''-'' \<and> b = CHR ''-'')) (trim_matches dash l)"
    using l uv by (metis list_all_append successively_append_iff)+
  moreover have "is_slug ''device''"
    by (simp add: is_slug_def slug_char_def is_ascii_lowercase_def byte_of_def)
  moreover have "sanitize_component input =
      (if trim_matches dash l = [] then ''device'' else trim_matches dash l)"
    by (simp add: sanitize_component_def Let_def l_def dash_def)
  ultimately show ?thesis
    using trim_matches_no_ends [of dash l] by (auto simp: is_slug_def dash_def)
qed

lemma sanitize_slug_id: "is_slug s \<Longrightarrow> sanitize_component s = s"
proof -
  assume s: "is_slug s"
  then have w: "\<not> is_whitespace (hd s)" "\<not> is_whitespace (last s)"
    using slug_char_fixed(2) by (auto simp: is_slug_def list_all_iff)
  then have "trim s = s" using s by (simp add: trim_def trim_matches_id is_slug_def)
  moreover have "sanitize_loop False s = s"
    using s by (intro sanitize_loop_fixed) (auto simp: is_slug_def)
  moreover have "trim_matches (\<lambda>c. c = CHR ''-'') s = s"
    using s by (intro trim_matches_id) (auto simp: is_slug_def)
  ultimately show ?thesis using s by (simp add: sanitize_component_def is_slug_def)
qed


text \<open>A fingerprint minted by the owning driver carries the layout owner as its second part.\<close>

lemma slug_driver:
  assumes "is_slug driver"
  shows "trim driver = driver" "to_ascii_lowercase driver = driver"
proof -
  have c: "\<And>c. c \<in> set driver \<Longrightarrow> to_ascii_lower c = c \<and> \<not> is_whitespace c"
    using assms slug_char_fixed by (auto simp: is_slug_def list_all_iff)
  then show "trim driver = driver" using assms
    unfolding trim_def by (intro trim_matches_id) (auto simp: is_slug_def)
  show "to_ascii_lowercase driver = driver" using c by (auto simp: to_ascii_lowercase_def intro: map_idI)
qed

lemma minted_owner:
  assumes "mint ns driver key = Some fp" "info_driver_id info = driver" "is_slug driver"
  shows "as_str fp = namespace_str ns @ '':'' @ layout_owner_id info @ '':'' @ key"
proof -
  have "driver \<noteq> []" using assms(3) by (auto simp: is_slug_def)
  then show ?thesis using assms slug_driver [OF assms(3)]
    by (auto simp: mint_Some_iff layout_owner_id_def sanitize_slug_id)
qed

lemma strip_or_self_owner [simp]: "strip_or_self (p @ '':'') (p @ CHR '':'' # r) = r"
  using strip_prefix_append [of "p @ '':''" r] by (simp add: strip_or_self_def)

lemma usb_identifier_roundtrip:
  assumes "trim serial = serial" "serial \<noteq> []" "serial \<noteq> ''unknown''"
  shows "usb_identifier (fmt_hex False 4 (unat v) @ '':'' @ fmt_hex False 4 (unat p) @ '':'' @ serial) =
    Some (UsbHid v p (Some serial) None)"
  using assms by (simp add: usb_identifier_def split_once_append u16_from_hex_fmt)

lemma usb_fingerprint_roundtrip:
  assumes "identifier_fingerprint (UsbHid v p (Some serial) path) driver = Some fp"
    and "info_driver_id info = driver" "is_slug driver"
    and "trim serial = serial" "serial \<noteq> []" "serial \<noteq> ''unknown''"
  shows "identifier_for_device sid info (Some fp) = UsbHid v p (Some serial) None"
proof -
  have "as_str fp = ''usb:'' @ layout_owner_id info @ '':'' @
      fmt_hex False 4 (unat v) @ '':'' @ fmt_hex False 4 (unat p) @ '':'' @ serial"
    using minted_owner [OF assms(1) [simplified] assms(2,3)] by simp
  then show ?thesis
    using usb_identifier_roundtrip [OF assms(4-6), of v p]
    by (simp add: identifier_for_device_def Let_def)
qed

lemma smbus_fingerprint_roundtrip:
  assumes "identifier_fingerprint (SmBus bus_path address) driver = Some fp"
    and "info_driver_id info = driver" "is_slug driver"
  shows "identifier_for_device sid info (Some fp) = SmBus bus_path address"
proof -
  have "as_str fp = ''smbus:'' @ layout_owner_id info @ '':'' @
      bus_path @ '':'' @ fmt_hex False 2 (unat address)"
    using minted_owner [OF assms(1) [simplified] assms(2,3)] by simp
  then show ?thesis
    by (simp add: identifier_for_device_def smbus_identifier_def Let_def
        rsplit_once_append u16_from_hex_fmt)
qed


lemma net_fingerprint_recovery:
  assumes "mint NetNs driver (to_ascii_lowercase mac) = Some fp" "info_driver_id info = driver" "is_slug driver"
  shows "identifier_for_device sid info (Some fp) =
    Network (driver @ '':'' @ to_ascii_lowercase mac) None (Some (to_ascii_lowercase mac))"
proof -
  have o: "layout_owner_id info = driver"
    using assms(2,3) slug_driver [OF assms(3)] sanitize_slug_id [OF assms(3)]
    by (auto simp: layout_owner_id_def is_slug_def)
  have "as_str fp = ''net:'' @ driver @ '':'' @ to_ascii_lowercase mac"
    using minted_owner [OF assms] o by simp
  then show ?thesis using strip_prefix_append [of "driver @ '':''" "to_ascii_lowercase mac"]
    by (simp add: identifier_for_device_def o Let_def)
qed

lemma bridge_fingerprint_recovery:
  assumes "mint BridgeNs driver (service @ '':'' @ serial) = Some fp" "info_driver_id info = driver" "is_slug driver"
  shows "identifier_for_device sid info (Some fp) = Bridge driver (service @ '':'' @ serial)"
proof -
  have o: "layout_owner_id info = driver"
    using assms(2,3) slug_driver [OF assms(3)] sanitize_slug_id [OF assms(3)]
    by (auto simp: layout_owner_id_def is_slug_def)
  have "as_str fp = ''bridge:'' @ driver @ '':'' @ service @ '':'' @ serial"
    using minted_owner [OF assms] o by simp
  moreover have "CHR '':'' \<notin> set driver"
    using assms(1) slug_driver [OF assms(3)] by (simp add: mint_Some_iff)
  ultimately show ?thesis
    by (simp add: identifier_for_device_def split_once_append Let_def)
qed

section \<open>Properties\<close>

definition demo_sid :: "device_id \<Rightarrow> string" where
  "demo_sid i = ''id''"

definition demo_info :: "unit device_info" where
  "demo_info =
     \<lparr>info_id = 7, info_name = ''Desk Strip'', vendor = ''WLED'',
      family = \<lparr>family_id = ''wled'', family_name = ''WLED''\<rparr>, model = None, conn_type = CtNetwork,
      origin = \<lparr>driver_id = ''wled'', backend_id = ''wled'', transport = TkNetwork, protocol_id = None\<rparr>,
      segments = [], firmware_version = None, capabilities = default_capabilities\<rparr>"

lemma demo_names:
  "layout_device_id_with_fingerprint demo_info None = ''wled:desk-strip''"
  "to_ascii_lowercase (output_backend_id demo_info) = ''wled''"
  by code_simp+

lemma discovered_entry_names:
  "layout_id (discovered_entry sid L i info fp b clk) = layout_device_id_with_fingerprint info fp"
  "managed_backend (discovered_entry sid L i info fp b clk) = to_ascii_lowercase (output_backend_id info)"
  by (simp_all add: discovered_entry_def Let_def split: option.split)

lemmas lc_eval = lc_op_defs sm_op_defs with_reconnect_policy_def default_lifecycle_def in_flight_def
  discovered_entry_machine connect_action_def disconnect_action_def schedule_def unschedule_def
  clear_in_flight_def mark_connect_in_flight_def put_machine_def put_device_def should_auto_connect_def
  with_policy_def Let_def cancel_if_def set_state_def

text \<open>C4: For every sequence of lifecycle events from a new manager, the executor's set of
  reconnect timers, computed from the emitted Spawn and Cancel actions alone, is exactly the
  manager's scheduled set; a scheduled device is Reconnecting, and a device with a connect in
  flight is Known or Reconnecting.\<close>

theorem lifecycle_timers_refine:
  assumes "lc_run sid (with_reconnect_policy policy handles) es = Some (L, acts)"
  shows "reconnect_scheduled L = foldl apply_timer {||} acts \<and>
    (\<forall>i. i |\<in>| reconnect_scheduled L \<longrightarrow> lc_state L i = Some Reconnecting) \<and>
    (\<forall>i. in_flight L i \<longrightarrow> lc_state L i = Some Known \<or> lc_state L i = Some Reconnecting)"
proof -
  have inv: "lc_inv L" by (rule lc_run_inv [OF lc_inv_start assms])
  have "reconnect_scheduled L = foldl apply_timer {||} acts"
    using lc_run_timers [OF lc_inv_start assms] by (simp add: with_reconnect_policy_def)
  then show ?thesis using inv cell_ok_states unfolding lc_inv_def by blast
qed

theorem lifecycle_timers_refine_witness:
  "\<exists>L acts. lc_run demo_sid (with_reconnect_policy default_policy 1)
       [(LcDiscovered 7 demo_info None AutoConnect, 1), (LcConnectFailed 7, 2)] = Some (L, acts) \<and>
     reconnect_scheduled L = {|7|} \<and> foldl apply_timer {||} acts = {|7|}"
proof -
  let ?L0 = "with_reconnect_policy default_policy 1"
  let ?es = "[(LcDiscovered 7 demo_info None AutoConnect, 1), (LcConnectFailed 7, 2)]"
  obtain L acts where r: "lc_run demo_sid ?L0 ?es = Some (L, acts)" "reconnect_scheduled L = {|7|}"
    by (simp add: lc_eval)
  show ?thesis using lifecycle_timers_refine [OF r(1)] r by auto
qed

text \<open>C5: Every action a handler emits means what it says. A Connect names the handled
  device, leaves it in flight from this instant with the recorded backend and layout id, in
  state Known or Reconnecting. No second connect is issued while one is in flight, with one
  exception: the retry of a connect that has been in flight for at least the configured stale time,
  for a device that is still Known and connects automatically. A Disconnect marks a device that stops being renderable and has nothing in flight,
  and every device that stops being renderable gets one. An Unmap leaves the device not
  renderable; a Spawn carries the pending retry delay; a Cancel had a schedule to cancel. No
  other device is touched.\<close>

theorem lifecycle_action_meaning:
  assumes "lc_run sid (with_reconnect_policy policy handles) es = Some (L, before)"
    and "lc_exec sid L e clk = Some (L', acts)"
  shows "list_all (action_ok L L' (event_device e) clk) acts \<and>
    (lc_renderable L (event_device e) \<and> \<not> lc_renderable L' (event_device e) \<longrightarrow>
      (\<exists>b. Disconnect (event_device e) b \<in> set acts)) \<and>
    (\<forall>j b l. Connect j b l \<in> set acts \<longrightarrow>
      (case connect_in_flight_since L j of
         None \<Rightarrow> True
       | Some started \<Rightarrow> e = LcRetryStale j \<and> in_flight_stale_after L \<le> saturating_duration_since clk started \<and>
           (\<exists>d. fmlookup (lc_devices L) j = Some d \<and> sm_state (state_machine d) = Known \<and>
              should_auto_connect (behavior d)))) \<and>
    (\<forall>j. j \<noteq> event_device e \<longrightarrow> fmlookup (lc_devices L') j = fmlookup (lc_devices L) j)"
proof -
  have "lc_inv L" by (rule lc_run_inv [OF lc_inv_start assms(1)])
  then have "step_ok L (event_device e) clk (reconnect_trigger e \<and> \<not> lc_renderable L (event_device e)) (L', acts)"
    using lc_exec_step_ok [OF assms(2)] by (simp add: lc_inv_def)
  then show ?thesis
    using lc_exec_connect_fresh [OF assms(2)] lc_exec_frame [OF assms(2)]
    by (auto simp: step_ok_def list_ex_iff)
qed

theorem lifecycle_action_meaning_witness:
  "\<exists>L before L'. lc_run demo_sid (with_reconnect_policy default_policy 1)
       [(LcDiscovered 7 demo_info None AutoConnect, 1), (LcConnected 7, 2)] = Some (L, before) \<and>
     lc_exec demo_sid L (LcVanished 7 :: unit lc_event) 3 =
       Some (L', [Disconnect 7 ''wled'', Unmap ''wled:desk-strip'']) \<and>
     list_all (action_ok L L' 7 3) [Disconnect 7 ''wled'', Unmap ''wled:desk-strip'']"
proof -
  let ?es = "[(LcDiscovered 7 demo_info None AutoConnect, 1), (LcConnected 7, 2)]"
  let ?e = "LcVanished 7 :: unit lc_event"
  obtain L before d where r: "lc_run demo_sid (with_reconnect_policy default_policy 1) ?es = Some (L, before)"
    and d: "fmlookup (lc_devices L) 7 = Some d" "sm_state (state_machine d) = Connected"
      "managed_backend d = ''wled''" "layout_id d = ''wled:desk-strip''" "reconnect_scheduled L = {||}"
    by (simp add: lc_eval new_handle_def discovered_entry_names demo_names)
  obtain L' where e: "lc_exec demo_sid L ?e 3 = Some (L', [Disconnect 7 ''wled'', Unmap ''wled:desk-strip''])"
    using d by (simp add: lc_on_device_vanished_def is_renderable_def disconnect_action_def Let_def)
  show ?thesis using lifecycle_action_meaning [OF r e] r e by auto
qed

text \<open>C6: A device waiting to reconnect is never forgotten: if every Reconnecting device has
  a scheduled timer or a connect in flight, so it is after every event, except for a
  communication error or reconnect request reported for a device that is not renderable.\<close>

theorem reconnecting_stays_live:
  assumes "lc_run sid (with_reconnect_policy policy handles) es = Some (L, before)"
    and "lc_exec sid L e clk = Some (L', acts)" "\<forall>i. live_at L i"
    and "\<not> reconnect_trigger e \<or> lc_renderable L (event_device e)"
  shows "\<forall>i. live_at L' i"
proof
  fix i
  have "lc_inv L" by (rule lc_run_inv [OF lc_inv_start assms(1)])
  then have ok: "step_ok L (event_device e) clk False (L', acts)"
    using lc_exec_step_ok [OF assms(2)] assms(4) by (auto simp: lc_inv_def)
  show "live_at L' i"
    using ok assms(3) lc_exec_frame [OF assms(2)]
    by (cases "i = event_device e") (auto simp: step_ok_def live_at_def lc_state_def in_flight_def)
qed

theorem reconnecting_stays_live_witness:
  "\<exists>L before L' acts. lc_run demo_sid (with_reconnect_policy default_policy 1)
       [(LcDiscovered 7 demo_info None AutoConnect, 1)] = Some (L, before) \<and>
     lc_exec demo_sid L (LcConnectFailed 7 :: unit lc_event) 2 = Some (L', acts) \<and>
     lc_state L' 7 = Some Reconnecting \<and> live_at L' 7"
proof -
  let ?es = "[(LcDiscovered 7 demo_info None AutoConnect, 1)]"
  let ?e = "LcConnectFailed 7 :: unit lc_event"
  obtain L before where r: "lc_run demo_sid (with_reconnect_policy default_policy 1) ?es = Some (L, before)"
    and L: "\<forall>i. lc_state L i \<noteq> Some Reconnecting" "lc_state L 7 = Some Known"
    by (simp add: lc_eval lc_state_def)
  obtain L' acts where e: "lc_exec demo_sid L ?e 2 = Some (L', acts)" "lc_state L' 7 = Some Reconnecting"
    using L(2) by (auto simp: lc_on_connect_failed_def lc_state_def on_connect_failed_def Let_def)
  have "\<forall>i. live_at L' i"
    using reconnecting_stays_live [OF r e(1)] L(1) by (simp add: live_at_def)
  then show ?thesis using r e by blast
qed

text \<open>A device that waits to reconnect with nothing left that would make it.\<close>

definition orphaned :: "lifecycle \<Rightarrow> device_id \<Rightarrow> bool" where
  "orphaned L i \<longleftrightarrow> lc_state L i = Some Reconnecting \<and> i |\<notin>| reconnect_scheduled L \<and> \<not> in_flight L i"

text \<open>
  The events that can move a Reconnecting device: it is discovered, lost, disabled or deactivated, a
  connect reports back, or a timer fires.
\<close>

fun moves_waiting :: "'p lc_event \<Rightarrow> bool" where
  "moves_waiting (LcRebind _ _) = False"
| "moves_waiting (LcRetryStale _) = False"
| "moves_waiting (LcFrameSuccess _) = False"
| "moves_waiting (LcCommError _ _) = False"
| "moves_waiting (LcReconnectRequested _) = False"
| "moves_waiting (LcTakeEscalation _) = False"
| "moves_waiting (LcUserEnable _) = False"
| "moves_waiting _ = True"

fun restarts :: "device_id \<Rightarrow> lifecycle_action \<Rightarrow> bool" where
  "restarts i (Connect j _ _) \<longleftrightarrow> j = i"
| "restarts i (SpawnReconnect j _) \<longleftrightarrow> j = i"
| "restarts i _ \<longleftrightarrow> False"

lemma restarts_own_device:
  assumes "lc_exec sid L e clk = Some (L', acts)" "a \<in> set acts" "restarts j a"
  shows "j = event_device e"
  using assms
  by (cases e; cases a) (auto simp: lc_op_defs Let_def connect_action_def disconnect_action_def cancel_if_def
      new_handle_def split: lc_splits)

lemma rejected_trigger_orphans:
  assumes "lc_state L i = Some Reconnecting" "i |\<notin>| reconnect_scheduled L" "reconnect_trigger e" "event_device e = i"
  shows "\<exists>L'. lc_exec sid L e clk = Some (L', []) \<and> orphaned L' i"
  using assms
  by (cases e) (auto simp: lc_op_defs Let_def lc_state_def orphaned_def in_flight_def on_comm_error_at_def
      on_reconnect_requested_at_def)

lemma orphaned_step:
  assumes "lc_exec sid L e clk = Some (L', acts)" "orphaned L i" "event_device e = i \<longrightarrow> \<not> moves_waiting e"
  shows "orphaned L' i \<and> list_all (\<lambda>a. \<not> restarts i a) acts"
proof (cases "event_device e = i")
  case True
  obtain d where d: "fmlookup (lc_devices L) i = Some d" "sm_state (state_machine d) = Reconnecting"
    using assms(2) by (auto simp: orphaned_def lc_state_def)
  show ?thesis
    using assms True d
    by (cases e) (auto simp: lc_op_defs Let_def lc_state_def orphaned_def in_flight_def on_comm_error_at_def
        on_reconnect_requested_at_def on_frame_success_def on_user_enable_def take_flap_escalation_def split: if_splits)
next
  case False
  then show ?thesis
    using assms(2) lc_exec_frame [OF assms(1), of i] restarts_own_device [OF assms(1), of _ i]
    by (auto simp: orphaned_def lc_state_def in_flight_def list_all_iff)
qed

lemma orphaned_run:
  assumes "lc_run sid L es = Some (L', acts)" "orphaned L i"
    and "list_all (\<lambda>(e, clk). event_device e = i \<longrightarrow> \<not> moves_waiting e) es"
  shows "orphaned L' i \<and> list_all (\<lambda>a. \<not> restarts i a) acts"
  using assms
proof (induction es arbitrary: L acts)
  case (Cons ec es)
  obtain e clk where ec: "ec = (e, clk)" by (cases ec)
  from Cons.prems(1) obtain L1 a1 a2 where step: "lc_exec sid L e clk = Some (L1, a1)"
    "lc_run sid L1 es = Some (L', a2)" "acts = a1 @ a2"
    by (auto simp: ec split: option.splits)
  from orphaned_step [OF step(1) Cons.prems(2)] Cons.prems(3) have
    "orphaned L1 i \<and> list_all (\<lambda>a. \<not> restarts i a) a1" by (simp add: ec)
  with Cons.IH [OF step(2)] Cons.prems(3) step(3) show ?case by simp
qed simp

text \<open>C7: The exception of the previous property is real, in every state. When a device is
  Reconnecting and its connect is already under way, so that no timer is left, a communication error
  or a reconnect request is rejected, emits nothing and yet clears the connect in flight: the device
  stays Reconnecting with no timer and no connect. It stays so, and neither a connect nor a timer is
  ever issued for it, through every further sequence of events until a scan finds it again or loses
  it, the user disables or the runtime deactivates it, the connect that was written off reports
  back, or a timer fires, of which none is left.\<close>

theorem rejected_comm_error_orphans:
  assumes "lc_state L i = Some Reconnecting" "i |\<notin>| reconnect_scheduled L"
    and "reconnect_trigger e" "event_device e = i"
    and "list_all (\<lambda>(e', clk'). event_device e' = i \<longrightarrow> \<not> moves_waiting e') es"
  shows "\<exists>L1. lc_exec sid L e clk = Some (L1, []) \<and> orphaned L1 i \<and>
    (\<forall>L' acts. lc_run sid L1 es = Some (L', acts) \<longrightarrow>
       orphaned L' i \<and> list_all (\<lambda>a. \<not> restarts i a) acts)"
  using rejected_trigger_orphans [OF assms(1-4)] orphaned_run [OF _ _ assms(5)] by blast

text \<open>
  The state is reached by a device whose connect failed and which a scan then found again: the scan
  cancels the timer and puts a new connect in flight.
\<close>

theorem rejected_comm_error_orphans_witness:
  "\<exists>L acts L1. lc_run demo_sid (with_reconnect_policy default_policy 1)
       [(LcDiscovered 7 demo_info None AutoConnect, 1), (LcConnectFailed 7, 2),
        (LcDiscovered 7 demo_info None AutoConnect, 3)] = Some (L, acts) \<and>
     in_flight L 7 \<and> lc_exec demo_sid L (LcCommError 7 4 :: unit lc_event) 4 = Some (L1, []) \<and> orphaned L1 7"
proof -
  let ?es = "[(LcDiscovered 7 demo_info None AutoConnect, 1), (LcConnectFailed 7, 2),
    (LcDiscovered 7 demo_info None AutoConnect, 3)]"
  obtain L acts where L: "lc_run demo_sid (with_reconnect_policy default_policy 1) ?es = Some (L, acts)"
    "in_flight L 7" "lc_state L 7 = Some Reconnecting" "7 |\<notin>| reconnect_scheduled L"
    by (simp add: lc_eval lc_state_def)
  from rejected_comm_error_orphans [OF L(3,4), of "LcCommError 7 4 :: unit lc_event" "[]" demo_sid 4] L(1,2)
  show ?thesis by auto
qed

text \<open>\<open>sanitize_component\<close> always yields a layout id component: non-empty, only lower-case
  letters, digits, colon, underscore and dash, with no dash at either end and no two dashes
  in a row; and it leaves such a component unchanged.\<close>

theorem sanitize_component_projects:
  "is_slug (sanitize_component s) \<and> sanitize_component (sanitize_component s) = sanitize_component s"
  by (simp add: is_slug_sanitize sanitize_slug_id)

text \<open>The identifier a fingerprint of \<open>ident\<close> is read back as.\<close>

fun recovered_identifier :: "string \<Rightarrow> device_identifier \<Rightarrow> device_identifier" where
  "recovered_identifier driver (UsbHid v p serial path) = UsbHid v p serial None"
| "recovered_identifier driver (SmBus bus_path address) = SmBus bus_path address"
| "recovered_identifier driver (Network mac ip host) =
     Network (driver @ '':'' @ to_ascii_lowercase mac) None (Some (to_ascii_lowercase mac))"
| "recovered_identifier driver (Bridge service serial) = Bridge driver (service @ '':'' @ serial)"

fun has_identity_key :: "device_identifier \<Rightarrow> bool" where
  "has_identity_key (UsbHid v p serial path) \<longleftrightarrow>
     (case serial of None \<Rightarrow> False | Some s \<Rightarrow> trim s = s \<and> s \<noteq> [] \<and> s \<noteq> ''unknown'')"
| "has_identity_key _ \<longleftrightarrow> True"

text \<open>What the manager reads back from a fingerprint minted by the owning driver. USB
  identifiers with a serial and SMBus identifiers come back as they were (the USB path, which
  is not part of the fingerprint, is dropped). Network and bridge identifiers do not: the
  driver's name stays in front of the MAC address, and takes the place of the bridge service.\<close>

theorem identifier_fingerprint_recovery:
  assumes "identifier_fingerprint ident driver = Some fp" "has_identity_key ident"
    and "info_driver_id info = driver" "is_slug driver"
  shows "identifier_for_device sid info (Some fp) = recovered_identifier driver ident"
proof (cases ident)
  case (UsbHid v p serial path)
  then show ?thesis using assms usb_fingerprint_roundtrip [OF _ assms(3,4)]
    by (auto split: option.splits simp del: identifier_fingerprint.simps)
next
  case (SmBus bus_path address)
  then show ?thesis using assms smbus_fingerprint_roundtrip [OF _ assms(3,4)] by simp
next
  case (Network mac ip host)
  then show ?thesis using assms by (simp add: net_fingerprint_recovery)
next
  case (Bridge service serial)
  then show ?thesis using assms by (simp add: bridge_fingerprint_recovery)
qed

theorem identifier_fingerprint_recovery_witness:
  "\<exists>fp. identifier_fingerprint (SmBus ''/dev/i2c-9'' 0x58) ''wled'' = Some fp \<and>
     identifier_for_device demo_sid demo_info (Some fp) = SmBus ''/dev/i2c-9'' 0x58"
proof -
  have d: "is_slug ''wled''" "info_driver_id demo_info = ''wled''"
    by (simp_all add: is_slug_def slug_char_def is_ascii_lowercase_def byte_of_def demo_info_def info_driver_id_def)
  obtain fp where fp: "identifier_fingerprint (SmBus ''/dev/i2c-9'' 0x58) ''wled'' = Some fp"
    using slug_driver [OF d(1)] by (simp add: mint_def)
  from identifier_fingerprint_recovery [OF fp _ d(2) d(1)] fp show ?thesis by auto
qed

end
