(* ===== verification/Fps.thy ===== *)
theory Fps
  imports Ieee
begin

text \<open>
  The adaptive frame-rate controller of \<^verbatim>\<open>hypercolor-core/src/engine/fps.rs\<close>. Counters are
  machine words and wrap as in a release build; the smoothed frame time is a binary64 value.
  \<open>record_frame\<close> converts it back to a \<^verbatim>\<open>Duration\<close>, which panics (\<open>None\<close>) on a negative,
  infinite or NaN value.
\<close>

section \<open>Tiers\<close>

datatype fps_tier = Minimal | Low | Medium | High | Full

fun tier_rank :: "fps_tier \<Rightarrow> nat" where
  "tier_rank Minimal = 0"
| "tier_rank Low = 1"
| "tier_rank Medium = 2"
| "tier_rank High = 3"
| "tier_rank Full = 4"

lemma tier_rank_inject: "tier_rank a = tier_rank b \<longleftrightarrow> a = b"
  by (cases a; cases b) simp_all

instantiation fps_tier :: linorder
begin

definition less_eq_fps_tier :: "fps_tier \<Rightarrow> fps_tier \<Rightarrow> bool" where
  "less_eq_fps_tier a b \<longleftrightarrow> tier_rank a \<le> tier_rank b"

definition less_fps_tier :: "fps_tier \<Rightarrow> fps_tier \<Rightarrow> bool" where
  "less_fps_tier a b \<longleftrightarrow> tier_rank a < tier_rank b"

instance
  by standard (auto simp: less_eq_fps_tier_def less_fps_tier_def tier_rank_inject)

end

lemmas tier_order = less_eq_fps_tier_def less_fps_tier_def

fun tier_fps :: "fps_tier \<Rightarrow> u32" where
  "tier_fps Minimal = 10"
| "tier_fps Low = 20"
| "tier_fps Medium = 30"
| "tier_fps High = 45"
| "tier_fps Full = 60"

fun frame_interval :: "fps_tier \<Rightarrow> duration" where
  "frame_interval Minimal = 100000000"
| "frame_interval Low = 50000000"
| "frame_interval Medium = 33333333"
| "frame_interval High = 22222222"
| "frame_interval Full = 16666666"

fun tier_upshift :: "fps_tier \<Rightarrow> fps_tier option" where
  "tier_upshift Minimal = Some Low"
| "tier_upshift Low = Some Medium"
| "tier_upshift Medium = Some High"
| "tier_upshift High = Some Full"
| "tier_upshift Full = None"

fun tier_downshift :: "fps_tier \<Rightarrow> fps_tier option" where
  "tier_downshift Minimal = None"
| "tier_downshift Low = Some Minimal"
| "tier_downshift Medium = Some Low"
| "tier_downshift High = Some Medium"
| "tier_downshift Full = Some High"

definition all_tiers :: "fps_tier list" where
  "all_tiers = [Minimal, Low, Medium, High, Full]"

definition abs_diff :: "u32 \<Rightarrow> u32 \<Rightarrow> u32" where
  "abs_diff a b = (if a < b then b - a else a - b)"

definition from_fps :: "u32 \<Rightarrow> fps_tier" where
  "from_fps target =
     fst (foldl (\<lambda>(best, best_dist) t.
            let dist = abs_diff (tier_fps t) target
            in if dist \<le> best_dist then (t, dist) else (best, best_dist))
          (Minimal, - 1) all_tiers)"

section \<open>The controller\<close>

record tier_config =
  downshift_miss_threshold :: u32
  upshift_sustain_secs :: f64
  upshift_headroom_ratio :: f64
  ewma_alpha :: f64

definition default_config :: tier_config where
  "default_config =
     \<lparr>downshift_miss_threshold = 2, upshift_sustain_secs = Fin 5,
      upshift_headroom_ratio = f64_of_rat (7 / 10), ewma_alpha = f64_of_rat (1 / 20)\<rparr>"

record frame_stats =
  frame_time :: duration
  headroom :: duration
  budget_exceeded :: bool
  stat_ewma :: duration
  stat_tier :: fps_tier
  stat_misses :: u32
  stat_frames :: u64

record fps_controller =
  tier :: fps_tier
  max_tier :: fps_tier
  config :: tier_config
  frame_start :: "instant option"
  consecutive_misses :: u32
  ewma_frame_time :: f64
  frames_since_tier_change :: u64
  upshift_eligible_since :: "instant option"
  total_frames :: u64

definition with_config :: "fps_tier \<Rightarrow> tier_config \<Rightarrow> fps_controller" where
  "with_config t cfg =
     \<lparr>tier = t, max_tier = Full, config = cfg, frame_start = None, consecutive_misses = 0,
      ewma_frame_time = f64_mul (as_secs_f64 (frame_interval t)) (Fin (1 / 2)),
      frames_since_tier_change = 0, upshift_eligible_since = None, total_frames = 0\<rparr>"

definition new_controller :: "fps_tier \<Rightarrow> fps_controller" where
  "new_controller t = with_config t default_config"

definition set_max_tier :: "fps_controller \<Rightarrow> fps_tier \<Rightarrow> fps_controller" where
  "set_max_tier c m =
     (let c = c\<lparr>max_tier := m\<rparr>;
          c = (if m < tier c then c\<lparr>tier := m\<rparr> else c)
      in c\<lparr>upshift_eligible_since := None\<rparr>)"

definition begin_frame :: "fps_controller \<Rightarrow> instant \<Rightarrow> fps_controller" where
  "begin_frame c clk = c\<lparr>frame_start := Some clk\<rparr>"

definition abandon_frame :: "fps_controller \<Rightarrow> fps_controller" where
  "abandon_frame c = c\<lparr>frame_start := None\<rparr>"

definition record_frame :: "fps_controller \<Rightarrow> duration \<Rightarrow> (fps_controller \<times> frame_stats) option" where
  "record_frame c ft =
     (let budget = frame_interval (tier c);
          alpha = ewma_alpha (config c);
          e = f64_add (f64_mul (f64_sub (Fin 1) alpha) (ewma_frame_time c))
                      (f64_mul alpha (as_secs_f64 ft));
          exceeded = (budget < ft);
          c = c\<lparr>ewma_frame_time := e,
               frames_since_tier_change := frames_since_tier_change c + 1,
               total_frames := total_frames c + 1\<rparr>;
          c = (if exceeded
               then c\<lparr>consecutive_misses := consecutive_misses c + 1, upshift_eligible_since := None\<rparr>
               else c\<lparr>consecutive_misses := 0\<rparr>)
      in case from_secs_f64 (ewma_frame_time c) of
           None \<Rightarrow> None
         | Some smoothed \<Rightarrow> Some (c,
             \<lparr>frame_time = ft, headroom = (if exceeded then 0 else budget - ft),
              budget_exceeded = exceeded, stat_ewma = smoothed, stat_tier = tier c,
              stat_misses = consecutive_misses c, stat_frames = frames_since_tier_change c\<rparr>))"

text \<open>The inner option is the method's result; the outer one its possible panic.\<close>

definition end_frame :: "fps_controller \<Rightarrow> instant \<Rightarrow> (fps_controller \<times> frame_stats option) option" where
  "end_frame c clk =
     (case frame_start c of
        None \<Rightarrow> Some (c, None)
      | Some start \<Rightarrow>
          map_option (\<lambda>(c, s). (c, Some s))
            (record_frame (c\<lparr>frame_start := None\<rparr>) (saturating_duration_since clk start)))"

definition reset_transition_state :: "fps_controller \<Rightarrow> fps_controller" where
  "reset_transition_state c =
     c\<lparr>consecutive_misses := 0, frames_since_tier_change := 0, upshift_eligible_since := None\<rparr>"

definition should_downshift :: "fps_controller \<Rightarrow> bool" where
  "should_downshift c \<longleftrightarrow>
     downshift_miss_threshold (config c) \<le> consecutive_misses c \<and> tier_downshift (tier c) \<noteq> None"

definition should_upshift :: "fps_controller \<Rightarrow> instant \<Rightarrow> fps_controller \<times> bool" where
  "should_upshift c now =
     (if max_tier c \<le> tier c \<or> tier_upshift (tier c) = None
      then (c\<lparr>upshift_eligible_since := None\<rparr>, False)
      else
        (let budget_secs = as_secs_f64 (frame_interval (tier c))
         in if f64_le budget_secs (Fin 0) then (c, False)
            else if f64_less (upshift_headroom_ratio (config c)) (f64_div (ewma_frame_time c) budget_secs)
            then (c\<lparr>upshift_eligible_since := None\<rparr>, False)
            else (case upshift_eligible_since c of
                    None \<Rightarrow> (c\<lparr>upshift_eligible_since := Some now\<rparr>, False)
                  | Some s \<Rightarrow> (c, f64_le (upshift_sustain_secs (config c))
                                        (as_secs_f64 (saturating_duration_since now s))))))"

definition downshift :: "fps_controller \<Rightarrow> fps_controller \<times> fps_tier option" where
  "downshift c =
     (case tier_downshift (tier c) of
        None \<Rightarrow> (c, None)
      | Some t \<Rightarrow> (reset_transition_state (c\<lparr>tier := t\<rparr>), Some t))"

definition upshift :: "fps_controller \<Rightarrow> fps_controller \<times> fps_tier option" where
  "upshift c =
     (case tier_upshift (tier c) of
        None \<Rightarrow> (c, None)
      | Some t \<Rightarrow> if max_tier c < t then (c, None)
                  else (reset_transition_state (c\<lparr>tier := t\<rparr>), Some t))"

definition maybe_transition :: "fps_controller \<Rightarrow> instant \<Rightarrow> fps_controller \<times> fps_tier option" where
  "maybe_transition c now =
     (if should_downshift c then downshift c
      else (let (c, up) = should_upshift c now in if up then upshift c else (c, None)))"

definition set_tier :: "fps_controller \<Rightarrow> fps_tier \<Rightarrow> fps_controller" where
  "set_tier c t =
     (let clamped = min t (max_tier c)
      in if tier c \<noteq> clamped then reset_transition_state (c\<lparr>tier := clamped\<rparr>) else c)"

definition sleep_duration :: "fps_controller \<Rightarrow> duration \<Rightarrow> duration" where
  "sleep_duration c ft = frame_interval (tier c) - ft"

section \<open>Runs\<close>

datatype fps_event =
    FpsFrame duration
  | FpsBegin instant
  | FpsEnd instant
  | FpsAbandon
  | FpsTransition instant
  | FpsSetTier fps_tier
  | FpsSetMaxTier fps_tier
  | FpsDownshift
  | FpsUpshift

fun fps_exec :: "fps_controller \<Rightarrow> fps_event \<Rightarrow> fps_controller option" where
  "fps_exec c (FpsFrame d) = map_option fst (record_frame c d)"
| "fps_exec c (FpsBegin clk) = Some (begin_frame c clk)"
| "fps_exec c (FpsEnd clk) = map_option fst (end_frame c clk)"
| "fps_exec c FpsAbandon = Some (abandon_frame c)"
| "fps_exec c (FpsTransition now) = Some (fst (maybe_transition c now))"
| "fps_exec c (FpsSetTier t) = Some (set_tier c t)"
| "fps_exec c (FpsSetMaxTier t) = Some (set_max_tier c t)"
| "fps_exec c FpsDownshift = Some (fst (downshift c))"
| "fps_exec c FpsUpshift = Some (fst (upshift c))"

text \<open>A frame that ends over the budget of the current tier.\<close>

fun is_miss :: "fps_controller \<Rightarrow> fps_event \<Rightarrow> bool" where
  "is_miss c (FpsFrame d) \<longleftrightarrow> frame_interval (tier c) < d"
| "is_miss c (FpsEnd clk) \<longleftrightarrow>
     (case frame_start c of None \<Rightarrow> False
      | Some s \<Rightarrow> frame_interval (tier c) < saturating_duration_since clk s)"
| "is_miss c _ \<longleftrightarrow> False"

end
