(* ===== verification/Fps_Props.thy ===== *)
theory Fps_Props
  imports Fps
begin

text \<open>
  What the frame-rate controller promises: the tier stays below its ceiling, budget misses
  bring it down one tier at a time, an upshift follows only sustained headroom, and the
  smoothed frame time stays in a range for which no conversion panics.
\<close>

section \<open>The smoothed frame time\<close>

lemma alpha_f64: "f64_of_rat (1 / 20) = Fin (3602879701896397 / 72057594037927936)"
proof -
  have "rnd (1 / 20) = of_int 7205759403792794 * 2 powi (- 5 - 52)"
    by (rule rnd_eqI) (simp_all add: power_int_def power_divide)
  then show ?thesis using f64_of_rat_Fin [of "1 / 20"]
    by (simp add: order_trans [of _ 1] power_int_def power_divide)
qed

lemma one_minus_alpha:
  "f64_sub (Fin 1) (Fin (3602879701896397 / 72057594037927936)) = Fin (4278419646001971 / 4503599627370496)"
proof -
  have "rnd (68454714336031539 / 72057594037927936) = of_int 8556839292003942 * 2 powi (- 1 - 52)"
    by (rule rnd_eqI) (simp_all add: power_int_def power_divide)
  then show ?thesis using f64_of_rat_Fin [of "68454714336031539 / 72057594037927936"]
    by (simp add: f64_sub_def order_trans [of _ 1] power_int_def power_divide)
qed

definition ewma_ok :: "fps_controller \<Rightarrow> bool" where
  "ewma_ok c \<longleftrightarrow> (case ewma_frame_time c of Fin e \<Rightarrow> 0 \<le> e \<and> e \<le> 2 ^ 62 | _ \<Rightarrow> False)"

lemma ewma_step:
  assumes "0 \<le> e" "e \<le> 2 ^ 62" "0 \<le> t" "t \<le> 2 ^ 62"
  shows "\<exists>e'. f64_add (f64_mul (Fin (4278419646001971 / 4503599627370496)) (Fin e))
      (f64_mul (Fin (3602879701896397 / 72057594037927936)) (Fin t)) = Fin e' \<and> 0 \<le> e' \<and> e' \<le> 2 ^ 62"
proof -
  define b :: rat where "b = 4278419646001971 / 4503599627370496"
  define a :: rat where "a = 3602879701896397 / 72057594037927936"
  have "rnd (b * 2 ^ 62) = of_int 8556839292003942 * 2 powi (61 - 52)"
    by (rule rnd_eqI) (simp_all add: b_def power_int_def power_divide)
  then have B: "rnd (b * 2 ^ 62) = b * 2 ^ 62" by (simp add: b_def power_int_def)
  have "rnd (a * 2 ^ 62) = of_int 7205759403792794 * 2 powi (57 - 52)"
    by (rule rnd_eqI) (simp_all add: a_def power_int_def power_divide)
  then have A: "rnd (a * 2 ^ 62) = a * 2 ^ 62" by (simp add: a_def power_int_def)
  have pos: "0 \<le> a" "0 \<le> b" "b * 2 ^ 62 + a * 2 ^ 62 \<le> 2 ^ 62" by (simp_all add: a_def b_def)
  have x: "0 \<le> rnd (b * e)" "rnd (b * e) \<le> b * 2 ^ 62"
    using assms pos rnd_mono [of "b * e" "b * 2 ^ 62"] B by (auto intro!: rnd_nonneg mult_left_mono)
  have y: "0 \<le> rnd (a * t)" "rnd (a * t) \<le> a * 2 ^ 62"
    using assms pos rnd_mono [of "a * t" "a * 2 ^ 62"] A by (auto intro!: rnd_nonneg mult_left_mono)
  have s: "0 \<le> rnd (b * e) + rnd (a * t)" "rnd (b * e) + rnd (a * t) \<le> 2 ^ 62" using x y pos by linarith+
  have big: "(2::rat) ^ 62 \<le> 2 ^ 1023" by (rule power_increasing) simp_all
  have be: "b * e \<le> 2 ^ 62" "a * t \<le> 2 ^ 62" 
    using assms mult_mono [of b 1 e "2 ^ 62"] mult_mono [of a 1 t "2 ^ 62"] by (simp_all add: a_def b_def)
  have "f64_mul (Fin b) (Fin e) = Fin (rnd (b * e))" "f64_mul (Fin a) (Fin t) = Fin (rnd (a * t))"
    "f64_add (Fin (rnd (b * e))) (Fin (rnd (a * t))) = Fin (rnd (rnd (b * e) + rnd (a * t)))"
    using s be pos assms big by (auto intro!: f64_of_rat_Fin simp: abs_le_iff)
  moreover have "rnd (rnd (b * e) + rnd (a * t)) \<le> 2 ^ 62" by (rule rnd_le_pow2) (use s in simp_all)
  ultimately show ?thesis using s by (auto simp: a_def [symmetric] b_def [symmetric])
qed

lemma record_frame_returns:
  assumes "ewma_alpha (config c) = f64_of_rat (1 / 20)" "ewma_ok c" "d < 2 ^ 61 * nanos_per_sec"
  shows "\<exists>c' st. record_frame c d = Some (c', st) \<and> ewma_ok c' \<and> tier c' = tier c \<and> max_tier c' = max_tier c \<and>
    config c' = config c \<and>
    (if frame_interval (tier c) < d
     then consecutive_misses c' = consecutive_misses c + 1 \<and> upshift_eligible_since c' = None
     else consecutive_misses c' = 0 \<and> upshift_eligible_since c' = upshift_eligible_since c)"
proof -
  obtain e where e: "ewma_frame_time c = Fin e" "0 \<le> e" "e \<le> 2 ^ 62"
    using assms(2) by (auto simp: ewma_ok_def split: f64.splits)
  obtain t where t: "as_secs_f64 d = Fin t" "0 \<le> t" "t \<le> 2 ^ 62"
    using as_secs_f64_Fin [of d 61] assms(3) by auto
  obtain e' where e': "f64_add (f64_mul (f64_sub (Fin 1) (ewma_alpha (config c))) (ewma_frame_time c))
      (f64_mul (ewma_alpha (config c)) (as_secs_f64 d)) = Fin e'" "0 \<le> e'" "e' \<le> 2 ^ 62"
    using ewma_step [OF e(2,3) t(2,3)] assms(1) by (auto simp: alpha_f64 one_minus_alpha e(1) t(1))
  have "e' \<le> 2 ^ 63" using e'(3) by simp
  then obtain n where "from_secs_f64 (Fin e') = Some n" using from_secs_f64_Some [OF e'(2)] by blast
  then show ?thesis using e' by (simp add: record_frame_def Let_def ewma_ok_def)
qed

section \<open>Transitions\<close>

definition fps_inv :: "fps_controller \<Rightarrow> bool" where
  "fps_inv c \<longleftrightarrow> tier c \<le> max_tier c"

lemma tier_shift_order: "tier_downshift t = Some s \<Longrightarrow> s < t" "tier_upshift t = Some s \<Longrightarrow> t < s"
  by (cases t; auto simp: tier_order)+

lemmas fps_defs = record_frame_def begin_frame_def end_frame_def abandon_frame_def maybe_transition_def
  set_tier_def set_max_tier_def downshift_def upshift_def should_upshift_def reset_transition_state_def

lemmas fps_splits = option.splits if_splits prod.splits

lemma record_frame_fields:
  assumes "record_frame c d = Some (c', st)"
  shows "tier c' = tier c" "max_tier c' = max_tier c" "config c' = config c"
    "upshift_eligible_since c' = (if frame_interval (tier c) < d then None else upshift_eligible_since c)"
  using assms by (auto simp: record_frame_def Let_def split: option.splits if_splits)

lemma should_upshift_fields:
  assumes "should_upshift c now = (c', up)"
  shows "tier c' = tier c" "max_tier c' = max_tier c" "config c' = config c" "ewma_frame_time c' = ewma_frame_time c"
    "consecutive_misses c' = consecutive_misses c"
  using assms by (auto simp: should_upshift_def Let_def split: option.splits if_splits)

lemma fps_exec_inv: "fps_inv c \<Longrightarrow> fps_exec c e = Some c' \<Longrightarrow> fps_inv c'"
proof (cases e)
  case (FpsTransition now)
  assume "fps_inv c" "fps_exec c e = Some c'"
  then show ?thesis using FpsTransition tier_shift_order should_upshift_fields
    by (fastforce simp: fps_inv_def maybe_transition_def downshift_def upshift_def reset_transition_state_def
        split: option.splits if_splits prod.splits)
next
  case FpsDownshift
  assume "fps_inv c" "fps_exec c e = Some c'"
  then show ?thesis using FpsDownshift tier_shift_order(1) [of "tier c"]
    by (fastforce simp: fps_inv_def downshift_def reset_transition_state_def split: option.splits)
next
  case FpsUpshift
  assume "fps_inv c" "fps_exec c e = Some c'"
  then show ?thesis using FpsUpshift
    by (auto simp: fps_inv_def upshift_def reset_transition_state_def not_less split: option.splits)
qed (auto simp: fps_inv_def end_frame_def begin_frame_def abandon_frame_def set_tier_def set_max_tier_def
    reset_transition_state_def Let_def record_frame_fields split: option.splits dest: record_frame_fields)

interpretation fps: fallible_machine fps_exec fps_inv
  by unfold_locales (rule fps_exec_inv)


section \<open>Sustained headroom\<close>

text \<open>A transition check that finds the smoothed frame time above the headroom ratio.\<close>

fun is_tight :: "fps_controller \<Rightarrow> fps_event \<Rightarrow> bool" where
  "is_tight c (FpsTransition now) \<longleftrightarrow>
     f64_less (upshift_headroom_ratio (config c))
       (f64_div (ewma_frame_time c) (as_secs_f64 (frame_interval (tier c))))"
| "is_tight c _ \<longleftrightarrow> False"

text \<open>A stretch of events at one tier, with no budget miss and no tight check.\<close>

primrec calm :: "fps_controller \<Rightarrow> fps_event list \<Rightarrow> bool" where
  "calm c [] \<longleftrightarrow> True"
| "calm c (e # es) \<longleftrightarrow> \<not> is_miss c e \<and> \<not> is_tight c e \<and>
     (case fps_exec c e of None \<Rightarrow> False | Some c' \<Rightarrow> tier c' = tier c \<and> calm c' es)"

lemma calm_snoc:
  "calm c (es @ [e]) \<longleftrightarrow> calm c es \<and>
     (case run fps_exec c es of None \<Rightarrow> False
      | Some c1 \<Rightarrow> \<not> is_miss c1 e \<and> \<not> is_tight c1 e \<and>
          (case fps_exec c1 e of None \<Rightarrow> False | Some c2 \<Rightarrow> tier c2 = tier c1))"
  by (induction es arbitrary: c) (auto split: option.splits)

lemma calm_run: "calm c es \<Longrightarrow> run fps_exec c es = Some c' \<Longrightarrow> tier c' = tier c"
  by (induction es arbitrary: c) (auto split: option.splits)

lemma interval_pos: "\<not> f64_le (as_secs_f64 (frame_interval t)) (Fin 0)"
proof -
  let ?q = "of_nat (frame_interval t) / 1000000000 :: rat"
  have d: "frame_interval t mod 1000000000 = frame_interval t" "frame_interval t div 1000000000 = 0"
    and n: "frame_interval t < 2 ^ 53" and q: "1 / 64 \<le> ?q" "?q \<le> 1"
    by (cases t; simp)+
  have "rnd (1 / 64) = of_int (2 ^ 52) * 2 powi (- 6 - 52)"
    by (rule rnd_eqI) (simp_all add: power_int_def power_divide)
  then have r: "rnd (1 / 64) = 1 / 64" by (simp add: power_int_def power_divide)
  have "1 / 64 \<le> rnd ?q" "1 / 64 \<le> rnd (rnd ?q)"
    using rnd_mono [OF q(1)] rnd_mono [of "1 / 64" "rnd ?q"] r by simp_all
  moreover have "rnd ?q \<le> 1" using rnd_le_pow2 [of 0 ?q] q by simp
  ultimately have r2: "1 / 64 \<le> rnd (rnd ?q)" "\<bar>rnd ?q\<bar> \<le> 1" by simp_all
  have big: "(1000000000::rat) \<le> 2 ^ 1023" "(1::rat) \<le> 2 ^ 1023" by simp_all
  have le: "\<bar>of_nat (frame_interval t)\<bar> \<le> (1000000000::rat)" by (cases t) simp_all
  have f: "f64_of_rat (of_nat (frame_interval t)) = Fin (of_nat (frame_interval t))"
    "f64_of_rat ?q = Fin (rnd ?q)" "f64_of_rat (rnd ?q) = Fin (rnd (rnd ?q))"
    using f64_of_rat_Fin [OF order_trans [OF le big(1)]] rnd_of_nat [OF n] r2 q
      f64_of_rat_Fin [OF order_trans [OF r2(2) big(2)]] f64_of_rat_Fin [of ?q] big(2)
    by (simp_all add: abs_le_iff order_trans [OF _ big(2)])
  have "f64_of_rat 0 = Fin 0" using f64_of_rat_Fin [of 0] by simp
  then have "as_secs_f64 (frame_interval t) = Fin (rnd (rnd ?q))"
    unfolding as_secs_f64_def d f by (simp add: f)
  then show ?thesis using r2 by (simp add: f64_le_def)
qed

text \<open>An event that leaves the clock running either started it now, or found it running and
  was calm.\<close>

lemma eligible_step:
  assumes "fps_exec c e = Some c'" "upshift_eligible_since c' = Some s"
  shows "(e = FpsTransition s \<or> upshift_eligible_since c = Some s) \<and>
    tier c' = tier c \<and> \<not> is_miss c e \<and> \<not> is_tight c e"
proof (cases e)
  case (FpsTransition now)
  then show ?thesis using assms interval_pos
    by (auto simp: maybe_transition_def downshift_def upshift_def should_upshift_def should_downshift_def
        reset_transition_state_def Let_def split: option.splits if_splits prod.splits)
next
  case (FpsEnd clk)
  then show ?thesis using assms
    by (cases "frame_start c") (auto simp: end_frame_def split: if_splits dest: record_frame_fields)
next
  case (FpsFrame d)
  then show ?thesis using assms by (auto split: if_splits dest: record_frame_fields)
qed (use assms in \<open>auto simp: begin_frame_def abandon_frame_def set_tier_def set_max_tier_def downshift_def
    upshift_def reset_transition_state_def Let_def split: if_splits option.splits\<close>)

lemma eligible_trace:
  assumes "upshift_eligible_since c0 = None" "run fps_exec c0 es = Some c"
    and "upshift_eligible_since c = Some s"
  shows "\<exists>es1 es2 c1. es = es1 @ FpsTransition s # es2 \<and>
    run fps_exec c0 (es1 @ [FpsTransition s]) = Some c1 \<and> calm c1 es2 \<and>
    run fps_exec c1 es2 = Some c"
  using assms(2,3)
proof (induction es arbitrary: c rule: rev_induct)
  case Nil
  then show ?case using assms(1) by simp
next
  case (snoc e es)
  from snoc.prems(1) obtain c1 where c1: "run fps_exec c0 es = Some c1" "fps_exec c1 e = Some c"
    by (auto simp: run_append split: option.splits)
  note step = eligible_step [OF c1(2) snoc.prems(2)]
  show ?case
  proof (cases "upshift_eligible_since c1 = Some s")
    case True
    from snoc.IH [OF c1(1) True] obtain es1 es2 c2 where IH: "es = es1 @ FpsTransition s # es2"
      "run fps_exec c0 (es1 @ [FpsTransition s]) = Some c2" "calm c2 es2" "run fps_exec c2 es2 = Some c1"
      by blast
    have "calm c2 (es2 @ [e])" "run fps_exec c2 (es2 @ [e]) = Some c"
      using IH step c1(2) by (simp_all add: calm_snoc run_append)
    then show ?thesis using IH(1,2) by (metis append_Cons append_assoc)
  next
    case False
    then have "e = FpsTransition s" using step by blast
    then show ?thesis using snoc.prems(1)
      by (intro exI [of _ es] exI [of _ "[]"] exI [of _ c]) simp
  qed
qed


section \<open>Missed budgets\<close>

text \<open>The render loop: one frame, then one transition check.\<close>

definition render_loop :: "(duration \<times> instant) list \<Rightarrow> fps_event list" where
  "render_loop xs = concat (map (\<lambda>(d, now). [FpsFrame d, FpsTransition now]) xs)"

lemma no_upshift_without_headroom:
  "upshift_eligible_since c = None \<Longrightarrow> snd (should_upshift c now) = False"
  by (auto simp: should_upshift_def Let_def)

lemma miss_below_threshold:
  assumes "ewma_alpha (config c) = f64_of_rat (1 / 20)" "ewma_ok c" "d < 2 ^ 61 * nanos_per_sec"
    and "frame_interval (tier c) < d" "consecutive_misses c + 1 < downshift_miss_threshold (config c)"
  shows "\<exists>c'. run fps_exec c [FpsFrame d, FpsTransition now] = Some c' \<and> ewma_ok c' \<and> tier c' = tier c \<and>
    config c' = config c \<and> consecutive_misses c' = consecutive_misses c + 1"
proof -
  obtain c1 st where r: "record_frame c d = Some (c1, st)" "ewma_ok c1" "tier c1 = tier c" "config c1 = config c"
    "consecutive_misses c1 = consecutive_misses c + 1" "upshift_eligible_since c1 = None"
    using record_frame_returns [OF assms(1-3)] assms(4) by auto
  obtain c2 up where u: "should_upshift c1 now = (c2, up)" by fastforce
  have "\<not> up" using no_upshift_without_headroom [OF r(6), of now] u by simp
  moreover have "\<not> should_downshift c1" using assms(5) r by (auto simp: should_downshift_def dest: leD)
  ultimately show ?thesis using r u should_upshift_fields [OF u]
    by (auto simp: maybe_transition_def ewma_ok_def)
qed

lemma miss_at_threshold:
  assumes "ewma_alpha (config c) = f64_of_rat (1 / 20)" "ewma_ok c" "d < 2 ^ 61 * nanos_per_sec"
    and "frame_interval (tier c) < d" "consecutive_misses c + 1 = downshift_miss_threshold (config c)"
    and "tier_downshift (tier c) = Some t"
  shows "\<exists>c'. run fps_exec c [FpsFrame d, FpsTransition now] = Some c' \<and> tier c' = t \<and>
    consecutive_misses c' = 0 \<and> frames_since_tier_change c' = 0 \<and> upshift_eligible_since c' = None"
proof -
  obtain c1 st where r: "record_frame c d = Some (c1, st)" "tier c1 = tier c" "config c1 = config c"
    "consecutive_misses c1 = consecutive_misses c + 1"
    using record_frame_returns [OF assms(1-3)] assms(4) by auto
  then show ?thesis using assms(5,6)
    by (auto simp: maybe_transition_def should_downshift_def downshift_def reset_transition_state_def)
qed

lemma misses_downshift:
  assumes "ewma_alpha (config c) = f64_of_rat (1 / 20)" "ewma_ok c" "consecutive_misses c = of_nat k"
    and "k + length xs = unat (downshift_miss_threshold (config c))" "xs \<noteq> []"
    and "\<forall>(d, now) \<in> set xs. frame_interval (tier c) < d \<and> d < 2 ^ 61 * nanos_per_sec"
    and "tier_downshift (tier c) = Some t"
  shows "\<exists>c'. run fps_exec c (render_loop xs) = Some c' \<and> tier c' = t \<and>
    consecutive_misses c' = 0 \<and> frames_since_tier_change c' = 0 \<and> upshift_eligible_since c' = None"
  using assms
proof (induction xs arbitrary: c k)
  case (Cons x xs)
  obtain d now where x: "x = (d, now)" by (cases x)
  let ?n = "downshift_miss_threshold (config c)"
  have d: "frame_interval (tier c) < d" "d < 2 ^ 61 * nanos_per_sec" using Cons.prems(6) x by auto
  have bound: "unat ?n < 2 ^ 32" using unsigned_less [of ?n, where ?'a = nat] by simp
  have "consecutive_misses c + 1 = of_nat (Suc k)" using Cons.prems(3) by (simp add: add.commute)
  then have k: "unat (consecutive_misses c + 1) = Suc k"
    using Cons.prems(4) bound by (simp add: unat_of_nat del: of_nat_Suc)
  have loop: "render_loop (x # xs) = [FpsFrame d, FpsTransition now] @ render_loop xs"
    by (simp add: render_loop_def x)
  show ?case
  proof (cases "xs = []")
    case True
    then have "consecutive_misses c + 1 = ?n"
      using k Cons.prems(4) by (simp add: word_unat_eq_iff)
    moreover have "render_loop (x # xs) = [FpsFrame d, FpsTransition now]"
      by (simp add: render_loop_def x True)
    ultimately show ?thesis
      using miss_at_threshold [OF Cons.prems(1,2) d(2,1) _ Cons.prems(7)] by presburger
  next
    case False
    then have "Suc k < unat ?n" using Cons.prems(4) by (cases xs) simp_all
    then have "consecutive_misses c + 1 < ?n" using k by (simp add: word_less_nat_alt)
    from miss_below_threshold [OF Cons.prems(1,2) d(2,1) this, of now] obtain c1 where c1:
      "run fps_exec c [FpsFrame d, FpsTransition now] = Some c1" "ewma_ok c1" "tier c1 = tier c"
      "config c1 = config c" "consecutive_misses c1 = consecutive_misses c + 1" by blast
    have "\<exists>c'. run fps_exec c1 (render_loop xs) = Some c' \<and> tier c' = t \<and>
        consecutive_misses c' = 0 \<and> frames_since_tier_change c' = 0 \<and> upshift_eligible_since c' = None"
      using Cons.IH [of c1 "Suc k"] Cons.prems c1 False by (simp add: add.commute)
    then show ?thesis using c1(1) by (simp only: loop run_append option.case)
  qed
qed simp

section \<open>Nearest tier\<close>

lemma nearest_fold:
  fixes dist :: "fps_tier \<Rightarrow> u32"
  assumes "foldl (\<lambda>(best, best_dist) t. if dist t \<le> best_dist then (t, dist t) else (best, best_dist))
      (b0, - 1) ts = (best, d)" "ts \<noteq> []" "sorted_wrt (<) ts"
  shows "best \<in> set ts \<and> d = dist best \<and>
    (\<forall>t \<in> set ts. d \<le> dist t \<and> (dist t = d \<longrightarrow> t \<le> best))"
  using assms
proof (induction ts arbitrary: best d rule: rev_induct)
  case (snoc t ts)
  let ?f = "\<lambda>(best, best_dist) t. if dist t \<le> best_dist then (t, dist t) else (best, best_dist)"
  obtain b e where p: "foldl ?f (b0, - 1) ts = (b, e)" by fastforce
  have gt: "\<forall>s \<in> set ts. s < t" using snoc.prems(3) by (simp add: sorted_wrt_append)
  show ?case
  proof (cases "ts = []")
    case True
    then show ?thesis using snoc.prems(1) word_order.extremum [of "dist t"] by auto
  next
    case False
    then have IH: "b \<in> set ts \<and> e = dist b \<and> (\<forall>t \<in> set ts. e \<le> dist t \<and> (dist t = e \<longrightarrow> t \<le> b))"
      using snoc.IH [OF p] snoc.prems(3) unfolding sorted_wrt_append by blast
    show ?thesis
      using snoc.prems(1) IH gt p by (cases "dist t \<le> e") (auto intro: order_trans less_imp_le)
  qed
qed simp

lemma from_fps_nearest:
  "abs_diff (tier_fps (from_fps target)) target \<le> abs_diff (tier_fps t) target \<and>
   (abs_diff (tier_fps t) target = abs_diff (tier_fps (from_fps target)) target \<longrightarrow> t \<le> from_fps target)"
proof -
  obtain best d where r: "foldl (\<lambda>(best, best_dist) t. if abs_diff (tier_fps t) target \<le> best_dist
      then (t, abs_diff (tier_fps t) target) else (best, best_dist)) (Minimal, - 1) all_tiers = (best, d)"
    by fastforce
  have "sorted_wrt (<) all_tiers" "all_tiers \<noteq> []" by (simp_all add: all_tiers_def tier_order)
  from nearest_fold [OF r this(2,1)] have "d = abs_diff (tier_fps best) target"
    "\<forall>t \<in> set all_tiers. d \<le> abs_diff (tier_fps t) target \<and> (abs_diff (tier_fps t) target = d \<longrightarrow> t \<le> best)"
    by blast+
  moreover have "from_fps target = best" using r by (simp add: from_fps_def Let_def)
  moreover have "t \<in> set all_tiers" by (cases t) (simp_all add: all_tiers_def)
  ultimately show ?thesis by auto
qed


section \<open>Properties\<close>

text \<open>The tier never exceeds the configured ceiling: after any sequence of frames,
  transition checks and user calls from a fresh controller, every intermediate state
  included.\<close>

theorem fps_tier_below_ceiling:
  assumes "run fps_exec (with_config t cfg) es = Some c"
  shows "tier c \<le> max_tier c \<and>
    (\<exists>c1. run fps_exec (with_config t cfg) (take n es) = Some c1 \<and> tier c1 \<le> max_tier c1)"
proof -
  have "fps_inv (with_config t cfg)" by (cases t) (simp_all add: fps_inv_def with_config_def tier_order)
  from fps.run_Some_inv [OF this assms] fps.run_prefix_Some [OF this assms] show ?thesis
    by (simp add: fps_inv_def)
qed

theorem fps_tier_below_ceiling_witness:
  "\<exists>c. run fps_exec (with_config Full default_config) [FpsSetMaxTier Medium, FpsSetTier High] = Some c \<and>
     tier c \<le> max_tier c \<and> tier c = Medium"
proof -
  let ?es = "[FpsSetMaxTier Medium, FpsSetTier High]"
  obtain c where c: "run fps_exec (with_config Full default_config) ?es = Some c" "tier c = Medium"
    by (simp add: with_config_def set_max_tier_def set_tier_def tier_order min_def Let_def)
  then show ?thesis using fps_tier_below_ceiling [OF c(1)] by blast
qed

text \<open>Under the default smoothing, as many budget misses in a row as the threshold says
  bring the tier down by exactly one, with all transition counters reset, and no frame of
  the stretch makes \<open>record_frame\<close> panic.\<close>

theorem misses_bring_tier_down:
  assumes "ewma_alpha (config c) = ewma_alpha default_config" "ewma_ok c" "consecutive_misses c = 0"
    and "length xs = unat (downshift_miss_threshold (config c))" "xs \<noteq> []"
    and "\<forall>(d, now) \<in> set xs. frame_interval (tier c) < d \<and> d < 2 ^ 61 * nanos_per_sec"
    and "tier_downshift (tier c) = Some t"
  shows "\<exists>c'. run fps_exec c (render_loop xs) = Some c' \<and> tier c' = t \<and>
    consecutive_misses c' = 0 \<and> frames_since_tier_change c' = 0 \<and> upshift_eligible_since c' = None"
  using misses_downshift [of c 0 xs t] assms by (simp add: default_config_def)

lemma new_full_ewma_ok: "ewma_ok (new_controller Full)"
proof -
  obtain s where s: "as_secs_f64 16666666 = Fin s" "0 \<le> s" "s \<le> 2"
    using as_secs_f64_Fin [of 16666666 0] by auto
  have "rnd (s * (1 / 2)) \<le> 2 ^ 0" by (rule rnd_le_pow2) (use s in simp_all)
  moreover have "f64_of_rat (s * (1 / 2)) = Fin (rnd (s * (1 / 2)))"
    using s by (intro f64_of_rat_Fin) (simp add: order_trans [of _ 1])
  ultimately show ?thesis using s
    by (auto simp: ewma_ok_def new_controller_def with_config_def)
qed

theorem misses_bring_tier_down_witness:
  "\<exists>c'. run fps_exec (new_controller Full) (render_loop [(20000000, 1), (30000000, 2)]) = Some c' \<and>
     tier c' = High \<and> consecutive_misses c' = 0"
proof -
  have cfg: "tier (new_controller Full) = Full" "config (new_controller Full) = default_config"
    "consecutive_misses (new_controller Full) = 0" "downshift_miss_threshold default_config = 2"
    by (simp_all add: new_controller_def with_config_def default_config_def)
  show ?thesis
    using misses_bring_tier_down [of "new_controller Full" "[(20000000, 1), (30000000, 2)]" High]
      new_full_ewma_ok cfg by auto
qed

text \<open>C8: An upshift is earned. Whenever \<open>maybe_transition\<close> raises the tier, the events so
  far contain an earlier transition check at some instant at least the sustain time ago,
  and from that check on the tier stayed the same, no frame missed its budget, and every
  check, the last one included, found the smoothed frame time within the headroom ratio.
  The tier rises by one step and stays below the ceiling.\<close>

theorem upshift_needs_sustained_headroom:
  assumes "run fps_exec (with_config t cfg) es = Some c"
    and "maybe_transition c now = (c', Some t')" "tier c < t'"
  shows "\<exists>s es1 es2 c1. es = es1 @ FpsTransition s # es2 \<and>
    f64_le (upshift_sustain_secs (config c)) (as_secs_f64 (saturating_duration_since now s)) \<and>
    run fps_exec (with_config t cfg) (es1 @ [FpsTransition s]) = Some c1 \<and>
    calm c1 es2 \<and> run fps_exec c1 es2 = Some c \<and> \<not> is_tight c (FpsTransition now) \<and>
    tier_upshift (tier c) = Some t' \<and> t' \<le> max_tier c"
proof -
  have nd: "\<not> should_downshift c"
  proof
    assume "should_downshift c"
    then have "tier_downshift (tier c) = Some t'"
      using assms(2) by (auto simp: maybe_transition_def downshift_def split: option.splits)
    then show False using tier_shift_order(1) assms(3) by fastforce
  qed
  then obtain c2 where u: "should_upshift c now = (c2, True)" and up: "upshift c2 = (c', Some t')"
    using assms(2) by (auto simp: maybe_transition_def split: prod.splits if_splits)
  then obtain s where s: "upshift_eligible_since c = Some s"
    "f64_le (upshift_sustain_secs (config c)) (as_secs_f64 (saturating_duration_since now s))"
    "\<not> is_tight c (FpsTransition now)"
    by (auto simp: should_upshift_def Let_def split: if_splits option.splits)
  have "upshift_eligible_since (with_config t cfg) = None" by (simp add: with_config_def)
  moreover have "tier_upshift (tier c) = Some t' \<and> t' \<le> max_tier c"
    using up should_upshift_fields [OF u] by (auto simp: upshift_def split: option.splits if_splits)
  ultimately show ?thesis
    using eligible_trace [OF _ assms(1) s(1)] s(2,3) by blast
qed

lemma low_budget: "as_secs_f64 50000000 = Fin (3602879701896397 / 72057594037927936)"
proof -
  have "rnd (3602879701896397 / 72057594037927936) = of_int 7205759403792794 * 2 powi (- 5 - 52)"
    by (rule rnd_eqI) (simp_all add: power_int_def power_divide)
  then have "f64_of_rat (3602879701896397 / 72057594037927936) = Fin (3602879701896397 / 72057594037927936)"
    using f64_of_rat_Fin [of "3602879701896397 / 72057594037927936"]
    by (simp add: order_trans [of _ 1] power_int_def power_divide)
  then show ?thesis using alpha_f64 rnd_of_nat [of 50000000] f64_of_rat_Fin [of 50000000] f64_of_rat_Fin [of 0]
    by (simp add: as_secs_f64_def)
qed

lemma low_start_ewma:
  "f64_mul (as_secs_f64 50000000) (Fin (1 / 2)) = Fin (3602879701896397 / 144115188075855872)"
proof -
  have "rnd (3602879701896397 / 144115188075855872) = of_int 7205759403792794 * 2 powi (- 6 - 52)"
    by (rule rnd_eqI) (simp_all add: power_int_def power_divide)
  then show ?thesis using f64_of_rat_Fin [of "3602879701896397 / 144115188075855872"]
    by (simp add: low_budget order_trans [of _ 1] power_int_def power_divide)
qed

lemma half_f64: "f64_of_rat (1 / 2) = Fin (1 / 2)"
proof -
  have "rnd (1 / 2) = of_int (2 ^ 52) * 2 powi (- 1 - 52)"
    by (rule rnd_eqI) (simp_all add: power_int_def power_divide)
  then show ?thesis using f64_of_rat_Fin [of "1 / 2"] by (simp add: order_trans [of _ 1] power_int_def power_divide)
qed

lemma five_secs: "as_secs_f64 5000000000 = Fin 5"
  using rnd_of_nat [of 5] rnd_of_nat [of 0] by (simp add: as_secs_f64_def f64_of_rat_Fin)

definition eager_config :: tier_config where
  "eager_config = default_config\<lparr>upshift_headroom_ratio := Fin (3 / 4)\<rparr>"

theorem upshift_needs_sustained_headroom_witness:
  "\<exists>c c'. run fps_exec (with_config Low eager_config) [FpsTransition 7] = Some c \<and>
     maybe_transition c 5000000007 = (c', Some Medium) \<and> Medium \<le> max_tier c \<and>
     f64_le (upshift_sustain_secs (config c)) (as_secs_f64 (saturating_duration_since 5000000007 7))"
proof -
  let ?c0 = "with_config Low eager_config"
  have c0: "tier ?c0 = Low" "max_tier ?c0 = Full" "upshift_eligible_since ?c0 = None"
    "consecutive_misses ?c0 = 0" "config ?c0 = eager_config"
    "ewma_frame_time ?c0 = Fin (3602879701896397 / 144115188075855872)"
    by (simp_all add: with_config_def low_start_ewma)
  have cfg: "upshift_headroom_ratio eager_config = Fin (3 / 4)" "upshift_sustain_secs eager_config = Fin 5"
    "downshift_miss_threshold eager_config = 2"
    by (simp_all add: eager_config_def default_config_def)
  define c where "c = ?c0\<lparr>upshift_eligible_since := Some 7\<rparr>"
  have lt: "\<not> Full \<le> Low" "\<not> Full < Medium" "Low < Medium" by (simp_all add: tier_order)
  have c: "run fps_exec ?c0 [FpsTransition 7] = Some c"
    using c0 cfg lt by (simp add: maybe_transition_def should_downshift_def should_upshift_def Let_def
        low_budget f64_le_def half_f64 c_def)
  obtain c' where c': "maybe_transition c 5000000007 = (c', Some Medium)"
    using c0 cfg lt by (simp add: maybe_transition_def should_downshift_def should_upshift_def Let_def
        low_budget f64_le_def half_f64 c_def saturating_duration_since_def five_secs upshift_def)
  have "tier c < Medium" using c0 lt by (simp add: c_def)
  from upshift_needs_sustained_headroom [OF c c' this] obtain s es1 es2 where
    "[FpsTransition 7] = es1 @ FpsTransition s # es2" "Medium \<le> max_tier c"
    "f64_le (upshift_sustain_secs (config c)) (as_secs_f64 (saturating_duration_since 5000000007 s))" by blast
  then show ?thesis using c c' by (cases es1) auto
qed

text \<open>\<open>from_fps\<close> resolves a requested rate to the nearest tier, and to the higher one when
  two are equally near.\<close>

theorem from_fps_is_nearest:
  "abs_diff (tier_fps (from_fps target)) target \<le> abs_diff (tier_fps t) target \<and>
   (abs_diff (tier_fps t) target = abs_diff (tier_fps (from_fps target)) target \<longrightarrow> t \<le> from_fps target)"
  by (rule from_fps_nearest)

theorem from_fps_is_nearest_witness: "Low \<le> from_fps 25 \<and> from_fps 25 = Medium"
proof -
  have "from_fps 25 = Medium" by (simp add: from_fps_def all_tiers_def abs_diff_def)
  then show ?thesis using from_fps_is_nearest [of 25 Low] by (simp add: abs_diff_def)
qed

end
