(* ===== verification/Dmx.thy ===== *)
theory Dmx
  imports Prelude
begin

text \<open>
  DMX512 universe addressing (\<^verbatim>\<open>hypercolor-pixel-protocols/src/dmx.rs\<close>): how a stream of
  channels is laid out over consecutive universes. \<^verbatim>\<open>usize\<close> is \<open>nat\<close>; \<^verbatim>\<open>checked_add\<close> fails at
  \<open>2 ^ 64\<close>. The lazy iterator of \<open>split_into_universes\<close> is the list of its items.
\<close>

definition DMX_UNIVERSE_CHANNELS :: nat where
  "DMX_UNIVERSE_CHANNELS = 512"

definition usize_limit :: nat where
  "usize_limit = 2 ^ 64"

definition checked_add :: "nat \<Rightarrow> nat \<Rightarrow> nat option" where
  "checked_add a b = (if a + b < usize_limit then Some (a + b) else None)"

definition pixel_aligned_universe_channels :: "nat \<Rightarrow> nat" where
  "pixel_aligned_universe_channels channels_per_pixel =
     (if channels_per_pixel = 0 \<or> DMX_UNIVERSE_CHANNELS < channels_per_pixel
      then DMX_UNIVERSE_CHANNELS
      else DMX_UNIVERSE_CHANNELS div channels_per_pixel * channels_per_pixel)"

definition last_universe_offset :: "nat \<Rightarrow> nat \<Rightarrow> nat \<Rightarrow> nat option" where
  "last_universe_offset start_slot channel_count channels_per_universe =
     (if channel_count = 0 \<or> channels_per_universe = 0 then None
      else map_option (\<lambda>last_slot. last_slot div channels_per_universe)
             (checked_add start_slot (channel_count - 1)))"

definition universes_spanned :: "nat \<Rightarrow> nat \<Rightarrow> nat \<Rightarrow> nat" where
  "universes_spanned start_slot channel_count channels_per_universe =
     (case last_universe_offset start_slot channel_count channels_per_universe of
        Some last_offset \<Rightarrow> last_offset - start_slot div channels_per_universe + 1
      | None \<Rightarrow> 0)"

text \<open>\<^verbatim>\<open>source\<close> is the half-open range from \<open>source_start\<close> to \<open>source_end\<close>.\<close>

record universe_run =
  universe_offset :: nat
  first_slot :: nat
  source_start :: nat
  source_end :: nat

function split_from :: "nat \<Rightarrow> nat \<Rightarrow> nat \<Rightarrow> nat \<Rightarrow> universe_run list" where
  "split_from start_slot channel_count per_universe consumed =
     (if channel_count \<le> consumed \<or> per_universe = 0 then []
      else case checked_add start_slot consumed of
             None \<Rightarrow> []
           | Some absolute \<Rightarrow>
               (let first = absolute mod per_universe;
                    n = min (per_universe - first) (channel_count - consumed)
                in \<lparr>universe_offset = absolute div per_universe, first_slot = first,
                    source_start = consumed, source_end = consumed + n\<rparr>
                   # split_from start_slot channel_count per_universe (consumed + n)))"
  by pat_completeness auto
termination
proof (relation "measure (\<lambda>(_, c, _, k). c - k)", goal_cases)
  case (2 start_slot c p k absolute first n)
  then have "absolute mod p < p" by simp
  with 2 show ?case by auto
qed simp

declare split_from.simps [simp del]

definition split_into_universes :: "nat \<Rightarrow> nat \<Rightarrow> nat \<Rightarrow> universe_run list" where
  "split_into_universes start_slot channel_count channels_per_universe =
     split_from start_slot channel_count
       (max 1 (min channels_per_universe DMX_UNIVERSE_CHANNELS)) 0"

section \<open>Facts\<close>

definition run_range :: "universe_run \<Rightarrow> nat list" where
  "run_range r = [source_start r..<source_end r]"

text \<open>A run lies in its universe, and at the position its first channel has in the stream.\<close>

definition run_fits :: "nat \<Rightarrow> nat \<Rightarrow> universe_run \<Rightarrow> bool" where
  "run_fits start_slot p r \<longleftrightarrow>
     source_start r < source_end r \<and> first_slot r + (source_end r - source_start r) \<le> p \<and>
     universe_offset r * p + first_slot r = start_slot + source_start r"

lemma split_from_step:
  assumes "k < c" "0 < p" "start_slot + c \<le> usize_limit"
  shows "split_from start_slot c p k =
    (let first = (start_slot + k) mod p; n = min (p - first) (c - k)
     in \<lparr>universe_offset = (start_slot + k) div p, first_slot = first,
         source_start = k, source_end = k + n\<rparr> # split_from start_slot c p (k + n))"
  using assms by (subst split_from.simps) (simp add: checked_add_def Let_def)

lemma split_from_done: "c \<le> k \<Longrightarrow> split_from start_slot c p k = []"
  by (subst split_from.simps) simp

lemma split_from_partition:
  assumes "0 < p" "start_slot + c \<le> usize_limit" "k \<le> c"
  shows "concat (map run_range (split_from start_slot c p k)) = [k..<c] \<and>
    list_all (run_fits start_slot p) (split_from start_slot c p k)"
  using assms
proof (induction "c - k" arbitrary: k rule: less_induct)
  case less
  show ?case
  proof (cases "k < c")
    case True
    define n where "n = min (p - (start_slot + k) mod p) (c - k)"
    have mod: "(start_slot + k) mod p < p" using less.prems(1) by simp
    then have n: "0 < n" "k + n \<le> c" "(start_slot + k) mod p + n \<le> p"
      using True by (auto simp: n_def)
    have IH: "concat (map run_range (split_from start_slot c p (k + n))) = [k + n..<c]"
      "list_all (run_fits start_slot p) (split_from start_slot c p (k + n))"
      using less.hyps [of "k + n"] less.prems n by auto
    have "[k..<c] = [k..<k + n] @ [k + n..<c]" using n upt_add_eq_append [of k "k + n" "c - (k + n)"] by simp
    then show ?thesis
      using IH n split_from_step [OF True less.prems(1,2)]
      by (simp add: Let_def n_def [symmetric] run_range_def run_fits_def)
  qed (use less.prems in \<open>simp add: split_from_done\<close>)
qed

text \<open>The universe offsets are consecutive.\<close>

lemma split_from_offsets:
  assumes "0 < p" "start_slot + c \<le> usize_limit" "k < c"
  shows "map universe_offset (split_from start_slot c p k) =
    [(start_slot + k) div p..<Suc ((start_slot + c - 1) div p)]"
  using assms
proof (induction "c - k" arbitrary: k rule: less_induct)
  case less
  define a where "a = start_slot + k"
  define n where "n = min (p - a mod p) (c - k)"
  have mod: "a mod p < p" using less.prems(1) by simp
  then have n: "0 < n" "k + n \<le> c" using less.prems by (auto simp: n_def)
  have step: "map universe_offset (split_from start_slot c p k) =
      a div p # map universe_offset (split_from start_slot c p (k + n))"
    using split_from_step [OF less.prems(3,1,2)] by (simp add: Let_def n_def a_def)
  show ?case
  proof (cases "k + n < c")
    case True
    then have full: "n = p - a mod p" by (auto simp: n_def)
    then have "a + n = Suc (a div p) * p"
      using mod by (metis add_diff_inverse_nat add.assoc div_mult_mod_eq less_asym mult_Suc add.commute)
    then have nxt: "(start_slot + (k + n)) div p = Suc (a div p)"
      using less.prems(1) by (simp add: a_def add.assoc)
    have "map universe_offset (split_from start_slot c p (k + n)) =
        [Suc (a div p)..<Suc ((start_slot + c - 1) div p)]"
      using less.hyps [of "k + n"] True n less.prems nxt by simp
    moreover have "Suc (a div p) \<le> (start_slot + c - 1) div p"
      using div_le_mono [of "start_slot + (k + n)" "start_slot + c - 1" p] True nxt by simp
    ultimately show ?thesis using step by (simp add: a_def upt_conv_Cons)
  next
    case False
    then have "k + n = c" using n by simp
    moreover have "(start_slot + c - 1) div p = a div p"
    proof (rule div_nat_eqI)
      have "n \<le> p - a mod p" by (simp add: n_def)
      then have "a mod p + n \<le> p" using mod by simp
      moreover have "start_slot + c - 1 = a + n - 1" using \<open>k + n = c\<close> by (simp add: a_def)
      moreover have "a = p * (a div p) + a mod p" by simp
      ultimately show "p * (a div p) \<le> start_slot + c - 1" "start_slot + c - 1 < p * Suc (a div p)"
        using n(1) by (simp_all only: mult_Suc_right; linarith)+
    qed
    ultimately show ?thesis using step by (simp add: split_from_done a_def)
  qed
qed

section \<open>Properties\<close>

text \<open>C9: Splitting a channel stream over universes loses and repeats nothing: the source
  ranges, in order, are exactly the channels 0 to count - 1; every run is non-empty, lies
  inside one universe of at most 512 channels, and starts at the slot its first channel has
  in the stream; the runs visit consecutive universes, as many as \<open>universes_spanned\<close> says.\<close>

theorem split_into_universes_partitions:
  assumes "0 < p" "p \<le> 512" "start_slot + channel_count \<le> 2 ^ 64"
  shows "concat (map run_range (split_into_universes start_slot channel_count p)) = [0..<channel_count] \<and>
    list_all (run_fits start_slot p) (split_into_universes start_slot channel_count p) \<and>
    length (split_into_universes start_slot channel_count p) = universes_spanned start_slot channel_count p \<and>
    map universe_offset (split_into_universes start_slot channel_count p) =
      map (\<lambda>i. start_slot div p + i) [0..<universes_spanned start_slot channel_count p]"
proof -
  have split: "split_into_universes start_slot channel_count p = split_from start_slot channel_count p 0"
    using assms by (simp add: split_into_universes_def DMX_UNIVERSE_CHANNELS_def)
  have lim: "start_slot + channel_count \<le> usize_limit" using assms(3) by (simp add: usize_limit_def)
  note parts = split_from_partition [OF assms(1) lim, of 0]
  show ?thesis
  proof (cases "channel_count = 0")
    case True
    then have "split_into_universes start_slot channel_count p = []"
      unfolding split by (simp add: split_from_done)
    with True show ?thesis by (simp add: universes_spanned_def last_universe_offset_def)
  next
    case False
    then have offs: "map universe_offset (split_from start_slot channel_count p 0) =
        [start_slot div p..<Suc ((start_slot + channel_count - 1) div p)]"
      using split_from_offsets [OF assms(1) lim, of 0] by simp
    have "start_slot div p \<le> (start_slot + channel_count - 1) div p" using False by (simp add: div_le_mono)
    then have spanned: "universes_spanned start_slot channel_count p =
        Suc ((start_slot + channel_count - 1) div p) - start_slot div p"
      using False assms(1) lim
      by (auto simp: universes_spanned_def last_universe_offset_def checked_add_def)
    have "length (split_from start_slot channel_count p 0) = universes_spanned start_slot channel_count p"
      using arg_cong [OF offs, of length] by (simp only: spanned length_map length_upt)
    moreover have "map (\<lambda>i. start_slot div p + i) [0..<universes_spanned start_slot channel_count p] =
        [start_slot div p..<Suc ((start_slot + channel_count - 1) div p)]"
      using map_add_upt [of "start_slot div p" "universes_spanned start_slot channel_count p"] spanned
        \<open>start_slot div p \<le> (start_slot + channel_count - 1) div p\<close> by (simp add: add.commute)
    ultimately show ?thesis using parts offs by (simp add: split)
  qed
qed

theorem split_into_universes_partitions_witness:
  "concat (map run_range (split_into_universes 500 600 510)) = [0..<600] \<and>
   map universe_offset (split_into_universes 500 600 510) = [0, 1, 2]"
proof -
  have "universes_spanned 500 600 510 = 3"
    by (simp add: universes_spanned_def last_universe_offset_def checked_add_def usize_limit_def)
  then show ?thesis
    using split_into_universes_partitions [of 510 500 600] by (simp add: upt_rec)
qed

end
