(* ===== verification/Sequences.thy ===== *)
theory Sequences
  imports Prelude
begin

text \<open>
  The sequence numbers of the three pixel protocols: the per-universe tracker of E1.31
  (\<^verbatim>\<open>e131.rs\<close>), the per-Port-Address tracker of Art-Net (\<^verbatim>\<open>artnet.rs\<close>) and the single counter
  of DDP (\<^verbatim>\<open>ddp.rs\<close>). A tracker is a \<^verbatim>\<open>HashMap\<close> from key to the last number handed out.

  The trackers share the interface \<open>keyed_counter\<close>: \<open>advance\<close> bumps the number of one key and
  leaves the others alone. What the receivers rely on, the number after any interleaving of
  sends, is proved once from it.
\<close>

locale keyed_counter =
  fixes advance :: "'t \<Rightarrow> 'k \<Rightarrow> 't \<times> u8"
    and current :: "'t \<Rightarrow> 'k \<Rightarrow> u8"
    and bump :: "u8 \<Rightarrow> u8"
  assumes advance_result: "snd (advance t k) = bump (current t k)"
    and advance_same: "current (fst (advance t k)) k = bump (current t k)"
    and advance_other: "j \<noteq> k \<Longrightarrow> current (fst (advance t k)) j = current t j"
begin

lemma current_after_sends:
  "current (foldl (\<lambda>t k. fst (advance t k)) t ks) k = (bump ^^ count_list ks k) (current t k)"
proof (induction ks arbitrary: t)
  case (Cons j ks)
  have "(bump ^^ count_list ks k) (current (fst (advance t j)) k) =
      (bump ^^ count_list (j # ks) k) (current t k)"
    by (cases "j = k") (simp_all add: advance_same advance_other funpow_swap1)
  then show ?case using Cons.IH by simp
qed simp

lemma next_after_sends:
  "snd (advance (foldl (\<lambda>t k. fst (advance t k)) t ks) k) =
     (bump ^^ Suc (count_list ks k)) (current t k)"
  by (simp add: advance_result current_after_sends)

end

section \<open>Trackers\<close>

type_synonym 'k tracker = "('k, u8) fmap"

definition entry_or_zero :: "'k tracker \<Rightarrow> 'k \<Rightarrow> u8" where
  "entry_or_zero t k = (case fmlookup t k of Some s \<Rightarrow> s | None \<Rightarrow> 0)"

definition e131_seq_advance :: "u16 tracker \<Rightarrow> u16 \<Rightarrow> u16 tracker \<times> u8" where
  "e131_seq_advance t universe =
     (let s = entry_or_zero t universe + 1 in (fmupd universe s t, s))"

definition e131_seq_current :: "u16 tracker \<Rightarrow> u16 \<Rightarrow> u8" where
  "e131_seq_current t universe = entry_or_zero t universe"

datatype port_address = PortAddress u16

definition artdmx_seq_advance :: "port_address tracker \<Rightarrow> port_address \<Rightarrow> port_address tracker \<times> u8" where
  "artdmx_seq_advance t pa =
     (let s = entry_or_zero t pa; s = (if s = - 1 then 1 else s + 1) in (fmupd pa s t, s))"

definition artdmx_seq_current :: "port_address tracker \<Rightarrow> port_address \<Rightarrow> u8" where
  "artdmx_seq_current t pa = entry_or_zero t pa"

definition ddp_seq_advance :: "u8 \<Rightarrow> u8 \<times> u8" where
  "ddp_seq_advance s = (let s = (if 15 \<le> s then 1 else s + 1) in (s, s))"

interpretation e131: keyed_counter e131_seq_advance e131_seq_current "\<lambda>s. s + 1"
  by unfold_locales
    (simp_all add: e131_seq_advance_def e131_seq_current_def entry_or_zero_def Let_def)

interpretation artdmx: keyed_counter artdmx_seq_advance artdmx_seq_current "\<lambda>s. if s = - 1 then 1 else s + 1"
  by unfold_locales
    (simp_all add: artdmx_seq_advance_def artdmx_seq_current_def entry_or_zero_def Let_def)

text \<open>DDP has one counter, so its key carries no information.\<close>

interpretation ddp: keyed_counter "\<lambda>s (_ :: unit). ddp_seq_advance s" "\<lambda>s _. s" "\<lambda>s. if 15 \<le> s then 1 else s + 1"
  by unfold_locales (simp_all add: ddp_seq_advance_def Let_def)

section \<open>Closed forms\<close>

lemma wrap_256: "((\<lambda>s :: u8. s + 1) ^^ n) 0 = of_nat n"
  by (induction n) (simp_all add: add.commute)

text \<open>A counter that runs from 1 to \<open>m\<close> and back to 1, started at 0.\<close>

lemma skip_zero_cycle:
  fixes f :: "u8 \<Rightarrow> u8"
  assumes "\<And>i. i < m \<Longrightarrow> f (of_nat i) = of_nat (Suc i)" "f (of_nat m) = 1" "0 < m"
  shows "(f ^^ Suc n) 0 = of_nat (n mod m + 1)"
proof (induction n)
  case 0
  then show ?case using assms(1) [of 0] assms(3) by simp
next
  case (Suc n)
  have "(f ^^ Suc (Suc n)) 0 = f (of_nat (n mod m + 1))" using Suc by simp
  also have "\<dots> = of_nat (Suc n mod m + 1)"
  proof (cases "n mod m + 1 < m")
    case True
    then have "Suc n mod m = n mod m + 1" by (simp add: mod_Suc)
    then show ?thesis using assms(1) [OF True] by simp
  next
    case False
    then have "n mod m + 1 = m" using mod_less_divisor [OF assms(3), of n] by linarith
    moreover have "Suc n mod m = 0" using calculation by (simp add: mod_Suc)
    ultimately show ?thesis using assms(2) by simp
  qed
  finally show ?case .
qed

lemma of_nat_u8_eq: "i < 256 \<Longrightarrow> j < 256 \<Longrightarrow> (of_nat i :: u8) = of_nat j \<longleftrightarrow> i = j"
  by (simp add: word_unat_eq_iff unat_of_nat)

lemma artdmx_cycle:
  "((\<lambda>s :: u8. if s = - 1 then 1 else s + 1) ^^ Suc n) 0 = of_nat (n mod 255 + 1)"
proof (rule skip_zero_cycle)
  have m: "(- 1 :: u8) = of_nat 255" by simp
  show "(if (of_nat 255 :: u8) = - 1 then 1 else of_nat 255 + 1) = (1 :: u8)" by simp
  show "(if (of_nat i :: u8) = - 1 then 1 else of_nat i + 1) = (of_nat (Suc i) :: u8)" if "i < 255" for i
    using that unfolding m by (simp add: of_nat_u8_eq add.commute del: of_nat_numeral)
qed simp

lemma ddp_cycle:
  "((\<lambda>s :: u8. if 15 \<le> s then 1 else s + 1) ^^ Suc n) 0 = of_nat (n mod 15 + 1)"
proof (rule skip_zero_cycle)
  show "(if 15 \<le> (of_nat i :: u8) then 1 else of_nat i + 1) = (of_nat (Suc i) :: u8)" if "i < 15" for i
  proof -
    have "\<not> (15 :: u8) \<le> of_nat i" using that by (simp add: word_le_nat_alt unat_of_nat)
    then show ?thesis by (simp add: add.commute)
  qed
qed simp_all

section \<open>Properties\<close>

text \<open>Sequence numbers are per destination and in order. After any interleaving of sends
  from fresh trackers, the number the next packet of a universe (Port-Address, DDP stream)
  gets depends only on how many packets it has had before: E1.31 counts modulo 256, Art-Net
  runs from 1 to 255 and DDP from 1 to 15, both skipping the reserved zero.\<close>

theorem sequence_numbers_in_order:
  "snd (e131_seq_advance (foldl (\<lambda>t u. fst (e131_seq_advance t u)) fmempty us) u) =
     of_nat (count_list us u + 1) \<and>
   snd (artdmx_seq_advance (foldl (\<lambda>t a. fst (artdmx_seq_advance t a)) fmempty as) a) =
     of_nat (count_list as a mod 255 + 1) \<and>
   snd (ddp_seq_advance (((\<lambda>s. fst (ddp_seq_advance s)) ^^ n) 0)) = of_nat (n mod 15 + 1)"
proof (intro conjI)
  show "snd (e131_seq_advance (foldl (\<lambda>t u. fst (e131_seq_advance t u)) fmempty us) u) =
      of_nat (count_list us u + 1)"
    using wrap_256 [of "Suc (count_list us u)"]
    by (simp add: e131.next_after_sends e131_seq_current_def entry_or_zero_def)
  show "snd (artdmx_seq_advance (foldl (\<lambda>t a. fst (artdmx_seq_advance t a)) fmempty as) a) =
      of_nat (count_list as a mod 255 + 1)"
    using artdmx_cycle [of "count_list as a"]
    by (simp only: artdmx.next_after_sends artdmx_seq_current_def entry_or_zero_def) simp
  have "((\<lambda>s. fst (ddp_seq_advance s)) ^^ n) 0 = ((\<lambda>s :: u8. if 15 \<le> s then 1 else s + 1) ^^ n) 0"
    by (simp add: ddp_seq_advance_def Let_def)
  then show "snd (ddp_seq_advance (((\<lambda>s. fst (ddp_seq_advance s)) ^^ n) 0)) = of_nat (n mod 15 + 1)"
    using ddp_cycle [of n] by (simp add: ddp_seq_advance_def Let_def)
qed

end
