(* ===== verification/Artnet.thy ===== *)
theory Artnet
  imports Sequences
begin

text \<open>
  Art-Net Port-Addresses and the ArtDmx packet builder
  (\<^verbatim>\<open>hypercolor-pixel-protocols/src/artnet.rs\<close>). The packet's fixed array is a list of 530
  bytes that \<open>set_data\<close> overwrites in place, so a packet is reused from frame to frame.
\<close>

definition ARTNET_ID :: bytes where
  "ARTNET_ID = [0x41, 0x72, 0x74, 0x2D, 0x4E, 0x65, 0x74, 0]"

definition ARTNET_PROTOCOL_VERSION :: u16 where "ARTNET_PROTOCOL_VERSION = 14"
definition ARTNET_OP_DMX :: u16 where "ARTNET_OP_DMX = 0x5000"
definition ARTDMX_HEADER_SIZE :: nat where "ARTDMX_HEADER_SIZE = 18"
definition ARTDMX_MAX_CHANNELS :: nat where "ARTDMX_MAX_CHANNELS = 512"
definition ARTNET_MAX_PORT_ADDRESS :: u16 where "ARTNET_MAX_PORT_ADDRESS = 0x7FFF"

section \<open>Port-Addresses\<close>

definition port_address_new :: "u16 \<Rightarrow> port_address option" where
  "port_address_new v = (if ARTNET_MAX_PORT_ADDRESS < v then None else Some (PortAddress v))"

definition port_address_from_parts :: "u8 \<Rightarrow> u8 \<Rightarrow> u8 \<Rightarrow> port_address option" where
  "port_address_from_parts net sub_net universe =
     (if 0x7F < net \<or> 0x0F < sub_net \<or> 0x0F < universe then None
      else Some (PortAddress (push_bit 8 (ucast net) OR push_bit 4 (ucast sub_net) OR ucast universe)))"

fun pa_value :: "port_address \<Rightarrow> u16" where
  "pa_value (PortAddress v) = v"

definition pa_net :: "port_address \<Rightarrow> u8" where
  "pa_net pa = ucast (drop_bit 8 (pa_value pa) AND 0x7F)"

definition pa_sub_net :: "port_address \<Rightarrow> u8" where
  "pa_sub_net pa = ucast (drop_bit 4 (pa_value pa) AND 0x0F)"

definition pa_universe :: "port_address \<Rightarrow> u8" where
  "pa_universe pa = ucast (pa_value pa AND 0x0F)"

definition pa_sub_uni :: "port_address \<Rightarrow> u8" where
  "pa_sub_uni pa = ucast (pa_value pa AND 0xFF)"

section \<open>ArtDmx packets\<close>

record artdmx_packet =
  art_buf :: bytes
  art_length :: u16

definition artdmx_new :: "port_address \<Rightarrow> u8 \<Rightarrow> artdmx_packet" where
  "artdmx_new pa physical =
     (let buf = replicate (ARTDMX_HEADER_SIZE + ARTDMX_MAX_CHANNELS) 0;
          buf = copy_at 0 ARTNET_ID buf;
          buf = copy_at 8 (le16 ARTNET_OP_DMX) buf;
          buf = copy_at 10 (be16 ARTNET_PROTOCOL_VERSION) buf;
          buf = buf[13 := physical, 14 := pa_sub_uni pa, 15 := pa_net pa]
      in \<lparr>art_buf = buf, art_length = 0\<rparr>)"

definition next_multiple_of_2 :: "nat \<Rightarrow> nat" where
  "next_multiple_of_2 n = n + n mod 2"

definition artdmx_data_length :: "bytes \<Rightarrow> nat" where
  "artdmx_data_length channels =
     max 2 (next_multiple_of_2 (min (length channels) ARTDMX_MAX_CHANNELS))"

definition artdmx_set_data :: "artdmx_packet \<Rightarrow> bytes \<Rightarrow> u8 \<Rightarrow> artdmx_packet" where
  "artdmx_set_data p channels sequence =
     (let count = min (length channels) ARTDMX_MAX_CHANNELS;
          len = artdmx_data_length channels;
          buf = copy_at ARTDMX_HEADER_SIZE (take count channels) (art_buf p);
          buf = copy_at (ARTDMX_HEADER_SIZE + count) (replicate (len - count) 0) buf;
          buf = buf[12 := sequence];
          buf = copy_at 16 (be16 (of_nat len)) buf
      in \<lparr>art_buf = buf, art_length = of_nat len\<rparr>)"

definition artdmx_as_bytes :: "artdmx_packet \<Rightarrow> bytes" where
  "artdmx_as_bytes p = take (ARTDMX_HEADER_SIZE + unat (art_length p)) (art_buf p)"

definition artdmx_port_address :: "artdmx_packet \<Rightarrow> port_address" where
  "artdmx_port_address p =
     PortAddress (push_bit 8 (ucast (art_buf p ! 15)) OR ucast (art_buf p ! 14))"

section \<open>Facts\<close>

lemma small_word: "unat w < 2 ^ n \<Longrightarrow> bit w k \<Longrightarrow> k < n" for w :: "'a::len word"
proof (rule ccontr)
  assume "unat w < 2 ^ n" "bit w k" "\<not> k < n"
  then have "take_bit n (unat w) = unat w" by (simp add: take_bit_nat_eq_self)
  moreover have "bit (unat w) k" using \<open>bit w k\<close> by (simp add: bit_unsigned_iff)
  ultimately have "bit (take_bit n (unat w)) k" by simp
  then show False using \<open>\<not> k < n\<close> by (simp add: bit_simps)
qed

text \<open>The header a packet keeps between calls; only the sequence, the length and the data vary.\<close>

definition art_ok :: "port_address \<Rightarrow> u8 \<Rightarrow> artdmx_packet \<Rightarrow> bool" where
  "art_ok pa physical p \<longleftrightarrow>
     (\<exists>s l1 l2 data. art_buf p = ARTNET_ID @ [0, 0x50, 0, 14, s, physical, pa_sub_uni pa, pa_net pa, l1, l2] @ data
        \<and> length data = 512)"

lemmas art_consts = ARTNET_ID_def ARTDMX_HEADER_SIZE_def ARTDMX_MAX_CHANNELS_def le16_def be16_def
  ARTNET_OP_DMX_def ARTNET_PROTOCOL_VERSION_def

lemma zero_header:
  "\<exists>tail. (replicate 530 0 :: bytes) = [0,0,0,0,0,0,0,0,0,0,0,0,0,0,0,0,0,0] @ tail \<and> length tail = 512"
proof (intro exI conjI)
  have "(replicate 530 0 :: bytes) = replicate 18 0 @ replicate 512 0" by (simp flip: replicate_add)
  also have "(replicate 18 0 :: bytes) = [0,0,0,0,0,0,0,0,0,0,0,0,0,0,0,0,0,0]" by (simp add: numeral_eq_Suc)
  finally show "(replicate 530 0 :: bytes) = [0,0,0,0,0,0,0,0,0,0,0,0,0,0,0,0,0,0] @ replicate 512 0" .
qed simp

lemma artdmx_new_ok: "art_ok pa physical (artdmx_new pa physical)"
proof -
  obtain tail where t: "(replicate 530 0 :: bytes) = [0,0,0,0,0,0,0,0,0,0,0,0,0,0,0,0,0,0] @ tail"
    "length tail = 512" using zero_header by blast
  have "art_buf (artdmx_new pa physical) =
      ARTNET_ID @ [0, 0x50, 0, 14, 0, physical, pa_sub_uni pa, pa_net pa, 0, 0] @ tail"
    by (simp add: artdmx_new_def art_consts t(1) Let_def copy_at_def)
  then show ?thesis unfolding art_ok_def using t(2) by blast
qed

lemma artdmx_len_bounds:
  "min (length ch) 512 \<le> artdmx_data_length ch" "artdmx_data_length ch \<le> 512"
  "even (artdmx_data_length ch)" "2 \<le> artdmx_data_length ch"
proof -
  define n where "n = min (length ch) 512"
  have n: "n \<le> 512" by (simp add: n_def)
  have "next_multiple_of_2 n \<le> 512" "even (next_multiple_of_2 n)" "n \<le> next_multiple_of_2 n"
    using n unfolding next_multiple_of_2_def by presburger+
  then show "min (length ch) 512 \<le> artdmx_data_length ch" "artdmx_data_length ch \<le> 512"
    "even (artdmx_data_length ch)" "2 \<le> artdmx_data_length ch"
    unfolding artdmx_data_length_def ARTDMX_MAX_CHANNELS_def n_def [symmetric] by (auto simp: max_def)
qed

lemma artdmx_set_data_buf:
  assumes "art_buf p = ARTNET_ID @ [0, 0x50, 0, 14, s, physical, su, net, l1, l2] @ data" "length data = 512"
  shows "art_buf (artdmx_set_data p ch seq) =
    ARTNET_ID @ [0, 0x50, 0, 14, seq, physical, su, net] @ be16 (of_nat (artdmx_data_length ch)) @
    take (min (length ch) 512) ch @ replicate (artdmx_data_length ch - min (length ch) 512) 0 @
    drop (artdmx_data_length ch) data"
proof -
  define count where "count = min (length ch) 512"
  define len where "len = artdmx_data_length ch"
  have le: "count \<le> len" "len \<le> 512" using artdmx_len_bounds [of ch] by (simp_all add: count_def len_def)
  have c: "length (take count ch) = count" by (simp add: count_def)
  let ?hdr = "ARTNET_ID @ [0, 0x50, 0, 14, s, physical, su, net, l1, l2]"
  have h: "length ?hdr = 18" by (simp add: ARTNET_ID_def)
  have "copy_at 18 (take count ch) (art_buf p) = ?hdr @ take count ch @ drop count data"
    using copy_at_block [OF h, of "take count ch" data] assms(1) c by simp
  moreover have "copy_at (18 + count) (replicate (len - count) 0) (?hdr @ take count ch @ drop count data) =
      ?hdr @ take count ch @ replicate (len - count) 0 @ drop len data"
    using copy_at_block [of "?hdr @ take count ch" "18 + count" "replicate (len - count) 0" "drop count data"]
      le c h by simp
  ultimately have bufs: "copy_at (18 + count) (replicate (len - count) 0) (copy_at 18 (take count ch) (art_buf p)) =
      ?hdr @ take count ch @ replicate (len - count) 0 @ drop len data" by (simp only:)
  have "art_buf (artdmx_set_data p ch seq) = copy_at 16 (be16 (of_nat len))
      ((copy_at (18 + count) (replicate (len - count) 0) (copy_at 18 (take count ch) (art_buf p)))[12 := seq])"
    by (simp add: artdmx_set_data_def Let_def ARTDMX_HEADER_SIZE_def ARTDMX_MAX_CHANNELS_def count_def len_def)
  also have "\<dots> = ARTNET_ID @ [0, 0x50, 0, 14, seq, physical, su, net] @ be16 (of_nat len) @
      take count ch @ replicate (len - count) 0 @ drop len data"
    unfolding bufs by (simp add: ARTNET_ID_def copy_at_def)
  finally show ?thesis by (simp add: count_def len_def)
qed

lemma artdmx_set_data_ok: "art_ok pa physical p \<Longrightarrow> art_ok pa physical (artdmx_set_data p ch seq)"
proof -
  assume "art_ok pa physical p"
  then obtain s l1 l2 data where p: "art_buf p =
      ARTNET_ID @ [0, 0x50, 0, 14, s, physical, pa_sub_uni pa, pa_net pa, l1, l2] @ data" "length data = 512"
    by (auto simp: art_ok_def)
  show ?thesis
    using artdmx_set_data_buf [OF p, of ch seq] artdmx_len_bounds(1,2) [of ch] p(2)
    by (fastforce simp: art_ok_def be16_def)
qed

text \<open>A packet after any number of reuses.\<close>

definition artdmx_reused :: "port_address \<Rightarrow> u8 \<Rightarrow> (bytes \<times> u8) list \<Rightarrow> artdmx_packet" where
  "artdmx_reused pa physical history =
     foldl (\<lambda>p (ch, seq). artdmx_set_data p ch seq) (artdmx_new pa physical) history"

interpretation art: invariant_machine "\<lambda>p (ch, seq). artdmx_set_data p ch seq" "art_ok pa physical" for pa physical
  by unfold_locales (auto intro: artdmx_set_data_ok)

lemma artdmx_reused_ok: "art_ok pa physical (artdmx_reused pa physical history)"
  unfolding artdmx_reused_def by (rule art.run_inv [OF artdmx_new_ok])

section \<open>Bits of a Port-Address\<close>

lemma nibble_masks: "(0x7F :: u16) = mask 7" "(0x0F :: u16) = mask 4" "(0xFF :: u16) = mask 8"
  by (simp_all add: mask_eq_exp_minus_1)

lemma from_parts_bits:
  assumes "port_address_from_parts net sub_net universe = Some pa"
  shows "bit (pa_value pa) k \<longleftrightarrow>
    (if k < 4 then bit universe k else if k < 8 then bit sub_net (k - 4) else k < 15 \<and> bit net (k - 8))"
proof -
  have lt: "unat net < 2 ^ 7" "unat sub_net < 2 ^ 4" "unat universe < 2 ^ 4"
    using assms by (auto simp: port_address_from_parts_def word_less_nat_alt split: if_splits)
  have v: "pa_value pa = push_bit 8 (ucast net) OR push_bit 4 (ucast sub_net) OR ucast universe"
    using assms by (auto simp: port_address_from_parts_def split: if_splits)
  have b: "bit net j \<Longrightarrow> j < 7" "bit sub_net j \<Longrightarrow> j < 4" "bit universe j \<Longrightarrow> j < 4" for j
    using small_word [OF lt(1)] small_word [OF lt(2)] small_word [OF lt(3)] by blast+
  show ?thesis unfolding v using b(1) [of "k - 8"] b(2) [of "k - 4"] b(3) [of k]
    by (auto simp: bit_simps)
qed

lemma port_address_parts:
  assumes "port_address_from_parts net sub_net universe = Some pa"
  shows "pa_net pa = net" "pa_sub_net pa = sub_net" "pa_universe pa = universe"
    "port_address_new (pa_value pa) = Some pa"
proof -
  note bits = from_parts_bits [OF assms]
  have lt: "unat net < 2 ^ 7" "unat sub_net < 2 ^ 4" "unat universe < 2 ^ 4"
    using assms by (auto simp: port_address_from_parts_def word_less_nat_alt split: if_splits)
  have b: "bit net j \<Longrightarrow> j < 7" "bit sub_net j \<Longrightarrow> j < 4" "bit universe j \<Longrightarrow> j < 4" for j
    using small_word [OF lt(1)] small_word [OF lt(2)] small_word [OF lt(3)] by blast+
  show "pa_net pa = net"
    unfolding pa_net_def nibble_masks by (rule bit_word_eqI) (auto simp: bit_simps bits dest: b)
  show "pa_sub_net pa = sub_net"
    unfolding pa_sub_net_def nibble_masks by (rule bit_word_eqI) (auto simp: bit_simps bits dest: b)
  show "pa_universe pa = universe"
    unfolding pa_universe_def nibble_masks by (rule bit_word_eqI) (auto simp: bit_simps bits dest: b)
  have "take_bit 15 (pa_value pa) = pa_value pa"
    by (rule bit_word_eqI) (auto simp: bit_simps bits)
  then have "unat (pa_value pa) = take_bit 15 (unat (pa_value pa))" by (metis unsigned_take_bit_eq)
  then have "unat (pa_value pa) < 2 ^ 15" by (metis take_bit_nat_less_exp)
  then show "port_address_new (pa_value pa) = Some pa"
    by (cases pa) (simp add: port_address_new_def ARTNET_MAX_PORT_ADDRESS_def word_less_nat_alt)
qed

lemma port_address_bytes:
  assumes "port_address_from_parts net sub_net universe = Some pa"
  shows "PortAddress (push_bit 8 (ucast (pa_net pa)) OR ucast (pa_sub_uni pa)) = pa"
proof -
  have "push_bit 8 (ucast (pa_net pa)) OR ucast (pa_sub_uni pa) = pa_value pa"
    unfolding pa_net_def pa_sub_uni_def nibble_masks
    by (rule bit_word_eqI) (auto simp: bit_simps from_parts_bits [OF assms])
  then show ?thesis by (cases pa) simp
qed

section \<open>Properties\<close>

text \<open>The bytes of an ArtDmx packet depend only on the current call, however often the
  buffer was reused and with however long data before: the fixed header with sequence,
  physical port and Port-Address, the length high byte first, the first 512 channels, and
  zero padding to an even length of at least 2. Nothing of an earlier frame leaks.\<close>

theorem artdmx_packet_bytes:
  "artdmx_as_bytes (artdmx_set_data (artdmx_reused pa physical history) ch seq) =
     ARTNET_ID @ [0x00, 0x50, 0, 14, seq, physical, pa_sub_uni pa, pa_net pa] @
     be16 (of_nat (artdmx_data_length ch)) @ take 512 ch @
     replicate (artdmx_data_length ch - min (length ch) 512) 0 \<and>
   even (artdmx_data_length ch) \<and> 2 \<le> artdmx_data_length ch \<and> artdmx_data_length ch \<le> 512"
proof -
  obtain s l1 l2 data where p: "art_buf (artdmx_reused pa physical history) =
      ARTNET_ID @ [0, 0x50, 0, 14, s, physical, pa_sub_uni pa, pa_net pa, l1, l2] @ data" "length data = 512"
    using artdmx_reused_ok [of pa physical history] by (auto simp: art_ok_def)
  define len where "len = artdmx_data_length ch"
  have len: "min (length ch) 512 \<le> len" "len \<le> 512" using artdmx_len_bounds [of ch] by (simp_all add: len_def)
  have l: "art_length (artdmx_set_data (artdmx_reused pa physical history) ch seq) = of_nat len"
    by (simp add: artdmx_set_data_def Let_def len_def)
  have u: "unat (of_nat len :: u16) = len" using len(2) by (simp add: unat_of_nat)
  let ?body = "ARTNET_ID @ [0, 0x50, 0, 14, seq, physical, pa_sub_uni pa, pa_net pa] @ be16 (of_nat len) @
      take (min (length ch) 512) ch @ replicate (len - min (length ch) 512) 0"
  have "length ?body = 18 + len" using len by (simp add: ARTNET_ID_def)
  then have "take (18 + len) (?body @ drop len data) = ?body" by (metis append_eq_conv_conj)
  then have "artdmx_as_bytes (artdmx_set_data (artdmx_reused pa physical history) ch seq) = ?body"
    unfolding artdmx_as_bytes_def artdmx_set_data_buf [OF p] l u ARTDMX_HEADER_SIZE_def len_def [symmetric]
    by simp
  then show ?thesis using artdmx_len_bounds [of ch] by (simp add: len_def take_take min_def)
qed

text \<open>Port-Addresses round trip: composing from parts and reading the parts back, flattening
  and recomposing, and reading the address back from a packet it was written to.\<close>

theorem port_address_roundtrip:
  assumes "port_address_from_parts net sub_net universe = Some pa"
  shows "pa_net pa = net \<and> pa_sub_net pa = sub_net \<and> pa_universe pa = universe \<and>
    port_address_new (pa_value pa) = Some pa \<and>
    artdmx_port_address (artdmx_set_data (artdmx_reused pa physical history) ch seq) = pa"
proof -
  note parts = port_address_parts [OF assms]
  have "artdmx_port_address (artdmx_set_data (artdmx_reused pa physical history) ch seq) =
      PortAddress (push_bit 8 (ucast (pa_net pa)) OR ucast (pa_sub_uni pa))"
    using artdmx_set_data_ok [OF artdmx_reused_ok, of pa physical history ch seq]
    by (auto simp: artdmx_port_address_def art_ok_def ARTNET_ID_def)
  then show ?thesis using parts port_address_bytes [OF assms] by simp
qed

theorem port_address_roundtrip_witness:
  "port_address_from_parts 0x12 0x3 0x4 = Some (PortAddress 0x1234) \<and> pa_net (PortAddress 0x1234) = 0x12"
proof -
  have p: "port_address_from_parts 0x12 0x3 0x4 = Some (PortAddress 0x1234)"
    by (simp add: port_address_from_parts_def)
  then show ?thesis using port_address_roundtrip [OF p] by blast
qed

end
