(* ===== verification/Ddp.thy ===== *)
theory Ddp
  imports Sequences
begin

text \<open>
  The DDP packet builder (\<^verbatim>\<open>hypercolor-pixel-protocols/src/ddp.rs\<close>): packet encoding and the
  fragmentation of a frame into packets. A packet is its byte vector. The \<^verbatim>\<open>debug_assert\<close> on
  the payload length is absent from release builds and from the model.
\<close>

definition DDP_MAX_PAYLOAD :: nat where "DDP_MAX_PAYLOAD = 1440"
definition DDP_HEADER_SIZE :: nat where "DDP_HEADER_SIZE = 10"
definition DDP_VERSION :: u8 where "DDP_VERSION = 0x40"
definition DDP_FLAG_PUSH :: u8 where "DDP_FLAG_PUSH = 0x01"
definition DDP_ID_DEFAULT :: u8 where "DDP_ID_DEFAULT = 0x01"

definition encode_ddp_packet :: "bytes \<Rightarrow> u32 \<Rightarrow> bool \<Rightarrow> u8 \<Rightarrow> u8 \<Rightarrow> u8 \<Rightarrow> bytes" where
  "encode_ddp_packet pixel_data offset push sequence data_type destination =
     [DDP_VERSION OR (if push then DDP_FLAG_PUSH else 0), sequence AND 0x0F, data_type, destination]
     @ be32 offset @ be16 (of_nat (length pixel_data)) @ pixel_data"

record ddp_span =
  span_offset :: u32
  span_data :: bytes

datatype sequencing = PerFrame | PerPacket

text \<open>The body of the inner loop: one chunk of one dspan.\<close>

definition push_chunk ::
    "nat \<Rightarrow> u8 \<Rightarrow> u8 \<Rightarrow> nat \<Rightarrow> sequencing \<Rightarrow> u8 \<Rightarrow> ddp_span \<Rightarrow> u8 \<times> bytes list \<Rightarrow> nat \<times> bytes \<Rightarrow> u8 \<times> bytes list" where
  "push_chunk total_packets data_type destination chunk_len mode frame_sequence dspan st ic =
     (case st of (sequence, packets) \<Rightarrow> case ic of (i, chunk) \<Rightarrow>
       (let offset = span_offset dspan + of_nat (i * chunk_len);
            push = (length packets + 1 = total_packets);
            (sequence, seq) = (if mode = PerPacket \<and> packets \<noteq> [] then ddp_seq_advance sequence
                               else (sequence, frame_sequence))
        in (sequence, packets @ [encode_ddp_packet chunk offset push seq data_type destination])))"

definition build_packets ::
    "ddp_span list \<Rightarrow> u8 \<Rightarrow> u8 \<Rightarrow> nat \<Rightarrow> u8 \<Rightarrow> sequencing \<Rightarrow> u8 \<times> bytes list" where
  "build_packets spans data_type destination chunk_len sequence mode =
     (let chunk_len = max 1 (min chunk_len DDP_MAX_PAYLOAD);
          (sequence, frame_sequence) = ddp_seq_advance sequence;
          total_packets = sum_list (map (\<lambda>dspan. (length (span_data dspan) + chunk_len - 1) div chunk_len) spans)
      in foldl (\<lambda>st dspan.
           foldl (push_chunk total_packets data_type destination chunk_len mode frame_sequence dspan) st
             (enumerate 0 (chunks chunk_len (span_data dspan))))
         (sequence, []) spans)"

definition build_ddp_frame :: "bytes \<Rightarrow> u8 \<Rightarrow> u8 \<Rightarrow> u8 \<times> bytes list" where
  "build_ddp_frame pixel_data data_type sequence =
     build_packets [\<lparr>span_offset = 0, span_data = pixel_data\<rparr>] data_type DDP_ID_DEFAULT
       DDP_MAX_PAYLOAD sequence PerFrame"

definition pixel_aligned_chunk_len :: "nat \<Rightarrow> nat" where
  "pixel_aligned_chunk_len channels_per_pixel =
     (if channels_per_pixel = 0 \<or> DDP_MAX_PAYLOAD < channels_per_pixel then DDP_MAX_PAYLOAD
      else DDP_MAX_PAYLOAD div channels_per_pixel * channels_per_pixel)"

definition build_ddp_spans :: "ddp_span list \<Rightarrow> u8 \<Rightarrow> u8 \<Rightarrow> nat \<Rightarrow> u8 \<Rightarrow> u8 \<times> bytes list" where
  "build_ddp_spans spans data_type destination chunk_len sequence =
     build_packets spans data_type destination chunk_len sequence PerPacket"

section \<open>The fields of a packet\<close>

definition ddp_push :: "bytes \<Rightarrow> bool" where
  "ddp_push p \<longleftrightarrow> p ! 0 AND DDP_FLAG_PUSH \<noteq> 0"

definition ddp_sequence :: "bytes \<Rightarrow> u8" where
  "ddp_sequence p = p ! 1"

definition ddp_offset :: "bytes \<Rightarrow> u32" where
  "ddp_offset p = from_be32 (p ! 4) (p ! 5) (p ! 6) (p ! 7)"

definition ddp_length :: "bytes \<Rightarrow> u16" where
  "ddp_length p = from_be16 (p ! 8) (p ! 9)"

definition ddp_payload :: "bytes \<Rightarrow> bytes" where
  "ddp_payload p = drop 10 p"

lemma encoded_fields [wire_simps]:
  "ddp_push (encode_ddp_packet d off push sq ty dst) = push"
  "ddp_sequence (encode_ddp_packet d off push sq ty dst) = sq AND 0x0F"
  "ddp_offset (encode_ddp_packet d off push sq ty dst) = off"
  "ddp_length (encode_ddp_packet d off push sq ty dst) = of_nat (length d)"
  "ddp_payload (encode_ddp_packet d off push sq ty dst) = d"
  "length (encode_ddp_packet d off push sq ty dst) = 10 + length d"
  by (simp_all add: encode_ddp_packet_def ddp_push_def ddp_sequence_def ddp_offset_def ddp_length_def
      ddp_payload_def DDP_VERSION_def DDP_FLAG_PUSH_def be32_def be16_def)

section \<open>The frame as a list of pieces\<close>

definition pieces :: "nat \<Rightarrow> ddp_span list \<Rightarrow> (u32 \<times> bytes) list" where
  "pieces n spans = concat (map (\<lambda>s. map (\<lambda>(i, c). (span_offset s + of_nat (i * n), c))
     (enumerate 0 (chunks n (span_data s)))) spans)"

definition bump15 :: "u8 \<Rightarrow> u8" where
  "bump15 s = (if 15 \<le> s then 1 else s + 1)"

lemma ddp_seq_advance_bump: "ddp_seq_advance s = (bump15 s, bump15 s)"
  by (simp add: ddp_seq_advance_def bump15_def Let_def)

text \<open>Packet number \<open>j\<close> of a frame, and the counter after \<open>k\<close> packets.\<close>

definition packet_seq :: "sequencing \<Rightarrow> u8 \<Rightarrow> nat \<Rightarrow> u8" where
  "packet_seq mode s0 j = (if mode = PerPacket then (bump15 ^^ Suc j) s0 else bump15 s0)"

definition nth_packet :: "nat \<Rightarrow> u8 \<Rightarrow> u8 \<Rightarrow> sequencing \<Rightarrow> u8 \<Rightarrow> (u32 \<times> bytes) list \<Rightarrow> nat \<Rightarrow> bytes" where
  "nth_packet total_packets ty dst mode s0 ps j =
     encode_ddp_packet (snd (ps ! j)) (fst (ps ! j)) (j + 1 = total_packets) (packet_seq mode s0 j) ty dst"

definition after_pieces ::
    "nat \<Rightarrow> u8 \<Rightarrow> u8 \<Rightarrow> sequencing \<Rightarrow> u8 \<Rightarrow> (u32 \<times> bytes) list \<Rightarrow> u8 \<times> bytes list" where
  "after_pieces total_packets ty dst mode s0 ps =
     ((if mode = PerPacket then (bump15 ^^ max 1 (length ps)) s0 else bump15 s0),
      map (nth_packet total_packets ty dst mode s0 ps) [0..<length ps])"

lemma push_chunk_step:
  "push_chunk total_packets ty dst n mode (bump15 s0) s (after_pieces total_packets ty dst mode s0 ps) (i, c) =
   after_pieces total_packets ty dst mode s0 (ps @ [(span_offset s + of_nat (i * n), c)])"
proof -
  define ps' where "ps' = ps @ [(span_offset s + of_nat (i * n), c)]"
  have old: "map (nth_packet total_packets ty dst mode s0 ps) [0..<length ps] =
      map (nth_packet total_packets ty dst mode s0 ps') [0..<length ps]"
    by (simp add: nth_packet_def ps'_def nth_append)
  have "push_chunk total_packets ty dst n mode (bump15 s0) s (after_pieces total_packets ty dst mode s0 ps) (i, c) =
      after_pieces total_packets ty dst mode s0 ps'"
  proof (cases "mode = PerPacket \<and> ps \<noteq> []")
    case True
    then have "max 1 (length ps) = length ps" by (cases ps) simp_all
    then show ?thesis using True old
      by (simp add: after_pieces_def push_chunk_def ddp_seq_advance_bump nth_packet_def packet_seq_def)
        (simp add: ps'_def nth_packet_def packet_seq_def nth_append funpow_swap1)
  next
    case False
    then show ?thesis using old
      by (auto simp: after_pieces_def push_chunk_def ps'_def nth_packet_def packet_seq_def nth_append)
  qed
  then show ?thesis by (simp add: ps'_def)
qed

lemma push_chunk_fold:
  "foldl (push_chunk total_packets ty dst n mode (bump15 s0) s) (after_pieces total_packets ty dst mode s0 ps) ics =
   after_pieces total_packets ty dst mode s0 (ps @ map (\<lambda>(i, c). (span_offset s + of_nat (i * n), c)) ics)"
  by (induction ics arbitrary: ps) (auto simp: push_chunk_step)

lemma span_fold:
  "foldl (\<lambda>st s. foldl (push_chunk total_packets ty dst n mode (bump15 s0) s) st
       (enumerate 0 (chunks n (span_data s)))) (after_pieces total_packets ty dst mode s0 ps) spans =
   after_pieces total_packets ty dst mode s0 (ps @ pieces n spans)"
  by (induction spans arbitrary: ps) (auto simp: push_chunk_fold pieces_def)

lemma length_pieces: "0 < n \<Longrightarrow>
  length (pieces n spans) = sum_list (map (\<lambda>s. (length (span_data s) + n - 1) div n) spans)"
  by (induction spans) (simp_all add: pieces_def length_chunks)

lemma build_packets_eq:
  assumes "1 \<le> n" "n \<le> 1440"
  shows "build_packets spans ty dst n s0 mode =
    after_pieces (length (pieces n spans)) ty dst mode s0 (pieces n spans)"
proof -
  have n: "max (Suc 0) (min n DDP_MAX_PAYLOAD) = n" using assms by (simp add: DDP_MAX_PAYLOAD_def)
  have "after_pieces (length (pieces n spans)) ty dst mode s0 [] = (bump15 s0, [])"
    by (simp add: after_pieces_def)
  then show ?thesis
    using span_fold [of "length (pieces n spans)" ty dst n mode s0 "[]" spans] assms length_pieces [of n spans]
    by (simp add: build_packets_def n ddp_seq_advance_bump Let_def)
qed

lemma snd_enumerate: "map snd (map (\<lambda>(i, c). (g i, c)) (enumerate k xs)) = xs"
  by (induction xs arbitrary: k) simp_all

lemma snd_pieces: "map snd (pieces n spans) = concat (map (\<lambda>s. chunks n (span_data s)) spans)"
  by (induction spans) (simp_all add: pieces_def snd_enumerate del: map_map)

lemma concat_pieces: "0 < n \<Longrightarrow> concat (map snd (pieces n spans)) = concat (map span_data spans)"
  unfolding snd_pieces by (induction spans) (simp_all add: concat_chunks)

lemma pieces_bound: "0 < n \<Longrightarrow> j < length (pieces n spans) \<Longrightarrow>
  0 < length (snd (pieces n spans ! j)) \<and> length (snd (pieces n spans ! j)) \<le> n"
proof -
  assume n: "0 < n" and j: "j < length (pieces n spans)"
  have "snd (pieces n spans ! j) \<in> set (map snd (pieces n spans))" using j by simp
  then show ?thesis using chunks_bounds [OF n] unfolding snd_pieces by auto
qed

lemma payloads: "map ddp_payload (map (nth_packet total_packets ty dst mode s0 ps) [0..<length ps]) = map snd ps"
  by (rule nth_equalityI) (simp_all add: nth_packet_def encoded_fields)

lemma bump15_small: "unat s \<le> 15 \<Longrightarrow> 1 \<le> unat (bump15 s) \<and> unat (bump15 s) \<le> 15"
proof (cases "15 \<le> s")
  case False
  then have "unat s < 15" by (simp add: word_le_nat_alt)
  then have "unat (1 + s) = Suc (unat s)" by (intro unatSuc) (auto simp: word_unat_eq_iff unat_word_ariths)
  then show ?thesis using False \<open>unat s < 15\<close> by (simp add: bump15_def add.commute)
qed (simp add: bump15_def)

lemma single_piece:
  assumes "0 < n" "j < length (chunks n d)"
  shows "pieces n [\<lparr>span_offset = off, span_data = d\<rparr>] ! j = (off + of_nat (j * n), chunks n d ! j)"
  using assms by (simp add: pieces_def nth_enumerate_eq)

lemma chunk_position:
  assumes "0 < n" "j < length (chunks n d)"
  shows "length (concat (take j (chunks n d))) = j * n \<and> j * n < length d"
  using assms
proof (induction j arbitrary: d)
  case 0
  then show ?case by (cases d) simp_all
next
  case (Suc j)
  then have d: "d \<noteq> []" by auto
  then have j: "j < length (chunks n (drop n d))" using Suc.prems by (simp add: chunks_step)
  then have "drop n d \<noteq> []" by auto
  then have "n < length d" by simp
  moreover have "length (concat (take j (chunks n (drop n d)))) = j * n" "j * n < length d - n"
    using Suc.IH [OF Suc.prems(1) j] by simp_all
  moreover have "chunks n d = take n d # chunks n (drop n d)" using chunks_step [OF d Suc.prems(1)] .
  ultimately show ?case by simp
qed

lemma low_nibble: "unat s \<le> 15 \<Longrightarrow> s AND 0x0F = s" for s :: u8
proof -
  assume "unat s \<le> 15"
  then have "unat (take_bit 4 s) = unat s" by (simp add: unsigned_take_bit_eq take_bit_nat_eq_self)
  then have "s AND mask 4 = s" by (simp add: word_unat_eq_iff flip: take_bit_eq_mask)
  then show ?thesis by (simp add: mask_eq_exp_minus_1)
qed

lemma bump15_iter_small: "unat s \<le> 15 \<Longrightarrow> unat ((bump15 ^^ Suc j) s) \<le> 15"
proof (induction j)
  case (Suc j)
  then show ?case using bump15_small [of "(bump15 ^^ Suc j) s"] by simp
qed (use bump15_small in simp)

section \<open>Properties\<close>

text \<open>C10: A frame survives its fragmentation. The payloads of the packets, in order, are the
  frame; each packet is placed at the offset where its payload starts, carries the length of
  its payload, which is at most 1440 bytes, and the sequence number of the frame; and the
  last packet, and only the last one, carries the push flag.\<close>

theorem ddp_frame_reassembles:
  assumes "length pixel_data < 2 ^ 32" "unat sequence \<le> 15"
    and "build_ddp_frame pixel_data data_type sequence = (sequence', packets)"
  shows "concat (map ddp_payload packets) = pixel_data \<and>
    (\<forall>j < length packets.
       unat (ddp_offset (packets ! j)) = length (concat (map ddp_payload (take j packets))) \<and>
       unat (ddp_length (packets ! j)) = length (ddp_payload (packets ! j)) \<and>
       length (packets ! j) \<le> 1450 \<and>
       ddp_sequence (packets ! j) = sequence' \<and>
       (ddp_push (packets ! j) \<longleftrightarrow> j = length packets - 1))"
proof -
  define ps where "ps = pieces 1440 [\<lparr>span_offset = 0, span_data = pixel_data\<rparr>]"
  have b: "sequence' = bump15 sequence"
    "packets = map (nth_packet (length ps) data_type DDP_ID_DEFAULT PerFrame sequence ps) [0..<length ps]"
    using assms(3) by (auto simp: build_ddp_frame_def build_packets_eq DDP_MAX_PAYLOAD_def ps_def after_pieces_def)
  have snds: "map snd ps = chunks 1440 pixel_data" by (simp add: ps_def snd_pieces)
  then have len: "length ps = length (chunks 1440 pixel_data)" using length_map [of snd ps] by simp
  have pay: "map ddp_payload packets = map snd ps" unfolding b(2) by (rule payloads)
  have cat: "concat (map ddp_payload packets) = pixel_data" unfolding pay snds by (simp add: concat_chunks)
  have sq: "bump15 sequence AND 0x0F = bump15 sequence" 
    using bump15_small [OF assms(2)] by (simp add: low_nibble)
  show ?thesis
  proof (intro conjI allI impI)
    fix j assume "j < length packets"
    then have j: "j < length ps" "j < length (chunks 1440 pixel_data)" by (simp_all add: b(2) len)
    have pk: "packets ! j = encode_ddp_packet (snd (ps ! j)) (fst (ps ! j)) (j + 1 = length ps) sequence' data_type DDP_ID_DEFAULT"
      using j by (simp add: b nth_packet_def packet_seq_def)
    have sn: "length (snd (ps ! j)) \<le> 1440" using pieces_bound [of 1440 j] j by (simp add: ps_def)
    have off: "fst (ps ! j) = of_nat (j * 1440)" using single_piece [of 1440 j pixel_data 0] j by (simp add: ps_def)
    have pos: "length (concat (take j (chunks 1440 pixel_data))) = j * 1440" "j * 1440 < length pixel_data"
      using chunk_position [of 1440 j pixel_data] j by simp_all
    show "unat (ddp_offset (packets ! j)) = length (concat (map ddp_payload (take j packets)))"
    proof -
      have "map ddp_payload (take j packets) = take j (chunks 1440 pixel_data)"
        by (simp add: pay snds flip: take_map)
      then show ?thesis using pos assms(1) by (simp add: pk encoded_fields off unat_of_nat del: of_nat_mult)
    qed
    show "unat (ddp_length (packets ! j)) = length (ddp_payload (packets ! j))"
      using sn by (simp add: pk encoded_fields unat_of_nat)
    show "length (packets ! j) \<le> 1450" using sn by (simp add: pk encoded_fields)
    show "ddp_sequence (packets ! j) = sequence'" using sq by (simp add: pk encoded_fields b(1))
    show "ddp_push (packets ! j) \<longleftrightarrow> j = length packets - 1" 
    proof -
      have "length packets = length ps" by (simp add: b(2))
      then show ?thesis using j(1) unfolding pk encoded_fields by auto
    qed
  qed (rule cat)
qed

theorem ddp_frame_reassembles_witness:
  "\<exists>sequence' packets. build_ddp_frame [1, 2, 3] 0x0B 0 = (sequence', packets) \<and>
     concat (map ddp_payload packets) = [1, 2, 3]"
proof -
  obtain sequence' packets where b: "build_ddp_frame [1, 2, 3] 0x0B 0 = (sequence', packets)" by fastforce
  show ?thesis using ddp_frame_reassembles [OF _ _ b] b by simp
qed

text \<open>A frame of several spans sends exactly the chunks of the spans, in order and at their
  offsets (modulo the 32-bit wrap of the offset), numbers every packet with the next sequence
  number, and pushes with the last packet only.\<close>

theorem ddp_spans_in_order:
  assumes "1 \<le> chunk_len" "chunk_len \<le> 1440" "unat sequence \<le> 15"
    and "build_ddp_spans spans data_type destination chunk_len sequence = (sequence', packets)"
  shows "map (\<lambda>p. (ddp_offset p, ddp_payload p)) packets = pieces chunk_len spans \<and>
    map ddp_sequence packets = map (\<lambda>j. (bump15 ^^ Suc j) sequence) [0..<length packets] \<and>
    map ddp_push packets = map (\<lambda>j. j = length packets - 1) [0..<length packets] \<and>
    concat (map ddp_payload packets) = concat (map span_data spans)"
proof -
  define ps where "ps = pieces chunk_len spans"
  have b: "packets = map (nth_packet (length ps) data_type destination PerPacket sequence ps) [0..<length ps]"
    using assms by (auto simp: build_ddp_spans_def build_packets_eq ps_def after_pieces_def)
  have "map ddp_payload packets = map snd ps" unfolding b by (rule payloads)
  then have "concat (map ddp_payload packets) = concat (map span_data spans)"
    using concat_pieces [of chunk_len spans] assms(1) by (simp add: ps_def)
  moreover have "map (\<lambda>p. (ddp_offset p, ddp_payload p)) packets = ps"
    unfolding b by (rule nth_equalityI) (simp_all add: nth_packet_def encoded_fields)
  moreover have "map ddp_sequence packets = map (\<lambda>j. (bump15 ^^ Suc j) sequence) [0..<length packets]"
    using bump15_iter_small [OF assms(3)]
    by (simp add: b nth_packet_def encoded_fields packet_seq_def low_nibble)
  moreover have "map ddp_push packets = map (\<lambda>j. j = length packets - 1) [0..<length packets]"
    by (auto simp: b nth_packet_def encoded_fields)
  ultimately show ?thesis by (simp add: ps_def)
qed

theorem ddp_spans_in_order_witness:
  "\<exists>sequence' packets. build_ddp_spans [\<lparr>span_offset = 9, span_data = [1, 2, 3]\<rparr>] 0x0B 1 2 0 = (sequence', packets) \<and>
     concat (map ddp_payload packets) = [1, 2, 3]"
proof -
  obtain sequence' packets where
    b: "build_ddp_spans [\<lparr>span_offset = 9, span_data = [1, 2, 3]\<rparr>] 0x0B 1 2 0 = (sequence', packets)" by fastforce
  show ?thesis using ddp_spans_in_order [OF _ _ _ b] b by simp
qed

end
