(* ===== verification/E131.thy ===== *)
theory E131
  imports Sequences
begin

text \<open>
  The E1.31 (sACN) packet builder (\<^verbatim>\<open>hypercolor-pixel-protocols/src/e131.rs\<close>): data packets
  whose fixed 638-byte buffer is reused from frame to frame, synchronization packets and the
  universe count. Strings are their UTF-8 bytes; the sender's CID is the 16 bytes of its UUID.
\<close>

definition E131_CHANNELS_PER_UNIVERSE :: nat where "E131_CHANNELS_PER_UNIVERSE = 512"
definition E131_PIXELS_PER_UNIVERSE_RGBW :: nat where "E131_PIXELS_PER_UNIVERSE_RGBW = 127"
definition E131_SOURCE_NAME_MAX_BYTES :: nat where "E131_SOURCE_NAME_MAX_BYTES = 63"
definition E131_OPTION_PREVIEW_DATA :: u8 where "E131_OPTION_PREVIEW_DATA = 0x80"
definition E131_OPTION_STREAM_TERMINATED :: u8 where "E131_OPTION_STREAM_TERMINATED = 0x40"
definition E131_OPTION_FORCE_SYNCHRONIZATION :: u8 where "E131_OPTION_FORCE_SYNCHRONIZATION = 0x20"
definition E131_HEADER_SIZE :: nat where "E131_HEADER_SIZE = 126"
definition E131_MAX_PACKET_SIZE :: nat where "E131_MAX_PACKET_SIZE = 638"
definition E131_SYNC_PACKET_SIZE :: nat where "E131_SYNC_PACKET_SIZE = 49"

definition ACN_PACKET_ID :: bytes where
  "ACN_PACKET_ID = [0x41, 0x53, 0x43, 0x2D, 0x45, 0x31, 0x2E, 0x31, 0x37, 0, 0, 0]"

definition VECTOR_ROOT_E131_DATA :: u32 where "VECTOR_ROOT_E131_DATA = 4"
definition VECTOR_ROOT_E131_EXTENDED :: u32 where "VECTOR_ROOT_E131_EXTENDED = 8"
definition VECTOR_E131_DATA_PACKET :: u32 where "VECTOR_E131_DATA_PACKET = 2"
definition VECTOR_E131_EXTENDED_SYNCHRONIZATION :: u32 where "VECTOR_E131_EXTENDED_SYNCHRONIZATION = 1"
definition PDU_FLAGS :: u16 where "PDU_FLAGS = 0x7000"

section \<open>Source names\<close>

text \<open>\<^verbatim>\<open>str::is_char_boundary\<close>: an index is one unless it is past the end or at a continuation byte.\<close>

definition is_char_boundary :: "bytes \<Rightarrow> nat \<Rightarrow> bool" where
  "is_char_boundary v i \<longleftrightarrow> i = 0 \<or> i = length v \<or> (i < length v \<and> v ! i AND 0xC0 \<noteq> 0x80)"

fun boundary_at_most :: "bytes \<Rightarrow> nat \<Rightarrow> nat" where
  "boundary_at_most v 0 = 0"
| "boundary_at_most v (Suc n) = (if is_char_boundary v (Suc n) then Suc n else boundary_at_most v n)"

definition truncate_utf8 :: "bytes \<Rightarrow> nat \<Rightarrow> bytes" where
  "truncate_utf8 v max_bytes =
     (if length v \<le> max_bytes then v else take (boundary_at_most v max_bytes) v)"

section \<open>Data packets\<close>

record e131_packet =
  e131_buf :: bytes
  channel_count :: u16

definition e131_new :: "bytes \<Rightarrow> bytes \<Rightarrow> u16 \<Rightarrow> u8 \<Rightarrow> e131_packet" where
  "e131_new source_name cid universe priority =
     (let buf = replicate E131_MAX_PACKET_SIZE 0;
          buf = copy_at 0 (be16 0x0010) buf;
          buf = copy_at 2 (be16 0x0000) buf;
          buf = copy_at 4 ACN_PACKET_ID buf;
          buf = copy_at 18 (be32 VECTOR_ROOT_E131_DATA) buf;
          buf = copy_at 22 cid buf;
          buf = copy_at 40 (be32 VECTOR_E131_DATA_PACKET) buf;
          buf = copy_at 44 (truncate_utf8 source_name E131_SOURCE_NAME_MAX_BYTES) buf;
          buf = buf[108 := priority];
          buf = copy_at 109 (be16 0x0000) buf;
          buf = buf[112 := 0];
          buf = copy_at 113 (be16 universe) buf;
          buf = buf[117 := 0x02];
          buf = buf[118 := 0xA1];
          buf = copy_at 119 (be16 0x0000) buf;
          buf = copy_at 121 (be16 0x0001) buf;
          buf = buf[125 := 0]
      in \<lparr>e131_buf = buf, channel_count = 0\<rparr>)"

definition e131_set_channels :: "e131_packet \<Rightarrow> bytes \<Rightarrow> u8 \<Rightarrow> e131_packet" where
  "e131_set_channels p channels sequence =
     (let count = min (length channels) E131_CHANNELS_PER_UNIVERSE;
          buf = copy_at 126 (take count channels) (e131_buf p);
          buf = buf[111 := sequence];
          buf = copy_at 123 (be16 (of_nat (count + 1))) buf;
          buf = copy_at 115 (be16 (PDU_FLAGS OR of_nat (count + 11))) buf;
          buf = copy_at 38 (be16 (PDU_FLAGS OR of_nat (count + 88))) buf;
          buf = copy_at 16 (be16 (PDU_FLAGS OR of_nat (count + 110))) buf
      in \<lparr>e131_buf = buf, channel_count = of_nat count\<rparr>)"

definition e131_set_sync_address :: "e131_packet \<Rightarrow> u16 \<Rightarrow> e131_packet" where
  "e131_set_sync_address p sync_universe = p\<lparr>e131_buf := copy_at 109 (be16 sync_universe) (e131_buf p)\<rparr>"

definition e131_set_options :: "e131_packet \<Rightarrow> u8 \<Rightarrow> e131_packet" where
  "e131_set_options p opts = p\<lparr>e131_buf := (e131_buf p)[112 := opts]\<rparr>"

definition e131_set_option_bit :: "e131_packet \<Rightarrow> u8 \<Rightarrow> bool \<Rightarrow> e131_packet" where
  "e131_set_option_bit p b enabled =
     p\<lparr>e131_buf := (e131_buf p)[112 := (if enabled then e131_buf p ! 112 OR b else e131_buf p ! 112 AND NOT b)]\<rparr>"

definition e131_set_stream_terminated :: "e131_packet \<Rightarrow> bool \<Rightarrow> e131_packet" where
  "e131_set_stream_terminated p = e131_set_option_bit p E131_OPTION_STREAM_TERMINATED"

definition e131_set_preview_data :: "e131_packet \<Rightarrow> bool \<Rightarrow> e131_packet" where
  "e131_set_preview_data p = e131_set_option_bit p E131_OPTION_PREVIEW_DATA"

definition e131_set_force_synchronization :: "e131_packet \<Rightarrow> bool \<Rightarrow> e131_packet" where
  "e131_set_force_synchronization p = e131_set_option_bit p E131_OPTION_FORCE_SYNCHRONIZATION"

definition e131_as_bytes :: "e131_packet \<Rightarrow> bytes" where
  "e131_as_bytes p = take (E131_HEADER_SIZE + unat (channel_count p)) (e131_buf p)"

definition e131_universe :: "e131_packet \<Rightarrow> u16" where
  "e131_universe p = from_be16 (e131_buf p ! 113) (e131_buf p ! 114)"

definition e131_sync_address :: "e131_packet \<Rightarrow> u16" where
  "e131_sync_address p = from_be16 (e131_buf p ! 109) (e131_buf p ! 110)"

definition e131_options :: "e131_packet \<Rightarrow> u8" where
  "e131_options p = e131_buf p ! 112"

section \<open>Synchronization packets\<close>

definition e131_sync_new :: "bytes \<Rightarrow> u16 \<Rightarrow> u8 \<Rightarrow> bytes" where
  "e131_sync_new cid sync_address sequence =
     (let buf = replicate E131_SYNC_PACKET_SIZE 0;
          buf = copy_at 0 (be16 0x0010) buf;
          buf = copy_at 2 (be16 0x0000) buf;
          buf = copy_at 4 ACN_PACKET_ID buf;
          buf = copy_at 16 (be16 (PDU_FLAGS OR of_nat (E131_SYNC_PACKET_SIZE - 16))) buf;
          buf = copy_at 18 (be32 VECTOR_ROOT_E131_EXTENDED) buf;
          buf = copy_at 22 cid buf;
          buf = copy_at 38 (be16 (PDU_FLAGS OR of_nat (E131_SYNC_PACKET_SIZE - 38))) buf;
          buf = copy_at 40 (be32 VECTOR_E131_EXTENDED_SYNCHRONIZATION) buf;
          buf = buf[44 := sequence]
      in copy_at 45 (be16 sync_address) buf)"

section \<open>Universe count\<close>

text \<open>\<open>None\<close>: the division by zero panics for a stride of 0 or of more than 512 bytes.\<close>

definition universes_needed :: "nat \<Rightarrow> nat \<Rightarrow> nat option" where
  "universes_needed pixel_count bytes_per_pixel =
     (if bytes_per_pixel = 0 then None
      else let pixels_per_universe = E131_CHANNELS_PER_UNIVERSE div bytes_per_pixel
           in if pixels_per_universe = 0 then None
              else Some ((pixel_count + pixels_per_universe - 1) div pixels_per_universe))"

section \<open>Facts\<close>

lemma boundary_at_most_le: "boundary_at_most v n \<le> n"
  by (induction n) (simp_all add: le_Suc_eq)

lemma boundary_at_most_boundary: "is_char_boundary v (boundary_at_most v n)"
  by (induction n) (simp_all add: is_char_boundary_def)

lemma boundary_at_most_greatest: "i \<le> n \<Longrightarrow> is_char_boundary v i \<Longrightarrow> i \<le> boundary_at_most v n"
  by (induction n) (auto simp: le_Suc_eq)

lemma length_truncate_utf8: "length (truncate_utf8 v n) \<le> n"
  using boundary_at_most_le [of v n] by (simp add: truncate_utf8_def min_def)

text \<open>The parts of the buffer that stay as \<open>e131_new\<close> wrote them.\<close>

definition e131_static :: "bytes \<Rightarrow> bytes \<Rightarrow> u16 \<Rightarrow> u8 \<Rightarrow> bytes \<Rightarrow> bool" where
  "e131_static name cid universe priority buf \<longleftrightarrow>
     slice 0 2 buf = be16 0x0010 \<and> slice 2 2 buf = be16 0 \<and> slice 4 12 buf = ACN_PACKET_ID \<and>
     slice 18 4 buf = be32 VECTOR_ROOT_E131_DATA \<and> slice 22 16 buf = cid \<and>
     slice 40 4 buf = be32 VECTOR_E131_DATA_PACKET \<and>
     slice 44 64 buf = truncate_utf8 name 63 @ replicate (64 - length (truncate_utf8 name 63)) 0 \<and>
     slice 108 1 buf = [priority] \<and> slice 113 2 buf = be16 universe \<and>
     slice 117 1 buf = [0x02] \<and> slice 118 1 buf = [0xA1] \<and> slice 119 2 buf = be16 0 \<and>
     slice 121 2 buf = be16 1 \<and> slice 125 1 buf = [0]"

definition e131_ok :: "bytes \<Rightarrow> bytes \<Rightarrow> u16 \<Rightarrow> u8 \<Rightarrow> e131_packet \<Rightarrow> bool" where
  "e131_ok name cid universe priority p \<longleftrightarrow>
     length (e131_buf p) = 638 \<and> e131_static name cid universe priority (e131_buf p)"

lemmas slice_simps = slice_copy_at_disjoint slice_copy_at_same slice_update_other slice_update_same

lemma length_ACN [simp]: "length ACN_PACKET_ID = 12"
  by (simp add: ACN_PACKET_ID_def)

lemma e131_static_copy_at:
  assumes "e131_static name cid universe priority buf" "length buf = 638" "j + length src \<le> 638"
    and "(16 \<le> j \<and> j + length src \<le> 18) \<or> (38 \<le> j \<and> j + length src \<le> 40) \<or>
      (109 \<le> j \<and> j + length src \<le> 113) \<or> (115 \<le> j \<and> j + length src \<le> 117) \<or>
      (123 \<le> j \<and> j + length src \<le> 125) \<or> 126 \<le> j"
  shows "e131_static name cid universe priority (copy_at j src buf)"
  using assms(4) assms(1-3)
  by (elim disjE conjE) (simp_all add: e131_static_def slice_copy_at_disjoint)

lemma slice_replicate: "i + n \<le> m \<Longrightarrow> slice i n (replicate m x) = replicate n x"
  by (simp add: slice_def)

text \<open>The name field: what was copied, then the zeros of the fresh buffer.\<close>

lemma slice_name_field:
  assumes "length name \<le> 64" "slice 44 64 buf = replicate 64 0" "108 \<le> length buf"
  shows "slice 44 64 (copy_at 44 name buf) = name @ replicate (64 - length name) 0"
  using assms by (intro slice_copy_at_padded) simp_all

lemma e131_new_ok:
  assumes "length cid = 16"
  shows "e131_ok name cid universe priority (e131_new name cid universe priority)"
proof -
  have len: "length (truncate_utf8 name 63) \<le> 63" by (rule length_truncate_utf8)
  let ?buf0 = "copy_at 40 (be32 VECTOR_E131_DATA_PACKET) (copy_at 22 cid (copy_at 18 (be32 VECTOR_ROOT_E131_DATA)
    (copy_at 4 ACN_PACKET_ID (copy_at 2 (be16 0) (copy_at 0 (be16 0x10) (replicate 638 0))))))"
  have "slice 44 64 ?buf0 = replicate 64 0"
    using assms by (simp add: slice_copy_at_disjoint slice_replicate)
  then have nm: "slice 44 64 (copy_at 44 (truncate_utf8 name 63) ?buf0) =
      truncate_utf8 name 63 @ replicate (64 - length (truncate_utf8 name 63)) 0"
    using len assms by (intro slice_name_field) simp_all
  show ?thesis using assms len nm
    by (simp add: e131_ok_def e131_static_def e131_new_def Let_def E131_MAX_PACKET_SIZE_def
        E131_SOURCE_NAME_MAX_BYTES_def slice_simps)
qed

text \<open>Operations on a packet.\<close>

datatype e131_op =
    SetChannels bytes u8
  | SetSyncAddress u16
  | SetOptions u8
  | SetStreamTerminated bool
  | SetPreviewData bool
  | SetForceSynchronization bool

fun e131_apply :: "e131_packet \<Rightarrow> e131_op \<Rightarrow> e131_packet" where
  "e131_apply p (SetChannels ch seq) = e131_set_channels p ch seq"
| "e131_apply p (SetSyncAddress u) = e131_set_sync_address p u"
| "e131_apply p (SetOptions b) = e131_set_options p b"
| "e131_apply p (SetStreamTerminated b) = e131_set_stream_terminated p b"
| "e131_apply p (SetPreviewData b) = e131_set_preview_data p b"
| "e131_apply p (SetForceSynchronization b) = e131_set_force_synchronization p b"

lemma e131_static_update:
  "e131_static name cid universe priority buf \<Longrightarrow> length buf = 638 \<Longrightarrow> k = 111 \<or> k = 112 \<Longrightarrow>
   e131_static name cid universe priority (buf[k := v])"
  using e131_static_copy_at [of name cid universe priority buf k "[v]"] by (auto simp: list_update_copy_at)

lemma e131_set_channels_ok:
  assumes "e131_ok name cid universe priority p"
  shows "e131_ok name cid universe priority (e131_set_channels p ch seq)"
  using assms
  by (simp add: e131_ok_def e131_set_channels_def Let_def E131_CHANNELS_PER_UNIVERSE_def
      e131_static_copy_at e131_static_update)

lemma e131_apply_ok:
  assumes "e131_ok name cid universe priority p"
  shows "e131_ok name cid universe priority (e131_apply p e)"
proof (cases e)
  case (SetChannels ch seq)
  then show ?thesis using e131_set_channels_ok [OF assms] by simp
qed (use assms in \<open>auto simp: e131_ok_def e131_set_sync_address_def e131_set_options_def
      e131_set_option_bit_def e131_set_stream_terminated_def e131_set_preview_data_def
      e131_set_force_synchronization_def intro: e131_static_copy_at e131_static_update\<close>)

interpretation e131_pkt: invariant_machine e131_apply "e131_ok name cid universe priority"
  for name cid universe priority
  by unfold_locales (rule e131_apply_ok)

text \<open>What \<open>set_channels\<close> writes.\<close>

lemma e131_set_channels_fields:
  fixes ch :: bytes and seq :: u8
  assumes "length (e131_buf p) = 638"
  defines "q \<equiv> e131_set_channels p ch seq" and "n \<equiv> min (length ch) 512"
  shows "length (e131_buf q) = 638" "channel_count q = of_nat n"
    "slice 16 2 (e131_buf q) = be16 (PDU_FLAGS OR of_nat (n + 110))"
    "slice 38 2 (e131_buf q) = be16 (PDU_FLAGS OR of_nat (n + 88))"
    "slice 111 1 (e131_buf q) = [seq]"
    "slice 115 2 (e131_buf q) = be16 (PDU_FLAGS OR of_nat (n + 11))"
    "slice 123 2 (e131_buf q) = be16 (of_nat (n + 1))"
    "slice 126 n (e131_buf q) = take 512 ch"
    "slice 109 2 (e131_buf q) = slice 109 2 (e131_buf p)"
    "slice 112 1 (e131_buf q) = slice 112 1 (e131_buf p)"
  using assms(1)
  by (simp_all add: q_def n_def e131_set_channels_def Let_def E131_CHANNELS_PER_UNIVERSE_def slice_simps min_def)

lemma copy_at_zeros:
  "length a = i \<Longrightarrow> copy_at i src (a @ replicate m 0) = (a @ src) @ replicate (m - length src) 0"
  by (simp add: copy_at_block)

section \<open>Properties\<close>

text \<open>The bytes sent for a frame, after a history of operations on the packet.\<close>

definition e131_sent :: "bytes \<Rightarrow> bytes \<Rightarrow> u16 \<Rightarrow> u8 \<Rightarrow> e131_op list \<Rightarrow> bytes \<Rightarrow> u8 \<Rightarrow> bytes" where
  "e131_sent name cid universe priority history ch seq =
     e131_as_bytes (e131_set_channels (foldl e131_apply (e131_new name cid universe priority) history) ch seq)"

lemma e131_static_take:
  "e131_static name cid universe priority buf \<Longrightarrow> 126 \<le> m \<Longrightarrow> e131_static name cid universe priority (take m buf)"
  by (simp add: e131_static_def slice_take)

text \<open>The bytes of an E1.31 data packet, after any history of reuse and option changes: the
  packet is 126 header bytes and the first 512 channels; the three PDU length fields count
  the bytes from their own position to the end of the packet, with the flags nibble 7; the
  property count is the channel count plus the start code; the sequence number and all fixed
  fields, the source name cut to 63 bytes and padded with zeros included, are in place.\<close>

theorem e131_packet_bytes:
  assumes "length cid = 16" "bs = e131_sent name cid universe priority history ch seq"
  shows "length bs = 126 + min (length ch) 512 \<and> drop 126 bs = take 512 ch \<and>
    slice 16 2 bs = be16 (PDU_FLAGS OR of_nat (length bs - 16)) \<and>
    slice 38 2 bs = be16 (PDU_FLAGS OR of_nat (length bs - 38)) \<and>
    slice 115 2 bs = be16 (PDU_FLAGS OR of_nat (length bs - 115)) \<and>
    slice 123 2 bs = be16 (of_nat (length bs - 125)) \<and>
    slice 111 1 bs = [seq] \<and> e131_static name cid universe priority bs"
proof -
  define p where "p = foldl e131_apply (e131_new name cid universe priority) history"
  define n where "n = min (length ch) 512"
  have ok: "e131_ok name cid universe priority p"
    unfolding p_def by (rule e131_pkt.run_inv [OF e131_new_ok [OF assms(1)]])
  then have l: "length (e131_buf p) = 638" by (simp add: e131_ok_def)
  note w = e131_set_channels_fields [OF l, of ch seq, folded n_def]
  have n: "n \<le> 512" by (simp add: n_def)
  have bs: "bs = take (126 + n) (e131_buf (e131_set_channels p ch seq))"
    using assms(2) n by (simp add: e131_sent_def e131_as_bytes_def p_def [symmetric] w(2) E131_HEADER_SIZE_def unat_of_nat)
  have len: "length bs = 126 + n" using w(1) n by (simp add: bs)
  have st: "e131_static name cid universe priority (e131_buf (e131_set_channels p ch seq))"
    using e131_set_channels_ok [OF ok] by (simp add: e131_ok_def)
  have "drop 126 bs = slice 126 n (e131_buf (e131_set_channels p ch seq))"
    by (simp add: bs slice_def drop_take)
  moreover have "slice i k bs = slice i k (e131_buf (e131_set_channels p ch seq))" if "i + k \<le> 126" for i k
    using that by (simp add: bs slice_take)
  moreover have "e131_static name cid universe priority bs"
    using e131_static_take [OF st, of "126 + n"] by (simp add: bs)
  ultimately show ?thesis
    using w len by (simp add: n_def [symmetric] add.commute)
qed

theorem e131_packet_bytes_witness:
  "slice 16 2 (e131_sent [0x68] (replicate 16 7) 1 100 [SetStreamTerminated True] [1, 2, 3] 9) =
     be16 (PDU_FLAGS OR 113)"
proof -
  have "length (e131_sent [0x68] (replicate 16 7) 1 100 [SetStreamTerminated True] [1, 2, 3] 9) = 129 \<and>
      slice 16 2 (e131_sent [0x68] (replicate 16 7) 1 100 [SetStreamTerminated True] [1, 2, 3] 9) =
      be16 (PDU_FLAGS OR of_nat (length (e131_sent [0x68] (replicate 16 7) 1 100 [SetStreamTerminated True] [1, 2, 3] 9) - 16))"
    using e131_packet_bytes [of "replicate 16 7" _ "[0x68]" 1 100 "[SetStreamTerminated True]" "[1, 2, 3]" 9] by simp
  then show ?thesis by simp
qed

text \<open>The source name is cut on a character boundary: the result is the longest prefix of at
  most the given length that ends on a boundary, and the whole name when it fits.\<close>

theorem truncate_utf8_longest_prefix:
  "(\<exists>rest. name = truncate_utf8 name n @ rest) \<and> length (truncate_utf8 name n) \<le> n \<and>
   is_char_boundary name (length (truncate_utf8 name n)) \<and>
   (\<forall>i. i \<le> n \<and> i \<le> length name \<and> is_char_boundary name i \<longrightarrow> i \<le> length (truncate_utf8 name n))"
proof (cases "length name \<le> n")
  case True
  then show ?thesis by (simp add: truncate_utf8_def is_char_boundary_def)
next
  case False
  then have t: "truncate_utf8 name n = take (boundary_at_most name n) name"
    "length (truncate_utf8 name n) = boundary_at_most name n"
    using boundary_at_most_le [of name n] by (simp_all add: truncate_utf8_def)
  have "name = truncate_utf8 name n @ drop (boundary_at_most name n) name" by (simp add: t(1))
  then show ?thesis
    using boundary_at_most_le [of name n] boundary_at_most_boundary [of name n] boundary_at_most_greatest [of _ n name]
    unfolding t(2) by blast
qed

theorem truncate_utf8_longest_prefix_witness:
  "1 \<le> length (truncate_utf8 [0x61, 0xE2, 0x82, 0xAC, 0x62] 3)"
proof -
  have "is_char_boundary [0x61, 0xE2, 0x82, 0xAC, 0x62] 1" by (simp add: is_char_boundary_def)
  then show ?thesis using truncate_utf8_longest_prefix [of "[0x61, 0xE2, 0x82, 0xAC, 0x62]" 3] by simp
qed

text \<open>A synchronization packet is 49 bytes: preamble, ACN identifier, a root PDU of 33 and a
  framing PDU of 11 bytes, the extended vectors, the sender's CID, sequence number and
  synchronization address, and two reserved zeros.\<close>

theorem e131_sync_bytes:
  assumes "length cid = 16"
  shows "e131_sync_new cid sync_address sequence =
    be16 0x0010 @ be16 0 @ ACN_PACKET_ID @ be16 0x7021 @ be32 8 @ cid @ be16 0x700B @ be32 1 @
    [sequence] @ be16 sync_address @ [0, 0]"
proof -
  have l: "E131_SYNC_PACKET_SIZE - 16 = 33" "E131_SYNC_PACKET_SIZE - 38 = 11"
    by (simp_all add: E131_SYNC_PACKET_SIZE_def)
  have "e131_sync_new cid sync_address sequence =
      copy_at 45 (be16 sync_address) (copy_at 44 [sequence] (copy_at 40 (be32 1) (copy_at 38 (be16 0x700B)
        (copy_at 22 cid (copy_at 18 (be32 8) (copy_at 16 (be16 0x7021) (copy_at 4 ACN_PACKET_ID
          (copy_at 2 (be16 0) (copy_at 0 (be16 0x0010) ([] @ replicate 49 0))))))))))"
    using assms unfolding e131_sync_new_def Let_def l
    by (simp add: list_update_copy_at E131_SYNC_PACKET_SIZE_def PDU_FLAGS_def
        VECTOR_ROOT_E131_EXTENDED_def VECTOR_E131_EXTENDED_SYNCHRONIZATION_def)
  also have "\<dots> = ((((((((((([] @ be16 0x0010) @ be16 0) @ ACN_PACKET_ID) @ be16 0x7021) @ be32 8) @ cid)
      @ be16 0x700B) @ be32 1) @ [sequence]) @ be16 sync_address) @ replicate 2 0)"
    using assms by (simp add: copy_at_zeros del: append_assoc append_Nil)
  finally show ?thesis by (simp add: numeral_2_eq_2)
qed

theorem e131_sync_bytes_witness:
  "length (e131_sync_new (replicate 16 7) 1 9) = 49"
  using e131_sync_bytes [of "replicate 16 7" 1 9] by simp

end
