(* ===== verification/Tinyuz.thy ===== *)
theory Tinyuz
  imports Prelude
begin

text \<open>
  The tinyuz codec of the wireless fan driver
  (\<^verbatim>\<open>hypercolor-hal/src/drivers/lianli/wireless/tinyuz.rs\<close>): the encoder with its bit writer
  and greedy match search, and the decoder with its bit reader and error values.

  \<^verbatim>\<open>usize\<close> is \<open>nat\<close>. The encoder works on lengths and distances of a slice, which Rust keeps
  below \<open>2 ^ 63\<close>, so none of its arithmetic overflows; the decoder accumulates numbers from an
  untrusted stream, and its additions and shifts wrap at \<open>2 ^ 64\<close> as in a release build.
\<close>

definition DICT_SIZE_HEADER_LEN :: nat where "DICT_SIZE_HEADER_LEN = 4"
definition MIN_LITERAL_LINE_LEN :: nat where "MIN_LITERAL_LINE_LEN = 15"
definition MIN_MATCH_LEN :: nat where "MIN_MATCH_LEN = 2"
definition BIG_POS_FOR_LEN :: nat where "BIG_POS_FOR_LEN = 2 ^ 11 + 2 ^ 9 + 2 ^ 7 - 1"
definition CTRL_LITERAL_LINE :: nat where "CTRL_LITERAL_LINE = 1"
definition CTRL_CLIP_END :: nat where "CTRL_CLIP_END = 2"
definition CTRL_STREAM_END :: nat where "CTRL_STREAM_END = 3"
definition MAX_MATCH_LEN :: nat where "MAX_MATCH_LEN = 1024 * 64 - 1"

record tuz_params =
  dict_size :: nat
  literal_lines :: bool

section \<open>The writer\<close>

record code_writer =
  w_code :: bytes
  types_index :: nat
  type_count :: nat
  dict_pos_back :: nat
  have_data_back :: bool
  dict_size_max :: nat
  w_literal_lines :: bool

definition new_writer :: "bool \<Rightarrow> code_writer" where
  "new_writer lines =
     \<lparr>w_code = replicate DICT_SIZE_HEADER_LEN 0, types_index = 0, type_count = 0,
      dict_pos_back = 1, have_data_back = False, dict_size_max = 1, w_literal_lines = lines\<rparr>"

definition out_byte :: "code_writer \<Rightarrow> u8 \<Rightarrow> code_writer" where
  "out_byte w b = w\<lparr>w_code := w_code w @ [b]\<rparr>"

definition out_type :: "code_writer \<Rightarrow> bool \<Rightarrow> code_writer" where
  "out_type w b =
     (let w = (if type_count w = 0
               then w\<lparr>types_index := length (w_code w), w_code := w_code w @ [0]\<rparr> else w);
          w = (if b then w\<lparr>w_code := (w_code w)[types_index w :=
                              w_code w ! types_index w OR push_bit (type_count w) 1]\<rparr> else w);
          n = type_count w + 1
      in w\<lparr>type_count := if n = 8 then 0 else n\<rparr>)"

text \<open>The first loop of \<open>out_len\<close>: the number of groups and the value left after their bias.\<close>

function len_groups :: "nat \<Rightarrow> nat \<Rightarrow> nat \<Rightarrow> nat \<times> nat" where
  "len_groups pack_bits remaining n =
     (if remaining < 2 ^ (n * pack_bits) then (n, remaining)
      else len_groups pack_bits (remaining - 2 ^ (n * pack_bits)) (n + 1))"
  by pat_completeness auto
termination
proof (relation "measure (\<lambda>(_, r, _). r)", goal_cases)
  case (2 p r n)
  then have "0 < r" by (metis gr0I zero_less_numeral zero_less_power)
  then show ?case by simp
qed simp

declare len_groups.simps [simp del]

text \<open>The second loop: groups from the most significant one, value bits then the continue bit.\<close>

fun out_groups :: "code_writer \<Rightarrow> nat \<Rightarrow> nat \<Rightarrow> nat \<Rightarrow> code_writer" where
  "out_groups w pack_bits remaining 0 = w"
| "out_groups w pack_bits remaining (Suc g) =
     (let w = foldl (\<lambda>w bit. out_type w (remaining div 2 ^ (g * pack_bits + bit) mod 2 = 1))
                w [0..<pack_bits];
          w = out_type w (0 < g)
      in out_groups w pack_bits remaining g)"

definition out_len :: "code_writer \<Rightarrow> nat \<Rightarrow> nat \<Rightarrow> code_writer" where
  "out_len w value pack_bits =
     (case len_groups pack_bits value 1 of (n, remaining) \<Rightarrow> out_groups w pack_bits remaining n)"

definition out_dict_pos :: "code_writer \<Rightarrow> nat \<Rightarrow> code_writer" where
  "out_dict_pos w saved_pos =
     (let long = (2 ^ 7 \<le> saved_pos);
          pos = (if long then saved_pos - 2 ^ 7 else saved_pos);
          w = out_byte w (of_nat (pos mod 2 ^ 7) OR (if long then 0x80 else 0))
      in if long then out_len w (pos div 2 ^ 7) 2 else w)"

definition out_ctrl :: "code_writer \<Rightarrow> nat \<Rightarrow> code_writer" where
  "out_ctrl w ctrl =
     (let w = out_type w False;
          w = out_len w ctrl 1;
          w = (if have_data_back w then out_type w False else w)
      in out_dict_pos w 0)"

definition out_literals :: "code_writer \<Rightarrow> bytes \<Rightarrow> code_writer" where
  "out_literals w d =
     (let w = (if w_literal_lines w \<and> MIN_LITERAL_LINE_LEN \<le> length d
               then (let w = out_len (out_ctrl w CTRL_LITERAL_LINE) (length d - MIN_LITERAL_LINE_LEN) 2
                     in w\<lparr>w_code := w_code w @ d\<rparr>)
               else foldl (\<lambda>w b. out_byte (out_type w True) b) w d)
      in w\<lparr>have_data_back := True\<rparr>)"

definition out_dict :: "code_writer \<Rightarrow> nat \<Rightarrow> nat \<Rightarrow> code_writer" where
  "out_dict w match_len distance =
     (let w = out_type w False;
          w = w\<lparr>dict_size_max := max (dict_size_max w) distance\<rparr>;
          same_pos = (dict_pos_back w = distance);
          saved_same_pos = (same_pos \<and> have_data_back w);
          len = match_len - MIN_MATCH_LEN;
          len = (if \<not> saved_same_pos \<and> BIG_POS_FOR_LEN < distance then len - 1 else len);
          w = out_len w len 1;
          w = (if have_data_back w then out_type w saved_same_pos else w);
          w = (if \<not> saved_same_pos then out_dict_pos w distance else w)
      in w\<lparr>have_data_back := False, dict_pos_back := distance\<rparr>)"

text \<open>\<^verbatim>\<open>u32::try_from\<close> with the saturating fallback, and the header written over the placeholder.\<close>

definition finish :: "code_writer \<Rightarrow> bytes" where
  "finish w =
     (let w = out_ctrl w CTRL_STREAM_END;
          header = (if dict_size_max w < 2 ^ 32 then of_nat (dict_size_max w) else - 1)
      in copy_at 0 (le32 header) (w_code w))"

section \<open>The match search\<close>

fun match_len_from :: "bytes \<Rightarrow> nat \<Rightarrow> nat \<Rightarrow> nat \<Rightarrow> nat" where
  "match_len_from input start cursor 0 = 0"
| "match_len_from input start cursor (Suc max_len) =
     (if input ! start = input ! cursor
      then Suc (match_len_from input (Suc start) (Suc cursor) max_len) else 0)"

definition match_len_at :: "bytes \<Rightarrow> nat \<Rightarrow> nat \<Rightarrow> nat \<Rightarrow> nat" where
  "match_len_at input cursor max_len distance = match_len_from input (cursor - distance) cursor max_len"

text \<open>The loop over the distances, with its early exit on a match of maximal length.\<close>

fun scan_distances ::
    "bytes \<Rightarrow> nat \<Rightarrow> nat \<Rightarrow> nat list \<Rightarrow> (nat \<times> nat) option \<Rightarrow> (nat \<times> nat) option" where
  "scan_distances input cursor max_len [] best = best"
| "scan_distances input cursor max_len (distance # ds) best =
     (let len = match_len_at input cursor max_len distance;
          min_len = (if BIG_POS_FOR_LEN < distance then MIN_MATCH_LEN + 1 else MIN_MATCH_LEN)
      in if min_len \<le> len \<and> (case best of None \<Rightarrow> True | Some (best_len, _) \<Rightarrow> best_len < len)
         then (if len = max_len then Some (len, distance)
               else scan_distances input cursor max_len ds (Some (len, distance)))
         else scan_distances input cursor max_len ds best)"

definition best_match ::
    "bytes \<Rightarrow> nat \<Rightarrow> nat \<Rightarrow> nat \<Rightarrow> bool \<Rightarrow> (nat \<times> nat) option" where
  "best_match input cursor window repeat_distance data_back =
     (let max_len = min (length input - cursor) MAX_MATCH_LEN
      in if max_len < MIN_MATCH_LEN then None
         else
           (let max_distance = min cursor window;
                best = scan_distances input cursor max_len [1..<Suc max_distance] None;
                len = match_len_at input cursor max_len repeat_distance;
                min_len = (if \<not> data_back \<and> BIG_POS_FOR_LEN < repeat_distance
                           then MIN_MATCH_LEN + 1 else MIN_MATCH_LEN)
            in if 1 \<le> repeat_distance \<and> repeat_distance \<le> max_distance \<and> min_len \<le> len \<and>
                  (case best of None \<Rightarrow> True | Some (best_len, _) \<Rightarrow> best_len \<le> len + 1)
               then Some (len, repeat_distance) else best))"

lemma scan_distances_min:
  "scan_distances input cursor max_len ds best = Some (len, d) \<Longrightarrow>
   (\<And>l e. best = Some (l, e) \<Longrightarrow> 2 \<le> l) \<Longrightarrow> 2 \<le> len"
  by (induction input cursor max_len ds best rule: scan_distances.induct)
    (auto simp: Let_def MIN_MATCH_LEN_def split: if_splits option.splits)

lemma best_match_min: "best_match input cursor window rd hb = Some (len, d) \<Longrightarrow> 2 \<le> len"
  using scan_distances_min
  by (fastforce simp: best_match_def Let_def MIN_MATCH_LEN_def split: if_splits option.splits)

section \<open>Compression\<close>

text \<open>The main loop: \<open>literal_start\<close> is where the pending literals begin.\<close>

function compress_loop :: "bytes \<Rightarrow> nat \<Rightarrow> code_writer \<Rightarrow> nat \<Rightarrow> nat \<Rightarrow> code_writer \<times> nat" where
  "compress_loop input window w literal_start cursor =
     (if cursor < length input
      then (case best_match input cursor window (dict_pos_back w) (have_data_back w) of
              Some (len, distance) \<Rightarrow>
                (let w = (if literal_start < cursor
                          then out_literals w (slice literal_start (cursor - literal_start) input) else w)
                 in compress_loop input window (out_dict w len distance) (cursor + len) (cursor + len))
            | None \<Rightarrow> compress_loop input window w literal_start (cursor + 1))
      else (w, literal_start))"
  by pat_completeness auto
termination
  by (relation "measure (\<lambda>(input, _, _, _, cursor). length input - cursor)")
    (auto dest: best_match_min)

declare compress_loop.simps [simp del]

definition compress :: "bytes \<Rightarrow> tuz_params \<Rightarrow> bytes" where
  "compress input params =
     (let window = max (dict_size params) 1;
          (w, literal_start) = compress_loop input window (new_writer (literal_lines params)) 0 0;
          w = (if literal_start < length input then out_literals w (drop literal_start input) else w)
      in finish w)"

section \<open>The reader\<close>

datatype decode_error = Truncated | BadDistance | UnknownControl nat | OutputTooLarge nat

record code_reader =
  r_code :: bytes
  r_at :: nat
  r_types :: nat
  r_type_count :: nat

definition read_byte :: "code_reader \<Rightarrow> decode_error + (u8 \<times> code_reader)" where
  "read_byte r =
     (if r_at r < length (r_code r) then Inr (r_code r ! r_at r, r\<lparr>r_at := r_at r + 1\<rparr>) else Inl Truncated)"

definition read_lowbits :: "code_reader \<Rightarrow> nat \<Rightarrow> decode_error + (nat \<times> code_reader)" where
  "read_lowbits r bit_count =
     (let n = r_type_count r; result = r_types r
      in if bit_count \<le> n
         then Inr (result, r\<lparr>r_type_count := n - bit_count, r_types := result div 2 ^ bit_count\<rparr>)
         else case read_byte r of
                Inl e \<Rightarrow> Inl e
              | Inr (b, r) \<Rightarrow>
                  (let fresh = unat b; needed = bit_count - n
                   in Inr (result OR (fresh * 2 ^ n),
                           r\<lparr>r_type_count := 8 - needed, r_types := fresh div 2 ^ needed\<rparr>)))"

definition read_bit :: "code_reader \<Rightarrow> decode_error + (bool \<times> code_reader)" where
  "read_bit r = (case read_lowbits r 1 of Inl e \<Rightarrow> Inl e | Inr (v, r) \<Rightarrow> Inr (v mod 2 = 1, r))"

text \<open>The bits a reader has left; every read consumes some.\<close>

definition bits_left :: "code_reader \<Rightarrow> nat" where
  "bits_left r = (length (r_code r) - r_at r) * 8 + r_type_count r"

lemma read_byte_progress: "read_byte r = Inr (b, r') \<Longrightarrow> bits_left r' < bits_left r"
  by (auto simp: read_byte_def bits_left_def split: if_splits)

lemma read_lowbits_progress: "read_lowbits r n = Inr (v, r') \<Longrightarrow> 0 < n \<Longrightarrow> bits_left r' < bits_left r"
  by (auto simp: read_lowbits_def read_byte_def bits_left_def Let_def split: if_splits)

lemma read_bit_progress: "read_bit r = Inr (b, r') \<Longrightarrow> bits_left r' < bits_left r"
  using read_lowbits_progress by (fastforce simp: read_bit_def split: sum.splits)

function unpack_len_from :: "code_reader \<Rightarrow> nat \<Rightarrow> nat \<Rightarrow> decode_error + (nat \<times> code_reader)" where
  "unpack_len_from r pack_bits value =
     (case read_lowbits r (pack_bits + 1) of
        Inl e \<Rightarrow> Inl e
      | Inr (bits, r) \<Rightarrow>
          (let value = (value * 2 ^ pack_bits mod 2 ^ 64 + bits mod 2 ^ pack_bits) mod 2 ^ 64
           in if bits div 2 ^ pack_bits mod 2 = 0 then Inr (value, r)
              else unpack_len_from r pack_bits ((value + 1) mod 2 ^ 64)))"
  by pat_completeness auto
termination
  by (relation "measure (\<lambda>(r, _, _). bits_left r)") (auto dest: read_lowbits_progress)

declare unpack_len_from.simps [simp del]

definition unpack_len :: "code_reader \<Rightarrow> nat \<Rightarrow> decode_error + (nat \<times> code_reader)" where
  "unpack_len r pack_bits = unpack_len_from r pack_bits 0"

definition unpack_dict_pos :: "code_reader \<Rightarrow> decode_error + (nat \<times> code_reader)" where
  "unpack_dict_pos r =
     (case read_byte r of
        Inl e \<Rightarrow> Inl e
      | Inr (b, r) \<Rightarrow>
          if unat b < 2 ^ 7 then Inr (unat b, r)
          else case unpack_len r 2 of
                 Inl e \<Rightarrow> Inl e
               | Inr (v, r) \<Rightarrow> Inr ((((unat b mod 2 ^ 7) OR (v * 2 ^ 7 mod 2 ^ 64)) + 2 ^ 7) mod 2 ^ 64, r))"

lemma unpack_len_from_progress: "unpack_len_from r p v = Inr (x, r') \<Longrightarrow> bits_left r' < bits_left r"
proof (induction r p v rule: unpack_len_from.induct)
  case (1 r p v)
  from "1.prems" obtain bits r1 where rd: "read_lowbits r (p + 1) = Inr (bits, r1)"
    by (auto simp: unpack_len_from.simps [of r p v] split: sum.splits)
  then have lt: "bits_left r1 < bits_left r" using read_lowbits_progress by fastforce
  show ?case
  proof (cases "bits div 2 ^ p mod 2 = 0")
    case True
    then show ?thesis using "1.prems" rd lt by (auto simp: unpack_len_from.simps [of r p v] Let_def)
  next
    case False
    then show ?thesis using "1.IH" [OF rd refl refl False] "1.prems" rd lt
      by (auto simp: unpack_len_from.simps [of r p v] Let_def)
  qed
qed

lemma unpack_len_progress: "unpack_len r p = Inr (v, r') \<Longrightarrow> bits_left r' < bits_left r"
  unfolding unpack_len_def by (rule unpack_len_from_progress)

lemma unpack_dict_pos_progress: "unpack_dict_pos r = Inr (v, r') \<Longrightarrow> bits_left r' < bits_left r"
  using read_byte_progress unpack_len_progress
  by (fastforce simp: unpack_dict_pos_def split: sum.splits prod.splits if_splits)

section \<open>Decompression\<close>

text \<open>\<^verbatim>\<open>out.push(out[start + i])\<close> for \<open>i\<close> in \<open>0..len\<close>: the source range may run into the bytes just written.\<close>

primrec copy_match :: "bytes \<Rightarrow> nat \<Rightarrow> nat \<Rightarrow> bytes" where
  "copy_match out start 0 = out"
| "copy_match out start (Suc n) = copy_match (out @ [out ! start]) (Suc start) n"

text \<open>The reference part of one item: length, then the repeated or a new position.\<close>

definition read_reference ::
    "code_reader \<Rightarrow> nat \<Rightarrow> bool \<Rightarrow> decode_error + (nat \<times> nat \<times> code_reader)" where
  "read_reference r pos_back data_back =
     (case unpack_len r 1 of
        Inl e \<Rightarrow> Inl e
      | Inr (saved_len, r) \<Rightarrow>
          (case (if data_back then read_bit r else Inr (False, r)) of
             Inl e \<Rightarrow> Inl e
           | Inr (same, r) \<Rightarrow>
               if same then Inr (saved_len, pos_back, r)
               else (case unpack_dict_pos r of
                       Inl e \<Rightarrow> Inl e
                     | Inr (pos, r) \<Rightarrow>
                         Inr (if BIG_POS_FOR_LEN < pos then (saved_len + 1) mod 2 ^ 64 else saved_len, pos, r))))"

definition read_line :: "code_reader \<Rightarrow> decode_error + (bytes \<times> code_reader)" where
  "read_line r =
     (case unpack_len r 2 of
        Inl e \<Rightarrow> Inl e
      | Inr (v, r) \<Rightarrow>
          (let len = (v + MIN_LITERAL_LINE_LEN) mod 2 ^ 64
           in if r_at r + len < 2 ^ 64 \<and> r_at r + len \<le> length (r_code r)
              then Inr (slice (r_at r) len (r_code r), r\<lparr>r_at := r_at r + len\<rparr>)
              else Inl Truncated))"

lemma read_reference_progress:
  "read_reference r pb db = Inr (l, p, r') \<Longrightarrow> bits_left r' < bits_left r"
  using unpack_len_progress read_bit_progress unpack_dict_pos_progress
  by (fastforce simp: read_reference_def split: sum.splits prod.splits if_splits)

lemma read_line_progress: "read_line r = Inr (bs, r') \<Longrightarrow> bits_left r' < bits_left r"
proof -
  assume "read_line r = Inr (bs, r')"
  then obtain v r1 len where "unpack_len r 2 = Inr (v, r1)" "r' = r1\<lparr>r_at := r_at r1 + len\<rparr>"
    by (auto simp: read_line_def Let_def split: sum.splits if_splits)
  then have "bits_left r1 < bits_left r" "bits_left r' \<le> bits_left r1"
    using unpack_len_progress by (auto simp: bits_left_def diff_le_mono2)
  then show ?thesis by simp
qed

function decompress_loop ::
    "nat \<Rightarrow> code_reader \<Rightarrow> bytes \<Rightarrow> nat \<Rightarrow> bool \<Rightarrow> decode_error + bytes" where
  "decompress_loop max_out r out pos_back data_back =
     (case read_bit r of
        Inl e \<Rightarrow> Inl e
      | Inr (literal, r1) \<Rightarrow>
          if literal
          then (if max_out \<le> length out then Inl (OutputTooLarge max_out)
                else case read_byte r1 of
                       Inl e \<Rightarrow> Inl e
                     | Inr (b, r2) \<Rightarrow> decompress_loop max_out r2 (out @ [b]) pos_back True)
          else
            (case read_reference r1 pos_back data_back of
               Inl e \<Rightarrow> Inl e
             | Inr (saved_len, saved_pos, r2) \<Rightarrow>
                 if saved_pos \<noteq> 0
                 then (let len = (saved_len + MIN_MATCH_LEN) mod 2 ^ 64
                       in if length out < saved_pos then Inl BadDistance
                          else if max_out < (length out + len) mod 2 ^ 64 then Inl (OutputTooLarge max_out)
                          else decompress_loop max_out r2 (copy_match out (length out - saved_pos) len)
                                 saved_pos False)
                 else if saved_len = CTRL_LITERAL_LINE
                 then (case read_line r2 of
                         Inl e \<Rightarrow> Inl e
                       | Inr (bs, r3) \<Rightarrow>
                           if max_out < length out + length bs then Inl (OutputTooLarge max_out)
                           else decompress_loop max_out r3 (out @ bs) pos_back True)
                 else if saved_len = CTRL_CLIP_END
                 then decompress_loop max_out (r2\<lparr>r_type_count := 0\<rparr>) out 1 False
                 else if saved_len = CTRL_STREAM_END then Inr out
                 else Inl (UnknownControl saved_len)))"
  by pat_completeness auto
termination
proof (relation "measure (\<lambda>(_, r, _). bits_left r)", goal_cases)
  case (2 max_out r out pos_back data_back x literal r1 y b r2)
  then show ?case by (auto dest!: read_bit_progress read_byte_progress)
next
  case (3 max_out r out pos_back data_back x literal r1 y saved_len z saved_pos r2 len)
  then show ?case by (auto dest!: read_bit_progress read_reference_progress)
next
  case (4 max_out r out pos_back data_back x literal r1 y saved_len z saved_pos r2 w bs r3)
  then show ?case by (auto dest!: read_bit_progress read_reference_progress read_line_progress)
next
  case (5 max_out r out pos_back data_back x literal r1 y saved_len z saved_pos r2)
  then have "bits_left (r2\<lparr>r_type_count := 0\<rparr>) \<le> bits_left r2" by (simp add: bits_left_def)
  then show ?case using 5 by (auto dest!: read_bit_progress read_reference_progress)
qed simp

declare decompress_loop.simps [simp del]

definition decompress :: "bytes \<Rightarrow> nat \<Rightarrow> decode_error + bytes" where
  "decompress code max_out =
     (if length code < DICT_SIZE_HEADER_LEN then Inl Truncated
      else decompress_loop max_out
             \<lparr>r_code = code, r_at = DICT_SIZE_HEADER_LEN, r_types = 0, r_type_count = 0\<rparr> [] 1 False)"

definition declared_dict_size :: "bytes \<Rightarrow> u32 option" where
  "declared_dict_size code =
     (if 4 \<le> length code then Some (from_le32 (code ! 0) (code ! 1) (code ! 2) (code ! 3)) else None)"

end
