(* ===== verification/Tinyuz_Stream.thy ===== *)
theory Tinyuz_Stream
  imports Tinyuz
begin

text \<open>
  The bit stream of the tinyuz codec: a reader that has consumed what a writer has written is
  in step with it, and each read operation undoes the write operation of the same name. The
  encoder patches the open type byte in place, so the relation is stated against the finished
  stream \<open>F\<close>, of which the writer's bytes are an earlier version.
\<close>

section \<open>Writer and reader in step\<close>

text \<open>The open type byte holds only the bits written so far.\<close>

definition wok :: "code_writer \<Rightarrow> bool" where
  "wok w \<longleftrightarrow> type_count w < 8 \<and> 4 \<le> length (w_code w) \<and>
     (type_count w \<noteq> 0 \<longrightarrow> 4 \<le> types_index w \<and> types_index w < length (w_code w) \<and>
        unat (w_code w ! types_index w) < 2 ^ type_count w)"

text \<open>\<open>F\<close> is a later version of the stream of \<open>w\<close>: bytes are appended, and the open type byte
  gains bits above those already written. The four header bytes are rewritten at the end.\<close>

definition ext :: "code_writer \<Rightarrow> bytes \<Rightarrow> bool" where
  "ext w F \<longleftrightarrow> length (w_code w) \<le> length F \<and>
     (\<forall>k. 4 \<le> k \<and> k < length (w_code w) \<and> (type_count w = 0 \<or> k \<noteq> types_index w) \<longrightarrow> F ! k = w_code w ! k) \<and>
     (type_count w \<noteq> 0 \<longrightarrow>
        unat (F ! types_index w) mod 2 ^ type_count w = unat (w_code w ! types_index w))"

text \<open>A reader of \<open>F\<close> that has consumed exactly what \<open>w\<close> has written.\<close>

definition synced :: "bytes \<Rightarrow> code_writer \<Rightarrow> code_reader \<Rightarrow> bool" where
  "synced F w r \<longleftrightarrow> r_code r = F \<and> r_at r = length (w_code w) \<and>
     (if type_count w = 0 then r_type_count r = 0 \<and> r_types r = 0
      else r_type_count r = 8 - type_count w \<and>
           r_types r = unat (F ! types_index w) div 2 ^ type_count w)"

lemma or_disjoint_add: "x < 2 ^ n \<Longrightarrow> x OR (y * 2 ^ n) = x + y * 2 ^ n" for x y :: nat
proof -
  assume x: "x < 2 ^ n"
  have "x AND (y * 2 ^ n) = 0"
  proof (rule bit_eqI)
    fix k
    have "bit x k \<Longrightarrow> k < n"
      using x by (metis bit_take_bit_iff take_bit_nat_eq_self)
    then show "bit (x AND (y * 2 ^ n)) k = bit 0 k"
      by (auto simp: bit_simps push_bit_eq_mult [symmetric])
  qed
  then show ?thesis by (simp add: disjunctive_add_eq_or)
qed

lemma unat_or_bit:
  fixes x :: u8
  assumes "c < 8" "unat x < 2 ^ c"
  shows "unat (x OR push_bit c 1) = unat x + 2 ^ c"
proof -
  have "unat (x OR push_bit c 1) = unat x OR unat (push_bit c 1 :: u8)" by (simp add: unsigned_or_eq)
  also have "unat (push_bit c 1 :: u8) = 1 * 2 ^ c"
  proof -
    have "(2 :: nat) ^ c < 2 ^ 8" using assms(1) by (intro power_strict_increasing) simp_all
    moreover have "(push_bit c 1 :: u8) = of_nat (2 ^ c)" by (simp add: push_bit_eq_mult)
    ultimately show ?thesis by (simp add: unat_of_nat del: of_nat_power)
  qed
  finally show ?thesis using or_disjoint_add [OF assms(2), of 1] by simp
qed

lemma out_type_fields [simp]:
  "dict_pos_back (out_type w b) = dict_pos_back w" "have_data_back (out_type w b) = have_data_back w"
  "w_literal_lines (out_type w b) = w_literal_lines w"
  by (simp_all add: out_type_def Let_def)

text \<open>The two cases of \<open>out_type\<close>.\<close>

lemma out_type_fresh:
  assumes "type_count w = 0"
  shows "w_code (out_type w b) = w_code w @ [if b then 1 else 0]"
    "types_index (out_type w b) = length (w_code w)" "type_count (out_type w b) = 1"
  using assms by (simp_all add: out_type_def Let_def)

lemma out_type_open:
  assumes "type_count w \<noteq> 0"
  shows "w_code (out_type w b) = (if b then (w_code w)[types_index w := w_code w ! types_index w OR push_bit (type_count w) 1]
      else w_code w)"
    "types_index (out_type w b) = types_index w"
    "type_count (out_type w b) = (if type_count w = 7 then 0 else Suc (type_count w))"
  using assms by (simp_all add: out_type_def Let_def)

lemma out_type_open_byte:
  assumes "wok w" "type_count w \<noteq> 0"
  shows "unat (w_code (out_type w b) ! types_index w) =
    unat (w_code w ! types_index w) + of_bool b * 2 ^ type_count w"
  using assms out_type_open(1) [OF assms(2), of b] unat_or_bit [of "type_count w" "w_code w ! types_index w"]
  by (auto simp: wok_def)

lemma wok_out_type: "wok w \<Longrightarrow> wok (out_type w b)"
proof (cases "type_count w = 0")
  case True
  then show "wok w \<Longrightarrow> ?thesis" by (auto simp: wok_def out_type_fresh)
next
  case False
  assume w: "wok w"
  have "unat (w_code w ! types_index w) + of_bool b * 2 ^ type_count w < 2 ^ Suc (type_count w)"
    using w False by (auto simp: wok_def)
  then show ?thesis
    using w False out_type_open_byte [OF w False, of b] out_type_open [OF False, of b]
    by (auto simp: wok_def)
qed

lemma ext_open_bits:
  assumes "wok w" "type_count w \<noteq> 0" "ext (out_type w b) F"
  shows "unat (F ! types_index w) mod 2 ^ Suc (type_count w) =
    unat (w_code w ! types_index w) + of_bool b * 2 ^ type_count w"
proof (cases "type_count w = 7")
  case True
  have len: "length (w_code (out_type w b)) = length (w_code w)" using out_type_open(1) [OF assms(2), of b] by simp
  have "4 \<le> types_index w" "types_index w < length (w_code w)" using assms(1,2) by (simp_all add: wok_def)
  then have "F ! types_index w = w_code (out_type w b) ! types_index w"
    using assms(2,3) True len by (auto simp: ext_def out_type_open)
  moreover have "unat (F ! types_index w) < 2 ^ Suc (type_count w)"
    using True unsigned_less [of "F ! types_index w", where ?'a = nat] by simp
  ultimately show ?thesis using out_type_open_byte [OF assms(1,2), of b] by simp
next
  case False
  then show ?thesis
    using assms(3) out_type_open_byte [OF assms(1,2), of b] by (auto simp: ext_def out_type_open [OF assms(2)])
qed

lemma ext_out_type:
  assumes "wok w" "ext (out_type w b) F"
  shows "ext w F"
proof (cases "type_count w = 0")
  case True
  then show ?thesis using assms(2) by (auto simp: ext_def out_type_fresh nth_append)
next
  case False
  let ?c = "type_count w" and ?i = "types_index w"
  have len: "length (w_code (out_type w b)) = length (w_code w)" using out_type_open(1) [OF False, of b] by simp
  have i: "4 \<le> ?i" "?i < length (w_code w)" "unat (w_code w ! ?i) < 2 ^ ?c" "?c < 8"
    using assms(1) False by (simp_all add: wok_def)
  have same: "w_code (out_type w b) ! k = w_code w ! k" if "k \<noteq> ?i" for k
    using that out_type_open(1) [OF False, of b] by simp
  have "unat (F ! ?i) mod 2 ^ Suc ?c = unat (w_code w ! ?i) + of_bool b * 2 ^ ?c"
    by (rule ext_open_bits [OF assms(1) False assms(2)])
  then have "unat (F ! ?i) mod 2 ^ ?c = (unat (w_code w ! ?i) + of_bool b * 2 ^ ?c) mod 2 ^ ?c"
    by (metis mod_mod_cancel le_imp_power_dvd lessI less_imp_le)
  then have "unat (F ! ?i) mod 2 ^ ?c = unat (w_code w ! ?i)" using i(3) by simp
  moreover have "F ! k = w_code w ! k" if "4 \<le> k" "k < length (w_code w)" "k \<noteq> ?i" for k
    using assms(2) that len same [OF that(3)] by (auto simp: ext_def out_type_open [OF False] split: if_splits)
  ultimately show ?thesis using assms(2) len False by (simp add: ext_def)
qed

lemma read_bit_synced:
  assumes "wok w" "synced F w r" "ext (out_type w b) F"
  shows "\<exists>v r'. read_lowbits r 1 = Inr (v, r') \<and> v mod 2 = of_bool b \<and> synced F (out_type w b) r'"
proof (cases "type_count w = 0")
  case True
  let ?i = "length (w_code w)"
  have r: "r_code r = F" "r_at r = ?i" "r_type_count r = 0" "r_types r = 0" "?i < length F"
    "unat (F ! ?i) mod 2 = of_bool b"
    using assms True by (auto simp: synced_def ext_def out_type_fresh split: if_splits)
  then show ?thesis using True
    by (simp add: read_lowbits_def read_byte_def synced_def out_type_fresh Let_def)
next
  case False
  let ?c = "type_count w" and ?i = "types_index w"
  have len: "length (w_code (out_type w b)) = length (w_code w)" using out_type_open(1) [OF False, of b] by simp
  have c: "?c < 8" "4 \<le> ?i" "?i < length (w_code w)" "unat (w_code w ! ?i) < 2 ^ ?c"
    using assms(1) False by (simp_all add: wok_def)
  have r: "r_code r = F" "r_at r = length (w_code w)" "r_type_count r = 8 - ?c" "r_types r = unat (F ! ?i) div 2 ^ ?c"
    using assms(2) False by (simp_all add: synced_def)
  have F: "unat (F ! ?i) < 256" using unsigned_less [of "F ! ?i", where ?'a = nat] by simp
  have low: "unat (F ! ?i) mod 2 ^ Suc ?c = unat (w_code w ! ?i) + of_bool b * 2 ^ ?c"
    by (rule ext_open_bits [OF assms(1) False assms(3)])
  have "unat (F ! ?i) div 2 ^ ?c mod 2 = unat (F ! ?i) mod 2 ^ Suc ?c div 2 ^ ?c"
    by (simp only: power_Suc mult.commute [of 2] mod_mult2_eq div_add_self2) simp
  also have "\<dots> = of_bool b" using low c(4) by simp
  finally have v: "r_types r mod 2 = of_bool b" using r(4) by simp
  have rd: "read_lowbits r 1 = Inr (r_types r, r\<lparr>r_type_count := 7 - ?c, r_types := r_types r div 2\<rparr>)"
  proof -
    have "1 \<le> r_type_count r" "r_type_count r - 1 = 7 - ?c" using r(3) c(1) by simp_all
    then show ?thesis by (simp add: read_lowbits_def Let_def)
  qed
  have div_comm: "x div 2 ^ ?c div 2 = x div 2 div 2 ^ ?c" for x :: nat
    by (metis div_mult2_eq mult.commute)
  have "synced F (out_type w b) (r\<lparr>r_type_count := 7 - ?c, r_types := r_types r div 2\<rparr>)"
    using r c(1) F len False div_comm [of "unat (F ! ?i)"]
    by (auto simp: synced_def out_type_open div_mult2_eq)
  then show ?thesis using rd v by blast
qed


text \<open>Raw bytes.\<close>

definition out_bytes :: "code_writer \<Rightarrow> bytes \<Rightarrow> code_writer" where
  "out_bytes w d = w\<lparr>w_code := w_code w @ d\<rparr>"

lemma out_byte_bytes: "out_byte w x = out_bytes w [x]"
  by (simp add: out_byte_def out_bytes_def)

lemma out_bytes_fields [simp]:
  "dict_pos_back (out_bytes w d) = dict_pos_back w" "have_data_back (out_bytes w d) = have_data_back w"
  "w_literal_lines (out_bytes w d) = w_literal_lines w" "type_count (out_bytes w d) = type_count w"
  "types_index (out_bytes w d) = types_index w" "w_code (out_bytes w d) = w_code w @ d"
  by (simp_all add: out_bytes_def)

lemma wok_out_bytes: "wok w \<Longrightarrow> wok (out_bytes w d)"
  by (auto simp: wok_def nth_append)

lemma ext_out_bytes: "wok w \<Longrightarrow> ext (out_bytes w d) F \<Longrightarrow> ext w F"
  by (auto simp: wok_def ext_def nth_append)

lemma synced_out_bytes:
  assumes "wok w" "synced F w r" "ext (out_bytes w d) F"
  shows "slice (r_at r) (length d) F = d" "r_at r + length d \<le> length F" "r_code r = F"
    "synced F (out_bytes w d) (r\<lparr>r_at := r_at r + length d\<rparr>)"
proof -
  have r: "r_code r = F" "r_at r = length (w_code w)" using assms(2) by (simp_all add: synced_def)
  have len: "length (w_code w) + length d \<le> length F" using assms(3) by (simp add: ext_def)
  have at: "F ! (length (w_code w) + k) = d ! k" if "k < length d" for k
    using assms(1,3) that by (auto simp: ext_def wok_def nth_append)
  show "slice (r_at r) (length d) F = d"
    using at len r(2) by (intro nth_equalityI) (simp_all add: slice_def)
  show "r_at r + length d \<le> length F" "r_code r = F" using len r by simp_all
  show "synced F (out_bytes w d) (r\<lparr>r_at := r_at r + length d\<rparr>)"
    using assms(2) by (auto simp: synced_def)
qed

lemma read_byte_synced:
  assumes "wok w" "synced F w r" "ext (out_byte w x) F"
  shows "read_byte r = Inr (x, r\<lparr>r_at := r_at r + 1\<rparr>) \<and> synced F (out_byte w x) (r\<lparr>r_at := r_at r + 1\<rparr>)"
proof -
  note b = synced_out_bytes [OF assms(1,2), of "[x]"]
  have e: "ext (out_bytes w [x]) F" using assms(3) by (simp add: out_byte_bytes)
  have "F ! r_at r = x" using b(1,2) [OF e] by (simp add: slice_def take_Suc hd_drop_conv_nth)
  then show ?thesis using b(2-4) [OF e] by (simp add: read_byte_def out_byte_bytes)
qed

section \<open>Groups of bits\<close>

lemma synced_types_bound: "wok w \<Longrightarrow> synced F w r \<Longrightarrow> r_types r < 2 ^ r_type_count r \<and> r_type_count r < 8"
proof (cases "type_count w = 0")
  case False
  assume "wok w" "synced F w r"
  then have c: "type_count w < 8" "r_type_count r = 8 - type_count w"
      "r_types r = unat (F ! types_index w) div 2 ^ type_count w"
    using False by (simp_all add: wok_def synced_def)
  have "unat (F ! types_index w) < 2 ^ 8" using unsigned_less [of "F ! types_index w", where ?'a = nat] by simp
  also have "(2::nat) ^ 8 = 2 ^ (8 - type_count w) * 2 ^ type_count w" using c(1) by (simp flip: power_add)
  finally show ?thesis using c False by (simp add: less_mult_imp_div_less)
qed (simp add: synced_def)

text \<open>Reading \<open>n + 1\<close> bits at once is reading one bit and then \<open>n\<close>.\<close>

lemma read_lowbits_split:
  assumes "r_types r < 2 ^ r_type_count r" "0 < n" "n < 8"
    and "read_lowbits r 1 = Inr (v1, r1)" "read_lowbits r1 n = Inr (v2, r2)"
  shows "\<exists>v. read_lowbits r (Suc n) = Inr (v, r2) \<and> v mod 2 ^ Suc n = v1 mod 2 + 2 * (v2 mod 2 ^ n)"
proof -
  have split: "m mod 2 ^ Suc n = m mod 2 + 2 * (m div 2 mod 2 ^ n)" for m :: nat
    by (simp add: mod_mult2_eq)
  show ?thesis
  proof (cases "r_type_count r")
    case 0
    then have t: "r_types r = 0" using assms(1) by simp
    let ?b = "r_code r ! r_at r"
    have at: "r_at r < length (r_code r)"
      using assms(4) 0 by (auto simp: read_lowbits_def read_byte_def split: if_splits)
    have r1: "v1 = unat ?b" "r1 = r\<lparr>r_at := r_at r + 1, r_type_count := 7, r_types := unat ?b div 2\<rparr>"
      using assms(4) 0 t at by (auto simp: read_lowbits_def read_byte_def Let_def)
    have r2: "v2 = unat ?b div 2" "r2 = r\<lparr>r_at := r_at r + 1, r_type_count := 7 - n, r_types := unat ?b div 2 div 2 ^ n\<rparr>"
      using assms(3,5) by (auto simp: r1 read_lowbits_def Let_def)
    have "read_lowbits r (Suc n) = Inr (unat ?b, r2)"
      using 0 t at by (simp add: read_lowbits_def read_byte_def Let_def r2 div_mult2_eq)
    then show ?thesis using split [of "unat ?b"] r1(1) r2(1) by simp
  next
    case (Suc c)
    have r1: "v1 = r_types r" "r1 = r\<lparr>r_type_count := c, r_types := r_types r div 2\<rparr>"
      using assms(4) Suc by (auto simp: read_lowbits_def Let_def)
    show ?thesis
    proof (cases "n \<le> c")
      case True
      have "v2 = r_types r div 2" "r2 = r\<lparr>r_type_count := c - n, r_types := r_types r div 2 div 2 ^ n\<rparr>"
        using assms(5) True by (auto simp: r1 read_lowbits_def Let_def)
      moreover have "read_lowbits r (Suc n) =
          Inr (r_types r, r\<lparr>r_type_count := c - n, r_types := r_types r div 2 div 2 ^ n\<rparr>)"
        using True Suc by (simp add: read_lowbits_def Let_def div_mult2_eq)
      ultimately show ?thesis using split [of "r_types r"] r1(1) by simp
    next
      case False
      let ?b = "r_code r ! r_at r"
      have at: "r_at r < length (r_code r)"
        using assms(5) False by (auto simp: r1 read_lowbits_def read_byte_def Let_def split: if_splits)
      have lt: "r_types r < 2 ^ Suc c" "r_types r div 2 < 2 ^ c" using assms(1) Suc by auto
      have r2: "v2 = r_types r div 2 + unat ?b * 2 ^ c"
          "r2 = r\<lparr>r_at := r_at r + 1, r_type_count := 8 - (n - c), r_types := unat ?b div 2 ^ (n - c)\<rparr>"
        using assms(5) False at or_disjoint_add [OF lt(2)]
        by (auto simp: r1 read_lowbits_def read_byte_def Let_def)
      have "read_lowbits r (Suc n) = Inr (r_types r + unat ?b * 2 ^ Suc c, r2)"
        using Suc False at or_disjoint_add [OF lt(1), of "unat ?b"]
        by (simp add: r2 read_lowbits_def read_byte_def Let_def)
      moreover have "(r_types r + unat ?b * 2 ^ Suc c) mod 2 = r_types r mod 2"
        "(r_types r + unat ?b * 2 ^ Suc c) div 2 = r_types r div 2 + unat ?b * 2 ^ c"
        by (simp_all only: power_Suc mult.left_commute [of _ 2]) simp_all
      ultimately show ?thesis using split [of "r_types r + unat ?b * 2 ^ Suc c"] r1(1) r2(1) by simp
    qed
  qed
qed

text \<open>The growth order on writers: well-formedness is kept, and what extends the later
  stream extends the earlier one.\<close>

definition grows :: "code_writer \<Rightarrow> code_writer \<Rightarrow> bool" where
  "grows w w' \<longleftrightarrow> (wok w \<longrightarrow> wok w' \<and> (\<forall>F. ext w' F \<longrightarrow> ext w F))"

lemma grows_refl [simp]: "grows w w"
  by (simp add: grows_def)

lemma grows_trans [trans]: "grows w w' \<Longrightarrow> grows w' w'' \<Longrightarrow> grows w w''"
  by (auto simp: grows_def)

lemma grows_out_type [simp]: "grows w (out_type w b)"
  by (auto simp: grows_def intro: wok_out_type ext_out_type)

lemma grows_out_bytes [simp]: "grows w (out_bytes w d)"
  by (auto simp: grows_def intro: wok_out_bytes ext_out_bytes)

lemma grows_out_byte [simp]: "grows w (out_byte w x)"
  by (simp add: out_byte_bytes)

lemma grows_foldl: "(\<And>w x. grows w (f w x)) \<Longrightarrow> grows w (foldl f w xs)"
  by (induction xs arbitrary: w) (auto intro: grows_trans)

text \<open>What a read action yields on a reader in step with \<open>w\<close>, and where it leaves it.\<close>

definition transfers ::
    "bytes \<Rightarrow> code_writer \<Rightarrow> code_writer \<Rightarrow> (code_reader \<Rightarrow> decode_error + ('a \<times> code_reader)) \<Rightarrow> 'a \<Rightarrow> bool" where
  "transfers F w w' rd x \<longleftrightarrow> (\<forall>r. synced F w r \<longrightarrow> (\<exists>r'. rd r = Inr (x, r') \<and> synced F w' r'))"

lemma transfers_obtain:
  assumes "transfers F w w' rd x" "synced F w r"
  obtains r' where "rd r = Inr (x, r')" "synced F w' r'"
  using assms by (auto simp: transfers_def)

lemma transfers_read_bit:
  "wok w \<Longrightarrow> ext (out_type w b) F \<Longrightarrow> transfers F w (out_type w b) read_bit b"
  unfolding transfers_def read_bit_def using read_bit_synced [of w F _ b] by fastforce

lemma transfers_read_byte:
  "wok w \<Longrightarrow> ext (out_byte w x) F \<Longrightarrow> transfers F w (out_byte w x) read_byte x"
  unfolding transfers_def using read_byte_synced by blast

text \<open>A run of bits read at once: the low bits of the result are the bits written, first bit lowest.\<close>

lemma read_lowbits_bits:
  assumes "wok w" "synced F w r" "ext (foldl out_type w bs) F" "bs \<noteq> []" "length bs \<le> 8"
  shows "\<exists>v r'. read_lowbits r (length bs) = Inr (v, r') \<and>
    v mod 2 ^ length bs = horner_sum of_bool 2 bs \<and> synced F (foldl out_type w bs) r'"
  using assms
proof (induction bs arbitrary: w r)
  case (Cons b bs)
  have g: "grows (out_type w b) (foldl out_type (out_type w b) bs)" by (simp add: grows_foldl)
  have w1: "wok (out_type w b)" using Cons.prems(1) by (rule wok_out_type)
  have e1: "ext (out_type w b) F" using g w1 Cons.prems(3) by (simp add: grows_def)
  obtain v1 r1 where rd1: "read_lowbits r 1 = Inr (v1, r1)" "v1 mod 2 = of_bool b" "synced F (out_type w b) r1"
    using read_bit_synced [OF Cons.prems(1,2) e1] by blast
  show ?case
  proof (cases "bs = []")
    case True
    then show ?thesis using rd1 by auto
  next
    case False
    obtain v2 r2 where rd2: "read_lowbits r1 (length bs) = Inr (v2, r2)"
        "v2 mod 2 ^ length bs = horner_sum of_bool 2 bs" "synced F (foldl out_type (out_type w b) bs) r2"
      using Cons.IH [OF w1 rd1(3)] Cons.prems(3,5) False by auto
    have "0 < length bs" "length bs < 8" using False Cons.prems(5) by auto
    from read_lowbits_split [OF _ this rd1(1) rd2(1)] synced_types_bound [OF Cons.prems(1,2)]
    show ?thesis using rd1(2) rd2(2,3) by auto
  qed
qed simp

section \<open>Numbers\<close>

primrec bias :: "nat \<Rightarrow> nat \<Rightarrow> nat" where
  "bias p 0 = 0"
| "bias p (Suc g) = bias p g + 2 ^ (Suc g * p)"

lemma len_groups_bias:
  "len_groups p v n = (m, rem) \<Longrightarrow> 0 < n \<Longrightarrow>
   n \<le> m \<and> rem < 2 ^ (m * p) \<and> v + bias p (n - 1) = rem + bias p (m - 1)"
proof (induction p v n rule: len_groups.induct)
  case (1 p v n)
  show ?case
  proof (cases "v < 2 ^ (n * p)")
    case True
    then show ?thesis using "1.prems" by (simp add: len_groups.simps [of p v n])
  next
    case False
    have "bias p n = bias p (n - 1) + 2 ^ (n * p)" using "1.prems"(2) by (cases n) simp_all
    then show ?thesis using "1.IH" [OF False] "1.prems" False by (auto simp: len_groups.simps [of p v n])
  qed
qed

text \<open>One group: its value bits and its continue bit.\<close>

definition group_bits :: "nat \<Rightarrow> nat \<Rightarrow> nat \<Rightarrow> bool list" where
  "group_bits p rem g = map (\<lambda>i. rem div 2 ^ (g * p + i) mod 2 = 1) [0..<p] @ [0 < g]"

lemma length_group_bits [simp]: "length (group_bits p rem g) = Suc p"
  by (simp add: group_bits_def)

lemma group_bits_value:
  "horner_sum of_bool 2 (group_bits p rem g) = rem div 2 ^ (g * p) mod 2 ^ p + of_bool (0 < g) * (2::nat) ^ p"
proof -
  have bits: "map (\<lambda>i. rem div 2 ^ (g * p + i) mod 2 = 1) [0..<p] = map (bit (rem div 2 ^ (g * p))) [0..<p]"
    by (simp add: bit_iff_odd power_add div_mult2_eq odd_iff_mod_2_eq_one)
  show ?thesis
    unfolding group_bits_def bits horner_sum_append horner_sum_bit_eq_take_bit take_bit_eq_mod by simp
qed

lemma out_groups_Suc: "out_groups w p rem (Suc g) = out_groups (foldl out_type w (group_bits p rem g)) p rem g"
  by (simp add: group_bits_def foldl_map Let_def)

declare out_groups.simps(2) [simp del]

lemma grows_out_groups [simp]: "grows w (out_groups w p rem n)"
proof (induction n arbitrary: w)
  case (Suc n)
  have "grows w (foldl out_type w (group_bits p rem n))" by (simp add: grows_foldl)
  then show ?case unfolding out_groups_Suc using Suc by (rule grows_trans)
qed simp

lemma group_append:
  "rem div 2 ^ (g * p) mod 2 ^ p * 2 ^ (g * p) + rem mod 2 ^ (g * p) = rem mod (2 :: nat) ^ (Suc g * p)"
proof -
  have "(2 :: nat) ^ (Suc g * p) = 2 ^ (g * p) * 2 ^ p" by (simp add: power_add mult.commute)
  then show ?thesis by (simp only: mod_mult2_eq) (simp add: mult.commute add.commute)
qed

lemma read_group:
  assumes "wok w" "synced F w r" "ext (foldl out_type w (group_bits p rem g)) F" "p < 8"
  obtains v r' where "read_lowbits r (p + 1) = Inr (v, r')" "v mod 2 ^ p = rem div 2 ^ (g * p) mod 2 ^ p"
    "v div 2 ^ p mod 2 = of_bool (0 < g)" "synced F (foldl out_type w (group_bits p rem g)) r'"
proof -
  have "group_bits p rem g \<noteq> []" by (simp add: group_bits_def)
  from read_lowbits_bits [OF assms(1-3) this] assms(4) obtain v r' where
    rd: "read_lowbits r (p + 1) = Inr (v, r')" "synced F (foldl out_type w (group_bits p rem g)) r'"
    and v: "v mod 2 ^ Suc p = rem div 2 ^ (g * p) mod 2 ^ p + of_bool (0 < g) * 2 ^ p"
    by (auto simp: group_bits_value)
  have s: "v mod 2 ^ Suc p = v mod 2 ^ p + 2 ^ p * (v div 2 ^ p mod 2)"
    by (simp only: power_Suc mult.commute [of 2] mod_mult2_eq add.commute)
  have a: "rem div 2 ^ (g * p) mod 2 ^ p < (2::nat) ^ p" "v mod 2 ^ p < 2 ^ p" by simp_all
  have "v mod 2 ^ Suc p mod 2 ^ p = rem div 2 ^ (g * p) mod 2 ^ p" unfolding v by simp
  then have m: "v mod 2 ^ p = rem div 2 ^ (g * p) mod 2 ^ p" unfolding s by simp
  have "2 ^ p * (v div 2 ^ p mod 2) = 2 ^ p * of_bool (0 < g)" using v s m by simp
  then have "v div 2 ^ p mod 2 = of_bool (0 < g)" by simp
  with rd m show thesis using that by blast
qed

lemma transfers_out_groups:
  assumes "wok w" "ext (out_groups w p rem (Suc g)) F" "p < 8"
    and "acc * 2 ^ (Suc g * p) + rem mod 2 ^ (Suc g * p) + bias p g < 2 ^ 64"
  shows "transfers F w (out_groups w p rem (Suc g)) (\<lambda>r. unpack_len_from r p acc)
    (acc * 2 ^ (Suc g * p) + rem mod 2 ^ (Suc g * p) + bias p g)"
  using assms
proof (induction g arbitrary: w acc)
  case 0
  show ?case unfolding transfers_def
  proof (intro allI impI)
    fix r assume s: "synced F w r"
    have e: "ext (foldl out_type w (group_bits p rem 0)) F" using "0.prems"(2) by (simp add: out_groups_Suc)
    obtain v r' where "read_lowbits r (p + 1) = Inr (v, r')" "v mod 2 ^ p = rem div 2 ^ (0 * p) mod 2 ^ p"
        "v div 2 ^ p mod 2 = of_bool (0 < (0::nat))" "synced F (foldl out_type w (group_bits p rem 0)) r'"
      by (rule read_group [OF "0.prems"(1) s e "0.prems"(3)])
    then show "\<exists>r'. unpack_len_from r p acc =
          Inr (acc * 2 ^ (Suc 0 * p) + rem mod 2 ^ (Suc 0 * p) + bias p 0, r') \<and>
        synced F (out_groups w p rem (Suc 0)) r'"
      using "0.prems"(4) by (simp add: unpack_len_from.simps [of r] out_groups_Suc Let_def)
  qed
next
  case (Suc g)
  let ?w = "foldl out_type w (group_bits p rem (Suc g))"
  let ?x = "rem div 2 ^ (Suc g * p) mod 2 ^ p" and ?h = "acc * 2 ^ p"
  have gr: "grows w ?w" by (simp add: grows_foldl)
  have w1: "wok ?w" using gr Suc.prems(1) by (simp add: grows_def)
  have e2: "ext (out_groups ?w p rem (Suc g)) F" using Suc.prems(2) by (simp add: out_groups_Suc [of w])
  have e1: "ext ?w F" using e2 w1 grows_out_groups [of ?w] by (auto simp: grows_def)
  have val: "(?h + ?x + 1) * 2 ^ (Suc g * p) + rem mod 2 ^ (Suc g * p) + bias p g =
      acc * 2 ^ (Suc (Suc g) * p) + rem mod 2 ^ (Suc (Suc g) * p) + bias p (Suc g)"
    using group_append [of rem "Suc g" p] by (simp add: algebra_simps power_add)
  have bound: "?h + ?x + 1 < 2 ^ 64"
  proof -
    have "?h + ?x + 1 \<le> (?h + ?x + 1) * 2 ^ (Suc g * p)"
      using mult_le_mono2 [of 1 "2 ^ (Suc g * p)" "?h + ?x + 1"] by (simp del: mult_Suc)
    also have "\<dots> < 2 ^ 64" using val Suc.prems(4) by linarith
    finally show ?thesis .
  qed
  note IH = Suc.IH [OF w1 e2 Suc.prems(3), of "?h + ?x + 1", unfolded val, OF Suc.prems(4)]
  show ?case unfolding transfers_def
  proof (intro allI impI)
    fix r assume s: "synced F w r"
    obtain v r' where rd: "read_lowbits r (p + 1) = Inr (v, r')" "v mod 2 ^ p = ?x"
        "v div 2 ^ p mod 2 = of_bool (0 < Suc g)" "synced F ?w r'"
      by (rule read_group [OF Suc.prems(1) s e1 Suc.prems(3)])
    have "unpack_len_from r p acc = unpack_len_from r' p (?h + ?x + 1)"
      using rd bound by (simp add: unpack_len_from.simps [of r] Let_def)
    then show "\<exists>r'. unpack_len_from r p acc =
          Inr (acc * 2 ^ (Suc (Suc g) * p) + rem mod 2 ^ (Suc (Suc g) * p) + bias p (Suc g), r') \<and>
        synced F (out_groups w p rem (Suc (Suc g))) r'"
      using transfers_obtain [OF IH rd(4)] by (auto simp: out_groups_Suc [of w])
  qed
qed

lemma grows_out_len [simp]: "grows w (out_len w v p)"
  by (simp add: out_len_def split: prod.splits)

lemma transfers_out_len:
  assumes "wok w" "ext (out_len w v p) F" "p < 8" "v < 2 ^ 64"
  shows "transfers F w (out_len w v p) (\<lambda>r. unpack_len r p) v"
proof -
  obtain m rem where m: "len_groups p v 1 = (m, rem)" by fastforce
  then have b: "1 \<le> m" "rem < 2 ^ (m * p)" "v = rem + bias p (m - 1)"
    using len_groups_bias [OF m] by simp_all
  then obtain g where g: "m = Suc g" by (cases m) auto
  have w': "out_len w v p = out_groups w p rem (Suc g)" by (simp add: out_len_def m [unfolded g] del: One_nat_def)
  show ?thesis
    using transfers_out_groups [of w p rem g F 0] assms b g w' by (simp add: unpack_len_def)
qed

lemma foldl_fields:
  "(\<And>w x. f (h w x) = f w) \<Longrightarrow> f (foldl h w xs) = f w"
  by (induction xs arbitrary: w) simp_all

lemma out_groups_fields [simp]:
  "dict_pos_back (out_groups w p rem n) = dict_pos_back w" "have_data_back (out_groups w p rem n) = have_data_back w"
  "w_literal_lines (out_groups w p rem n) = w_literal_lines w"
  by (induction n arbitrary: w) (simp_all add: out_groups_Suc foldl_fields)

lemma out_len_fields [simp]:
  "dict_pos_back (out_len w v p) = dict_pos_back w" "have_data_back (out_len w v p) = have_data_back w"
  "w_literal_lines (out_len w v p) = w_literal_lines w"
  by (simp_all add: out_len_def split: prod.splits)

end
