(* ===== verification/Tinyuz_Props.thy ===== *)
theory Tinyuz_Props
  imports Tinyuz_Stream
begin

text \<open>
  The tinyuz codec as a whole: every step of the decoder undoes the step of the encoder that
  wrote it, so decompression of a compressed frame gives the frame back; and the dictionary size
  in the header covers every distance used and never exceeds the configured window.
\<close>

section \<open>Positions and references\<close>

lemmas grows_steps = grows_trans [OF _ grows_out_type] grows_trans [OF _ grows_out_byte]
  grows_trans [OF _ grows_out_bytes] grows_trans [OF _ grows_out_len]

lemma grows_out_dict_pos [simp]: "grows w (out_dict_pos w pos)"
  by (simp add: out_dict_pos_def Let_def grows_steps)

lemma out_byte_fields [simp]:
  "dict_pos_back (out_byte w x) = dict_pos_back w" "have_data_back (out_byte w x) = have_data_back w"
  "w_literal_lines (out_byte w x) = w_literal_lines w"
  by (simp_all add: out_byte_bytes)

lemma out_dict_pos_fields [simp]:
  "dict_pos_back (out_dict_pos w pos) = dict_pos_back w" "have_data_back (out_dict_pos w pos) = have_data_back w"
  "w_literal_lines (out_dict_pos w pos) = w_literal_lines w"
  by (simp_all add: out_dict_pos_def Let_def)

lemma grows_wok: "grows w w' \<Longrightarrow> wok w \<Longrightarrow> wok w'"
  by (simp add: grows_def)

lemma grows_ext: "grows w w' \<Longrightarrow> wok w \<Longrightarrow> ext w' F \<Longrightarrow> ext w F"
  by (simp add: grows_def)

lemma unat_pos_byte:
  fixes q :: nat
  assumes "q < 2 ^ 7"
  shows "unat (of_nat q OR (0x80 :: u8)) = q + 2 ^ 7" "unat (of_nat q :: u8) = q"
proof -
  show q: "unat (of_nat q :: u8) = q" using assms by (simp add: unat_of_nat)
  have "(0x80 :: u8) = push_bit 7 1" by simp
  then show "unat (of_nat q OR (0x80 :: u8)) = q + 2 ^ 7"
    using unat_or_bit [of 7 "of_nat q"] q assms by simp
qed

lemma transfers_out_dict_pos:
  assumes "wok w" "ext (out_dict_pos w pos) F" "pos < 2 ^ 63"
  shows "transfers F w (out_dict_pos w pos) unpack_dict_pos pos"
  unfolding transfers_def
proof (intro allI impI)
  fix r assume s: "synced F w r"
  show "\<exists>r'. unpack_dict_pos r = Inr (pos, r') \<and> synced F (out_dict_pos w pos) r'"
  proof (cases "2 ^ 7 \<le> pos")
    case False
    then have w': "out_dict_pos w pos = out_byte w (of_nat pos)" by (simp add: out_dict_pos_def Let_def)
    from transfers_read_byte [of w "of_nat pos" F] assms w'
    have "transfers F w (out_byte w (of_nat pos)) read_byte (of_nat pos)" by simp
    from this s obtain r' where "read_byte r = Inr (of_nat pos, r')" "synced F (out_byte w (of_nat pos)) r'"
      by (rule transfers_obtain)
    moreover have "unat (of_nat pos :: u8) = pos" using False by (simp add: unat_pos_byte(2))
    ultimately show ?thesis using False w' by (simp add: unpack_dict_pos_def)
  next
    case True
    define q where "q = pos - 2 ^ 7"
    let ?b = "of_nat (q mod 2 ^ 7) OR (0x80 :: u8)"
    have w': "out_dict_pos w pos = out_len (out_byte w ?b) (q div 2 ^ 7) 2"
      using True by (simp add: out_dict_pos_def Let_def q_def)
    have w1: "wok (out_byte w ?b)" by (rule grows_wok [OF grows_out_byte assms(1)])
    have e2: "ext (out_len (out_byte w ?b) (q div 2 ^ 7) 2) F" using assms(2) w' by simp
    have e1: "ext (out_byte w ?b) F" by (rule grows_ext [OF grows_out_len w1 e2])
    have q: "q div 2 ^ 7 < 2 ^ 64" "q < 2 ^ 63" using assms(3) by (simp_all add: q_def)
    obtain r1 where r1: "read_byte r = Inr (?b, r1)" "synced F (out_byte w ?b) r1"
      by (rule transfers_obtain [OF transfers_read_byte [OF assms(1) e1] s])
    obtain r2 where r2: "unpack_len r1 2 = Inr (q div 2 ^ 7, r2)" "synced F (out_dict_pos w pos) r2"
      unfolding w' by (rule transfers_obtain [OF transfers_out_len [OF w1 e2 _ q(1)] r1(2)]) simp
    have b: "unat ?b = q mod 2 ^ 7 + 2 ^ 7" by (rule unat_pos_byte(1)) simp
    have "q div 2 ^ 7 * 2 ^ 7 < 2 ^ 64" 
      using q(2) div_times_less_eq_dividend [of q "2 ^ 7"]
      by (elim le_less_trans less_trans) simp
    moreover have "(q mod 2 ^ 7) OR (q div 2 ^ 7 * 2 ^ 7) = q" by (subst or_disjoint_add) simp_all
    moreover have "q + 2 ^ 7 = pos" "pos < 2 ^ 64" using True assms(3) by (simp_all add: q_def)
    ultimately have "unpack_dict_pos r = Inr (pos, r2)"
      using r1(1) r2(1) b by (simp add: unpack_dict_pos_def)
    then show ?thesis using r2(2) by blast
  qed
qed

text \<open>A reference after its type bit: length, the repeat bit where one is encodable, position.\<close>

definition out_ref :: "code_writer \<Rightarrow> nat \<Rightarrow> bool \<Rightarrow> nat \<Rightarrow> code_writer" where
  "out_ref w len same pos =
     (let w = out_len w len 1;
          w = (if have_data_back w then out_type w same else w)
      in if \<not> same then out_dict_pos w pos else w)"

lemma out_ctrl_ref: "out_ctrl w c = out_ref (out_type w False) c False 0"
  by (simp add: out_ctrl_def out_ref_def Let_def)

lemma grows_out_ref [simp]: "grows w (out_ref w len same pos)"
  by (simp add: out_ref_def Let_def grows_steps grows_trans [OF _ grows_out_dict_pos])

lemma out_ref_fields [simp]:
  "dict_pos_back (out_ref w len same pos) = dict_pos_back w"
  "have_data_back (out_ref w len same pos) = have_data_back w"
  "w_literal_lines (out_ref w len same pos) = w_literal_lines w"
  by (simp_all add: out_ref_def Let_def)

lemma read_reference_out_ref:
  assumes "wok w" "synced F w r" "ext (out_ref w len same pos) F"
    and "same \<longrightarrow> have_data_back w" "len < 2 ^ 64" "pos < 2 ^ 63"
  obtains r' where "read_reference r pb (have_data_back w) =
      Inr (if \<not> same \<and> BIG_POS_FOR_LEN < pos then (len + 1) mod 2 ^ 64 else len, if same then pb else pos, r')"
    "synced F (out_ref w len same pos) r'"
proof -
  define w1 where "w1 = out_len w len 1"
  define w2 where "w2 = (if have_data_back w then out_type w1 same else w1)"
  have ref: "out_ref w len same pos = (if \<not> same then out_dict_pos w2 pos else w2)"
    by (simp add: out_ref_def w1_def w2_def Let_def)
  have g: "grows w1 w2" "grows w2 (out_ref w len same pos)" by (simp_all add: w2_def ref)
  have ok: "wok w1" "wok w2" using grows_wok [OF grows_out_len assms(1)] g(1) by (auto simp: w1_def grows_def)
  have e: "ext w2 F" "ext w1 F" using grows_ext [OF g(2) ok(2) assms(3)] g(1) ok(1) by (auto simp: grows_def)
  obtain r1 where r1: "unpack_len r 1 = Inr (len, r1)" "synced F w1 r1"
    using transfers_out_len [OF assms(1), of len 1 F] e(2) assms(2,5) by (auto simp: w1_def transfers_def)
  obtain r2 where r2: "(if have_data_back w then read_bit r1 else Inr (False, r1)) = Inr (same, r2)" "synced F w2 r2"
  proof (cases "have_data_back w")
    case True
    then show ?thesis
      using transfers_read_bit [OF ok(1), of same F] e(1) r1(2) that by (auto simp: w2_def transfers_def)
  next
    case False
    then show ?thesis using assms(4) r1(2) that by (auto simp: w2_def)
  qed
  show thesis
  proof (cases same)
    case True
    then have "out_ref w len same pos = w2" unfolding ref by simp
    then show thesis using that [of r2] r1 r2 True by (simp add: read_reference_def)
  next
    case False
    obtain r3 where "unpack_dict_pos r2 = Inr (pos, r3)" "synced F (out_dict_pos w2 pos) r3"
      using transfers_out_dict_pos [OF ok(2) _ assms(6), of F] assms(3) [unfolded ref] r2(2) False
      by (auto simp: transfers_def)
    moreover have "out_ref w len same pos = out_dict_pos w2 pos" unfolding ref using False by simp
    ultimately show thesis using that [of r3] r1 r2 False by (simp add: read_reference_def)
  qed
qed

section \<open>Decoding steps\<close>

text \<open>From every reader in step with \<open>w\<close> the decoder finishes with \<open>goal\<close>.\<close>

definition decodes :: "bytes \<Rightarrow> nat \<Rightarrow> bytes \<Rightarrow> code_writer \<Rightarrow> bytes \<Rightarrow> nat \<Rightarrow> bool \<Rightarrow> bool" where
  "decodes F max_out goal w out pb db \<longleftrightarrow>
     (\<forall>r. synced F w r \<longrightarrow> decompress_loop max_out r out pb db = Inr goal)"

lemma read_bit_obtain:
  assumes "wok w" "synced F w r" "ext (out_type w b) F"
  obtains r1 where "read_bit r = Inr (b, r1)" "synced F (out_type w b) r1"
  using transfers_read_bit [OF assms(1,3)] assms(2) by (rule transfers_obtain)

text \<open>The control codes: both start like a reference with position zero.\<close>

lemma read_ctrl:
  assumes "wok w" "synced F w r" "ext (out_ctrl w c) F" "c < 2 ^ 64"
  obtains r1 r2 where "read_bit r = Inr (False, r1)"
    "read_reference r1 pb (have_data_back w) = Inr (c, 0, r2)" "synced F (out_ctrl w c) r2"
proof -
  let ?w = "out_type w False"
  have w1: "wok ?w" by (rule grows_wok [OF grows_out_type assms(1)])
  have e2: "ext (out_ref ?w c False 0) F" using assms(3) by (simp add: out_ctrl_ref)
  have e1: "ext ?w F" by (rule grows_ext [OF grows_out_ref w1 e2])
  obtain r1 where r1: "read_bit r = Inr (False, r1)" "synced F ?w r1"
    by (rule read_bit_obtain [OF assms(1,2) e1])
  show thesis
    by (rule read_reference_out_ref [OF w1 r1(2) e2, of pb])
      (use assms(4) r1(1) that in \<open>auto simp: out_ctrl_ref BIG_POS_FOR_LEN_def\<close>)
qed

lemma grows_out_ctrl [simp]: "grows w (out_ctrl w c)"
  unfolding out_ctrl_ref by (rule grows_trans [OF grows_out_type grows_out_ref])

lemma out_ctrl_fields [simp]:
  "dict_pos_back (out_ctrl w c) = dict_pos_back w" "have_data_back (out_ctrl w c) = have_data_back w"
  "w_literal_lines (out_ctrl w c) = w_literal_lines w"
  by (simp_all add: out_ctrl_ref)

lemma decodes_stream_end:
  assumes "wok w" "ext (out_ctrl w CTRL_STREAM_END) F"
  shows "decodes F max_out goal w goal pb (have_data_back w)"
  unfolding decodes_def
proof (intro allI impI)
  fix r assume "synced F w r"
  then obtain r1 r2 where
    "read_bit r = Inr (False, r1)" "read_reference r1 pb (have_data_back w) = Inr (CTRL_STREAM_END, 0, r2)"
    by (rule read_ctrl [OF assms(1) _ assms(2)]) (simp add: CTRL_STREAM_END_def)
  then show "decompress_loop max_out r goal pb (have_data_back w) = Inr goal"
    by (simp add: decompress_loop.simps [of max_out r] CTRL_LITERAL_LINE_def CTRL_CLIP_END_def CTRL_STREAM_END_def)
qed

lemma decodes_byte:
  assumes "wok w" "ext (out_byte (out_type w True) x) F" "length out < max_out"
    and "decodes F max_out goal (out_byte (out_type w True) x) (out @ [x]) pb True"
  shows "decodes F max_out goal w out pb db"
  unfolding decodes_def
proof (intro allI impI)
  fix r assume s: "synced F w r"
  let ?w = "out_type w True"
  have w1: "wok ?w" by (rule grows_wok [OF grows_out_type assms(1)])
  have e1: "ext ?w F" by (rule grows_ext [OF grows_out_byte w1 assms(2)])
  obtain r1 where r1: "read_bit r = Inr (True, r1)" "synced F ?w r1" by (rule read_bit_obtain [OF assms(1) s e1])
  obtain r2 where "read_byte r1 = Inr (x, r2)" "synced F (out_byte ?w x) r2"
    by (rule transfers_obtain [OF transfers_read_byte [OF w1 assms(2)] r1(2)])
  then show "decompress_loop max_out r out pb db = Inr goal"
    using r1(1) assms(3,4) by (simp add: decompress_loop.simps [of max_out r] decodes_def)
qed

lemma grows_literal_bytes [simp]: "grows w (foldl (\<lambda>w b. out_byte (out_type w True) b) w d)"
  by (rule grows_foldl) (simp add: grows_steps)

lemma decodes_bytes:
  assumes "wok w" "ext (foldl (\<lambda>w b. out_byte (out_type w True) b) w d) F" "d \<noteq> []"
    and "length out + length d \<le> max_out"
    and "decodes F max_out goal (foldl (\<lambda>w b. out_byte (out_type w True) b) w d) (out @ d) pb True"
  shows "\<forall>db. decodes F max_out goal w out pb db"
  using assms
proof (induction d arbitrary: w out)
  case (Cons x d)
  let ?w = "out_byte (out_type w True) x"
  have g: "grows w ?w" by (simp add: grows_steps)
  have w1: "wok ?w" by (rule grows_wok [OF g Cons.prems(1)])
  have e1: "ext ?w F" using grows_ext [OF grows_literal_bytes w1] Cons.prems(2) by simp
  have "decodes F max_out goal ?w (out @ [x]) pb True"
  proof (cases "d = []")
    case False
    then show ?thesis using Cons.IH [OF w1, of "out @ [x]"] Cons.prems by simp
  qed (use Cons.prems in simp)
  then show ?case using decodes_byte [OF Cons.prems(1) e1] Cons.prems(4) by simp
qed simp

lemma flag_update [simp]:
  "synced F (w\<lparr>have_data_back := b\<rparr>) = synced F w" "wok (w\<lparr>have_data_back := b\<rparr>) = wok w"
  "ext (w\<lparr>have_data_back := b\<rparr>) = ext w"
  "synced F (w\<lparr>dict_pos_back := n\<rparr>) = synced F w" "wok (w\<lparr>dict_pos_back := n\<rparr>) = wok w"
  "ext (w\<lparr>dict_pos_back := n\<rparr>) = ext w"
  "synced F (w\<lparr>dict_size_max := n\<rparr>) = synced F w" "wok (w\<lparr>dict_size_max := n\<rparr>) = wok w"
  "ext (w\<lparr>dict_size_max := n\<rparr>) = ext w"
  by (auto simp: synced_def wok_def ext_def fun_eq_iff)

lemma grows_flag_update [simp]:
  "grows w (w'\<lparr>have_data_back := b\<rparr>) = grows w w'" "grows w (w'\<lparr>dict_pos_back := n\<rparr>) = grows w w'"
  "grows w (w'\<lparr>dict_size_max := n\<rparr>) = grows w w'"
  by (simp_all add: grows_def)

text \<open>A literal line: control code, length, and the raw bytes.\<close>

lemma decodes_line:
  assumes "wok w" "MIN_LITERAL_LINE_LEN \<le> length d" "length out + length d \<le> max_out"
    and "length d < 2 ^ 63" "length F < 2 ^ 64"
    and w': "w' = out_bytes (out_len (out_ctrl w CTRL_LITERAL_LINE) (length d - MIN_LITERAL_LINE_LEN) 2) d"
    and "ext w' F" "decodes F max_out goal w' (out @ d) pb True"
  shows "decodes F max_out goal w out pb (have_data_back w)"
  unfolding decodes_def
proof (intro allI impI)
  fix r assume s: "synced F w r"
  define w1 where "w1 = out_ctrl w CTRL_LITERAL_LINE"
  define w2 where "w2 = out_len w1 (length d - MIN_LITERAL_LINE_LEN) 2"
  have g: "grows w w1" "grows w1 w2" "grows w2 (out_bytes w2 d)" by (simp_all add: w1_def w2_def)
  have ok: "wok w1" "wok w2" using assms(1) g by (auto simp: grows_def)
  have e3: "ext (out_bytes w2 d) F" using assms(7) by (simp add: w' w1_def w2_def)
  have e: "ext w2 F" "ext w1 F" using e3 g ok by (auto simp: grows_def)
  obtain r1 r2 where r2: "read_bit r = Inr (False, r1)"
      "read_reference r1 pb (have_data_back w) = Inr (CTRL_LITERAL_LINE, 0, r2)" "synced F w1 r2"
    unfolding w1_def
    by (rule read_ctrl [OF assms(1) s e(2) [unfolded w1_def]]) (simp add: CTRL_LITERAL_LINE_def)
  have "length d - MIN_LITERAL_LINE_LEN < 2 ^ 64" using assms(4) by simp
  then obtain r3 where r3: "unpack_len r2 2 = Inr (length d - MIN_LITERAL_LINE_LEN, r3)" "synced F w2 r3"
    using transfers_out_len [OF ok(1) e(1) [unfolded w2_def]] r2(3) unfolding w2_def
    by (auto simp: transfers_def)
  note b = synced_out_bytes [OF ok(2) r3(2) e3]
  have "read_line r2 = Inr (d, r3\<lparr>r_at := r_at r3 + length d\<rparr>)"
    using r3(1) assms(2,4,5) b(1-3) by (simp add: read_line_def Let_def)
  then show "decompress_loop max_out r out pb (have_data_back w) = Inr goal"
    using r2(1,2) assms(3,8) b(4)
    by (simp add: decompress_loop.simps [of max_out r] decodes_def w' w1_def w2_def CTRL_LITERAL_LINE_def)
qed

lemma grows_out_literals [simp]: "grows w (out_literals w d)"
proof -
  have "grows w (out_bytes (out_len (out_ctrl w CTRL_LITERAL_LINE) n 2) d)" for n
    by (simp add: grows_steps)
  then show ?thesis by (simp add: out_literals_def Let_def out_bytes_def)
qed

lemma out_literals_fields [simp]:
  "dict_pos_back (out_literals w d) = dict_pos_back w" "have_data_back (out_literals w d)"
  by (simp_all add: out_literals_def Let_def foldl_fields)

lemma decodes_literals:
  assumes "wok w" "ext (out_literals w d) F" "d \<noteq> []" "length out + length d \<le> max_out"
    and "length d < 2 ^ 63" "length F < 2 ^ 64"
    and "decodes F max_out goal (out_literals w d) (out @ d) pb True"
  shows "decodes F max_out goal w out pb (have_data_back w)"
proof (cases "w_literal_lines w \<and> MIN_LITERAL_LINE_LEN \<le> length d")
  case True
  define w' where "w' = out_bytes (out_len (out_ctrl w CTRL_LITERAL_LINE) (length d - MIN_LITERAL_LINE_LEN) 2) d"
  have "out_literals w d = w'\<lparr>have_data_back := True\<rparr>"
    using True by (simp add: out_literals_def w'_def out_bytes_def Let_def)
  then show ?thesis
    using decodes_line [OF assms(1) _ assms(4-6) w'_def] True assms(2,7) by (simp add: decodes_def)
next
  case False
  define w' where "w' = foldl (\<lambda>w b. out_byte (out_type w True) b) w d"
  have "out_literals w d = w'\<lparr>have_data_back := True\<rparr>" using False by (auto simp: out_literals_def w'_def Let_def)
  then have "ext w' F" "decodes F max_out goal w' (out @ d) pb True"
    using assms(2,7) by (simp_all add: decodes_def)
  then show ?thesis using decodes_bytes [OF assms(1) _ assms(3,4)] unfolding w'_def by blast
qed

text \<open>A match.\<close>

definition same_distance :: "code_writer \<Rightarrow> nat \<Rightarrow> bool" where
  "same_distance w d \<longleftrightarrow> dict_pos_back w = d \<and> have_data_back w"

definition stored_len :: "code_writer \<Rightarrow> nat \<Rightarrow> nat \<Rightarrow> nat" where
  "stored_len w m d = (if \<not> same_distance w d \<and> BIG_POS_FOR_LEN < d then m - 2 - 1 else m - 2)"

lemma out_dict_ref:
  "out_dict w m d =
     (out_ref ((out_type w False)\<lparr>dict_size_max := max (dict_size_max (out_type w False)) d\<rparr>)
        (stored_len w m d) (same_distance w d) d)\<lparr>have_data_back := False, dict_pos_back := d\<rparr>"
  unfolding out_dict_def out_ref_def Let_def same_distance_def stored_len_def MIN_MATCH_LEN_def by simp

lemma grows_out_dict [simp]: "grows w (out_dict w m d)"
  unfolding out_dict_ref by (simp add: grows_trans [OF _ grows_out_ref])

lemma out_dict_fields [simp]: "dict_pos_back (out_dict w m d) = d" "\<not> have_data_back (out_dict w m d)"
  by (simp_all add: out_dict_ref)

lemma decodes_dict:
  assumes "wok w" "ext (out_dict w m d) F" "2 \<le> m" "m < 2 ^ 63" "1 \<le> d" "d \<le> length out" "d < 2 ^ 63"
    and "BIG_POS_FOR_LEN < d \<Longrightarrow> \<not> (dict_pos_back w = d \<and> have_data_back w) \<Longrightarrow> 3 \<le> m"
    and "length out + m \<le> max_out" "max_out < 2 ^ 64"
    and "decodes F max_out goal (out_dict w m d) (copy_match out (length out - d) m) d False"
  shows "decodes F max_out goal w out (dict_pos_back w) (have_data_back w)"
  unfolding decodes_def
proof (intro allI impI)
  fix r assume s: "synced F w r"
  define same where "same = same_distance w d"
  define len where "len = stored_len w m d"
  define w1 where "w1 = (out_type w False)\<lparr>dict_size_max := max (dict_size_max (out_type w False)) d\<rparr>"
  have w': "out_dict w m d = (out_ref w1 len same d)\<lparr>have_data_back := False, dict_pos_back := d\<rparr>"
    unfolding out_dict_ref w1_def same_def len_def ..
  have ok: "wok w1" using assms(1) by (simp add: w1_def wok_out_type)
  have e2: "ext (out_ref w1 len same d) F" using assms(2) by (simp add: w')
  have e1: "ext (out_type w False) F" using grows_ext [OF grows_out_ref ok e2] by (simp add: w1_def)
  obtain r1 where r1: "read_bit r = Inr (False, r1)" "synced F w1 r1"
    using read_bit_obtain [OF assms(1) s e1] by (auto simp: w1_def)
  have flags: "same \<longrightarrow> have_data_back w1" "have_data_back w1 = have_data_back w" "len < 2 ^ 64"
    using assms(4) by (auto simp: w1_def same_def same_distance_def len_def stored_len_def)
  obtain r2 where r2: "read_reference r1 (dict_pos_back w) (have_data_back w1) =
      Inr (if \<not> same \<and> BIG_POS_FOR_LEN < d then (len + 1) mod 2 ^ 64 else len, if same then dict_pos_back w else d, r2)"
      "synced F (out_ref w1 len same d) r2"
    by (rule read_reference_out_ref [OF ok r1(2) e2 flags(1,3) assms(7)])
  have pos: "(if same then dict_pos_back w else d) = d" by (simp add: same_def same_distance_def)
  have m: "(if \<not> same \<and> BIG_POS_FOR_LEN < d then (len + 1) mod 2 ^ 64 else len) = m - 2"
    using assms(3,4,8) by (auto simp: len_def same_def same_distance_def stored_len_def)
  have rd: "read_reference r1 (dict_pos_back w) (have_data_back w) = Inr (m - 2, d, r2)"
    using r2(1) unfolding pos m flags(2) .
  have "(m - 2 + MIN_MATCH_LEN) mod 2 ^ 64 = m" "(length out + m) mod 2 ^ 64 = length out + m"
    using assms(3,4,9,10) by (simp_all add: MIN_MATCH_LEN_def)
  then show "decompress_loop max_out r out (dict_pos_back w) (have_data_back w) = Inr goal"
    using r1(1) rd assms(5,6,9,11) r2(2)
    by (simp add: decompress_loop.simps [of max_out r] decodes_def w')
qed

section \<open>Matches\<close>

lemma match_len_from_le: "match_len_from input s c m \<le> m"
  by (induction input s c m rule: match_len_from.induct) simp_all

lemma match_len_from_eq: "i < match_len_from input s c m \<Longrightarrow> input ! (s + i) = input ! (c + i)"
proof (induction input s c m arbitrary: i rule: match_len_from.induct)
  case (2 input s c m)
  then show ?case by (cases i) (auto split: if_splits)
qed simp

text \<open>What a match found at the cursor satisfies.\<close>

definition match_ok :: "bytes \<Rightarrow> nat \<Rightarrow> nat \<times> nat \<Rightarrow> bool" where
  "match_ok input cursor = (\<lambda>(len, d). 1 \<le> d \<and> d \<le> cursor \<and> 2 \<le> len \<and> cursor + len \<le> length input \<and>
     len \<le> MAX_MATCH_LEN \<and> (\<forall>i < len. input ! (cursor - d + i) = input ! (cursor + i)))"

lemma match_ok_at:
  assumes "1 \<le> d" "d \<le> cursor" "cursor \<le> length input" "2 \<le> match_len_at input cursor max_len d"
    and "max_len = min (length input - cursor) MAX_MATCH_LEN"
  shows "match_ok input cursor (match_len_at input cursor max_len d, d)"
proof -
  let ?len = "match_len_at input cursor max_len d"
  have "?len \<le> max_len" by (simp add: match_len_at_def match_len_from_le)
  then have "?len \<le> length input - cursor" "?len \<le> MAX_MATCH_LEN"
    unfolding assms(5) by (simp_all only: min.bounded_iff)
  then have "cursor + ?len \<le> length input" "?len \<le> MAX_MATCH_LEN" using assms(3) by linarith+
  moreover have "input ! (cursor - d + i) = input ! (cursor + i)" if "i < ?len" for i
    using that unfolding match_len_at_def by (rule match_len_from_eq)
  ultimately show ?thesis using assms(1,2,4) by (simp add: match_ok_def)
qed

lemma scan_distances_ok:
  assumes "scan_distances input cursor max_len ds best = Some b" "cursor \<le> length input"
    and "max_len = min (length input - cursor) MAX_MATCH_LEN" "\<forall>d \<in> set ds. 1 \<le> d \<and> d \<le> cursor"
    and "\<And>b. best = Some b \<Longrightarrow> match_ok input cursor b \<and> (BIG_POS_FOR_LEN < snd b \<longrightarrow> 3 \<le> fst b)"
  shows "match_ok input cursor b \<and> (BIG_POS_FOR_LEN < snd b \<longrightarrow> 3 \<le> fst b)"
  using assms
proof (induction input cursor max_len ds best rule: scan_distances.induct)
  case (2 input cursor max_len d ds best)
  let ?len = "match_len_at input cursor max_len d"
  show ?case
  proof (cases "(if BIG_POS_FOR_LEN < d then MIN_MATCH_LEN + 1 else MIN_MATCH_LEN) \<le> ?len \<and>
      (case best of None \<Rightarrow> True | Some (best_len, _) \<Rightarrow> best_len < ?len)")
    case True
    then have "2 \<le> ?len" "BIG_POS_FOR_LEN < d \<longrightarrow> 3 \<le> ?len" by (auto simp: MIN_MATCH_LEN_def split: if_splits)
    then have ok: "match_ok input cursor (?len, d) \<and> (BIG_POS_FOR_LEN < d \<longrightarrow> 3 \<le> ?len)"
      using match_ok_at [OF _ _ "2.prems"(2) _ "2.prems"(3), of d] "2.prems"(4) by simp
    have eq: "scan_distances input cursor max_len (d # ds) best =
        (if ?len = max_len then Some (?len, d) else scan_distances input cursor max_len ds (Some (?len, d)))"
      using True by (simp add: Let_def)
    show ?thesis
    proof (cases "?len = max_len")
      case full: True
      then show ?thesis using "2.prems"(1) eq ok by auto
    next
      case part: False
      have "scan_distances input cursor max_len ds (Some (?len, d)) = Some b"
        using "2.prems"(1) eq part by simp
      then show ?thesis
        using "2.IH"(1) [OF refl refl True part _ "2.prems"(2,3)] "2.prems"(4) ok by auto
    qed
  next
    case False
    then show ?thesis using "2.IH"(2) [OF refl refl False] "2.prems" by (auto simp: Let_def)
  qed
qed simp

lemma scan_distances_mem:
  "scan_distances input cursor max_len ds best = Some b \<Longrightarrow> best = Some b \<or> snd b \<in> set ds"
proof (induction ds arbitrary: best)
  case (Cons d ds)
  then show ?case
    using Cons.IH [of best] Cons.IH [of "Some (match_len_at input cursor max_len d, d)"]
    by (auto simp: Let_def split: if_split_asm)
qed simp

text \<open>A match comes from the scan of the window or from the repeat distance.\<close>

lemma best_match_cases:
  assumes "best_match input cursor window rd hb = Some (len, d)"
    and max_len: "max_len = min (length input - cursor) MAX_MATCH_LEN"
  obtains (scan) "scan_distances input cursor max_len [1..<Suc (min cursor window)] None = Some (len, d)"
    | (rep) "d = rd" "len = match_len_at input cursor max_len rd" "1 \<le> rd" "rd \<le> cursor" "rd \<le> window"
        "(if \<not> hb \<and> BIG_POS_FOR_LEN < rd then MIN_MATCH_LEN + 1 else MIN_MATCH_LEN) \<le> len"
proof -
  define ds where "ds = [1..<Suc (min cursor window)]"
  define C where "C \<longleftrightarrow> 1 \<le> rd \<and> rd \<le> min cursor window \<and>
    (if \<not> hb \<and> BIG_POS_FOR_LEN < rd then MIN_MATCH_LEN + 1 else MIN_MATCH_LEN) \<le> match_len_at input cursor max_len rd \<and>
    (case scan_distances input cursor max_len ds None of None \<Rightarrow> True
     | Some (best_len, _) \<Rightarrow> best_len \<le> match_len_at input cursor max_len rd + 1)"
  have "best_match input cursor window rd hb =
      (if max_len < MIN_MATCH_LEN then None
       else if C then Some (match_len_at input cursor max_len rd, rd)
       else scan_distances input cursor max_len ds None)"
    unfolding best_match_def Let_def max_len ds_def C_def ..
  then consider (a) "scan_distances input cursor max_len ds None = Some (len, d)"
    | (b) "d = rd" "len = match_len_at input cursor max_len rd" C
    using assms(1) by (auto split: if_split_asm)
  then show thesis
  proof cases
    case a
    then show thesis using scan unfolding ds_def by blast
  next
    case b
    then show thesis using rep unfolding C_def by simp
  qed
qed

lemma best_match_ok:
  assumes "best_match input cursor window rd hb = Some (len, d)" "cursor \<le> length input"
  shows "match_ok input cursor (len, d)" "BIG_POS_FOR_LEN < d \<Longrightarrow> \<not> (rd = d \<and> hb) \<Longrightarrow> 3 \<le> len"
proof -
  have "match_ok input cursor (len, d) \<and> (BIG_POS_FOR_LEN < d \<longrightarrow> \<not> (rd = d \<and> hb) \<longrightarrow> 3 \<le> len)"
    using assms(1) refl
  proof (cases rule: best_match_cases)
    case scan
    have "\<forall>d \<in> set [1..<Suc (min cursor window)]. 1 \<le> d \<and> d \<le> cursor" by (simp only: set_upt) auto
    from scan_distances_ok [OF scan assms(2) refl this] show ?thesis by simp
  next
    case rep
    then have "2 \<le> len" "BIG_POS_FOR_LEN < d \<longrightarrow> \<not> (rd = d \<and> hb) \<longrightarrow> 3 \<le> len"
      by (auto simp: MIN_MATCH_LEN_def split: if_split_asm)
    then show ?thesis using match_ok_at [OF rep(3,4) assms(2) _ refl] rep(1,2) by simp
  qed
  then show "match_ok input cursor (len, d)" "BIG_POS_FOR_LEN < d \<Longrightarrow> \<not> (rd = d \<and> hb) \<Longrightarrow> 3 \<le> len" by blast+
qed

lemma best_match_window:
  assumes "best_match input cursor window rd hb = Some (len, d)" shows "d \<le> window"
  using assms refl
proof (cases rule: best_match_cases)
  case scan
  from scan_distances_mem [OF this] show ?thesis by (simp only: set_upt) auto
qed simp

lemma copy_match_take:
  "s < c \<Longrightarrow> c + m \<le> length input \<Longrightarrow> (\<And>i. i < m \<Longrightarrow> input ! (s + i) = input ! (c + i)) \<Longrightarrow>
   copy_match (take c input) s m = take (c + m) input"
proof (induction m arbitrary: s c)
  case (Suc m)
  have "take c input @ [take c input ! s] = take (Suc c) input"
    using Suc.prems(1,2) Suc.prems(3) [of 0] by (simp add: take_Suc_conv_app_nth)
  moreover have "input ! (Suc s + i) = input ! (Suc c + i)" if "i < m" for i
    using Suc.prems(3) [of "Suc i"] that by simp
  ultimately show ?case using Suc.IH [of "Suc s" "Suc c"] Suc.prems(1,2) by simp
qed simp

section \<open>The round trip\<close>

text \<open>The literals pending after the main loop, and those before a match.\<close>

definition flush_from :: "bytes \<Rightarrow> code_writer \<Rightarrow> nat \<Rightarrow> nat \<Rightarrow> code_writer" where
  "flush_from input w ls c = (if ls < c then out_literals w (slice ls (c - ls) input) else w)"

lemma grows_flush [simp]: "grows w (flush_from input w ls c)"
  by (simp add: flush_from_def)

lemma flush_fields [simp]: "dict_pos_back (flush_from input w ls c) = dict_pos_back w"
  "have_data_back w \<Longrightarrow> have_data_back (flush_from input w ls c)"
  by (simp_all add: flush_from_def)

lemma decodes_flush:
  assumes "wok w" "ext (flush_from input w ls c) F" "ls \<le> c" "c \<le> length input" "length input \<le> max_out"
    and "length input < 2 ^ 63" "length F < 2 ^ 64"
    and "decodes F max_out goal (flush_from input w ls c) (take c input) (dict_pos_back w)
      (have_data_back (flush_from input w ls c))"
  shows "decodes F max_out goal w (take ls input) (dict_pos_back w) (have_data_back w)"
proof (cases "ls < c")
  case True
  let ?d = "slice ls (c - ls) input"
  have "take c input = take ls input @ ?d" using take_slice [of ls "c - ls" input] assms(3) by simp
  moreover have "length ?d = c - ls" "?d \<noteq> []" using True assms(4) by (simp_all add: slice_def)
  ultimately show ?thesis
    using decodes_literals [OF assms(1), of ?d F "take ls input" max_out goal "dict_pos_back w"] assms True
    by (simp add: flush_from_def)
next
  case False
  then show ?thesis using assms(3,8) by (simp add: flush_from_def)
qed

lemma compress_loop_match:
  assumes "best_match input cursor window (dict_pos_back w) (have_data_back w) = Some (len, d)"
    and "wok w" "ls \<le> cursor" "cursor \<le> length input" "length input \<le> max_out" "length input < 2 ^ 63"
    and "max_out < 2 ^ 64" "length F < 2 ^ 64"
    and w': "w' = out_dict (flush_from input w ls cursor) len d" and "ext w' F"
    and "decodes F max_out goal w' (take (cursor + len) input) d False"
  shows "decodes F max_out goal w (take ls input) (dict_pos_back w) (have_data_back w)"
proof -
  let ?w = "flush_from input w ls cursor" and ?out = "take cursor input"
  note m = best_match_ok [OF assms(1,4)]
  have mo: "1 \<le> d" "d \<le> cursor" "2 \<le> len" "cursor + len \<le> length input"
      "\<And>i. i < len \<Longrightarrow> input ! (cursor - d + i) = input ! (cursor + i)"
    using m(1) by (auto simp: match_ok_def)
  have out: "length ?out = cursor" using assms(4) by simp
  have w1: "wok ?w" by (rule grows_wok [OF grows_flush assms(2)])
  have e1: "ext ?w F" using grows_ext [OF grows_out_dict w1] assms(10) w' by blast
  have "copy_match ?out (length ?out - d) len = take (cursor + len) input"
    unfolding out using mo by (intro copy_match_take) simp_all
  moreover have "BIG_POS_FOR_LEN < d \<Longrightarrow> \<not> (dict_pos_back ?w = d \<and> have_data_back ?w) \<Longrightarrow> 3 \<le> len"
    using m(2) by (cases "have_data_back w") auto
  ultimately have "decodes F max_out goal ?w ?out (dict_pos_back ?w) (have_data_back ?w)"
    using decodes_dict [of ?w len d F ?out max_out goal] w1 assms(5-7,10,11) mo out unfolding w' by simp
  then show ?thesis using decodes_flush [OF assms(2) e1 assms(3-6,8)] by simp
qed

lemma compress_loop_decodes:
  assumes "compress_loop input window w ls cursor = (w', ls')"
    and "wok w" "ls \<le> cursor" "cursor \<le> length input" "length input \<le> max_out" "length input < 2 ^ 63"
    and "max_out < 2 ^ 64" "length F < 2 ^ 64" "ext (flush_from input w' ls' (length input)) F"
    and "decodes F max_out goal (flush_from input w' ls' (length input)) input (dict_pos_back w')
      (have_data_back (flush_from input w' ls' (length input)))"
  shows "decodes F max_out goal w (take ls input) (dict_pos_back w) (have_data_back w) \<and> ext w F"
  using assms
proof (induction input window w ls cursor rule: compress_loop.induct)
  case (1 input window w ls cursor)
  show ?case
  proof (cases "cursor < length input")
    case False
    then have "w' = w" "ls' = ls" using "1.prems"(1) by (simp_all add: compress_loop.simps [of input window w])
    then show ?thesis
      using decodes_flush [of w input ls "length input" F max_out goal] grows_ext [OF grows_flush "1.prems"(2)]
        "1.prems" False by auto
  next
    case True
    show ?thesis
    proof (cases "best_match input cursor window (dict_pos_back w) (have_data_back w)")
      case None
      then show ?thesis
        using "1.IH"(1) [OF True None] "1.prems" True by (simp add: compress_loop.simps [of input window w])
    next
      case (Some b)
      then obtain len d where b: "best_match input cursor window (dict_pos_back w) (have_data_back w) = Some (len, d)"
        by (cases b) auto
      let ?w = "out_dict (flush_from input w ls cursor) len d"
      have run: "compress_loop input window ?w (cursor + len) (cursor + len) = (w', ls')"
        using "1.prems"(1) b True by (simp add: compress_loop.simps [of input window w] flush_from_def Let_def)
      have g: "grows w ?w" by (rule grows_trans [OF grows_flush grows_out_dict])
      have "cursor + len \<le> length input" using best_match_ok(1) [OF b "1.prems"(4)] by (simp add: match_ok_def)
      then have "decodes F max_out goal ?w (take (cursor + len) input) d False \<and> ext ?w F"
        using "1.IH"(2) [OF True b refl refl] run "1.prems"(5-) grows_wok [OF g "1.prems"(2)]
        by (simp add: flush_from_def)
      then show ?thesis
        using compress_loop_match [OF b "1.prems"(2-8) refl] grows_ext [OF g "1.prems"(2)] by blast
    qed
  qed
qed

lemma grows_compress_loop: "compress_loop input window w ls cursor = (w', ls') \<Longrightarrow> grows w w'"
proof (induction input window w ls cursor rule: compress_loop.induct)
  case (1 input window w ls cursor)
  show ?case
  proof (cases "cursor < length input")
    case True
    show ?thesis
    proof (cases "best_match input cursor window (dict_pos_back w) (have_data_back w)")
      case None
      then show ?thesis
        using "1.IH"(1) [OF True None] "1.prems" True by (simp add: compress_loop.simps [of input window w])
    next
      case (Some b)
      then obtain len d where b: "best_match input cursor window (dict_pos_back w) (have_data_back w) = Some (len, d)"
        by (cases b) auto
      let ?w = "out_dict (flush_from input w ls cursor) len d"
      have run: "compress_loop input window ?w (cursor + len) (cursor + len) = (w', ls')"
        using "1.prems"(1) b True by (simp add: compress_loop.simps [of input window w] flush_from_def Let_def)
      have "grows ?w w'" using "1.IH"(2) [OF True b refl refl] run by (simp add: flush_from_def)
      then show ?thesis by (rule grows_trans [OF grows_trans [OF grows_flush grows_out_dict]])
    qed
  qed (use "1.prems" in \<open>simp add: compress_loop.simps [of input window w]\<close>)
qed

lemma ext_header: "wok w \<Longrightarrow> length h = 4 \<Longrightarrow> ext w (copy_at 0 h (w_code w))"
  by (auto simp: ext_def wok_def copy_at_def nth_append)

lemma wok_new_writer: "wok (new_writer lines)"
  by (simp add: wok_def new_writer_def DICT_SIZE_HEADER_LEN_def)

section \<open>Size of the stream\<close>

text \<open>A coarse bound, enough to keep every index of the decoder away from overflow.\<close>

lemma size_out_type: "length (w_code (out_type w b)) \<le> length (w_code w) + 1"
  by (simp add: out_type_def Let_def)

lemma size_foldl_out_type: "length (w_code (foldl out_type w bs)) \<le> length (w_code w) + length bs"
proof (induction bs arbitrary: w)
  case (Cons b bs)
  show ?case using Cons.IH [of "out_type w b"] size_out_type [of w b] by simp
qed simp

lemma size_out_groups: "length (w_code (out_groups w p rem n)) \<le> length (w_code w) + n * Suc p"
proof (induction n arbitrary: w)
  case (Suc n)
  show ?case
    using size_foldl_out_type [of w "group_bits p rem n"] Suc.IH [of "foldl out_type w (group_bits p rem n)"]
    by (simp add: out_groups_Suc)
qed simp

lemma len_groups_count:
  assumes "len_groups p v 1 = (m, rem)" "v < 2 ^ 63" "0 < p"
  shows "m \<le> 63"
proof (cases "m - 1")
  case (Suc g)
  have "2 ^ Suc g \<le> (2 :: nat) ^ (Suc g * p)" using assms(3) by (intro power_increasing) (cases p, simp_all)
  also have "\<dots> \<le> bias p (m - 1)" by (simp only: Suc bias.simps)
  also have "\<dots> \<le> v" using len_groups_bias [OF assms(1)] by simp
  also have "v < 2 ^ 63" by (rule assms(2))
  finally have "Suc g < 63" by (rule power_less_imp_less_exp [rotated]) simp
  then show ?thesis using Suc by simp
qed simp

lemma size_out_len:
  assumes "v < 2 ^ 63" "0 < p"
  shows "length (w_code (out_len w v p)) \<le> length (w_code w) + 63 * Suc p"
proof -
  obtain m rem where m: "len_groups p v 1 = (m, rem)" by fastforce
  have "m * Suc p \<le> 63 * Suc p" using len_groups_count [OF m assms] by (rule mult_le_mono1)
  then show ?thesis using size_out_groups [of w p rem m] m by (simp add: out_len_def)
qed

lemma size_out_dict_pos:
  assumes "pos < 2 ^ 63"
  shows "length (w_code (out_dict_pos w pos)) \<le> length (w_code w) + 190"
proof -
  have "(pos - 2 ^ 7) div 2 ^ 7 < 2 ^ 63"
    using assms by (meson div_le_dividend diff_le_self le_trans le_less_trans)
  from size_out_len [OF this, of 2 "out_byte w (of_nat ((pos - 2 ^ 7) mod 2 ^ 7) OR 0x80)"] show ?thesis
    by (auto simp: out_dict_pos_def Let_def out_byte_def)
qed

lemma size_out_ref:
  assumes "len < 2 ^ 63" "pos < 2 ^ 63"
  shows "length (w_code (out_ref w len same pos)) \<le> length (w_code w) + 317"
proof -
  define w1 where "w1 = out_len w len 1"
  define w2 where "w2 = (if have_data_back w then out_type w1 same else w1)"
  have "length (w_code w1) \<le> length (w_code w) + 126" using size_out_len [OF assms(1), of 1 w] by (simp add: w1_def)
  moreover have "length (w_code w2) \<le> length (w_code w1) + 1" using size_out_type [of w1 same] by (simp add: w2_def)
  moreover have "out_ref w len same pos = (if \<not> same then out_dict_pos w2 pos else w2)"
    by (simp add: out_ref_def Let_def w1_def w2_def)
  ultimately show ?thesis using size_out_dict_pos [OF assms(2), of w2] by (cases same) simp_all
qed

lemma size_out_ctrl: "c < 2 ^ 63 \<Longrightarrow> length (w_code (out_ctrl w c)) \<le> length (w_code w) + 318"
  using size_out_ref [of c 0 "out_type w False" False] size_out_type [of w False] by (simp add: out_ctrl_ref)

lemma size_out_dict:
  assumes "m < 2 ^ 63" "d < 2 ^ 63"
  shows "length (w_code (out_dict w m d)) \<le> length (w_code w) + 318"
proof -
  have "stored_len w m d < 2 ^ 63" using assms(1) by (auto simp: stored_len_def)
  then show ?thesis
    using size_out_ref [OF _ assms(2), of "stored_len w m d"
        "(out_type w False)\<lparr>dict_size_max := max (dict_size_max (out_type w False)) d\<rparr>" "same_distance w d"]
      size_out_type [of w False]
    unfolding out_dict_ref by simp
qed

lemma size_out_literals:
  assumes "length d < 2 ^ 63"
  shows "length (w_code (out_literals w d)) \<le> length (w_code w) + 507 + 2 * length d"
proof -
  have bytes: "length (w_code (foldl (\<lambda>w b. out_byte (out_type w True) b) w d)) \<le> length (w_code w) + 2 * length d" for w
  proof (induction d arbitrary: w)
    case (Cons b d)
    show ?case using Cons.IH [of "out_byte (out_type w True) b"] size_out_type [of w True]
      by (simp add: out_byte_def)
  qed simp
  let ?w1 = "out_ctrl w CTRL_LITERAL_LINE" and ?n = "length d - MIN_LITERAL_LINE_LEN"
  have "length (w_code ?w1) \<le> length (w_code w) + 318" by (rule size_out_ctrl) (simp add: CTRL_LITERAL_LINE_def)
  moreover have "length (w_code (out_len ?w1 ?n 2)) \<le> length (w_code ?w1) + 189"
    using size_out_len [of ?n 2 ?w1] assms by simp
  ultimately show ?thesis using bytes [of w] by (simp add: out_literals_def Let_def)
qed

lemma size_flush:
  assumes "length input < 2 ^ 63"
  shows "length (w_code (flush_from input w ls c)) \<le> length (w_code w) + (if ls < c then 507 + 2 * (c - ls) else 0)"
proof -
  have "length (slice ls (c - ls) input) \<le> c - ls" "length (slice ls (c - ls) input) < 2 ^ 63"
    using assms by (auto simp: slice_def min_def)
  then show ?thesis using size_out_literals [of "slice ls (c - ls) input" w] by (simp add: flush_from_def)
qed

lemma size_compress_loop:
  assumes "compress_loop input window w ls cursor = (w', ls')"
    and "ls \<le> cursor" "cursor \<le> length input" "length input < 2 ^ 63"
  shows "length (w_code (flush_from input w' ls' (length input))) \<le> length (w_code w) + 1000 * (length input - ls)"
  using assms
proof (induction input window w ls cursor rule: compress_loop.induct)
  case (1 input window w ls cursor)
  show ?case
  proof (cases "cursor < length input")
    case False
    then have "w' = w" "ls' = ls" using "1.prems"(1) by (simp_all add: compress_loop.simps [of input window w])
    then show ?thesis using size_flush [OF "1.prems"(4), of w ls "length input"] by (auto split: if_splits)
  next
    case True
    show ?thesis
    proof (cases "best_match input cursor window (dict_pos_back w) (have_data_back w)")
      case None
      then show ?thesis
        using "1.IH"(1) [OF True None] "1.prems" True by (simp add: compress_loop.simps [of input window w])
    next
      case (Some b)
      then obtain len d where b: "best_match input cursor window (dict_pos_back w) (have_data_back w) = Some (len, d)"
        by (cases b) auto
      let ?f = "flush_from input w ls cursor"
      have m: "d \<le> cursor" "2 \<le> len" "cursor + len \<le> length input"
        using best_match_ok(1) [OF b "1.prems"(3)] by (simp_all add: match_ok_def)
      have run: "compress_loop input window (out_dict ?f len d) (cursor + len) (cursor + len) = (w', ls')"
        using "1.prems"(1) b True by (simp add: compress_loop.simps [of input window w] flush_from_def Let_def)
      have "length (w_code (flush_from input w' ls' (length input))) \<le>
          length (w_code (out_dict ?f len d)) + 1000 * (length input - (cursor + len))"
        using "1.IH"(2) [OF True b refl refl] run "1.prems"(4) m(3) by (simp add: flush_from_def)
      moreover have "length (w_code (out_dict ?f len d)) \<le> length (w_code ?f) + 318"
        using m "1.prems"(3,4) by (intro size_out_dict) simp_all
      moreover have "length (w_code ?f) \<le> length (w_code w) + 507 + 2 * (cursor - ls)"
        using size_flush [OF "1.prems"(4), of w ls cursor] by (simp split: if_splits)
      ultimately show ?thesis using m "1.prems"(2) by linarith
    qed
  qed
qed

lemma size_compress:
  assumes "length input < 2 ^ 63"
  shows "length (compress input params) \<le> 1000 * length input + 322"
proof -
  let ?n = "length input"
  obtain w ls where run: "compress_loop input (max (dict_size params) 1) (new_writer (literal_lines params)) 0 0 = (w, ls)"
    by fastforce
  define wf where "wf = flush_from input w ls ?n"
  have wf: "wf = (if ls < ?n then out_literals w (drop ls input) else w)"
    by (simp add: wf_def flush_from_def slice_def)
  have "length (w_code wf) \<le> 4 + 1000 * ?n"
    using size_compress_loop [OF run] assms by (simp add: wf_def new_writer_def DICT_SIZE_HEADER_LEN_def)
  moreover have "length (w_code (out_ctrl wf CTRL_STREAM_END)) \<le> length (w_code wf) + 318"
    by (rule size_out_ctrl) (simp add: CTRL_STREAM_END_def)
  moreover have "length (compress input params) = length (copy_at 0 (le32 x) (w_code (out_ctrl wf CTRL_STREAM_END)))"
    for x unfolding compress_def run Let_def finish_def wf by (simp add: copy_at_def)
  moreover have "4 \<le> length (w_code (out_ctrl wf CTRL_STREAM_END))"
  proof -
    have "wok w" using grows_compress_loop [OF run] wok_new_writer by (simp add: grows_def)
    then have "wok (out_ctrl wf CTRL_STREAM_END)"
      unfolding wf_def by (rule grows_wok [OF grows_trans [OF grows_flush grows_out_ctrl]])
    then show ?thesis by (simp add: wok_def)
  qed
  ultimately show ?thesis by (simp add: copy_at_def)
qed

section \<open>Correctness of the codec\<close>

lemma decompress_compress:
  assumes "length input \<le> max_out" "length input < 2 ^ 50" "max_out < 2 ^ 64"
  shows "decompress (compress input params) max_out = Inr input"
proof -
  let ?n = "length input" and ?w0 = "new_writer (literal_lines params)"
  obtain w ls where run: "compress_loop input (max (dict_size params) 1) ?w0 0 0 = (w, ls)" by fastforce
  define wf where "wf = flush_from input w ls ?n"
  define we where "we = out_ctrl wf CTRL_STREAM_END"
  define F where "F = compress input params"
  have n: "length input < 2 ^ 63" using assms(2) by simp
  have "length F < 2 ^ 64" unfolding F_def using size_compress [OF n, of params] assms(2) by simp
  have wf: "wf = (if ls < ?n then out_literals w (drop ls input) else w)"
    by (simp add: wf_def flush_from_def slice_def)
  define h where "h = le32 (if dict_size_max we < 2 ^ 32 then of_nat (dict_size_max we) else - 1)"
  have F: "F = copy_at 0 h (w_code we)"
    unfolding F_def compress_def run Let_def finish_def we_def wf h_def by simp
  have w: "wok w" using grows_compress_loop [OF run] wok_new_writer by (simp add: grows_def)
  have wf_ok: "wok wf" using grows_wok [OF grows_flush w] by (simp add: wf_def)
  have we_ok: "wok we" using grows_wok [OF grows_out_ctrl wf_ok] by (simp add: we_def)
  have e: "ext we F" using ext_header [OF we_ok, of h] by (simp add: F h_def)
  have ef: "ext wf F" using grows_ext [OF grows_out_ctrl wf_ok] e by (simp add: we_def)
  have "decodes F max_out input wf input (dict_pos_back w) (have_data_back wf)"
    using decodes_stream_end [OF wf_ok e [unfolded we_def]] .
  then have d: "decodes F max_out input ?w0 (take 0 input) (dict_pos_back ?w0) (have_data_back ?w0)"
    using compress_loop_decodes [OF run wok_new_writer, of max_out F input] assms(1,3) n ef \<open>length F < 2 ^ 64\<close>
    by (simp add: wf_def)
  have "4 \<le> length F" using e we_ok by (simp add: ext_def wok_def)
  then show ?thesis
    using d by (simp add: decodes_def synced_def decompress_def new_writer_def F_def DICT_SIZE_HEADER_LEN_def)
qed

text \<open>C11: decompressing what \<open>compress\<close> produced gives back the input, for every window size and
  literal-line setting, whenever the caller's limit admits the input. The length bounds are those
  of Rust slices (an input below \<open>2 ^ 50\<close> bytes also has a stream below \<open>2 ^ 64\<close> bytes).\<close>

theorem tinyuz_roundtrip:
  assumes "length input \<le> max_out" "length input < 2 ^ 50" "max_out < 2 ^ 64"
  shows "decompress (compress input params) max_out = Inr input"
  by (rule decompress_compress [OF assms])

definition sample_frame :: bytes where
  "sample_frame = [1, 2, 3, 1, 2, 3, 1, 2, 3, 9]"

lemma tinyuz_roundtrip_witness:
  "length sample_frame \<le> 10 \<and>
   decompress (compress sample_frame \<lparr>dict_size = 4096, literal_lines = True\<rparr>) 10 = Inr sample_frame"
proof -
  have n: "length sample_frame = 10" by (simp add: sample_frame_def)
  show ?thesis using tinyuz_roundtrip [of sample_frame 10] n by simp
qed

section \<open>The declared dictionary size\<close>

lemma dict_size_max_out_type [simp]: "dict_size_max (out_type w b) = dict_size_max w"
  by (simp add: out_type_def Let_def)

lemma dict_size_max_out_bytes [simp]:
  "dict_size_max (out_bytes w d) = dict_size_max w" "dict_size_max (out_byte w x) = dict_size_max w"
  by (simp_all add: out_bytes_def out_byte_def)

lemma dict_size_max_out_len [simp]: "dict_size_max (out_len w v p) = dict_size_max w"
proof -
  have "dict_size_max (out_groups w p rem n) = dict_size_max w" for rem n
    by (induction n arbitrary: w) (simp_all add: out_groups_Suc foldl_fields)
  then show ?thesis by (simp add: out_len_def split: prod.splits)
qed

lemma dict_size_max_out_ref [simp]: "dict_size_max (out_ref w len same pos) = dict_size_max w"
  by (simp add: out_ref_def out_dict_pos_def Let_def)

lemma dict_size_max_out_ctrl [simp]: "dict_size_max (out_ctrl w c) = dict_size_max w"
  by (simp add: out_ctrl_ref)

lemma dict_size_max_out_literals [simp]: "dict_size_max (out_literals w d) = dict_size_max w"
  by (simp add: out_literals_def Let_def foldl_fields)

lemma dict_size_max_flush [simp]: "dict_size_max (flush_from input w ls c) = dict_size_max w"
  by (simp add: flush_from_def)

lemma dict_size_max_out_dict [simp]: "dict_size_max (out_dict w m d) = max (dict_size_max w) d"
  by (simp add: out_dict_ref)

lemma compress_loop_dict_size:
  assumes "compress_loop input window w ls cursor = (w', ls')"
  shows "dict_size_max w \<le> dict_size_max w' \<and> dict_size_max w' \<le> max (dict_size_max w) window"
  using assms
proof (induction input window w ls cursor rule: compress_loop.induct)
  case (1 input window w ls cursor)
  show ?case
  proof (cases "cursor < length input")
    case True
    show ?thesis
    proof (cases "best_match input cursor window (dict_pos_back w) (have_data_back w)")
      case None
      then show ?thesis
        using "1.IH"(1) [OF True None] "1.prems" True by (simp add: compress_loop.simps [of input window w])
    next
      case (Some b)
      then obtain len d where b: "best_match input cursor window (dict_pos_back w) (have_data_back w) = Some (len, d)"
        by (cases b) auto
      let ?w = "out_dict (flush_from input w ls cursor) len d"
      have run: "compress_loop input window ?w (cursor + len) (cursor + len) = (w', ls')"
        using "1.prems"(1) b True by (simp add: compress_loop.simps [of input window w] flush_from_def Let_def)
      have "dict_size_max ?w \<le> dict_size_max w' \<and> dict_size_max w' \<le> max (dict_size_max ?w) window"
        using "1.IH"(2) [OF True b refl refl] run by (simp add: flush_from_def)
      then show ?thesis using best_match_window [OF b] by auto
    qed
  qed (use "1.prems" in \<open>simp add: compress_loop.simps [of input window w]\<close>)
qed

text \<open>the dictionary size a compressed stream declares is at least one and at most the
  configured window (4096 for the fan firmware), so a receiver that allocates what the header says
  never needs more than it was built for.\<close>

theorem tinyuz_declared_size:
  assumes "dict_size params < 2 ^ 32"
  shows "\<exists>h. declared_dict_size (compress input params) = Some h \<and>
    1 \<le> unat h \<and> unat h \<le> max (dict_size params) 1"
proof -
  obtain w ls where run: "compress_loop input (max (dict_size params) 1) (new_writer (literal_lines params)) 0 0 = (w, ls)"
    by fastforce
  define we where "we = out_ctrl (if ls < length input then out_literals w (drop ls input) else w) CTRL_STREAM_END"
  have bounds: "1 \<le> dict_size_max we" "dict_size_max we \<le> max (dict_size params) 1"
    using compress_loop_dict_size [OF run] by (auto simp: we_def new_writer_def)
  then have lt: "dict_size_max we < 2 ^ 32" using assms by simp
  have F: "compress input params = copy_at 0 (le32 (of_nat (dict_size_max we))) (w_code we)"
    unfolding compress_def run Let_def finish_def using lt by (simp add: we_def)
  have "declared_dict_size (compress input params) = Some (of_nat (dict_size_max we))"
    by (simp add: F declared_dict_size_def copy_at_def le32_def nth_append)
  then show ?thesis using bounds lt by (simp add: unat_of_nat)
qed

lemma tinyuz_declared_size_witness:
  "(4096::nat) < 2 ^ 32 \<and>
   (\<exists>h. declared_dict_size (compress sample_frame \<lparr>dict_size = 4096, literal_lines = True\<rparr>) = Some h \<and>
     1 \<le> unat h \<and> unat h \<le> 4096)"
  using tinyuz_declared_size [of "\<lparr>dict_size = 4096, literal_lines = True\<rparr>" sample_frame] by simp

end
