(* ===== verification/Wireless_Frame.thy ===== *)
theory Wireless_Frame
  imports Tinyuz_Props
begin

text \<open>
  Framing of the L-Wireless radio link, \<^verbatim>\<open>hypercolor-hal/src/drivers/lianli/wireless/frame.rs\<close>:
  240-byte RF envelopes relayed in four USB packets, and the transfer of a compressed RGB frame in
  a header envelope and data envelopes. Fixed arrays are lists of their length. The local wall clock
  is an argument.

  The facts follow a frame to the receiver: the USB packets give back the envelopes, the data
  envelopes in order give back the compressed stream, and decompressing it gives back the pixels.
\<close>

section \<open>Packets and envelopes\<close>

type_synonym mac = bytes
type_synonym rf_envelope = bytes

definition USB_PACKET_LEN :: nat where "USB_PACKET_LEN = 64"
definition USB_CMD_SEND_RF :: u8 where "USB_CMD_SEND_RF = 0x10"
definition USB_CMD_GET_MAC :: u8 where "USB_CMD_GET_MAC = 0x11"
definition USB_RF_HEADER_LEN :: nat where "USB_RF_HEADER_LEN = 4"
definition RF_ENVELOPE_LEN :: nat where "RF_ENVELOPE_LEN = 240"
definition RF_SLICES_PER_ENVELOPE :: nat where "RF_SLICES_PER_ENVELOPE = 4"
definition RF_SLICE_LEN :: nat where "RF_SLICE_LEN = RF_ENVELOPE_LEN div RF_SLICES_PER_ENVELOPE"
definition RF_SELECT :: u8 where "RF_SELECT = 0x12"
definition RF_BROADCAST_SLOT :: u8 where "RF_BROADCAST_SLOT = 0xFF"
definition RGB_CHUNK_LEN :: nat where "RGB_CHUNK_LEN = 220"
definition RGB_DATA_OFFSET :: nat where "RGB_DATA_OFFSET = 20"
definition CLOCK_PAYLOAD_LEN :: nat where "CLOCK_PAYLOAD_LEN = 220"
definition CLOCK_FIXED_LEN :: nat where "CLOCK_FIXED_LEN = 50"
definition CLOCK_UNSET :: u8 where "CLOCK_UNSET = 0x14"

datatype rf_sub_command = Pwm | SelectedGroup | ClockSync | SaveConfig | SetRgb

primrec sub_command_byte :: "rf_sub_command \<Rightarrow> u8" where
  "sub_command_byte Pwm = 0x10"
| "sub_command_byte SelectedGroup = 0x12"
| "sub_command_byte ClockSync = 0x14"
| "sub_command_byte SaveConfig = 0x15"
| "sub_command_byte SetRgb = 0x20"

definition control_packet :: "bytes \<Rightarrow> bytes" where
  "control_packet prefix =
     (let len = min (length prefix) USB_PACKET_LEN
      in copy_at 0 (take len prefix) (replicate USB_PACKET_LEN 0))"

definition get_mac_query :: "u8 \<Rightarrow> bytes" where
  "get_mac_query channel = control_packet [USB_CMD_GET_MAC, channel]"

definition get_dev_poll :: "u8 \<Rightarrow> bytes" where
  "get_dev_poll pages = control_packet [USB_CMD_SEND_RF, pages]"

definition stream_prep_packet :: "u8 \<Rightarrow> u8 \<Rightarrow> bytes" where
  "stream_prep_packet device_index channel =
     control_packet [USB_CMD_SEND_RF, device_index, channel, RF_BROADCAST_SLOT]"

definition rf_envelope_new :: "rf_sub_command \<Rightarrow> mac \<Rightarrow> mac \<Rightarrow> rf_envelope" where
  "rf_envelope_new sub target master =
     copy_at 8 master (copy_at 2 target
       ((replicate RF_ENVELOPE_LEN 0)[0 := RF_SELECT, 1 := sub_command_byte sub]))"

definition usb_packet :: "rf_envelope \<Rightarrow> u8 \<Rightarrow> u8 \<Rightarrow> nat \<Rightarrow> bytes" where
  "usb_packet env channel rx_type index =
     copy_at USB_RF_HEADER_LEN (slice (index * RF_SLICE_LEN) RF_SLICE_LEN env)
       ((replicate USB_PACKET_LEN 0)[0 := USB_CMD_SEND_RF, 1 := of_nat index, 2 := channel, 3 := rx_type])"

definition usb_packets :: "rf_envelope \<Rightarrow> u8 \<Rightarrow> u8 \<Rightarrow> bytes list" where
  "usb_packets env channel rx_type = map (usb_packet env channel rx_type) [0..<RF_SLICES_PER_ENVELOPE]"

definition pwm_envelope :: "mac \<Rightarrow> mac \<Rightarrow> u8 \<Rightarrow> u8 \<Rightarrow> u8 \<Rightarrow> bytes \<Rightarrow> rf_envelope" where
  "pwm_envelope target master rx_type channel slot_index pwm =
     copy_at 17 pwm ((rf_envelope_new Pwm target master)[14 := rx_type, 15 := channel, 16 := slot_index])"

definition save_config_envelope :: "mac \<Rightarrow> rf_envelope" where
  "save_config_envelope master = (rf_envelope_new SaveConfig (replicate 6 0xFF) master)[14 := RF_BROADCAST_SLOT]"

record wall_clock =
  wc_year :: u16
  wc_month :: u8
  wc_day :: u8
  wc_hour :: u8
  wc_minute :: u8
  wc_second :: u8

definition clock_payload :: "wall_clock \<Rightarrow> bytes" where
  "clock_payload c =
     (copy_at 32 (be16 (wc_year c)) (copy_at 0 (replicate CLOCK_FIXED_LEN CLOCK_UNSET) (replicate CLOCK_PAYLOAD_LEN 0)))
       [34 := wc_month c, 35 := wc_day c, 36 := wc_hour c, 37 := wc_minute c, 38 := wc_second c]"

definition clock_sync_envelope :: "mac \<Rightarrow> bytes \<Rightarrow> rf_envelope" where
  "clock_sync_envelope master payload = copy_at 14 payload (rf_envelope_new ClockSync (replicate 6 0) master)"

definition effect_index_for :: "bytes \<Rightarrow> bytes" where
  "effect_index_for raw_rgb =
     (let hash = foldl (\<lambda>h b. (h XOR ucast b) * 0x01000193) (0x811c9dc5 :: u32) raw_rgb
      in be32 (if hash = 0 then 1 else hash))"

section \<open>RGB transfers\<close>

definition FIRMWARE_DICT_SIZE :: nat where "FIRMWARE_DICT_SIZE = 4096"

definition default_params :: tuz_params where
  "default_params = \<lparr>dict_size = FIRMWARE_DICT_SIZE, literal_lines = True\<rparr>"

record rgb_transfer =
  rt_header :: rf_envelope
  rt_data :: "rf_envelope list"

definition u8_or_max :: "nat \<Rightarrow> u8" where
  "u8_or_max n = (if n < 256 then of_nat n else - 1)"

definition data_envelope :: "mac \<Rightarrow> mac \<Rightarrow> bytes \<Rightarrow> u8 \<Rightarrow> nat \<Rightarrow> bytes \<Rightarrow> rf_envelope" where
  "data_envelope target master effect_index total_packets index chunk =
     copy_at RGB_DATA_OFFSET chunk
       ((copy_at 14 effect_index (rf_envelope_new SetRgb target master))
          [18 := u8_or_max (index + 1), 19 := total_packets])"

definition build_rgb_transfer ::
    "mac \<Rightarrow> mac \<Rightarrow> bytes \<Rightarrow> u8 \<Rightarrow> u16 \<Rightarrow> u16 \<Rightarrow> bytes \<Rightarrow> rgb_transfer" where
  "build_rgb_transfer target master effect_index led_count total_frames interval_ms raw_rgb =
     (let compressed = compress raw_rgb default_params;
          data_packets = (length compressed + RGB_CHUNK_LEN - 1) div RGB_CHUNK_LEN;
          total_packets = u8_or_max (data_packets + 1);
          h0 = copy_at 14 effect_index (rf_envelope_new SetRgb target master);
          h1 = h0[18 := 0, 19 := total_packets];
          compressed_len = (if length compressed < 2 ^ 32 then of_nat (length compressed) else - 1);
          h2 = (copy_at 20 (be32 compressed_len) h1)[24 := 0];
          h3 = (copy_at 25 (be16 total_frames) h2)[27 := led_count];
          header = copy_at 32 (be16 interval_ms) h3
      in \<lparr>rt_header = header,
          rt_data = map (\<lambda>(index, chunk). data_envelope target master effect_index total_packets index chunk)
                      (enumerate 0 (chunks RGB_CHUNK_LEN compressed))\<rparr>)"

definition reverse_fan_order :: "bytes \<Rightarrow> nat \<Rightarrow> nat \<Rightarrow> bytes" where
  "reverse_fan_order raw_rgb leds_per_fan fan_count =
     (let bytes_per_fan = leds_per_fan * 3
      in if bytes_per_fan = 0 \<or> fan_count \<le> 1 then raw_rgb
         else
           concat (map (\<lambda>fan. let start = fan * bytes_per_fan;
                                fin = min (start + bytes_per_fan) (length raw_rgb)
                            in if start < fin then slice start (fin - start) raw_rgb else [])
                     (rev [0..<fan_count]))
           @ drop (min (fan_count * bytes_per_fan) (length raw_rgb)) raw_rgb)"


section \<open>What a receiver reads\<close>

text \<open>The relay: the payloads of the four USB packets of an envelope, in order, are the envelope.\<close>

lemmas wire_lengths = USB_PACKET_LEN_def USB_RF_HEADER_LEN_def RF_ENVELOPE_LEN_def RF_SLICES_PER_ENVELOPE_def
  RF_SLICE_LEN_def RGB_CHUNK_LEN_def RGB_DATA_OFFSET_def CLOCK_PAYLOAD_LEN_def CLOCK_FIXED_LEN_def

lemma slices_cover:
  "concat (map (\<lambda>i. slice (i * n) n xs) [0..<k]) = take (k * n) xs"
  by (induction k) (simp_all add: take_slice [symmetric] add.commute [of n])

lemma usb_packet_payload:
  assumes "length env = RF_ENVELOPE_LEN" "i < RF_SLICES_PER_ENVELOPE"
  shows "drop 4 (usb_packet env ch rx i) = slice (i * RF_SLICE_LEN) RF_SLICE_LEN env"
    and "length (usb_packet env ch rx i) = USB_PACKET_LEN"
    and "take 4 (usb_packet env ch rx i) = [USB_CMD_SEND_RF, of_nat i, ch, rx]"
  using assms
  by (simp_all add: usb_packet_def copy_at_def slice_def wire_lengths take_update_swap)
    (simp add: numeral_eq_Suc)

lemma usb_packets_relay:
  assumes "length env = RF_ENVELOPE_LEN"
  shows "concat (map (drop 4) (usb_packets env ch rx)) = env"
proof -
  have "concat (map (drop 4) (usb_packets env ch rx))
      = concat (map (\<lambda>i. slice (i * RF_SLICE_LEN) RF_SLICE_LEN env) [0..<RF_SLICES_PER_ENVELOPE])"
    unfolding usb_packets_def map_map using usb_packet_payload(1) [OF assms]
    by (intro arg_cong [where f = concat] map_cong) simp_all
  then show ?thesis
    using assms by (simp only: slices_cover) (simp add: wire_lengths)
qed

lemma rf_envelope_new_parts:
  assumes "length target = 6" "length master = 6"
  shows "length (rf_envelope_new sub target master) = RF_ENVELOPE_LEN"
    and "slice 20 220 (rf_envelope_new sub target master) = replicate 220 0"
  using assms
  by (simp_all add: rf_envelope_new_def wire_lengths slice_copy_at_disjoint slice_update_other)
     (simp add: slice_def)

text \<open>A data envelope: its place in the transfer, and its chunk padded with zeros.\<close>

lemma data_envelope_parts:
  assumes "length target = 6" "length master = 6" "length effect = 4" "length chunk \<le> RGB_CHUNK_LEN"
  shows "length (data_envelope target master effect tot i chunk) = RF_ENVELOPE_LEN"
    and "data_envelope target master effect tot i chunk ! 18 = u8_or_max (i + 1)"
    and "data_envelope target master effect tot i chunk ! 19 = tot"
    and "slice 14 4 (data_envelope target master effect tot i chunk) = effect"
    and "slice 20 220 (data_envelope target master effect tot i chunk) = chunk @ replicate (220 - length chunk) 0"
proof -
  let ?e = "(copy_at 14 effect (rf_envelope_new SetRgb target master))[18 := u8_or_max (i + 1), 19 := tot]"
  note len = rf_envelope_new_parts(1) [OF assms(1,2), of SetRgb, unfolded RF_ENVELOPE_LEN_def]
  note zero = rf_envelope_new_parts(2) [OF assms(1,2), of SetRgb]
  have e: "length ?e = 240" "slice 20 220 ?e = replicate 220 0" "slice 14 4 ?e = effect"
    using assms(3) len zero by (simp_all add: slice_copy_at_disjoint slice_update_other slice_copy_at_same)
  have c: "length chunk \<le> 220"
    using assms(4) by (simp add: RGB_CHUNK_LEN_def)
  show "length (data_envelope target master effect tot i chunk) = RF_ENVELOPE_LEN"
    unfolding data_envelope_def using e(1) c by (simp add: wire_lengths)
  show "data_envelope target master effect tot i chunk ! 18 = u8_or_max (i + 1)"
    and "data_envelope target master effect tot i chunk ! 19 = tot"
    using e(1) c len assms(3) by (simp_all add: data_envelope_def nth_copy_at wire_lengths)
  show "slice 14 4 (data_envelope target master effect tot i chunk) = effect"
    unfolding data_envelope_def using e c by (simp add: wire_lengths slice_copy_at_disjoint)
  show "slice 20 220 (data_envelope target master effect tot i chunk) = chunk @ replicate (220 - length chunk) 0"
    unfolding data_envelope_def RGB_DATA_OFFSET_def using e c by (intro slice_copy_at_padded) simp_all
qed

lemma take_concat_padded:
  "0 < n \<Longrightarrow> take (length xs) (concat (map (\<lambda>c. c @ replicate (n - length c) z) (chunks n xs))) = xs"
proof (induction n xs rule: chunks.induct)
  case (1 n xs)
  show ?case
  proof (cases "xs = []")
    case False
    note IH = 1(1) [OF _ 1(2)]
    show ?thesis
    proof (cases "n \<le> length xs")
      case True
      then show ?thesis
        using False 1(2) IH by (simp add: chunks_step)
    next
      case small: False
      then show ?thesis
        using False 1(2) by (simp add: chunks_step)
    qed
  qed simp
qed


section \<open>A frame reaches the receiver\<close>

lemma be32_bytes [simp]: "from_be32 (be32 w ! 0) (be32 w ! 1) (be32 w ! 2) (be32 w ! 3) = w"
  by (simp add: be32_def from_be32_parts)

lemma nth_slice_add: "k < n \<Longrightarrow> i + n \<le> length xs \<Longrightarrow> slice i n xs ! k = xs ! (i + k)"
  by (simp add: slice_def)

abbreviation rgb_payload :: "bytes \<Rightarrow> bytes" where
  "rgb_payload raw \<equiv> compress raw default_params"

abbreviation rgb_packets :: "bytes \<Rightarrow> nat" where
  "rgb_packets raw \<equiv> length (chunks RGB_CHUNK_LEN (rgb_payload raw))"

lemma rgb_packets_eq: "(length (rgb_payload raw) + RGB_CHUNK_LEN - Suc 0) div RGB_CHUNK_LEN = rgb_packets raw"
  by (simp add: length_chunks RGB_CHUNK_LEN_def)

lemma chunk_size:
  "i < rgb_packets raw \<Longrightarrow> length (chunks RGB_CHUNK_LEN (rgb_payload raw) ! i) \<le> RGB_CHUNK_LEN"
  using chunks_bounds [OF _ nth_mem] by (metis RGB_CHUNK_LEN_def zero_less_numeral)

lemma transfer_header:
  fixes raw :: bytes and leds :: u8 and frames interval :: u16
  assumes "length target = 6" "length master = 6" "length effect = 4"
  defines "h \<equiv> rt_header (build_rgb_transfer target master effect leds frames interval raw)"
  shows "length h = RF_ENVELOPE_LEN"
    and "h ! 18 = 0"
    and "h ! 19 = u8_or_max (rgb_packets raw + 1)"
    and "slice 14 4 h = effect"
    and "length (rgb_payload raw) < 2 ^ 32 \<Longrightarrow> slice 20 4 h = be32 (of_nat (length (rgb_payload raw)))"
    and "slice 25 2 h = be16 frames"
    and "h ! 27 = leds"
    and "slice 32 2 h = be16 interval"
proof -
  note len = rf_envelope_new_parts(1) [OF assms(1,2), of SetRgb, unfolded RF_ENVELOPE_LEN_def]
  have [simp]: "length (be32 w) = 4" "length (be16 v) = 2" for w v
    by (simp_all add: be32_def be16_def)
  note h = h_def build_rgb_transfer_def Let_def rgb_packets_eq
  show "length h = RF_ENVELOPE_LEN"
    and "h ! 18 = 0"
    and "h ! 19 = u8_or_max (rgb_packets raw + 1)"
    and "slice 14 4 h = effect"
    and "length (rgb_payload raw) < 2 ^ 32 \<Longrightarrow> slice 20 4 h = be32 (of_nat (length (rgb_payload raw)))"
    and "slice 25 2 h = be16 frames"
    and "h ! 27 = leds"
    and "slice 32 2 h = be16 interval"
    using len assms(3)
    by (simp_all add: h RF_ENVELOPE_LEN_def nth_copy_at slice_copy_at_disjoint slice_copy_at_same slice_update_other)
qed

lemma transfer_data:
  "rt_data (build_rgb_transfer target master effect leds frames interval raw) =
     map (\<lambda>i. data_envelope target master effect (u8_or_max (rgb_packets raw + 1)) i
               (chunks RGB_CHUNK_LEN (rgb_payload raw) ! i)) [0..<rgb_packets raw]"
  unfolding build_rgb_transfer_def Let_def One_nat_def rgb_packets_eq rgb_transfer.select_convs
  by (intro nth_equalityI) (simp_all add: nth_enumerate_eq)

lemma received_stream:
  assumes "length target = 6" "length master = 6" "length effect = 4"
  shows "take (length (rgb_payload raw))
     (concat (map (slice 20 220) (rt_data (build_rgb_transfer target master effect leds frames interval raw)))) =
     rgb_payload raw"
proof -
  let ?cs = "chunks RGB_CHUNK_LEN (rgb_payload raw)"
  have "map (slice 20 220) (rt_data (build_rgb_transfer target master effect leds frames interval raw)) =
      map (\<lambda>i. ?cs ! i @ replicate (220 - length (?cs ! i)) 0) [0..<rgb_packets raw]"
    by (simp add: transfer_data data_envelope_parts(5) [OF assms chunk_size])
  also have "\<dots> = map (\<lambda>c. c @ replicate (220 - length c) 0) ?cs"
    by (intro nth_equalityI) simp_all
  finally show ?thesis
    using take_concat_padded [of 220 "rgb_payload raw" 0] by (simp add: RGB_CHUNK_LEN_def)
qed

lemma transfer_places:
  fixes raw :: bytes and leds :: u8 and frames interval :: u16
  assumes "length target = 6" "length master = 6" "length effect = 4" "rgb_packets raw \<le> 254"
  defines "t \<equiv> build_rgb_transfer target master effect leds frames interval raw"
  assumes i: "i < length (rt_header t # rt_data t)"
  shows "length ((rt_header t # rt_data t) ! i) = RF_ENVELOPE_LEN
       \<and> unat ((rt_header t # rt_data t) ! i ! 18) = i
       \<and> unat ((rt_header t # rt_data t) ! i ! 19) = length (rt_header t # rt_data t)
       \<and> slice 14 4 ((rt_header t # rt_data t) ! i) = effect"
proof -
  let ?cs = "chunks RGB_CHUNK_LEN (rgb_payload raw)"
  have len: "length (rt_data t) = rgb_packets raw"
    by (simp add: t_def transfer_data)
  have small: "unat (u8_or_max n) = n" if "n \<le> 255" for n
    using that by (simp add: u8_or_max_def unat_of_nat)
  show ?thesis
  proof (cases i)
    case 0
    then show ?thesis
      using transfer_header(1-4) [OF assms(1-3), of leds frames interval raw] assms(4)
      by (simp add: len small t_def [symmetric])
  next
    case (Suc j)
    then have j: "j < rgb_packets raw"
      using i len by simp
    note parts = data_envelope_parts [OF assms(1-3) chunk_size [OF j]]
    have "(rt_header t # rt_data t) ! i =
        data_envelope target master effect (u8_or_max (rgb_packets raw + 1)) j (?cs ! j)"
      using Suc j by (simp add: t_def transfer_data)
    then show ?thesis
      using parts(1-4) Suc j assms(4) by (simp add: len small)
  qed
qed

text \<open>C28: An RGB frame that compresses to at most 254 chunks reaches the receiver: every envelope of the transfer
  is the concatenation of the payloads of its four USB packets; the header and the data envelopes are
  numbered from zero in order, each carries the number of envelopes and the effect tag; the header
  carries the frame count, LED count and interval; and the data regions in order, cut to the length
  the header declares, decompress to exactly the pixels.\<close>

theorem rgb_transfer_delivers:
  fixes raw :: bytes and leds channel rx_type :: u8 and frames interval :: u16
  assumes "length target = 6" "length master = 6" "length effect = 4"
    and "length raw < 2 ^ 50"
    and "length (compress raw default_params) \<le> 254 * RGB_CHUNK_LEN"
  defines "t \<equiv> build_rgb_transfer target master effect leds frames interval raw"
  defines "es \<equiv> rt_header t # rt_data t"
  shows "(\<forall>e \<in> set es. concat (map (drop 4) (usb_packets e channel rx_type)) = e)
       \<and> (\<forall>i < length es. unat (es ! i ! 18) = i \<and> unat (es ! i ! 19) = length es
            \<and> slice 14 4 (es ! i) = effect)
       \<and> slice 25 2 (rt_header t) = be16 frames \<and> rt_header t ! 27 = leds
       \<and> slice 32 2 (rt_header t) = be16 interval
       \<and> (let h = rt_header t; n = unat (from_be32 (h ! 20) (h ! 21) (h ! 22) (h ! 23))
          in decompress (take n (concat (map (slice 20 220) (rt_data t)))) (length raw) = Inr raw)"
proof -
  have "rgb_packets raw = (length (rgb_payload raw) + 219) div 220"
    by (simp add: length_chunks RGB_CHUNK_LEN_def)
  also have "\<dots> \<le> (254 * 220 + 219) div 220"
    using assms(5) unfolding RGB_CHUNK_LEN_def by (intro div_le_mono add_right_mono)
  finally have few: "rgb_packets raw \<le> 254" by simp
  note places = transfer_places [OF assms(1-3) few, of _ leds frames interval, folded t_def, folded es_def]
  note header = transfer_header [OF assms(1-3), where leds = leds and frames = frames and interval = interval and raw = raw, folded t_def]
  have relay: "\<forall>e \<in> set es. concat (map (drop 4) (usb_packets e channel rx_type)) = e"
    using places usb_packets_relay by (metis in_set_conv_nth)
  have size: "length (rgb_payload raw) < 2 ^ 32"
    using assms(5) by (simp add: RGB_CHUNK_LEN_def)
  have "slice 20 4 (rt_header t) ! k = rt_header t ! (20 + k)" if "k < 4" for k
    using that header(1) by (intro nth_slice_add) (simp_all add: RF_ENVELOPE_LEN_def)
  from this [of 0] this [of 1] this [of 2] this [of 3]
  have n: "unat (from_be32 (rt_header t ! 20) (rt_header t ! 21) (rt_header t ! 22) (rt_header t ! 23)) =
      length (rgb_payload raw)"
    using header(5) [OF size] size be32_bytes [of "of_nat (length (rgb_payload raw))"]
    by (simp add: unat_of_nat)
  have "decompress (rgb_payload raw) (length raw) = Inr raw"
    using assms(4) by (intro decompress_compress) simp_all
  then have "let h = rt_header t; n = unat (from_be32 (h ! 20) (h ! 21) (h ! 22) (h ! 23))
      in decompress (take n (concat (map (slice 20 220) (rt_data t)))) (length raw) = Inr raw"
    unfolding Let_def n using received_stream [OF assms(1-3), of raw leds frames interval, folded t_def] by simp
  with relay places header(6-8) show ?thesis by blast
qed

theorem rgb_transfer_delivers_witness:
  "let t = build_rgb_transfer [1,2,3,4,5,6] [9,8,7,6,5,4] [0,0,0,1] 1 1 33 [255,128,7] in
   decompress (take (unat (from_be32 (rt_header t ! 20) (rt_header t ! 21) (rt_header t ! 22) (rt_header t ! 23)))
     (concat (map (slice 20 220) (rt_data t)))) 3 = Inr [255,128,7]"
proof -
  have "length (compress [255, 128, 7] default_params) \<le> 254 * RGB_CHUNK_LEN"
    using size_compress [of "[255, 128, 7]" default_params] by (simp add: RGB_CHUNK_LEN_def)
  from rgb_transfer_delivers [OF _ _ _ _ this, of "[1,2,3,4,5,6]" "[9,8,7,6,5,4]" "[0,0,0,1]" 1 1 33 8 1]
  show ?thesis by (simp add: Let_def numeral_3_eq_3)
qed

section \<open>Broadcasts and fan order\<close>

text \<open>A receiver that takes a clock broadcast for a targeted frame reads the unset sentinel as its slot
  and channel, for every clock.\<close>

lemma clock_payload_fields:
  "length (clock_payload c) = CLOCK_PAYLOAD_LEN"
  "slice 0 2 (clock_payload c) = [CLOCK_UNSET, CLOCK_UNSET]"
  "slice 32 7 (clock_payload c) =
     be16 (wc_year c) @ [wc_month c, wc_day c, wc_hour c, wc_minute c, wc_second c]"
  by (simp_all add: clock_payload_def wire_lengths be16_def copy_at_def)
    (simp_all add: slice_def numeral_eq_Suc)

lemma clock_sync_never_addresses:
  assumes "length master = 6"
  shows "slice 14 2 (clock_sync_envelope master (clock_payload c)) = [CLOCK_UNSET, CLOCK_UNSET]"
    and "slice 46 7 (clock_sync_envelope master (clock_payload c)) =
      be16 (wc_year c) @ [wc_month c, wc_day c, wc_hour c, wc_minute c, wc_second c]"
proof -
  have "length (rf_envelope_new ClockSync (replicate 6 0) master) = 240"
    using rf_envelope_new_parts(1) [of "replicate 6 0" master ClockSync] assms by (simp add: RF_ENVELOPE_LEN_def)
  then have inside: "slice (14 + j) n (clock_sync_envelope master (clock_payload c)) = slice j n (clock_payload c)"
    if "j + n \<le> 220" for j n
    unfolding clock_sync_envelope_def
    using that by (intro slice_copy_at_inside) (simp_all add: clock_payload_fields(1) CLOCK_PAYLOAD_LEN_def)
  show "slice 14 2 (clock_sync_envelope master (clock_payload c)) = [CLOCK_UNSET, CLOCK_UNSET]"
    using inside [of 0 2] clock_payload_fields(2) by simp
  show "slice 46 7 (clock_sync_envelope master (clock_payload c)) =
      be16 (wc_year c) @ [wc_month c, wc_day c, wc_hour c, wc_minute c, wc_second c]"
    using inside [of 32 7] clock_payload_fields(3) by simp
qed

lemma be32_zero: "be32 w = [0, 0, 0, 0] \<longleftrightarrow> w = 0"
  using from_be32_parts [of w] by (auto simp: be32_def from_be32_def)

lemma effect_index_nonzero: "effect_index_for raw \<noteq> [0, 0, 0, 0]"
  by (simp add: effect_index_for_def Let_def be32_zero)

text \<open>Reversing the fans of a frame that covers them all: fan \<open>i\<close> of the wire is fan
  \<open>fan_count - 1 - i\<close> of the layout, the bytes after the last fan stay, and reversing again gives
  the frame back.\<close>

lemma slice_block:
  assumes "\<forall>b \<in> set bs. length b = n" "i < length bs"
  shows "slice (i * n) n (concat bs @ t) = bs ! i"
  using assms
proof (induction bs arbitrary: i)
  case (Cons b bs)
  then show ?case by (cases i) (simp_all add: slice_def)
qed simp

lemma length_blocks: "\<forall>b \<in> set bs. length b = n \<Longrightarrow> length (concat bs) = length bs * n"
  by (induction bs) simp_all

lemma reverse_fan_order_covered:
  assumes "0 < leds" "1 < fans" "fans * (leds * 3) \<le> length raw"
  shows "reverse_fan_order raw leds fans =
     concat (map (\<lambda>i. slice (i * (leds * 3)) (leds * 3) raw) (rev [0..<fans])) @ drop (fans * (leds * 3)) raw"
proof -
  have "i * (leds * 3) + leds * 3 \<le> length raw" if "i < fans" for i
  proof -
    have "(i + 1) * (leds * 3) \<le> fans * (leds * 3)"
      using that by (intro mult_le_mono1) simp
    then show ?thesis using assms(3) by simp
  qed
  then have blocks: "map (\<lambda>fan. let start = fan * (leds * 3); fin = min (start + leds * 3) (length raw)
        in if start < fin then slice start (fin - start) raw else []) (rev [0..<fans]) =
      map (\<lambda>i. slice (i * (leds * 3)) (leds * 3) raw) (rev [0..<fans])"
    using assms(1) by (intro map_cong) (auto simp: Let_def min_absorb1 slice_def)
  have "\<not> (leds * 3 = 0 \<or> fans \<le> 1)"
    using assms by simp
  then show ?thesis
    unfolding reverse_fan_order_def Let_def [of "leds * 3"] using blocks assms(3)
    by (simp only: if_False min_absorb1)
qed

lemma reverse_fan_order_blocks:
  assumes "0 < leds" "1 < fans" "fans * (leds * 3) \<le> length raw"
  shows "length (reverse_fan_order raw leds fans) = length raw"
    and "drop (fans * (leds * 3)) (reverse_fan_order raw leds fans) = drop (fans * (leds * 3)) raw"
    and "i < fans \<Longrightarrow> slice (i * (leds * 3)) (leds * 3) (reverse_fan_order raw leds fans) =
      slice ((fans - 1 - i) * (leds * 3)) (leds * 3) raw"
proof -
  let ?b = "leds * 3"
  let ?bs = "map (\<lambda>i. slice (i * ?b) ?b raw) (rev [0..<fans])"
  have "i * ?b + ?b \<le> length raw" if "i < fans" for i
    using mult_le_mono1 [of "Suc i" fans ?b] that assms(3) by simp
  then have blocks: "\<forall>b \<in> set ?bs. length b = ?b"
    by auto
  note len = length_blocks [OF blocks]
  note out = reverse_fan_order_covered [OF assms]
  show "length (reverse_fan_order raw leds fans) = length raw"
    unfolding out length_append len using assms(3) by simp
  show "drop (fans * ?b) (reverse_fan_order raw leds fans) = drop (fans * ?b) raw"
    unfolding out using len by simp
  show "slice (i * ?b) ?b (reverse_fan_order raw leds fans) = slice ((fans - 1 - i) * ?b) ?b raw" if "i < fans"
    unfolding out using slice_block [OF blocks, of i] that by (simp add: rev_nth)
qed

lemma reverse_fan_order_involutive:
  assumes "fans * (leds * 3) \<le> length raw"
  shows "reverse_fan_order (reverse_fan_order raw leds fans) leds fans = raw"
proof (cases "0 < leds \<and> 1 < fans")
  case True
  then have p: "0 < leds" "1 < fans" by simp_all
  let ?b = "leds * 3" and ?r = "reverse_fan_order raw leds fans"
  note r = reverse_fan_order_blocks [OF p assms]
  have "reverse_fan_order ?r leds fans =
      concat (map (\<lambda>i. slice (i * ?b) ?b ?r) (rev [0..<fans])) @ drop (fans * ?b) ?r"
    using r(1) assms by (intro reverse_fan_order_covered p) simp
  also have "map (\<lambda>i. slice (i * ?b) ?b ?r) (rev [0..<fans]) = map (\<lambda>i. slice (i * ?b) ?b raw) [0..<fans]"
    by (intro nth_equalityI) (simp_all add: rev_nth r(3))
  finally show ?thesis
    unfolding slices_cover r(2) by simp
qed (auto simp: reverse_fan_order_def)

end
