(* ===== verification/Hal_Protocol.thy ===== *)
theory Hal_Protocol
  imports Device_Types
begin

text \<open>
  The protocol layer of the hardware drivers, \<^verbatim>\<open>hypercolor-hal/src/protocol.rs\<close>: commands with their
  response plans, the frame batch an encoder reports, and the command buffer that refills the
  commands of an earlier frame in place.

  The buffer is used through the interface \<open>command_sink\<close>: what was pushed is exactly what the
  caller finds after \<open>finish\<close>, whatever the recycled vector held before. Encoders are proved against
  that interface.
\<close>

section \<open>Commands\<close>

datatype response_tolerance = Required | Optional

record response_plan =
  rp_count :: u8
  rp_timeout :: "duration option"
  rp_capacity :: "nat option"
  rp_tolerance :: response_tolerance

definition default_response_plan :: response_plan where
  "default_response_plan = \<lparr>rp_count = 1, rp_timeout = None, rp_capacity = None, rp_tolerance = Required\<rparr>"

datatype transfer_type = Primary | Bulk | HidReport | Companion

record protocol_command =
  pc_data :: bytes
  pc_expects_response :: bool
  pc_response_delay :: duration
  pc_post_delay :: duration
  pc_transfer_type :: transfer_type
  pc_response :: response_plan

definition default_command :: protocol_command where
  "default_command =
     \<lparr>pc_data = [], pc_expects_response = False, pc_response_delay = 0, pc_post_delay = 0,
      pc_transfer_type = Primary, pc_response = default_response_plan\<rparr>"

definition with_response_count :: "protocol_command \<Rightarrow> u8 \<Rightarrow> protocol_command" where
  "with_response_count c count = c\<lparr>pc_response := (pc_response c)\<lparr>rp_count := count\<rparr>\<rparr>"

definition with_response_timeout :: "protocol_command \<Rightarrow> duration \<Rightarrow> protocol_command" where
  "with_response_timeout c timeout = c\<lparr>pc_response := (pc_response c)\<lparr>rp_timeout := Some timeout\<rparr>\<rparr>"

definition with_response_capacity :: "protocol_command \<Rightarrow> nat \<Rightarrow> protocol_command" where
  "with_response_capacity c capacity = c\<lparr>pc_response := (pc_response c)\<lparr>rp_capacity := Some capacity\<rparr>\<rparr>"

definition with_optional_response :: "protocol_command \<Rightarrow> protocol_command" where
  "with_optional_response c = c\<lparr>pc_response := (pc_response c)\<lparr>rp_tolerance := Optional\<rparr>\<rparr>"

datatype frame_batch = WriteBatch "nat option" "u64 option" | Unchanged | Held

definition whole_batch :: frame_batch where
  "whole_batch = WriteBatch None None"

definition from_commands :: "protocol_command list \<Rightarrow> frame_batch" where
  "from_commands commands = (if commands = [] then Unchanged else whole_batch)"

datatype response_status = StatusOk | StatusBusy | StatusFailed | StatusTimeout | StatusUnsupported | StatusUnsolicited

text \<open>The details of a malformed response and of an encoding error are messages for the log.\<close>

datatype protocol_error =
    CrcMismatch u8 u8
  | MalformedResponse
  | DeviceError response_status
  | EncodingError

record protocol_response =
  pr_status :: response_status
  pr_data :: bytes

record protocol_keepalive =
  ka_commands :: "protocol_command list"
  ka_interval :: duration

section \<open>The command buffer\<close>

record command_buffer =
  cb_commands :: "protocol_command list"
  cb_used :: nat

definition command_buffer_new :: "protocol_command list \<Rightarrow> command_buffer" where
  "command_buffer_new commands = \<lparr>cb_commands = commands, cb_used = 0\<rparr>"

definition push_fill ::
    "command_buffer \<Rightarrow> bool \<Rightarrow> duration \<Rightarrow> duration \<Rightarrow> transfer_type \<Rightarrow> (bytes \<Rightarrow> bytes) \<Rightarrow> command_buffer" where
  "push_fill b expects_response response_delay post_delay transfer_type fill =
     (let commands = (if cb_used b = length (cb_commands b) then cb_commands b @ [default_command] else cb_commands b);
          c0 = commands ! cb_used b;
          c1 = c0\<lparr>pc_expects_response := expects_response, pc_response_delay := response_delay,
                  pc_post_delay := post_delay, pc_transfer_type := transfer_type,
                  pc_response := default_response_plan\<rparr>;
          c2 = c1\<lparr>pc_data := []\<rparr>;
          c3 = c2\<lparr>pc_data := fill (pc_data c2)\<rparr>
      in \<lparr>cb_commands = commands[cb_used b := c3], cb_used = cb_used b + 1\<rparr>)"

definition push_slice ::
    "command_buffer \<Rightarrow> bytes \<Rightarrow> bool \<Rightarrow> duration \<Rightarrow> duration \<Rightarrow> transfer_type \<Rightarrow> command_buffer" where
  "push_slice b d expects_response response_delay post_delay transfer_type =
     push_fill b expects_response response_delay post_delay transfer_type (\<lambda>buffer. buffer @ d)"

definition buffer_finish :: "command_buffer \<Rightarrow> protocol_command list" where
  "buffer_finish b = take (cb_used b) (cb_commands b)"

section \<open>The interface of the buffer\<close>

text \<open>The slots a caller can rely on, and the command a push fills.\<close>

definition buffer_ok :: "command_buffer \<Rightarrow> bool" where
  "buffer_ok b \<longleftrightarrow> cb_used b \<le> length (cb_commands b)"

definition command_of :: "bytes \<Rightarrow> bool \<Rightarrow> duration \<Rightarrow> duration \<Rightarrow> transfer_type \<Rightarrow> protocol_command" where
  "command_of d expects_response response_delay post_delay transfer_type =
     \<lparr>pc_data = d, pc_expects_response = expects_response, pc_response_delay = response_delay,
      pc_post_delay = post_delay, pc_transfer_type = transfer_type, pc_response = default_response_plan\<rparr>"

definition push_command_of :: "command_buffer \<Rightarrow> protocol_command \<Rightarrow> command_buffer" where
  "push_command_of b c =
     push_slice b (pc_data c) (pc_expects_response c) (pc_response_delay c) (pc_post_delay c) (pc_transfer_type c)"

locale command_sink =
  fixes start :: "'c list \<Rightarrow> 'b"
    and push :: "'b \<Rightarrow> 'c \<Rightarrow> 'b"
    and finish :: "'b \<Rightarrow> 'c list"
    and ok :: "'b \<Rightarrow> bool"
    and plain :: "'c \<Rightarrow> bool"
  assumes ok_start: "ok (start old)"
    and finish_start: "finish (start old) = []"
    and ok_push: "ok b \<Longrightarrow> ok (push b c)"
    and finish_push: "ok b \<Longrightarrow> plain c \<Longrightarrow> finish (push b c) = finish b @ [c]"
begin

lemma ok_pushes: "ok b \<Longrightarrow> ok (foldl push b cs)"
  by (induction cs arbitrary: b) (simp_all add: ok_push)

lemma finish_pushes: "ok b \<Longrightarrow> list_all plain cs \<Longrightarrow> finish (foldl push b cs) = finish b @ cs"
  by (induction cs arbitrary: b) (simp_all add: ok_push finish_push)

lemma recycled: "list_all plain cs \<Longrightarrow> finish (foldl push (start old) cs) = cs"
  by (simp add: finish_pushes ok_start finish_start)

end

lemma buffer_ok_new [simp]: "buffer_ok (command_buffer_new old)"
  by (simp add: buffer_ok_def command_buffer_new_def)

lemma buffer_finish_new [simp]: "buffer_finish (command_buffer_new old) = []"
  by (simp add: buffer_finish_def command_buffer_new_def)

lemma push_fill_effect:
  assumes "buffer_ok b"
  shows "buffer_ok (push_fill b er rd pd tt fill)"
    and "buffer_finish (push_fill b er rd pd tt fill) = buffer_finish b @ [command_of (fill []) er rd pd tt]"
  using assms
  by (auto simp: buffer_ok_def push_fill_def buffer_finish_def Let_def command_of_def take_Suc_conv_app_nth nth_append
      nth_list_update)

interpretation command_buffer_sink: command_sink command_buffer_new push_command_of buffer_finish buffer_ok
    "\<lambda>c. pc_response c = default_response_plan"
proof unfold_locales
  fix b c
  assume "buffer_ok b"
  then show "buffer_ok (push_command_of b c)"
    by (simp add: push_command_of_def push_slice_def push_fill_effect)
  assume "pc_response c = default_response_plan"
  with \<open>buffer_ok b\<close> show "buffer_finish (push_command_of b c) = buffer_finish b @ [c]"
    by (simp add: push_command_of_def push_slice_def push_fill_effect command_of_def)
qed simp_all

end
