(* ===== verification/Razer.thy ===== *)
theory Razer
  imports Hal_Protocol
begin

text \<open>
  The Razer HID protocol, \<^verbatim>\<open>hypercolor-hal/src/drivers/razer/\<close>: \<^verbatim>\<open>crc.rs\<close> (the 90-byte report and its
  checksum), \<^verbatim>\<open>packet.rs\<close> (building commands, parsing responses), \<^verbatim>\<open>activation.rs\<close>, \<^verbatim>\<open>types.rs\<close> and
  \<^verbatim>\<open>protocol.rs\<close> (frames, brightness, scroll wheel, keepalive). The native byte order is an argument
  of the checksum. The presentation of the zone (its name, topology and layout hint) and the
  display name of the protocol are left out; log output is left out.
\<close>

section \<open>Reports and checksum\<close>

datatype byte_order = LittleEndian | BigEndian

definition from_le_bytes :: "bytes \<Rightarrow> u64" where
  "from_le_bytes bs = foldr (\<lambda>b acc. push_bit 8 acc OR ucast b) bs 0"

definition from_ne_bytes :: "byte_order \<Rightarrow> bytes \<Rightarrow> u64" where
  "from_ne_bytes order bs = (case order of LittleEndian \<Rightarrow> from_le_bytes bs | BigEndian \<Rightarrow> from_le_bytes (rev bs))"

definition to_ne_bytes :: "byte_order \<Rightarrow> u64 \<Rightarrow> bytes" where
  "to_ne_bytes order w = (case order of LittleEndian \<Rightarrow> le64 w | BigEndian \<Rightarrow> rev (le64 w))"

definition RAZER_REPORT_LEN :: nat where "RAZER_REPORT_LEN = 90"
definition REPORT_ARGS_LEN :: nat where "REPORT_ARGS_LEN = 80"
definition RESPONSE_HEADER_LEN :: nat where "RESPONSE_HEADER_LEN = 8"
definition RESPONSE_DATA_SIZE_OFFSET :: nat where "RESPONSE_DATA_SIZE_OFFSET = 5"
definition RESPONSE_ARGS_OFFSET :: nat where "RESPONSE_ARGS_OFFSET = 8"

record razer_report =
  rr_status :: u8
  rr_transaction_id :: u8
  rr_remaining_packets :: u16
  rr_protocol_type :: u8
  rr_data_size :: u8
  rr_command_class :: u8
  rr_command_id :: u8
  rr_args :: bytes
  rr_crc :: u8
  rr_reserved :: u8

text \<open>\<^verbatim>\<open>repr(C)\<close> layout of the report, and reading it from the front of a buffer.\<close>

definition report_bytes :: "razer_report \<Rightarrow> bytes" where
  "report_bytes r =
     [rr_status r, rr_transaction_id r] @ le16 (rr_remaining_packets r)
     @ [rr_protocol_type r, rr_data_size r, rr_command_class r, rr_command_id r]
     @ rr_args r @ [rr_crc r, rr_reserved r]"

definition read_report_prefix :: "bytes \<Rightarrow> razer_report" where
  "read_report_prefix d =
     \<lparr>rr_status = d ! 0, rr_transaction_id = d ! 1, rr_remaining_packets = from_be16 (d ! 3) (d ! 2),
      rr_protocol_type = d ! 4, rr_data_size = d ! 5, rr_command_class = d ! 6, rr_command_id = d ! 7,
      rr_args = slice 8 80 d, rr_crc = d ! 88, rr_reserved = d ! 89\<rparr>"

definition zeroed_report :: razer_report where
  "zeroed_report =
     \<lparr>rr_status = 0, rr_transaction_id = 0, rr_remaining_packets = 0, rr_protocol_type = 0, rr_data_size = 0,
      rr_command_class = 0, rr_command_id = 0, rr_args = replicate 80 0, rr_crc = 0, rr_reserved = 0\<rparr>"

text \<open>\<^verbatim>\<open>as_chunks\<close> splits off the whole chunks of eight; the rest is folded byte by byte.\<close>

definition razer_crc :: "byte_order \<Rightarrow> razer_report \<Rightarrow> u8" where
  "razer_crc order report =
     (let s = slice 2 86 (report_bytes report);
          whole = length s div 8 * 8;
          acc = foldl (\<lambda>acc chunk. acc XOR from_ne_bytes order chunk) 0 (chunks 8 (take whole s));
          b = to_ne_bytes order acc;
          result = b ! 0 XOR b ! 1 XOR b ! 2 XOR b ! 3 XOR b ! 4 XOR b ! 5 XOR b ! 6 XOR b ! 7
      in foldl (\<lambda>result byte. result XOR byte) result (drop whole s))"

section \<open>Packets\<close>

record command_timing =
  ct_expects_response :: bool
  ct_response_delay :: duration
  ct_post_delay :: duration

definition command_timing_new :: "bool \<Rightarrow> duration \<Rightarrow> duration \<Rightarrow> command_timing" where
  "command_timing_new expects_response response_delay post_delay =
     \<lparr>ct_expects_response = expects_response,
      ct_response_delay = if expects_response then response_delay else 0,
      ct_post_delay = post_delay\<rparr>"

record command_spec =
  cs_transaction_id :: u8
  cs_command_class :: u8
  cs_command_id :: u8
  cs_args :: bytes
  cs_declared_data_size :: "u8 option"
  cs_timing :: command_timing

definition build_report :: "byte_order \<Rightarrow> command_spec \<Rightarrow> razer_report option" where
  "build_report order spec =
     (if REPORT_ARGS_LEN < length (cs_args spec) then None
      else
        (let data_size = (case cs_declared_data_size spec of
                            Some n \<Rightarrow> n
                          | None \<Rightarrow> if length (cs_args spec) < 256 then of_nat (length (cs_args spec)) else 0)
         in if REPORT_ARGS_LEN < unat data_size then None
            else if unat data_size < length (cs_args spec) then None
            else
              (let report = zeroed_report
                     \<lparr>rr_transaction_id := cs_transaction_id spec, rr_data_size := data_size,
                      rr_command_class := cs_command_class spec, rr_command_id := cs_command_id spec,
                      rr_args := copy_at 0 (cs_args spec) (rr_args zeroed_report)\<rparr>
               in Some (report\<lparr>rr_crc := razer_crc order report\<rparr>))))"

definition build_command :: "byte_order \<Rightarrow> command_spec \<Rightarrow> protocol_command option" where
  "build_command order spec =
     (case build_report order spec of
        None \<Rightarrow> None
      | Some report \<Rightarrow>
          Some (default_command
            \<lparr>pc_data := report_bytes report, pc_expects_response := ct_expects_response (cs_timing spec),
             pc_response_delay := ct_response_delay (cs_timing spec), pc_post_delay := ct_post_delay (cs_timing spec),
             pc_transfer_type := Primary\<rparr>))"

definition push_command :: "byte_order \<Rightarrow> command_buffer \<Rightarrow> command_spec \<Rightarrow> command_buffer" where
  "push_command order encoder spec =
     (case build_report order spec of
        None \<Rightarrow> encoder
      | Some report \<Rightarrow>
          push_slice encoder (report_bytes report) (ct_expects_response (cs_timing spec))
            (ct_response_delay (cs_timing spec)) (ct_post_delay (cs_timing spec)) Primary)"

definition map_status :: "u8 \<Rightarrow> response_status" where
  "map_status byte =
     (if byte = 0x01 then StatusBusy
      else if byte = 0x02 then StatusOk
      else if byte = 0x04 then StatusTimeout
      else if byte = 0x05 then StatusUnsupported
      else StatusFailed)"

definition parse_short_response :: "bytes \<Rightarrow> protocol_error + protocol_response" where
  "parse_short_response d =
     (if length d < RESPONSE_HEADER_LEN then Inl MalformedResponse
      else
        (let status = map_status (d ! 0)
         in if status = StatusFailed then Inl (DeviceError status)
            else
              (let data_size = unat (d ! RESPONSE_DATA_SIZE_OFFSET)
               in if REPORT_ARGS_LEN < data_size then Inl MalformedResponse
                  else
                    (let payload_end = RESPONSE_ARGS_OFFSET + data_size
                     in if length d < payload_end then Inl MalformedResponse
                        else Inr \<lparr>pr_status = status,
                                  pr_data = slice RESPONSE_ARGS_OFFSET (payload_end - RESPONSE_ARGS_OFFSET) d\<rparr>))))"

definition parse_response :: "bytes \<Rightarrow> protocol_error + protocol_response" where
  "parse_response d =
     (if length d < RAZER_REPORT_LEN then parse_short_response d
      else
        (let report = read_report_prefix d;
             status = map_status (rr_status report)
         in if status = StatusFailed then Inl (DeviceError status)
            else
              (let data_size = unat (rr_data_size report)
               in if REPORT_ARGS_LEN < data_size then Inl MalformedResponse
                  else Inr \<lparr>pr_status = status, pr_data = take data_size (rr_args report)\<rparr>)))"

section \<open>Protocol variants\<close>

datatype razer_version = Legacy | Extended | Modern | WirelessKb | Special08 | KrakenV4

primrec transaction_id :: "razer_version \<Rightarrow> u8" where
  "transaction_id Legacy = 0xFF"
| "transaction_id Extended = 0x3F"
| "transaction_id Modern = 0x1F"
| "transaction_id WirelessKb = 0x9F"
| "transaction_id Special08 = 0x08"
| "transaction_id KrakenV4 = 0x60"

datatype lighting_command_set = StandardSet | ExtendedSet

datatype razer_matrix_type = MatrixNone | MatrixStandard | MatrixExtended | MatrixLinear | MatrixExtendedArgb

definition NOSTORE :: u8 where "NOSTORE = 0x00"
definition VARSTORE :: u8 where "VARSTORE = 0x01"
definition LED_ID_ZERO :: u8 where "LED_ID_ZERO = 0x00"
definition EFFECT_CUSTOM_FRAME :: u8 where "EFFECT_CUSTOM_FRAME = 0x08"
definition COMMAND_CLASS_DEVICE :: u8 where "COMMAND_CLASS_DEVICE = 0x02"
definition COMMAND_SET_SCROLL_MODE :: u8 where "COMMAND_SET_SCROLL_MODE = 0x14"
definition COMMAND_SET_SCROLL_SMART_REEL :: u8 where "COMMAND_SET_SCROLL_SMART_REEL = 0x17"
definition COMMAND_SET_SCROLL_ACCELERATION :: u8 where "COMMAND_SET_SCROLL_ACCELERATION = 0x16"
definition EXTENDED_CUSTOM_EFFECT_DATA_SIZE :: u8 where "EXTENDED_CUSTOM_EFFECT_DATA_SIZE = 0x06"
definition STANDARD_MATRIX_FRAME_DATA_SIZE :: u8 where "STANDARD_MATRIX_FRAME_DATA_SIZE = 0x46"

section \<open>Activation of the custom effect\<close>

datatype activation_style =
    MatchCommandSet
  | LegacyStandard u8
  | StandardLedEffect u8 u8 u8
  | ExtendedMatrix u8 bytes u8

record activation_args =
  aa_command_class :: u8
  aa_command_id :: u8
  aa_data :: bytes
  aa_data_len :: nat
  aa_declared_data_size :: "u8 option"

definition activation_args_new :: "u8 \<Rightarrow> u8 \<Rightarrow> bytes \<Rightarrow> u8 option \<Rightarrow> activation_args" where
  "activation_args_new command_class command_id source declared =
     \<lparr>aa_command_class = command_class, aa_command_id = command_id,
      aa_data = copy_at 0 source (replicate 5 0), aa_data_len = length source,
      aa_declared_data_size = declared\<rparr>"

definition activation_slice :: "activation_args \<Rightarrow> bytes" where
  "activation_slice a = take (aa_data_len a) (aa_data a)"

definition standard_custom :: "bytes \<Rightarrow> activation_args" where
  "standard_custom d = activation_args_new 0x03 0x0A d None"

definition standard_led_effect :: "bytes \<Rightarrow> activation_args" where
  "standard_led_effect d = activation_args_new 0x03 0x02 d None"

definition extended_matrix :: "bytes \<Rightarrow> u8 \<Rightarrow> activation_args" where
  "extended_matrix d declared = activation_args_new 0x0F 0x02 d (Some declared)"

definition command_args :: "activation_style \<Rightarrow> lighting_command_set \<Rightarrow> u8 \<Rightarrow> activation_args" where
  "command_args style command_set standard_storage =
     (case style of
        LegacyStandard storage \<Rightarrow> standard_custom [0x05, storage]
      | StandardLedEffect storage led_id effect \<Rightarrow> standard_led_effect [storage, led_id, effect]
      | ExtendedMatrix declared args args_len \<Rightarrow>
          extended_matrix (take (min (unat args_len) (length args)) args) declared
      | MatchCommandSet \<Rightarrow>
          if command_set = StandardSet then standard_custom [0x05, standard_storage]
          else extended_matrix [NOSTORE, LED_ID_ZERO, EFFECT_CUSTOM_FRAME, 0x00, 0x01] EXTENDED_CUSTOM_EFFECT_DATA_SIZE)"

definition activation_spec ::
    "activation_style \<Rightarrow> razer_version \<Rightarrow> lighting_command_set \<Rightarrow> u8 \<Rightarrow> command_timing \<Rightarrow> command_spec" where
  "activation_spec style version command_set standard_storage timing =
     (let args = command_args style command_set standard_storage
      in \<lparr>cs_transaction_id = transaction_id version, cs_command_class = aa_command_class args,
          cs_command_id = aa_command_id args, cs_args = activation_slice args,
          cs_declared_data_size = aa_declared_data_size args, cs_timing = timing\<rparr>)"

section \<open>The protocol\<close>

record razer_protocol =
  rz_version :: razer_version
  rz_command_set :: lighting_command_set
  rz_matrix_type :: razer_matrix_type
  rz_matrix_size :: "u8 \<times> u8"
  rz_reported_matrix_size :: "(u8 \<times> u8) option"
  rz_led_id :: u8
  rz_brightness_led_id :: u8
  rz_sends_device_mode_commands :: bool
  rz_mode_command_expects_response :: bool
  rz_standard_storage :: u8
  rz_frame_transaction_id :: "u8 option"
  rz_keepalive_interval :: "duration option"
  rz_response_delay :: duration
  rz_activate_custom_effect_in_init :: bool
  rz_activation_style :: activation_style
  rz_frame_commands_expect_response :: bool
  rz_activation_expects_response :: bool
  rz_activation_post_delay :: duration
  rz_supports_brightness :: bool
  rz_supports_scroll_features :: bool

definition razer_protocol_new ::
    "razer_version \<Rightarrow> lighting_command_set \<Rightarrow> razer_matrix_type \<Rightarrow> u8 \<times> u8 \<Rightarrow> u8 \<Rightarrow> razer_protocol" where
  "razer_protocol_new version command_set matrix_type matrix_size led_id =
     \<lparr>rz_version = version, rz_command_set = command_set, rz_matrix_type = matrix_type,
      rz_matrix_size = matrix_size, rz_reported_matrix_size = None, rz_led_id = led_id,
      rz_brightness_led_id = led_id, rz_sends_device_mode_commands = True,
      rz_mode_command_expects_response = False, rz_standard_storage = NOSTORE,
      rz_frame_transaction_id = None, rz_keepalive_interval = None, rz_response_delay = 0,
      rz_activate_custom_effect_in_init = False, rz_activation_style = MatchCommandSet,
      rz_frame_commands_expect_response = True, rz_activation_expects_response = True,
      rz_activation_post_delay = 0, rz_supports_brightness = True, rz_supports_scroll_features = False\<rparr>"

text \<open>The builder methods.\<close>

definition with_reported_matrix_size :: "razer_protocol \<Rightarrow> u8 \<times> u8 \<Rightarrow> razer_protocol" where
  "with_reported_matrix_size p dims = p\<lparr>rz_reported_matrix_size := Some dims\<rparr>"

definition without_device_mode_commands :: "razer_protocol \<Rightarrow> razer_protocol" where
  "without_device_mode_commands p = p\<lparr>rz_sends_device_mode_commands := False\<rparr>"

definition with_acknowledged_device_mode_commands :: "razer_protocol \<Rightarrow> razer_protocol" where
  "with_acknowledged_device_mode_commands p = p\<lparr>rz_mode_command_expects_response := True\<rparr>"

definition with_standard_storage :: "razer_protocol \<Rightarrow> u8 \<Rightarrow> razer_protocol" where
  "with_standard_storage p storage = p\<lparr>rz_standard_storage := storage\<rparr>"

definition with_brightness_led_id :: "razer_protocol \<Rightarrow> u8 \<Rightarrow> razer_protocol" where
  "with_brightness_led_id p led_id = p\<lparr>rz_brightness_led_id := led_id\<rparr>"

definition with_frame_transaction_id :: "razer_protocol \<Rightarrow> u8 \<Rightarrow> razer_protocol" where
  "with_frame_transaction_id p tid = p\<lparr>rz_frame_transaction_id := Some tid\<rparr>"

definition with_device_mode_keepalive :: "razer_protocol \<Rightarrow> duration \<Rightarrow> razer_protocol" where
  "with_device_mode_keepalive p interval = p\<lparr>rz_keepalive_interval := Some interval\<rparr>"

definition with_response_delay :: "razer_protocol \<Rightarrow> duration \<Rightarrow> razer_protocol" where
  "with_response_delay p delay = p\<lparr>rz_response_delay := delay\<rparr>"

definition with_init_custom_effect :: "razer_protocol \<Rightarrow> razer_protocol" where
  "with_init_custom_effect p = p\<lparr>rz_activate_custom_effect_in_init := True\<rparr>"

definition with_legacy_custom_effect_activation :: "razer_protocol \<Rightarrow> u8 \<Rightarrow> razer_protocol" where
  "with_legacy_custom_effect_activation p storage = p\<lparr>rz_activation_style := LegacyStandard storage\<rparr>"

definition with_standard_led_effect_activation :: "razer_protocol \<Rightarrow> u8 \<Rightarrow> u8 \<Rightarrow> u8 \<Rightarrow> razer_protocol" where
  "with_standard_led_effect_activation p storage led_id effect =
     p\<lparr>rz_activation_style := StandardLedEffect storage led_id effect\<rparr>"

definition with_extended_custom_effect_activation :: "razer_protocol \<Rightarrow> u8 \<Rightarrow> bytes \<Rightarrow> u8 \<Rightarrow> razer_protocol" where
  "with_extended_custom_effect_activation p declared args args_len =
     p\<lparr>rz_activation_style := ExtendedMatrix declared args args_len\<rparr>"

definition with_write_only_frame_uploads :: "razer_protocol \<Rightarrow> razer_protocol" where
  "with_write_only_frame_uploads p = p\<lparr>rz_frame_commands_expect_response := False\<rparr>"

definition with_write_only_custom_effect_activation :: "razer_protocol \<Rightarrow> duration \<Rightarrow> razer_protocol" where
  "with_write_only_custom_effect_activation p post_delay =
     p\<lparr>rz_activation_expects_response := False, rz_activation_post_delay := post_delay\<rparr>"

definition without_brightness :: "razer_protocol \<Rightarrow> razer_protocol" where
  "without_brightness p = p\<lparr>rz_supports_brightness := False\<rparr>"

definition with_scroll_features :: "razer_protocol \<Rightarrow> razer_protocol" where
  "with_scroll_features p = p\<lparr>rz_supports_scroll_features := True\<rparr>"

section \<open>Commands\<close>

definition from_millis :: "nat \<Rightarrow> duration" where
  "from_millis n = n * 1000000"

definition timing_of :: "razer_protocol \<Rightarrow> bool \<Rightarrow> duration \<Rightarrow> command_timing" where
  "timing_of p expects_response post_delay = command_timing_new expects_response (rz_response_delay p) post_delay"

definition spec_with_options ::
    "razer_protocol \<Rightarrow> u8 \<Rightarrow> u8 \<Rightarrow> u8 \<Rightarrow> bytes \<Rightarrow> u8 option \<Rightarrow> bool \<Rightarrow> duration \<Rightarrow> command_spec" where
  "spec_with_options p tid command_class command_id args declared expects_response post_delay =
     \<lparr>cs_transaction_id = tid, cs_command_class = command_class, cs_command_id = command_id, cs_args = args,
      cs_declared_data_size = declared, cs_timing = timing_of p expects_response post_delay\<rparr>"

definition build_packet ::
    "byte_order \<Rightarrow> razer_protocol \<Rightarrow> u8 \<Rightarrow> u8 \<Rightarrow> bytes \<Rightarrow> bool \<Rightarrow> duration \<Rightarrow> protocol_command option" where
  "build_packet order p command_class command_id args expects_response post_delay =
     build_command order (spec_with_options p (transaction_id (rz_version p)) command_class command_id args None
       expects_response post_delay)"

definition build_packet_with_declared_size ::
    "byte_order \<Rightarrow> razer_protocol \<Rightarrow> u8 \<Rightarrow> u8 \<Rightarrow> bytes \<Rightarrow> u8 \<Rightarrow> bool \<Rightarrow> duration \<Rightarrow> protocol_command option" where
  "build_packet_with_declared_size order p command_class command_id args declared expects_response post_delay =
     build_command order (spec_with_options p (transaction_id (rz_version p)) command_class command_id args
       (Some declared) expects_response post_delay)"

definition mode_command :: "byte_order \<Rightarrow> razer_protocol \<Rightarrow> u8 \<Rightarrow> duration \<Rightarrow> protocol_command option" where
  "mode_command order p mode post_delay =
     build_packet order p 0x00 0x04 [mode, 0x00] (rz_mode_command_expects_response p) post_delay"

definition get_device_mode_command :: "byte_order \<Rightarrow> razer_protocol \<Rightarrow> protocol_command option" where
  "get_device_mode_command order p = build_packet_with_declared_size order p 0x00 0x84 [] 0x02 True 0"

definition serial_query_command :: "byte_order \<Rightarrow> razer_protocol \<Rightarrow> protocol_command option" where
  "serial_query_command order p = build_packet_with_declared_size order p 0x00 0x82 [] 0x02 True 0"

definition activation_spec_of :: "razer_protocol \<Rightarrow> command_spec" where
  "activation_spec_of p =
     activation_spec (rz_activation_style p) (rz_version p) (rz_command_set p) (rz_standard_storage p)
       (timing_of p (rz_activation_expects_response p) (rz_activation_post_delay p))"

definition activation_command :: "byte_order \<Rightarrow> razer_protocol \<Rightarrow> protocol_command option" where
  "activation_command order p = build_command order (activation_spec_of p)"

definition push_activation_command :: "byte_order \<Rightarrow> razer_protocol \<Rightarrow> command_buffer \<Rightarrow> command_buffer" where
  "push_activation_command order p encoder = push_command order encoder (activation_spec_of p)"

definition should_append_frame_activation :: "razer_protocol \<Rightarrow> bool" where
  "should_append_frame_activation p \<longleftrightarrow> \<not> rz_activate_custom_effect_in_init p"

datatype scroll_wheel_mode = Tactile | FreeSpin

primrec scroll_mode_byte :: "scroll_wheel_mode \<Rightarrow> u8" where
  "scroll_mode_byte Tactile = 0x00"
| "scroll_mode_byte FreeSpin = 0x01"

definition encode_scroll_command ::
    "byte_order \<Rightarrow> razer_protocol \<Rightarrow> u8 \<Rightarrow> u8 \<Rightarrow> protocol_command list option" where
  "encode_scroll_command order p command_id value =
     (if \<not> rz_supports_scroll_features p then None
      else map_option (\<lambda>c. [c]) (build_packet order p COMMAND_CLASS_DEVICE command_id [VARSTORE, value] True 0))"

definition encode_scroll_mode :: "byte_order \<Rightarrow> razer_protocol \<Rightarrow> scroll_wheel_mode \<Rightarrow> protocol_command list option" where
  "encode_scroll_mode order p mode = encode_scroll_command order p COMMAND_SET_SCROLL_MODE (scroll_mode_byte mode)"

definition encode_scroll_smart_reel :: "byte_order \<Rightarrow> razer_protocol \<Rightarrow> bool \<Rightarrow> protocol_command list option" where
  "encode_scroll_smart_reel order p on =
     encode_scroll_command order p COMMAND_SET_SCROLL_SMART_REEL (of_bool on)"

definition encode_scroll_acceleration :: "byte_order \<Rightarrow> razer_protocol \<Rightarrow> bool \<Rightarrow> protocol_command list option" where
  "encode_scroll_acceleration order p on =
     encode_scroll_command order p COMMAND_SET_SCROLL_ACCELERATION (of_bool on)"

definition encode_brightness :: "byte_order \<Rightarrow> razer_protocol \<Rightarrow> u8 \<Rightarrow> protocol_command list option" where
  "encode_brightness order p level =
     (if \<not> rz_supports_brightness p then None
      else
        (let (command_class, command_id) = (case rz_command_set p of StandardSet \<Rightarrow> (0x03, 0x03) | ExtendedSet \<Rightarrow> (0x0F, 0x04));
             storage = (case rz_command_set p of StandardSet \<Rightarrow> rz_standard_storage p | ExtendedSet \<Rightarrow> NOSTORE)
         in map_option (\<lambda>c. [c])
              (build_packet order p command_class command_id [storage, rz_brightness_led_id p, level] True 0)))"

definition init_sequence :: "byte_order \<Rightarrow> razer_protocol \<Rightarrow> protocol_command list" where
  "init_sequence order p =
     (if rz_sends_device_mode_commands p
      then (case mode_command order p 0x03 (from_millis 7) of Some c \<Rightarrow> [c] | None \<Rightarrow> []) else [])
     @ (if rz_activate_custom_effect_in_init p
        then (case activation_command order p of Some c \<Rightarrow> [c] | None \<Rightarrow> []) else [])"

definition shutdown_sequence :: "byte_order \<Rightarrow> razer_protocol \<Rightarrow> protocol_command list" where
  "shutdown_sequence order p =
     (if \<not> rz_sends_device_mode_commands p then []
      else (case mode_command order p 0x00 0 of Some c \<Rightarrow> [c] | None \<Rightarrow> []))"

definition connection_diagnostics :: "byte_order \<Rightarrow> razer_protocol \<Rightarrow> protocol_command list" where
  "connection_diagnostics order p =
     (let init_has_response = (rz_activation_expects_response p
            \<or> (rz_sends_device_mode_commands p \<and> rz_mode_command_expects_response p))
      in if init_has_response \<or> rz_frame_commands_expect_response p then []
         else (case serial_query_command order p of Some c \<Rightarrow> [c] | None \<Rightarrow> []))"

definition keepalive :: "byte_order \<Rightarrow> razer_protocol \<Rightarrow> protocol_keepalive option" where
  "keepalive order p =
     (case rz_keepalive_interval p of
        None \<Rightarrow> None
      | Some interval \<Rightarrow>
          (case get_device_mode_command order p of
             None \<Rightarrow> None
           | Some c \<Rightarrow> Some \<lparr>ka_commands = [c], ka_interval = interval\<rparr>))"

section \<open>Frames\<close>

type_synonym rgb = "u8 \<times> u8 \<times> u8"

fun rgb_bytes :: "rgb \<Rightarrow> bytes" where
  "rgb_bytes (r, g, b) = [r, g, b]"

definition total_leds :: "razer_protocol \<Rightarrow> u32" where
  "total_leds p =
     (case rz_matrix_type p of
        MatrixNone \<Rightarrow> 1
      | MatrixLinear \<Rightarrow> if 0 < snd (rz_matrix_size p) then ucast (snd (rz_matrix_size p)) else 1
      | _ \<Rightarrow> ucast (fst (rz_matrix_size p)) * ucast (snd (rz_matrix_size p)))"

definition normalize_colors :: "razer_protocol \<Rightarrow> rgb list \<Rightarrow> rgb list" where
  "normalize_colors p colors =
     (let expected = unat (total_leds p)
      in if expected = 0 then []
         else if length colors = expected then colors
         else
           (let copy_len = min (length colors) expected
            in copy_at 0 (take copy_len colors) (replicate expected (0, 0, 0))))"

definition frame_chunk_capacity :: "razer_matrix_type \<Rightarrow> nat" where
  "frame_chunk_capacity matrix_type = (case matrix_type of MatrixLinear \<Rightarrow> 16 | _ \<Rightarrow> 22)"

definition razer_frame_interval :: "razer_protocol \<Rightarrow> duration" where
  "razer_frame_interval p =
     (case rz_matrix_type p of
        MatrixNone \<Rightarrow> from_millis 1
      | MatrixLinear \<Rightarrow> from_millis 2
      | _ \<Rightarrow> from_millis (unat (max (fst (rz_matrix_size p)) 1) + 1))"

definition razer_capabilities :: "razer_protocol \<Rightarrow> device_capabilities" where
  "razer_capabilities p =
     (let nanos = razer_frame_interval p;
          fps = (if nanos = 0 then 0
                 else if 1000000000 div nanos < 2 ^ 32 then of_nat (1000000000 div nanos) else - 1)
      in \<lparr>led_count = total_leds p, supports_direct = True, supports_brightness = rz_supports_brightness p,
          has_display = False, display_resolution = None, max_fps = fps, color_space = CsRgb,
          features = \<lparr>scroll_mode = rz_supports_scroll_features p, scroll_smart_reel = rz_supports_scroll_features p,
            scroll_acceleration = rz_supports_scroll_features p, max_display_frame_len = None\<rparr>\<rparr>)"

definition frame_tid :: "razer_protocol \<Rightarrow> u8" where
  "frame_tid p = (case rz_frame_transaction_id p of Some tid \<Rightarrow> tid | None \<Rightarrow> transaction_id (rz_version p))"

definition scalar_spec :: "razer_protocol \<Rightarrow> rgb \<Rightarrow> command_spec" where
  "scalar_spec p color =
     (case rz_command_set p of
        StandardSet \<Rightarrow>
          spec_with_options p (transaction_id (rz_version p)) 0x03 0x01
            ([rz_standard_storage p, rz_led_id p] @ rgb_bytes color) None (rz_frame_commands_expect_response p) 0
      | ExtendedSet \<Rightarrow>
          spec_with_options p (transaction_id (rz_version p)) 0x0F 0x02
            ([NOSTORE, rz_led_id p, 0x01, 0x00, 0x00, 0x01] @ rgb_bytes color) None
            (rz_frame_commands_expect_response p) 0)"

definition encode_scalar_into :: "byte_order \<Rightarrow> razer_protocol \<Rightarrow> rgb \<Rightarrow> protocol_command list \<Rightarrow> protocol_command list" where
  "encode_scalar_into order p color commands =
     buffer_finish (push_command order (command_buffer_new commands) (scalar_spec p color))"

text \<open>The loop that copies colors into the argument field behind the header.\<close>

fun fill_colors :: "bytes \<Rightarrow> nat \<Rightarrow> rgb list \<Rightarrow> bytes \<times> nat" where
  "fill_colors args offset [] = (args, offset)"
| "fill_colors args offset (color # colors) =
     fill_colors (copy_at offset (rgb_bytes color) args) (offset + 3) colors"

definition encode_linear_into ::
    "byte_order \<Rightarrow> razer_protocol \<Rightarrow> rgb list \<Rightarrow> protocol_command list \<Rightarrow> protocol_command list" where
  "encode_linear_into order p colors commands =
     (let encoder = command_buffer_new commands;
          led_count = min (length colors) (frame_chunk_capacity MatrixLinear)
      in if led_count = 0 then buffer_finish encoder
         else
           (let stop_col = (if led_count - 1 < 256 then of_nat (led_count - 1) else 0);
                args = (replicate 50 0)[0 := 0x00, 1 := stop_col];
                (args, _) = fill_colors args 2 (take led_count colors);
                encoder = push_command order encoder
                  (spec_with_options p (frame_tid p) 0x03 0x0C args None (rz_frame_commands_expect_response p) (from_millis 1));
                encoder = (if should_append_frame_activation p then push_activation_command order p encoder else encoder)
            in buffer_finish encoder))"

text \<open>The packet of columns \<open>chunk_start\<close> up to a chunk of one row, and the columns chunks start at.\<close>

definition matrix_spec :: "razer_protocol \<Rightarrow> rgb list \<Rightarrow> nat \<Rightarrow> nat \<Rightarrow> command_spec" where
  "matrix_spec p row_colors row chunk_start =
     (let cols = unat (snd (rz_matrix_size p));
          chunk_end = min (chunk_start + frame_chunk_capacity (rz_matrix_type p)) cols;
          args = replicate REPORT_ARGS_LEN 0;
          row_u8 = (if row < 256 then of_nat row else 0);
          start_col = (if chunk_start < 256 then of_nat chunk_start else 0);
          stop_col = (if chunk_end - 1 < 256 then of_nat (chunk_end - 1) else 0);
          (command_class, command_id, args, args_len, declared) =
            (case rz_command_set p of
               StandardSet \<Rightarrow> (0x03, 0x0B, copy_at 0 [0xFF, row_u8, start_col, stop_col] args, 4,
                 Some STANDARD_MATRIX_FRAME_DATA_SIZE)
             | ExtendedSet \<Rightarrow> (0x0F, 0x03, copy_at 0 [0x00, 0x00, row_u8, start_col, stop_col] args, 5, None));
          (args, args_len) = fill_colors args args_len (slice chunk_start (chunk_end - chunk_start) row_colors)
      in spec_with_options p (frame_tid p) command_class command_id (take args_len args) declared
           (rz_frame_commands_expect_response p) (from_millis 1))"

definition step_by :: "nat \<Rightarrow> nat \<Rightarrow> nat list" where
  "step_by n step = map (\<lambda>k. k * step) [0..<(n + step - 1) div step]"

definition encode_matrix_into ::
    "byte_order \<Rightarrow> razer_protocol \<Rightarrow> rgb list \<Rightarrow> protocol_command list \<Rightarrow> protocol_command list" where
  "encode_matrix_into order p colors commands =
     (let encoder = command_buffer_new commands;
          rows = unat (fst (rz_matrix_size p));
          cols = unat (snd (rz_matrix_size p))
      in if rows = 0 \<or> cols = 0 then buffer_finish encoder
         else
           (let max_chunk = frame_chunk_capacity (rz_matrix_type p);
                encoder = foldl (\<lambda>encoder row.
                    let row_colors = slice (row * cols) cols colors
                    in foldl (\<lambda>encoder chunk_start. push_command order encoder (matrix_spec p row_colors row chunk_start))
                         encoder (step_by cols max_chunk))
                  encoder [0..<rows];
                encoder = (if should_append_frame_activation p then push_activation_command order p encoder else encoder)
            in buffer_finish encoder))"

definition encode_frame_into ::
    "byte_order \<Rightarrow> razer_protocol \<Rightarrow> rgb list \<Rightarrow> protocol_command list \<Rightarrow> protocol_command list \<times> frame_batch" where
  "encode_frame_into order p colors commands =
     (let normalized = normalize_colors p colors;
          commands = (case rz_matrix_type p of
            MatrixNone \<Rightarrow>
              encode_scalar_into order p (case normalized of c # _ \<Rightarrow> c | [] \<Rightarrow> (0, 0, 0)) commands
          | MatrixLinear \<Rightarrow> encode_linear_into order p normalized commands
          | _ \<Rightarrow> encode_matrix_into order p normalized commands)
      in (commands, from_commands commands))"

definition encode_frame :: "byte_order \<Rightarrow> razer_protocol \<Rightarrow> rgb list \<Rightarrow> protocol_command list" where
  "encode_frame order p colors = fst (encode_frame_into order p colors [])"

end
