(* ===== verification/Razer_Props.thy ===== *)
theory Razer_Props
  imports Razer
begin

text \<open>
  The Razer protocol: the word-wide checksum is the plain exclusive or; commands and responses round
  trip, whole or cut short; and a device that applies the reports of a frame shows the frame, on a
  matrix completely and on a linear strip only up to its sixteenth LED. Encoders are proved against
  the buffer interface \<open>command_sink\<close>, so the recycled vector never matters.
\<close>

section \<open>The checksum\<close>

definition xor_bytes :: "bytes \<Rightarrow> u8" where
  "xor_bytes bs = foldr (XOR) bs 0"

lemma xor_bytes_simps [simp]:
  "xor_bytes [] = 0" "xor_bytes (b # bs) = b XOR xor_bytes bs"
  by (simp_all add: xor_bytes_def)

lemma xor_bytes_append [simp]: "xor_bytes (xs @ ys) = xor_bytes xs XOR xor_bytes ys"
  by (induction xs) (simp_all add: xor.assoc)

lemma xor_bytes_rev [simp]: "xor_bytes (rev xs) = xor_bytes xs"
  by (induction xs) (simp_all add: xor.commute)

lemma foldl_xor: "foldl (\<lambda>result byte. result XOR byte) r bs = r XOR xor_bytes bs"
  by (induction bs arbitrary: r) (simp_all add: xor.assoc)

lemma xor_bytes_eight: "length b = 8 \<Longrightarrow>
   b ! 0 XOR b ! 1 XOR b ! 2 XOR b ! 3 XOR b ! 4 XOR b ! 5 XOR b ! 6 XOR b ! 7 = xor_bytes b"
  by (auto simp: length_Suc_conv numeral_eq_Suc xor.assoc)

lemma xor_bytes_le64: "xor_bytes (le64 (a XOR b)) = xor_bytes (le64 a) XOR xor_bytes (le64 b)"
  by (simp add: le64_def upt_rec numeral_eq_Suc unsigned_xor_eq drop_bit_xor ac_simps)

lemma from_le_bytes_Cons [simp]: "from_le_bytes [] = 0" "from_le_bytes (b # bs) = push_bit 8 (from_le_bytes bs) OR ucast b"
  by (simp_all add: from_le_bytes_def)

lemma le64_from_le_bytes:
  assumes "length bs = 8"
  shows "le64 (from_le_bytes bs) = bs"
proof -
  obtain a b c d e f g h where bs: "bs = [a, b, c, d, e, f, g, h]"
    using assms by (auto simp: length_Suc_conv numeral_eq_Suc)
  have "[0..<8] = [0, 1, 2, 3, 4, 5, 6, 7 :: nat]"
    by (simp add: upt_rec)
  then have "le64 w = map (\<lambda>k. ucast (drop_bit k w)) [0, 8, 16, 24, 32, 40, 48, 56]" for w
    by (simp add: le64_def)
  then show ?thesis
    unfolding bs
    by simp (intro conjI bit_word_eqI; auto simp: bit_simps dest: bit_imp_le_length)
qed

lemma xor_bytes_to_ne: "xor_bytes (to_ne_bytes order w) = xor_bytes (le64 w)" "length (to_ne_bytes order w) = 8"
  by (cases order; simp add: to_ne_bytes_def)+

lemma xor_bytes_from_ne: "length bs = 8 \<Longrightarrow> xor_bytes (le64 (from_ne_bytes order bs)) = xor_bytes bs"
  by (cases order) (simp_all add: from_ne_bytes_def le64_from_le_bytes)

lemma xor_bytes_zero [simp]: "xor_bytes (le64 0) = 0"
  using xor_bytes_le64 [of 0 0] by simp

lemma xor_bytes_words:
  "\<forall>c \<in> set cs. length c = 8 \<Longrightarrow>
   xor_bytes (le64 (foldl (\<lambda>acc chunk. acc XOR from_ne_bytes order chunk) a cs)) =
     xor_bytes (le64 a) XOR xor_bytes (concat cs)"
  by (induction cs arbitrary: a) (simp_all add: xor_bytes_le64 xor_bytes_from_ne xor.assoc)

lemma chunks_exact:
  assumes "0 < n" "n dvd length xs" "c \<in> set (chunks n xs)"
  shows "length c = n"
proof -
  obtain k where k: "length xs = n * k" using assms(2) by blast
  obtain i where i: "i < length (chunks n xs)" "c = chunks n xs ! i"
    using assms(3) by (metis in_set_conv_nth)
  have "length (chunks n xs) = (n * k + (n - 1)) div n"
    using assms(1) k by (simp add: length_chunks)
  also have "\<dots> = k" using assms(1) by (intro div_nat_eqI) (simp_all add: mult.commute)
  finally have "i < k" using i by simp
  then have "(i + 1) * n \<le> k * n" by (intro mult_le_mono1) simp
  then show ?thesis
    using i assms(1) k by (simp add: nth_chunks mult.commute [of n k])
qed

text \<open>The word-wide checksum is the plain one, in either byte order.\<close>

lemma wide_xor:
  fixes s :: bytes
  assumes "8 dvd length s"
  shows "xor_bytes (to_ne_bytes order (foldl (\<lambda>acc chunk. acc XOR from_ne_bytes order chunk) 0 (chunks 8 s))) = xor_bytes s"
proof -
  have "\<forall>c \<in> set (chunks 8 s). length c = 8"
    using assms by (intro ballI chunks_exact) simp_all
  from xor_bytes_words [OF this, of order 0] show ?thesis
    by (simp add: xor_bytes_to_ne concat_chunks)
qed

lemma razer_crc_eq: "razer_crc order r = xor_bytes (slice 2 86 (report_bytes r))"
proof -
  define s where "s = slice 2 86 (report_bytes r)"
  define w where "w = length s div 8 * 8"
  define b where "b = to_ne_bytes order (foldl (\<lambda>acc chunk. acc XOR from_ne_bytes order chunk) 0 (chunks 8 (take w s)))"
  have "8 dvd length (take w s)"
    by (simp add: w_def min_absorb2)
  then have "xor_bytes b = xor_bytes (take w s)"
    unfolding b_def by (rule wide_xor)
  moreover have "length b = 8"
    unfolding b_def by (rule xor_bytes_to_ne)
  ultimately have "razer_crc order r = xor_bytes (take w s) XOR xor_bytes (drop w s)"
    unfolding razer_crc_def Let_def foldl_xor s_def [symmetric] w_def [symmetric] b_def [symmetric]
    by (simp only: xor_bytes_eight)
  then show ?thesis
    by (simp only: xor_bytes_append [symmetric] append_take_drop_id s_def)
qed

text \<open>The checksum computed in 64-bit words is the exclusive or of the bytes 2 to 87 of the report, in
  either byte order.\<close>

theorem razer_crc_is_plain_xor: "razer_crc order r = foldr (XOR) (slice 2 86 (report_bytes r)) 0"
  by (simp add: razer_crc_eq xor_bytes_def)

section \<open>Reports\<close>

text \<open>The size a command declares.\<close>

definition declared_size :: "command_spec \<Rightarrow> nat" where
  "declared_size spec =
     (case cs_declared_data_size spec of None \<Rightarrow> length (cs_args spec) | Some n \<Rightarrow> unat n)"

definition fits_report :: "command_spec \<Rightarrow> bool" where
  "fits_report spec \<longleftrightarrow> length (cs_args spec) \<le> declared_size spec \<and> declared_size spec \<le> 80"

definition report_of :: "byte_order \<Rightarrow> command_spec \<Rightarrow> razer_report" where
  "report_of order spec =
     (let r = \<lparr>rr_status = 0, rr_transaction_id = cs_transaction_id spec, rr_remaining_packets = 0,
               rr_protocol_type = 0, rr_data_size = of_nat (declared_size spec),
               rr_command_class = cs_command_class spec, rr_command_id = cs_command_id spec,
               rr_args = cs_args spec @ replicate (80 - length (cs_args spec)) 0, rr_crc = 0, rr_reserved = 0\<rparr>
      in r\<lparr>rr_crc := razer_crc order r\<rparr>)"

lemma build_report_eq: "build_report order spec = (if fits_report spec then Some (report_of order spec) else None)"
  by (auto simp: build_report_def fits_report_def report_of_def declared_size_def REPORT_ARGS_LEN_def zeroed_report_def
      Let_def copy_at_def unat_of_nat split: option.splits)

lemma report_bytes_parts:
  assumes "length (rr_args r) = 80"
  shows "length (report_bytes r) = 90"
    and "report_bytes r ! 0 = rr_status r" "report_bytes r ! 5 = rr_data_size r"
    and "report_bytes r ! 6 = rr_command_class r" "report_bytes r ! 7 = rr_command_id r"
    and "slice 8 80 (report_bytes r) = rr_args r"
    and "slice 2 87 (report_bytes r) = slice 2 86 (report_bytes r) @ [rr_crc r]"
    and "slice 2 86 (report_bytes r) = le16 (rr_remaining_packets r)
      @ [rr_protocol_type r, rr_data_size r, rr_command_class r, rr_command_id r] @ rr_args r"
  using assms by (simp_all add: report_bytes_def le16_def slice_def)

lemma report_of_fields [simp]:
  "rr_status (report_of order spec) = 0" "rr_data_size (report_of order spec) = of_nat (declared_size spec)"
  "rr_command_class (report_of order spec) = cs_command_class spec" "rr_command_id (report_of order spec) = cs_command_id spec"
  "rr_args (report_of order spec) = cs_args spec @ replicate (80 - length (cs_args spec)) 0"
  by (simp_all add: report_of_def Let_def)

lemma fits_reportD:
  assumes "fits_report spec"
  shows "length (cs_args spec) \<le> 80" "declared_size spec \<le> 80" "length (cs_args spec) \<le> declared_size spec"
    and "unat (of_nat (declared_size spec) :: u8) = declared_size spec"
  using assms by (simp_all add: fits_report_def unat_of_nat)

lemma report_crc:
  assumes "fits_report spec"
  shows "xor_bytes (slice 2 87 (report_bytes (report_of order spec))) = 0"
proof -
  have len: "length (rr_args (report_of order spec)) = 80"
    using fits_reportD(1) [OF assms] by simp
  have "rr_crc (report_of order spec) = xor_bytes (slice 2 86 (report_bytes (report_of order spec)))"
    using fits_reportD(1) [OF assms]
    by (simp add: report_bytes_parts(8) [OF len]) (simp add: report_of_def Let_def razer_crc_eq report_bytes_parts(8))
  then show ?thesis
    by (simp add: report_bytes_parts(7) [OF len])
qed

text \<open>What a parser sees of a report, whole or cut short.\<close>

lemma parse_whole:
  assumes "length (rr_args r) = 80" "unat (rr_data_size r) \<le> 80"
  shows "parse_response (report_bytes r @ rest) =
    (if map_status (rr_status r) = StatusFailed then Inl (DeviceError StatusFailed)
     else Inr \<lparr>pr_status = map_status (rr_status r), pr_data = take (unat (rr_data_size r)) (rr_args r)\<rparr>)"
proof -
  note parts = report_bytes_parts [OF assms(1)]
  have "read_report_prefix (report_bytes r @ rest) = read_report_prefix (report_bytes r)"
    using parts(1) by (simp add: read_report_prefix_def nth_append slice_def)
  then have "rr_status (read_report_prefix (report_bytes r @ rest)) = rr_status r"
    "rr_data_size (read_report_prefix (report_bytes r @ rest)) = rr_data_size r"
    "rr_args (read_report_prefix (report_bytes r @ rest)) = rr_args r"
    using parts by (simp_all add: read_report_prefix_def)
  then show ?thesis
    using assms(2) parts(1) by (simp add: parse_response_def Let_def RAZER_REPORT_LEN_def REPORT_ARGS_LEN_def)
qed

lemma parse_cut:
  assumes "length (rr_args r) = 80" "unat (rr_data_size r) \<le> 80" "k < 90"
  shows "parse_response (take k (report_bytes r)) =
    (if k < 8 then Inl MalformedResponse
     else if map_status (rr_status r) = StatusFailed then Inl (DeviceError StatusFailed)
     else if k < 8 + unat (rr_data_size r) then Inl MalformedResponse
     else Inr \<lparr>pr_status = map_status (rr_status r), pr_data = take (unat (rr_data_size r)) (rr_args r)\<rparr>)"
proof -
  note parts = report_bytes_parts [OF assms(1)]
  let ?n = "unat (rr_data_size r)"
  have "slice 8 ?n (take k (report_bytes r)) = take ?n (rr_args r)" if "8 + ?n \<le> k"
    using that parts(6) assms(2) by (simp add: slice_take) (simp add: slice_def min_absorb1 take_take flip: parts(6))
  then show ?thesis
    using assms(2-3) parts(1-3)
    by (auto simp: parse_response_def parse_short_response_def Let_def RAZER_REPORT_LEN_def REPORT_ARGS_LEN_def
        RESPONSE_HEADER_LEN_def RESPONSE_ARGS_OFFSET_def RESPONSE_DATA_SIZE_OFFSET_def)
qed

text \<open>C30: A command becomes a report exactly when its arguments fit the declared size and that fits the
  argument field. The report is 90 bytes whose checksummed bytes cancel out. What the report parses to
  is fixed under every status and every length the transport hands over. Whole, or with bytes
  appended, a failure status is a device error and any other status gives the arguments padded to
  the declared size. Cut inside the 8 bytes of the header it is malformed; cut behind them a failure
  status is still a device error, and under any other status it is malformed when the cut takes
  from the payload and gives the same arguments when it does not.\<close>

theorem razer_report_roundtrip:
  "(build_report order spec \<noteq> None \<longleftrightarrow> length (cs_args spec) \<le> declared_size spec \<and> declared_size spec \<le> 80)
   \<and> (\<forall>r. build_report order spec = Some r \<longrightarrow>
        length (report_bytes r) = 90 \<and> foldr (XOR) (slice 2 87 (report_bytes r)) 0 = 0
        \<and> (\<forall>status rest. parse_response (report_bytes (r\<lparr>rr_status := status\<rparr>) @ rest) =
             (if map_status status = StatusFailed then Inl (DeviceError StatusFailed)
              else Inr \<lparr>pr_status = map_status status,
                        pr_data = cs_args spec @ replicate (declared_size spec - length (cs_args spec)) 0\<rparr>))
        \<and> (\<forall>status k. k < 90 \<longrightarrow>
             parse_response (take k (report_bytes (r\<lparr>rr_status := status\<rparr>))) =
             (if k < 8 then Inl MalformedResponse
              else if map_status status = StatusFailed then Inl (DeviceError StatusFailed)
              else if k < 8 + declared_size spec then Inl MalformedResponse
              else Inr \<lparr>pr_status = map_status status,
                        pr_data = cs_args spec @ replicate (declared_size spec - length (cs_args spec)) 0\<rparr>)))"
proof (cases "fits_report spec")
  case True
  note fits = fits_reportD [OF True]
  have args: "take (declared_size spec) (cs_args spec @ replicate (80 - length (cs_args spec)) 0) =
      cs_args spec @ replicate (declared_size spec - length (cs_args spec)) 0"
    using fits by (simp add: min_absorb1 diff_le_mono)
  have len: "length (rr_args (report_of order spec)) = 80" using fits by simp
  show ?thesis
    using True fits args len report_bytes_parts(1) [OF len] report_crc [OF True, of order]
    by (auto simp: build_report_eq fits_report_def xor_bytes_def parse_whole parse_cut)
qed (auto simp: build_report_eq fits_report_def)

section \<open>Encoders push commands\<close>

definition commands_of :: "byte_order \<Rightarrow> command_spec \<Rightarrow> protocol_command list" where
  "commands_of order spec = (case build_command order spec of None \<Rightarrow> [] | Some c \<Rightarrow> [c])"

lemma commands_of_fits:
  "commands_of order spec =
     (if fits_report spec
      then [command_of (report_bytes (report_of order spec)) (ct_expects_response (cs_timing spec))
              (ct_response_delay (cs_timing spec)) (ct_post_delay (cs_timing spec)) Primary] else [])"
  by (simp add: commands_of_def build_command_def build_report_eq default_command_def command_of_def)

lemma push_command_eq: "push_command order e spec = foldl push_command_of e (commands_of order spec)"
  by (simp add: push_command_def build_report_eq commands_of_fits push_command_of_def command_of_def)

lemma foldl_nested: "foldl (\<lambda>e x. foldl f e (g x)) e xs = foldl f e (concat (map g xs))"
  by (induction xs arbitrary: e) simp_all

lemma commands_plain: "list_all (\<lambda>c. pc_response c = default_response_plan) (commands_of order spec)"
  by (simp add: commands_of_fits command_of_def)

lemma commands_plain_concat:
  "(\<And>x. x \<in> set xs \<Longrightarrow> list_all P (g x)) \<Longrightarrow> list_all P (concat (map g xs))"
  by (auto simp: list_all_iff)

text \<open>The commands of a matrix frame: one per chunk of each row, then the activation.\<close>

definition matrix_commands :: "byte_order \<Rightarrow> razer_protocol \<Rightarrow> rgb list \<Rightarrow> protocol_command list" where
  "matrix_commands order p colors =
     (let cols = unat (snd (rz_matrix_size p))
      in concat (map (\<lambda>row. concat (map (\<lambda>start. commands_of order (matrix_spec p (slice (row * cols) cols colors) row start))
           (step_by cols (frame_chunk_capacity (rz_matrix_type p))))) [0..<unat (fst (rz_matrix_size p))]))"

definition activation_commands :: "byte_order \<Rightarrow> razer_protocol \<Rightarrow> protocol_command list" where
  "activation_commands order p =
     (if should_append_frame_activation p then commands_of order (activation_spec_of p) else [])"

lemma encode_matrix_eq:
  "encode_matrix_into order p colors old =
     (if unat (fst (rz_matrix_size p)) = 0 \<or> unat (snd (rz_matrix_size p)) = 0 then []
      else matrix_commands order p colors @ activation_commands order p)"
proof -
  let ?cs = "matrix_commands order p colors @ activation_commands order p"
  have "list_all (\<lambda>c. pc_response c = default_response_plan) ?cs"
    by (auto simp: matrix_commands_def activation_commands_def Let_def commands_plain intro!: commands_plain_concat)
  from command_buffer_sink.recycled [OF this, of old] show ?thesis
    by (cases "should_append_frame_activation p") (simp_all add: encode_matrix_into_def Let_def push_activation_command_def push_command_eq foldl_nested
        matrix_commands_def activation_commands_def)
qed

section \<open>What the device shows\<close>

text \<open>A device applies a frame report to its cells: the rows and columns named in the arguments take the
  colors that follow; any other report leaves the cells alone.\<close>

type_synonym screen = "nat \<times> nat \<Rightarrow> rgb option"

definition paint_cells :: "nat \<Rightarrow> nat \<Rightarrow> nat \<Rightarrow> bytes \<Rightarrow> screen \<Rightarrow> screen" where
  "paint_cells row start stop pixels fb =
     (\<lambda>(r, c). if r = row \<and> start \<le> c \<and> c \<le> stop
       then Some (pixels ! (3 * (c - start)), pixels ! (3 * (c - start) + 1), pixels ! (3 * (c - start) + 2))
       else fb (r, c))"

definition device_apply :: "lighting_command_set \<Rightarrow> screen \<Rightarrow> bytes \<Rightarrow> screen" where
  "device_apply S fb d =
     (let args = slice 8 (unat (d ! 5)) d
      in if S = StandardSet \<and> d ! 6 = 0x03 \<and> d ! 7 = 0x0B
         then paint_cells (unat (args ! 1)) (unat (args ! 2)) (unat (args ! 3)) (drop 4 args) fb
         else if S = ExtendedSet \<and> d ! 6 = 0x0F \<and> d ! 7 = 0x03
         then paint_cells (unat (args ! 2)) (unat (args ! 3)) (unat (args ! 4)) (drop 5 args) fb
         else if d ! 6 = 0x03 \<and> d ! 7 = 0x0C
         then paint_cells 0 (unat (args ! 0)) (unat (args ! 1)) (drop 2 args) fb
         else fb)"

definition device_show :: "lighting_command_set \<Rightarrow> screen \<Rightarrow> protocol_command list \<Rightarrow> screen" where
  "device_show S fb cs = foldl (\<lambda>fb c. device_apply S fb (pc_data c)) fb cs"

text \<open>Reports that show the same picture on their cells show it on all of them together.\<close>

definition shows_on :: "(nat \<times> nat) set \<Rightarrow> (nat \<times> nat \<Rightarrow> rgb) \<Rightarrow> screen \<Rightarrow> screen" where
  "shows_on D pic fb = (\<lambda>x. if x \<in> D then Some (pic x) else fb x)"

lemma device_show_append: "device_show S fb (xs @ ys) = device_show S (device_show S fb xs) ys"
  by (simp add: device_show_def)

lemma device_show_cover:
  assumes "\<And>x fb. x \<in> set xs \<Longrightarrow> device_show S fb (g x) = shows_on (D x) pic fb"
  shows "device_show S fb (concat (map g xs)) = shows_on (\<Union>x \<in> set xs. D x) pic fb"
  using assms
proof (induction xs arbitrary: fb)
  case Nil
  then show ?case by (simp add: device_show_def shows_on_def)
next
  case (Cons x xs)
  then show ?case by (auto simp: device_show_append shows_on_def fun_eq_iff)
qed

lemma fill_colors_eq:
  "offset + 3 * length colors \<le> length args \<Longrightarrow>
   fill_colors args offset colors =
     (take offset args @ concat (map rgb_bytes colors) @ drop (offset + 3 * length colors) args, offset + 3 * length colors)"
proof (induction colors arbitrary: args offset)
  case (Cons c cs)
  have [simp]: "length (rgb_bytes c) = 3" by (cases c) simp
  from Cons show ?case
    by (simp add: copy_at_def algebra_simps)
qed simp

lemma length_rgb_concat [simp]: "length (concat (map rgb_bytes cs)) = 3 * length cs"
  by (induction cs) (auto simp: split_paired_all)

lemma nth_rgb_concat:
  "k < length cs \<Longrightarrow>
   ((concat (map rgb_bytes cs) @ t) ! (3 * k), (concat (map rgb_bytes cs) @ t) ! (3 * k + 1),
    (concat (map rgb_bytes cs) @ t) ! (3 * k + 2)) = cs ! k"
proof (induction cs arbitrary: k)
  case (Cons c cs)
  obtain r g b where c: "c = (r, g, b)" by (cases c) auto
  show ?case
  proof (cases k)
    case (Suc j)
    then show ?thesis using Cons c by (simp add: nth_Cons numeral_eq_Suc)
  qed (simp add: c)
qed simp

lemma report_args:
  assumes "fits_report spec"
  defines "d \<equiv> \<lambda>order. report_bytes (report_of order spec)"
  shows "slice 8 (unat (d order ! 5)) (d order) = cs_args spec @ replicate (declared_size spec - length (cs_args spec)) 0"
    and "d order ! 6 = cs_command_class spec" "d order ! 7 = cs_command_id spec"
proof -
  note fits = fits_reportD [OF assms(1)]
  have "length (rr_args (report_of order spec)) = 80" using fits by simp
  note parts = report_bytes_parts [OF this]
  have n: "unat (d order ! 5) = declared_size spec"
    using parts(3) fits(4) by (simp add: d_def)
  have "slice 8 (declared_size spec) (d order) = take (declared_size spec) (slice 8 80 (d order))"
    using fits(2) by (simp add: slice_def min_absorb1)
  also have "\<dots> = cs_args spec @ replicate (declared_size spec - length (cs_args spec)) 0"
    using parts(6) fits by (simp add: d_def min_absorb1 diff_le_mono)
  finally show "slice 8 (unat (d order ! 5)) (d order) = cs_args spec @ replicate (declared_size spec - length (cs_args spec)) 0"
    unfolding n .
  show "d order ! 6 = cs_command_class spec" "d order ! 7 = cs_command_id spec"
    using parts by (simp_all add: d_def)
qed

definition matrix_header :: "lighting_command_set \<Rightarrow> nat \<Rightarrow> nat \<Rightarrow> nat \<Rightarrow> bytes" where
  "matrix_header S row start stop =
     (case S of StandardSet \<Rightarrow> [0xFF, of_nat row, of_nat start, of_nat stop]
      | ExtendedSet \<Rightarrow> [0, 0, of_nat row, of_nat start, of_nat stop])"

lemma take_behind:
  "take (4 + m) (a # b # c # d # xs) = a # b # c # d # take m xs"
  "take (5 + m) (a # b # c # d # e # xs) = a # b # c # d # e # take m xs"
  by (simp_all add: numeral_eq_Suc)

lemma matrix_spec_parts:
  assumes "rz_matrix_type p \<noteq> MatrixLinear" "row < 256" "start < unat (snd (rz_matrix_size p))"
    and "length row_colors = unat (snd (rz_matrix_size p))"
  defines "n \<equiv> min 22 (unat (snd (rz_matrix_size p)) - start)"
  defines "spec \<equiv> matrix_spec p row_colors row start"
  shows "cs_args spec = matrix_header (rz_command_set p) row start (start + n - 1) @ concat (map rgb_bytes (slice start n row_colors))"
    and "cs_command_class spec = (case rz_command_set p of StandardSet \<Rightarrow> 0x03 | ExtendedSet \<Rightarrow> 0x0F)"
    and "cs_command_id spec = (case rz_command_set p of StandardSet \<Rightarrow> 0x0B | ExtendedSet \<Rightarrow> 0x03)"
    and "fits_report spec"
proof -
  have cols: "unat (snd (rz_matrix_size p)) < 256"
    using unsigned_less [of "snd (rz_matrix_size p)", where ?'a = nat] by simp
  have cap: "frame_chunk_capacity (rz_matrix_type p) = 22"
    using assms(1) by (cases "rz_matrix_type p") (simp_all add: frame_chunk_capacity_def)
  have n: "min (start + 22) (unat (snd (rz_matrix_size p))) = start + n" "n \<le> 22" "0 < n"
      "start + n \<le> unat (snd (rz_matrix_size p))"
    using assms(3) by (auto simp: n_def)
  have len: "length (slice start n row_colors) = n"
    using n(4) assms(4) by simp
  have eq: "spec = spec_with_options p (frame_tid p)
      (case rz_command_set p of StandardSet \<Rightarrow> 0x03 | ExtendedSet \<Rightarrow> 0x0F)
      (case rz_command_set p of StandardSet \<Rightarrow> 0x0B | ExtendedSet \<Rightarrow> 0x03)
      (matrix_header (rz_command_set p) row start (start + n - 1) @ concat (map rgb_bytes (slice start n row_colors)))
      (case rz_command_set p of StandardSet \<Rightarrow> Some STANDARD_MATRIX_FRAME_DATA_SIZE | ExtendedSet \<Rightarrow> None)
      (rz_frame_commands_expect_response p) (from_millis 1)"
    using assms(2,3) cols n len
    by (cases "rz_command_set p")
      (simp_all add: spec_def matrix_spec_def Let_def cap n(1) fill_colors_eq REPORT_ARGS_LEN_def copy_at_def matrix_header_def
        take_behind)
  show "cs_args spec = matrix_header (rz_command_set p) row start (start + n - 1) @ concat (map rgb_bytes (slice start n row_colors))"
    "cs_command_class spec = (case rz_command_set p of StandardSet \<Rightarrow> 0x03 | ExtendedSet \<Rightarrow> 0x0F)"
    "cs_command_id spec = (case rz_command_set p of StandardSet \<Rightarrow> 0x0B | ExtendedSet \<Rightarrow> 0x03)"
    by (simp_all add: eq spec_with_options_def)
  show "fits_report spec"
    using n(2) len
    by (cases "rz_command_set p")
      (simp_all add: eq spec_with_options_def fits_report_def declared_size_def matrix_header_def STANDARD_MATRIX_FRAME_DATA_SIZE_def)
qed

lemma matrix_spec_shows:
  assumes "rz_matrix_type p \<noteq> MatrixLinear" "row < 256" "start < unat (snd (rz_matrix_size p))"
    and "length row_colors = unat (snd (rz_matrix_size p))"
  defines "n \<equiv> min 22 (unat (snd (rz_matrix_size p)) - start)"
  shows "device_show (rz_command_set p) fb (commands_of order (matrix_spec p row_colors row start)) =
    shows_on ({row} \<times> {start..<start + n}) (\<lambda>(r, c). row_colors ! c) fb"
proof -
  let ?spec = "matrix_spec p row_colors row start"
  note parts = matrix_spec_parts [OF assms(1-4), folded n_def]
  have cols: "unat (snd (rz_matrix_size p)) < 256"
    using unsigned_less [of "snd (rz_matrix_size p)", where ?'a = nat] by simp
  have n: "0 < n" "start + n \<le> unat (snd (rz_matrix_size p))"
    using assms(3) by (auto simp: n_def)
  have small: "unat (of_nat row :: u8) = row" "unat (of_nat start :: u8) = start"
      "unat (of_nat (start + n - 1) :: u8) = start + n - 1"
    using assms(2,3) cols n by (simp_all add: unat_of_nat del: of_nat_add of_nat_diff)
  have px: "((concat (map rgb_bytes (slice start n row_colors)) @ t) ! (3 * (c - start)),
        (concat (map rgb_bytes (slice start n row_colors)) @ t) ! (3 * (c - start) + 1),
        (concat (map rgb_bytes (slice start n row_colors)) @ t) ! (3 * (c - start) + 2)) = row_colors ! c"
    if "start \<le> c" "c < start + n" for c t
    using that n(2) assms(4) nth_rgb_concat [of "c - start" "slice start n row_colors" t] by (simp add: slice_def)
  have range: "c \<le> start + n - 1 \<longleftrightarrow> c < start + n" for c using n(1) by auto
  show ?thesis
    using small px range
    by (cases "rz_command_set p")
      (auto simp: device_show_def commands_of_fits parts report_args [OF parts(4)] device_apply_def command_of_def
        matrix_header_def paint_cells_def shows_on_def fun_eq_iff Let_def simp del: of_nat_add of_nat_diff)
qed

lemma step_by_cover:
  assumes "0 < step"
  shows "(\<Union>s \<in> set (step_by n step). {s..<s + min step (n - s)}) = {..<n}"
    and "s \<in> set (step_by n step) \<Longrightarrow> s < n"
proof -
  have mem: "s \<in> set (step_by n step) \<longleftrightarrow> (\<exists>k. s = k * step \<and> k * step < n)" for s
  proof -
    have "k < (n + step - 1) div step \<longleftrightarrow> k * step < n" for k
    proof
      assume "k < (n + step - 1) div step"
      then have "(k + 1) * step \<le> (n + step - 1) div step * step" by (intro mult_le_mono1) simp
      also have "\<dots> \<le> n + step - 1" by simp
      finally show "k * step < n" using assms by simp
    next
      assume "k * step < n"
      then have "(k + 1) * step \<le> n + step - 1" using assms by simp
      then have "k + 1 \<le> (n + step - 1) div step" using assms by (simp only: less_eq_div_iff_mult_less_eq)
      then show "k < (n + step - 1) div step" by simp
    qed
    then show ?thesis by (auto simp: step_by_def image_iff)
  qed
  then show "s \<in> set (step_by n step) \<Longrightarrow> s < n" by auto
  have "\<exists>s \<in> set (step_by n step). x \<in> {s..<s + min step (n - s)}" if "x < n" for x
  proof
    show "x div step * step \<in> set (step_by n step)"
      using that mem div_times_less_eq_dividend [of x step] le_less_trans by blast
    have "x div step * step \<le> x" "x < x div step * step + step"
      using mod_less_divisor [OF assms, of x] div_mult_mod_eq [of x step] by linarith+
    then show "x \<in> {x div step * step..<x div step * step + min step (n - x div step * step)}"
      using that by (auto simp: min_def)
  qed
  then show "(\<Union>s \<in> set (step_by n step). {s..<s + min step (n - s)}) = {..<n}"
    by auto
qed

lemma shows_on_cong: "(\<And>x. x \<in> D \<Longrightarrow> f x = g x) \<Longrightarrow> shows_on D f fb = shows_on D g fb"
  by (auto simp: shows_on_def)

lemma matrix_commands_show:
  assumes "rz_matrix_type p \<noteq> MatrixLinear"
  defines "rows \<equiv> unat (fst (rz_matrix_size p))" and "cols \<equiv> unat (snd (rz_matrix_size p))"
  assumes "length colors = rows * cols"
  shows "device_show (rz_command_set p) fb (matrix_commands order p colors) =
    shows_on ({..<rows} \<times> {..<cols}) (\<lambda>(r, c). colors ! (r * cols + c)) fb"
proof -
  let ?S = "rz_command_set p" and ?pic = "\<lambda>(r, c). colors ! (r * cols + c)"
  have cap: "frame_chunk_capacity (rz_matrix_type p) = 22"
    using assms(1) by (cases "rz_matrix_type p") (simp_all add: frame_chunk_capacity_def)
  let ?row = "\<lambda>r. slice (r * cols) cols colors"
  have chunk: "device_show ?S fb (commands_of order (matrix_spec p (?row r) r s)) =
      shows_on ({r} \<times> {s..<s + min 22 (cols - s)}) ?pic fb" if "r < rows" "s \<in> set (step_by cols 22)" for r s fb
  proof -
    have "Suc r * cols \<le> rows * cols" using that(1) by (intro mult_le_mono1) simp
    then have fit: "r * cols + cols \<le> length colors" using assms(4) by simp
    have s: "s < cols" using step_by_cover(2) [of 22 s cols] that(2) by simp
    have "rows < 256" using unsigned_less [of "fst (rz_matrix_size p)", where ?'a = nat] by (simp add: rows_def)
    then have "r < 256" using that(1) by simp
    from matrix_spec_shows [OF assms(1) this, of s "?row r" fb order] s fit
    have "device_show ?S fb (commands_of order (matrix_spec p (?row r) r s)) =
        shows_on ({r} \<times> {s..<s + min 22 (cols - s)}) (\<lambda>(r', c). ?row r ! c) fb"
      by (simp add: cols_def)
    also have "\<dots> = shows_on ({r} \<times> {s..<s + min 22 (cols - s)}) ?pic fb"
      using fit s by (intro shows_on_cong) (auto simp: slice_def)
    finally show ?thesis .
  qed
  have "device_show ?S fb (concat (map (\<lambda>s. commands_of order (matrix_spec p (?row r) r s)) (step_by cols 22))) =
      shows_on ({r} \<times> {..<cols}) ?pic fb" if "r < rows" for r fb
  proof -
    have "(\<Union>s \<in> set (step_by cols 22). {r} \<times> {s..<s + min 22 (cols - s)}) =
        {r} \<times> (\<Union>s \<in> set (step_by cols 22). {s..<s + min 22 (cols - s)})"
      by auto
    also have "\<dots> = {r} \<times> {..<cols}"
      using step_by_cover(1) [of 22 cols] by simp
    finally have "(\<Union>s \<in> set (step_by cols 22). {r} \<times> {s..<s + min 22 (cols - s)}) = {r} \<times> {..<cols}" .
    then show ?thesis
      using device_show_cover [of "step_by cols 22" ?S "\<lambda>s. commands_of order (matrix_spec p (?row r) r s)"
          "\<lambda>s. {r} \<times> {s..<s + min 22 (cols - s)}" ?pic fb] chunk [OF that] by simp
  qed
  then have "device_show ?S fb (matrix_commands order p colors) = shows_on (\<Union>r \<in> set [0..<rows]. {r} \<times> {..<cols}) ?pic fb"
    unfolding matrix_commands_def Let_def cap rows_def [symmetric] cols_def [symmetric]
    by (intro device_show_cover) simp
  also have "(\<Union>r \<in> set [0..<rows]. {r} \<times> {..<cols}) = {..<rows} \<times> {..<cols}" by auto
  finally show ?thesis .
qed

lemma activation_shows_nothing: "device_show S fb (activation_commands order p) = fb"
proof -
  have "(cs_command_class (activation_spec_of p), cs_command_id (activation_spec_of p)) \<in> {(0x03, 0x0A), (0x03, 0x02), (0x0F, 0x02)}"
    by (auto simp: activation_spec_of_def activation_spec_def Let_def command_args_def standard_custom_def standard_led_effect_def
        extended_matrix_def activation_args_new_def split: activation_style.splits)
  then show ?thesis
    by (auto simp: activation_commands_def commands_of_fits device_show_def command_of_def device_apply_def report_args Let_def)
qed

lemma normalize_colors_eq:
  "normalize_colors p colors =
     take (unat (total_leds p)) colors @ replicate (unat (total_leds p) - length colors) (0, 0, 0)"
  by (auto simp: normalize_colors_def Let_def copy_at_def min_def)

lemma unat_ucast_u32: "unat (ucast w :: u32) = unat (w :: u8)"
  using unsigned_less [of w, where ?'a = nat] by (simp add: unsigned_ucast_eq take_bit_nat_eq_self)

lemma total_leds_matrix:
  assumes "rz_matrix_type p \<in> {MatrixStandard, MatrixExtended, MatrixExtendedArgb}"
  shows "unat (total_leds p) = unat (fst (rz_matrix_size p)) * unat (snd (rz_matrix_size p))"
proof -
  let ?a = "fst (rz_matrix_size p)" and ?b = "snd (rz_matrix_size p)"
  have "unat ?a * unat ?b \<le> 255 * 255"
    using unsigned_less [of ?a, where ?'a = nat] unsigned_less [of ?b, where ?'a = nat] by (intro mult_le_mono) simp_all
  then have "unat ?a * unat ?b < 2 ^ LENGTH(32)" by simp
  then have "unat (ucast ?a * ucast ?b :: u32) = unat ?a * unat ?b"
    by (simp add: unat_word_ariths unat_ucast_u32)
  then show ?thesis
    using assms by (auto simp: total_leds_def)
qed

lemma cell_index:
  fixes r c rows cols :: nat
  assumes "r < rows" "c < cols"
  shows "r * cols + c < rows * cols"
proof -
  have "Suc r * cols \<le> rows * cols" using assms(1) by (intro mult_le_mono1) simp
  with assms(2) show ?thesis by simp
qed

lemma commands_of_reports:
  "c \<in> set (commands_of order spec) \<Longrightarrow> length (pc_data c) = 90 \<and> foldr (XOR) (slice 2 87 (pc_data c)) 0 = 0"
  using report_crc [of spec order] fits_reportD(1) [of spec]
  by (auto simp: commands_of_fits command_of_def xor_bytes_def [symmetric] report_bytes_parts(1) split: if_splits)

lemma frame_commands_reports:
  "c \<in> set (matrix_commands order p colors @ activation_commands order p) \<Longrightarrow>
   length (pc_data c) = 90 \<and> foldr (XOR) (slice 2 87 (pc_data c)) 0 = 0"
  using commands_of_reports
  by (auto simp: matrix_commands_def activation_commands_def Let_def split: if_splits)

text \<open>C29: A frame reaches the matrix: a device that applies the reports in order shows, in every cell of
  its matrix, the color of that LED, black where the frame is too short, and keeps every other cell.
  The commands do not depend on the recycled buffer, each is a 90-byte report with a valid checksum,
  and there are none exactly when the matrix is empty.\<close>

theorem razer_frame_reaches_matrix:
  fixes order :: byte_order and colors :: "rgb list"
  assumes "rz_matrix_type p \<in> {MatrixStandard, MatrixExtended, MatrixExtendedArgb}"
  defines "rows \<equiv> unat (fst (rz_matrix_size p))" and "cols \<equiv> unat (snd (rz_matrix_size p))"
  defines "commands \<equiv> \<lambda>old. fst (encode_frame_into order p colors old)"
  shows "device_show (rz_command_set p) fb (commands old) =
      (\<lambda>(r, c). if r < rows \<and> c < cols
         then Some (if r * cols + c < length colors then colors ! (r * cols + c) else (0, 0, 0)) else fb (r, c))
    \<and> commands old = encode_frame order p colors
    \<and> (\<forall>c \<in> set (commands old). length (pc_data c) = 90 \<and> foldr (XOR) (slice 2 87 (pc_data c)) 0 = 0)
    \<and> (snd (encode_frame_into order p colors old) = Unchanged \<longleftrightarrow> rows * cols = 0)"
proof -
  define norm where "norm = normalize_colors p colors"
  have total: "unat (total_leds p) = rows * cols"
    using total_leds_matrix [OF assms(1)] by (simp add: rows_def cols_def)
  have len: "length norm = rows * cols"
    by (simp add: norm_def normalize_colors_eq total)
  have at: "norm ! i = (if i < length colors then colors ! i else (0, 0, 0))" if "i < rows * cols" for i
    using that by (auto simp: norm_def normalize_colors_eq total nth_append)
  have linear: "rz_matrix_type p \<noteq> MatrixLinear" using assms(1) by auto
  have eq: "commands old = (if rows = 0 \<or> cols = 0 then [] else matrix_commands order p norm @ activation_commands order p)" for old
    using assms(1) by (auto simp: commands_def encode_frame_into_def Let_def encode_matrix_eq norm_def rows_def cols_def)
  have shown: "device_show (rz_command_set p) fb (commands old) =
      shows_on ({..<rows} \<times> {..<cols}) (\<lambda>(r, c). norm ! (r * cols + c)) fb" for fb
    using matrix_commands_show [OF linear, of norm fb order, folded rows_def cols_def, OF len]
    by (auto simp: eq device_show_append activation_shows_nothing) (simp_all add: device_show_def shows_on_def)
  show ?thesis
  proof (intro conjI)
    show "device_show (rz_command_set p) fb (commands old) = (\<lambda>(r, c). if r < rows \<and> c < cols
        then Some (if r * cols + c < length colors then colors ! (r * cols + c) else (0, 0, 0)) else fb (r, c))"
      unfolding shown by (auto simp: shows_on_def fun_eq_iff at cell_index)
    show "commands old = encode_frame order p colors"
      by (simp add: encode_frame_def eq [unfolded commands_def] commands_def)
    show "\<forall>c \<in> set (commands old). length (pc_data c) = 90 \<and> foldr (XOR) (slice 2 87 (pc_data c)) 0 = 0"
      unfolding eq using frame_commands_reports by auto
    have "commands old = [] \<longleftrightarrow> rows * cols = 0"
    proof
      assume "commands old = []"
      then have "shows_on ({..<rows} \<times> {..<cols}) (\<lambda>(r, c). norm ! (r * cols + c)) (\<lambda>_. None) (0, 0) = None"
        unfolding shown [symmetric] by (simp add: device_show_def)
      then show "rows * cols = 0"
        by (auto simp: shows_on_def split: if_splits)
    qed (simp add: eq)
    moreover have "snd (encode_frame_into order p colors old) = from_commands (commands old)"
      by (simp add: commands_def encode_frame_into_def Let_def)
    ultimately show "snd (encode_frame_into order p colors old) = Unchanged \<longleftrightarrow> rows * cols = 0"
      by (auto simp: from_commands_def whole_batch_def)
  qed
qed
lemma encode_linear_eq:
  "encode_linear_into order p colors old =
     (if colors = [] then []
      else commands_of order (spec_with_options p (frame_tid p) 0x03 0x0C
             ([0, of_nat (min (length colors) 16 - 1)] @ concat (map rgb_bytes (take 16 colors))
               @ replicate (48 - 3 * min (length colors) 16) 0)
             None (rz_frame_commands_expect_response p) (from_millis 1))
           @ activation_commands order p)"
proof -
  define n where "n = min (length colors) 16"
  have n: "n \<le> 16" "take n colors = take 16 colors" "length (take 16 colors) = n"
    by (auto simp: n_def min_def)
  let ?args = "[0, of_nat (n - 1)] @ concat (map rgb_bytes (take 16 colors)) @ replicate (48 - 3 * n) 0"
  have args: "fill_colors ((replicate 50 0)[0 := 0, 1 := of_nat (n - 1)]) 2 (take n colors) = (?args, 2 + 3 * n)"
  proof -
    have "(replicate 50 0)[0 := 0, 1 := x] = [0, x] @ replicate 48 (0 :: u8)" for x
      using replicate_add [of 2 48 "0 :: u8"] by (simp add: numeral_2_eq_2)
    then show ?thesis
      using n by (simp add: fill_colors_eq)
  qed
  let ?spec = "spec_with_options p (frame_tid p) 0x03 0x0C ?args None (rz_frame_commands_expect_response p) (from_millis 1)"
  have "list_all (\<lambda>c. pc_response c = default_response_plan) (commands_of order ?spec @ activation_commands order p)"
    by (simp add: activation_commands_def commands_plain)
  from command_buffer_sink.recycled [OF this, of old] have pushed:
    "buffer_finish (foldl push_command_of (foldl push_command_of (command_buffer_new old) (commands_of order ?spec))
       (activation_commands order p)) = commands_of order ?spec @ activation_commands order p"
    by simp
  have cap: "frame_chunk_capacity MatrixLinear = 16"
    by (simp add: frame_chunk_capacity_def)
  show ?thesis
  proof (cases "colors = []")
    case False
    then have "n \<noteq> 0" "n - 1 < 256" using n(1) by (auto simp: n_def)
    with False args pushed show ?thesis
      unfolding encode_linear_into_def Let_def cap n_def [symmetric]
      by (cases "should_append_frame_activation p")
        (simp_all add: push_activation_command_def push_command_eq activation_commands_def)
  qed (simp add: encode_linear_into_def)
qed

lemma linear_shows:
  fixes order :: byte_order
  assumes "colors \<noteq> []"
  defines "n \<equiv> min (length colors) 16"
  shows "device_show S fb (commands_of order (spec_with_options p (frame_tid p) 0x03 0x0C
      ([0, of_nat (n - 1)] @ concat (map rgb_bytes (take 16 colors)) @ replicate (48 - 3 * n) 0)
      None (rz_frame_commands_expect_response p) (from_millis 1))) =
    shows_on ({0} \<times> {..<n}) (\<lambda>(r, c). colors ! c) fb"
proof -
  let ?spec = "spec_with_options p (frame_tid p) 0x03 0x0C
      ([0, of_nat (n - 1)] @ concat (map rgb_bytes (take 16 colors)) @ replicate (48 - 3 * n) 0)
      None (rz_frame_commands_expect_response p) (from_millis 1)"
  have n: "n \<le> 16" "0 < n" "length (take 16 colors) = n"
    using assms(1) by (auto simp: n_def)
  have parts: "cs_args ?spec = [0, of_nat (n - 1)] @ concat (map rgb_bytes (take 16 colors)) @ replicate (48 - 3 * n) 0"
      "cs_command_class ?spec = 0x03" "cs_command_id ?spec = 0x0C"
    by (simp_all add: spec_with_options_def)
  have fits: "fits_report ?spec" "declared_size ?spec = length (cs_args ?spec)"
    using n by (simp_all add: fits_report_def declared_size_def spec_with_options_def)
  have small: "unat (of_nat (n - 1) :: u8) = n - 1"
    using n(1) by (simp add: unat_of_nat del: of_nat_diff)
  have px: "((concat (map rgb_bytes (take 16 colors)) @ t) ! (3 * c), (concat (map rgb_bytes (take 16 colors)) @ t) ! (3 * c + 1),
      (concat (map rgb_bytes (take 16 colors)) @ t) ! (3 * c + 2)) = colors ! c" if "c < n" for c t
    using that n nth_rgb_concat [of c "take 16 colors" t] by simp
  have range: "c \<le> n - 1 \<longleftrightarrow> c < n" for c using n(2) by auto
  have "slice 8 (unat (report_bytes (report_of order ?spec) ! 5)) (report_bytes (report_of order ?spec)) = cs_args ?spec"
    using report_args(1) [OF fits(1), of order] fits(2) by simp
  then have "device_apply S fb (report_bytes (report_of order ?spec)) =
      paint_cells 0 0 (n - 1) (concat (map rgb_bytes (take 16 colors)) @ replicate (48 - 3 * n) 0) fb"
    unfolding device_apply_def Let_def report_args(2,3) [OF fits(1)] parts using small by simp
  also have "\<dots> = shows_on ({0} \<times> {..<n}) (\<lambda>(r, c). colors ! c) fb"
    unfolding paint_cells_def shows_on_def fun_eq_iff range using px by (simp add: split_paired_all del: One_nat_def)
  finally show ?thesis
    using fits(1) by (simp add: device_show_def commands_of_fits command_of_def)
qed

text \<open>A frame for a linear device sets the first sixteen LEDs and no other: a strip with more LEDs than
  that, such as the one of 21 in the device table, keeps what its last ones showed before.\<close>

theorem razer_linear_frame_stops_at_sixteen:
  fixes order :: byte_order and colors :: "rgb list"
  assumes "rz_matrix_type p = MatrixLinear"
  defines "leds \<equiv> unat (total_leds p)"
  shows "device_show (rz_command_set p) fb (fst (encode_frame_into order p colors old)) =
    (\<lambda>(r, c). if r = 0 \<and> c < min leds 16
       then Some (if c < length colors then colors ! c else (0, 0, 0)) else fb (r, c))"
proof -
  define norm where "norm = normalize_colors p colors"
  have norm: "length norm = leds" "norm ! i = (if i < length colors then colors ! i else (0, 0, 0))" if "i < leds" for i
    using that by (auto simp: norm_def normalize_colors_eq leds_def nth_append)
  have "0 < leds"
    using assms(1) unat_ucast_u32 [of "snd (rz_matrix_size p)"] by (simp add: leds_def total_leds_def word_less_nat_alt unat_ucast_u32)
  then have "norm \<noteq> []" using norm(1) by auto
  have "fst (encode_frame_into order p colors old) = encode_linear_into order p norm old"
    using assms(1) by (simp add: encode_frame_into_def Let_def norm_def)
  then show ?thesis
    using linear_shows [OF \<open>norm \<noteq> []\<close>, of "rz_command_set p" fb order p] \<open>norm \<noteq> []\<close> \<open>0 < leds\<close>
    by (auto simp: encode_linear_eq device_show_append activation_shows_nothing shows_on_def fun_eq_iff norm)
qed

section \<open>Witnesses\<close>

definition sample_spec :: command_spec where
  "sample_spec = \<lparr>cs_transaction_id = 0x1F, cs_command_class = 0x0F, cs_command_id = 0x04, cs_args = [1, 5, 200],
     cs_declared_data_size = Some 4, cs_timing = command_timing_new True 0 0\<rparr>"

theorem razer_report_roundtrip_witness:
  "\<exists>r. build_report BigEndian sample_spec = Some r
     \<and> parse_response (report_bytes (r\<lparr>rr_status := 2\<rparr>)) = Inr \<lparr>pr_status = StatusOk, pr_data = [1, 5, 200, 0]\<rparr>
     \<and> parse_response (take 11 (report_bytes (r\<lparr>rr_status := 2\<rparr>))) = Inl MalformedResponse
     \<and> parse_response (take 11 (report_bytes (r\<lparr>rr_status := 3\<rparr>))) = Inl (DeviceError StatusFailed)"
proof -
  have size: "declared_size sample_spec = 4" and args: "cs_args sample_spec = [1, 5, 200]"
    by (simp_all add: declared_size_def sample_spec_def)
  have ok: "map_status 2 = StatusOk" "map_status 3 = StatusFailed" by (simp_all add: map_status_def)
  note rt = razer_report_roundtrip [of BigEndian sample_spec, unfolded size args]
  then obtain r where r: "build_report BigEndian sample_spec = Some r" by auto
  from rt [THEN conjunct2, rule_format, OF this]
  have "parse_response (report_bytes (r\<lparr>rr_status := 2\<rparr>) @ []) = Inr \<lparr>pr_status = StatusOk, pr_data = [1, 5, 200, 0]\<rparr>"
    "parse_response (take 11 (report_bytes (r\<lparr>rr_status := 2\<rparr>))) = Inl MalformedResponse"
    "parse_response (take 11 (report_bytes (r\<lparr>rr_status := 3\<rparr>))) = Inl (DeviceError StatusFailed)"
    using ok by (simp_all only: simp_thms) simp_all
  with r show ?thesis by auto
qed

definition sample_keyboard :: razer_protocol where
  "sample_keyboard = razer_protocol_new Modern ExtendedSet MatrixExtended (2, 30) 5"

theorem razer_frame_reaches_matrix_witness:
  "let cmds = encode_frame LittleEndian sample_keyboard [(1, 2, 3), (4, 5, 6)];
       screen = device_show ExtendedSet (\<lambda>_. None) cmds
   in screen (0, 1) = Some (4, 5, 6) \<and> screen (1, 29) = Some (0, 0, 0) \<and> screen (2, 0) = None"
proof -
  have p: "rz_matrix_type sample_keyboard \<in> {MatrixStandard, MatrixExtended, MatrixExtendedArgb}"
    "rz_matrix_size sample_keyboard = (2, 30)" "rz_command_set sample_keyboard = ExtendedSet"
    by (simp_all add: sample_keyboard_def razer_protocol_new_def)
  from razer_frame_reaches_matrix [OF p(1), of "\<lambda>_. None" LittleEndian "[(1, 2, 3), (4, 5, 6)]" "[]"]
  show ?thesis unfolding p encode_frame_def Let_def by simp
qed

definition sample_strip :: razer_protocol where
  "sample_strip = razer_protocol_new Extended StandardSet MatrixLinear (1, 21) 5"

theorem razer_linear_frame_stops_at_sixteen_witness:
  "let screen = device_show StandardSet (\<lambda>_. None) (encode_frame LittleEndian sample_strip (replicate 21 (9, 9, 9)))
   in total_leds sample_strip = 21 \<and> screen (0, 15) = Some (9, 9, 9) \<and> screen (0, 16) = None"
proof -
  have p: "rz_matrix_type sample_strip = MatrixLinear" "rz_command_set sample_strip = StandardSet"
    "total_leds sample_strip = 21"
    by (simp_all add: sample_strip_def razer_protocol_new_def total_leds_def)
  from razer_linear_frame_stops_at_sixteen [OF p(1), of "\<lambda>_. None" LittleEndian "replicate 21 (9, 9, 9)" "[]"]
  show ?thesis unfolding p encode_frame_def Let_def by simp
qed

text \<open>A report with its report id still in front is read one byte off: the id is taken for the status.\<close>

lemma prefixed_response_is_refused:
  assumes "length d = 90"
  shows "parse_response (0 # d) = Inl (DeviceError StatusFailed)"
  using assms by (simp add: parse_response_def RAZER_REPORT_LEN_def read_report_prefix_def Let_def map_status_def)

end
