(* ===== verification/Portable.thy ===== *)
theory Portable
  imports Device_Types
begin

text \<open>
  Portable device identity (\<^verbatim>\<open>hypercolor-types/src/portable.rs\<close>): the claims a scanner may make
  about a device, the canonical keys they prove, and the refusal rules that decide whether a
  serial number, a MAC address or a driver identifier may become a key.

  \<^verbatim>\<open>str::to_lowercase\<close> on text that may leave ASCII is the parameter \<open>lower\<close>; where the source
  has already checked that the text is ASCII it is \<open>to_ascii_lowercase\<close>.
\<close>

datatype portable_key = PortableDeviceKey string

primrec key_str :: "portable_key \<Rightarrow> string" where
  "key_str (PortableDeviceKey s) = s"

datatype identity_source = SrcUsbSerial | SrcMacAddress | SrcDriverIdentifier

datatype network_attachment = Peer ip_addr | CloudInventory

datatype identity_claim =
    UsbSerial portable_key string string
  | MacAddress portable_key string network_attachment
  | DriverIdentifier portable_key string string ip_addr

datatype attachment_evidence = UsbTopology string | NetworkPeer ip_addr | Unavailable

datatype serial_normalization = TrimmedAscii | LowercasedAscii

record reviewed_serial =
  normalization :: serial_normalization
  refused :: "string list"
  receipt :: string

type_synonym serial_registry = "(u16 \<times> u16, reviewed_serial) fmap"

section \<open>Refusal rules\<close>

definition MIN_SERIAL_LEN :: nat where "MIN_SERIAL_LEN = 4"

definition PLACEHOLDER_SERIALS :: "string list" where
  "PLACEHOLDER_SERIALS =
     [''unknown'', ''default'', ''none'', ''n/a'', ''null'', ''123456789'', ''0123456789'', ''1234567890'']"

definition serial_padding :: "char \<Rightarrow> bool" where
  "serial_padding c \<longleftrightarrow> is_ascii_whitespace c \<or> byte_of c = 0"

definition plausible_serial :: "(string \<Rightarrow> string) \<Rightarrow> string \<Rightarrow> string option" where
  "plausible_serial lower raw =
     (let trimmed = trim_matches serial_padding raw
      in if length trimmed < MIN_SERIAL_LEN then None
         else if list_all (\<lambda>c. c = CHR ''0'') trimmed then None
         else if lower trimmed \<in> set PLACEHOLDER_SERIALS then None
         else Some trimmed)"

definition canonical_namespace :: "string \<Rightarrow> string option" where
  "canonical_namespace raw =
     (if trim raw \<noteq> raw then None
      else case trim raw of
             [] \<Rightarrow> None
           | first # rest \<Rightarrow>
               if \<not> is_ascii_lowercase first \<and> \<not> is_ascii_digit first then None
               else if \<not> list_all (\<lambda>c. is_ascii_lowercase c \<or> is_ascii_digit c \<or> c = CHR ''-'' \<or> c = CHR ''_'') rest
               then None
               else Some (trim raw))"

definition mac_separator :: "char \<Rightarrow> bool" where
  "mac_separator c \<longleftrightarrow> c = CHR '':'' \<or> c = CHR ''-'' \<or> c = CHR ''.''"

text \<open>\<^verbatim>\<open>u8::from_str_radix(two hex characters, 16)\<close>; \<open>u16_from_hex\<close> agrees with it below 256.\<close>

definition canonical_mac :: "string \<Rightarrow> string option" where
  "canonical_mac raw =
     (let hex = filter (\<lambda>c. \<not> mac_separator c) (trim raw)
      in if length hex \<noteq> 12 \<or> \<not> list_all is_ascii_hexdigit hex then None
         else
           (let canonical = to_ascii_lowercase hex
            in if list_all (\<lambda>c. c = CHR ''0'') canonical then None
               else case u16_from_hex (take 2 canonical) of
                      None \<Rightarrow> None
                    | Some first_octet \<Rightarrow>
                        if first_octet AND 3 \<noteq> 0 then None else Some canonical))"

section \<open>Serial normalizers\<close>

definition new_reviewed :: "serial_normalization \<Rightarrow> string \<Rightarrow> reviewed_serial" where
  "new_reviewed n r = \<lparr>normalization = n, refused = [], receipt = r\<rparr>"

definition refusing :: "reviewed_serial \<Rightarrow> string list \<Rightarrow> reviewed_serial" where
  "refusing r cs = r\<lparr>refused := cs\<rparr>"

definition refuses :: "reviewed_serial \<Rightarrow> string \<Rightarrow> bool" where
  "refuses r trimmed \<longleftrightarrow> list_ex (\<lambda>c. eq_ignore_ascii_case c trimmed) (refused r)"

definition register_serial :: "serial_registry \<Rightarrow> u16 \<Rightarrow> u16 \<Rightarrow> reviewed_serial \<Rightarrow> serial_registry" where
  "register_serial reg v p r = fmupd (v, p) r reg"

definition get_reviewed :: "serial_registry \<Rightarrow> u16 \<Rightarrow> u16 \<Rightarrow> reviewed_serial option" where
  "get_reviewed reg v p = fmlookup reg (v, p)"

definition normalize :: "(string \<Rightarrow> string) \<Rightarrow> serial_registry \<Rightarrow> u16 \<Rightarrow> u16 \<Rightarrow> string \<Rightarrow> string option" where
  "normalize lower reg v p raw =
     (case plausible_serial lower raw of
        None \<Rightarrow> None
      | Some plausible \<Rightarrow>
          (case get_reviewed reg v p of
             None \<Rightarrow> None
           | Some r \<Rightarrow>
               (let trimmed = trim_matches serial_padding plausible
                in if length trimmed < MIN_SERIAL_LEN \<or> \<not> list_all is_ascii_graphic trimmed then None
                   else if refuses r trimmed then None
                   else case normalization r of
                          TrimmedAscii \<Rightarrow> Some trimmed
                        | LowercasedAscii \<Rightarrow> Some (to_ascii_lowercase trimmed))))"

section \<open>Claims\<close>

definition usb_serial ::
    "(string \<Rightarrow> string) \<Rightarrow> serial_registry \<Rightarrow> u16 \<Rightarrow> u16 \<Rightarrow> string \<Rightarrow> string \<Rightarrow> identity_claim option" where
  "usb_serial lower reg v p raw topology =
     (case normalize lower reg v p raw of
        None \<Rightarrow> None
      | Some canonical \<Rightarrow>
          Some (UsbSerial
            (PortableDeviceKey (''usb:'' @ fmt_hex False 4 (unat v) @ '':'' @ fmt_hex False 4 (unat p) @
               '':'' @ canonical)) raw topology))"

definition mac_address :: "string \<Rightarrow> network_attachment \<Rightarrow> identity_claim option" where
  "mac_address raw attachment =
     (case canonical_mac raw of
        None \<Rightarrow> None
      | Some canonical \<Rightarrow> Some (MacAddress (PortableDeviceKey (''net:'' @ canonical)) raw attachment))"

definition driver_identifier ::
    "(string \<Rightarrow> string) \<Rightarrow> string \<Rightarrow> string \<Rightarrow> ip_addr \<Rightarrow> identity_claim option" where
  "driver_identifier lower ns raw peer =
     (case canonical_namespace ns of
        None \<Rightarrow> None
      | Some ns \<Rightarrow>
          (case plausible_serial lower raw of
             None \<Rightarrow> None
           | Some serial \<Rightarrow>
               Some (DriverIdentifier (PortableDeviceKey (ns @ '':'' @ lower serial)) ns raw peer)))"

primrec claim_key :: "identity_claim \<Rightarrow> portable_key" where
  "claim_key (UsbSerial k _ _) = k"
| "claim_key (MacAddress k _ _) = k"
| "claim_key (DriverIdentifier k _ _ _) = k"

primrec claim_source :: "identity_claim \<Rightarrow> identity_source" where
  "claim_source (UsbSerial _ _ _) = SrcUsbSerial"
| "claim_source (MacAddress _ _ _) = SrcMacAddress"
| "claim_source (DriverIdentifier _ _ _ _) = SrcDriverIdentifier"

primrec claim_raw :: "identity_claim \<Rightarrow> string" where
  "claim_raw (UsbSerial _ r _) = r"
| "claim_raw (MacAddress _ r _) = r"
| "claim_raw (DriverIdentifier _ _ r _) = r"

primrec claim_namespace :: "identity_claim \<Rightarrow> string option" where
  "claim_namespace (UsbSerial _ _ _) = None"
| "claim_namespace (MacAddress _ _ _) = None"
| "claim_namespace (DriverIdentifier _ ns _ _) = Some ns"

primrec claim_evidence :: "identity_claim \<Rightarrow> attachment_evidence" where
  "claim_evidence (UsbSerial _ _ topology) = UsbTopology topology"
| "claim_evidence (MacAddress _ _ attachment) =
     (case attachment of Peer p \<Rightarrow> NetworkPeer p | CloudInventory \<Rightarrow> Unavailable)"
| "claim_evidence (DriverIdentifier _ _ _ peer) = NetworkPeer peer"

fun proves_distinct_from :: "attachment_evidence \<Rightarrow> attachment_evidence \<Rightarrow> bool" where
  "proves_distinct_from (UsbTopology a) (UsbTopology b) \<longleftrightarrow> a \<noteq> b"
| "proves_distinct_from (NetworkPeer a) (NetworkPeer b) \<longleftrightarrow> a \<noteq> b"
| "proves_distinct_from _ _ \<longleftrightarrow> False"

lemma proves_distinct_irrefl [simp]: "\<not> proves_distinct_from e e"
  by (cases e) simp_all

lemma proves_distinct_sym: "proves_distinct_from a b \<longleftrightarrow> proves_distinct_from b a"
  by (cases a; cases b) auto

section \<open>MAC addresses\<close>

lemma lower_hex:
  assumes "is_ascii_hexdigit c"
  shows "is_ascii_hexdigit (to_ascii_lower c)" "\<not> is_ascii_uppercase (to_ascii_lower c)" "\<not> mac_separator (to_ascii_lower c)"
    "\<not> is_whitespace (to_ascii_lower c)"
proof -
  have b: "byte_of (to_ascii_lower c) = (if 65 \<le> byte_of c \<and> byte_of c \<le> 90 then byte_of c + 32 else byte_of c)"
    by (simp add: to_ascii_lower_def is_ascii_uppercase_def byte_of_char_of)
  show h: "is_ascii_hexdigit (to_ascii_lower c)"
    using assms unfolding is_ascii_hexdigit_def is_ascii_digit_def b by auto
  show "\<not> is_ascii_uppercase (to_ascii_lower c)" by (rule to_ascii_lower_not_upper)
  have "byte_of (CHR '':'') = 58" "byte_of (CHR ''-'') = 45" "byte_of (CHR ''.'') = 46" by (simp_all add: byte_of_def)
  then show "\<not> mac_separator (to_ascii_lower c)"
    using h by (auto simp: mac_separator_def is_ascii_hexdigit_def is_ascii_digit_def)
  show "\<not> is_whitespace (to_ascii_lower c)"
    using h by (auto simp: is_whitespace_def is_ascii_hexdigit_def is_ascii_digit_def)
qed

lemma lower_hex_iff: "is_ascii_hexdigit (to_ascii_lower c) = is_ascii_hexdigit c"
proof -
  have b: "byte_of (to_ascii_lower c) = (if 65 \<le> byte_of c \<and> byte_of c \<le> 90 then byte_of c + 32 else byte_of c)"
    by (simp add: to_ascii_lower_def is_ascii_uppercase_def byte_of_char_of)
  show ?thesis unfolding is_ascii_hexdigit_def is_ascii_digit_def b by auto
qed

text \<open>The shape of an accepted address: twelve lower-case hex digits, not all zero, with the
  multicast and the locally-administered bit clear.\<close>

definition mac_key_ok :: "string \<Rightarrow> bool" where
  "mac_key_ok k \<longleftrightarrow> length k = 12 \<and> list_all is_ascii_hexdigit k \<and> list_all (\<lambda>c. \<not> is_ascii_uppercase c) k \<and>
     (\<exists>c \<in> set k. c \<noteq> CHR ''0'') \<and> (\<exists>o8. u16_from_hex (take 2 k) = Some o8 \<and> o8 AND 3 = 0)"

lemma canonical_mac_Some:
  "canonical_mac raw = Some k \<longleftrightarrow>
     k = to_ascii_lowercase (filter (\<lambda>c. \<not> mac_separator c) (trim raw)) \<and> mac_key_ok k \<and>
     list_all is_ascii_hexdigit (filter (\<lambda>c. \<not> mac_separator c) (trim raw))"
proof -
  define hex where "hex = filter (\<lambda>c. \<not> mac_separator c) (trim raw)"
  have "list_all is_ascii_hexdigit hex \<Longrightarrow> list_all is_ascii_hexdigit (to_ascii_lowercase hex)"
    by (auto simp: to_ascii_lowercase_def list_all_iff lower_hex)
  moreover have "list_all (\<lambda>c. \<not> is_ascii_uppercase c) (to_ascii_lowercase hex)"
    by (auto simp: to_ascii_lowercase_def list_all_iff to_ascii_lower_not_upper)
  moreover have "length (to_ascii_lowercase hex) = length hex" by (simp add: to_ascii_lowercase_def)
  ultimately show ?thesis
    unfolding canonical_mac_def hex_def [symmetric] mac_key_ok_def Let_def
    by (auto simp: list_all_iff split: option.splits if_splits)
qed

lemma canonical_mac_fixed: "mac_key_ok k \<Longrightarrow> canonical_mac k = Some k"
proof -
  assume k: "mac_key_ok k"
  then have all: "\<And>c. c \<in> set k \<Longrightarrow> is_ascii_hexdigit c \<and> \<not> is_ascii_uppercase c"
    by (auto simp: mac_key_ok_def list_all_iff)
  have low: "to_ascii_lower c = c" if "c \<in> set k" for c using all [OF that] by (simp add: to_ascii_lower_def)
  have "trim k = k"
  proof -
    have "k \<noteq> []" using k by (auto simp: mac_key_ok_def)
    then have "\<not> is_whitespace (hd k)" "\<not> is_whitespace (last k)"
      using lower_hex(4) low all by (metis hd_in_set, metis last_in_set)
    with \<open>k \<noteq> []\<close> show ?thesis unfolding trim_def by (rule trim_matches_id)
  qed
  moreover have "filter (\<lambda>c. \<not> mac_separator c) k = k"
    using lower_hex(3) low all by (intro filter_True) metis
  moreover have "to_ascii_lowercase k = k" unfolding to_ascii_lowercase_def using low by (rule map_idI)
  ultimately show ?thesis using k by (simp add: canonical_mac_Some mac_key_ok_def)
qed

text \<open>C13: An accepted hardware address is twelve lower-case hexadecimal digits of a globally
  administered unicast address other than zero; every such text is its own canonical form; and
  separators and letter case of the input do not matter.\<close>

theorem canonical_mac_normal_form:
  "(\<exists>raw. canonical_mac raw = Some k) = mac_key_ok k \<and>
   (mac_key_ok k \<longrightarrow> canonical_mac k = Some k) \<and>
   (\<forall>raw raw'. map to_ascii_lower (filter (\<lambda>c. \<not> mac_separator c) (trim raw)) =
      map to_ascii_lower (filter (\<lambda>c. \<not> mac_separator c) (trim raw')) \<longrightarrow>
      canonical_mac raw = Some k \<longrightarrow> canonical_mac raw' = Some k)"
proof (intro conjI allI impI iffI)
  assume "\<exists>raw. canonical_mac raw = Some k"
  then show "mac_key_ok k" by (auto simp: canonical_mac_Some)
next
  assume "mac_key_ok k"
  then show "\<exists>raw. canonical_mac raw = Some k" and "canonical_mac k = Some k"
    using canonical_mac_fixed by blast+
next
  fix raw raw'
  let ?f = "\<lambda>r. filter (\<lambda>c. \<not> mac_separator c) (trim r)"
  assume eq: "map to_ascii_lower (?f raw) = map to_ascii_lower (?f raw')" and k: "canonical_mac raw = Some k"
  have "list_all is_ascii_hexdigit (?f raw')"
  proof -
    have "list_all is_ascii_hexdigit (map to_ascii_lower (?f raw))"
      using k lower_hex(1) by (auto simp: canonical_mac_Some list_all_iff)
    then show ?thesis unfolding eq by (auto simp: list_all_iff lower_hex_iff)
  qed
  then show "canonical_mac raw' = Some k" using k eq by (auto simp: canonical_mac_Some to_ascii_lowercase_def)
qed

lemma demo_mac_ok: "mac_key_ok ''2cf432112233''" "mac_key_ok ''001788112233''"
  by (simp_all add: mac_key_ok_def is_ascii_hexdigit_def is_ascii_digit_def is_ascii_uppercase_def byte_of_def
      u16_from_hex_def hex_val_def)

theorem canonical_mac_normal_form_witness:
  "canonical_mac ''2C:F4:32:11:22:33'' = Some ''2cf432112233''"
proof -
  have eq: "map to_ascii_lower (filter (\<lambda>c. \<not> mac_separator c) (trim ''2cf432112233'')) =
      map to_ascii_lower (filter (\<lambda>c. \<not> mac_separator c) (trim ''2C:F4:32:11:22:33''))"
    by code_simp
  show ?thesis using canonical_mac_normal_form [of "''2cf432112233''"] demo_mac_ok(1) eq by blast
qed

section \<open>Keys and identities\<close>

text \<open>What a claim says about the hardware, independently of how its key is spelled.\<close>

datatype identity =
    IdUsb u16 u16 string
  | IdMac string
  | IdDriver string string

inductive claims :: "(string \<Rightarrow> string) \<Rightarrow> serial_registry \<Rightarrow> identity_claim \<Rightarrow> identity \<Rightarrow> bool"
  for lower reg where
  claims_usb: "usb_serial lower reg v p raw topology = Some c \<Longrightarrow> normalize lower reg v p raw = Some s \<Longrightarrow>
    claims lower reg c (IdUsb v p s)"
| claims_mac: "mac_address raw attachment = Some c \<Longrightarrow> canonical_mac raw = Some k \<Longrightarrow> claims lower reg c (IdMac k)"
| claims_driver: "driver_identifier lower ns raw peer = Some c \<Longrightarrow> canonical_namespace ns = Some n \<Longrightarrow>
    plausible_serial lower raw = Some s \<Longrightarrow> claims lower reg c (IdDriver n (lower s))"

fun identity_prefix :: "identity \<Rightarrow> string" where
  "identity_prefix (IdUsb v p s) = ''usb''"
| "identity_prefix (IdMac k) = ''net''"
| "identity_prefix (IdDriver n s) = n"

fun identity_rest :: "identity \<Rightarrow> string" where
  "identity_rest (IdUsb v p s) = fmt_hex False 4 (unat v) @ '':'' @ fmt_hex False 4 (unat p) @ '':'' @ s"
| "identity_rest (IdMac k) = k"
| "identity_rest (IdDriver n s) = s"

text \<open>The two prefixes the other sources use are not refused as driver namespaces.\<close>

fun reserved_namespace :: "identity \<Rightarrow> bool" where
  "reserved_namespace (IdDriver n s) \<longleftrightarrow> n = ''usb'' \<or> n = ''net''"
| "reserved_namespace _ \<longleftrightarrow> False"

lemma canonical_namespace_Some:
  "canonical_namespace ns = Some n \<Longrightarrow> n = ns \<and> CHR '':'' \<notin> set n"
  by (auto simp: canonical_namespace_def list_all_iff is_ascii_lowercase_def is_ascii_digit_def byte_of_def
      split: list.splits if_splits dest!: bspec [of _ _ "CHR '':''"])

lemma claims_key: "claims lower reg c i \<Longrightarrow> claim_key c = PortableDeviceKey (identity_prefix i @ '':'' @ identity_rest i)"
  by (induction rule: claims.induct) (auto simp: usb_serial_def mac_address_def driver_identifier_def)

lemma claims_prefix: "claims lower reg c i \<Longrightarrow> CHR '':'' \<notin> set (identity_prefix i)"
  by (induction rule: claims.induct) (auto dest: canonical_namespace_Some)

lemma fmt_hex_unat_inject: "fmt_hex u w (unat a) = fmt_hex u w (unat b) \<longleftrightarrow> a = b" for a b :: u16
  using u16_from_hex_fmt by (metis option.inject)

lemma usb_rest_inject:
  "identity_rest (IdUsb v p s) = identity_rest (IdUsb v' p' s') \<longleftrightarrow> v = v' \<and> p = p' \<and> s = s'"
  by (simp only: identity_rest.simps colon_free_append_eq fmt_hex_no_colon not_False_eq_True fmt_hex_unat_inject)

text \<open>C12: The canonical key of a claim names exactly the hardware the claim proves: two claims
  made by any of the constructors have the same key only when they agree on vendor, product and
  canonical serial, or on the canonical address, or on namespace and canonical identifier; claims
  from different sources never share a key, as long as no driver registers one of the prefixes
  \<open>usb\<close> and \<open>net\<close> as its namespace.\<close>

theorem portable_keys_separate:
  assumes "claims lower reg c i" "claims lower' reg' c' j" "\<not> reserved_namespace i" "\<not> reserved_namespace j"
  shows "claim_key c = claim_key c' \<longleftrightarrow> i = j"
proof -
  have "claim_key c = claim_key c' \<longleftrightarrow> identity_prefix i = identity_prefix j \<and> identity_rest i = identity_rest j"
    unfolding claims_key [OF assms(1)] claims_key [OF assms(2)] portable_key.inject
    by (rule colon_free_append_eq [OF claims_prefix [OF assms(1)] claims_prefix [OF assms(2)]])
  then show ?thesis
    using assms(3,4) usb_rest_inject by (cases i; cases j) auto
qed

lemma demo_claims:
  "claims id fmempty (MacAddress (PortableDeviceKey ''net:2cf432112233'') ''2cf432112233'' CloudInventory)
     (IdMac ''2cf432112233'')"
  "claims id fmempty (DriverIdentifier (PortableDeviceKey ''hue:2cf432112233'') ''hue'' ''2cf432112233'' (V4 1))
     (IdDriver ''hue'' (id ''2cf432112233''))"
proof -
  have k: "canonical_mac ''2cf432112233'' = Some ''2cf432112233''" by (rule canonical_mac_fixed [OF demo_mac_ok(1)])
  then show "claims id fmempty (MacAddress (PortableDeviceKey ''net:2cf432112233'') ''2cf432112233'' CloudInventory)
     (IdMac ''2cf432112233'')"
    by (intro claims_mac [OF _ k]) (simp add: mac_address_def)
  have n: "canonical_namespace ''hue'' = Some ''hue''" by code_simp
  have p: "plausible_serial id ''2cf432112233'' = Some ''2cf432112233''" by code_simp
  show "claims id fmempty (DriverIdentifier (PortableDeviceKey ''hue:2cf432112233'') ''hue'' ''2cf432112233'' (V4 1))
     (IdDriver ''hue'' (id ''2cf432112233''))"
    by (rule claims_driver [OF _ n p]) (simp add: driver_identifier_def n p)
qed

theorem portable_keys_separate_witness:
  "PortableDeviceKey ''net:2cf432112233'' \<noteq> PortableDeviceKey ''hue:2cf432112233''"
  using portable_keys_separate [OF demo_claims] by simp

text \<open>A driver that names its identifiers \<open>net\<close> mints the key of the hardware address with
  the same digits: the prefixes of the other sources are accepted as driver namespaces.\<close>

theorem reserved_namespace_collides:
  assumes "lower ''001788112233'' = ''001788112233''"
  shows "\<exists>c d. driver_identifier lower ''net'' ''001788112233'' peer = Some c \<and>
    mac_address ''00:17:88:11:22:33'' attachment = Some d \<and> claim_key c = claim_key d \<and> claim_source c \<noteq> claim_source d"
proof -
  have n: "canonical_namespace ''net'' = Some ''net''" by code_simp
  have "to_ascii_lowercase (filter (\<lambda>c. \<not> mac_separator c) (trim ''00:17:88:11:22:33'')) = ''001788112233''"
    "list_all is_ascii_hexdigit (filter (\<lambda>c. \<not> mac_separator c) (trim ''00:17:88:11:22:33''))" by code_simp+
  then have m: "canonical_mac ''00:17:88:11:22:33'' = Some ''001788112233''"
    using demo_mac_ok(2) by (simp only: canonical_mac_Some simp_thms)
  have t: "trim_matches serial_padding ''001788112233'' = ''001788112233''"
    "\<not> list_all (\<lambda>c. c = CHR ''0'') ''001788112233''" "''001788112233'' \<notin> set PLACEHOLDER_SERIALS" by code_simp+
  have "plausible_serial lower ''001788112233'' = Some ''001788112233''"
    unfolding plausible_serial_def Let_def t(1) assms using t(2,3) by (simp add: MIN_SERIAL_LEN_def)
  then show ?thesis using n m assms by (simp add: driver_identifier_def mac_address_def)
qed

theorem reserved_namespace_collides_witness:
  "\<exists>c d. driver_identifier to_ascii_lowercase ''net'' ''001788112233'' (V4 1) = Some c \<and>
    mac_address ''00:17:88:11:22:33'' CloudInventory = Some d \<and> claim_key c = claim_key d \<and> claim_source c \<noteq> claim_source d"
proof -
  have "to_ascii_lowercase ''001788112233'' = ''001788112233''" by code_simp
  then show ?thesis by (rule reserved_namespace_collides)
qed

end
