(* ===== verification/Registry.thy ===== *)
theory Registry
  imports Portable Ieee
begin

text \<open>
  The device registry (\<^verbatim>\<open>hypercolor-core/src/device/registry.rs\<close> and \<^verbatim>\<open>registry/portable.rs\<close>): the
  tracked devices with their fingerprint index, scanner metadata, portable identity claims, key
  pins, quarantine and collision log, and every method that changes them. Each method runs under
  the write lock, so a method is one atomic step on the state; \<^verbatim>\<open>generation\<close> is part of it.

  \<open>sid\<close> prints a device id as the UUID crate does. The \<^verbatim>\<open>DeviceId::new()\<close> calls of the collision
  loop return the values of the list \<open>ids\<close>, one per call; the operation is \<open>None\<close> while the loop
  has not found a free id. A brightness is an \<^verbatim>\<open>f32\<close> to which only \<^verbatim>\<open>clamp\<close> and \<^verbatim>\<open>==\<close> are applied.
\<close>

record 'p tracked_device =
  t_info :: "'p device_info"
  observed_name :: string
  t_state :: device_state
  t_behavior :: connect_behavior
  user_settings :: device_user_settings
  revision :: u64

record key_collision =
  col_key :: portable_key
  existing_device :: device_id
  existing_fingerprint :: device_fingerprint
  existing_claim :: identity_claim
  incoming_fingerprint :: device_fingerprint
  incoming_claim :: identity_claim

type_synonym scan_metadata = "(string, string) fmap"

record 'p registry =
  reg_devices :: "(device_id, 'p tracked_device) fmap"
  fingerprints :: "(device_fingerprint, device_id) fmap"
  id_to_fingerprint :: "(device_id, device_fingerprint) fmap"
  metadata_by_id :: "(device_id, scan_metadata) fmap"
  claims_by_id :: "(device_id, identity_claim) fmap"
  portable_key_pins :: "(portable_key, device_fingerprint) fmap"
  quarantined_keys :: "portable_key fset"
  collision_log :: "key_collision list"
  generation :: u64

datatype rebind_error = UnknownDevice | Unclaimed | TargetActive

record 'p discovered_device =
  dis_fingerprint :: device_fingerprint
  dis_behavior :: connect_behavior
  dis_info :: "'p device_info"
  dis_metadata :: scan_metadata
  dis_claim :: "identity_claim option"

definition new_registry :: "'p registry" where
  "new_registry =
     \<lparr>reg_devices = fmempty, fingerprints = fmempty, id_to_fingerprint = fmempty, metadata_by_id = fmempty,
      claims_by_id = fmempty, portable_key_pins = fmempty, quarantined_keys = {||}, collision_log = [],
      generation = 0\<rparr>"

section \<open>Helpers\<close>

definition observed_info :: "'p tracked_device \<Rightarrow> 'p device_info" where
  "observed_info t = (t_info t)\<lparr>info_name := observed_name t\<rparr>"

definition bump_generation :: "'p registry \<Rightarrow> 'p registry" where
  "bump_generation r = r\<lparr>generation := generation r + 1\<rparr>"

definition bump_device_revision :: "'p tracked_device \<Rightarrow> 'p tracked_device" where
  "bump_device_revision t = t\<lparr>revision := saturating_succ (revision t)\<rparr>"

definition apply_user_settings_to_info :: "'p device_info \<Rightarrow> device_user_settings \<Rightarrow> 'p device_info" where
  "apply_user_settings_to_info info s = (case set_name s of None \<Rightarrow> info | Some n \<Rightarrow> info\<lparr>info_name := n\<rparr>)"

text \<open>The derived \<^verbatim>\<open>PartialEq\<close> of the settings: a \<open>NaN\<close> brightness differs from itself.\<close>

definition f32_eq :: "f64 \<Rightarrow> f64 \<Rightarrow> bool" where
  "f32_eq a b \<longleftrightarrow> a \<noteq> NaN \<and> a = b"

definition settings_eq :: "device_user_settings \<Rightarrow> device_user_settings \<Rightarrow> bool" where
  "settings_eq a b \<longleftrightarrow> set_name a = set_name b \<and> enabled a = enabled b \<and> f32_eq (brightness a) (brightness b) \<and>
     display_rotation a = display_rotation b"

definition clamp_unit :: "f64 \<Rightarrow> f64" where
  "clamp_unit b = (if f64_less b (Fin 0) then Fin 0 else if f64_less (Fin 1) b then Fin 1 else b)"

definition has_shape :: "'p device_info \<Rightarrow> bool" where
  "has_shape i \<longleftrightarrow> segments i \<noteq> [] \<or> 0 < led_count (capabilities i) \<or> has_display (capabilities i)"

definition preserve_resolved_device_shape :: "'p device_info \<Rightarrow> 'p device_info \<Rightarrow> 'p device_info" where
  "preserve_resolved_device_shape incoming existing =
     (if has_shape incoming \<or> \<not> has_shape existing then incoming
      else incoming\<lparr>segments := segments existing, capabilities := capabilities existing\<rparr>)"

text \<open>The entry a rediscovery writes over an existing device.\<close>

definition rediscovered_info :: "'p tracked_device \<Rightarrow> device_id \<Rightarrow> 'p device_info \<Rightarrow> 'p device_info" where
  "rediscovered_info t i info = preserve_resolved_device_shape (info\<lparr>info_id := i\<rparr>) (t_info t)"

definition refreshed_device ::
    "'p tracked_device \<Rightarrow> 'p device_info \<Rightarrow> connect_behavior \<Rightarrow> 'p tracked_device" where
  "refreshed_device t info b =
     bump_device_revision (t\<lparr>t_info := apply_user_settings_to_info info (user_settings t),
       observed_name := info_name info, t_behavior := b\<rparr>)"

definition put_tracked :: "'p registry \<Rightarrow> device_id \<Rightarrow> 'p tracked_device \<Rightarrow> 'p registry" where
  "put_tracked r i t = r\<lparr>reg_devices := fmupd i t (reg_devices r)\<rparr>"

definition put_metadata :: "'p registry \<Rightarrow> device_id \<Rightarrow> scan_metadata \<Rightarrow> 'p registry" where
  "put_metadata r i md = (if md = fmempty then r else r\<lparr>metadata_by_id := fmupd i md (metadata_by_id r)\<rparr>)"

section \<open>Portable identity\<close>

text \<open>The present holder of a pinned fingerprint, with its claim: only a renderable device counts.\<close>

definition present_holder :: "'p registry \<Rightarrow> device_fingerprint \<Rightarrow> (device_id \<times> identity_claim) option" where
  "present_holder r pinned =
     (case fmlookup (fingerprints r) pinned of
        None \<Rightarrow> None
      | Some h \<Rightarrow>
          (case fmlookup (reg_devices r) h of
             None \<Rightarrow> None
           | Some t \<Rightarrow>
               if is_renderable (t_state t) then map_option (Pair h) (fmlookup (claims_by_id r) h) else None))"

definition resolve_portable_fingerprint ::
    "'p registry \<Rightarrow> device_fingerprint \<Rightarrow> identity_claim option \<Rightarrow> 'p registry \<times> device_fingerprint" where
  "resolve_portable_fingerprint r fp claim =
     (case claim of
        None \<Rightarrow> (r, fp)
      | Some c \<Rightarrow>
          if claim_key c |\<in>| quarantined_keys r then (r, fp)
          else (case fmlookup (portable_key_pins r) (claim_key c) of
                  None \<Rightarrow> (r\<lparr>portable_key_pins := fmupd (claim_key c) fp (portable_key_pins r)\<rparr>, fp)
                | Some pinned \<Rightarrow>
                    if pinned = fp then (r, fp)
                    else (case present_holder r pinned of
                            Some (h, held) \<Rightarrow>
                              if proves_distinct_from (claim_evidence held) (claim_evidence c)
                              then (r\<lparr>collision_log := collision_log r @
                                      [\<lparr>col_key = claim_key c, existing_device = h, existing_fingerprint = pinned,
                                        existing_claim = held, incoming_fingerprint = fp, incoming_claim = c\<rparr>],
                                      quarantined_keys := finsert (claim_key c) (quarantined_keys r),
                                      portable_key_pins := fmdrop (claim_key c) (portable_key_pins r)\<rparr>, fp)
                              else (r, pinned)
                          | None \<Rightarrow> (r, pinned))))"

definition store_portable_claim :: "'p registry \<Rightarrow> device_id \<Rightarrow> identity_claim option \<Rightarrow> 'p registry" where
  "store_portable_claim r i claim =
     (case claim of
        None \<Rightarrow> r
      | Some c \<Rightarrow>
          (let r = (case fmlookup (claims_by_id r) i of
                      Some previous \<Rightarrow>
                        if claim_key previous \<noteq> claim_key c
                        then r\<lparr>portable_key_pins := fmdrop (claim_key previous) (portable_key_pins r)\<rparr> else r
                    | None \<Rightarrow> r);
               r = (if claim_key c |\<notin>| quarantined_keys r \<and> fmlookup (portable_key_pins r) (claim_key c) = None
                    then (case fmlookup (id_to_fingerprint r) i of
                            Some canonical \<Rightarrow>
                              r\<lparr>portable_key_pins := fmupd (claim_key c) canonical (portable_key_pins r)\<rparr>
                          | None \<Rightarrow> r)
                    else r)
           in r\<lparr>claims_by_id := fmupd i c (claims_by_id r)\<rparr>))"

section \<open>DRAM modules that change their address\<close>

record dram_identity =
  dram_bus_path :: string
  dram_controller :: string
  dram_firmware :: string
  dram_led_count :: u32

definition smbus_dram_identity :: "'p device_info \<Rightarrow> scan_metadata \<Rightarrow> dram_identity option" where
  "smbus_dram_identity info md =
     (if conn_type info \<noteq> CtSmBus \<or> model info \<noteq> Some ''asus_aura_smbus_dram'' then None
      else case fmlookup md ''controller_kind'' of
             None \<Rightarrow> None
           | Some kind \<Rightarrow>
               if kind \<noteq> ''dram'' then None
               else (case fmlookup md ''bus_path'' of
                       None \<Rightarrow> None
                     | Some bus \<Rightarrow>
                         (case (case fmlookup md ''firmware_name'' of
                                  Some f \<Rightarrow> Some f | None \<Rightarrow> firmware_version info) of
                            None \<Rightarrow> None
                          | Some f \<Rightarrow>
                              Some \<lparr>dram_bus_path = bus, dram_controller = kind, dram_firmware = f,
                                    dram_led_count = total_led_count info\<rparr>)))"

definition dram_candidates :: "'p registry \<Rightarrow> dram_identity \<Rightarrow> device_id fset" where
  "dram_candidates r target =
     ffilter (\<lambda>i. case fmlookup (reg_devices r) i of
                None \<Rightarrow> False
              | Some t \<Rightarrow>
                  (is_renderable (t_state t) \<or> t_state t = Reconnecting) \<and>
                  (case fmlookup (metadata_by_id r) i of
                     None \<Rightarrow> False
                   | Some md \<Rightarrow> smbus_dram_identity (t_info t) md = Some target))
       (fmdom (reg_devices r))"

text \<open>The only candidate, whatever the order in which the hash map yields them.\<close>

definition find_single_renderable_smbus_dram_match ::
    "'p registry \<Rightarrow> 'p device_info \<Rightarrow> scan_metadata \<Rightarrow> device_id option" where
  "find_single_renderable_smbus_dram_match r info md =
     (case smbus_dram_identity info md of
        None \<Rightarrow> None
      | Some target \<Rightarrow>
          (let ms = dram_candidates r target in if fcard ms = 1 then Some (fthe_elem ms) else None))"

section \<open>Adding devices\<close>

text \<open>The loop that draws ids until one is free; \<open>None\<close> when \<open>ids\<close> runs out first.\<close>

fun allocate_id :: "(device_id, 'v) fmap \<Rightarrow> device_id \<Rightarrow> device_id list \<Rightarrow> device_id option" where
  "allocate_id ds i ids =
     (if fmlookup ds i = None then Some i
      else case ids of [] \<Rightarrow> None | j # js \<Rightarrow> allocate_id ds j js)"

definition update_existing ::
    "'p registry \<Rightarrow> device_id \<Rightarrow> 'p tracked_device \<Rightarrow> 'p device_info \<Rightarrow> device_fingerprint \<Rightarrow> scan_metadata \<Rightarrow>
     connect_behavior \<Rightarrow> identity_claim option \<Rightarrow> 'p registry" where
  "update_existing r i t info fp md b claim =
     (let observed = rediscovered_info t i info;
          updated = apply_user_settings_to_info observed (user_settings t);
          entry_changed = (t_info t \<noteq> updated \<or> observed_name t \<noteq> info_name observed \<or> t_behavior t \<noteq> b);
          fingerprint_changed = (fmlookup (id_to_fingerprint r) i \<noteq> Some fp);
          metadata_changed = (md \<noteq> fmempty \<and> fmlookup (metadata_by_id r) i \<noteq> Some md);
          claim_changed = (case claim of None \<Rightarrow> False | Some c \<Rightarrow> fmlookup (claims_by_id r) i \<noteq> Some c)
      in if entry_changed \<or> fingerprint_changed \<or> metadata_changed \<or> claim_changed
         then
           (let r = put_tracked r i (refreshed_device t observed b);
                r = r\<lparr>id_to_fingerprint := fmupd i fp (id_to_fingerprint r)\<rparr>;
                r = put_metadata r i md
            in bump_generation (store_portable_claim r i claim))
         else r)"

definition reindex_fingerprint ::
    "'p registry \<Rightarrow> device_id \<Rightarrow> device_fingerprint \<Rightarrow> 'p registry" where
  "reindex_fingerprint r i fp =
     (let previous = fmlookup (id_to_fingerprint r) i;
          r = r\<lparr>id_to_fingerprint := fmupd i fp (id_to_fingerprint r)\<rparr>;
          r = (case previous of None \<Rightarrow> r | Some p \<Rightarrow> r\<lparr>fingerprints := fmdrop p (fingerprints r)\<rparr>)
      in r\<lparr>fingerprints := fmupd fp i (fingerprints r)\<rparr>)"

definition insert_new ::
    "'p registry \<Rightarrow> device_id \<Rightarrow> 'p device_info \<Rightarrow> device_fingerprint \<Rightarrow> scan_metadata \<Rightarrow>
     connect_behavior \<Rightarrow> identity_claim option \<Rightarrow> 'p registry" where
  "insert_new r i info fp md b claim =
     (let t = \<lparr>t_info = info\<lparr>info_id := i\<rparr>, observed_name = info_name info, t_state = Known, t_behavior = b,
               user_settings = default_user_settings, revision = 0\<rparr>;
          r = r\<lparr>fingerprints := fmupd fp i (fingerprints r), id_to_fingerprint := fmupd i fp (id_to_fingerprint r)\<rparr>;
          r = put_metadata r i md;
          r = put_tracked r i t
      in bump_generation (store_portable_claim r i claim))"

text \<open>The part of \<open>add_entry\<close> after the fingerprint lookup found no live device.\<close>

definition add_unmatched ::
    "device_id list \<Rightarrow> 'p registry \<Rightarrow> 'p device_info \<Rightarrow> device_fingerprint \<Rightarrow> scan_metadata \<Rightarrow>
     connect_behavior \<Rightarrow> identity_claim option \<Rightarrow> ('p registry \<times> device_id) option" where
  "add_unmatched ids r info fp md b claim =
     (let new = (\<lambda>r. map_option (\<lambda>i. (insert_new r i info fp md b claim, i))
                       (allocate_id (reg_devices r) (info_id info) ids))
      in case find_single_renderable_smbus_dram_match r info md of
           None \<Rightarrow> new r
         | Some i \<Rightarrow>
             (let r = reindex_fingerprint r i fp
              in case fmlookup (reg_devices r) i of
                   Some t \<Rightarrow>
                     (let r = put_tracked r i (refreshed_device t (rediscovered_info t i info) b);
                          r = put_metadata r i md
                      in Some (bump_generation (store_portable_claim r i claim), i))
                 | None \<Rightarrow> new (r\<lparr>fingerprints := fmdrop fp (fingerprints r),
                                   id_to_fingerprint := fmdrop i (id_to_fingerprint r)\<rparr>)))"

definition add_entry ::
    "device_id list \<Rightarrow> 'p registry \<Rightarrow> 'p device_info \<Rightarrow> device_fingerprint \<Rightarrow> scan_metadata \<Rightarrow>
     connect_behavior \<Rightarrow> identity_claim option \<Rightarrow> ('p registry \<times> device_id) option" where
  "add_entry ids r info fp md b claim =
     (let (r, fp) = resolve_portable_fingerprint r fp claim
      in case fmlookup (fingerprints r) fp of
           Some i \<Rightarrow>
             (case fmlookup (reg_devices r) i of
                Some t \<Rightarrow> Some (update_existing r i t info fp md b claim, i)
              | None \<Rightarrow> add_unmatched ids (r\<lparr>fingerprints := fmdrop fp (fingerprints r)\<rparr>) info fp md b claim)
         | None \<Rightarrow> add_unmatched ids r info fp md b claim)"

definition add_discovered ::
    "device_id list \<Rightarrow> 'p registry \<Rightarrow> 'p discovered_device \<Rightarrow> ('p registry \<times> device_id) option" where
  "add_discovered ids r d =
     add_entry ids r (dis_info d) (dis_fingerprint d) (dis_metadata d) (dis_behavior d) (dis_claim d)"

definition add_with_fingerprint_and_metadata ::
    "device_id list \<Rightarrow> 'p registry \<Rightarrow> 'p device_info \<Rightarrow> device_fingerprint \<Rightarrow> scan_metadata \<Rightarrow>
     ('p registry \<times> device_id) option" where
  "add_with_fingerprint_and_metadata ids r info fp md = add_entry ids r info fp md AutoConnect None"

definition add_with_fingerprint ::
    "device_id list \<Rightarrow> 'p registry \<Rightarrow> 'p device_info \<Rightarrow> device_fingerprint \<Rightarrow> ('p registry \<times> device_id) option" where
  "add_with_fingerprint ids r info fp = add_with_fingerprint_and_metadata ids r info fp fmempty"

definition add_device ::
    "(device_id \<Rightarrow> string) \<Rightarrow> device_id list \<Rightarrow> 'p registry \<Rightarrow> 'p device_info \<Rightarrow> ('p registry \<times> device_id) option" where
  "add_device sid ids r info =
     Option.bind (mint BridgeNs ''registry'' (sid (info_id info))) (add_with_fingerprint ids r info)"

section \<open>Removing and updating devices\<close>

definition forget_device :: "'p registry \<Rightarrow> device_id \<Rightarrow> 'p registry" where
  "forget_device r i =
     r\<lparr>fingerprints := fmretain (\<lambda>m. m \<noteq> i) (fingerprints r), metadata_by_id := fmdrop i (metadata_by_id r),
       claims_by_id := fmdrop i (claims_by_id r)\<rparr>"

definition remove_device ::
    "(device_id \<Rightarrow> string) \<Rightarrow> 'p registry \<Rightarrow> device_id \<Rightarrow> ('p registry \<times> 'p tracked_device option) option" where
  "remove_device sid r i =
     (case fmlookup (reg_devices r) i of
        None \<Rightarrow> Some (r, None)
      | Some t \<Rightarrow>
          (let r = r\<lparr>reg_devices := fmdrop i (reg_devices r)\<rparr>;
               cleaned = (case fmlookup (id_to_fingerprint r) i of
                  Some fp \<Rightarrow> Some (r\<lparr>id_to_fingerprint := fmdrop i (id_to_fingerprint r),
                                      fingerprints := fmdrop fp (fingerprints r)\<rparr>)
                | None \<Rightarrow> map_option (\<lambda>fp. r\<lparr>fingerprints := fmdrop fp (fingerprints r)\<rparr>)
                            (mint BridgeNs ''registry'' (sid i)))
           in map_option (\<lambda>r. (bump_generation (forget_device r i), Some t)) cleaned))"

definition reg_set_state :: "'p registry \<Rightarrow> device_id \<Rightarrow> device_state \<Rightarrow> 'p registry \<times> bool" where
  "reg_set_state r i st =
     (case fmlookup (reg_devices r) i of
        None \<Rightarrow> (r, False)
      | Some t \<Rightarrow>
          if t_state t = st then (r, True)
          else (bump_generation (put_tracked r i (bump_device_revision (t\<lparr>t_state := st\<rparr>))), True))"

definition update_info :: "'p registry \<Rightarrow> device_id \<Rightarrow> 'p device_info \<Rightarrow> 'p registry \<times> 'p tracked_device option" where
  "update_info r i info =
     (case fmlookup (reg_devices r) i of
        None \<Rightarrow> (r, None)
      | Some t \<Rightarrow>
          (let info = info\<lparr>info_id := i\<rparr>;
               t = bump_device_revision
                     (t\<lparr>observed_name := info_name info,
                        t_info := apply_user_settings_to_info info (user_settings t)\<rparr>)
           in (bump_generation (put_tracked r i t), Some t)))"

definition refresh_discovered ::
    "'p registry \<Rightarrow> device_id \<Rightarrow> 'p discovered_device \<Rightarrow> 'p registry \<times> 'p tracked_device option" where
  "refresh_discovered r i d =
     (if info_id (dis_info d) \<noteq> i \<or> fmlookup (id_to_fingerprint r) i \<noteq> Some (dis_fingerprint d) then (r, None)
      else case fmlookup (reg_devices r) i of
             None \<Rightarrow> (r, None)
           | Some t \<Rightarrow>
               if output_backend_id (t_info t) \<noteq> output_backend_id (dis_info d) \<or>
                  info_driver_id (t_info t) \<noteq> info_driver_id (dis_info d)
               then (r, None)
               else
                 (let t = refreshed_device t (dis_info d) (dis_behavior d);
                      r = put_tracked r i t
                  in (bump_generation (r\<lparr>metadata_by_id := fmupd i (dis_metadata d) (metadata_by_id r)\<rparr>), Some t)))"

definition update_user_settings ::
    "'p registry \<Rightarrow> device_id \<Rightarrow> string option \<Rightarrow> bool option \<Rightarrow> f64 option \<Rightarrow> display_rotation option \<Rightarrow>
     'p registry \<times> 'p tracked_device option" where
  "update_user_settings r i name en br rot =
     (case fmlookup (reg_devices r) i of
        None \<Rightarrow> (r, None)
      | Some t \<Rightarrow>
          (let t = (case name of None \<Rightarrow> t
                    | Some n \<Rightarrow> t\<lparr>user_settings := (user_settings t)\<lparr>set_name := Some n\<rparr>,
                                  t_info := (t_info t)\<lparr>info_name := n\<rparr>\<rparr>);
               t = (case en of None \<Rightarrow> t | Some e \<Rightarrow> t\<lparr>user_settings := (user_settings t)\<lparr>enabled := e\<rparr>\<rparr>);
               t = (case br of None \<Rightarrow> t
                    | Some v \<Rightarrow> t\<lparr>user_settings := (user_settings t)\<lparr>brightness := clamp_unit v\<rparr>\<rparr>);
               t = (case rot of None \<Rightarrow> t
                    | Some d \<Rightarrow> t\<lparr>user_settings := (user_settings t)\<lparr>display_rotation := d\<rparr>\<rparr>);
               t = bump_device_revision t
           in (bump_generation (put_tracked r i t), Some t)))"

definition replace_user_settings ::
    "'p registry \<Rightarrow> device_id \<Rightarrow> device_user_settings \<Rightarrow> 'p registry \<times> 'p tracked_device option" where
  "replace_user_settings r i s =
     (case fmlookup (reg_devices r) i of
        None \<Rightarrow> (r, None)
      | Some t \<Rightarrow>
          (let updated = apply_user_settings_to_info (observed_info t) s
           in if settings_eq (user_settings t) s \<and> t_info t = updated then (r, Some t)
              else
                (let t = bump_device_revision (t\<lparr>user_settings := s, t_info := updated\<rparr>)
                 in (bump_generation (put_tracked r i t), Some t))))"

section \<open>Portable identity operations\<close>

text \<open>\<^verbatim>\<open>entry(key).or_insert(fingerprint)\<close> for every seeded pin: the pins already present win.\<close>

definition seed_portable_identity ::
    "'p registry \<Rightarrow> (portable_key, device_fingerprint) fmap \<Rightarrow> portable_key fset \<Rightarrow> 'p registry" where
  "seed_portable_identity r pins quarantined =
     r\<lparr>portable_key_pins := pins ++\<^sub>f portable_key_pins r,
       quarantined_keys := quarantined_keys r |\<union>| quarantined\<rparr>"

definition drain_portable_key_collisions :: "'p registry \<Rightarrow> 'p registry \<times> key_collision list" where
  "drain_portable_key_collisions r = (r\<lparr>collision_log := []\<rparr>, collision_log r)"

definition report_portable_key_collision ::
    "'p registry \<Rightarrow> device_id \<Rightarrow> device_fingerprint \<Rightarrow> identity_claim \<Rightarrow> identity_claim \<Rightarrow> 'p registry" where
  "report_portable_key_collision r i fp existing incoming =
     (let k = claim_key existing
      in if k |\<in>| quarantined_keys r then r
         else bump_generation
           (r\<lparr>collision_log := collision_log r @
                [\<lparr>col_key = k, existing_device = i, existing_fingerprint = fp, existing_claim = existing,
                  incoming_fingerprint = fp, incoming_claim = incoming\<rparr>],
              quarantined_keys := finsert k (quarantined_keys r),
              portable_key_pins := fmdrop k (portable_key_pins r)\<rparr>))"

definition evict_holder :: "'p registry \<Rightarrow> device_id \<Rightarrow> 'p registry" where
  "evict_holder r h =
     forget_device (r\<lparr>reg_devices := fmdrop h (reg_devices r),
       id_to_fingerprint := fmdrop h (id_to_fingerprint r)\<rparr>) h"

definition adopt_fingerprint :: "'p registry \<Rightarrow> device_id \<Rightarrow> device_fingerprint \<Rightarrow> portable_key \<Rightarrow> 'p registry" where
  "adopt_fingerprint r i fp k =
     (let r = reindex_fingerprint r i fp in r\<lparr>portable_key_pins := fmupd k fp (portable_key_pins r)\<rparr>)"

definition inherit_settings :: "'p tracked_device \<Rightarrow> device_user_settings option \<Rightarrow> 'p tracked_device" where
  "inherit_settings t inherited =
     bump_device_revision
       (case inherited of
          None \<Rightarrow> t
        | Some s \<Rightarrow> t\<lparr>user_settings := s, t_info := apply_user_settings_to_info (observed_info t) s\<rparr>)"

definition rebind_portable_identity ::
    "'p registry \<Rightarrow> device_id \<Rightarrow> device_fingerprint \<Rightarrow> 'p registry \<times> (rebind_error + 'p tracked_device)" where
  "rebind_portable_identity r i fp =
     (case fmlookup (reg_devices r) i of
        None \<Rightarrow> (r, Inl UnknownDevice)
      | Some t \<Rightarrow>
          (case fmlookup (claims_by_id r) i of
             None \<Rightarrow> (r, Inl Unclaimed)
           | Some claim \<Rightarrow>
               (let holder = (case fmlookup (fingerprints r) fp of
                                None \<Rightarrow> None | Some h \<Rightarrow> if h \<noteq> i then Some h else None);
                    held = Option.bind holder (fmlookup (reg_devices r))
                in if (case held of None \<Rightarrow> False | Some ht \<Rightarrow> is_renderable (t_state ht)) then (r, Inl TargetActive)
                   else
                     (let r = (case holder of None \<Rightarrow> r | Some h \<Rightarrow> evict_holder r h);
                          r = adopt_fingerprint r i fp (claim_key claim);
                          t = inherit_settings t (map_option user_settings held)
                      in (bump_generation (put_tracked r i t), Inr t)))))"

section \<open>Prepared output changes\<close>

record device_output =
  out_disabled :: bool
  out_brightness :: f64
  out_rotation :: display_rotation

datatype prepare_error = DeviceDisappeared | OutputChanged | UnobservedTarget

definition output_of :: "device_user_settings \<Rightarrow> device_output" where
  "output_of s = \<lparr>out_disabled = \<not> enabled s, out_brightness = brightness s, out_rotation = display_rotation s\<rparr>"

definition output_eq :: "device_output \<Rightarrow> device_output \<Rightarrow> bool" where
  "output_eq a b \<longleftrightarrow> out_disabled a = out_disabled b \<and> f32_eq (out_brightness a) (out_brightness b) \<and>
     out_rotation a = out_rotation b"

text \<open>The check of the expected outputs, in the order in which the map yields its entries.\<close>

fun check_expected :: "'p registry \<Rightarrow> (device_id \<times> device_output) list \<Rightarrow> prepare_error option" where
  "check_expected r [] = None"
| "check_expected r ((i, e) # es) =
     (case fmlookup (reg_devices r) i of
        None \<Rightarrow> Some DeviceDisappeared
      | Some t \<Rightarrow>
          if output_eq (output_of (user_settings t)) e then check_expected r es else Some OutputChanged)"

definition prepare_output_settings ::
    "'p registry \<Rightarrow> (device_id \<times> device_output) list \<Rightarrow> (device_id \<times> device_output) list \<Rightarrow>
     prepare_error + (device_id \<times> device_output) list" where
  "prepare_output_settings r expected desired =
     (case check_expected r expected of
        Some e \<Rightarrow> Inl e
      | None \<Rightarrow>
          if list_all (\<lambda>(i, _). i \<in> fst ` set expected) desired then Inr desired else Inl UnobservedTarget)"

fun publish_outputs ::
    "'p registry \<Rightarrow> (device_id \<times> device_output) list \<Rightarrow> bool \<Rightarrow> ('p registry \<times> bool) option" where
  "publish_outputs r [] changed = Some (r, changed)"
| "publish_outputs r ((i, d) # ds) changed =
     (case fmlookup (reg_devices r) i of
        None \<Rightarrow> None
      | Some t \<Rightarrow>
          if enabled (user_settings t) \<noteq> out_disabled d \<and> f32_eq (brightness (user_settings t)) (out_brightness d) \<and>
             display_rotation (user_settings t) = out_rotation d
          then publish_outputs r ds changed
          else publish_outputs
                 (put_tracked r i (bump_device_revision (t\<lparr>user_settings := (user_settings t)
                    \<lparr>enabled := \<not> out_disabled d, brightness := out_brightness d, display_rotation := out_rotation d\<rparr>\<rparr>)))
                 ds True)"

definition publish :: "'p registry \<Rightarrow> (device_id \<times> device_output) list \<Rightarrow> 'p registry option" where
  "publish r desired =
     map_option (\<lambda>(r, changed). if changed then bump_generation r else r) (publish_outputs r desired False)"

section \<open>Queries\<close>

definition find_by_fingerprint :: "'p registry \<Rightarrow> device_fingerprint \<Rightarrow> device_id option" where
  "find_by_fingerprint r fp = fmlookup (fingerprints r) fp"

definition fingerprint_for_id :: "'p registry \<Rightarrow> device_id \<Rightarrow> device_fingerprint option" where
  "fingerprint_for_id r i = fmlookup (id_to_fingerprint r) i"

definition metadata_for_id :: "'p registry \<Rightarrow> device_id \<Rightarrow> scan_metadata option" where
  "metadata_for_id r i = fmlookup (metadata_by_id r) i"

definition claim_for_id :: "'p registry \<Rightarrow> device_id \<Rightarrow> identity_claim option" where
  "claim_for_id r i = fmlookup (claims_by_id r) i"

definition get_device :: "'p registry \<Rightarrow> device_id \<Rightarrow> 'p tracked_device option" where
  "get_device r i = fmlookup (reg_devices r) i"

definition reg_len :: "'p registry \<Rightarrow> nat" where
  "reg_len r = fcard (fmdom (reg_devices r))"

definition brightness_snapshot :: "'p registry \<Rightarrow> (device_id, f64) fmap" where
  "brightness_snapshot r = fmmap (\<lambda>t. clamp_unit (brightness (user_settings t))) (reg_devices r)"

end
