(* ===== verification/Registry_Props.thy ===== *)
theory Registry_Props
  imports Registry
begin

text \<open>
  Properties of the device registry: the consistency of its indexes under every operation, what
  rediscovery, portable key pins and the quarantine do to the identity of a device, and which
  re-binds survive a restart.
\<close>

section \<open>The invariant\<close>

text \<open>The two indexes are inverse to each other and cover exactly the tracked devices.\<close>

definition index_ok :: "'p registry \<Rightarrow> bool" where
  "index_ok r \<longleftrightarrow>
     (\<forall>i. fmlookup (reg_devices r) i = None \<longleftrightarrow> fmlookup (id_to_fingerprint r) i = None) \<and>
     (\<forall>i fp. fmlookup (id_to_fingerprint r) i = Some fp \<longleftrightarrow> fmlookup (fingerprints r) fp = Some i)"

definition side_ok :: "'p registry \<Rightarrow> bool" where
  "side_ok r \<longleftrightarrow> (\<forall>i. fmlookup (reg_devices r) i = None \<longrightarrow>
     fmlookup (metadata_by_id r) i = None \<and> fmlookup (claims_by_id r) i = None)"

definition shown_name :: "'p tracked_device \<Rightarrow> string" where
  "shown_name t = (case set_name (user_settings t) of Some n \<Rightarrow> n | None \<Rightarrow> observed_name t)"

definition tracked_ok :: "device_id \<Rightarrow> 'p tracked_device \<Rightarrow> bool" where
  "tracked_ok i t \<longleftrightarrow> info_id (t_info t) = i \<and> info_name (t_info t) = shown_name t"

definition log_ok :: "'p registry \<Rightarrow> bool" where
  "log_ok r \<longleftrightarrow> (\<forall>c \<in> set (collision_log r). col_key c |\<in>| quarantined_keys r)"

definition reg_inv :: "'p registry \<Rightarrow> bool" where
  "reg_inv r \<longleftrightarrow> index_ok r \<and> side_ok r \<and> log_ok r \<and> (\<forall>i t. fmlookup (reg_devices r) i = Some t \<longrightarrow> tracked_ok i t)"

lemma reg_inv_new: "reg_inv new_registry"
  by (simp add: reg_inv_def new_registry_def index_ok_def side_ok_def log_ok_def)

text \<open>Fields the invariant does not read, and the effect of each helper on the others.\<close>

lemma bump_generation_fields [simp]:
  "reg_devices (bump_generation r) = reg_devices r" "fingerprints (bump_generation r) = fingerprints r"
  "id_to_fingerprint (bump_generation r) = id_to_fingerprint r" "metadata_by_id (bump_generation r) = metadata_by_id r"
  "claims_by_id (bump_generation r) = claims_by_id r" "portable_key_pins (bump_generation r) = portable_key_pins r"
  "quarantined_keys (bump_generation r) = quarantined_keys r" "collision_log (bump_generation r) = collision_log r"
  by (simp_all add: bump_generation_def)

lemma reg_inv_bump [simp]: "reg_inv (bump_generation r) = reg_inv r"
  by (simp add: reg_inv_def index_ok_def side_ok_def log_ok_def)

lemma put_tracked_fields [simp]:
  "reg_devices (put_tracked r i t) = fmupd i t (reg_devices r)" "fingerprints (put_tracked r i t) = fingerprints r"
  "id_to_fingerprint (put_tracked r i t) = id_to_fingerprint r" "metadata_by_id (put_tracked r i t) = metadata_by_id r"
  "claims_by_id (put_tracked r i t) = claims_by_id r" "portable_key_pins (put_tracked r i t) = portable_key_pins r"
  "quarantined_keys (put_tracked r i t) = quarantined_keys r" "collision_log (put_tracked r i t) = collision_log r"
  by (simp_all add: put_tracked_def)

lemma put_metadata_fields [simp]:
  "reg_devices (put_metadata r i md) = reg_devices r" "fingerprints (put_metadata r i md) = fingerprints r"
  "id_to_fingerprint (put_metadata r i md) = id_to_fingerprint r"
  "claims_by_id (put_metadata r i md) = claims_by_id r" "portable_key_pins (put_metadata r i md) = portable_key_pins r"
  "quarantined_keys (put_metadata r i md) = quarantined_keys r" "collision_log (put_metadata r i md) = collision_log r"
  by (simp_all add: put_metadata_def)

lemma put_metadata_tracked: "put_tracked (put_metadata r i md) j t = put_metadata (put_tracked r j t) i md"
  by (cases r) (simp add: put_tracked_def put_metadata_def)

lemma metadata_put_metadata: "j \<noteq> i \<Longrightarrow> fmlookup (metadata_by_id (put_metadata r i md)) j = fmlookup (metadata_by_id r) j"
  by (simp add: put_metadata_def)

lemma store_claim_fields [simp]:
  "reg_devices (store_portable_claim r i c) = reg_devices r" "fingerprints (store_portable_claim r i c) = fingerprints r"
  "id_to_fingerprint (store_portable_claim r i c) = id_to_fingerprint r"
  "metadata_by_id (store_portable_claim r i c) = metadata_by_id r"
  "quarantined_keys (store_portable_claim r i c) = quarantined_keys r"
  "collision_log (store_portable_claim r i c) = collision_log r"
  "claims_by_id (store_portable_claim r i c) = (case c of None \<Rightarrow> claims_by_id r | Some k \<Rightarrow> fmupd i k (claims_by_id r))"
  by (auto simp: store_portable_claim_def Let_def split: option.splits)

lemma resolve_fields [simp]:
  "reg_devices (fst (resolve_portable_fingerprint r fp c)) = reg_devices r"
  "fingerprints (fst (resolve_portable_fingerprint r fp c)) = fingerprints r"
  "id_to_fingerprint (fst (resolve_portable_fingerprint r fp c)) = id_to_fingerprint r"
  "metadata_by_id (fst (resolve_portable_fingerprint r fp c)) = metadata_by_id r"
  "claims_by_id (fst (resolve_portable_fingerprint r fp c)) = claims_by_id r"
  by (auto simp: resolve_portable_fingerprint_def split: option.splits)

lemma reg_inv_resolve: "reg_inv r \<Longrightarrow> reg_inv (fst (resolve_portable_fingerprint r fp c))"
  unfolding reg_inv_def index_ok_def side_ok_def resolve_fields
  by (auto simp: log_ok_def resolve_portable_fingerprint_def split: option.splits)

text \<open>Writing a well-formed entry over a tracked device, and adding side data for it.\<close>

lemma reg_inv_put_tracked:
  "reg_inv r \<Longrightarrow> fmlookup (reg_devices r) i \<noteq> None \<Longrightarrow> tracked_ok i t \<Longrightarrow> reg_inv (put_tracked r i t)"
  by (auto simp: reg_inv_def index_ok_def side_ok_def log_ok_def)

lemma reg_inv_put_metadata: "reg_inv r \<Longrightarrow> fmlookup (reg_devices r) i \<noteq> None \<Longrightarrow> reg_inv (put_metadata r i md)"
  by (auto simp: reg_inv_def index_ok_def side_ok_def log_ok_def put_metadata_def)

lemma reg_inv_store_claim: "reg_inv r \<Longrightarrow> fmlookup (reg_devices r) i \<noteq> None \<Longrightarrow> reg_inv (store_portable_claim r i c)"
  by (auto simp: reg_inv_def index_ok_def side_ok_def log_ok_def split: option.splits)

lemma shape_fields [simp]:
  "info_id (preserve_resolved_device_shape a b) = info_id a" "info_name (preserve_resolved_device_shape a b) = info_name a"
  by (simp_all add: preserve_resolved_device_shape_def)

lemma rediscovered_fields [simp]:
  "info_id (rediscovered_info t i info) = i" "info_name (rediscovered_info t i info) = info_name info"
  by (simp_all add: rediscovered_info_def)

lemma apply_settings_fields [simp]:
  "info_id (apply_user_settings_to_info info s) = info_id info"
  "info_name (apply_user_settings_to_info info s) = (case set_name s of Some n \<Rightarrow> n | None \<Rightarrow> info_name info)"
  by (simp_all add: apply_user_settings_to_info_def split: option.split)

lemma bump_device_fields [simp]:
  "t_info (bump_device_revision t) = t_info t" "observed_name (bump_device_revision t) = observed_name t"
  "t_state (bump_device_revision t) = t_state t" "t_behavior (bump_device_revision t) = t_behavior t"
  "user_settings (bump_device_revision t) = user_settings t"
  by (simp_all add: bump_device_revision_def)

lemma tracked_ok_bump [simp]: "tracked_ok i (bump_device_revision t) = tracked_ok i t"
  by (simp add: tracked_ok_def shown_name_def split: option.split)

lemma tracked_ok_refreshed: "info_id info = i \<Longrightarrow> tracked_ok i (refreshed_device t info b)"
  by (simp add: refreshed_device_def) (simp add: tracked_ok_def shown_name_def split: option.split)

lemma reg_inv_indexed:
  "reg_inv r \<Longrightarrow> fmlookup (fingerprints r) q = Some j \<Longrightarrow> \<exists>t. fmlookup (reg_devices r) j = Some t"
  unfolding reg_inv_def index_ok_def by (metis option.exhaust option.distinct(1))

lemma reg_inv_reindex:
  assumes "reg_inv r" "fmlookup (reg_devices r) i \<noteq> None"
    and "fmlookup (fingerprints r) fp = None \<or> fmlookup (fingerprints r) fp = Some i"
  shows "reg_inv (reindex_fingerprint r i fp)"
proof -
  obtain p where p: "fmlookup (id_to_fingerprint r) i = Some p" "fmlookup (fingerprints r) p = Some i"
    using assms(1,2) by (auto simp: reg_inv_def index_ok_def)
  have un: "fmlookup (fingerprints r) q = Some j \<longleftrightarrow> fmlookup (id_to_fingerprint r) j = Some q" for q j
    using assms(1) by (simp add: reg_inv_def index_ok_def)
  have fpi: "fmlookup (id_to_fingerprint r) j = Some fp \<Longrightarrow> j = i" for j
    using un [of fp j] assms(3) by auto
  have pi: "fmlookup (id_to_fingerprint r) j = Some p \<Longrightarrow> j = i" for j
    using un [of p j] p(2) by auto
  show ?thesis
    using assms(1,2) p unfolding reg_inv_def index_ok_def side_ok_def log_ok_def
    by (auto simp: reindex_fingerprint_def Let_def un dest: fpi pi)
qed

lemma reg_inv_insert_new:
  assumes "reg_inv r" "fmlookup (reg_devices r) i = None" "fmlookup (fingerprints r) fp = None"
  shows "reg_inv (insert_new r i info fp md b c)"
proof -
  have un: "fmlookup (fingerprints r) q = Some j \<longleftrightarrow> fmlookup (id_to_fingerprint r) j = Some q" for q j
    using assms(1) by (simp add: reg_inv_def index_ok_def)
  define t where "t = \<lparr>t_info = info\<lparr>info_id := i\<rparr>, observed_name = info_name info, t_state = Known, t_behavior = b,
               user_settings = default_user_settings, revision = 0\<rparr>"
  define r1 where "r1 = put_tracked (r\<lparr>fingerprints := fmupd fp i (fingerprints r),
    id_to_fingerprint := fmupd i fp (id_to_fingerprint r)\<rparr>) i t"
  have "tracked_ok i t" by (simp add: t_def tracked_ok_def shown_name_def default_user_settings_def)
  moreover have "fmlookup (id_to_fingerprint r) j \<noteq> Some fp" for j using un [of fp j] assms(3) by auto
  moreover have "fmlookup (id_to_fingerprint r) i = None" using assms(1,2) by (simp add: reg_inv_def index_ok_def)
  moreover have dn: "fmlookup (reg_devices r) j = None \<longleftrightarrow> fmlookup (id_to_fingerprint r) j = None" for j
    using assms(1) by (simp add: reg_inv_def index_ok_def)
  ultimately have "index_ok r1" unfolding index_ok_def by (auto simp: r1_def un dn)
  then have r1: "reg_inv r1"
    using assms(1) \<open>tracked_ok i t\<close> unfolding reg_inv_def side_ok_def log_ok_def by (auto simp: r1_def)
  have "insert_new r i info fp md b c = bump_generation (store_portable_claim (put_metadata r1 i md) i c)"
    by (simp add: insert_new_def Let_def t_def [symmetric] r1_def put_metadata_tracked)
  then show ?thesis using r1 by (simp add: reg_inv_store_claim reg_inv_put_metadata r1_def)
qed

lemma reg_inv_update_existing:
  assumes "reg_inv r" "fmlookup (reg_devices r) i = Some t" "fmlookup (fingerprints r) fp = Some i"
  shows "reg_inv (update_existing r i t info fp md b c)"
proof -
  have id: "fmlookup (id_to_fingerprint r) i = Some fp" using assms by (simp add: reg_inv_def index_ok_def)
  then have upd: "fmupd i fp (id_to_fingerprint r) = id_to_fingerprint r" by (intro fmap_ext) auto
  define r1 where "r1 = put_tracked r i (refreshed_device t (rediscovered_info t i info) b)"
  have "reg_inv r1" unfolding r1_def
    using assms by (intro reg_inv_put_tracked tracked_ok_refreshed) simp_all
  moreover have "r1\<lparr>id_to_fingerprint := fmupd i fp (id_to_fingerprint r1)\<rparr> = r1"
    by (simp add: r1_def upd put_tracked_def)
  ultimately show ?thesis
    using assms(1) unfolding update_existing_def Let_def r1_def [symmetric]
    by (simp add: reg_inv_store_claim reg_inv_put_metadata r1_def)
qed

lemma fcard_1_mem: "fcard A = 1 \<Longrightarrow> fthe_elem A |\<in>| A"
proof -
  assume "fcard A = 1"
  then obtain x where "fset A = {x}" by (auto simp: fcard.rep_eq card_1_singleton_iff)
  then show ?thesis by (simp add: fthe_elem.rep_eq)
qed

lemma dram_match_tracked:
  "find_single_renderable_smbus_dram_match r info md = Some i \<Longrightarrow> fmlookup (reg_devices r) i \<noteq> None"
proof -
  assume "find_single_renderable_smbus_dram_match r info md = Some i"
  then obtain target where "fcard (dram_candidates r target) = 1" "i = fthe_elem (dram_candidates r target)"
    by (auto simp: find_single_renderable_smbus_dram_match_def Let_def split: option.splits if_splits)
  then have "i |\<in>| dram_candidates r target" using fcard_1_mem by blast
  then show ?thesis by (auto simp: dram_candidates_def split: option.splits)
qed

declare allocate_id.simps [simp del]

lemma allocate_id_free: "allocate_id ds i ids = Some j \<Longrightarrow> fmlookup ds j = None"
  by (induction ds i ids rule: allocate_id.induct) (auto simp: allocate_id.simps split: if_splits list.splits)

lemma reg_inv_add_unmatched:
  assumes "reg_inv r" "fmlookup (fingerprints r) fp = None" "add_unmatched ids r info fp md b c = Some (r', i)"
  shows "reg_inv r'"
proof (cases "find_single_renderable_smbus_dram_match r info md")
  case None
  then show ?thesis
    using assms by (auto simp: add_unmatched_def Let_def dest: allocate_id_free intro: reg_inv_insert_new)
next
  case (Some j)
  have j: "fmlookup (reg_devices r) j \<noteq> None" by (rule dram_match_tracked [OF Some])
  then obtain t where t: "fmlookup (reg_devices r) j = Some t" by auto
  let ?r = "reindex_fingerprint r j fp"
  have "reg_inv ?r" using assms(1,2) j by (simp add: reg_inv_reindex)
  moreover have "reg_devices ?r = reg_devices r" by (simp add: reindex_fingerprint_def Let_def split: option.split)
  ultimately show ?thesis
    using assms(3) Some t
    by (auto simp: add_unmatched_def Let_def intro!: reg_inv_store_claim reg_inv_put_metadata reg_inv_put_tracked
        tracked_ok_refreshed)
qed

lemma reg_inv_add_entry:
  assumes "reg_inv r" "add_entry ids r info fp md b c = Some (r', i)"
  shows "reg_inv r'"
proof -
  define s q where "s = fst (resolve_portable_fingerprint r fp c)" and "q = snd (resolve_portable_fingerprint r fp c)"
  have s: "resolve_portable_fingerprint r fp c = (s, q)" by (simp add: s_def q_def)
  have inv: "reg_inv s" unfolding s_def using assms(1) by (rule reg_inv_resolve)
  show ?thesis
  proof (cases "fmlookup (fingerprints s) q")
    case None
    then show ?thesis using assms(2) inv reg_inv_add_unmatched by (auto simp: add_entry_def s)
  next
    case (Some j)
    then obtain t where "fmlookup (reg_devices s) j = Some t"
      using reg_inv_indexed [OF inv] by blast
    then show ?thesis using assms(2) inv Some reg_inv_update_existing by (auto simp: add_entry_def s)
  qed
qed

section \<open>Runs\<close>

datatype 'p reg_event =
    RegDiscovered "'p discovered_device" "device_id list"
  | RegAdd "'p device_info" "device_id list"
  | RegRemove device_id
  | RegSetState device_id device_state
  | RegUpdateInfo device_id "'p device_info"
  | RegRefresh device_id "'p discovered_device"
  | RegUpdateSettings device_id "string option" "bool option" "f64 option" "display_rotation option"
  | RegReplaceSettings device_id device_user_settings
  | RegSeed "(portable_key, device_fingerprint) fmap" "portable_key fset"
  | RegDrain
  | RegReport device_id device_fingerprint identity_claim identity_claim
  | RegRebind device_id device_fingerprint
  | RegPublish "(device_id \<times> device_output) list" "(device_id \<times> device_output) list"

fun reg_exec :: "(device_id \<Rightarrow> string) \<Rightarrow> 'p registry \<Rightarrow> 'p reg_event \<Rightarrow> 'p registry option" where
  "reg_exec sid r (RegDiscovered d ids) = map_option fst (add_discovered ids r d)"
| "reg_exec sid r (RegAdd info ids) = map_option fst (add_device sid ids r info)"
| "reg_exec sid r (RegRemove i) = map_option fst (remove_device sid r i)"
| "reg_exec sid r (RegSetState i st) = Some (fst (reg_set_state r i st))"
| "reg_exec sid r (RegUpdateInfo i info) = Some (fst (update_info r i info))"
| "reg_exec sid r (RegRefresh i d) = Some (fst (refresh_discovered r i d))"
| "reg_exec sid r (RegUpdateSettings i n e b d) = Some (fst (update_user_settings r i n e b d))"
| "reg_exec sid r (RegReplaceSettings i s) = Some (fst (replace_user_settings r i s))"
| "reg_exec sid r (RegSeed pins q) = Some (seed_portable_identity r pins q)"
| "reg_exec sid r RegDrain = Some (fst (drain_portable_key_collisions r))"
| "reg_exec sid r (RegReport i fp a b) = Some (report_portable_key_collision r i fp a b)"
| "reg_exec sid r (RegRebind i fp) = Some (fst (rebind_portable_identity r i fp))"
| "reg_exec sid r (RegPublish expected desired) =
     (case prepare_output_settings r expected desired of Inl _ \<Rightarrow> Some r | Inr ds \<Rightarrow> publish r ds)"

lemma reg_inv_forget:
  assumes "reg_inv r" "fmlookup (reg_devices r) i \<noteq> None"
  shows "reg_inv (evict_holder r i)"
proof -
  have un: "fmlookup (fingerprints r) q = Some j \<longleftrightarrow> fmlookup (id_to_fingerprint r) j = Some q"
    and dn: "fmlookup (reg_devices r) j = None \<longleftrightarrow> fmlookup (id_to_fingerprint r) j = None" for q j
    using assms(1) by (simp_all add: reg_inv_def index_ok_def)
  have "index_ok (evict_holder r i)"
    unfolding index_ok_def evict_holder_def forget_device_def by (auto simp: un [symmetric] dn split: option.splits)
  then show ?thesis
    using assms(1) unfolding reg_inv_def side_ok_def log_ok_def by (auto simp: evict_holder_def forget_device_def)
qed

lemma remove_device_evicts:
  assumes "reg_inv r"
  shows "remove_device sid r i =
    Some (case fmlookup (reg_devices r) i of None \<Rightarrow> (r, None)
          | Some t \<Rightarrow> (bump_generation (evict_holder r i), Some t))"
proof (cases "fmlookup (reg_devices r) i")
  case (Some t)
  then obtain fp where fp: "fmlookup (id_to_fingerprint r) i = Some fp" "fmlookup (fingerprints r) fp = Some i"
    using assms unfolding reg_inv_def index_ok_def by (metis option.exhaust option.distinct(1))
  have "fmretain (\<lambda>m. m \<noteq> i) (fmdrop fp (fingerprints r)) = fmretain (\<lambda>m. m \<noteq> i) (fingerprints r)"
    using fp by (intro fmap_ext) (auto split: option.splits)
  then have "forget_device (r\<lparr>reg_devices := fmdrop i (reg_devices r), id_to_fingerprint := fmdrop i (id_to_fingerprint r),
      fingerprints := fmdrop fp (fingerprints r)\<rparr>) i = evict_holder r i"
    by (cases r) (simp add: evict_holder_def forget_device_def)
  then show ?thesis using Some fp by (simp add: remove_device_def Let_def)
qed (simp add: remove_device_def)

lemma tracked_ok_settings:
  "tracked_ok i t \<Longrightarrow> tracked_ok i (t\<lparr>user_settings := s, t_info := apply_user_settings_to_info (observed_info t) s\<rparr>)"
  by (simp add: tracked_ok_def shown_name_def observed_info_def split: option.split)

lemma tracked_ok_inherit: "tracked_ok i t \<Longrightarrow> tracked_ok i (inherit_settings t s)"
  by (simp add: inherit_settings_def tracked_ok_settings split: option.split)

lemma reg_inv_pins [simp]: "reg_inv (r\<lparr>portable_key_pins := p\<rparr>) = reg_inv r"
  by (simp add: reg_inv_def index_ok_def side_ok_def log_ok_def)

lemma evict_fields [simp]:
  "reg_devices (evict_holder r h) = fmdrop h (reg_devices r)"
  "fmlookup (fingerprints (evict_holder r h)) q =
     (case fmlookup (fingerprints r) q of None \<Rightarrow> None | Some j \<Rightarrow> if j \<noteq> h then Some j else None)"
  "claims_by_id (evict_holder r h) = fmdrop h (claims_by_id r)"
  "id_to_fingerprint (evict_holder r h) = fmdrop h (id_to_fingerprint r)"
  "portable_key_pins (evict_holder r h) = portable_key_pins r" "quarantined_keys (evict_holder r h) = quarantined_keys r"
  by (simp_all add: evict_holder_def forget_device_def)

lemma reindex_fields [simp]:
  "reg_devices (reindex_fingerprint r i fp) = reg_devices r"
  "id_to_fingerprint (reindex_fingerprint r i fp) = fmupd i fp (id_to_fingerprint r)"
  "fmlookup (fingerprints (reindex_fingerprint r i fp)) fp = Some i"
  "claims_by_id (reindex_fingerprint r i fp) = claims_by_id r"
  "portable_key_pins (reindex_fingerprint r i fp) = portable_key_pins r"
  "quarantined_keys (reindex_fingerprint r i fp) = quarantined_keys r"
  by (simp_all add: reindex_fingerprint_def Let_def split: option.split)

lemma adopt_fields [simp]:
  "reg_devices (adopt_fingerprint r i fp k) = reg_devices r"
  "id_to_fingerprint (adopt_fingerprint r i fp k) = fmupd i fp (id_to_fingerprint r)"
  "fmlookup (fingerprints (adopt_fingerprint r i fp k)) fp = Some i"
  "claims_by_id (adopt_fingerprint r i fp k) = claims_by_id r"
  "portable_key_pins (adopt_fingerprint r i fp k) = fmupd k fp (portable_key_pins r)"
  "quarantined_keys (adopt_fingerprint r i fp k) = quarantined_keys r"
  by (simp_all add: adopt_fingerprint_def Let_def)

text \<open>A re-bind that succeeds: the predecessor, if any, is gone, and the device carries its
  fingerprint and settings.\<close>

definition predecessor :: "'p registry \<Rightarrow> device_id \<Rightarrow> device_fingerprint \<Rightarrow> device_id option" where
  "predecessor r i fp = (case fmlookup (fingerprints r) fp of None \<Rightarrow> None | Some h \<Rightarrow> if h \<noteq> i then Some h else None)"

definition cleared :: "'p registry \<Rightarrow> device_id option \<Rightarrow> 'p registry" where
  "cleared r h = (case h of None \<Rightarrow> r | Some h \<Rightarrow> evict_holder r h)"

lemma rebind_result:
  assumes "reg_inv r" "fmlookup (reg_devices r) i = Some t" "fmlookup (claims_by_id r) i = Some c"
  shows "rebind_portable_identity r i fp =
    (let h = predecessor r i fp; held = Option.bind h (fmlookup (reg_devices r))
     in if (case held of None \<Rightarrow> False | Some ht \<Rightarrow> is_renderable (t_state ht)) then (r, Inl TargetActive)
        else (let t' = inherit_settings t (map_option user_settings held)
              in (bump_generation (put_tracked (adopt_fingerprint (cleared r h) i fp (claim_key c)) i t'), Inr t')))"
  using assms(2,3) by (simp add: rebind_portable_identity_def predecessor_def cleared_def Let_def)

lemma reg_inv_cleared:
  assumes "reg_inv r" "fmlookup (reg_devices r) i = Some t"
  shows "reg_inv (cleared r (predecessor r i fp))" "fmlookup (reg_devices (cleared r (predecessor r i fp))) i = Some t"
    "fmlookup (fingerprints (cleared r (predecessor r i fp))) fp = None \<or>
     fmlookup (fingerprints (cleared r (predecessor r i fp))) fp = Some i"
  using assms reg_inv_indexed [OF assms(1), of fp]
  by (auto simp: cleared_def predecessor_def reg_inv_forget split: option.splits if_splits)

lemma reg_inv_rebind: 
  assumes "reg_inv r" shows "reg_inv (fst (rebind_portable_identity r i fp))"
proof (cases "fmlookup (reg_devices r) i")
  case (Some t)
  then have ok: "tracked_ok i t" using assms by (simp add: reg_inv_def)
  show ?thesis
  proof (cases "fmlookup (claims_by_id r) i")
    case c: (Some c)
    note cl = reg_inv_cleared [OF assms Some, of fp]
    have "reg_inv (adopt_fingerprint (cleared r (predecessor r i fp)) i fp (claim_key c))"
      unfolding adopt_fingerprint_def Let_def using cl by (simp add: reg_inv_reindex)
    then show ?thesis
      using assms tracked_ok_inherit [OF ok] cl(2)
      by (simp add: rebind_result [OF assms Some c] Let_def reg_inv_put_tracked)
  qed (use Some assms in \<open>simp add: rebind_portable_identity_def\<close>)
qed (use assms in \<open>simp add: rebind_portable_identity_def\<close>)

lemma reg_inv_publish_outputs: "publish_outputs r ds b = Some (r', b') \<Longrightarrow> reg_inv r \<Longrightarrow> reg_inv r'"
proof (induction r ds b rule: publish_outputs.induct)
  case (2 r i d ds changed)
  then obtain t where t: "fmlookup (reg_devices r) i = Some t" by (auto split: option.splits)
  then have "tracked_ok i t" using "2.prems"(2) by (simp add: reg_inv_def)
  then have "tracked_ok i (t\<lparr>user_settings := (user_settings t)
      \<lparr>enabled := \<not> out_disabled d, brightness := out_brightness d, display_rotation := out_rotation d\<rparr>\<rparr>)"
    by (simp add: tracked_ok_def shown_name_def split: option.split)
  then show ?case using 2 t by (auto simp: reg_inv_put_tracked split: if_splits)
qed simp

lemma reg_inv_add_device: "reg_inv r \<Longrightarrow> add_device sid ids r info = Some (r', i) \<Longrightarrow> reg_inv r'"
  by (auto simp: add_device_def add_with_fingerprint_def add_with_fingerprint_and_metadata_def bind_eq_Some_conv
      intro: reg_inv_add_entry)

lemma reg_inv_remove: "reg_inv r \<Longrightarrow> remove_device sid r i = Some (r', x) \<Longrightarrow> reg_inv r'"
  using reg_inv_forget [of r i] by (auto simp: remove_device_evicts split: option.splits)

lemma reg_inv_set_state: "reg_inv r \<Longrightarrow> reg_inv (fst (reg_set_state r i st))"
proof (cases "fmlookup (reg_devices r) i")
  case (Some t)
  assume r: "reg_inv r"
  then have "tracked_ok i (t\<lparr>t_state := st\<rparr>)"
    using Some by (auto simp: reg_inv_def tracked_ok_def shown_name_def split: option.split)
  then show ?thesis using r Some by (simp add: reg_set_state_def reg_inv_put_tracked)
qed (simp add: reg_set_state_def)

lemma reg_inv_update_info: "reg_inv r \<Longrightarrow> reg_inv (fst (update_info r i info))"
proof (cases "fmlookup (reg_devices r) i")
  case (Some t)
  assume r: "reg_inv r"
  have "tracked_ok i (t\<lparr>observed_name := info_name info,
      t_info := apply_user_settings_to_info (info\<lparr>info_id := i\<rparr>) (user_settings t)\<rparr>)"
    by (simp add: tracked_ok_def shown_name_def split: option.split)
  then show ?thesis using r Some by (simp add: update_info_def Let_def reg_inv_put_tracked)
qed (simp add: update_info_def)

lemma reg_inv_metadata: "reg_inv r \<Longrightarrow> fmlookup (reg_devices r) i \<noteq> None \<Longrightarrow>
    reg_inv (r\<lparr>metadata_by_id := fmupd i md (metadata_by_id r)\<rparr>)"
  by (auto simp: reg_inv_def index_ok_def side_ok_def log_ok_def)

lemma reg_inv_refresh: "reg_inv r \<Longrightarrow> reg_inv (fst (refresh_discovered r i d))"
proof (cases "fmlookup (reg_devices r) i")
  case (Some t)
  assume r: "reg_inv r"
  show ?thesis
  proof (cases "info_id (dis_info d) = i")
    case True
    then have "reg_inv (put_tracked r i (refreshed_device t (dis_info d) (dis_behavior d)))"
      using r Some by (simp add: reg_inv_put_tracked tracked_ok_refreshed)
    from reg_inv_metadata [OF this, of i] show ?thesis using r Some by (simp add: refresh_discovered_def Let_def)
  qed (use r in \<open>simp add: refresh_discovered_def\<close>)
qed (simp add: refresh_discovered_def)

lemma reg_inv_update_settings: "reg_inv r \<Longrightarrow> reg_inv (fst (update_user_settings r i n en b d))"
proof (cases "fmlookup (reg_devices r) i")
  case (Some t)
  assume r: "reg_inv r"
  then have t: "tracked_ok i t" using Some by (simp add: reg_inv_def)
  then show ?thesis
    using r Some unfolding update_user_settings_def Let_def
    by (auto simp: tracked_ok_def shown_name_def intro!: reg_inv_put_tracked split: option.splits)
qed (simp add: update_user_settings_def)

lemma reg_inv_replace_settings: "reg_inv r \<Longrightarrow> reg_inv (fst (replace_user_settings r i s))"
proof (cases "fmlookup (reg_devices r) i")
  case (Some t)
  assume r: "reg_inv r"
  then have "tracked_ok i t" using Some by (simp add: reg_inv_def)
  then show ?thesis
    using r Some by (simp add: replace_user_settings_def Let_def reg_inv_put_tracked tracked_ok_settings)
qed (simp add: replace_user_settings_def)

lemma reg_inv_identity_ops:
  assumes "reg_inv r"
  shows "reg_inv (seed_portable_identity r pins q)" "reg_inv (fst (drain_portable_key_collisions r))"
    "reg_inv (report_portable_key_collision r i fp a b)"
  using assms unfolding reg_inv_def index_ok_def side_ok_def log_ok_def
  by (auto simp: seed_portable_identity_def drain_portable_key_collisions_def report_portable_key_collision_def Let_def)

lemmas reg_inv_operations = reg_inv_set_state reg_inv_update_info reg_inv_refresh reg_inv_update_settings
  reg_inv_replace_settings reg_inv_identity_ops reg_inv_rebind

lemma reg_inv_exec: "reg_inv r \<Longrightarrow> reg_exec sid r e = Some r' \<Longrightarrow> reg_inv r'"
  by (cases e)
    (auto simp: add_discovered_def publish_def reg_inv_operations split: sum.splits
      intro: reg_inv_add_entry reg_inv_add_device reg_inv_remove reg_inv_publish_outputs)

interpretation reg: fallible_machine "reg_exec sid" reg_inv for sid
  by unfold_locales (rule reg_inv_exec)

text \<open>C14: The registry stays consistent: after any sequence of registry operations that return,
  the fingerprint index and its reverse are inverse to each other and cover exactly the tracked
  devices; metadata and identity claims are kept for tracked devices only; every entry carries the
  id it is filed under and shows the user's name for the device, or the observed one when the user
  gave none; and every collision waiting to be persisted has its key quarantined.\<close>

theorem registry_stays_consistent:
  assumes "run (reg_exec sid) new_registry es = Some r"
  shows "index_ok r \<and> side_ok r \<and> log_ok r \<and>
    (\<forall>i t. get_device r i = Some t \<longrightarrow> info_id (t_info t) = i \<and> info_name (t_info t) = shown_name t)"
  using reg.run_Some_inv [OF reg_inv_new assms] by (simp add: reg_inv_def tracked_ok_def get_device_def)

section \<open>Discovery\<close>

text \<open>An entry that already says what a discovery of \<open>info\<close> says.\<close>

definition settled :: "'p tracked_device \<Rightarrow> device_id \<Rightarrow> 'p device_info \<Rightarrow> connect_behavior \<Rightarrow> bool" where
  "settled t i info b \<longleftrightarrow>
     t_info t = apply_user_settings_to_info (rediscovered_info t i info) (user_settings t) \<and>
     observed_name t = info_name info \<and> t_behavior t = b"

lemma shape_apply [simp]: "has_shape (apply_user_settings_to_info info s) = has_shape info"
  by (simp add: apply_user_settings_to_info_def has_shape_def split: option.split)

lemma shape_parts_apply [simp]:
  "segments (apply_user_settings_to_info info s) = segments info"
  "capabilities (apply_user_settings_to_info info s) = capabilities info"
  by (simp_all add: apply_user_settings_to_info_def split: option.split)

lemma settled_refreshed: "settled (refreshed_device t (rediscovered_info t i info) b) i info b"
proof -
  let ?t = "refreshed_device t (rediscovered_info t i info) b"
  have "rediscovered_info ?t i info = rediscovered_info t i info"
    by (auto simp: rediscovered_info_def refreshed_device_def preserve_resolved_device_shape_def)
      (auto simp: has_shape_def)
  then show ?thesis by (simp add: settled_def refreshed_device_def)
qed

lemma settled_new:
  "settled \<lparr>t_info = info\<lparr>info_id := i\<rparr>, observed_name = info_name info, t_state = Known, t_behavior = b,
     user_settings = default_user_settings, revision = 0\<rparr> i info b"
  by (simp add: settled_def rediscovered_info_def preserve_resolved_device_shape_def apply_user_settings_to_info_def
      default_user_settings_def)

text \<open>What the registry holds about device \<open>i\<close> once a discovery has been recorded under \<open>fp\<close>.\<close>

definition recorded ::
    "'p registry \<Rightarrow> device_id \<Rightarrow> 'p device_info \<Rightarrow> device_fingerprint \<Rightarrow> scan_metadata \<Rightarrow> connect_behavior \<Rightarrow>
     identity_claim option \<Rightarrow> bool" where
  "recorded r i info fp md b c \<longleftrightarrow>
     fmlookup (fingerprints r) fp = Some i \<and> fmlookup (id_to_fingerprint r) i = Some fp \<and>
     (\<exists>t. fmlookup (reg_devices r) i = Some t \<and> settled t i info b) \<and>
     (md \<noteq> fmempty \<longrightarrow> fmlookup (metadata_by_id r) i = Some md) \<and>
     (\<forall>k. c = Some k \<longrightarrow> fmlookup (claims_by_id r) i = Some k)"

lemma recorded_unchanged:
  assumes "recorded r i info fp md b c"
  shows "\<exists>t. fmlookup (reg_devices r) i = Some t \<and> update_existing r i t info fp md b c = r"
  using assms by (auto simp: recorded_def settled_def update_existing_def Let_def split: option.split)

lemma store_claim_pin:
  "claim_key c |\<in>| quarantined_keys r \<or> fmlookup (portable_key_pins r) (claim_key c) \<noteq> None \<Longrightarrow>
   fmlookup (portable_key_pins (store_portable_claim r i (Some c))) (claim_key c) = fmlookup (portable_key_pins r) (claim_key c)"
  by (auto simp: store_portable_claim_def Let_def split: option.splits)

text \<open>The claimed key keeps its pin and its quarantine while the entry is written.\<close>

definition key_kept :: "'p registry \<Rightarrow> 'p registry \<Rightarrow> identity_claim option \<Rightarrow> bool" where
  "key_kept r r' c \<longleftrightarrow> quarantined_keys r' = quarantined_keys r \<and> collision_log r' = collision_log r \<and>
     (\<forall>k. c = Some k \<longrightarrow> claim_key k |\<in>| quarantined_keys r \<or> fmlookup (portable_key_pins r) (claim_key k) \<noteq> None \<longrightarrow>
        fmlookup (portable_key_pins r') (claim_key k) = fmlookup (portable_key_pins r) (claim_key k))"

lemma key_kept_store:
  assumes "portable_key_pins s = portable_key_pins r" "quarantined_keys s = quarantined_keys r" "collision_log s = collision_log r"
  shows "key_kept r (bump_generation (store_portable_claim s i c)) c"
  using assms store_claim_pin [where r = s] by (auto simp: key_kept_def)

lemma update_existing_recorded:
  assumes "reg_inv r" "fmlookup (reg_devices r) i = Some t" "fmlookup (fingerprints r) fp = Some i"
  shows "recorded (update_existing r i t info fp md b c) i info fp md b c \<and>
    key_kept r (update_existing r i t info fp md b c) c"
proof -
  have id: "fmlookup (id_to_fingerprint r) i = Some fp" using assms by (simp add: reg_inv_def index_ok_def)
  define r1 where "r1 = put_metadata ((put_tracked r i (refreshed_device t (rediscovered_info t i info) b))
    \<lparr>id_to_fingerprint := fmupd i fp (id_to_fingerprint r)\<rparr>) i md"
  have r1: "portable_key_pins r1 = portable_key_pins r" "quarantined_keys r1 = quarantined_keys r"
      "collision_log r1 = collision_log r"
    by (simp_all add: r1_def)
  have "recorded (bump_generation (store_portable_claim r1 i c)) i info fp md b c"
    using assms(3) settled_refreshed [of t i info b] by (auto simp: recorded_def r1_def put_metadata_def)
  moreover have "key_kept r (bump_generation (store_portable_claim r1 i c)) c" using r1 by (rule key_kept_store)
  moreover have "recorded r i info fp md b c \<and> key_kept r r c"
    if "update_existing r i t info fp md b c = r" 
      "\<not> (t_info t \<noteq> apply_user_settings_to_info (rediscovered_info t i info) (user_settings t) \<or>
        observed_name t \<noteq> info_name (rediscovered_info t i info) \<or> t_behavior t \<noteq> b)"
      "\<not> (md \<noteq> fmempty \<and> fmlookup (metadata_by_id r) i \<noteq> Some md)"
      "\<not> (case c of None \<Rightarrow> False | Some c \<Rightarrow> fmlookup (claims_by_id r) i \<noteq> Some c)"
    using that assms id by (auto simp: recorded_def key_kept_def settled_def split: option.splits)
  ultimately show ?thesis
    unfolding update_existing_def Let_def by (simp add: r1_def)
qed


lemma insert_new_recorded:
  "recorded (insert_new r i info fp md b c) i info fp md b c \<and> key_kept r (insert_new r i info fp md b c) c"
proof -
  define t where "t = \<lparr>t_info = info\<lparr>info_id := i\<rparr>, observed_name = info_name info, t_state = Known, t_behavior = b,
               user_settings = default_user_settings, revision = 0\<rparr>"
  define r1 where "r1 = put_tracked (put_metadata (r\<lparr>fingerprints := fmupd fp i (fingerprints r),
    id_to_fingerprint := fmupd i fp (id_to_fingerprint r)\<rparr>) i md) i t"
  have new: "insert_new r i info fp md b c = bump_generation (store_portable_claim r1 i c)"
    by (simp add: insert_new_def Let_def r1_def t_def)
  have "recorded (bump_generation (store_portable_claim r1 i c)) i info fp md b c"
    using settled_new [where i = i and info = info and b = b] by (auto simp: recorded_def r1_def t_def put_metadata_def)
  moreover have "key_kept r (bump_generation (store_portable_claim r1 i c)) c"
    by (rule key_kept_store) (simp_all add: r1_def)
  ultimately show ?thesis by (simp add: new)
qed

lemma add_unmatched_recorded:
  assumes "add_unmatched ids r info fp md b c = Some (r', i)"
  shows "recorded r' i info fp md b c \<and> key_kept r r' c"
proof (cases "find_single_renderable_smbus_dram_match r info md")
  case None
  then show ?thesis using assms by (auto simp: add_unmatched_def Let_def insert_new_recorded)
next
  case (Some j)
  then obtain t where t: "fmlookup (reg_devices r) j = Some t" using dram_match_tracked by blast
  define r1 where "r1 = put_metadata (put_tracked (reindex_fingerprint r j fp) j
    (refreshed_device t (rediscovered_info t j info) b)) j md"
  have r': "r' = bump_generation (store_portable_claim r1 j c)" "i = j"
    using assms Some t by (auto simp: add_unmatched_def Let_def r1_def)
  have "recorded r' i info fp md b c"
    unfolding r' using settled_refreshed [of t j info b] by (auto simp: recorded_def r1_def put_metadata_def)
  moreover have "key_kept r r' c" unfolding r'(1)
    by (rule key_kept_store) (simp_all add: r1_def reindex_fingerprint_def Let_def split: option.split)
  ultimately show ?thesis by blast
qed

lemma add_entry_recorded:
  assumes "reg_inv r" "add_entry ids r info fp md b c = Some (r', i)" "resolve_portable_fingerprint r fp c = (s, q)"
  shows "recorded r' i info q md b c" "key_kept s r' c"
    "fmlookup (fingerprints s) q = Some j \<Longrightarrow> i = j \<and> (\<exists>t. fmlookup (reg_devices s) j = Some t \<and> r' = update_existing s j t info q md b c)"
proof -
  have inv: "reg_inv s" using reg_inv_resolve [OF assms(1), of fp c] assms(3) by simp
  have "recorded r' i info q md b c \<and> key_kept s r' c \<and>
    (fmlookup (fingerprints s) q = Some j \<longrightarrow> i = j \<and> (\<exists>t. fmlookup (reg_devices s) j = Some t \<and> r' = update_existing s j t info q md b c))"
  proof (cases "fmlookup (fingerprints s) q")
    case None
    then show ?thesis using assms(2) by (auto simp: add_entry_def assms(3) dest: add_unmatched_recorded)
  next
    case (Some k)
    then obtain t where "fmlookup (reg_devices s) k = Some t" using reg_inv_indexed [OF inv] by blast
    then show ?thesis using assms(2) Some update_existing_recorded [OF inv _ Some] by (auto simp: add_entry_def assms(3))
  qed
  then show "recorded r' i info q md b c" "key_kept s r' c"
    "fmlookup (fingerprints s) q = Some j \<Longrightarrow> i = j \<and> (\<exists>t. fmlookup (reg_devices s) j = Some t \<and> r' = update_existing s j t info q md b c)"
    by blast+
qed

text \<open>The five outcomes of the resolution.\<close>

lemma resolve_cases:
  assumes "resolve_portable_fingerprint r fp (Some c) = (s, q)"
  obtains (quarantined) "claim_key c |\<in>| quarantined_keys r" "s = r" "q = fp"
    | (first) "claim_key c |\<notin>| quarantined_keys r" "fmlookup (portable_key_pins r) (claim_key c) = None"
        "s = r\<lparr>portable_key_pins := fmupd (claim_key c) fp (portable_key_pins r)\<rparr>" "q = fp"
    | (pinned) "claim_key c |\<notin>| quarantined_keys r" "fmlookup (portable_key_pins r) (claim_key c) = Some q" "s = r"
    | (collision) p h held where "claim_key c |\<notin>| quarantined_keys r"
        "fmlookup (portable_key_pins r) (claim_key c) = Some p" "p \<noteq> fp" "present_holder r p = Some (h, held)"
        "proves_distinct_from (claim_evidence held) (claim_evidence c)" "claim_key c |\<in>| quarantined_keys s" "q = fp"
        "fmlookup (portable_key_pins s) (claim_key c) = None"
        "collision_log s = collision_log r @ [\<lparr>col_key = claim_key c, existing_device = h, existing_fingerprint = p,
           existing_claim = held, incoming_fingerprint = fp, incoming_claim = c\<rparr>]"
proof (cases "claim_key c |\<in>| quarantined_keys r")
  case True
  then have "s = r" "q = fp" using assms by (simp_all add: resolve_portable_fingerprint_def)
  then show thesis by (rule quarantined [OF True])
next
  case False
  show thesis
  proof (cases "fmlookup (portable_key_pins r) (claim_key c)")
    case None
    then have "s = r\<lparr>portable_key_pins := fmupd (claim_key c) fp (portable_key_pins r)\<rparr>" "q = fp"
      using assms False by (auto simp: resolve_portable_fingerprint_def)
    then show thesis by (rule first [OF False None])
  next
    case (Some p)
    show thesis
    proof (cases "\<exists>h held. p \<noteq> fp \<and> present_holder r p = Some (h, held) \<and>
        proves_distinct_from (claim_evidence held) (claim_evidence c)")
      case True
      then obtain h held where h: "p \<noteq> fp" "present_holder r p = Some (h, held)"
        "proves_distinct_from (claim_evidence held) (claim_evidence c)" by blast
      show thesis
        by (rule collision [OF False Some h]) (use assms False Some h in \<open>auto simp: resolve_portable_fingerprint_def\<close>)
    next
      case no: False
      then have "s = r" "q = p" using assms False Some
        by (auto simp: resolve_portable_fingerprint_def split: if_splits option.splits)
      then show thesis by (intro pinned [OF False]) (simp_all add: Some)
    qed
  qed
qed

lemma resolve_stable:
  assumes "resolve_portable_fingerprint r fp c = (s, q)" "recorded r' i info q md b c" "key_kept s r' c"
  shows "resolve_portable_fingerprint r' fp c = (r', q)"
proof (cases c)
  case (Some k)
  have quar: "quarantined_keys r' = quarantined_keys s" using assms(3) by (simp add: key_kept_def)
  have pin: "fmlookup (portable_key_pins s) (claim_key k) = Some p \<Longrightarrow>
      fmlookup (portable_key_pins r') (claim_key k) = Some p" for p
    using assms(3) Some by (simp add: key_kept_def)
  from assms(1) Some have "resolve_portable_fingerprint r fp (Some k) = (s, q)" by simp
  then show ?thesis
  proof (cases rule: resolve_cases)
    case pinned
    then have p: "fmlookup (portable_key_pins r') (claim_key k) = Some q" using pin by simp
    have "present_holder r' q = Some (h, held) \<Longrightarrow> held = k" for h held
      using assms(2) Some by (auto simp: present_holder_def recorded_def split: option.splits if_splits)
    then show ?thesis using pinned(1,3) p quar Some
      by (auto simp: resolve_portable_fingerprint_def split: option.split)
  qed (use quar pin Some in \<open>auto simp: resolve_portable_fingerprint_def\<close>)
qed (use assms(1) in \<open>simp add: resolve_portable_fingerprint_def\<close>)

text \<open>C15: Recording the same discovery twice is the same as recording it once: the second time the
  registry returns the same device id and changes nothing, not even its generation counter, whatever
  the device's claim, metadata, user settings and history.\<close>

theorem rediscovery_is_idempotent:
  assumes "run (reg_exec sid) new_registry es = Some r" "add_discovered ids r d = Some (r', i)"
  shows "add_discovered ids' r' d = Some (r', i)"
proof -
  have inv: "reg_inv r" by (rule reg.run_Some_inv [OF reg_inv_new assms(1)])
  obtain s q where res: "resolve_portable_fingerprint r (dis_fingerprint d) (dis_claim d) = (s, q)" by fastforce
  note rec = add_entry_recorded(1,2) [OF inv assms(2) [unfolded add_discovered_def] res]
  have "resolve_portable_fingerprint r' (dis_fingerprint d) (dis_claim d) = (r', q)" by (rule resolve_stable [OF res rec])
  then show ?thesis
    using recorded_unchanged [OF rec(1)] rec(1) by (auto simp: add_discovered_def add_entry_def recorded_def)
qed


section \<open>Pins and collisions\<close>

text \<open>Recording a discovery touches no other device.\<close>

lemma add_entry_frame:
  assumes "reg_inv r" "add_entry ids r info fp md b c = Some (r', i)" "j \<noteq> i"
  shows "fmlookup (reg_devices r') j = fmlookup (reg_devices r) j"
proof -
  obtain s q where res: "resolve_portable_fingerprint r fp c = (s, q)" by fastforce
  have dev: "reg_devices s = reg_devices r" using resolve_fields(1) [of r fp c] res by simp
  have inv: "reg_inv s" using reg_inv_resolve [OF assms(1), of fp c] res by simp
  have un: "fmlookup (reg_devices u) j = fmlookup (reg_devices s) j"
    if "add_unmatched ids t info q md b c = Some (u, i)" "reg_devices t = reg_devices s" for t u
    using that assms(3) by (auto simp: add_unmatched_def Let_def insert_new_def dest: dram_match_tracked split: option.splits)
  show ?thesis
  proof (cases "fmlookup (fingerprints s) q")
    case None
    then show ?thesis using assms(2) un [of s r'] dev by (simp add: add_entry_def res)
  next
    case (Some k)
    then obtain t where "fmlookup (reg_devices s) k = Some t" using reg_inv_indexed [OF inv] by blast
    then show ?thesis using assms(2,3) Some dev by (auto simp: add_entry_def res update_existing_def Let_def)
  qed
qed

lemma update_existing_entry:
  assumes "fmlookup (reg_devices r) i = Some t"
  shows "\<exists>t'. fmlookup (reg_devices (update_existing r i t info fp md b c)) i = Some t' \<and>
    t_state t' = t_state t \<and> user_settings t' = user_settings t"
  using assms by (auto simp: update_existing_def Let_def refreshed_device_def)

text \<open>
  What stands against a pin: its key is quarantined, or another fingerprint is observed while a
  renderable device holds the pinned one with evidence of another attachment.
\<close>

definition pin_contradicted :: "'p registry \<Rightarrow> device_fingerprint \<Rightarrow> identity_claim \<Rightarrow> device_fingerprint \<Rightarrow> bool" where
  "pin_contradicted r fp c p \<longleftrightarrow> claim_key c |\<in>| quarantined_keys r \<or>
     (p \<noteq> fp \<and> (case present_holder r p of
        None \<Rightarrow> False | Some (h, held) \<Rightarrow> proves_distinct_from (claim_evidence held) (claim_evidence c)))"

lemma resolve_pinned:
  assumes "fmlookup (portable_key_pins r) (claim_key c) = Some p"
  shows "snd (resolve_portable_fingerprint r fp (Some c)) = (if pin_contradicted r fp c p then fp else p)"
    and "\<not> pin_contradicted r fp c p \<Longrightarrow> resolve_portable_fingerprint r fp (Some c) = (r, p)"
  using assms by (auto simp: resolve_portable_fingerprint_def pin_contradicted_def split: option.splits prod.splits)

text \<open>C16: Claimed hardware keeps its identity. A device that claims a pinned key is recorded under the
  pinned fingerprint, whatever fingerprint it was observed with, with two exceptions: when the key
  is quarantined, and when it was observed with another fingerprint while a renderable device holds
  the pinned one with evidence of another attachment. In these it is recorded under the fingerprint
  it was observed with. Without an exception the pin stays, and if a device is still registered
  under the pinned fingerprint it is that device that is updated, with its lifecycle state and the
  user's settings untouched.\<close>

theorem pinned_identity_is_kept:
  assumes "run (reg_exec sid) new_registry es = Some r" "dis_claim d = Some c"
    and "fmlookup (portable_key_pins r) (claim_key c) = Some p" "add_discovered ids r d = Some (r', i)"
  shows "fingerprint_for_id r' i = Some (if pin_contradicted r (dis_fingerprint d) c p then dis_fingerprint d else p) \<and>
    find_by_fingerprint r' (if pin_contradicted r (dis_fingerprint d) c p then dis_fingerprint d else p) = Some i \<and>
    (\<not> pin_contradicted r (dis_fingerprint d) c p \<longrightarrow>
       fmlookup (portable_key_pins r') (claim_key c) = Some p \<and>
       (\<forall>j t. find_by_fingerprint r p = Some j \<and> get_device r j = Some t \<longrightarrow>
          i = j \<and> (\<exists>t'. get_device r' i = Some t' \<and> t_state t' = t_state t \<and> user_settings t' = user_settings t)))"
proof -
  have inv: "reg_inv r" by (rule reg.run_Some_inv [OF reg_inv_new assms(1)])
  note add = assms(4) [unfolded add_discovered_def assms(2)]
  let ?kept = "\<not> pin_contradicted r (dis_fingerprint d) c p"
  have found: "recorded r' i (dis_info d) (if ?kept then p else dis_fingerprint d) (dis_metadata d) (dis_behavior d) (Some c)"
    using add_entry_recorded(1) [OF inv add prod.collapse [symmetric]] by (simp add: resolve_pinned(1) [OF assms(3)] split: if_splits)
  have "fmlookup (portable_key_pins r') (claim_key c) = Some p \<and>
      (\<forall>j t. find_by_fingerprint r p = Some j \<and> get_device r j = Some t \<longrightarrow>
         i = j \<and> (\<exists>t'. get_device r' i = Some t' \<and> t_state t' = t_state t \<and> user_settings t' = user_settings t))" if ?kept
  proof -
    note rec = add_entry_recorded(2,3) [OF inv add resolve_pinned(2) [OF assms(3) that]]
    have "i = j \<and> (\<exists>t'. get_device r' i = Some t' \<and> t_state t' = t_state t \<and> user_settings t' = user_settings t)"
      if "find_by_fingerprint r p = Some j" "get_device r j = Some t" for j t
      using rec(2) [of j] that update_existing_entry by (auto simp: find_by_fingerprint_def get_device_def)
    then show ?thesis using rec(1) assms(3) by (auto simp: key_kept_def)
  qed
  then show ?thesis
    using found by (cases ?kept) (simp_all add: recorded_def fingerprint_for_id_def find_by_fingerprint_def, blast)
qed

text \<open>
  The one way a device is recorded under an identity that neither its fingerprint nor its claim names:
  a memory module whose address changed.
\<close>

lemma unmatched_identity:
  assumes "add_unmatched ids r info fp md b c = Some (r', i)" "fmlookup (reg_devices r) h \<noteq> None"
  shows "i = h \<longleftrightarrow> find_single_renderable_smbus_dram_match r info md = Some h"
proof (cases "find_single_renderable_smbus_dram_match r info md")
  case None
  then have "allocate_id (reg_devices r) (info_id info) ids = Some i" using assms(1) by (auto simp: add_unmatched_def Let_def)
  then show ?thesis using None allocate_id_free assms(2) by (metis option.distinct(1))
next
  case (Some j)
  then have "i = j" using assms(1) dram_match_tracked [OF Some] by (auto simp: add_unmatched_def Let_def split: option.splits)
  then show ?thesis using Some by simp
qed

lemma dram_match_resolved [simp]:
  "find_single_renderable_smbus_dram_match (fst (resolve_portable_fingerprint r fp c)) info md =
     find_single_renderable_smbus_dram_match r info md"
  by (simp add: find_single_renderable_smbus_dram_match_def dram_candidates_def split: option.split)

text \<open>C17: Two units that claim one key at the same time are told apart: when a renderable device
  holds the pinned fingerprint and its attachment evidence differs from the newcomer's, the key is
  quarantined and its pin dropped, the collision is logged with both claims, and the newcomer is
  recorded under its own fingerprint. It becomes another device and the holder is left as it was,
  with one exception: an SMBus memory module observed under a fingerprint the registry does not know
  is taken for the holder exactly when the holder is the only present module of the same bus,
  controller, firmware and size.\<close>

theorem collision_quarantines_key:
  assumes "run (reg_exec sid) new_registry es = Some r" "dis_claim d = Some c"
    and "claim_key c |\<notin>| quarantined_keys r" "fmlookup (portable_key_pins r) (claim_key c) = Some p"
    and "p \<noteq> dis_fingerprint d" "present_holder r p = Some (h, held)"
    and "proves_distinct_from (claim_evidence held) (claim_evidence c)"
    and "add_discovered ids r d = Some (r', i)"
  shows "claim_key c |\<in>| quarantined_keys r' \<and> fmlookup (portable_key_pins r') (claim_key c) = None \<and>
    collision_log r' = collision_log r @
      [\<lparr>col_key = claim_key c, existing_device = h, existing_fingerprint = p, existing_claim = held,
        incoming_fingerprint = dis_fingerprint d, incoming_claim = c\<rparr>] \<and>
    fingerprint_for_id r' i = Some (dis_fingerprint d) \<and>
    (i = h \<longleftrightarrow> find_by_fingerprint r (dis_fingerprint d) = None \<and>
       find_single_renderable_smbus_dram_match r (dis_info d) (dis_metadata d) = Some h) \<and>
    (conn_type (dis_info d) \<noteq> CtSmBus \<longrightarrow> i \<noteq> h) \<and>
    (i \<noteq> h \<longrightarrow> get_device r' h = get_device r h)"
proof -
  have inv: "reg_inv r" by (rule reg.run_Some_inv [OF reg_inv_new assms(1)])
  define s where "s = fst (resolve_portable_fingerprint r (dis_fingerprint d) (dis_claim d))"
  have res: "resolve_portable_fingerprint r (dis_fingerprint d) (dis_claim d) = (s, dis_fingerprint d)"
    using assms(2-7) by (auto simp: s_def resolve_portable_fingerprint_def)
  have s: "claim_key c |\<in>| quarantined_keys s" "fmlookup (portable_key_pins s) (claim_key c) = None"
      "collision_log s = collision_log r @
        [\<lparr>col_key = claim_key c, existing_device = h, existing_fingerprint = p, existing_claim = held,
          incoming_fingerprint = dis_fingerprint d, incoming_claim = c\<rparr>]"
    using assms(2-7) by (auto simp: s_def resolve_portable_fingerprint_def)
  note add = assms(8) [unfolded add_discovered_def]
  note rec = add_entry_recorded [OF inv add res]
  have h: "fmlookup (fingerprints r) p = Some h" "fmlookup (reg_devices r) h \<noteq> None"
    using assms(6) by (auto simp: present_holder_def split: option.splits if_splits)
  have frs: "fingerprints s = fingerprints r" "reg_devices s = reg_devices r"
    "find_single_renderable_smbus_dram_match s info md = find_single_renderable_smbus_dram_match r info md" for info md
    by (simp_all add: s_def)
  have who: "i = h \<longleftrightarrow> find_by_fingerprint r (dis_fingerprint d) = None \<and>
       find_single_renderable_smbus_dram_match r (dis_info d) (dis_metadata d) = Some h"
  proof (cases "fmlookup (fingerprints s) (dis_fingerprint d)")
    case None
    then have "add_unmatched ids s (dis_info d) (dis_fingerprint d) (dis_metadata d) (dis_behavior d) (dis_claim d) = Some (r', i)"
      using add by (simp add: add_entry_def res)
    from unmatched_identity [OF this] h(2) frs None show ?thesis by (simp add: find_by_fingerprint_def)
  next
    case (Some j)
    have "j \<noteq> h" using Some frs(1) h(1) assms(5) inv unfolding reg_inv_def index_ok_def by (metis option.inject)
    then show ?thesis using rec(3) [OF Some] Some frs(1) by (auto simp: find_by_fingerprint_def)
  qed
  moreover have "find_single_renderable_smbus_dram_match r (dis_info d) (dis_metadata d) = None"
    if "conn_type (dis_info d) \<noteq> CtSmBus"
    using that by (simp add: find_single_renderable_smbus_dram_match_def smbus_dram_identity_def)
  ultimately show ?thesis
    using rec(1,2) s assms(2) add_entry_frame [OF inv add, of h]
    by (auto simp: recorded_def key_kept_def fingerprint_for_id_def get_device_def)
qed


section \<open>Re-binding\<close>

text \<open>C18: A user-driven re-bind is refused, without any change, for exactly these reasons, in this
  order: the device is unknown, it has no claim, or the fingerprint belongs to another device that
  is renderable. Otherwise it gives the device the requested fingerprint: the device is found under
  it, its key is pinned to it, a predecessor that held it is gone together with its index entries,
  the predecessor's user settings have moved over, and every other device is as it was, in
  particular every other renderable one.\<close>

theorem rebind_outcomes:
  assumes "run (reg_exec sid) new_registry es = Some r" "rebind_portable_identity r i fp = (r', res)"
  shows "(res = Inl UnknownDevice \<longleftrightarrow> get_device r i = None)
    \<and> (res = Inl Unclaimed \<longleftrightarrow> get_device r i \<noteq> None \<and> claim_for_id r i = None)
    \<and> (res = Inl TargetActive \<longleftrightarrow> get_device r i \<noteq> None \<and> claim_for_id r i \<noteq> None \<and>
        (\<exists>h ht. h \<noteq> i \<and> find_by_fingerprint r fp = Some h \<and> get_device r h = Some ht \<and> is_renderable (t_state ht)))
    \<and> (case res of
         Inl e \<Rightarrow> r' = r
       | Inr t \<Rightarrow> get_device r' i = Some t \<and> fingerprint_for_id r' i = Some fp \<and> find_by_fingerprint r' fp = Some i \<and>
           (\<exists>c. claim_for_id r i = Some c \<and> fmlookup (portable_key_pins r') (claim_key c) = Some fp) \<and>
           (\<forall>h ht. h \<noteq> i \<and> find_by_fingerprint r fp = Some h \<and> get_device r h = Some ht \<longrightarrow>
              get_device r' h = None \<and> fingerprint_for_id r' h = None \<and> user_settings t = user_settings ht) \<and>
           (\<forall>j. j \<noteq> i \<and> find_by_fingerprint r fp \<noteq> Some j \<longrightarrow> get_device r' j = get_device r j) \<and>
           (\<forall>j tj. j \<noteq> i \<and> get_device r j = Some tj \<and> is_renderable (t_state tj) \<longrightarrow> get_device r' j = Some tj))"
proof -
  have inv: "reg_inv r" by (rule reg.run_Some_inv [OF reg_inv_new assms(1)])
  show ?thesis
  proof (cases "fmlookup (reg_devices r) i")
    case None
    then show ?thesis using assms(2) by (auto simp: rebind_portable_identity_def get_device_def)
  next
    case t: (Some t)
    show ?thesis
    proof (cases "fmlookup (claims_by_id r) i")
      case None
      then show ?thesis using assms(2) t by (auto simp: rebind_portable_identity_def get_device_def claim_for_id_def)
    next
      case c: (Some c)
      show ?thesis
        using assms(2) t c reg_inv_indexed [OF inv, of fp] unfolding rebind_result [OF inv t c]
        by (auto simp: Let_def predecessor_def cleared_def get_device_def fingerprint_for_id_def find_by_fingerprint_def
            claim_for_id_def inherit_settings_def split: if_splits option.splits)
    qed
  qed
qed

text \<open>The registry of the next session: nothing but the persisted pins and quarantine.\<close>

definition restarted :: "'p registry \<Rightarrow> 'p registry" where
  "restarted r = seed_portable_identity new_registry (portable_key_pins r) (quarantined_keys r)"

text \<open>C19: After a re-bind and a restart the device is found under the adopted fingerprint, unless
  its key is quarantined: for a quarantined key the new pin is stored but never consulted, and the
  device is recorded under whatever fingerprint it is observed with.\<close>

theorem rebind_across_restart:
  assumes "run (reg_exec sid) new_registry es = Some r" "rebind_portable_identity r i fp = (r', Inr t)"
    and "claim_for_id r i = Some c" "dis_claim d = Some c'" "claim_key c' = claim_key c"
    and "add_discovered ids (restarted r') d = Some (r'', j)"
  shows "fingerprint_for_id r'' j = Some (if claim_key c |\<in>| quarantined_keys r then dis_fingerprint d else fp)"
proof -
  have inv: "reg_inv r" by (rule reg.run_Some_inv [OF reg_inv_new assms(1)])
  have c: "fmlookup (claims_by_id r) i = Some c" using assms(3) by (simp add: claim_for_id_def)
  obtain t0 where t0: "fmlookup (reg_devices r) i = Some t0"
    using assms(2) by (cases "fmlookup (reg_devices r) i") (auto simp: rebind_portable_identity_def)
  have k: "fmlookup (portable_key_pins r') (claim_key c) = Some fp" "quarantined_keys r' = quarantined_keys r"
    using assms(2) unfolding rebind_result [OF inv t0 c]
    by (auto simp: Let_def cleared_def split: if_splits option.splits)
  have inv': "reg_inv (restarted r')" unfolding restarted_def by (rule reg_inv_identity_ops(1) [OF reg_inv_new])
  have st: "portable_key_pins (restarted r') = portable_key_pins r'" "quarantined_keys (restarted r') = quarantined_keys r"
      "present_holder (restarted r') p = None" for p
    by (simp_all add: restarted_def seed_portable_identity_def new_registry_def k(2) present_holder_def)
  have "resolve_portable_fingerprint (restarted r') (dis_fingerprint d) (dis_claim d) =
      (restarted r', if claim_key c |\<in>| quarantined_keys r then dis_fingerprint d else fp)"
    using assms(4,5) k(1) by (simp add: resolve_portable_fingerprint_def st)
  from add_entry_recorded(1) [OF inv' assms(6) [unfolded add_discovered_def] this]
  show ?thesis by (simp add: recorded_def fingerprint_for_id_def)
qed

section \<open>Example\<close>

definition demo_device :: "unit device_info" where
  "demo_device = \<lparr>info_id = 5, info_name = ''Strip'', vendor = ''Acme'', family = \<lparr>family_id = ''a'', family_name = ''A''\<rparr>,
     model = None, conn_type = CtUsb,
     origin = \<lparr>driver_id = ''a'', backend_id = ''a'', transport = TkUsb, protocol_id = None\<rparr>,
     segments = [], firmware_version = None, capabilities = default_capabilities\<rparr>"

definition demo_found :: "string \<Rightarrow> string \<Rightarrow> device_id \<Rightarrow> unit discovered_device" where
  "demo_found fp topology i =
     \<lparr>dis_fingerprint = DeviceFingerprint fp, dis_behavior = AutoConnect, dis_info = demo_device\<lparr>info_id := i\<rparr>,
      dis_metadata = fmempty, dis_claim = Some (UsbSerial (PortableDeviceKey ''usb:1:2:S1234'') ''S1234'' topology)\<rparr>"

lemma add_to_new:
  assumes "conn_type (dis_info d) \<noteq> CtSmBus"
  shows "add_discovered ids new_registry d =
    Some (insert_new (fst (resolve_portable_fingerprint new_registry (dis_fingerprint d) (dis_claim d))) (info_id (dis_info d))
      (dis_info d) (dis_fingerprint d) (dis_metadata d) (dis_behavior d) (dis_claim d), info_id (dis_info d))"
  using assms
  by (auto simp: add_discovered_def add_entry_def resolve_portable_fingerprint_def new_registry_def add_unmatched_def
      find_single_renderable_smbus_dram_match_def smbus_dram_identity_def allocate_id.simps split: option.split)

definition demo_registry :: "unit registry" where
  "demo_registry = fst (the (add_discovered [] new_registry (demo_found ''fp1'' ''port1'' 5)))"

lemma demo_added: "add_discovered [] new_registry (demo_found ''fp1'' ''port1'' 5) = Some (demo_registry, 5)"
  by (simp add: demo_registry_def add_to_new demo_found_def demo_device_def)

lemma demo_run: "run (reg_exec (\<lambda>_. ''x'')) new_registry [RegDiscovered (demo_found ''fp1'' ''port1'' 5) []] = Some demo_registry"
  by (simp add: demo_added)

theorem registry_stays_consistent_witness: "index_ok demo_registry"
  using registry_stays_consistent [OF demo_run] by blast

theorem rediscovery_is_idempotent_witness:
  "add_discovered [] demo_registry (demo_found ''fp1'' ''port1'' 5) = Some (demo_registry, 5)"
  using rediscovery_is_idempotent [of "\<lambda>_. ''x''" "[]" new_registry "[]" "demo_found ''fp1'' ''port1'' 5" demo_registry 5 "[]"] demo_added
  by simp


definition demo_claim :: "string \<Rightarrow> identity_claim" where
  "demo_claim topology = UsbSerial (PortableDeviceKey ''usb:1:2:S1234'') ''S1234'' topology"

lemma demo_claim_of [simp]:
  "dis_claim (demo_found fp topology i) = Some (demo_claim topology)" "claim_key (demo_claim a) = PortableDeviceKey ''usb:1:2:S1234''"
  "claim_evidence (demo_claim a) = UsbTopology a" "dis_fingerprint (demo_found fp topology i) = DeviceFingerprint fp"
  "conn_type (dis_info (demo_found fp topology i)) = CtUsb" "info_id (dis_info (demo_found fp topology i)) = i"
  by (simp_all add: demo_found_def demo_claim_def demo_device_def)

lemmas demo_eval = add_to_new [of "demo_found ''fp1'' ''port1'' 5" "[]", simplified]

lemma demo_fields:
  "\<exists>t. reg_devices demo_registry = fmupd 5 t fmempty \<and> t_state t = Known"
  "fingerprints demo_registry = fmupd (DeviceFingerprint ''fp1'') 5 fmempty"
  "claims_by_id demo_registry = fmupd 5 (demo_claim ''port1'') fmempty"
  "portable_key_pins demo_registry = fmupd (PortableDeviceKey ''usb:1:2:S1234'') (DeviceFingerprint ''fp1'') fmempty"
  "quarantined_keys demo_registry = {||}"
  unfolding demo_registry_def demo_eval
  by (simp_all add: insert_new_def Let_def resolve_portable_fingerprint_def new_registry_def put_metadata_def
      store_portable_claim_def) (intro exI conjI, rule refl, simp)

theorem pinned_identity_is_kept_witness:
  "\<exists>r'. add_discovered [] demo_registry (demo_found ''fp2'' ''port2'' 9) = Some (r', 5) \<and>
     fingerprint_for_id r' 5 = Some (DeviceFingerprint ''fp1'')"
proof -
  obtain t where t: "reg_devices demo_registry = fmupd 5 t fmempty" "t_state t = Known" using demo_fields(1) by blast
  have holder: "present_holder demo_registry (DeviceFingerprint ''fp1'') = None"
    by (simp add: present_holder_def demo_fields t is_renderable_def)
  obtain r' where "add_discovered [] demo_registry (demo_found ''fp2'' ''port2'' 9) = Some (r', 5)"
    by (simp add: add_discovered_def add_entry_def resolve_portable_fingerprint_def demo_fields holder t)
  with pinned_identity_is_kept [OF demo_run _ _ this, of "demo_claim ''port2''" "DeviceFingerprint ''fp1''"] holder
  show ?thesis by (simp add: demo_fields pin_contradicted_def)
qed

definition demo_active :: "unit registry" where
  "demo_active = fst (reg_set_state demo_registry 5 Active)"

lemma demo_active_run:
  "run (reg_exec (\<lambda>_. ''x'')) new_registry [RegDiscovered (demo_found ''fp1'' ''port1'' 5) [], RegSetState 5 Active] =
   Some demo_active"
  by (simp add: demo_added demo_active_def)

lemma demo_active_fields:
  "\<exists>t. reg_devices demo_active = fmupd 5 t fmempty \<and> t_state t = Active"
  "fingerprints demo_active = fmupd (DeviceFingerprint ''fp1'') 5 fmempty"
  "claims_by_id demo_active = fmupd 5 (demo_claim ''port1'') fmempty"
  "portable_key_pins demo_active = fmupd (PortableDeviceKey ''usb:1:2:S1234'') (DeviceFingerprint ''fp1'') fmempty"
  "quarantined_keys demo_active = {||}"
  using demo_fields by (auto simp: demo_active_def reg_set_state_def)

theorem collision_quarantines_key_witness:
  "\<exists>r'. add_discovered [] demo_active (demo_found ''fp2'' ''port2'' 9) = Some (r', 9) \<and>
     PortableDeviceKey ''usb:1:2:S1234'' |\<in>| quarantined_keys r'"
proof -
  obtain t where t: "reg_devices demo_active = fmupd 5 t fmempty" "t_state t = Active" using demo_active_fields(1) by blast
  have holder: "present_holder demo_active (DeviceFingerprint ''fp1'') = Some (5, demo_claim ''port1'')"
    by (simp add: present_holder_def demo_active_fields t is_renderable_def)
  obtain r' where "add_discovered [] demo_active (demo_found ''fp2'' ''port2'' 9) = Some (r', 9)"
    by (simp add: add_discovered_def add_entry_def resolve_portable_fingerprint_def demo_active_fields holder t
        add_unmatched_def find_single_renderable_smbus_dram_match_def smbus_dram_identity_def allocate_id.simps)
  with collision_quarantines_key [OF demo_active_run _ _ _ _ holder _ this, of "demo_claim ''port2''"]
  show ?thesis by (simp add: demo_active_fields)
qed

lemma demo_rebind:
  "\<exists>r' t. rebind_portable_identity demo_registry 5 (DeviceFingerprint ''fp9'') = (r', Inr t)"
proof -
  obtain t where "reg_devices demo_registry = fmupd 5 t fmempty" using demo_fields(1) by blast
  then show ?thesis by (simp add: rebind_portable_identity_def demo_fields Let_def)
qed

theorem rebind_outcomes_witness:
  "\<exists>r' t. rebind_portable_identity demo_registry 5 (DeviceFingerprint ''fp9'') = (r', Inr t) \<and>
     find_by_fingerprint r' (DeviceFingerprint ''fp9'') = Some 5"
proof -
  obtain r' t where r': "rebind_portable_identity demo_registry 5 (DeviceFingerprint ''fp9'') = (r', Inr t)"
    using demo_rebind by blast
  then show ?thesis using rebind_outcomes [OF demo_run r'] by auto
qed

theorem rebind_across_restart_witness:
  "\<exists>r' t r'' j. rebind_portable_identity demo_registry 5 (DeviceFingerprint ''fp9'') = (r', Inr t) \<and>
     add_discovered [] (restarted r') (demo_found ''fp1'' ''port1'' 5) = Some (r'', j) \<and>
     fingerprint_for_id r'' j = Some (DeviceFingerprint ''fp9'')"
proof -
  obtain r' t where r': "rebind_portable_identity demo_registry 5 (DeviceFingerprint ''fp9'') = (r', Inr t)"
    using demo_rebind by blast
  have "\<exists>r'' j. add_discovered [] (restarted r') (demo_found ''fp1'' ''port1'' 5) = Some (r'', j)"
    by (auto simp: add_discovered_def add_entry_def restarted_def seed_portable_identity_def new_registry_def
        resolve_portable_fingerprint_def present_holder_def add_unmatched_def allocate_id.simps
        find_single_renderable_smbus_dram_match_def smbus_dram_identity_def split: option.split)
  then obtain r'' j where r'': "add_discovered [] (restarted r') (demo_found ''fp1'' ''port1'' 5) = Some (r'', j)" by blast
  show ?thesis
    using rebind_across_restart [OF demo_run r' _ _ _ r'', of "demo_claim ''port1''" "demo_claim ''port1''"] r' r''
    by (auto simp: claim_for_id_def demo_fields)
qed

end
