(* ===== verification/Scene_Layers.thy ===== *)
theory Scene_Layers
  imports Device_Types Rust_Str
begin

text \<open>
  The authored content of a scene: \<^verbatim>\<open>hypercolor-types/src/spatial.rs\<close> (layouts and their
  outputs), \<^verbatim>\<open>control/mod.rs\<close> (control values) and \<^verbatim>\<open>layer.rs\<close> (layers, their normalisation
  and validation).

  An \<^verbatim>\<open>f32\<close> is the rational it denotes, an infinity or NaN, as in theory Ieee; the results
  of arithmetic are rounded to binary32. Derived \<^verbatim>\<open>PartialEq\<close> then differs from HOL equality
  only on values that contain a NaN: \<open>a == b\<close> holds when \<open>a = b\<close> and the value is equal to
  itself, which the \<open>_reflexive\<close> predicates decide. A UUID is a 128-bit word. Where the source
  builds an error text, the model has one constructor per text, with the arguments of its
  \<^verbatim>\<open>format!\<close>.
\<close>

section \<open>Spatial layouts\<close>

type_synonym f32x4 = "f32 \<times> f32 \<times> f32 \<times> f32"

type_synonym position = "f32 \<times> f32"

datatype strip_direction = LeftToRight | RightToLeft | TopToBottom | BottomToTop
datatype corner = TopLeft | TopRight | BottomLeft | BottomRight
datatype winding = Clockwise | CounterClockwise

record ring_def =
  ring_count :: u32
  ring_radius :: f32
  ring_start_angle :: f32
  ring_direction :: winding

datatype led_topology =
    TopoStrip u32 strip_direction
  | TopoMatrix u32 u32 bool corner
  | TopoRing u32 f32 winding
  | TopoConcentricRings "ring_def list"
  | TopoPerimeterLoop u32 u32 u32 u32 corner winding
  | TopoPoint
  | TopoCustom "position list"

datatype sampling_mode =
    SmNearest | SmBilinear | SmAreaAverage f32 f32 | SmGaussianArea f32 u32

datatype edge_behavior = EbClamp | EbWrap | EbFadeToBlack f32 | EbMirror

datatype zone_shape = ShRectangle | ShArc f32 f32 | ShRing | ShCustom "position list"

datatype orientation = OrHorizontal | OrVertical | OrDiagonal | OrRadial

record output_component =
  oc_template_id :: string
  oc_slot_id :: string
  oc_instance :: u32
  oc_led_start :: "u32 option"
  oc_led_count :: "u32 option"
  oc_led_mapping :: "u32 list option"

record zone_output =
  out_id :: string
  out_name :: string
  out_device_id :: string
  out_zone_name :: "string option"
  out_position :: position
  out_size :: position
  out_rotation :: f32
  out_scale :: f32
  out_display_order :: "32 word" \<comment> \<open>an i32\<close>
  out_orientation :: "orientation option"
  out_topology :: led_topology
  out_led_positions :: "position list"
  out_led_mapping :: "u32 list option"
  out_sampling_mode :: "sampling_mode option"
  out_edge_behavior :: "edge_behavior option"
  out_shape :: "zone_shape option"
  out_shape_preset :: "string option"
  out_attachment :: "output_component option"
  out_brightness :: "f32 option"

record spatial_layout =
  lay_id :: string
  lay_name :: string
  lay_description :: "string option"
  lay_canvas_width :: u32
  lay_canvas_height :: u32
  lay_zones :: "zone_output list"
  lay_default_sampling_mode :: sampling_mode
  lay_default_edge_behavior :: edge_behavior
  lay_version :: u32

abbreviation layout_output_ids :: "spatial_layout \<Rightarrow> string list" where
  "layout_output_ids l \<equiv> map out_id (lay_zones l)"

subsection \<open>Equality with itself\<close>

definition pos_reflexive :: "position \<Rightarrow> bool" where
  "pos_reflexive p \<longleftrightarrow> fst p \<noteq> NaN \<and> snd p \<noteq> NaN"

definition f32x4_reflexive :: "f32x4 \<Rightarrow> bool" where
  "f32x4_reflexive v \<longleftrightarrow> (case v of (a, b, c, d) \<Rightarrow> a \<noteq> NaN \<and> b \<noteq> NaN \<and> c \<noteq> NaN \<and> d \<noteq> NaN)"

fun topology_reflexive :: "led_topology \<Rightarrow> bool" where
  "topology_reflexive (TopoRing _ a _) \<longleftrightarrow> a \<noteq> NaN"
| "topology_reflexive (TopoConcentricRings rs) \<longleftrightarrow>
     list_all (\<lambda>r. ring_radius r \<noteq> NaN \<and> ring_start_angle r \<noteq> NaN) rs"
| "topology_reflexive (TopoCustom ps) \<longleftrightarrow> list_all pos_reflexive ps"
| "topology_reflexive _ \<longleftrightarrow> True"

fun sampling_reflexive :: "sampling_mode \<Rightarrow> bool" where
  "sampling_reflexive (SmAreaAverage x y) \<longleftrightarrow> x \<noteq> NaN \<and> y \<noteq> NaN"
| "sampling_reflexive (SmGaussianArea s _) \<longleftrightarrow> s \<noteq> NaN"
| "sampling_reflexive _ \<longleftrightarrow> True"

fun edge_reflexive :: "edge_behavior \<Rightarrow> bool" where
  "edge_reflexive (EbFadeToBlack f) \<longleftrightarrow> f \<noteq> NaN"
| "edge_reflexive _ \<longleftrightarrow> True"

fun shape_reflexive :: "zone_shape \<Rightarrow> bool" where
  "shape_reflexive (ShArc a b) \<longleftrightarrow> a \<noteq> NaN \<and> b \<noteq> NaN"
| "shape_reflexive (ShCustom ps) \<longleftrightarrow> list_all pos_reflexive ps"
| "shape_reflexive _ \<longleftrightarrow> True"

definition output_reflexive :: "zone_output \<Rightarrow> bool" where
  "output_reflexive z \<longleftrightarrow>
     pos_reflexive (out_position z) \<and> pos_reflexive (out_size z)
     \<and> out_rotation z \<noteq> NaN \<and> out_scale z \<noteq> NaN
     \<and> topology_reflexive (out_topology z) \<and> list_all pos_reflexive (out_led_positions z)
     \<and> pred_option sampling_reflexive (out_sampling_mode z)
     \<and> pred_option edge_reflexive (out_edge_behavior z)
     \<and> pred_option shape_reflexive (out_shape z) \<and> out_brightness z \<noteq> Some NaN"

definition layout_reflexive :: "spatial_layout \<Rightarrow> bool" where
  "layout_reflexive l \<longleftrightarrow>
     list_all output_reflexive (lay_zones l) \<and> sampling_reflexive (lay_default_sampling_mode l)
     \<and> edge_reflexive (lay_default_edge_behavior l)"

definition layout_eq :: "spatial_layout \<Rightarrow> spatial_layout \<Rightarrow> bool" where
  "layout_eq a b \<longleftrightarrow> a = b \<and> layout_reflexive a"

section \<open>Control values\<close>

datatype control_value =
    CvNull
  | CvBool bool
  | CvInt "64 word" \<comment> \<open>an i64\<close>
  | CvFloat f64
  | CvText string
  | CvSecretRef string
  | CvIp string
  | CvMac string
  | CvDuration duration
  | CvColorRgb u8 u8 u8
  | CvColorRgba u8 u8 u8 u8
  | CvColorLinear f32x4
  | CvGradient "(f32 \<times> f32x4) list"
  | CvRect f32x4
  | CvEnum string
  | CvFlags "string list"
  | CvList "control_value list"
  | CvMap "(string \<times> control_value) list"
  | CvUnknown

function cv_reflexive :: "control_value \<Rightarrow> bool" where
  "cv_reflexive (CvFloat x) \<longleftrightarrow> x \<noteq> NaN"
| "cv_reflexive (CvColorLinear v) \<longleftrightarrow> f32x4_reflexive v"
| "cv_reflexive (CvGradient stops) \<longleftrightarrow>
     list_all (\<lambda>(p, c). p \<noteq> NaN \<and> f32x4_reflexive c) stops"
| "cv_reflexive (CvRect v) \<longleftrightarrow> f32x4_reflexive v"
| "cv_reflexive (CvList xs) \<longleftrightarrow> (\<forall>x \<in> set xs. cv_reflexive x)"
| "cv_reflexive (CvMap kvs) \<longleftrightarrow> (\<forall>kv \<in> set kvs. cv_reflexive (snd kv))"
| "cv_reflexive CvNull \<longleftrightarrow> True"
| "cv_reflexive (CvBool b) \<longleftrightarrow> True"
| "cv_reflexive (CvInt i) \<longleftrightarrow> True"
| "cv_reflexive (CvText s) \<longleftrightarrow> True"
| "cv_reflexive (CvSecretRef s) \<longleftrightarrow> True"
| "cv_reflexive (CvIp s) \<longleftrightarrow> True"
| "cv_reflexive (CvMac s) \<longleftrightarrow> True"
| "cv_reflexive (CvDuration d) \<longleftrightarrow> True"
| "cv_reflexive (CvColorRgb r g b) \<longleftrightarrow> True"
| "cv_reflexive (CvColorRgba r g b a) \<longleftrightarrow> True"
| "cv_reflexive (CvEnum s) \<longleftrightarrow> True"
| "cv_reflexive (CvFlags ss) \<longleftrightarrow> True"
| "cv_reflexive CvUnknown \<longleftrightarrow> True"
  by pat_completeness auto

lemma cv_map_size: "kv \<in> set kvs \<Longrightarrow> size (snd kv) < size (CvMap kvs)"
  by (induction kvs) (auto simp: less_Suc_eq_le trans_le_add1 trans_le_add2 split: prod.splits)

termination cv_reflexive
  by (relation "measure size") (auto simp: less_Suc_eq_le elim: size_list_estimation' intro: cv_map_size)

record control_binding =
  cb_sensor :: string
  cb_sensor_min :: f32
  cb_sensor_max :: f32
  cb_target_min :: f32
  cb_target_max :: f32
  cb_deadband :: f32
  cb_smoothing :: f32

definition binding_reflexive :: "control_binding \<Rightarrow> bool" where
  "binding_reflexive b \<longleftrightarrow>
     NaN \<notin> {cb_sensor_min b, cb_sensor_max b, cb_target_min b, cb_target_max b, cb_deadband b, cb_smoothing b}"

type_synonym controls = "(string, control_value) fmap"
type_synonym control_bindings = "(string, control_binding) fmap"

section \<open>Layers\<close>

type_synonym layer_id = "128 word"
type_synonym effect_id = "128 word"
type_synonym preset_id = "128 word"
type_synonym asset_id = "128 word"

datatype blend_mode =
    BmReplace | BmAlpha | BmAdd | BmScreen | BmMultiply | BmOverlay | BmSoftLight | BmColorDodge
  | BmDifference | BmTint | BmLumaReveal

definition blends_with_base :: "blend_mode \<Rightarrow> bool" where
  "blends_with_base m \<longleftrightarrow> m \<noteq> BmReplace"

datatype loop_mode = LmNone | LmLoop | LmPingPong

record media_playback =
  mp_speed :: f32
  mp_loop_mode :: loop_mode
  mp_start_offset_secs :: f32
  mp_auto_play :: bool

datatype web_viewport_render = WvLive | WvSnapshot

datatype layer_source =
    SrcEffect (src_effect_id: effect_id) (src_controls: controls) (src_bindings: control_bindings)
      (src_preset_id: "preset_id option")
  | SrcMedia asset_id media_playback
  | SrcScreenRegion f32x4
  | SrcWebViewport string f32x4 web_viewport_render
  | SrcColorFill f32x4

datatype fit_mode = FitContain | FitCover | FitStretch | FitTile | FitMirror

record layer_transform =
  lt_anchor :: position
  lt_scale :: "f32 \<times> f32"
  lt_rotation :: f32
  lt_fit :: fit_mode

record layer_adjust =
  la_brightness :: f32
  la_saturation :: f32
  la_hue_shift :: f32
  la_tint :: f32x4
  la_tint_strength :: f32
  la_contrast :: f32

datatype layer_parameter =
    LpOpacity | LpBrightness | LpSaturation | LpHueShift | LpTintStrength | LpContrast | LpScaleX
  | LpScaleY | LpRotation | LpPlaybackSpeed

datatype audio_band = AbBass | AbMid | AbTreble | AbRms | AbPeak | AbBeatPulse | AbOnsetPulse
datatype time_wave = TwSine | TwTriangle | TwSaw | TwSquare

datatype binding_source =
    BsAudioBand audio_band
  | BsSensor string
  | BsTime f32 time_wave
  | BsConstant f32

record binding_map =
  bm_source_min :: f32
  bm_source_max :: f32
  bm_target_min :: f32
  bm_target_max :: f32
  bm_clamp :: bool

record layer_binding =
  lb_target :: layer_parameter
  lb_source :: binding_source
  lb_map :: binding_map

record scene_layer =
  ly_id :: layer_id
  ly_name :: "string option"
  ly_source :: layer_source
  ly_blend :: blend_mode
  ly_opacity :: f32
  ly_transform :: layer_transform
  ly_adjust :: layer_adjust
  ly_bindings :: "layer_binding list"
  ly_enabled :: bool

definition default_transform :: layer_transform where
  "default_transform =
     \<lparr>lt_anchor = (Fin (1/2), Fin (1/2)), lt_scale = (Fin 1, Fin 1), lt_rotation = Fin 0,
      lt_fit = FitCover\<rparr>"

definition default_adjust :: layer_adjust where
  "default_adjust =
     \<lparr>la_brightness = Fin 1, la_saturation = Fin 1, la_hue_shift = Fin 0,
      la_tint = (Fin 1, Fin 1, Fin 1, Fin 1), la_tint_strength = Fin 0, la_contrast = Fin 0\<rparr>"

definition from_effect ::
    "layer_id \<Rightarrow> effect_id \<Rightarrow> controls \<Rightarrow> control_bindings \<Rightarrow> preset_id option \<Rightarrow> scene_layer" where
  "from_effect lid eid ctl cbs pre =
     \<lparr>ly_id = lid, ly_name = None, ly_source = SrcEffect eid ctl cbs pre, ly_blend = BmReplace,
      ly_opacity = Fin 1, ly_transform = default_transform, ly_adjust = default_adjust,
      ly_bindings = [], ly_enabled = True\<rparr>"

subsection \<open>Normalisation\<close>

definition normalize_f32 :: "f32 \<Rightarrow> f32 \<Rightarrow> f32 \<Rightarrow> f32 \<Rightarrow> f32" where
  "normalize_f32 v lo hi fallback = (if is_finite_f v then f32_clamp v lo hi else fallback)"

definition finite_or_zero :: "f32 \<Rightarrow> f32" where
  "finite_or_zero v = (if is_finite_f v then v else Fin 0)"

abbreviation min_scale :: f32 where
  "min_scale \<equiv> f32_of_rat (1 / 100)"

definition transform_normalized :: "layer_transform \<Rightarrow> layer_transform" where
  "transform_normalized t =
     \<lparr>lt_anchor = (normalize_f32 (fst (lt_anchor t)) (Fin 0) (Fin 1) (Fin (1/2)),
                   normalize_f32 (snd (lt_anchor t)) (Fin 0) (Fin 1) (Fin (1/2))),
      lt_scale = (normalize_f32 (fst (lt_scale t)) min_scale (Fin 16) (Fin 1),
                  normalize_f32 (snd (lt_scale t)) min_scale (Fin 16) (Fin 1)),
      lt_rotation = finite_or_zero (lt_rotation t), lt_fit = lt_fit t\<rparr>"

definition adjust_normalized :: "layer_adjust \<Rightarrow> layer_adjust" where
  "adjust_normalized a =
     \<lparr>la_brightness = normalize_f32 (la_brightness a) (Fin 0) (Fin 4) (Fin 1),
      la_saturation = normalize_f32 (la_saturation a) (Fin 0) (Fin 4) (Fin 1),
      la_hue_shift = finite_or_zero (la_hue_shift a),
      la_tint = (let n = (\<lambda>c. normalize_f32 c (Fin 0) (Fin 1) (Fin 1))
                 in case la_tint a of (r, g, b, w) \<Rightarrow> (n r, n g, n b, n w)),
      la_tint_strength = normalize_f32 (la_tint_strength a) (Fin 0) (Fin 1) (Fin 0),
      la_contrast = normalize_f32 (la_contrast a) (Fin (- 1)) (Fin 1) (Fin 0)\<rparr>"

definition layer_normalized :: "scene_layer \<Rightarrow> scene_layer" where
  "layer_normalized l =
     l\<lparr>ly_opacity := normalize_f32 (ly_opacity l) (Fin 0) (Fin 1) (Fin 1),
       ly_transform := transform_normalized (ly_transform l),
       ly_adjust := adjust_normalized (ly_adjust l)\<rparr>"

subsection \<open>Validation\<close>

datatype layer_error =
    NotFinite string
  | OutOfRange string f32 f32
  | WebUrlEmpty
  | StartOffsetNegative
  | BindingRangeEmpty
  | NotAnEffectLayer layer_id

definition validate_finite :: "f32 \<Rightarrow> string \<Rightarrow> layer_error list" where
  "validate_finite v nm = (if is_finite_f v then [] else [NotFinite nm])"

definition validate_range :: "f32 \<Rightarrow> f32 \<Rightarrow> f32 \<Rightarrow> string \<Rightarrow> layer_error list" where
  "validate_range v lo hi nm =
     (if is_finite_f v \<and> \<not> (f64_le lo v \<and> f64_le v hi) then [OutOfRange nm lo hi] else [])"

definition playback_validate :: "media_playback \<Rightarrow> layer_error list" where
  "playback_validate p =
     validate_finite (mp_speed p) ''media.playback.speed''
     @ validate_finite (mp_start_offset_secs p) ''media.playback.start_offset_secs''
     @ (if is_finite_f (mp_start_offset_secs p) \<and> f64_less (mp_start_offset_secs p) (Fin 0)
        then [StartOffsetNegative] else [])"

definition channel_validate :: "f32 \<Rightarrow> string \<Rightarrow> layer_error list" where
  "channel_validate c nm = validate_finite c nm @ validate_range c (Fin 0) (Fin 1) nm"

fun source_validate :: "layer_source \<Rightarrow> layer_error list" where
  "source_validate (SrcMedia _ playback) = playback_validate playback"
| "source_validate (SrcWebViewport url _ _) = (if trim url = [] then [WebUrlEmpty] else [])"
| "source_validate (SrcColorFill (r, g, b, a)) =
     channel_validate r ''source.rgba[0]'' @ channel_validate g ''source.rgba[1]''
     @ channel_validate b ''source.rgba[2]'' @ channel_validate a ''source.rgba[3]''"
| "source_validate _ = []"

definition transform_validate :: "layer_transform \<Rightarrow> layer_error list" where
  "transform_validate t =
     validate_finite (fst (lt_anchor t)) ''transform.anchor.x''
     @ validate_finite (snd (lt_anchor t)) ''transform.anchor.y''
     @ validate_finite (fst (lt_scale t)) ''transform.scale[0]''
     @ validate_finite (snd (lt_scale t)) ''transform.scale[1]''
     @ validate_finite (lt_rotation t) ''transform.rotation''
     @ validate_range (fst (lt_scale t)) min_scale (Fin 16) ''transform.scale[0]''
     @ validate_range (snd (lt_scale t)) min_scale (Fin 16) ''transform.scale[1]''"

definition adjust_validate :: "layer_adjust \<Rightarrow> layer_error list" where
  "adjust_validate a =
     validate_finite (la_brightness a) ''adjust.brightness''
     @ validate_finite (la_saturation a) ''adjust.saturation''
     @ validate_finite (la_hue_shift a) ''adjust.hue_shift''
     @ validate_range (la_brightness a) (Fin 0) (Fin 4) ''adjust.brightness''
     @ validate_range (la_saturation a) (Fin 0) (Fin 4) ''adjust.saturation''
     @ (case la_tint a of (r, g, b, w) \<Rightarrow>
          validate_finite r ''adjust.tint[0]'' @ validate_finite g ''adjust.tint[1]''
          @ validate_finite b ''adjust.tint[2]'' @ validate_finite w ''adjust.tint[3]'')
     @ validate_finite (la_tint_strength a) ''adjust.tint_strength''
     @ validate_finite (la_contrast a) ''adjust.contrast''
     @ validate_range (la_tint_strength a) (Fin 0) (Fin 1) ''adjust.tint_strength''
     @ validate_range (la_contrast a) (Fin (- 1)) (Fin 1) ''adjust.contrast''"

fun binding_source_validate :: "binding_source \<Rightarrow> layer_error list" where
  "binding_source_validate (BsTime rate _) = validate_finite rate ''binding.source.rate_hz''"
| "binding_source_validate (BsConstant v) = validate_finite v ''binding.source.value''"
| "binding_source_validate _ = []"

definition binding_map_validate :: "binding_map \<Rightarrow> layer_error list" where
  "binding_map_validate m =
     validate_finite (bm_source_min m) ''binding.map.source_min''
     @ validate_finite (bm_source_max m) ''binding.map.source_max''
     @ validate_finite (bm_target_min m) ''binding.map.target_min''
     @ validate_finite (bm_target_max m) ''binding.map.target_max''
     @ (if bm_source_min m = bm_source_max m \<and> bm_source_min m \<noteq> NaN then [BindingRangeEmpty] else [])"

definition binding_validate :: "layer_binding \<Rightarrow> layer_error list" where
  "binding_validate b = binding_source_validate (lb_source b) @ binding_map_validate (lb_map b)"

definition layer_errors :: "scene_layer \<Rightarrow> layer_error list" where
  "layer_errors l =
     validate_finite (ly_opacity l) ''opacity'' @ source_validate (ly_source l)
     @ transform_validate (ly_transform l) @ adjust_validate (ly_adjust l)
     @ concat (map binding_validate (ly_bindings l))"

definition layer_validate :: "scene_layer \<Rightarrow> layer_error list + unit" where
  "layer_validate l = (if layer_errors l = [] then Inr () else Inl (layer_errors l))"

subsection \<open>Equality with itself\<close>

fun source_reflexive :: "layer_source \<Rightarrow> bool" where
  "source_reflexive (SrcEffect _ ctl cbs _) \<longleftrightarrow>
     fmpred (\<lambda>_. cv_reflexive) ctl \<and> fmpred (\<lambda>_. binding_reflexive) cbs"
| "source_reflexive (SrcMedia _ p) \<longleftrightarrow> mp_speed p \<noteq> NaN \<and> mp_start_offset_secs p \<noteq> NaN"
| "source_reflexive (SrcScreenRegion v) \<longleftrightarrow> f32x4_reflexive v"
| "source_reflexive (SrcWebViewport _ v _) \<longleftrightarrow> f32x4_reflexive v"
| "source_reflexive (SrcColorFill v) \<longleftrightarrow> f32x4_reflexive v"

definition transform_reflexive :: "layer_transform \<Rightarrow> bool" where
  "transform_reflexive t \<longleftrightarrow>
     pos_reflexive (lt_anchor t) \<and> pos_reflexive (lt_scale t) \<and> lt_rotation t \<noteq> NaN"

definition adjust_reflexive :: "layer_adjust \<Rightarrow> bool" where
  "adjust_reflexive a \<longleftrightarrow>
     NaN \<notin> {la_brightness a, la_saturation a, la_hue_shift a, la_tint_strength a, la_contrast a}
     \<and> f32x4_reflexive (la_tint a)"

definition layer_binding_reflexive :: "layer_binding \<Rightarrow> bool" where
  "layer_binding_reflexive b \<longleftrightarrow>
     (case lb_source b of BsTime r _ \<Rightarrow> r \<noteq> NaN | BsConstant v \<Rightarrow> v \<noteq> NaN | _ \<Rightarrow> True)
     \<and> NaN \<notin> {bm_source_min (lb_map b), bm_source_max (lb_map b), bm_target_min (lb_map b),
              bm_target_max (lb_map b)}"

definition layer_reflexive :: "scene_layer \<Rightarrow> bool" where
  "layer_reflexive l \<longleftrightarrow>
     source_reflexive (ly_source l) \<and> ly_opacity l \<noteq> NaN \<and> transform_reflexive (ly_transform l)
     \<and> adjust_reflexive (ly_adjust l) \<and> list_all layer_binding_reflexive (ly_bindings l)"

section \<open>Facts\<close>

text \<open>The minimum scale is the binary32 value nearest to one hundredth.\<close>

lemma min_scale_value: "f32_of_rat (1 / 100) = Fin (10737418 / 1073741824)"
  by code_simp

lemma normalize_f32_finite: "is_finite_f (normalize_f32 v (Fin a) (Fin b) (Fin c))"
  by (simp add: normalize_f32_def f32_clamp_finite)

lemma normalize_f32_range:
  "a \<le> c \<Longrightarrow> c \<le> b \<Longrightarrow> validate_range (normalize_f32 v (Fin a) (Fin b) (Fin c)) (Fin a) (Fin b) nm = []"
  using f32_clamp_range [of v a b]
  by (auto simp: validate_range_def normalize_f32_def f64_le_def)

lemma normalized_transform_valid [simp]: "transform_validate (transform_normalized t) = []"
  unfolding transform_validate_def transform_normalized_def min_scale_value
  by (simp add: validate_finite_def normalize_f32_finite normalize_f32_range finite_or_zero_def)

lemma normalized_adjust_valid [simp]: "adjust_validate (adjust_normalized a) = []"
  unfolding adjust_validate_def adjust_normalized_def
  by (cases "la_tint a")
    (simp add: validate_finite_def normalize_f32_finite normalize_f32_range finite_or_zero_def)

text \<open>
  Normalising repairs every numeric defect of a layer but those of its source and its bindings:
  a normalised layer is rejected only for these.
\<close>

lemma layer_errors_normalized:
  "layer_errors (layer_normalized l)
     = source_validate (ly_source l) @ concat (map binding_validate (ly_bindings l))"
  by (simp add: layer_errors_def layer_normalized_def validate_finite_def normalize_f32_finite)

lemma default_transform_normal: "transform_normalized default_transform = default_transform"
  unfolding transform_normalized_def default_transform_def min_scale_value
  by (simp add: normalize_f32_def f32_clamp_def finite_or_zero_def)

lemma default_adjust_normal: "adjust_normalized default_adjust = default_adjust"
  unfolding adjust_normalized_def default_adjust_def
  by (simp add: normalize_f32_def f32_clamp_def finite_or_zero_def)

lemma layer_errors_from_effect [simp]: "layer_errors (from_effect lid eid ctl cbs pre) = []"
  using normalized_transform_valid [of default_transform] normalized_adjust_valid [of default_adjust]
  by (simp add: layer_errors_def from_effect_def validate_finite_def default_transform_normal
      default_adjust_normal)

end
