(* ===== verification/Scene_Types.thy ===== *)
theory Scene_Types
  imports Scene_Layers
begin

text \<open>
  Scenes and their zones, \<^verbatim>\<open>hypercolor-types/src/scene.rs\<close>: the data, the accessors and
  \<^verbatim>\<open>Scene::validate\<close> with every error it collects. The facts characterise an accepted scene
  declaratively; the scene manager's theories use them to show that its edits keep a scene
  acceptable.
\<close>

section \<open>Data\<close>

type_synonym scene_id = "128 word"
type_synonym zone_id = "128 word"

definition SCENE_DEFAULT :: scene_id where
  "SCENE_DEFAULT = 0"

definition is_default_scene :: "scene_id \<Rightarrow> bool" where
  "is_default_scene i \<longleftrightarrow> i = SCENE_DEFAULT"

datatype zone_role = RoleCustom | RolePrimary | RoleDisplay

record display_face_target =
  df_device_id :: device_id
  df_blend_mode :: blend_mode
  df_opacity :: f32

definition display_face_target_new :: "device_id \<Rightarrow> display_face_target" where
  "display_face_target_new d = \<lparr>df_device_id = d, df_blend_mode = BmAlpha, df_opacity = Fin 1\<rparr>"

definition display_face_target_normalized :: "display_face_target \<Rightarrow> display_face_target" where
  "display_face_target_normalized t = t\<lparr>df_opacity := f32_clamp (df_opacity t) (Fin 0) (Fin 1)\<rparr>"

definition blends_with_effect :: "display_face_target \<Rightarrow> bool" where
  "blends_with_effect t \<longleftrightarrow> blends_with_base (df_blend_mode t)"

record zone =
  z_id :: zone_id
  z_name :: string
  z_description :: "string option"
  z_layers :: "scene_layer list"
  z_layout :: spatial_layout
  z_brightness :: f32
  z_enabled :: bool
  z_color :: "string option"
  z_display_target :: "display_face_target option"
  z_role :: zone_role
  z_controls_version :: u64
  z_layers_version :: u64

datatype unassigned_behavior = UbOff | UbHold | UbFallback zone_id

datatype scene_kind = KindNamed | KindEphemeral
datatype scene_mutation_mode = MutLive | MutSnapshot

datatype easing_function = Linear | EaseIn | EaseOut | EaseInOut | CubicBezier f32 f32 f32 f32
datatype color_interpolation = InterpSrgb | InterpOklab

record transition_spec =
  ts_duration_ms :: u64
  ts_easing :: easing_function
  ts_color_interpolation :: color_interpolation

type_synonym scene_priority = u8

definition PRIORITY_AMBIENT :: scene_priority where "PRIORITY_AMBIENT = 0"
definition PRIORITY_USER :: scene_priority where "PRIORITY_USER = 50"
definition PRIORITY_TRIGGER :: scene_priority where "PRIORITY_TRIGGER = 75"
definition PRIORITY_ALERT :: scene_priority where "PRIORITY_ALERT = 100"

record scene =
  sc_id :: scene_id
  sc_name :: string
  sc_description :: "string option"
  sc_zones :: "zone list"
  sc_zones_revision :: u64
  sc_transition :: transition_spec
  sc_priority :: scene_priority
  sc_enabled :: bool
  sc_metadata :: "(string, string) fmap"
  sc_unassigned_behavior :: unassigned_behavior
  sc_layout_id :: "string option"
  sc_activation_brightness :: "f32 option"
  sc_kind :: scene_kind
  sc_mutation_mode :: scene_mutation_mode

subsection \<open>Equality of zones\<close>

definition target_reflexive :: "display_face_target \<Rightarrow> bool" where
  "target_reflexive t \<longleftrightarrow> df_opacity t \<noteq> NaN"

definition target_eq :: "display_face_target option \<Rightarrow> display_face_target option \<Rightarrow> bool" where
  "target_eq a b \<longleftrightarrow> a = b \<and> pred_option target_reflexive a"

definition zone_reflexive :: "zone \<Rightarrow> bool" where
  "zone_reflexive z \<longleftrightarrow>
     list_all layer_reflexive (z_layers z) \<and> layout_reflexive (z_layout z)
     \<and> z_brightness z \<noteq> NaN \<and> pred_option target_reflexive (z_display_target z)"

text \<open>\<open>==\<close> on \<^verbatim>\<open>[Zone]\<close>.\<close>

definition zones_eq :: "zone list \<Rightarrow> zone list \<Rightarrow> bool" where
  "zones_eq a b \<longleftrightarrow> a = b \<and> list_all zone_reflexive a"

section \<open>Accessors\<close>

definition zone_effect_ids :: "zone \<Rightarrow> effect_id list" where
  "zone_effect_ids z =
     concat (map (\<lambda>l. case ly_source l of SrcEffect e _ _ _ \<Rightarrow> [e] | _ \<Rightarrow> []) (z_layers z))"

definition has_effect :: "zone \<Rightarrow> effect_id \<Rightarrow> bool" where
  "has_effect z e \<longleftrightarrow> e \<in> set (zone_effect_ids z)"

definition targets_device :: "device_id \<Rightarrow> zone \<Rightarrow> bool" where
  "targets_device d z \<longleftrightarrow> (case z_display_target z of None \<Rightarrow> False | Some t \<Rightarrow> df_device_id t = d)"

definition is_display_for :: "device_id \<Rightarrow> zone \<Rightarrow> bool" where
  "is_display_for d z \<longleftrightarrow> z_role z = RoleDisplay \<and> targets_device d z"

definition primary_zone :: "scene \<Rightarrow> zone option" where
  "primary_zone sc = find (\<lambda>z. z_role z = RolePrimary) (sc_zones sc)"

definition display_zone_for :: "scene \<Rightarrow> device_id \<Rightarrow> zone option" where
  "display_zone_for sc d = find (is_display_for d) (sc_zones sc)"

definition blocks_runtime_mutation :: "scene \<Rightarrow> bool" where
  "blocks_runtime_mutation sc \<longleftrightarrow> sc_kind sc = KindNamed \<and> sc_mutation_mode sc = MutSnapshot"

section \<open>Validation\<close>

datatype scene_error =
    NameEmpty
  | NameTooLong
  | ClaimedByBoth string string string
  | ActivationBrightness f32
  | LayoutIdInvalid string
  | ManyPrimaries
  | DuplicateLayerId string layer_id
  | LayerInvalid layer_id string layer_error
  | DisplayWithoutTarget string
  | TargetOnLedZone string zone_role
  | DuplicateDisplay device_id zone_id zone_id

definition chars_count :: "string \<Rightarrow> nat" where
  "chars_count s = length (filter (\<lambda>c. byte_of c < 128 \<or> 192 \<le> byte_of c) s)"

text \<open>\<^verbatim>\<open>s.chars().any(char::is_control)\<close>: C0, DEL, and C1 in its two-byte encoding.\<close>

fun has_control :: "string \<Rightarrow> bool" where
  "has_control [] = False"
| "has_control (c # s) =
     (byte_of c < 32 \<or> byte_of c = 127
      \<or> (byte_of c = 194 \<and> (case s of [] \<Rightarrow> False | d # _ \<Rightarrow> 128 \<le> byte_of d \<and> byte_of d < 160))
      \<or> has_control s)"

definition validate_layout_id :: "string \<Rightarrow> string + unit" where
  "validate_layout_id s =
     (if s = [] then Inl ''must not be empty''
      else if 128 < length s then Inl ''too long''
      else if has_control s then Inl ''control characters are not allowed''
      else if trim s \<noteq> s then Inl ''leading or trailing whitespace is not allowed''
      else Inr ())"

definition validate_layers_step ::
    "string \<Rightarrow> layer_id set \<times> scene_error list \<Rightarrow> scene_layer \<Rightarrow> layer_id set \<times> scene_error list" where
  "validate_layers_step nm st l =
     (case st of (seen, errs) \<Rightarrow>
        (insert (ly_id l) seen,
         errs @ (if ly_id l \<in> seen then [DuplicateLayerId nm (ly_id l)] else [])
              @ map (LayerInvalid (ly_id l) nm) (layer_errors l)))"

definition validate_layers :: "zone \<Rightarrow> scene_error list" where
  "validate_layers z = snd (foldl (validate_layers_step (z_name z)) ({}, []) (z_layers z))"

definition claim_output ::
    "string \<Rightarrow> (string, string) fmap \<times> scene_error list \<Rightarrow> zone_output
     \<Rightarrow> (string, string) fmap \<times> scene_error list" where
  "claim_output nm st out =
     (case st of (seen, errs) \<Rightarrow>
        (fmupd (out_id out) nm seen,
         case fmlookup seen (out_id out) of
           None \<Rightarrow> errs
         | Some existing \<Rightarrow> errs @ [ClaimedByBoth (out_id out) existing nm]))"

definition claim_zone ::
    "(string, string) fmap \<times> scene_error list \<Rightarrow> zone \<Rightarrow> (string, string) fmap \<times> scene_error list" where
  "claim_zone st z = foldl (claim_output (z_name z)) st (lay_zones (z_layout z))"

definition validate_zone_exclusivity :: "scene \<Rightarrow> scene_error list" where
  "validate_zone_exclusivity sc = snd (foldl claim_zone (fmempty, []) (sc_zones sc))"

definition validate_zone ::
    "(device_id, zone_id) fmap \<times> scene_error list \<Rightarrow> zone \<Rightarrow> (device_id, zone_id) fmap \<times> scene_error list" where
  "validate_zone st z =
     (case st of (targets, errs0) \<Rightarrow>
        let errs = errs0 @ validate_layers z
        in case (z_role z, z_display_target z) of
             (RoleDisplay, None) \<Rightarrow> (targets, errs @ [DisplayWithoutTarget (z_name z)])
           | (RoleDisplay, Some t) \<Rightarrow>
               (fmupd (df_device_id t) (z_id z) targets,
                case fmlookup targets (df_device_id t) of
                  None \<Rightarrow> errs
                | Some existing \<Rightarrow> errs @ [DuplicateDisplay (df_device_id t) existing (z_id z)])
           | (role, Some _) \<Rightarrow> (targets, errs @ [TargetOnLedZone (z_name z) role])
           | (_, None) \<Rightarrow> (targets, errs))"

definition validate_brightness :: "f32 option \<Rightarrow> scene_error list" where
  "validate_brightness b =
     (case b of
        None \<Rightarrow> []
      | Some v \<Rightarrow> if is_finite_f v \<and> f64_le (Fin 0) v \<and> f64_le v (Fin 1) then [] else [ActivationBrightness v])"

definition validate_layout_ref :: "string option \<Rightarrow> scene_error list" where
  "validate_layout_ref l =
     (case l of
        None \<Rightarrow> []
      | Some s \<Rightarrow> (case validate_layout_id s of Inl e \<Rightarrow> [LayoutIdInvalid e] | Inr _ \<Rightarrow> []))"

definition primary_count :: "zone list \<Rightarrow> nat" where
  "primary_count zs = length (filter (\<lambda>z. z_role z = RolePrimary) zs)"

definition scene_errors :: "scene \<Rightarrow> scene_error list" where
  "scene_errors sc =
     (if trim (sc_name sc) = [] then [NameEmpty] else [])
     @ (if 128 < chars_count (sc_name sc) then [NameTooLong] else [])
     @ validate_zone_exclusivity sc
     @ validate_brightness (sc_activation_brightness sc)
     @ validate_layout_ref (sc_layout_id sc)
     @ (if 1 < primary_count (sc_zones sc) then [ManyPrimaries] else [])
     @ snd (foldl validate_zone (fmempty, []) (sc_zones sc))"

definition scene_validate :: "scene \<Rightarrow> scene_error list + unit" where
  "scene_validate sc = (if scene_errors sc = [] then Inr () else Inl (scene_errors sc))"

section \<open>Accepted scenes\<close>

text \<open>The declarative content of validation, zone by zone and across the zones.\<close>

definition scene_output_ids :: "zone list \<Rightarrow> string list" where
  "scene_output_ids zs = concat (map (\<lambda>z. layout_output_ids (z_layout z)) zs)"

definition display_devices :: "zone list \<Rightarrow> device_id list" where
  "display_devices zs =
     map (\<lambda>z. df_device_id (the (z_display_target z))) (filter (\<lambda>z. z_role z = RoleDisplay) zs)"

definition layers_ok :: "scene_layer list \<Rightarrow> bool" where
  "layers_ok ls \<longleftrightarrow> distinct (map ly_id ls) \<and> list_all (\<lambda>l. layer_errors l = []) ls"

definition zone_ok :: "zone \<Rightarrow> bool" where
  "zone_ok z \<longleftrightarrow> layers_ok (z_layers z) \<and> (z_role z = RoleDisplay \<longleftrightarrow> z_display_target z \<noteq> None)"

definition zones_ok :: "zone list \<Rightarrow> bool" where
  "zones_ok zs \<longleftrightarrow>
     distinct (scene_output_ids zs) \<and> primary_count zs \<le> 1 \<and> list_all zone_ok zs
     \<and> distinct (display_devices zs)"

definition header_ok :: "scene \<Rightarrow> bool" where
  "header_ok sc \<longleftrightarrow>
     trim (sc_name sc) \<noteq> [] \<and> chars_count (sc_name sc) \<le> 128
     \<and> validate_brightness (sc_activation_brightness sc) = [] \<and> validate_layout_ref (sc_layout_id sc) = []"

lemma claim_outputs:
  "foldl (claim_output nm) (seen, errs) outs = (seen', errs') \<Longrightarrow>
     fmdom' seen' = fmdom' seen \<union> set (map out_id outs)
     \<and> (errs' = [] \<longleftrightarrow> errs = [] \<and> distinct (map out_id outs) \<and> set (map out_id outs) \<inter> fmdom' seen = {})"
proof (induction outs arbitrary: seen errs)
  case (Cons out outs)
  obtain errs1 where step: "claim_output nm (seen, errs) out = (fmupd (out_id out) nm seen, errs1)"
    and e1: "errs1 = [] \<longleftrightarrow> errs = [] \<and> out_id out \<notin> fmdom' seen"
    by (cases "fmlookup seen (out_id out)")
      (auto simp: claim_output_def fmlookup_dom'_iff)
  with Cons.prems have "foldl (claim_output nm) (fmupd (out_id out) nm seen, errs1) outs = (seen', errs')"
    by simp
  from Cons.IH [OF this] e1 show ?case by auto
qed auto

lemma scene_output_ids_simps [simp]:
  "scene_output_ids [] = []"
  "scene_output_ids (z # zs) = layout_output_ids (z_layout z) @ scene_output_ids zs"
  by (simp_all add: scene_output_ids_def)

lemma claim_zones:
  "foldl claim_zone (seen, errs) zs = (seen', errs') \<Longrightarrow>
     fmdom' seen' = fmdom' seen \<union> set (scene_output_ids zs)
     \<and> (errs' = [] \<longleftrightarrow> errs = [] \<and> distinct (scene_output_ids zs) \<and> set (scene_output_ids zs) \<inter> fmdom' seen = {})"
proof (induction zs arbitrary: seen errs)
  case (Cons z zs)
  obtain seen1 errs1 where step: "claim_zone (seen, errs) z = (seen1, errs1)"
    by (cases "claim_zone (seen, errs) z")
  note one = claim_outputs [OF step [unfolded claim_zone_def]]
  from Cons.prems step have "foldl claim_zone (seen1, errs1) zs = (seen', errs')" by simp
  note rest = Cons.IH [OF this]
  have "fmdom' seen' = fmdom' seen \<union> set (scene_output_ids (z # zs))"
    using conjunct1 [OF one] conjunct1 [OF rest] by (simp add: Un_assoc)
  moreover have "set (scene_output_ids zs) \<inter> fmdom' seen1 = {} \<longleftrightarrow>
      set (layout_output_ids (z_layout z)) \<inter> set (scene_output_ids zs) = {}
      \<and> set (scene_output_ids zs) \<inter> fmdom' seen = {}"
    using conjunct1 [OF one] by (simp add: Int_Un_distrib Int_commute conj_commute)
  then have "errs' = [] \<longleftrightarrow> errs = [] \<and> distinct (scene_output_ids (z # zs))
      \<and> set (scene_output_ids (z # zs)) \<inter> fmdom' seen = {}"
    using conjunct2 [OF one] conjunct2 [OF rest] by (auto simp del: set_map)
  ultimately show ?case by blast
qed auto

lemma exclusivity_iff: "validate_zone_exclusivity sc = [] \<longleftrightarrow> distinct (scene_output_ids (sc_zones sc))"
  using claim_zones [OF surjective_pairing, of fmempty "[]" "sc_zones sc"]
  by (simp add: validate_zone_exclusivity_def)

lemma layers_fold:
  "foldl (validate_layers_step nm) (seen, errs) ls = (seen', errs') \<Longrightarrow>
     errs' = [] \<longleftrightarrow> errs = [] \<and> layers_ok ls \<and> set (map ly_id ls) \<inter> seen = {}"
proof (induction ls arbitrary: seen errs)
  case (Cons l ls)
  from Cons.IH [of "insert (ly_id l) seen"] Cons.prems show ?case
    by (auto simp: validate_layers_step_def layers_ok_def)
qed (auto simp: layers_ok_def)

lemma validate_layers_iff: "validate_layers z = [] \<longleftrightarrow> layers_ok (z_layers z)"
  using layers_fold [OF surjective_pairing, of "z_name z" "{}" "[]" "z_layers z"]
  by (simp add: validate_layers_def)

lemma validate_zone_step:
  "validate_zone (targets, errs) z = (targets', errs') \<Longrightarrow>
     fmdom' targets \<subseteq> fmdom' targets'
     \<and> (zone_ok z \<longrightarrow> fmdom' targets' = fmdom' targets \<union> set (display_devices [z]))
     \<and> (errs' = [] \<longleftrightarrow> errs = [] \<and> zone_ok z \<and> set (display_devices [z]) \<inter> fmdom' targets = {})"
  by (cases "z_role z"; cases "z_display_target z")
    (auto simp: validate_zone_def Let_def zone_ok_def display_devices_def validate_layers_iff fmlookup_dom'_iff
      split: option.splits)

lemma validate_zones:
  "foldl validate_zone (targets, errs) zs = (targets', errs') \<Longrightarrow>
     errs' = [] \<longleftrightarrow> errs = [] \<and> list_all zone_ok zs \<and> distinct (display_devices zs)
                    \<and> set (display_devices zs) \<inter> fmdom' targets = {}"
proof (induction zs arbitrary: targets errs)
  case (Cons z zs)
  obtain targets1 errs1 where step: "validate_zone (targets, errs) z = (targets1, errs1)"
    by (cases "validate_zone (targets, errs) z")
  have split: "display_devices (z # zs) = display_devices [z] @ display_devices zs"
    by (simp add: display_devices_def)
  have single: "distinct (display_devices [z])"
    by (simp add: display_devices_def)
  from Cons.prems step have "foldl validate_zone (targets1, errs1) zs = (targets', errs')" by simp
  from Cons.IH [OF this] validate_zone_step [OF step] single show ?case
    unfolding split by auto
qed (auto simp: display_devices_def)

theorem scene_errors_iff: "scene_errors sc = [] \<longleftrightarrow> header_ok sc \<and> zones_ok (sc_zones sc)"
  using validate_zones [OF surjective_pairing, of fmempty "[]" "sc_zones sc"]
  by (auto simp: scene_errors_def header_ok_def zones_ok_def exclusivity_iff not_less)

lemma scene_validate_Inr: "scene_validate sc = Inr () \<longleftrightarrow> header_ok sc \<and> zones_ok (sc_zones sc)"
  by (simp add: scene_validate_def scene_errors_iff)

end
