(* ===== verification/Scene_Stack.thy ===== *)
theory Scene_Stack
  imports Scene_Types "HOL-Library.Product_Lexorder" "HOL-Library.Multiset"
begin

text \<open>
  The priority stack of active scenes, \<^verbatim>\<open>hypercolor-core/src/scene/priority.rs\<close>. The stack is
  the list of its entries, the winner first; \<^verbatim>\<open>Instant::now()\<close> is the argument \<open>now\<close> of
  \<open>stack_push\<close>, in nanoseconds. \<^verbatim>\<open>slice::sort_by\<close> is a stable sort, so \<^verbatim>\<open>sort\<close> is HOL's
  \<open>sort_key\<close> on the key that orders entries the way the comparison closure does.

  The facts show that the entry on top has the highest priority and, among those, the latest
  instant, and what taking a scene off the stack leaves.
\<close>

section \<open>Operations\<close>

record stack_entry =
  se_scene_id :: scene_id
  se_priority :: scene_priority
  se_entered_at :: instant

type_synonym priority_stack = "stack_entry list"

definition rank_key :: "stack_entry \<Rightarrow> int \<times> int" where
  "rank_key e = (- uint (se_priority e), - int (se_entered_at e))"

definition stack_sort :: "priority_stack \<Rightarrow> priority_stack" where
  "stack_sort = sort_key rank_key"

definition stack_push :: "priority_stack \<Rightarrow> scene_id \<Rightarrow> scene_priority \<Rightarrow> instant \<Rightarrow> priority_stack" where
  "stack_push s i p now =
     stack_sort (s @ [\<lparr>se_scene_id = i, se_priority = p, se_entered_at = now\<rparr>])"

definition stack_pop :: "priority_stack \<Rightarrow> priority_stack \<times> stack_entry option" where
  "stack_pop s = (case s of [] \<Rightarrow> ([], None) | e # es \<Rightarrow> (es, Some e))"

definition stack_remove :: "priority_stack \<Rightarrow> scene_id \<Rightarrow> priority_stack \<times> bool" where
  "stack_remove s i = (let s' = filter (\<lambda>e. se_scene_id e \<noteq> i) s in (s', length s' < length s))"

definition stack_peek :: "priority_stack \<Rightarrow> stack_entry option" where
  "stack_peek s = (case s of [] \<Rightarrow> None | e # _ \<Rightarrow> Some e)"

definition stack_clear :: "priority_stack \<Rightarrow> priority_stack" where
  "stack_clear s = []"

datatype stack_op = Push scene_id scene_priority instant | Pop | Remove scene_id | Clear

primrec stack_exec :: "priority_stack \<Rightarrow> stack_op \<Rightarrow> priority_stack" where
  "stack_exec s (Push i p now) = stack_push s i p now"
| "stack_exec s Pop = fst (stack_pop s)"
| "stack_exec s (Remove i) = fst (stack_remove s i)"
| "stack_exec s Clear = stack_clear s"

section \<open>Order\<close>

text \<open>\<open>a\<close> may stand above \<open>b\<close>.\<close>

definition outranks :: "stack_entry \<Rightarrow> stack_entry \<Rightarrow> bool" where
  "outranks a b \<longleftrightarrow>
     se_priority b < se_priority a
     \<or> (se_priority b = se_priority a \<and> se_entered_at b \<le> se_entered_at a)"

definition stack_sorted :: "priority_stack \<Rightarrow> bool" where
  "stack_sorted s \<longleftrightarrow> sorted_wrt outranks s"

lemma rank_key_le: "rank_key a \<le> rank_key b \<longleftrightarrow> outranks a b"
  by (auto simp: rank_key_def outranks_def less_eq_prod_def word_less_def word_uint_eq_iff)

lemma stack_sorted_key: "stack_sorted s \<longleftrightarrow> sorted (map rank_key s)"
  by (simp add: stack_sorted_def sorted_map rank_key_le)

lemma stack_sort_id: "stack_sorted s \<Longrightarrow> stack_sort s = s"
  by (simp add: stack_sort_def stack_sorted_key sort_key_id_if_sorted)

lemma stack_sorted_push [simp]: "stack_sorted (stack_push s i p now)"
  by (simp add: stack_push_def stack_sort_def stack_sorted_key)

lemma mset_stack_push [simp]:
  "mset (stack_push s i p now)
     = add_mset \<lparr>se_scene_id = i, se_priority = p, se_entered_at = now\<rparr> (mset s)"
  by (simp add: stack_push_def stack_sort_def)

lemma set_stack_push [simp]:
  "set (stack_push s i p now) = insert \<lparr>se_scene_id = i, se_priority = p, se_entered_at = now\<rparr> (set s)"
  by (simp add: stack_push_def stack_sort_def)

lemma stack_sorted_exec: "stack_sorted s \<Longrightarrow> stack_sorted (stack_exec s opn)"
proof (cases opn)
  case Pop
  assume "stack_sorted s"
  then show ?thesis using Pop by (cases s) (simp_all add: stack_pop_def stack_sorted_def)
next
  case (Push i p now)
  then show ?thesis by simp
qed (simp_all add: stack_remove_def stack_clear_def stack_sorted_def sorted_wrt_filter Let_def)

interpretation stack: invariant_machine stack_exec stack_sorted
  by unfold_locales (rule stack_sorted_exec)

text \<open>
  A push leaves the other entries in their order. Taking the scene off again drops it with every
  entry the scene had before, so it gives back the stack exactly when the scene was not on it.
\<close>

lemma filter_push:
  assumes "stack_sorted s" "\<not> P \<lparr>se_scene_id = i, se_priority = p, se_entered_at = now\<rparr>"
  shows "filter P (stack_push s i p now) = filter P s"
proof -
  have "sort_key rank_key s = s" using stack_sort_id [OF assms(1)] by (simp only: stack_sort_def)
  then have "sort_key rank_key (filter P s) = filter P s" by (simp flip: filter_sort)
  then show ?thesis using assms(2) by (simp add: stack_push_def stack_sort_def filter_sort)
qed

lemma remove_push:
  assumes "stack_sorted s"
  shows "stack_remove (stack_push s i p now) i = (filter (\<lambda>e. se_scene_id e \<noteq> i) s, True)"
proof -
  have "length (filter (\<lambda>e. se_scene_id e \<noteq> i) s) < length (stack_push s i p now)"
    using length_filter_le [of "\<lambda>e. se_scene_id e \<noteq> i" s] by (simp add: stack_push_def stack_sort_def less_Suc_eq_le)
  then show ?thesis using filter_push [OF assms, of "\<lambda>e. se_scene_id e \<noteq> i"] by (simp add: stack_remove_def Let_def)
qed

lemma filter_off_stack: "filter (\<lambda>e. se_scene_id e \<noteq> i) s = s \<longleftrightarrow> i \<notin> se_scene_id ` set s"
  by (auto simp: filter_id_conv)

lemma sorted_peek: "stack_sorted (e # s) \<Longrightarrow> x \<in> set s \<Longrightarrow> outranks e x"
  by (simp add: stack_sorted_def)

lemma peek_push:
  assumes sorted: "stack_sorted s"
    and later: "\<And>x. x \<in> set s \<Longrightarrow> se_entered_at x < now"
  shows "stack_peek (stack_push s i p now) =
     (if \<forall>x \<in> set s. se_priority x \<le> p
      then Some \<lparr>se_scene_id = i, se_priority = p, se_entered_at = now\<rparr> else stack_peek s)"
    (is "_ = (if ?top then Some ?e else _)")
proof -
  obtain e es where out: "stack_push s i p now = e # es"
    by (cases "stack_push s i p now") (auto dest: arg_cong [of _ _ set])
  have below: "outranks e x" if "x \<in> set es" for x
    using sorted_peek [of e es] that stack_sorted_push [of s i p now] by (simp add: out)
  have elems: "insert e (set es) = insert ?e (set s)"
    using set_stack_push [of s i p now] by (simp add: out)
  show ?thesis
  proof (cases ?top)
    case True
    have "e = ?e"
    proof (rule ccontr)
      assume "e \<noteq> ?e"
      then have "e \<in> set s" "?e \<in> set es" using elems by auto
      then have "outranks e ?e" "se_priority e \<le> p" "se_entered_at e < now"
        using below True later by auto
      then show False by (auto simp: outranks_def)
    qed
    then show ?thesis using True by (simp add: stack_peek_def out)
  next
    case False
    then obtain x where x: "x \<in> set s" "p < se_priority x" by (auto simp: not_le)
    have "e \<noteq> ?e"
    proof
      assume "e = ?e"
      then have "x \<in> insert ?e (set es)" "x \<noteq> ?e" using x elems by auto
      then have "x \<in> set es" by blast
      then have "outranks ?e x" using below \<open>e = ?e\<close> by blast
      then show False using x(2) by (auto simp: outranks_def)
    qed
    moreover have "filter (\<lambda>x. x \<noteq> ?e) s = s" using later [of ?e] by (auto simp: filter_id_conv)
    ultimately have "\<exists>es'. s = e # es'" using filter_push [OF sorted, of "\<lambda>x. x \<noteq> ?e" i p now] by (auto simp: out)
    then show ?thesis using False by (auto simp: stack_peek_def out)
  qed
qed

text \<open>C20: Whatever was done to the priority stack before, it stands in the order of priority and,
  within a priority, of the latest activation. A scene activated later than everything on the stack,
  on it already or not, becomes the winner exactly when no entry has a higher priority; otherwise
  the winner stays. Removing the scene again takes off this activation and every earlier one of the
  same scene and leaves the entries of the other scenes in their order, so the stack is restored
  exactly when the scene was not on it before.
\<close>

theorem stack_arbitration:
  fixes ops :: "stack_op list"
  defines "s \<equiv> foldl stack_exec [] ops"
  assumes later: "\<forall>x \<in> set s. se_entered_at x < now"
  shows "sorted_wrt outranks s
     \<and> stack_peek (stack_push s i p now) =
           (if \<forall>x \<in> set s. se_priority x \<le> p
            then Some \<lparr>se_scene_id = i, se_priority = p, se_entered_at = now\<rparr> else stack_peek s)
     \<and> stack_remove (stack_push s i p now) i = (filter (\<lambda>e. se_scene_id e \<noteq> i) s, True)
     \<and> (fst (stack_remove (stack_push s i p now) i) = s \<longleftrightarrow> i \<notin> se_scene_id ` set s)"
proof -
  have sorted: "stack_sorted s"
    unfolding s_def by (rule stack.run_inv) (simp add: stack_sorted_def)
  then show ?thesis
    using peek_push [OF sorted, of now i p] later
    unfolding remove_push [OF sorted] fst_conv filter_off_stack stack_sorted_def by blast
qed

theorem stack_arbitration_witness:
  "stack_peek (stack_push (foldl stack_exec [] [Push 1 0 10, Push 2 50 20, Push 3 50 30, Pop]) 1 50 40)
     = Some \<lparr>se_scene_id = 1, se_priority = 50, se_entered_at = 40\<rparr>
   \<and> fst (stack_remove (stack_push (foldl stack_exec [] [Push 1 0 10, Push 2 50 20, Push 3 50 30, Pop]) 1 50 40) 1)
       = [\<lparr>se_scene_id = 2, se_priority = 50, se_entered_at = 20\<rparr>]"
proof -
  let ?ops = "[Push 1 0 10, Push 2 50 20, Push 3 50 30, Pop]"
  have s: "foldl stack_exec [] ?ops =
      [\<lparr>se_scene_id = 2, se_priority = 50, se_entered_at = 20\<rparr>,
       \<lparr>se_scene_id = 1, se_priority = 0, se_entered_at = 10\<rparr>]"
    by (simp add: stack_push_def stack_sort_def stack_pop_def rank_key_def less_eq_prod_def)
  show ?thesis
    using stack_arbitration [of ?ops 40 1 50] by (simp add: s del: foldl_Cons)
qed

text \<open>
  The instants decide only when they differ. Two activations at the same reading of the clock
  keep their order of activation, so the earlier one stays on top.
\<close>

lemma same_instant_keeps_first:
  "stack_peek (stack_push (stack_push [] i p now) j p now)
     = Some \<lparr>se_scene_id = i, se_priority = p, se_entered_at = now\<rparr>"
  by (simp add: stack_push_def stack_sort_def stack_peek_def rank_key_def)

end
