(* ===== verification/Scene_Manager.thy ===== *)
theory Scene_Manager
  imports Scene_Stack "HOL-Library.List_Lexorder" "HOL-Library.Char_ord"
begin

text \<open>
  The scene manager, \<^verbatim>\<open>hypercolor-core/src/scene/mod.rs\<close>: the store of scenes, activation
  through the priority stack, the cache of resolved zones the render thread reads, and every
  edit of a scene's zones, layers and bindings, with \<^verbatim>\<open>display_collisions.rs\<close>.

  An operation takes the manager and returns the new one with its result. Error results are
  values of the \<open>Inl\<close> side and leave the manager as it was wherever the source returns before
  its first write. Operations whose source has an \<^verbatim>\<open>expect\<close> return an option, \<open>None\<close> being the
  panic. Identifiers the source mints (\<^verbatim>\<open>ZoneId::new\<close>, \<^verbatim>\<open>SceneLayerId::new\<close>) and readings of the
  clock are arguments.
\<close>

section \<open>Vector operations\<close>

primrec update_first :: "('a \<Rightarrow> bool) \<Rightarrow> ('a \<Rightarrow> 'a) \<Rightarrow> 'a list \<Rightarrow> 'a list" where
  "update_first P f [] = []"
| "update_first P f (x # xs) = (if P x then f x # xs else x # update_first P f xs)"

primrec find_position :: "('a \<Rightarrow> bool) \<Rightarrow> 'a list \<Rightarrow> nat option" where
  "find_position P [] = None"
| "find_position P (x # xs) = (if P x then Some 0 else map_option Suc (find_position P xs))"

definition vec_remove :: "nat \<Rightarrow> 'a list \<Rightarrow> 'a list" where
  "vec_remove i xs = take i xs @ drop (Suc i) xs"

definition vec_insert :: "nat \<Rightarrow> 'a \<Rightarrow> 'a list \<Rightarrow> 'a list" where
  "vec_insert i x xs = take i xs @ x # drop i xs"

section \<open>State\<close>

record transition_plan =
  tp_epoch :: u64
  tp_from_scene :: scene_id
  tp_to_scene :: scene_id
  tp_spec :: transition_spec

record scene_manager =
  m_scenes :: "(scene_id, scene) fmap"
  m_stack :: priority_stack
  m_transition_plan :: "transition_plan option"
  m_transition_epoch :: u64
  m_history :: "scene_id list"
  m_resolved :: "zone list"
  m_resolved_revision :: u64
  m_defaults :: "zone list"

record scene_plan_snapshot =
  sp_generation :: u64
  sp_active_scene_id :: "scene_id option"
  sp_active_scene_name :: "string option"
  sp_transition :: "transition_plan option"
  sp_zones :: "zone list"
  sp_zones_revision :: u64
  sp_unassigned_behavior :: unassigned_behavior

text \<open>The texts of the \<^verbatim>\<open>anyhow\<close> errors.\<close>

datatype scene_fault =
    SceneAlreadyExists scene_id
  | SceneInvalid string "scene_error list"
  | SceneNotFound scene_id
  | SceneKindChanged
  | DefaultRenamed
  | CannotDeleteDefault
  | NoActiveScene
  | ZoneNotInActiveScene zone_id
  | ZoneIsDisplayFace zone_id
  | ZoneVanished

datatype layer_mutation_error =
    LmSceneMissing
  | LmZoneMissing
  | LmLayerMissing layer_id
  | LmDuplicateLayer layer_id
  | LmStale u64 u64
  | LmInvalidLayer "layer_error list"
  | LmInvalidIndex nat nat
  | LmInvalidOrder
  | LmControlBound "string list"

datatype zone_mutation_error =
    ZmSceneMissing
  | ZmZoneMissing
  | ZmOutputMissing
  | ZmSnapshotLocked
  | ZmInvalidRole zone_role
  | ZmLayoutOutputMismatch

record zone_meta_patch =
  zp_name :: "string option"
  zp_description :: "string option option"
  zp_color :: "string option option"
  zp_brightness :: "f32 option"
  zp_enabled :: "bool option"
  zp_make_primary :: "bool option"
  zp_index :: "nat option"

definition scene_manager_new :: scene_manager where
  "scene_manager_new =
     \<lparr>m_scenes = fmempty, m_stack = [], m_transition_plan = None, m_transition_epoch = 0,
      m_history = [], m_resolved = [], m_resolved_revision = 0, m_defaults = []\<rparr>"

section \<open>Helpers on zones and scenes\<close>

definition new_zone ::
    "zone_id \<Rightarrow> string \<Rightarrow> string option \<Rightarrow> spatial_layout \<Rightarrow> string option
     \<Rightarrow> display_face_target option \<Rightarrow> zone_role \<Rightarrow> zone" where
  "new_zone i nm descr lay col tgt role =
     \<lparr>z_id = i, z_name = nm, z_description = descr, z_layers = [], z_layout = lay,
      z_brightness = Fin 1, z_enabled = True, z_color = col, z_display_target = tgt, z_role = role,
      z_controls_version = 0, z_layers_version = 0\<rparr>"

definition default_primary_zone :: "zone_id \<Rightarrow> spatial_layout \<Rightarrow> zone" where
  "default_primary_zone i lay =
     new_zone i ''Main'' (Some ''The scene's main zone.'') lay None None RolePrimary"

definition bump_zones_revision :: "scene \<Rightarrow> scene" where
  "bump_zones_revision sc = sc\<lparr>sc_zones_revision := saturating_succ (sc_zones_revision sc)\<rparr>"

definition bump_layers_version :: "zone \<Rightarrow> zone" where
  "bump_layers_version z = z\<lparr>z_layers_version := saturating_succ (z_layers_version z)\<rparr>"

definition bump_controls_version :: "zone \<Rightarrow> zone" where
  "bump_controls_version z = z\<lparr>z_controls_version := saturating_succ (z_controls_version z)\<rparr>"

definition first_effect_layer :: "zone \<Rightarrow> scene_layer option" where
  "first_effect_layer z = find (\<lambda>l. is_SrcEffect (ly_source l)) (z_layers z)"

definition effect_layer_id :: "zone \<Rightarrow> effect_id option" where
  "effect_layer_id z = map_option (\<lambda>l. src_effect_id (ly_source l)) (first_effect_layer z)"

definition effect_control_bindings :: "zone \<Rightarrow> control_bindings" where
  "effect_control_bindings z =
     (case first_effect_layer z of None \<Rightarrow> fmempty | Some l \<Rightarrow> src_bindings (ly_source l))"

definition replace_effect_layer_stack ::
    "layer_id \<Rightarrow> effect_id \<Rightarrow> controls \<Rightarrow> control_bindings \<Rightarrow> preset_id option \<Rightarrow> zone \<Rightarrow> zone" where
  "replace_effect_layer_stack lid eid ctl cbs pre z =
     bump_layers_version (z\<lparr>z_layers := [from_effect lid eid ctl cbs pre]\<rparr>)"

text \<open>
  The three effect applications keep the control bindings only when the effect stays the same.
\<close>

definition apply_effect_layer ::
    "layer_id \<Rightarrow> effect_id \<Rightarrow> controls \<Rightarrow> preset_id option \<Rightarrow> zone \<Rightarrow> zone" where
  "apply_effect_layer lid eid ctl pre z =
     replace_effect_layer_stack lid eid ctl
       (if effect_layer_id z \<noteq> Some eid then fmempty else effect_control_bindings z) pre z"

definition display_zone_has_face :: "zone \<Rightarrow> bool" where
  "display_zone_has_face z \<longleftrightarrow> effect_layer_id z \<noteq> None"

definition is_custom_led :: "zone \<Rightarrow> bool" where
  "is_custom_led z \<longleftrightarrow> z_role z = RoleCustom \<and> z_display_target z = None"

definition scene_has_custom_led_zones :: "scene \<Rightarrow> bool" where
  "scene_has_custom_led_zones sc \<longleftrightarrow> list_ex is_custom_led (sc_zones sc)"

definition primary_zone_follows_active_layout :: "scene \<Rightarrow> bool" where
  "primary_zone_follows_active_layout sc \<longleftrightarrow> \<not> scene_has_custom_led_zones sc"

definition unclaimed_primary_layout :: "scene \<Rightarrow> spatial_layout \<Rightarrow> spatial_layout" where
  "unclaimed_primary_layout sc lay =
     (let claimed = set (scene_output_ids (filter is_custom_led (sc_zones sc)))
      in lay\<lparr>lay_zones := filter (\<lambda>z. out_id z \<notin> claimed) (lay_zones lay)\<rparr>)"

text \<open>\<^verbatim>\<open>ZoneId\<close>'s \<^verbatim>\<open>Display\<close>: the hyphenated hexadecimal form of the UUID.\<close>

definition uuid_display :: "128 word \<Rightarrow> string" where
  "uuid_display u =
     (let h = fmt_hex False 32 (unat u)
      in take 8 h @ ''-'' @ take 4 (drop 8 h) @ ''-'' @ take 4 (drop 12 h) @ ''-''
         @ take 4 (drop 16 h) @ ''-'' @ drop 20 h)"

definition empty_scene_zone_layout :: "zone_id \<Rightarrow> u32 \<Rightarrow> u32 \<Rightarrow> spatial_layout" where
  "empty_scene_zone_layout i w h =
     \<lparr>lay_id = ''zone-'' @ uuid_display i, lay_name = ''Zone Layout'', lay_description = None,
      lay_canvas_width = w, lay_canvas_height = h, lay_zones = [],
      lay_default_sampling_mode = SmBilinear, lay_default_edge_behavior = EbClamp, lay_version = 1\<rparr>"

definition empty_default_spatial_layout :: spatial_layout where
  "empty_default_spatial_layout =
     \<lparr>lay_id = ''default'', lay_name = ''Default Layout'', lay_description = None,
      lay_canvas_width = 640, lay_canvas_height = 480, lay_zones = [],
      lay_default_sampling_mode = SmBilinear, lay_default_edge_behavior = EbClamp, lay_version = 1\<rparr>"

datatype output_placement = AutoGrid | Preserve

text \<open>\<^verbatim>\<open>i32::try_from(slot).unwrap_or(0)\<close>.\<close>

definition slot_order :: "nat \<Rightarrow> 32 word" where
  "slot_order slot = (if slot < 2 ^ 31 then of_nat slot else 0)"

definition reset_device_zone_placement :: "nat \<Rightarrow> zone_output \<Rightarrow> zone_output" where
  "reset_device_zone_placement slot z =
     (let col = f32_of_rat (of_nat (slot mod 5)); row = f32_of_rat (of_nat (slot div 5));
          x = f64_min (f32_add (f32_of_rat (1/5)) (f32_mul col (f32_of_rat (3/20)))) (f32_of_rat (9/10));
          y = f32_clamp (f32_add (f32_of_rat (1/5)) (f32_mul row (f32_of_rat (1/5))))
                (f32_of_rat (1/10)) (f32_of_rat (9/10))
      in z\<lparr>out_position := (x, y), out_size := (f32_of_rat (1/5), f32_of_rat (3/20)),
           out_rotation := Fin 0, out_scale := Fin 1, out_display_order := slot_order slot\<rparr>)"

definition align_led_zone :: "spatial_layout \<Rightarrow> bool \<Rightarrow> zone \<Rightarrow> zone \<times> bool" where
  "align_led_zone lay custom z =
     (if z_display_target z \<noteq> None then (z, False)
      else if \<not> custom then
        if z_role z = RolePrimary \<and> \<not> layout_eq (z_layout z) lay then (z\<lparr>z_layout := lay\<rparr>, True)
        else (z, False)
      else if lay_canvas_width (z_layout z) = lay_canvas_width lay
              \<and> lay_canvas_height (z_layout z) = lay_canvas_height lay then (z, False)
      else (z\<lparr>z_layout := (z_layout z)\<lparr>lay_canvas_width := lay_canvas_width lay,
                                       lay_canvas_height := lay_canvas_height lay\<rparr>\<rparr>, True))"

section \<open>Active scene and resolved zones\<close>

definition active_scene_id :: "scene_manager \<Rightarrow> scene_id option" where
  "active_scene_id M = map_option se_scene_id (stack_peek (m_stack M))"

definition active_scene :: "scene_manager \<Rightarrow> scene option" where
  "active_scene M = (case active_scene_id M of None \<Rightarrow> None | Some i \<Rightarrow> fmlookup (m_scenes M) i)"

definition default_covered :: "scene_manager \<Rightarrow> device_id \<Rightarrow> bool" where
  "default_covered M d =
     (case active_scene M of
        None \<Rightarrow> False
      | Some sc \<Rightarrow> (case display_zone_for sc d of None \<Rightarrow> False | Some z \<Rightarrow> effect_layer_id z \<noteq> None))"

definition next_zones :: "scene_manager \<Rightarrow> zone list" where
  "next_zones M =
     (case active_scene M of None \<Rightarrow> [] | Some sc \<Rightarrow> sc_zones sc)
     @ filter (\<lambda>z. case z_display_target z of
                     None \<Rightarrow> False
                   | Some t \<Rightarrow> \<not> default_covered M (df_device_id t)) (m_defaults M)"

definition refresh_resolved_zones :: "scene_manager \<Rightarrow> scene_manager" where
  "refresh_resolved_zones M =
     M\<lparr>m_resolved_revision :=
         (if zones_eq (m_resolved M) (next_zones M) then m_resolved_revision M
          else saturating_succ (m_resolved_revision M)),
       m_resolved := next_zones M\<rparr>"

definition invalidate_resolved_zones :: "scene_manager \<Rightarrow> scene_manager" where
  "invalidate_resolved_zones M =
     M\<lparr>m_resolved_revision := saturating_succ (m_resolved_revision M)\<rparr>"

definition plan_snapshot :: "scene_manager \<Rightarrow> u64 \<Rightarrow> scene_plan_snapshot" where
  "plan_snapshot M generation =
     \<lparr>sp_generation = generation, sp_active_scene_id = active_scene_id M,
      sp_active_scene_name = map_option sc_name (active_scene M),
      sp_transition = m_transition_plan M, sp_zones = m_resolved M,
      sp_zones_revision = m_resolved_revision M,
      sp_unassigned_behavior =
        (case active_scene M of None \<Rightarrow> UbOff | Some sc \<Rightarrow> sc_unassigned_behavior sc)\<rparr>"

text \<open>Writing a scene back, and the two ways its edit reaches the cache.\<close>

definition put_scene :: "scene_manager \<Rightarrow> scene_id \<Rightarrow> scene \<Rightarrow> scene_manager" where
  "put_scene M i sc = M\<lparr>m_scenes := fmupd i sc (m_scenes M)\<rparr>"

definition commit_scene :: "scene_manager \<Rightarrow> scene_id \<Rightarrow> scene \<Rightarrow> scene_manager" where
  "commit_scene M i sc =
     (if active_scene_id M = Some i then refresh_resolved_zones (put_scene M i sc)
      else put_scene M i sc)"

section \<open>Scenes\<close>

definition install_default_scene :: "scene_manager \<Rightarrow> spatial_layout \<Rightarrow> zone_id \<Rightarrow> instant \<Rightarrow> scene_manager" where
  "install_default_scene M lay zid now =
     (if fmlookup (m_scenes M) SCENE_DEFAULT \<noteq> None then M
      else
        let default =
          \<lparr>sc_id = SCENE_DEFAULT, sc_name = ''Default'',
           sc_description = Some ''Auto-managed default scene.'',
           sc_zones = [default_primary_zone zid lay], sc_zones_revision = 0,
           sc_transition = \<lparr>ts_duration_ms = 1000, ts_easing = Linear, ts_color_interpolation = InterpOklab\<rparr>,
           sc_priority = PRIORITY_AMBIENT, sc_enabled = True, sc_metadata = fmempty,
           sc_unassigned_behavior = UbOff, sc_layout_id = None, sc_activation_brightness = None,
           sc_kind = KindEphemeral, sc_mutation_mode = MutLive\<rparr>;
          M1 = put_scene M SCENE_DEFAULT default
        in refresh_resolved_zones
             (M1\<lparr>m_stack := stack_push (m_stack M1) SCENE_DEFAULT PRIORITY_AMBIENT now\<rparr>))"

definition with_default_layout :: "spatial_layout \<Rightarrow> zone_id \<Rightarrow> instant \<Rightarrow> scene_manager" where
  "with_default_layout lay zid now = install_default_scene scene_manager_new lay zid now"

definition scene_create :: "scene_manager \<Rightarrow> scene \<Rightarrow> scene_manager \<times> (scene_fault + unit)" where
  "scene_create M sc =
     (if fmlookup (m_scenes M) (sc_id sc) \<noteq> None then (M, Inl (SceneAlreadyExists (sc_id sc)))
      else case scene_validate sc of
        Inl errs \<Rightarrow> (M, Inl (SceneInvalid (sc_name sc) errs))
      | Inr _ \<Rightarrow> (put_scene M (sc_id sc) sc, Inr ()))"

definition scene_update :: "scene_manager \<Rightarrow> scene \<Rightarrow> scene_manager \<times> (scene_fault + unit)" where
  "scene_update M sc =
     (case fmlookup (m_scenes M) (sc_id sc) of
        None \<Rightarrow> (M, Inl (SceneNotFound (sc_id sc)))
      | Some existing \<Rightarrow>
          if sc_kind existing \<noteq> sc_kind sc then (M, Inl SceneKindChanged)
          else if is_default_scene (sc_id sc) \<and> sc_name sc \<noteq> sc_name existing then (M, Inl DefaultRenamed)
          else case scene_validate sc of
            Inl errs \<Rightarrow> (M, Inl (SceneInvalid (sc_name sc) errs))
          | Inr _ \<Rightarrow> (commit_scene M (sc_id sc) sc, Inr ()))"

definition scene_delete :: "scene_manager \<Rightarrow> scene_id \<Rightarrow> scene_manager \<times> (scene_fault + scene)" where
  "scene_delete M i =
     (if is_default_scene i then (M, Inl CannotDeleteDefault)
      else case fmlookup (m_scenes M) i of
        None \<Rightarrow> (M, Inl (SceneNotFound i))
      | Some sc \<Rightarrow>
          (refresh_resolved_zones
             (M\<lparr>m_scenes := fmdrop i (m_scenes M), m_stack := fst (stack_remove (m_stack M) i),
                m_history := filter (\<lambda>s. s \<noteq> i) (m_history M)\<rparr>), Inr sc))"

definition scene_activate ::
    "scene_manager \<Rightarrow> scene_id \<Rightarrow> transition_spec option \<Rightarrow> instant \<Rightarrow> scene_manager \<times> (scene_fault + unit)" where
  "scene_activate M i override now =
     (case fmlookup (m_scenes M) i of
        None \<Rightarrow> (M, Inl (SceneNotFound i))
      | Some sc \<Rightarrow>
          let spec = (case override of None \<Rightarrow> sc_transition sc | Some s \<Rightarrow> s);
              to_id = sc_id sc;
              from_state = active_scene_id M;
              M1 = M\<lparr>m_history := (case from_state of None \<Rightarrow> m_history M | Some p \<Rightarrow> p # m_history M),
                     m_stack := stack_push (m_stack M) to_id (sc_priority sc) now\<rparr>;
              M2 = (case from_state of
                      None \<Rightarrow> M1\<lparr>m_transition_plan := None\<rparr>
                    | Some from_id \<Rightarrow>
                        if 0 < ts_duration_ms spec then
                          let epoch = saturating_succ (m_transition_epoch M1)
                          in M1\<lparr>m_transition_epoch := epoch,
                                m_transition_plan :=
                                  Some \<lparr>tp_epoch = epoch, tp_from_scene = from_id, tp_to_scene = to_id,
                                        tp_spec = spec\<rparr>\<rparr>
                        else M1\<lparr>m_transition_plan := None\<rparr>)
          in (refresh_resolved_zones M2, Inr ()))"

definition scene_deactivate_current :: "scene_manager \<Rightarrow> scene_manager" where
  "scene_deactivate_current M =
     (if length (m_stack M) = 1 \<and> (case active_scene_id M of None \<Rightarrow> False | Some i \<Rightarrow> is_default_scene i)
      then M
      else
        let (s', popped) = stack_pop (m_stack M);
            M1 = M\<lparr>m_stack := s'\<rparr>;
            M2 = (case popped of
                    None \<Rightarrow> M1
                  | Some e \<Rightarrow> M1\<lparr>m_transition_plan := None,
                               m_history := filter (\<lambda>s. s \<noteq> se_scene_id e) (m_history M1)\<rparr>)
        in refresh_resolved_zones M2)"

end
