(* ===== verification/Scene_Edits.thy ===== *)
theory Scene_Edits
  imports Scene_Manager
begin

text \<open>
  The scene manager's edits of zones, outputs, layers and display faces, in the order of
  \<^verbatim>\<open>scene/mod.rs\<close>. An
  edit looks its scene up, changes the zones and writes the scene back; the cache of resolved
  zones is refreshed when the scene is the active one.
\<close>

section \<open>Effects on zones of the active scene\<close>

definition find_zone :: "zone_id \<Rightarrow> scene \<Rightarrow> zone option" where
  "find_zone i sc = find (\<lambda>z. z_id z = i) (sc_zones sc)"

definition edit_zone :: "zone_id \<Rightarrow> (zone \<Rightarrow> zone) \<Rightarrow> scene \<Rightarrow> scene" where
  "edit_zone i f sc = sc\<lparr>sc_zones := update_first (\<lambda>z. z_id z = i) f (sc_zones sc)\<rparr>"

definition next_primary_layout :: "scene \<Rightarrow> spatial_layout \<Rightarrow> spatial_layout" where
  "next_primary_layout sc full =
     (if scene_has_custom_led_zones sc
      then case primary_zone sc of
             Some z \<Rightarrow> z_layout z
           | None \<Rightarrow> unclaimed_primary_layout sc full
      else full)"

definition upsert_primary_zone ::
    "scene_manager \<Rightarrow> effect_id \<Rightarrow> controls \<Rightarrow> preset_id option \<Rightarrow> spatial_layout \<Rightarrow> zone_id \<Rightarrow> layer_id
     \<Rightarrow> (scene_manager \<times> (scene_fault + zone)) option" where
  "upsert_primary_zone M eid ctl pre full zid lid =
     (case active_scene_id M of
        None \<Rightarrow> Some (M, Inl NoActiveScene)
      | Some i \<Rightarrow>
     (case fmlookup (m_scenes M) i of
        None \<Rightarrow> Some (M, Inl NoActiveScene)
      | Some sc \<Rightarrow>
          let lay = next_primary_layout sc full;
              (zs, structural) =
                (case primary_zone sc of
                   Some z \<Rightarrow>
                     (update_first (\<lambda>z. z_role z = RolePrimary)
                        (\<lambda>z. bump_controls_version
                               ((apply_effect_layer lid eid ctl pre z)
                                  \<lparr>z_layout := (if layout_eq (z_layout z) lay then z_layout z else lay),
                                   z_enabled := True, z_display_target := None, z_role := RolePrimary\<rparr>))
                        (sc_zones sc),
                      \<not> layout_eq (z_layout z) lay)
                 | None \<Rightarrow>
                     (sc_zones sc
                      @ [replace_effect_layer_stack lid eid ctl fmempty pre (default_primary_zone zid lay)],
                      True));
              sc1 = sc\<lparr>sc_zones := zs\<rparr>;
              sc2 = (if structural then bump_zones_revision sc1 else sc1);
              M' = refresh_resolved_zones (put_scene M i sc2)
          in (case Option.bind (active_scene M') primary_zone of
                None \<Rightarrow> None
              | Some z \<Rightarrow> Some (M', Inr z))))"

definition face_zone_name :: "string \<Rightarrow> string" where
  "face_zone_name device_name = device_name @ '' Face''"

text \<open>The lookup of the display zone after an edit, whose absence is the source's panic.\<close>

definition return_display_zone ::
    "scene_manager \<Rightarrow> device_id \<Rightarrow> (scene_manager \<times> (scene_fault + zone)) option" where
  "return_display_zone M d =
     (case Option.bind (active_scene M) (\<lambda>sc. display_zone_for sc d) of
        None \<Rightarrow> None
      | Some z \<Rightarrow> Some (M, Inr z))"

definition upsert_display_zone ::
    "scene_manager \<Rightarrow> device_id \<Rightarrow> string \<Rightarrow> effect_id \<Rightarrow> controls \<Rightarrow> spatial_layout \<Rightarrow> zone_id \<Rightarrow> layer_id
     \<Rightarrow> (scene_manager \<times> (scene_fault + zone)) option" where
  "upsert_display_zone M d device_name eid ctl lay zid lid =
     (case active_scene_id M of
        None \<Rightarrow> Some (M, Inl NoActiveScene)
      | Some i \<Rightarrow>
     (case fmlookup (m_scenes M) i of
        None \<Rightarrow> Some (M, Inl NoActiveScene)
      | Some sc \<Rightarrow>
          let zs =
                (if display_zone_for sc d \<noteq> None
                 then update_first (is_display_for d)
                        (\<lambda>z. (apply_effect_layer lid eid ctl None z)
                               \<lparr>z_layout := lay, z_display_target := Some (display_face_target_new d),
                                z_enabled := True, z_role := RoleDisplay,
                                z_name := (if trim (z_name z) = [] then face_zone_name device_name else z_name z)\<rparr>)
                        (sc_zones sc)
                 else sc_zones sc
                      @ [replace_effect_layer_stack lid eid ctl fmempty None
                           (new_zone zid (face_zone_name device_name)
                              (Some (''Display face for '' @ device_name)) lay None
                              (Some (display_face_target_new d)) RoleDisplay)])
          in return_display_zone (refresh_resolved_zones (put_scene M i (sc\<lparr>sc_zones := zs\<rparr>))) d))"

definition screen_surface_zone :: "zone_id \<Rightarrow> device_id \<Rightarrow> string \<Rightarrow> spatial_layout \<Rightarrow> zone" where
  "screen_surface_zone zid d device_name lay =
     new_zone zid device_name (Some (''Screen surface for '' @ device_name)) lay None
       (Some (display_face_target_new d)) RoleDisplay"

text \<open>The repairs of \<^verbatim>\<open>ensure_display_zone_surface\<close>, each setting the flag when it changes something.\<close>

definition sync_display_surface :: "device_id \<Rightarrow> string \<Rightarrow> spatial_layout \<Rightarrow> zone \<Rightarrow> zone \<times> bool" where
  "sync_display_surface d device_name lay z0 =
     (let (z1, c1) = (if z_role z0 \<noteq> RoleDisplay then (z0\<lparr>z_role := RoleDisplay\<rparr>, True) else (z0, False));
          (z2, c2) = (if z_display_target z1 = None
                      then (z1\<lparr>z_display_target := Some (display_face_target_new d)\<rparr>, True) else (z1, c1));
          (z3, c3) = (case z_display_target z2 of
                        Some t \<Rightarrow>
                          if \<not> display_zone_has_face z2 \<and> df_blend_mode t = BmReplace
                          then (z2\<lparr>z_display_target := Some (t\<lparr>df_blend_mode := BmAlpha\<rparr>)\<rparr>, True)
                          else (z2, c2)
                      | None \<Rightarrow> (z2, c2));
          (z4, c4) = (if \<not> layout_eq (z_layout z3) lay then (z3\<lparr>z_layout := lay\<rparr>, True) else (z3, c3));
          (z5, c5) = (if trim (z_name z4) = [] then (z4\<lparr>z_name := device_name\<rparr>, True) else (z4, c4))
      in (z5, c5))"

text \<open>
  Shared tail of \<^verbatim>\<open>ensure_display_zone_surface\<close> and \<^verbatim>\<open>clear_display_zone_assignment\<close>: edit the
  display zone of the device or add a surface, and publish the scene when its structure changed.
\<close>

definition upsert_surface ::
    "scene_manager \<Rightarrow> device_id \<Rightarrow> (zone \<Rightarrow> zone \<times> bool) \<Rightarrow> zone \<Rightarrow> (scene_manager \<times> (scene_fault + zone)) option" where
  "upsert_surface M d edit fresh =
     (case active_scene_id M of
        None \<Rightarrow> Some (M, Inl NoActiveScene)
      | Some i \<Rightarrow>
     (case fmlookup (m_scenes M) i of
        None \<Rightarrow> Some (M, Inl NoActiveScene)
      | Some sc \<Rightarrow>
          let (zs, changed) =
                (case display_zone_for sc d of
                   Some z \<Rightarrow> (update_first (is_display_for d) (\<lambda>z. fst (edit z)) (sc_zones sc), snd (edit z))
                 | None \<Rightarrow> (sc_zones sc @ [fresh], True));
              sc1 = sc\<lparr>sc_zones := zs\<rparr>;
              M' = (if changed then refresh_resolved_zones (put_scene M i (bump_zones_revision sc1))
                    else put_scene M i sc1)
          in return_display_zone M' d))"

definition ensure_display_zone_surface ::
    "scene_manager \<Rightarrow> device_id \<Rightarrow> string \<Rightarrow> spatial_layout \<Rightarrow> zone_id
     \<Rightarrow> (scene_manager \<times> (scene_fault + zone)) option" where
  "ensure_display_zone_surface M d device_name lay zid =
     upsert_surface M d (sync_display_surface d device_name lay) (screen_surface_zone zid d device_name lay)"

definition clear_display_surface :: "device_id \<Rightarrow> string \<Rightarrow> spatial_layout \<Rightarrow> zone \<Rightarrow> zone \<times> bool" where
  "clear_display_surface d device_name lay z =
     (let changed =
            (z_layers z \<noteq> [] \<or> \<not> layout_eq (z_layout z) lay \<or> \<not> z_enabled z
             \<or> \<not> target_eq (z_display_target z) (Some (display_face_target_new d))
             \<or> z_role z \<noteq> RoleDisplay \<or> trim (z_name z) = []);
          z1 = z\<lparr>z_layers := [], z_layout := lay, z_enabled := True,
                 z_display_target := Some (display_face_target_new d), z_role := RoleDisplay,
                 z_name := (if trim (z_name z) = [] then device_name else z_name z)\<rparr>
      in (if changed then bump_layers_version (bump_controls_version z1) else z1, changed))"

definition clear_display_zone_assignment ::
    "scene_manager \<Rightarrow> device_id \<Rightarrow> string \<Rightarrow> spatial_layout \<Rightarrow> zone_id
     \<Rightarrow> (scene_manager \<times> (scene_fault + zone)) option" where
  "clear_display_zone_assignment M d device_name lay zid =
     upsert_surface M d (clear_display_surface d device_name lay) (screen_surface_zone zid d device_name lay)"

section \<open>Structural edits of a scene\<close>

text \<open>
  The guards the structural edits share: the scene exists and is not snapshot-locked. The edit
  itself returns the changed scene and a result, or an error.
\<close>

definition edit_unlocked ::
    "scene_manager \<Rightarrow> scene_id \<Rightarrow> (scene \<Rightarrow> zone_mutation_error + scene \<times> 'r)
     \<Rightarrow> scene_manager \<times> (zone_mutation_error + 'r)" where
  "edit_unlocked M i edit =
     (case fmlookup (m_scenes M) i of
        None \<Rightarrow> (M, Inl ZmSceneMissing)
      | Some sc \<Rightarrow>
          if blocks_runtime_mutation sc then (M, Inl ZmSnapshotLocked)
          else case edit sc of
            Inl e \<Rightarrow> (M, Inl e)
          | Inr (sc', r) \<Rightarrow> (commit_scene M i (bump_zones_revision sc'), Inr r))"

definition create_zone ::
    "scene_manager \<Rightarrow> scene_id \<Rightarrow> string \<Rightarrow> string option \<Rightarrow> u32 \<times> u32 \<Rightarrow> zone_id
     \<Rightarrow> scene_manager \<times> (zone_mutation_error + zone_id)" where
  "create_zone M i nm col fallback_canvas zid =
     edit_unlocked M i (\<lambda>sc.
       let (w, h) = (case find (\<lambda>z. z_display_target z = None) (sc_zones sc) of
                       None \<Rightarrow> fallback_canvas
                     | Some z \<Rightarrow> (lay_canvas_width (z_layout z), lay_canvas_height (z_layout z)))
       in Inr (sc\<lparr>sc_zones := sc_zones sc
                    @ [new_zone zid nm None (empty_scene_zone_layout zid w h) col None RoleCustom]\<rparr>, zid))"

definition delete_zone ::
    "scene_manager \<Rightarrow> scene_id \<Rightarrow> zone_id \<Rightarrow> scene_manager \<times> (zone_mutation_error + unit)" where
  "delete_zone M i zid =
     edit_unlocked M i (\<lambda>sc.
       case find_position (\<lambda>z. z_id z = zid) (sc_zones sc) of
         None \<Rightarrow> Inl ZmZoneMissing
       | Some n \<Rightarrow>
           let role = z_role (sc_zones sc ! n)
           in if role \<noteq> RoleCustom then Inl (ZmInvalidRole role)
              else Inr (sc\<lparr>sc_zones := vec_remove n (sc_zones sc)\<rparr>, ()))"

text \<open>Promotion of the zone at a position, demoting the primary zones there were.\<close>

definition promote_zone :: "nat \<Rightarrow> zone list \<Rightarrow> zone list" where
  "promote_zone n zs =
     (let demoted = map (\<lambda>z. if z_role z = RolePrimary then z\<lparr>z_role := RoleCustom\<rparr> else z) zs
      in demoted[n := (demoted ! n)\<lparr>z_role := RolePrimary, z_display_target := None\<rparr>])"

definition apply_zone_meta :: "zone_meta_patch \<Rightarrow> zone \<Rightarrow> zone" where
  "apply_zone_meta p z =
     z\<lparr>z_name := (case zp_name p of None \<Rightarrow> z_name z | Some v \<Rightarrow> v),
       z_description := (case zp_description p of None \<Rightarrow> z_description z | Some v \<Rightarrow> v),
       z_color := (case zp_color p of None \<Rightarrow> z_color z | Some v \<Rightarrow> v),
       z_brightness := (case zp_brightness p of None \<Rightarrow> z_brightness z
                        | Some v \<Rightarrow> f32_clamp v (Fin 0) (Fin 1)),
       z_enabled := (case zp_enabled p of None \<Rightarrow> z_enabled z | Some v \<Rightarrow> v)\<rparr>"

definition update_zone_meta ::
    "scene_manager \<Rightarrow> scene_id \<Rightarrow> zone_id \<Rightarrow> zone_meta_patch \<Rightarrow> scene_manager \<times> (zone_mutation_error + zone)" where
  "update_zone_meta M i zid p =
     (case fmlookup (m_scenes M) i of
        None \<Rightarrow> (M, Inl ZmSceneMissing)
      | Some sc \<Rightarrow>
     let role_change = (zp_make_primary p = Some True)
     in if role_change \<and> blocks_runtime_mutation sc then (M, Inl ZmSnapshotLocked)
     else (case find_position (\<lambda>z. z_id z = zid) (sc_zones sc) of
        None \<Rightarrow> (M, Inl ZmZoneMissing)
      | Some index \<Rightarrow>
     let last_slot = length (sc_zones sc) - 1;
         destination = (case zp_index p of
                          None \<Rightarrow> None
                        | Some requested \<Rightarrow>
                            let dst = min requested last_slot in if dst \<noteq> index then Some dst else None)
     in if destination \<noteq> None \<and> blocks_runtime_mutation sc then (M, Inl ZmSnapshotLocked)
     else
       let zs1 = (if role_change then promote_zone index (sc_zones sc) else sc_zones sc);
           (zs2, index2) = (case destination of
                              Some dst \<Rightarrow> (vec_insert dst (zs1 ! index) (vec_remove index zs1), dst)
                            | None \<Rightarrow> (zs1, index));
           z = apply_zone_meta p (zs2 ! index2);
           sc1 = (if role_change \<or> destination \<noteq> None then bump_zones_revision sc else sc)
       in (commit_scene M i (sc1\<lparr>sc_zones := zs2[index2 := z]\<rparr>), Inr z)))"

definition drop_output :: "string \<Rightarrow> zone \<Rightarrow> zone" where
  "drop_output o_id z =
     z\<lparr>z_layout := (z_layout z)\<lparr>lay_zones := filter (\<lambda>x. out_id x \<noteq> o_id) (lay_zones (z_layout z))\<rparr>\<rparr>"

definition owns_output :: "string \<Rightarrow> zone \<Rightarrow> bool" where
  "owns_output o_id z \<longleftrightarrow> list_ex (\<lambda>x. out_id x = o_id) (lay_zones (z_layout z))"

definition place_output :: "output_placement \<Rightarrow> nat \<Rightarrow> zone_output \<Rightarrow> zone_output" where
  "place_output placement slot x =
     (case placement of
        AutoGrid \<Rightarrow> reset_device_zone_placement slot x
      | Preserve \<Rightarrow> x\<lparr>out_display_order := slot_order slot\<rparr>)"

definition assign_output ::
    "nat \<Rightarrow> zone_output \<Rightarrow> output_placement \<Rightarrow> zone list \<Rightarrow> zone list" where
  "assign_output target x placement zs =
     (if find_position (owns_output (out_id x)) zs = Some target
      then zs[target := (zs ! target)\<lparr>z_layout := (z_layout (zs ! target))
                 \<lparr>lay_zones := update_first (\<lambda>y. out_id y = out_id x) (\<lambda>_. x) (lay_zones (z_layout (zs ! target)))\<rparr>\<rparr>]
      else
        let dropped = map (drop_output (out_id x)) zs;
            lay = z_layout (dropped ! target);
            slot = length (lay_zones lay)
        in dropped[target := (dropped ! target)
                     \<lparr>z_layout := lay\<lparr>lay_zones := lay_zones lay @ [place_output placement slot x]\<rparr>\<rparr>])"

definition assign_output_to_zone ::
    "scene_manager \<Rightarrow> scene_id \<Rightarrow> zone_id \<Rightarrow> zone_output \<Rightarrow> output_placement
     \<Rightarrow> scene_manager \<times> (zone_mutation_error + unit)" where
  "assign_output_to_zone M i zid x placement =
     edit_unlocked M i (\<lambda>sc.
       case find_position (\<lambda>z. z_id z = zid) (sc_zones sc) of
         None \<Rightarrow> Inl ZmZoneMissing
       | Some target \<Rightarrow> Inr (sc\<lparr>sc_zones := assign_output target x placement (sc_zones sc)\<rparr>, ()))"

definition unassign_output ::
    "scene_manager \<Rightarrow> scene_id \<Rightarrow> string \<Rightarrow> scene_manager \<times> (zone_mutation_error + unit)" where
  "unassign_output M i o_id =
     edit_unlocked M i (\<lambda>sc.
       if list_ex (owns_output o_id) (sc_zones sc)
       then Inr (sc\<lparr>sc_zones := map (drop_output o_id) (sc_zones sc)\<rparr>, ())
       else Inl ZmOutputMissing)"

definition set_unassigned_behavior ::
    "scene_manager \<Rightarrow> scene_id \<Rightarrow> unassigned_behavior
     \<Rightarrow> scene_manager \<times> (zone_mutation_error + unassigned_behavior)" where
  "set_unassigned_behavior M i b =
     (case edit_unlocked M i (\<lambda>sc.
        case b of
          UbFallback zid \<Rightarrow>
            if list_ex (\<lambda>z. z_id z = zid \<and> z_display_target z = None) (sc_zones sc)
            then Inr (sc\<lparr>sc_unassigned_behavior := b\<rparr>, b) else Inl ZmZoneMissing
        | _ \<Rightarrow> Inr (sc\<lparr>sc_unassigned_behavior := b\<rparr>, b)) of
        (M', Inr r) \<Rightarrow> (if active_scene_id M = Some i then invalidate_resolved_zones M' else M', Inr r)
      | (M', Inl e) \<Rightarrow> (M', Inl e))"

definition merge_output :: "zone_output \<Rightarrow> zone_output \<Rightarrow> zone_output" where
  "merge_output stored incoming =
     stored\<lparr>out_name := out_name incoming, out_position := out_position incoming,
       out_size := out_size incoming, out_rotation := out_rotation incoming,
       out_scale := out_scale incoming, out_display_order := out_display_order incoming,
       out_orientation := out_orientation incoming, out_shape := out_shape incoming,
       out_shape_preset := out_shape_preset incoming, out_sampling_mode := out_sampling_mode incoming,
       out_edge_behavior := out_edge_behavior incoming, out_brightness := out_brightness incoming\<rparr>"

text \<open>
  The merged vector: \<^verbatim>\<open>filter_map\<close> over the request, each stored output taken out of the map as
  it is used. The map is collected from the stored vector, so of equal keys the last one counts.
\<close>

fun merge_outputs :: "(string, zone_output) fmap \<Rightarrow> zone_output list \<Rightarrow> zone_output list" where
  "merge_outputs stored [] = []"
| "merge_outputs stored (x # xs) =
     (case fmlookup stored (out_id x) of
        None \<Rightarrow> merge_outputs stored xs
      | Some s \<Rightarrow> merge_output s x # merge_outputs (fmdrop (out_id x) stored) xs)"

definition collect_outputs :: "zone_output list \<Rightarrow> (string, zone_output) fmap" where
  "collect_outputs xs = foldl (\<lambda>m x. fmupd (out_id x) x m) fmempty xs"

definition merge_layout :: "spatial_layout \<Rightarrow> zone \<Rightarrow> zone" where
  "merge_layout lay z =
     (let stored = z_layout z;
          l1 = stored\<lparr>lay_zones := merge_outputs (collect_outputs (lay_zones stored)) (lay_zones lay)\<rparr>;
          l2 = (if z_display_target z \<noteq> None
                then l1\<lparr>lay_canvas_width := lay_canvas_width lay, lay_canvas_height := lay_canvas_height lay\<rparr>
                else l1)
      in z\<lparr>z_layout := l2\<lparr>lay_default_sampling_mode := lay_default_sampling_mode lay,
                          lay_default_edge_behavior := lay_default_edge_behavior lay\<rparr>\<rparr>)"

definition update_zone_layout ::
    "scene_manager \<Rightarrow> scene_id \<Rightarrow> zone_id \<Rightarrow> spatial_layout \<Rightarrow> scene_manager \<times> (zone_mutation_error + zone)" where
  "update_zone_layout M i zid lay =
     edit_unlocked M i (\<lambda>sc.
       case find_position (\<lambda>z. z_id z = zid) (sc_zones sc) of
         None \<Rightarrow> Inl ZmZoneMissing
       | Some n \<Rightarrow>
           let z = sc_zones sc ! n;
               request_ids = set (layout_output_ids lay)
           in if card request_ids \<noteq> length (lay_zones lay) \<or> set (layout_output_ids (z_layout z)) \<noteq> request_ids
              then Inl ZmLayoutOutputMismatch
              else Inr (sc\<lparr>sc_zones := (sc_zones sc)[n := merge_layout lay z]\<rparr>, merge_layout lay z))"

end
