(* ===== verification/Scene_Ops.thy ===== *)
theory Scene_Ops
  imports Scene_Edits
begin

text \<open>
  The scene manager's operations on layers, display faces and the active layout, with the
  version check that fences concurrent layer edits.
\<close>

section \<open>Display faces\<close>

text \<open>An edit of one zone of the active scene, which always refreshes the cache.\<close>

definition edit_active_zone ::
    "scene_manager \<Rightarrow> zone_id \<Rightarrow> (zone \<Rightarrow> zone option) \<Rightarrow> scene_manager \<times> zone option" where
  "edit_active_zone M zid f =
     (case active_scene_id M of
        None \<Rightarrow> (M, None)
      | Some i \<Rightarrow>
     (case fmlookup (m_scenes M) i of
        None \<Rightarrow> (M, None)
      | Some sc \<Rightarrow>
     (case find_zone zid sc of
        None \<Rightarrow> (M, None)
      | Some z \<Rightarrow>
     (case f z of
        None \<Rightarrow> (M, None)
      | Some z' \<Rightarrow>
          let M' = refresh_resolved_zones (put_scene M i (edit_zone zid (\<lambda>_. z') sc))
          in (M', Option.bind (active_scene M') (find_zone zid))))))"

definition patch_target :: "blend_mode option \<Rightarrow> f32 option \<Rightarrow> display_face_target \<Rightarrow> display_face_target" where
  "patch_target blend opacity t =
     (let next = display_face_target_normalized
            \<lparr>df_device_id = df_device_id t,
             df_blend_mode = (case blend of None \<Rightarrow> df_blend_mode t | Some b \<Rightarrow> b),
             df_opacity = (case opacity of None \<Rightarrow> df_opacity t | Some v \<Rightarrow> v)\<rparr>
      in if \<not> blends_with_effect next then next\<lparr>df_opacity := Fin 1\<rparr> else next)"

definition patch_display_zone_target ::
    "scene_manager \<Rightarrow> zone_id \<Rightarrow> blend_mode option \<Rightarrow> f32 option \<Rightarrow> scene_manager \<times> zone option" where
  "patch_display_zone_target M zid blend opacity =
     edit_active_zone M zid (\<lambda>z.
       map_option (\<lambda>t. z\<lparr>z_display_target := Some (patch_target blend opacity t)\<rparr>) (z_display_target z))"

definition remove_display_zones_for_device ::
    "scene_manager \<Rightarrow> device_id \<Rightarrow> scene_id list \<Rightarrow> scene_manager \<times> (scene_id \<times> zone) list" where
  "remove_display_zones_for_device M d order =
     (let removed = concat (map (\<lambda>i. case fmlookup (m_scenes M) i of
                                      None \<Rightarrow> []
                                    | Some sc \<Rightarrow> map (Pair (sc_id sc)) (filter (is_display_for d) (sc_zones sc))) order);
          M1 = M\<lparr>m_scenes := fmmap (\<lambda>sc. sc\<lparr>sc_zones := filter (\<lambda>z. \<not> is_display_for d z) (sc_zones sc)\<rparr>) (m_scenes M)\<rparr>
      in (if (case active_scene_id M of None \<Rightarrow> False | Some i \<Rightarrow> i \<in> fst ` set removed)
          then refresh_resolved_zones M1 else M1, removed))"

definition set_default_display_zone :: "scene_manager \<Rightarrow> zone \<Rightarrow> scene_manager" where
  "set_default_display_zone M z =
     (case z_display_target z of
        None \<Rightarrow> M
      | Some t \<Rightarrow>
          let d = df_device_id t
          in refresh_resolved_zones
               (M\<lparr>m_defaults :=
                    (if list_ex (targets_device d) (m_defaults M)
                     then update_first (targets_device d) (\<lambda>old. z\<lparr>z_id := z_id old\<rparr>) (m_defaults M)
                     else m_defaults M @ [z])\<rparr>))"

definition remove_default_display_zone :: "scene_manager \<Rightarrow> device_id \<Rightarrow> scene_manager \<times> bool" where
  "remove_default_display_zone M d =
     (let kept = filter (\<lambda>z. \<not> targets_device d z) (m_defaults M);
          removed = (length kept \<noteq> length (m_defaults M));
          M1 = M\<lparr>m_defaults := kept\<rparr>
      in (if removed then refresh_resolved_zones M1 else M1, removed))"

definition default_display_zone_for :: "scene_manager \<Rightarrow> device_id \<Rightarrow> zone option" where
  "default_display_zone_for M d = find (targets_device d) (m_defaults M)"

section \<open>Layers\<close>

definition mutate_zone_layers ::
    "scene_manager \<Rightarrow> scene_id \<Rightarrow> zone_id \<Rightarrow> u64 option \<Rightarrow> (zone \<Rightarrow> (layer_mutation_error + zone) option)
     \<Rightarrow> (scene_manager \<times> (layer_mutation_error + zone \<times> u64)) option" where
  "mutate_zone_layers M i zid expected mutate =
     (case fmlookup (m_scenes M) i of
        None \<Rightarrow> Some (M, Inl LmSceneMissing)
      | Some sc \<Rightarrow>
     (case find_zone zid sc of
        None \<Rightarrow> Some (M, Inl LmZoneMissing)
      | Some z \<Rightarrow>
          if expected \<noteq> None \<and> expected \<noteq> Some (z_layers_version z)
          then Some (M, Inl (LmStale (the expected) (z_layers_version z)))
          else (case mutate z of
                  None \<Rightarrow> None
                | Some (Inl e) \<Rightarrow> Some (M, Inl e)
                | Some (Inr z1) \<Rightarrow>
                    let z2 = bump_layers_version z1;
                        sc' = edit_zone zid (\<lambda>_. z2) sc;
                        M' = commit_scene M i sc'
                    in Some (M', case Option.bind (fmlookup (m_scenes M') i) (find_zone zid) of
                                   None \<Rightarrow> Inl LmZoneMissing
                                 | Some current \<Rightarrow> Inr (current, z_layers_version z2)))))"

definition insert_layer :: "scene_layer \<Rightarrow> nat option \<Rightarrow> zone \<Rightarrow> (layer_mutation_error + zone) option" where
  "insert_layer l index z = Some
     (if list_ex (\<lambda>x. ly_id x = ly_id l) (z_layers z) then Inl (LmDuplicateLayer (ly_id l))
      else let l' = layer_normalized l
      in case layer_validate l' of
           Inl errs \<Rightarrow> Inl (LmInvalidLayer errs)
         | Inr _ \<Rightarrow>
             (case index of
                None \<Rightarrow> Inr (z\<lparr>z_layers := z_layers z @ [l']\<rparr>)
              | Some n \<Rightarrow>
                  if length (z_layers z) < n then Inl (LmInvalidIndex n (length (z_layers z)))
                  else Inr (z\<lparr>z_layers := vec_insert n l' (z_layers z)\<rparr>)))"

definition insert_zone_layer ::
    "scene_manager \<Rightarrow> scene_id \<Rightarrow> zone_id \<Rightarrow> scene_layer \<Rightarrow> nat option \<Rightarrow> u64 option
     \<Rightarrow> (scene_manager \<times> (layer_mutation_error + zone \<times> u64)) option" where
  "insert_zone_layer M i zid l index expected = mutate_zone_layers M i zid expected (insert_layer l index)"

text \<open>The loop that refuses a stack before changing anything.\<close>

fun check_layer_stack :: "layer_id set \<Rightarrow> scene_layer list \<Rightarrow> layer_mutation_error + unit" where
  "check_layer_stack ids [] = Inr ()"
| "check_layer_stack ids (l # ls) =
     (if ly_id l \<in> ids then Inl (LmDuplicateLayer (ly_id l))
      else case layer_validate l of
        Inl errs \<Rightarrow> Inl (LmInvalidLayer errs)
      | Inr _ \<Rightarrow> check_layer_stack (insert (ly_id l) ids) ls)"

definition replace_zone_layer_stack ::
    "scene_manager \<Rightarrow> scene_id \<Rightarrow> zone_id \<Rightarrow> scene_layer list
     \<Rightarrow> (scene_manager \<times> (layer_mutation_error + zone \<times> u64)) option" where
  "replace_zone_layer_stack M i zid ls =
     (case check_layer_stack {} ls of
        Inl e \<Rightarrow> Some (M, Inl e)
      | Inr _ \<Rightarrow> mutate_zone_layers M i zid None (\<lambda>z. Some (Inr (z\<lparr>z_layers := ls\<rparr>))))"

definition remove_layer :: "layer_id \<Rightarrow> zone \<Rightarrow> (layer_mutation_error + zone) option" where
  "remove_layer lid z = Some
     (case find_position (\<lambda>l. ly_id l = lid) (z_layers z) of
        None \<Rightarrow> Inl (LmLayerMissing lid)
      | Some n \<Rightarrow> Inr (z\<lparr>z_layers := vec_remove n (z_layers z)\<rparr>))"

definition remove_zone_layer ::
    "scene_manager \<Rightarrow> scene_id \<Rightarrow> zone_id \<Rightarrow> layer_id \<Rightarrow> u64 option
     \<Rightarrow> (scene_manager \<times> (layer_mutation_error + zone \<times> u64)) option" where
  "remove_zone_layer M i zid lid expected = mutate_zone_layers M i zid expected (remove_layer lid)"

text \<open>\<open>None\<close> is the \<^verbatim>\<open>expect\<close> on the removal from the map of layers.\<close>

fun take_layers :: "(layer_id, scene_layer) fmap \<Rightarrow> layer_id list \<Rightarrow> scene_layer list option" where
  "take_layers m [] = Some []"
| "take_layers m (i # is) =
     (case fmlookup m i of
        None \<Rightarrow> None
      | Some l \<Rightarrow> map_option (Cons l) (take_layers (fmdrop i m) is))"

definition collect_layers :: "scene_layer list \<Rightarrow> (layer_id, scene_layer) fmap" where
  "collect_layers ls = foldl (\<lambda>m l. fmupd (ly_id l) l m) fmempty ls"

definition reorder_layers :: "layer_id list \<Rightarrow> zone \<Rightarrow> (layer_mutation_error + zone) option" where
  "reorder_layers ids z =
     (let current = set (map ly_id (z_layers z))
      in if card current \<noteq> length (z_layers z) \<or> card (set ids) \<noteq> length ids \<or> current \<noteq> set ids
         then Some (Inl LmInvalidOrder)
         else map_option (\<lambda>ls. Inr (z\<lparr>z_layers := ls\<rparr>)) (take_layers (collect_layers (z_layers z)) ids))"

definition reorder_zone_layers ::
    "scene_manager \<Rightarrow> scene_id \<Rightarrow> zone_id \<Rightarrow> layer_id list \<Rightarrow> u64 option
     \<Rightarrow> (scene_manager \<times> (layer_mutation_error + zone \<times> u64)) option" where
  "reorder_zone_layers M i zid ids expected = mutate_zone_layers M i zid expected (reorder_layers ids)"

fun extend_controls :: "controls \<Rightarrow> layer_source \<Rightarrow> layer_source" where
  "extend_controls upd (SrcEffect e ctl cbs pre) = SrcEffect e (fmadd ctl upd) cbs pre"
| "extend_controls upd src = src"

definition edit_layer :: "layer_id \<Rightarrow> (scene_layer \<Rightarrow> scene_layer) \<Rightarrow> zone \<Rightarrow> zone" where
  "edit_layer lid f z = z\<lparr>z_layers := update_first (\<lambda>l. ly_id l = lid) f (z_layers z)\<rparr>"

definition patch_layer_controls ::
    "layer_id \<Rightarrow> controls \<Rightarrow> zone \<Rightarrow> (layer_mutation_error + zone) option" where
  "patch_layer_controls lid upd z = Some
     (case find (\<lambda>l. ly_id l = lid) (z_layers z) of
        None \<Rightarrow> Inl (LmLayerMissing lid)
      | Some l \<Rightarrow>
          if \<not> is_SrcEffect (ly_source l) then Inl (LmInvalidLayer [NotAnEffectLayer lid])
          else Inr (edit_layer lid (\<lambda>l. l\<lparr>ly_source := extend_controls upd (ly_source l)\<rparr>) z))"

definition patch_zone_layer_effect_controls ::
    "scene_manager \<Rightarrow> scene_id \<Rightarrow> zone_id \<Rightarrow> layer_id \<Rightarrow> controls \<Rightarrow> u64 option
     \<Rightarrow> (scene_manager \<times> (layer_mutation_error + zone \<times> u64)) option" where
  "patch_zone_layer_effect_controls M i zid lid upd expected =
     mutate_zone_layers M i zid expected (patch_layer_controls lid upd)"

definition bound_keys :: "controls \<Rightarrow> control_bindings \<Rightarrow> string list \<Rightarrow> string list" where
  "bound_keys upd cbs clear =
     filter (\<lambda>k. fmlookup cbs k \<noteq> None \<and> k \<notin> set clear) (sorted_list_of_fset (fmdom upd))"

fun clear_and_extend :: "controls \<Rightarrow> string list \<Rightarrow> layer_source \<Rightarrow> layer_source" where
  "clear_and_extend upd clear (SrcEffect e ctl cbs pre) =
     SrcEffect e (fmadd ctl upd) (fmdrop_set (set clear) cbs) pre"
| "clear_and_extend upd clear src = src"

definition patch_layer_controls_and_bindings ::
    "layer_id \<Rightarrow> controls \<Rightarrow> string list \<Rightarrow> zone \<Rightarrow> (layer_mutation_error + zone) option" where
  "patch_layer_controls_and_bindings lid upd clear z = Some
     (case find (\<lambda>l. ly_id l = lid) (z_layers z) of
        None \<Rightarrow> Inl (LmLayerMissing lid)
      | Some l \<Rightarrow>
          if \<not> is_SrcEffect (ly_source l) then Inl (LmInvalidLayer [NotAnEffectLayer lid])
          else let bound = bound_keys upd (src_bindings (ly_source l)) clear
          in if bound \<noteq> [] then Inl (LmControlBound bound)
             else Inr (edit_layer lid (\<lambda>l. l\<lparr>ly_source := clear_and_extend upd clear (ly_source l)\<rparr>) z))"

definition patch_zone_layer_controls_and_bindings ::
    "scene_manager \<Rightarrow> scene_id \<Rightarrow> zone_id \<Rightarrow> layer_id \<Rightarrow> controls \<Rightarrow> string list \<Rightarrow> u64 option
     \<Rightarrow> (scene_manager \<times> (layer_mutation_error + zone \<times> u64)) option" where
  "patch_zone_layer_controls_and_bindings M i zid lid upd clear expected =
     mutate_zone_layers M i zid expected (patch_layer_controls_and_bindings lid upd clear)"

text \<open>Only a zone with exactly one effect layer takes a zone-level control patch.\<close>

definition patch_zone_controls :: "scene_manager \<Rightarrow> zone_id \<Rightarrow> controls \<Rightarrow> scene_manager \<times> zone option" where
  "patch_zone_controls M zid upd =
     edit_active_zone M zid (\<lambda>z.
       if length (filter (\<lambda>l. is_SrcEffect (ly_source l)) (z_layers z)) = 1
       then Some (bump_controls_version (bump_layers_version
              (z\<lparr>z_layers := update_first (\<lambda>l. is_SrcEffect (ly_source l))
                   (\<lambda>l. l\<lparr>ly_source := extend_controls upd (ly_source l)\<rparr>) (z_layers z)\<rparr>)))
       else None)"

definition apply_effect_to_zone ::
    "scene_manager \<Rightarrow> zone_id \<Rightarrow> effect_id \<Rightarrow> controls \<Rightarrow> preset_id option \<Rightarrow> layer_id
     \<Rightarrow> scene_manager \<times> (scene_fault + zone)" where
  "apply_effect_to_zone M zid eid ctl pre lid =
     (case active_scene_id M of
        None \<Rightarrow> (M, Inl NoActiveScene)
      | Some i \<Rightarrow>
     (case fmlookup (m_scenes M) i of
        None \<Rightarrow> (M, Inl NoActiveScene)
      | Some sc \<Rightarrow>
     (case find_zone zid sc of
        None \<Rightarrow> (M, Inl (ZoneNotInActiveScene zid))
      | Some z \<Rightarrow>
          if z_role z = RoleDisplay then (M, Inl (ZoneIsDisplayFace zid))
          else
            let z' = bump_controls_version ((apply_effect_layer lid eid ctl pre z)\<lparr>z_enabled := True\<rparr>);
                M' = refresh_resolved_zones (put_scene M i (edit_zone zid (\<lambda>_. z') sc))
            in (M', case Option.bind (active_scene M') (find_zone zid) of
                      None \<Rightarrow> Inl ZoneVanished
                    | Some current \<Rightarrow> Inr current))))"

definition clear_zone_effect :: "scene_manager \<Rightarrow> zone_id \<Rightarrow> scene_manager \<times> zone option" where
  "clear_zone_effect M zid =
     edit_active_zone M zid (\<lambda>z.
       Some (bump_controls_version
         (if z_layers z \<noteq> [] then bump_layers_version (z\<lparr>z_layers := []\<rparr>) else z)))"

section \<open>Following the active layout\<close>

definition align_zones :: "spatial_layout \<Rightarrow> bool \<Rightarrow> zone list \<Rightarrow> zone list \<times> bool" where
  "align_zones lay custom zs =
     (map (\<lambda>z. fst (align_led_zone lay custom z)) zs, list_ex (\<lambda>z. snd (align_led_zone lay custom z)) zs)"

definition sync_primary_zone_layout :: "scene_manager \<Rightarrow> spatial_layout \<Rightarrow> scene_manager \<times> bool" where
  "sync_primary_zone_layout M lay =
     (case active_scene_id M of
        None \<Rightarrow> (M, False)
      | Some i \<Rightarrow>
     (case fmlookup (m_scenes M) i of
        None \<Rightarrow> (M, False)
      | Some sc \<Rightarrow>
          let (zs, changed) = align_zones lay (scene_has_custom_led_zones sc) (sc_zones sc);
              sc1 = sc\<lparr>sc_zones := zs\<rparr>
          in if changed then (refresh_resolved_zones (put_scene M i (bump_zones_revision sc1)), True)
             else (put_scene M i sc1, False)))"

definition resolved_zones_for_primary_layout :: "scene_manager \<Rightarrow> spatial_layout \<Rightarrow> zone list \<times> u64" where
  "resolved_zones_for_primary_layout M lay =
     (case active_scene M of
        None \<Rightarrow> (m_resolved M, m_resolved_revision M)
      | Some sc \<Rightarrow>
          let (zs, changed) = align_zones lay (scene_has_custom_led_zones sc) (m_resolved M)
          in if changed then (zs, saturating_succ (m_resolved_revision M))
             else (m_resolved M, m_resolved_revision M))"

end
