(* ===== verification/Scene_Remap.thy ===== *)
theory Scene_Remap
  imports Scene_Ops
begin

text \<open>
  Identity migrations of the scene manager: \<^verbatim>\<open>remap_effect_ids\<close> and \<^verbatim>\<open>remap_device_bindings\<close> of
  \<^verbatim>\<open>scene/mod.rs\<close>, and \<^verbatim>\<open>scene/display_collisions.rs\<close>, which keeps one display zone per display
  when two identities become one; then the machine \<open>scene_exec\<close> over every operation. The
  counters the migrations return are \<open>nat\<close> sums over the scenes, in which the iteration order of
  the map does not matter. The reasons \<^verbatim>\<open>choose_survivor\<close> returns are only logged and left out. Only the list
  \<^verbatim>\<open>remove_display_zones_for_device\<close> returns shows the order of the map; the machine takes the
  ascending one, which does not affect the state.
\<close>

section \<open>Effect identities\<close>

fun remap_source :: "(effect_id, effect_id) fmap \<Rightarrow> layer_source \<Rightarrow> layer_source \<times> nat" where
  "remap_source mig (SrcEffect e ctl cbs pre) =
     (case fmlookup mig e of
        None \<Rightarrow> (SrcEffect e ctl cbs pre, 0)
      | Some e' \<Rightarrow> (SrcEffect e' ctl cbs pre, 1))"
| "remap_source mig src = (src, 0)"

definition remap_zone_effect_ids :: "(effect_id, effect_id) fmap \<Rightarrow> zone \<Rightarrow> zone \<times> nat" where
  "remap_zone_effect_ids mig z =
     (z\<lparr>z_layers := map (\<lambda>l. l\<lparr>ly_source := fst (remap_source mig (ly_source l))\<rparr>) (z_layers z)\<rparr>,
      sum_list (map (\<lambda>l. snd (remap_source mig (ly_source l))) (z_layers z)))"

definition migrate_zone_effects :: "(effect_id, effect_id) fmap \<Rightarrow> zone \<Rightarrow> zone \<times> nat" where
  "migrate_zone_effects mig z =
     (let (z', n) = remap_zone_effect_ids mig z in (if 0 < n then bump_layers_version z' else z', n))"

definition migrate_scene_effects :: "(effect_id, effect_id) fmap \<Rightarrow> scene \<Rightarrow> scene \<times> nat" where
  "migrate_scene_effects mig sc =
     (let rs = map (migrate_zone_effects mig) (sc_zones sc);
          n = sum_list (map snd rs);
          sc1 = sc\<lparr>sc_zones := map fst rs\<rparr>
      in (if 0 < n then bump_zones_revision sc1 else sc1, n))"

definition scenes_total :: "(scene \<Rightarrow> nat) \<Rightarrow> scene_manager \<Rightarrow> nat" where
  "scenes_total f M = (\<Sum>i \<in> fmdom' (m_scenes M). case fmlookup (m_scenes M) i of None \<Rightarrow> 0 | Some sc \<Rightarrow> f sc)"

definition remap_effect_ids :: "scene_manager \<Rightarrow> (effect_id, effect_id) fmap \<Rightarrow> scene_manager \<times> nat" where
  "remap_effect_ids M mig =
     (let ds = map (migrate_zone_effects mig) (m_defaults M);
          migrated = scenes_total (\<lambda>sc. snd (migrate_scene_effects mig sc)) M + sum_list (map snd ds);
          M1 = M\<lparr>m_scenes := fmmap (\<lambda>sc. fst (migrate_scene_effects mig sc)) (m_scenes M),
                 m_defaults := map fst ds\<rparr>
      in (invalidate_resolved_zones (refresh_resolved_zones M1), migrated))"

section \<open>Display collisions\<close>

definition retargeted_display_zones :: "zone list \<Rightarrow> (device_id, device_id) fmap \<Rightarrow> zone_id set" where
  "retargeted_display_zones zs phys =
     set (map z_id (filter (\<lambda>z. case z_display_target z of
                                 None \<Rightarrow> False
                               | Some t \<Rightarrow> fmlookup phys (df_device_id t) \<noteq> None) zs))"

text \<open>
  The groups of display zones by device, in the order of each device's first zone, with the
  positions of its zones in ascending order: the map \<^verbatim>\<open>groups\<close> and the vector \<^verbatim>\<open>group_order\<close>.
\<close>

fun group_add :: "device_id \<Rightarrow> nat \<Rightarrow> (device_id \<times> nat list) list \<Rightarrow> (device_id \<times> nat list) list" where
  "group_add d n [] = [(d, [n])]"
| "group_add d n ((e, ns) # gs) = (if e = d then (e, ns @ [n]) # gs else (e, ns) # group_add d n gs)"

fun display_groups :: "nat \<Rightarrow> zone list \<Rightarrow> (device_id \<times> nat list) list \<Rightarrow> (device_id \<times> nat list) list" where
  "display_groups n [] gs = gs"
| "display_groups n (z # zs) gs =
     display_groups (Suc n) zs
       (if z_role z \<noteq> RoleDisplay then gs
        else case z_display_target z of None \<Rightarrow> gs | Some t \<Rightarrow> group_add (df_device_id t) n gs)"

text \<open>
  The creation time in the top 48 bits of a version 7 UUID, the version being the high nibble of
  its seventh byte.
\<close>

definition uuid_v7_millis :: "128 word \<Rightarrow> u64 option" where
  "uuid_v7_millis u = (if drop_bit 76 u AND 0xF \<noteq> 7 then None else Some (ucast (drop_bit 80 u)))"

definition newest_layer_millis :: "zone \<Rightarrow> u64 option" where
  "newest_layer_millis z =
     (case those (map (\<lambda>l. uuid_v7_millis (ly_id l)) (z_layers z)) of
        None \<Rightarrow> None
      | Some [] \<Rightarrow> None
      | Some (m # ms) \<Rightarrow> Some (fold max ms m))"

definition prefer_retargeted :: "zone list \<Rightarrow> zone_id set \<Rightarrow> nat list \<Rightarrow> nat" where
  "prefer_retargeted zs retargeted candidates =
     (case find (\<lambda>n. z_id (zs ! n) \<in> retargeted) candidates of
        Some n \<Rightarrow> n
      | None \<Rightarrow> candidates ! 0)"

definition choose_survivor :: "zone list \<Rightarrow> nat list \<Rightarrow> zone_id set \<Rightarrow> nat" where
  "choose_survivor zs indices retargeted =
     (case filter (\<lambda>n. z_layers (zs ! n) \<noteq> []) indices of
        [] \<Rightarrow> prefer_retargeted zs retargeted indices
      | [only] \<Rightarrow> only
      | several \<Rightarrow>
          (case those (map (\<lambda>n. newest_layer_millis (zs ! n)) several) of
             None \<Rightarrow> prefer_retargeted zs retargeted several
           | Some assigned_at \<Rightarrow>
               let newest = fold max assigned_at 0;
                   latest = map fst (filter (\<lambda>(n, m). m = newest) (zip several assigned_at))
               in (case latest of [only] \<Rightarrow> only | _ \<Rightarrow> prefer_retargeted zs retargeted latest)))"

definition group_collapses :: "zone list \<Rightarrow> zone_id set \<Rightarrow> nat list \<Rightarrow> bool" where
  "group_collapses zs retargeted indices \<longleftrightarrow>
     \<not> (length indices < 2 \<or> \<not> list_ex (\<lambda>n. z_id (zs ! n) \<in> retargeted) indices)"

definition group_survivors ::
    "zone list \<Rightarrow> zone_id set \<Rightarrow> (zone_id, zone_id) fmap \<Rightarrow> device_id \<times> nat list \<Rightarrow> (zone_id, zone_id) fmap" where
  "group_survivors zs retargeted m g =
     (let indices = snd g
      in if \<not> group_collapses zs retargeted indices then m
         else let s = choose_survivor zs indices retargeted
              in foldl (\<lambda>m n. if n = s then m else fmupd (z_id (zs ! n)) (z_id (zs ! s)) m) m indices)"

definition collapse_survivors :: "zone list \<Rightarrow> zone_id set \<Rightarrow> (zone_id, zone_id) fmap" where
  "collapse_survivors zs retargeted =
     foldl (group_survivors zs retargeted) fmempty (display_groups 0 zs [])"

definition collapse_retargeted_display_zones :: "scene \<Rightarrow> zone_id set \<Rightarrow> scene \<times> nat" where
  "collapse_retargeted_display_zones sc retargeted =
     (if retargeted = {} then (sc, 0)
      else let survivors = collapse_survivors (sc_zones sc) retargeted
      in if fmdom' survivors = {} then (sc, 0)
         else
           (sc\<lparr>sc_zones := filter (\<lambda>z. fmlookup survivors (z_id z) = None) (sc_zones sc),
               sc_unassigned_behavior :=
                 (case sc_unassigned_behavior sc of
                    UbFallback zid \<Rightarrow>
                      (case fmlookup survivors zid of None \<Rightarrow> UbFallback zid | Some s \<Rightarrow> UbFallback s)
                  | b \<Rightarrow> b)\<rparr>,
            card (fmdom' survivors)))"

text \<open>The \<^verbatim>\<open>retain\<close> that claims displays as it goes.\<close>

fun retain_claimed :: "zone_id set \<Rightarrow> device_id set \<Rightarrow> zone list \<Rightarrow> zone list" where
  "retain_claimed retargeted claimed [] = []"
| "retain_claimed retargeted claimed (z # zs) =
     (case z_display_target z of
        None \<Rightarrow> z # retain_claimed retargeted claimed zs
      | Some t \<Rightarrow>
          if z_id z \<notin> retargeted then z # retain_claimed retargeted claimed zs
          else if df_device_id t \<in> claimed then retain_claimed retargeted claimed zs
          else z # retain_claimed retargeted (insert (df_device_id t) claimed) zs)"

definition drop_retargeted_default_duplicates :: "zone list \<Rightarrow> zone_id set \<Rightarrow> zone list \<times> nat" where
  "drop_retargeted_default_duplicates zs retargeted =
     (if retargeted = {} then (zs, 0)
      else
        let claimed = set (concat (map (\<lambda>z. case z_display_target z of None \<Rightarrow> [] | Some t \<Rightarrow> [df_device_id t])
                                       (filter (\<lambda>z. z_id z \<notin> retargeted) zs)));
            kept = retain_claimed retargeted claimed zs
        in (kept, length zs - length kept))"

section \<open>Device identities\<close>

definition remap_zone_device_bindings ::
    "(string, string) fmap \<Rightarrow> (device_id, device_id) fmap \<Rightarrow> zone \<Rightarrow> zone \<times> nat" where
  "remap_zone_device_bindings lids phys z =
     (let outs = lay_zones (z_layout z);
          hits = length (filter (\<lambda>x. fmlookup lids (out_device_id x) \<noteq> None) outs);
          outs' = map (\<lambda>x. case fmlookup lids (out_device_id x) of
                             None \<Rightarrow> x
                           | Some canonical \<Rightarrow> x\<lparr>out_device_id := canonical\<rparr>) outs;
          z1 = z\<lparr>z_layout := (z_layout z)\<lparr>lay_zones := outs'\<rparr>\<rparr>
      in case z_display_target z of
           None \<Rightarrow> (z1, hits)
         | Some t \<Rightarrow>
             (case fmlookup phys (df_device_id t) of
                None \<Rightarrow> (z1, hits)
              | Some canonical \<Rightarrow> (z1\<lparr>z_display_target := Some (t\<lparr>df_device_id := canonical\<rparr>)\<rparr>, Suc hits)))"

definition remap_zones ::
    "(string, string) fmap \<Rightarrow> (device_id, device_id) fmap \<Rightarrow> zone list \<Rightarrow> zone list \<times> nat" where
  "remap_zones lids phys zs =
     (let rs = map (remap_zone_device_bindings lids phys) zs in (map fst rs, sum_list (map snd rs)))"

definition remap_scene_devices ::
    "(string, string) fmap \<Rightarrow> (device_id, device_id) fmap \<Rightarrow> scene \<Rightarrow> scene \<times> nat" where
  "remap_scene_devices lids phys sc =
     (let retargeted = retargeted_display_zones (sc_zones sc) phys;
          (zs, n) = remap_zones lids phys (sc_zones sc);
          (sc1, k) = collapse_retargeted_display_zones (sc\<lparr>sc_zones := zs\<rparr>) retargeted
      in (if 0 < n + k then bump_zones_revision sc1 else sc1, n + k))"

definition remap_device_bindings ::
    "scene_manager \<Rightarrow> (string, string) fmap \<Rightarrow> (device_id, device_id) fmap \<Rightarrow> scene_manager \<times> nat" where
  "remap_device_bindings M lids phys =
     (let retargeted = retargeted_display_zones (m_defaults M) phys;
          (ds, n) = remap_zones lids phys (m_defaults M);
          (ds1, k) = drop_retargeted_default_duplicates ds retargeted;
          migrated = scenes_total (\<lambda>sc. snd (remap_scene_devices lids phys sc)) M + n + k;
          M1 = M\<lparr>m_scenes := fmmap (\<lambda>sc. fst (remap_scene_devices lids phys sc)) (m_scenes M),
                 m_defaults := ds1\<rparr>
      in (if 0 < migrated then invalidate_resolved_zones (refresh_resolved_zones M1) else M1, migrated))"

section \<open>The machine\<close>

text \<open>
  \<^verbatim>\<open>priority_stack_mut\<close> hands out the stack itself: what is done to it reaches neither the history nor
  the resolved zones.
\<close>

definition priority_stack_mut :: "scene_manager \<Rightarrow> (priority_stack \<Rightarrow> priority_stack) \<Rightarrow> scene_manager" where
  "priority_stack_mut M f = M\<lparr>m_stack := f (m_stack M)\<rparr>"

datatype scene_op =
    OpInstallDefault spatial_layout zone_id instant
  | OpCreate scene
  | OpUpdate scene
  | OpDelete scene_id
  | OpActivate scene_id "transition_spec option" instant
  | OpDeactivate
  | OpPriorityStack stack_op
  | OpInvalidate
  | OpRemapEffects "(effect_id, effect_id) fmap"
  | OpRemapDevices "(string, string) fmap" "(device_id, device_id) fmap"
  | OpUpsertPrimary effect_id controls "preset_id option" spatial_layout zone_id layer_id
  | OpUpsertDisplay device_id string effect_id controls spatial_layout zone_id layer_id
  | OpEnsureSurface device_id string spatial_layout zone_id
  | OpClearDisplay device_id string spatial_layout zone_id
  | OpCreateZone scene_id string "string option" "u32 \<times> u32" zone_id
  | OpDeleteZone scene_id zone_id
  | OpUpdateZoneMeta scene_id zone_id zone_meta_patch
  | OpAssignOutput scene_id zone_id zone_output output_placement
  | OpUnassignOutput scene_id string
  | OpSetUnassigned scene_id unassigned_behavior
  | OpUpdateZoneLayout scene_id zone_id spatial_layout
  | OpPatchTarget zone_id "blend_mode option" "f32 option"
  | OpInsertLayer scene_id zone_id scene_layer "nat option" "u64 option"
  | OpReplaceLayers scene_id zone_id "scene_layer list"
  | OpRemoveLayer scene_id zone_id layer_id "u64 option"
  | OpReorderLayers scene_id zone_id "layer_id list" "u64 option"
  | OpPatchLayerControls scene_id zone_id layer_id controls "u64 option"
  | OpPatchLayerBindings scene_id zone_id layer_id controls "string list" "u64 option"
  | OpRemoveDisplayZones device_id
  | OpPatchZoneControls zone_id controls
  | OpApplyEffect zone_id effect_id controls "preset_id option" layer_id
  | OpClearEffect zone_id
  | OpSyncLayout spatial_layout
  | OpSetDefaultZone zone
  | OpRemoveDefaultZone device_id

primrec scene_exec :: "scene_manager \<Rightarrow> scene_op \<Rightarrow> scene_manager option" where
  "scene_exec M (OpInstallDefault lay zid now) = Some (install_default_scene M lay zid now)"
| "scene_exec M (OpCreate sc) = Some (fst (scene_create M sc))"
| "scene_exec M (OpUpdate sc) = Some (fst (scene_update M sc))"
| "scene_exec M (OpDelete i) = Some (fst (scene_delete M i))"
| "scene_exec M (OpActivate i ov now) = Some (fst (scene_activate M i ov now))"
| "scene_exec M OpDeactivate = Some (scene_deactivate_current M)"
| "scene_exec M (OpPriorityStack sop) = Some (priority_stack_mut M (\<lambda>s. stack_exec s sop))"
| "scene_exec M OpInvalidate = Some (invalidate_resolved_zones M)"
| "scene_exec M (OpRemapEffects mig) = Some (fst (remap_effect_ids M mig))"
| "scene_exec M (OpRemapDevices lids phys) = Some (fst (remap_device_bindings M lids phys))"
| "scene_exec M (OpUpsertPrimary e ctl pre lay zid lid) =
     map_option fst (upsert_primary_zone M e ctl pre lay zid lid)"
| "scene_exec M (OpUpsertDisplay d nm e ctl lay zid lid) =
     map_option fst (upsert_display_zone M d nm e ctl lay zid lid)"
| "scene_exec M (OpEnsureSurface d nm lay zid) = map_option fst (ensure_display_zone_surface M d nm lay zid)"
| "scene_exec M (OpClearDisplay d nm lay zid) = map_option fst (clear_display_zone_assignment M d nm lay zid)"
| "scene_exec M (OpCreateZone i nm col cv zid) = Some (fst (create_zone M i nm col cv zid))"
| "scene_exec M (OpDeleteZone i zid) = Some (fst (delete_zone M i zid))"
| "scene_exec M (OpUpdateZoneMeta i zid p) = Some (fst (update_zone_meta M i zid p))"
| "scene_exec M (OpAssignOutput i zid x pl) = Some (fst (assign_output_to_zone M i zid x pl))"
| "scene_exec M (OpUnassignOutput i o_id) = Some (fst (unassign_output M i o_id))"
| "scene_exec M (OpSetUnassigned i b) = Some (fst (set_unassigned_behavior M i b))"
| "scene_exec M (OpUpdateZoneLayout i zid lay) = Some (fst (update_zone_layout M i zid lay))"
| "scene_exec M (OpPatchTarget zid b v) = Some (fst (patch_display_zone_target M zid b v))"
| "scene_exec M (OpInsertLayer i zid l n v) = map_option fst (insert_zone_layer M i zid l n v)"
| "scene_exec M (OpReplaceLayers i zid ls) = map_option fst (replace_zone_layer_stack M i zid ls)"
| "scene_exec M (OpRemoveLayer i zid lid v) = map_option fst (remove_zone_layer M i zid lid v)"
| "scene_exec M (OpReorderLayers i zid ids v) = map_option fst (reorder_zone_layers M i zid ids v)"
| "scene_exec M (OpPatchLayerControls i zid lid upd v) =
     map_option fst (patch_zone_layer_effect_controls M i zid lid upd v)"
| "scene_exec M (OpPatchLayerBindings i zid lid upd cl v) =
     map_option fst (patch_zone_layer_controls_and_bindings M i zid lid upd cl v)"
| "scene_exec M (OpRemoveDisplayZones d) =
     Some (fst (remove_display_zones_for_device M d (sorted_list_of_fset (fmdom (m_scenes M)))))"
| "scene_exec M (OpPatchZoneControls zid upd) = Some (fst (patch_zone_controls M zid upd))"
| "scene_exec M (OpApplyEffect zid e ctl pre lid) = Some (fst (apply_effect_to_zone M zid e ctl pre lid))"
| "scene_exec M (OpClearEffect zid) = Some (fst (clear_zone_effect M zid))"
| "scene_exec M (OpSyncLayout lay) = Some (fst (sync_primary_zone_layout M lay))"
| "scene_exec M (OpSetDefaultZone z) = Some (set_default_display_zone M z)"
| "scene_exec M (OpRemoveDefaultZone d) = Some (fst (remove_default_display_zone M d))"

end
