(* ===== verification/Scene_Cache.thy ===== *)
theory Scene_Cache
  imports Scene_Remap
begin

text \<open>
  The cache of resolved zones. Every operation of the scene manager leaves it equal to what a
  recomputation would give, moves its revision forward whenever the zones change, and keeps the
  stack and the history on registered scenes: the relation \<open>keeps\<close>, one lemma per operation. The
  exception is \<^verbatim>\<open>priority_stack_mut\<close>, which changes the stack behind the cache; the next activation
  makes up for it.
  No operation reaches one of the source's \<^verbatim>\<open>expect\<close>s.
\<close>

section \<open>Vectors\<close>

lemma find_position_Some:
  "find_position P xs = Some n \<Longrightarrow> n < length xs \<and> P (xs ! n) \<and> (\<forall>m < n. \<not> P (xs ! m))"
  by (induction xs arbitrary: n) (auto split: if_splits simp: less_Suc_eq_0_disj)

lemma find_position_None: "find_position P xs = None \<longleftrightarrow> (\<forall>x \<in> set xs. \<not> P x)"
  by (induction xs) auto

lemma find_in_set: "find P xs = Some x \<Longrightarrow> x \<in> set xs \<and> P x"
  by (induction xs) (auto split: if_splits)

lemma find_by_position:
  "find P xs = (case find_position P xs of None \<Rightarrow> None | Some n \<Rightarrow> Some (xs ! n))"
  by (induction xs) (auto split: option.split)

lemma update_first_by_position:
  "update_first P f xs = (case find_position P xs of None \<Rightarrow> xs | Some n \<Rightarrow> xs[n := f (xs ! n)])"
  by (induction xs) (auto split: option.split)

lemma length_update_first [simp]: "length (update_first P f xs) = length xs"
  by (induction xs) auto

lemma map_update_first: "(\<And>x. x \<in> set xs \<Longrightarrow> P x \<Longrightarrow> g (f x) = g x) \<Longrightarrow> map g (update_first P f xs) = map g xs"
  by (induction xs) auto

lemma update_first_cong: "find P xs = Some x \<Longrightarrow> update_first P (\<lambda>_. f x) xs = update_first P f xs"
  by (induction xs) (auto split: if_splits)

lemma find_update_first: "find P xs = Some x \<Longrightarrow> P (f x) \<Longrightarrow> find P (update_first P f xs) = Some (f x)"
  by (induction xs) (auto split: if_splits)

lemma update_first_id: "find P xs = Some x \<Longrightarrow> f x = x \<Longrightarrow> update_first P f xs = xs"
  by (induction xs) (auto split: if_splits)

lemma mset_list_update: "n < length xs \<Longrightarrow> mset (xs[n := x]) = mset (x # vec_remove n xs)"
  by (simp add: vec_remove_def upd_conv_take_nth_drop)

lemma mset_vec_remove: "n < length xs \<Longrightarrow> mset xs = mset (xs ! n # vec_remove n xs)"
  using mset_list_update [of n xs "xs ! n"] by simp

lemma mset_vec_insert: "mset (vec_insert n x xs) = add_mset x (mset xs)"
  by (simp add: vec_insert_def flip: union_code mset_append)

lemma fmupd_same [simp]: "fmlookup m k = Some v \<Longrightarrow> fmupd k v m = m"
  by (rule fmap_ext) auto

section \<open>The cache of resolved zones\<close>

definition resolve :: "scene option \<Rightarrow> zone list \<Rightarrow> zone list" where
  "resolve act defaults =
     (case act of None \<Rightarrow> [] | Some sc \<Rightarrow> sc_zones sc)
     @ filter (\<lambda>z. case z_display_target z of
                     None \<Rightarrow> False
                   | Some t \<Rightarrow> \<not> (case act of
                        None \<Rightarrow> False
                      | Some sc \<Rightarrow> (case display_zone_for sc (df_device_id t) of
                                     None \<Rightarrow> False
                                   | Some w \<Rightarrow> effect_layer_id w \<noteq> None))) defaults"

lemma next_zones_resolve: "next_zones M = resolve (active_scene M) (m_defaults M)"
  unfolding next_zones_def resolve_def default_covered_def by (rule refl)

lemma active_cong:
  "m_stack M = m_stack N \<Longrightarrow> m_scenes M = m_scenes N \<Longrightarrow>
     active_scene_id M = active_scene_id N \<and> active_scene M = active_scene N"
  by (cases "stack_peek (m_stack N)") (simp_all add: active_scene_def active_scene_id_def)

definition coherent :: "scene_manager \<Rightarrow> bool" where
  "coherent M \<longleftrightarrow> m_resolved M = next_zones M"

text \<open>
  What the render thread relies on when it compares revisions: the counter never goes back, and
  as long as it has not reached its ceiling an unchanged counter means unchanged zones.
\<close>

definition fenced :: "scene_manager \<Rightarrow> scene_manager \<Rightarrow> bool" where
  "fenced M M' \<longleftrightarrow>
     m_resolved_revision M \<le> m_resolved_revision M'
     \<and> (m_resolved_revision M' = m_resolved_revision M \<longrightarrow> m_resolved_revision M \<noteq> - 1
        \<longrightarrow> m_resolved M' = m_resolved M)"

lemma saturating_succ_le: "w \<le> saturating_succ w" for w :: "'a::len word"
proof -
  have "unat w < 2 ^ LENGTH('a)" by (rule unsigned_less)
  then show ?thesis using unat_saturating_succ [of w] unfolding word_le_nat_alt by linarith
qed

lemma saturating_succ_eq: "saturating_succ w = w \<longleftrightarrow> w = - 1" for w :: "'a::len word"
  by (simp add: saturating_succ_def)

lemma fenced_refl [simp]: "fenced M M"
  by (simp add: fenced_def)

lemma fenced_trans: "fenced M N \<Longrightarrow> fenced N K \<Longrightarrow> fenced M K"
  unfolding fenced_def by (metis order.trans order_antisym)

lemma refresh_fields [simp]:
  "m_scenes (refresh_resolved_zones M) = m_scenes M"
  "m_stack (refresh_resolved_zones M) = m_stack M"
  "m_history (refresh_resolved_zones M) = m_history M"
  "m_defaults (refresh_resolved_zones M) = m_defaults M"
  "m_resolved (refresh_resolved_zones M) = next_zones M"
  by (simp_all add: refresh_resolved_zones_def)

lemma refresh_active [simp]:
  "active_scene_id (refresh_resolved_zones M) = active_scene_id M"
  "active_scene (refresh_resolved_zones M) = active_scene M"
  "next_zones (refresh_resolved_zones M) = next_zones M"
  using active_cong [of "refresh_resolved_zones M" M] by (simp_all add: next_zones_resolve)

lemma invalidate_fields [simp]:
  "m_scenes (invalidate_resolved_zones M) = m_scenes M"
  "m_stack (invalidate_resolved_zones M) = m_stack M"
  "m_history (invalidate_resolved_zones M) = m_history M"
  "m_defaults (invalidate_resolved_zones M) = m_defaults M"
  "m_resolved (invalidate_resolved_zones M) = m_resolved M"
  by (simp_all add: invalidate_resolved_zones_def)

lemma invalidate_active [simp]:
  "active_scene_id (invalidate_resolved_zones M) = active_scene_id M"
  "active_scene (invalidate_resolved_zones M) = active_scene M"
  "next_zones (invalidate_resolved_zones M) = next_zones M"
  using active_cong [of "invalidate_resolved_zones M" M] by (simp_all add: next_zones_resolve)

lemma put_simps [simp]:
  "m_scenes (put_scene M i sc) = fmupd i sc (m_scenes M)"
  "m_stack (put_scene M i sc) = m_stack M"
  "m_history (put_scene M i sc) = m_history M"
  "m_defaults (put_scene M i sc) = m_defaults M"
  "m_resolved (put_scene M i sc) = m_resolved M"
  "m_resolved_revision (put_scene M i sc) = m_resolved_revision M"
  "active_scene_id (put_scene M i sc) = active_scene_id M"
  by (simp_all add: put_scene_def active_scene_id_def)

lemma coherent_refresh [simp]: "coherent (refresh_resolved_zones M)"
  by (simp add: coherent_def)

lemma fenced_refresh:
  "m_resolved M' = m_resolved M \<Longrightarrow> m_resolved_revision M' = m_resolved_revision M
     \<Longrightarrow> fenced M (refresh_resolved_zones M')"
  by (auto simp: fenced_def refresh_resolved_zones_def saturating_succ_le saturating_succ_eq zones_eq_def)

lemma fenced_invalidate: "fenced M N \<Longrightarrow> fenced M (invalidate_resolved_zones N)"
  by (rule fenced_trans, assumption)
    (auto simp: fenced_def invalidate_resolved_zones_def saturating_succ_le)

section \<open>Registered scenes\<close>

text \<open>
  The store is keyed by the scenes' identifiers, the stack and the history name registered scenes,
  the stack is in its order and every default zone has its own display.
\<close>

definition sane :: "scene_manager \<Rightarrow> bool" where
  "sane M \<longleftrightarrow>
     (\<forall>i sc. fmlookup (m_scenes M) i = Some sc \<longrightarrow> sc_id sc = i)
     \<and> se_scene_id ` set (m_stack M) \<subseteq> fmdom' (m_scenes M)
     \<and> set (m_history M) \<subseteq> fmdom' (m_scenes M)
     \<and> stack_sorted (m_stack M)
     \<and> list_all (\<lambda>z. z_display_target z \<noteq> None) (m_defaults M)
     \<and> distinct (map (\<lambda>z. df_device_id (the (z_display_target z))) (m_defaults M))"

lemma sane_cache [simp]:
  "sane (refresh_resolved_zones M) = sane M" "sane (invalidate_resolved_zones M) = sane M"
  by (simp_all add: sane_def)

lemma coherent_invalidate [simp]: "coherent (invalidate_resolved_zones M) = coherent M"
  by (simp add: coherent_def)

definition keeps :: "scene_manager \<Rightarrow> scene_manager \<Rightarrow> bool" where
  "keeps M M' \<longleftrightarrow> (sane M \<longrightarrow> sane M') \<and> (sane M \<longrightarrow> coherent M \<longrightarrow> coherent M') \<and> fenced M M'"

named_theorems keeps_intros \<open>edits that keep the manager's invariant and the revision fence\<close>

lemma keeps_refl [keeps_intros]: "keeps M M"
  by (simp add: keeps_def)

lemma keeps_trans: "keeps M N \<Longrightarrow> keeps N K \<Longrightarrow> keeps M K"
  unfolding keeps_def using fenced_trans by blast

lemma keeps_invalidate [keeps_intros]: "keeps M N \<Longrightarrow> keeps M (invalidate_resolved_zones N)"
  by (simp add: keeps_def fenced_invalidate)

lemma keeps_refresh:
  assumes "m_resolved N = m_resolved M" "m_resolved_revision N = m_resolved_revision M"
    "sane M \<Longrightarrow> sane N"
  shows "keeps M (refresh_resolved_zones N)"
  using fenced_refresh [OF assms(1,2)] assms(3) by (simp add: keeps_def)

lemma sane_put:
  "sane M \<Longrightarrow> sc_id sc = i \<Longrightarrow> sane (put_scene M i sc)"
  unfolding sane_def by (auto split: if_splits)

lemma sane_lookup: "sane M \<Longrightarrow> fmlookup (m_scenes M) i = Some sc \<Longrightarrow> sc_id sc = i"
  by (simp add: sane_def)

lemma keeps_refresh_put [keeps_intros]:
  "fmlookup (m_scenes M) i = Some sc \<Longrightarrow> sc_id sc' = sc_id sc \<Longrightarrow> keeps M (refresh_resolved_zones (put_scene M i sc'))"
  by (rule keeps_refresh) (simp_all add: sane_put sane_lookup)

lemma keeps_put_inactive:
  assumes "sane M \<Longrightarrow> active_scene_id M \<noteq> Some i \<and> sc_id sc' = i"
  shows "keeps M (put_scene M i sc')"
proof -
  have "active_scene (put_scene M i sc') = active_scene M" if "sane M"
    using assms [OF that] by (cases "active_scene_id M") (auto simp: active_scene_def)
  then show ?thesis using assms
    by (simp add: keeps_def coherent_def next_zones_resolve sane_put fenced_def)
qed

lemma keeps_commit_scene: "(sane M \<Longrightarrow> sc_id sc' = i) \<Longrightarrow> keeps M (commit_scene M i sc')"
  using keeps_put_inactive [of M i sc'] keeps_refresh [of "put_scene M i sc'" M]
  by (simp add: commit_scene_def sane_put)

lemma keeps_commit [keeps_intros]:
  "fmlookup (m_scenes M) i = Some sc \<Longrightarrow> sc_id sc' = sc_id sc \<Longrightarrow> keeps M (commit_scene M i sc')"
  by (rule keeps_commit_scene) (simp add: sane_lookup)

lemma put_same: "fmlookup (m_scenes M) i = Some sc \<Longrightarrow> put_scene M i sc = M"
  by (simp add: put_scene_def)

lemma bump_ids [simp]:
  "sc_id (bump_zones_revision sc) = sc_id sc" "sc_zones (bump_zones_revision sc) = sc_zones sc"
  by (simp_all add: bump_zones_revision_def)

lemma active_in_scenes: "sane M \<Longrightarrow> active_scene_id M = Some i \<Longrightarrow> i \<in> fmdom' (m_scenes M)"
  by (cases "m_stack M") (auto simp: sane_def active_scene_id_def stack_peek_def)

lemma active_registered: "sane M \<Longrightarrow> active_scene_id M = Some i \<Longrightarrow> \<exists>sc. fmlookup (m_scenes M) i = Some sc"
  using active_in_scenes [of M i] by (auto simp: fmlookup_dom'_iff)

lemma keeps_install: "keeps M (install_default_scene M lay zid now)"
proof (cases "fmlookup (m_scenes M) SCENE_DEFAULT")
  case None
  then show ?thesis
    unfolding install_default_scene_def Let_def
    by (simp del: refresh_fields) (rule keeps_refresh; auto simp: sane_def)
qed (simp add: install_default_scene_def keeps_refl)

lemma keeps_create: "keeps M (fst (scene_create M sc))"
proof (cases "fmlookup (m_scenes M) (sc_id sc)")
  case None
  then have "sane M \<Longrightarrow> active_scene_id M \<noteq> Some (sc_id sc)"
    using active_registered [of M "sc_id sc"] by auto
  then have "keeps M (put_scene M (sc_id sc) sc)" by (simp add: keeps_put_inactive)
  then show ?thesis using None by (auto simp: scene_create_def keeps_refl split: sum.split)
qed (simp add: scene_create_def keeps_refl)

lemma keeps_update: "keeps M (fst (scene_update M sc))"
  by (auto simp: scene_update_def keeps_refl keeps_commit_scene split: sum.split option.split)

lemma keeps_delete: "keeps M (fst (scene_delete M i))"
  unfolding scene_delete_def
  by (auto split: option.split intro!: keeps_refl keeps_refresh)
    (auto simp: sane_def stack_remove_def Let_def stack_sorted_def sorted_wrt_filter)

lemma keeps_activate: "keeps M (fst (scene_activate M i ov now))"
proof (cases "fmlookup (m_scenes M) i")
  case (Some sc)
  have "\<exists>N. fst (scene_activate M i ov now) = refresh_resolved_zones N \<and> m_resolved N = m_resolved M
      \<and> m_resolved_revision N = m_resolved_revision M \<and> m_scenes N = m_scenes M
      \<and> m_defaults N = m_defaults M \<and> m_stack N = stack_push (m_stack M) (sc_id sc) (sc_priority sc) now
      \<and> set (m_history N) \<subseteq> set (m_history M) \<union> set_option (active_scene_id M)"
    using Some by (cases "active_scene_id M") (auto simp: scene_activate_def Let_def)
  then obtain N where N: "fst (scene_activate M i ov now) = refresh_resolved_zones N"
    "m_resolved N = m_resolved M" "m_resolved_revision N = m_resolved_revision M" "m_scenes N = m_scenes M"
    "m_defaults N = m_defaults M" "m_stack N = stack_push (m_stack M) (sc_id sc) (sc_priority sc) now"
    "set (m_history N) \<subseteq> set (m_history M) \<union> set_option (active_scene_id M)"
    by blast
  have "sane N" if "sane M"
  proof -
    have "set_option (active_scene_id M) \<subseteq> fmdom' (m_scenes M)"
      using active_in_scenes [OF that] by (cases "active_scene_id M") auto
    moreover have "i \<in> fmdom' (m_scenes M)" using Some by (rule fmdom'I)
    ultimately show ?thesis using that N sane_lookup [OF that Some]
      unfolding sane_def by auto
  qed
  then show ?thesis unfolding N(1) by (rule keeps_refresh [OF N(2,3)])
qed (simp add: scene_activate_def keeps_refl)

lemma keeps_deactivate: "keeps M (scene_deactivate_current M)"
proof (cases "m_stack M")
  case Nil
  then show ?thesis
    by (auto simp: scene_deactivate_current_def stack_pop_def intro!: keeps_refresh keeps_refl)
      (auto simp: sane_def)
next
  case (Cons e es)
  have "sane M \<Longrightarrow> sane (M\<lparr>m_stack := es, m_transition_plan := None,
      m_history := filter (\<lambda>s. s \<noteq> se_scene_id e) (m_history M)\<rparr>)"
    using Cons by (auto simp: sane_def stack_sorted_def)
  then show ?thesis
    using Cons by (auto simp: scene_deactivate_current_def stack_pop_def intro!: keeps_refresh keeps_refl)
qed

lemma keeps_upsert_primary:
  "upsert_primary_zone M e ctl pre lay zid lid = Some (M', r) \<Longrightarrow> keeps M M'"
  unfolding upsert_primary_zone_def Let_def
  by (auto split: option.splits prod.splits if_splits intro!: keeps_refl keeps_refresh_put)

lemma keeps_return: "keeps M N \<Longrightarrow> return_display_zone N d = Some (M', r) \<Longrightarrow> keeps M M'"
  by (auto simp: return_display_zone_def split: option.splits)

lemma keeps_upsert_display:
  "upsert_display_zone M d nm e ctl lay zid lid = Some (M', r) \<Longrightarrow> keeps M M'"
  unfolding upsert_display_zone_def Let_def
  by (auto split: option.splits intro: keeps_refl elim!: keeps_return [rotated] intro!: keeps_refresh_put)

lemma sync_display_surface_unchanged:
  "\<not> snd (sync_display_surface d nm lay z) \<Longrightarrow> fst (sync_display_surface d nm lay z) = z"
  by (cases "z_role z = RoleDisplay"; cases "z_display_target z"; cases "layout_eq (z_layout z) lay";
      cases "trim (z_name z) = []")
    (auto simp add: sync_display_surface_def Let_def split: if_split_asm)

lemma clear_display_surface_unchanged:
  "\<not> snd (clear_display_surface d nm lay z) \<Longrightarrow> fst (clear_display_surface d nm lay z) = z"
  by (cases z) (auto simp: clear_display_surface_def Let_def layout_eq_def target_eq_def)

lemma keeps_surface:
  assumes edit: "\<And>z. \<not> snd (edit z) \<Longrightarrow> fst (edit z) = z"
    and res: "upsert_surface M d edit fresh = Some (M', r)"
  shows "keeps M M'"
proof (cases "Option.bind (active_scene_id M) (fmlookup (m_scenes M))")
  case None
  then show ?thesis using res
    by (auto simp: upsert_surface_def bind_eq_None_conv intro: keeps_refl split: option.splits)
next
  case (Some sc)
  then obtain i where i: "active_scene_id M = Some i" "fmlookup (m_scenes M) i = Some sc"
    by (auto simp: bind_eq_Some_conv)
  show ?thesis
  proof (cases "display_zone_for sc d")
    case None
    then show ?thesis using res i
      by (auto simp: upsert_surface_def Let_def elim!: keeps_return [rotated] intro!: keeps_refresh_put)
  next
    case (Some z)
    have "sc\<lparr>sc_zones := update_first (is_display_for d) (\<lambda>z. fst (edit z)) (sc_zones sc)\<rparr> = sc"
      if "\<not> snd (edit z)"
      using update_first_id [of "is_display_for d" "sc_zones sc" z "\<lambda>z. fst (edit z)"]
        Some edit [OF that] by (simp add: display_zone_for_def)
    then show ?thesis using res i Some
      by (auto simp: upsert_surface_def Let_def put_same keeps_refl split: if_splits
          elim!: keeps_return [rotated] intro!: keeps_refresh_put)
  qed
qed

lemma keeps_edit_unlocked:
  assumes "\<And>sc sc' r. edit sc = Inr (sc', r) \<Longrightarrow> sc_id sc' = sc_id sc"
  shows "keeps M (fst (edit_unlocked M i edit))"
  using assms
  by (auto simp: edit_unlocked_def split: option.split sum.split intro!: keeps_refl keeps_commit)

lemma keeps_create_zone: "keeps M (fst (create_zone M i nm col cv zid))"
  unfolding create_zone_def by (rule keeps_edit_unlocked) (auto simp: Let_def split: prod.splits)

lemma keeps_delete_zone: "keeps M (fst (delete_zone M i zid))"
  unfolding delete_zone_def
  by (rule keeps_edit_unlocked) (auto simp: Let_def split: option.splits if_splits)

lemma keeps_assign: "keeps M (fst (assign_output_to_zone M i zid x pl))"
  unfolding assign_output_to_zone_def by (rule keeps_edit_unlocked) (auto split: option.splits)

lemma keeps_unassign: "keeps M (fst (unassign_output M i o_id))"
  unfolding unassign_output_def by (rule keeps_edit_unlocked) (auto split: if_splits)

lemma keeps_zone_layout: "keeps M (fst (update_zone_layout M i zid lay))"
  unfolding update_zone_layout_def
  by (rule keeps_edit_unlocked) (auto simp: Let_def split: option.splits if_splits)

lemma keeps_unassigned: "keeps M (fst (set_unassigned_behavior M i b))"
proof -
  have "keeps M (fst (edit_unlocked M i (\<lambda>sc.
        case b of
          UbFallback zid \<Rightarrow>
            if list_ex (\<lambda>z. z_id z = zid \<and> z_display_target z = None) (sc_zones sc)
            then Inr (sc\<lparr>sc_unassigned_behavior := b\<rparr>, b) else Inl ZmZoneMissing
        | _ \<Rightarrow> Inr (sc\<lparr>sc_unassigned_behavior := b\<rparr>, b))))"
    by (rule keeps_edit_unlocked) (auto split: unassigned_behavior.splits if_splits)
  then show ?thesis
    unfolding set_unassigned_behavior_def
    by (auto split: prod.split sum.split intro: keeps_invalidate)
qed

lemma keeps_zone_meta: "keeps M (fst (update_zone_meta M i zid p))"
  unfolding update_zone_meta_def Let_def
  by (auto split: option.split prod.split intro!: keeps_refl keeps_commit)

lemma keeps_edit_active: "keeps M (fst (edit_active_zone M zid f))"
  unfolding edit_active_zone_def Let_def
  by (auto split: option.split intro!: keeps_refl keeps_refresh_put simp: edit_zone_def)

lemma keeps_apply_effect: "keeps M (fst (apply_effect_to_zone M zid e ctl pre lid))"
  unfolding apply_effect_to_zone_def Let_def
  by (auto split: option.split intro!: keeps_refl keeps_refresh_put simp: edit_zone_def)

lemma keeps_mutate: "mutate_zone_layers M i zid v f = Some (M', r) \<Longrightarrow> keeps M M'"
  unfolding mutate_zone_layers_def Let_def
  by (auto split: option.splits if_splits sum.splits intro!: keeps_refl keeps_commit simp: edit_zone_def)

lemma keeps_replace: "replace_zone_layer_stack M i zid ls = Some (M', r) \<Longrightarrow> keeps M M'"
  unfolding replace_zone_layer_stack_def
  by (auto split: sum.splits intro: keeps_refl keeps_mutate)

lemma targets_device_iff: "targets_device d z \<longleftrightarrow> (\<exists>t. z_display_target z = Some t \<and> df_device_id t = d)"
  by (simp add: targets_device_def split: option.split)

definition default_device :: "zone \<Rightarrow> device_id" where
  "default_device z = df_device_id (the (z_display_target z))"

definition defaults_ok :: "zone list \<Rightarrow> bool" where
  "defaults_ok zs \<longleftrightarrow> list_all (\<lambda>z. z_display_target z \<noteq> None) zs \<and> distinct (map default_device zs)"

lemma sane_defaults: "sane M \<Longrightarrow> defaults_ok (m_defaults M)"
  by (simp add: sane_def defaults_ok_def default_device_def [abs_def])

lemma sane_set_defaults:
  "sane M \<Longrightarrow> (defaults_ok (m_defaults M) \<Longrightarrow> defaults_ok ds) \<Longrightarrow> sane (M\<lparr>m_defaults := ds\<rparr>)"
  by (simp add: sane_def defaults_ok_def default_device_def [abs_def])

lemma defaults_ok_filter: "defaults_ok zs \<Longrightarrow> defaults_ok (filter P zs)"
  by (auto simp: defaults_ok_def list_all_iff distinct_map_filter)

lemma defaults_ok_replace:
  "defaults_ok zs \<Longrightarrow> z_display_target z = Some t \<Longrightarrow>
     defaults_ok (update_first (targets_device (df_device_id t)) (\<lambda>old. z\<lparr>z_id := z_id old\<rparr>) zs)"
proof -
  assume ok: "defaults_ok zs" and z: "z_display_target z = Some t"
  have "map default_device (update_first (targets_device (df_device_id t)) (\<lambda>old. z\<lparr>z_id := z_id old\<rparr>) zs)
      = map default_device zs"
    by (rule map_update_first) (auto simp: targets_device_iff default_device_def z)
  moreover have "list_all (\<lambda>z. z_display_target z \<noteq> None)
      (update_first (targets_device (df_device_id t)) (\<lambda>old. z\<lparr>z_id := z_id old\<rparr>) zs)"
    using ok unfolding defaults_ok_def by (induction zs) (auto simp: z)
  ultimately show ?thesis using ok by (simp add: defaults_ok_def)
qed

lemma keeps_set_default: "keeps M (set_default_display_zone M z)"
proof (cases "z_display_target z")
  case (Some t)
  let ?P = "targets_device (df_device_id t)"
  have "defaults_ok (m_defaults M) \<Longrightarrow> \<not> list_ex ?P (m_defaults M) \<Longrightarrow> defaults_ok (m_defaults M @ [z])"
    using Some by (fastforce simp: defaults_ok_def list_ex_iff list_all_iff targets_device_iff default_device_def)
  then show ?thesis
    using Some defaults_ok_replace [of "m_defaults M" z t]
    by (auto simp: set_default_display_zone_def Let_def intro!: keeps_refresh sane_set_defaults)
qed (simp add: set_default_display_zone_def keeps_refl)

lemma keeps_remove_default: "keeps M (fst (remove_default_display_zone M d))"
proof -
  let ?kept = "filter (\<lambda>z. \<not> targets_device d z) (m_defaults M)"
  have same: "?kept = m_defaults M" if "length ?kept = length (m_defaults M)"
    using that filter_id_conv length_filter_less [of _ "m_defaults M"] by (metis less_irrefl)
  have "sane M \<Longrightarrow> sane (M\<lparr>m_defaults := ?kept\<rparr>)"
    by (rule sane_set_defaults) (simp_all add: defaults_ok_filter)
  then show ?thesis
    using same by (auto simp: remove_default_display_zone_def Let_def keeps_refl intro!: keeps_refresh)
qed

lemma align_unchanged: "\<not> snd (align_led_zone lay c z) \<Longrightarrow> fst (align_led_zone lay c z) = z"
  by (auto simp: align_led_zone_def split: if_splits)

lemma align_zones_unchanged: "align_zones lay c zs = (zs', False) \<Longrightarrow> zs' = zs"
  by (auto simp: align_zones_def list_ex_iff align_unchanged intro!: map_idI)

lemma keeps_sync: "keeps M (fst (sync_primary_zone_layout M lay))"
  by (auto dest!: align_zones_unchanged simp: sync_primary_zone_layout_def Let_def put_same keeps_refl split: option.split prod.split
      intro!: keeps_refresh_put)

section \<open>Edits of every scene at once\<close>

lemma active_scene_fmmap: "active_scene (M\<lparr>m_scenes := fmmap f (m_scenes M), m_defaults := ds\<rparr>) = map_option f (active_scene M)"
  by (cases "active_scene_id M") (auto simp: active_scene_def active_scene_id_def)

lemma sane_fmmap:
  assumes "sane M" "\<And>sc. sc_id (f sc) = sc_id sc" "defaults_ok (m_defaults M) \<Longrightarrow> defaults_ok ds"
  shows "sane (M\<lparr>m_scenes := fmmap f (m_scenes M), m_defaults := ds\<rparr>)"
proof -
  have "sane (M\<lparr>m_scenes := fmmap f (m_scenes M)\<rparr>)"
    using assms(1,2) unfolding sane_def by auto
  from sane_set_defaults [OF this] assms(3) show ?thesis by simp
qed

lemma is_display_for_filter:
  "find (is_display_for d) (filter (\<lambda>z. \<not> is_display_for d z) zs) = None"
  by (induction zs) auto

lemma keeps_remove_displays:
  "keeps M (fst (remove_display_zones_for_device M d (sorted_list_of_fset (fmdom (m_scenes M)))))"
proof -
  let ?f = "\<lambda>sc. sc\<lparr>sc_zones := filter (\<lambda>z. \<not> is_display_for d z) (sc_zones sc)\<rparr>"
  let ?N = "M\<lparr>m_scenes := fmmap ?f (m_scenes M)\<rparr>"
  let ?removed = "concat (map (\<lambda>i. case fmlookup (m_scenes M) i of
        None \<Rightarrow> []
      | Some sc \<Rightarrow> map (Pair (sc_id sc)) (filter (is_display_for d) (sc_zones sc)))
      (sorted_list_of_fset (fmdom (m_scenes M))))"
  have sane: "sane M \<Longrightarrow> sane ?N"
    using sane_fmmap [where M = M and f = ?f and ds = "m_defaults M"] by simp
  have act: "active_scene ?N = map_option ?f (active_scene M)"
    using active_scene_fmmap [where M = M and f = ?f and ds = "m_defaults M"] by simp
  have "keeps M ?N" if inactive: "\<And>i. active_scene_id M = Some i \<Longrightarrow> i \<notin> fst ` set ?removed"
  proof -
    have "map_option ?f (active_scene M) = active_scene M" if "sane M"
    proof (cases "active_scene M")
      case (Some sc)
      then obtain i where i: "active_scene_id M = Some i" "fmlookup (m_scenes M) i = Some sc"
        by (auto simp: active_scene_def split: option.splits)
      have "i |\<in>| fmdom (m_scenes M)" using i(2) by (rule fmdomI)
      then have "filter (is_display_for d) (sc_zones sc) = []"
        using inactive [OF i(1)] i(2) sane_lookup [OF that i(2)]
        by (force simp: filter_empty_conv image_iff split: option.splits)
      then show ?thesis using Some by (simp add: filter_empty_conv filter_id_conv)
    qed simp
    then show ?thesis
      using sane act by (simp add: keeps_def coherent_def next_zones_resolve fenced_def)
  qed
  moreover have "keeps M (refresh_resolved_zones ?N)"
    by (rule keeps_refresh) (simp_all add: sane)
  ultimately show ?thesis
    unfolding remove_display_zones_for_device_def Let_def fst_conv
    by (cases "active_scene_id M") auto
qed

lemma migrate_zone_effects_fields [simp]:
  "z_display_target (fst (migrate_zone_effects mig z)) = z_display_target z"
  "z_role (fst (migrate_zone_effects mig z)) = z_role z"
  "z_layout (fst (migrate_zone_effects mig z)) = z_layout z"
  by (simp_all add: migrate_zone_effects_def remap_zone_effect_ids_def bump_layers_version_def)

lemma migrate_scene_effects_id [simp]: "sc_id (fst (migrate_scene_effects mig sc)) = sc_id sc"
  by (simp add: migrate_scene_effects_def Let_def)

lemma keeps_remap_effects: "keeps M (fst (remap_effect_ids M mig))"
  unfolding remap_effect_ids_def Let_def fst_conv
  by (intro keeps_invalidate keeps_refresh)
    (auto intro!: sane_fmmap simp: defaults_ok_def default_device_def [abs_def] list_all_iff comp_def)

lemma remap_zone_fields [simp]:
  "z_id (fst (remap_zone_device_bindings lids phys z)) = z_id z"
  "z_role (fst (remap_zone_device_bindings lids phys z)) = z_role z"
  "z_layers (fst (remap_zone_device_bindings lids phys z)) = z_layers z"
  "layout_output_ids (z_layout (fst (remap_zone_device_bindings lids phys z))) = layout_output_ids (z_layout z)"
  by (auto simp: remap_zone_device_bindings_def Let_def split: option.split)

lemma remap_zone_target:
  "z_display_target (fst (remap_zone_device_bindings lids phys z)) =
     map_option (\<lambda>t. case fmlookup phys (df_device_id t) of None \<Rightarrow> t | Some c \<Rightarrow> t\<lparr>df_device_id := c\<rparr>)
       (z_display_target z)"
  by (auto simp: remap_zone_device_bindings_def Let_def split: option.split)

lemma remap_zone_zero:
  "snd (remap_zone_device_bindings lids phys z) = 0 \<Longrightarrow> fst (remap_zone_device_bindings lids phys z) = z"
  by (auto simp: remap_zone_device_bindings_def Let_def filter_empty_conv map_idI split: option.splits)

lemma remap_zones_zero: "remap_zones lids phys zs = (zs', 0) \<Longrightarrow> zs' = zs"
  by (auto simp: remap_zones_def Let_def remap_zone_zero intro!: map_idI)

lemma collapse_zero: "collapse_retargeted_display_zones sc R = (sc', 0) \<Longrightarrow> sc' = sc"
  by (auto simp: collapse_retargeted_display_zones_def Let_def card_eq_0_iff split: if_splits)

lemma collapse_id [simp]: "sc_id (fst (collapse_retargeted_display_zones sc R)) = sc_id sc"
  by (simp add: collapse_retargeted_display_zones_def Let_def)

lemma remap_scene_eq:
  "remap_scene_devices lids phys sc =
     (let n = snd (remap_zones lids phys (sc_zones sc));
          r = collapse_retargeted_display_zones (sc\<lparr>sc_zones := fst (remap_zones lids phys (sc_zones sc))\<rparr>)
                (retargeted_display_zones (sc_zones sc) phys)
      in (if 0 < n + snd r then bump_zones_revision (fst r) else fst r, n + snd r))"
  by (simp add: remap_scene_devices_def Let_def case_prod_beta)

lemma remap_scene_zero: "snd (remap_scene_devices lids phys sc) = 0 \<Longrightarrow> fst (remap_scene_devices lids phys sc) = sc"
  using remap_zones_zero [of lids phys "sc_zones sc" "fst (remap_zones lids phys (sc_zones sc))"]
    collapse_zero [of sc "retargeted_display_zones (sc_zones sc) phys"
      "fst (collapse_retargeted_display_zones sc (retargeted_display_zones (sc_zones sc) phys))"]
  by (simp add: remap_scene_eq Let_def prod_eq_iff)

lemma remap_scene_id [simp]: "sc_id (fst (remap_scene_devices lids phys sc)) = sc_id sc"
  by (simp add: remap_scene_eq Let_def)

lemma length_retain_claimed: "length (retain_claimed R c zs) \<le> length zs"
  by (induction R c zs rule: retain_claimed.induct) (auto split: option.split)

lemma retain_claimed_all: "length (retain_claimed R c zs) = length zs \<Longrightarrow> retain_claimed R c zs = zs"
proof (induction R c zs rule: retain_claimed.induct)
  case (2 R c z zs)
  then show ?case using length_retain_claimed [of R c zs]
    by (auto split: option.splits if_splits)
qed simp

lemma drop_defaults_zero: "drop_retargeted_default_duplicates zs R = (zs', 0) \<Longrightarrow> zs' = zs"
  using length_retain_claimed [of R _ zs] retain_claimed_all [of R _ zs]
  by (fastforce simp: drop_retargeted_default_duplicates_def Let_def intro: le_antisym split: if_splits)

lemma set_retain_claimed: "set (retain_claimed R c zs) \<subseteq> set zs"
  by (induction R c zs rule: retain_claimed.induct) (auto split: option.splits)

lemma retain_claimed_distinct:
  assumes "\<forall>z \<in> set zs. z_display_target z \<noteq> None"
    and "default_device ` {z \<in> set zs. z_id z \<notin> R} \<subseteq> c"
    and "distinct (map default_device (filter (\<lambda>z. z_id z \<notin> R) zs))"
  shows "distinct (map default_device (retain_claimed R c zs))
    \<and> (\<forall>z \<in> set (retain_claimed R c zs). z_id z \<in> R \<longrightarrow> default_device z \<notin> c)"
  using assms
proof (induction R c zs rule: retain_claimed.induct)
  case (2 R c z zs)
  from "2.prems"(1) obtain t where t: "z_display_target z = Some t" by auto
  then have dev: "default_device z = df_device_id t" by (simp add: default_device_def)
  note sub = set_retain_claimed [of R _ zs]
  consider "z_id z \<notin> R" | "z_id z \<in> R" "df_device_id t \<in> c" | "z_id z \<in> R" "df_device_id t \<notin> c" by blast
  then show ?case
  proof cases
    case 1
    with "2.prems" t have ih: "distinct (map default_device (retain_claimed R c zs))"
      "\<forall>z \<in> set (retain_claimed R c zs). z_id z \<in> R \<longrightarrow> default_device z \<notin> c"
      using "2.IH"(2) [OF t] by auto
    have "default_device z \<notin> default_device ` set (retain_claimed R c zs)"
    proof
      assume "default_device z \<in> default_device ` set (retain_claimed R c zs)"
      then obtain w where w: "w \<in> set (retain_claimed R c zs)" "default_device w = default_device z" by force
      have "z_id w \<notin> R" using w ih(2) "2.prems"(2) 1 by auto
      then have "w \<in> set (filter (\<lambda>z. z_id z \<notin> R) zs)" using w(1) sub by auto
      then have "default_device z \<in> default_device ` set (filter (\<lambda>z. z_id z \<notin> R) zs)"
        unfolding w(2) [symmetric] by (rule imageI)
      then show False using 1 "2.prems"(3) by simp
    qed
    then show ?thesis using ih 1 t "2.prems"(2) by auto
  next
    case 2
    then show ?thesis using "2.IH"(3) [OF t] t "2.prems" by auto
  next
    case 3
    then have "distinct (map default_device (retain_claimed R (insert (df_device_id t) c) zs))"
      "\<forall>z \<in> set (retain_claimed R (insert (df_device_id t) c) zs).
         z_id z \<in> R \<longrightarrow> default_device z \<notin> insert (df_device_id t) c"
      using "2.IH"(4) [OF t] "2.prems" by auto
    moreover have "default_device w \<noteq> df_device_id t"
      if "w \<in> set (retain_claimed R (insert (df_device_id t) c) zs)" for w
    proof (cases "z_id w \<in> R")
      case False
      then have "default_device w \<in> c" using that sub "2.prems"(2) by auto
      then show ?thesis using 3 by auto
    qed (use that calculation(2) in auto)
    ultimately show ?thesis using 3 t dev by fastforce
  qed
qed simp

lemma drop_defaults_ok:
  assumes tgt: "\<forall>z \<in> set zs. z_display_target z \<noteq> None"
    and dist: "distinct (map default_device (filter (\<lambda>z. z_id z \<notin> R) zs))"
  shows "defaults_ok (fst (drop_retargeted_default_duplicates zs R))"
proof -
  define c where "c = set (concat (map (\<lambda>z. case z_display_target z of None \<Rightarrow> [] | Some t \<Rightarrow> [df_device_id t])
                                       (filter (\<lambda>z. z_id z \<notin> R) zs)))"
  have "default_device ` {z \<in> set zs. z_id z \<notin> R} \<subseteq> c"
  proof
    fix d
    assume "d \<in> default_device ` {z \<in> set zs. z_id z \<notin> R}"
    then obtain z where z: "z \<in> set zs" "z_id z \<notin> R" "d = default_device z" by blast
    then have "z \<in> set (filter (\<lambda>z. z_id z \<notin> R) zs)"
      "d \<in> set (case z_display_target z of None \<Rightarrow> [] | Some t \<Rightarrow> [df_device_id t])"
      using tgt by (auto simp: default_device_def)
    then show "d \<in> c" unfolding c_def set_concat set_map by blast
  qed
  from retain_claimed_distinct [OF tgt this dist] have "defaults_ok (retain_claimed R c zs)"
    using tgt set_retain_claimed [of R c zs] by (auto simp: defaults_ok_def list_all_iff)
  moreover have "R = {} \<Longrightarrow> defaults_ok zs"
    using tgt dist by (simp add: defaults_ok_def list_all_iff)
  ultimately show ?thesis
    unfolding drop_retargeted_default_duplicates_def Let_def c_def by simp
qed

lemma remap_defaults_ok:
  assumes "defaults_ok zs"
  shows "defaults_ok (fst (drop_retargeted_default_duplicates (fst (remap_zones lids phys zs))
           (retargeted_display_zones zs phys)))"
proof -
  let ?R = "retargeted_display_zones zs phys"
  let ?g = "\<lambda>z. fst (remap_zone_device_bindings lids phys z)"
  have g: "fst (remap_zones lids phys zs) = map ?g zs"
    by (simp add: remap_zones_def Let_def)
  have tgt: "\<forall>z \<in> set (map ?g zs). z_display_target z \<noteq> None"
    using assms by (auto simp: defaults_ok_def list_all_iff remap_zone_target)
  have same: "default_device (?g z) = default_device z" if z: "z \<in> set zs" "z_id z \<notin> ?R" for z
  proof -
    obtain t where t: "z_display_target z = Some t"
      using assms z(1) by (auto simp: defaults_ok_def list_all_iff)
    then have "fmlookup phys (df_device_id t) = None"
      using z by (auto simp: retargeted_display_zones_def image_iff split: option.splits)
    then show ?thesis using t by (simp add: default_device_def remap_zone_target)
  qed
  have "map default_device (filter (\<lambda>z. z_id z \<notin> ?R) (map ?g zs)) = map default_device (filter (\<lambda>z. z_id z \<notin> ?R) zs)"
    using same by (simp add: filter_map comp_def)
  then have "distinct (map default_device (filter (\<lambda>z. z_id z \<notin> ?R) (map ?g zs)))"
    using assms by (simp add: defaults_ok_def distinct_map_filter)
  then show ?thesis unfolding g by (rule drop_defaults_ok [OF tgt])
qed

lemma scenes_total_zero:
  "scenes_total f M = 0 \<Longrightarrow> fmlookup (m_scenes M) i = Some sc \<Longrightarrow> f sc = 0"
  using sum_eq_0_iff [of "fmdom' (m_scenes M)"] fmdom'I [of "m_scenes M" i sc]
  by (fastforce simp: scenes_total_def)

lemma keeps_remap_devices: "keeps M (fst (remap_device_bindings M lids phys))"
proof -
  let ?R = "retargeted_display_zones (m_defaults M) phys"
  obtain ds n where ds: "remap_zones lids phys (m_defaults M) = (ds, n)" by fastforce
  obtain ds1 k where ds1: "drop_retargeted_default_duplicates ds ?R = (ds1, k)" by fastforce
  let ?f = "\<lambda>sc. fst (remap_scene_devices lids phys sc)"
  let ?t = "scenes_total (\<lambda>sc. snd (remap_scene_devices lids phys sc)) M + n + k"
  let ?N = "M\<lparr>m_scenes := fmmap ?f (m_scenes M), m_defaults := ds1\<rparr>"
  have ok: "sane M \<Longrightarrow> sane ?N"
    by (rule sane_fmmap) (use remap_defaults_ok [of "m_defaults M" lids phys] ds ds1 in auto)
  have eq: "fst (remap_device_bindings M lids phys) =
      (if 0 < ?t then invalidate_resolved_zones (refresh_resolved_zones ?N) else ?N)"
    by (simp add: remap_device_bindings_def Let_def ds ds1)
  show ?thesis
  proof (cases "0 < ?t")
    case True
    then show ?thesis unfolding eq by (auto intro!: keeps_invalidate keeps_refresh ok)
  next
    case False
    then have "scenes_total (\<lambda>sc. snd (remap_scene_devices lids phys sc)) M = 0" and nk: "n = 0" "k = 0"
      by simp_all
    from scenes_total_zero [OF this(1)] have "fmmap ?f (m_scenes M) = m_scenes M"
      by (intro fmap_ext) (auto simp: remap_scene_zero option.map_ident_strong intro!: option.map_ident_strong)
    moreover have "ds1 = m_defaults M"
      using ds ds1 remap_zones_zero drop_defaults_zero nk by metis
    ultimately have "?N = M" by simp
    then show ?thesis unfolding eq using False by (simp add: keeps_refl)
  qed
qed

section \<open>No operation panics\<close>

lemma active_after_put:
  "active_scene_id M = Some i \<Longrightarrow> active_scene (refresh_resolved_zones (put_scene M i sc)) = Some sc"
  "active_scene_id M = Some i \<Longrightarrow> active_scene (put_scene M i sc) = Some sc"
  by (simp_all add: active_scene_def)

lemma find_append:
  "find P (xs @ ys) = (case find P xs of None \<Rightarrow> find P ys | Some x \<Rightarrow> Some x)"
  by (induction xs) auto

lemma role_primary_new [simp]:
  "z_role (replace_effect_layer_stack lid e ctl cbs pre z) = z_role z"
  "z_role (default_primary_zone zid lay) = RolePrimary"
  by (simp_all add: replace_effect_layer_stack_def bump_layers_version_def default_primary_zone_def new_zone_def)

lemma upsert_primary_total: "upsert_primary_zone M e ctl pre lay zid lid \<noteq> None"
proof (cases "Option.bind (active_scene_id M) (fmlookup (m_scenes M))")
  case (Some sc)
  then obtain i where i: "active_scene_id M = Some i" "fmlookup (m_scenes M) i = Some sc"
    by (auto simp: bind_eq_Some_conv)
  show ?thesis
    using i by (cases "primary_zone sc")
      (auto simp: upsert_primary_zone_def Let_def active_after_put primary_zone_def find_append
        find_update_first bump_controls_version_def)
qed (auto simp: upsert_primary_zone_def bind_eq_None_conv split: option.splits)

lemma return_display_total:
  "active_scene N = Some sc \<Longrightarrow> find (is_display_for d) (sc_zones sc) = Some z \<Longrightarrow> return_display_zone N d \<noteq> None"
  by (simp add: return_display_zone_def display_zone_for_def)

lemma is_display_for_new [simp]:
  "is_display_for d (z\<lparr>z_display_target := Some (display_face_target_new d), z_enabled := b, z_role := RoleDisplay, z_name := nm\<rparr>)"
  "is_display_for d (new_zone zid nm ds lay col (Some (display_face_target_new d)) RoleDisplay)"
  "is_display_for d (replace_effect_layer_stack lid e ctl cbs pre z) = is_display_for d z"
  by (simp_all add: is_display_for_def targets_device_def display_face_target_new_def new_zone_def
      replace_effect_layer_stack_def bump_layers_version_def)

lemma upsert_display_total: "upsert_display_zone M d nm e ctl lay zid lid \<noteq> None"
proof (cases "Option.bind (active_scene_id M) (fmlookup (m_scenes M))")
  case (Some sc)
  then obtain i where i: "active_scene_id M = Some i" "fmlookup (m_scenes M) i = Some sc"
    by (auto simp: bind_eq_Some_conv)
  note total = return_display_total [OF active_after_put(1) [OF i(1)]]
  show ?thesis
    using i by (cases "find (is_display_for d) (sc_zones sc)")
      (simp_all add: upsert_display_zone_def display_zone_for_def find_append find_update_first
        total del: not_None_eq)
qed (auto simp: upsert_display_zone_def bind_eq_None_conv split: option.splits)

lemma surface_total:
  assumes edit: "\<And>z. is_display_for d z \<Longrightarrow> is_display_for d (fst (edit z))" and fresh: "is_display_for d fresh"
  shows "upsert_surface M d edit fresh \<noteq> None"
proof (cases "Option.bind (active_scene_id M) (fmlookup (m_scenes M))")
  case (Some sc)
  then obtain i where i: "active_scene_id M = Some i" "fmlookup (m_scenes M) i = Some sc"
    by (auto simp: bind_eq_Some_conv)
  note total = return_display_total [OF active_after_put(1) [OF i(1)]]
    return_display_total [OF active_after_put(2) [OF i(1)]]
  show ?thesis
  proof (cases "find (is_display_for d) (sc_zones sc)")
    case None
    then show ?thesis using i fresh
      by (simp add: upsert_surface_def Let_def display_zone_for_def find_append total del: not_None_eq)
  next
    case (Some z)
    then have "is_display_for d z" by (auto simp: find_Some_iff)
    with Some edit have "find (is_display_for d) (update_first (is_display_for d) (\<lambda>z. fst (edit z)) (sc_zones sc)) = Some (fst (edit z))"
      by (simp add: find_update_first)
    then show ?thesis using i Some
      by (simp add: upsert_surface_def Let_def display_zone_for_def total del: not_None_eq)
  qed
qed (auto simp: upsert_surface_def bind_eq_None_conv split: option.splits)

lemma sync_display_surface_display: "is_display_for d z \<Longrightarrow> is_display_for d (fst (sync_display_surface d nm lay z))"
  by (auto simp: sync_display_surface_def Let_def is_display_for_def targets_device_def split: option.splits)

lemma clear_display_surface_display: "is_display_for d (fst (clear_display_surface d nm lay z))"
  by (simp add: clear_display_surface_def Let_def is_display_for_def targets_device_def
      display_face_target_new_def bump_layers_version_def bump_controls_version_def)

lemma mutate_total: "(\<And>z. f z \<noteq> None) \<Longrightarrow> mutate_zone_layers M i zid v f \<noteq> None"
  unfolding mutate_zone_layers_def Let_def
  by (simp del: not_None_eq split: option.split sum.split)

lemma take_layers_collect:
  "distinct ids \<Longrightarrow> (\<forall>i \<in> set ids. \<exists>l. fmlookup m i = Some l \<and> ly_id l = i) \<Longrightarrow>
     \<exists>ls. take_layers m ids = Some ls \<and> map ly_id ls = ids \<and> (\<forall>l \<in> set ls. fmlookup m (ly_id l) = Some l)"
proof (induction ids arbitrary: m)
  case (Cons i ids)
  then obtain l where l: "fmlookup m i = Some l" "ly_id l = i" by auto
  have "\<forall>j \<in> set ids. \<exists>l. fmlookup (fmdrop i m) j = Some l \<and> ly_id l = j"
    using Cons.prems by auto
  with Cons obtain ls where ls: "take_layers (fmdrop i m) ids = Some ls" "map ly_id ls = ids"
    "\<forall>l \<in> set ls. fmlookup (fmdrop i m) (ly_id l) = Some l"
    by (metis distinct.simps(2))
  then have "\<forall>l \<in> set ls. fmlookup m (ly_id l) = Some l"
    by (auto split: if_splits)
  then show ?case using l ls by simp
qed simp

lemma collect_layers_lookup:
  "fmlookup (foldl (\<lambda>m l. fmupd (ly_id l) l m) m ls) i =
     (case find (\<lambda>l. ly_id l = i) (rev ls) of None \<Rightarrow> fmlookup m i | Some l \<Rightarrow> Some l)"
  by (induction ls arbitrary: m) (auto simp: find_append split: option.split)

lemma collect_layers_find:
  "fmlookup (collect_layers ls) i = find (\<lambda>l. ly_id l = i) (rev ls)"
  by (auto simp: collect_layers_def collect_layers_lookup split: option.split)

lemma collect_layers_Some: "fmlookup (collect_layers ls) i = Some l \<Longrightarrow> l \<in> set ls \<and> ly_id l = i"
  by (auto simp: collect_layers_find find_Some_iff) (metis nth_mem length_rev set_rev)

text \<open>
  A reordering that passes its check never hits the \<^verbatim>\<open>expect\<close>, keeps every layer and puts them
  in the order asked for.
\<close>

lemma reorder_layers_spec:
  assumes "card (set (map ly_id (z_layers z))) = length (z_layers z)" "card (set ids) = length ids"
    "set (map ly_id (z_layers z)) = set ids"
  shows "\<exists>ls. reorder_layers ids z = Some (Inr (z\<lparr>z_layers := ls\<rparr>)) \<and> map ly_id ls = ids
    \<and> mset ls = mset (z_layers z)"
proof -
  have dz: "distinct (map ly_id (z_layers z))" using assms(1) by (metis card_distinct length_map)
  have di: "distinct ids" using assms(2) by (rule card_distinct)
  have "\<exists>l. fmlookup (collect_layers (z_layers z)) i = Some l \<and> ly_id l = i" if "i \<in> set ids" for i
  proof -
    from that have "i \<in> ly_id ` set (z_layers z)" using assms(3) by simp
    then obtain l where "l \<in> set (z_layers z)" "ly_id l = i" by auto
    then have "find (\<lambda>l. ly_id l = i) (rev (z_layers z)) \<noteq> None"
      by (auto simp: find_None_iff)
    then obtain l' where "fmlookup (collect_layers (z_layers z)) i = Some l'"
      by (auto simp: collect_layers_find)
    then show ?thesis using collect_layers_Some by blast
  qed
  then obtain ls where ls: "take_layers (collect_layers (z_layers z)) ids = Some ls" "map ly_id ls = ids"
    "\<forall>l \<in> set ls. fmlookup (collect_layers (z_layers z)) (ly_id l) = Some l"
    using take_layers_collect [OF di] by blast
  have sub: "set ls \<subseteq> set (z_layers z)" using ls(3) collect_layers_Some by blast
  have "distinct ls" "distinct (z_layers z)" using ls(2) di dz by (auto simp: distinct_map)
  moreover have "length ls = length (z_layers z)"
    using assms ls(2) by (metis length_map)
  ultimately have "mset ls = mset (z_layers z)"
    using sub by (metis card_subset_eq distinct_card finite_set set_eq_iff_mset_eq_distinct)
  moreover have "reorder_layers ids z = Some (Inr (z\<lparr>z_layers := ls\<rparr>))"
    using assms ls(1) by (simp add: reorder_layers_def)
  ultimately show ?thesis using ls(2) by blast
qed

lemma reorder_layers_total: "reorder_layers ids z \<noteq> None"
  using reorder_layers_spec [of z ids] by (auto simp: reorder_layers_def Let_def)

lemma scene_exec_total: "scene_exec M opn \<noteq> None"
proof (cases opn)
  case (OpUpsertPrimary e ctl pre lay zid lid)
  then show ?thesis using upsert_primary_total [of M e ctl pre lay zid lid] by auto
next
  case (OpUpsertDisplay d nm e ctl lay zid lid)
  then show ?thesis using upsert_display_total [of M d nm e ctl lay zid lid] by auto
next
  case (OpEnsureSurface d nm lay zid)
  have "upsert_surface M d (sync_display_surface d nm lay) (screen_surface_zone zid d nm lay) \<noteq> None"
    by (rule surface_total) (simp_all add: sync_display_surface_display screen_surface_zone_def)
  then show ?thesis using OpEnsureSurface by (auto simp: ensure_display_zone_surface_def)
next
  case (OpClearDisplay d nm lay zid)
  have "upsert_surface M d (clear_display_surface d nm lay) (screen_surface_zone zid d nm lay) \<noteq> None"
    by (rule surface_total) (simp_all add: clear_display_surface_display screen_surface_zone_def)
  then show ?thesis using OpClearDisplay by (auto simp: clear_display_zone_assignment_def)
next
  case (OpInsertLayer i zid l n v)
  then show ?thesis using mutate_total [of "insert_layer l n" M i zid v]
    by (auto simp: insert_zone_layer_def insert_layer_def)
next
  case (OpReplaceLayers i zid ls)
  then show ?thesis using mutate_total [of "\<lambda>z. Some (Inr (z\<lparr>z_layers := ls\<rparr>))" M i zid None]
    by (auto simp: replace_zone_layer_stack_def split: sum.split)
next
  case (OpRemoveLayer i zid lid v)
  then show ?thesis using mutate_total [of "remove_layer lid" M i zid v]
    by (auto simp: remove_zone_layer_def remove_layer_def)
next
  case (OpReorderLayers i zid ids v)
  then show ?thesis using mutate_total [of "reorder_layers ids" M i zid v] reorder_layers_total
    by (auto simp: reorder_zone_layers_def)
next
  case (OpPatchLayerControls i zid lid upd v)
  then show ?thesis using mutate_total [of "patch_layer_controls lid upd" M i zid v]
    by (auto simp: patch_zone_layer_effect_controls_def patch_layer_controls_def)
next
  case (OpPatchLayerBindings i zid lid upd cl v)
  then show ?thesis using mutate_total [of "patch_layer_controls_and_bindings lid upd cl" M i zid v]
    by (auto simp: patch_zone_layer_controls_and_bindings_def patch_layer_controls_and_bindings_def)
qed simp_all

lemmas keeps_ops =
  keeps_install keeps_create keeps_update keeps_delete keeps_activate keeps_deactivate
  keeps_remap_effects keeps_remap_devices keeps_create_zone keeps_delete_zone keeps_zone_meta
  keeps_assign keeps_unassign keeps_unassigned keeps_zone_layout keeps_remove_displays
  keeps_apply_effect keeps_sync keeps_set_default keeps_remove_default

text \<open>Direct accesses to the priority stack, and those that put a scene on it.\<close>

fun stack_access :: "scene_op \<Rightarrow> bool" where
  "stack_access (OpPriorityStack _) = True"
| "stack_access _ = False"

fun pushes_directly :: "scene_op \<Rightarrow> bool" where
  "pushes_directly (OpPriorityStack (Push _ _ _)) = True"
| "pushes_directly _ = False"

lemma scene_exec_keeps: "scene_exec M opn = Some M' \<Longrightarrow> \<not> stack_access opn \<Longrightarrow> keeps M M'"
proof (cases opn)
  case (OpEnsureSurface d nm lay zid)
  assume "scene_exec M opn = Some M'"
  then show ?thesis using OpEnsureSurface
    by (auto simp: ensure_display_zone_surface_def intro: keeps_surface [OF sync_display_surface_unchanged])
next
  case (OpClearDisplay d nm lay zid)
  assume "scene_exec M opn = Some M'"
  then show ?thesis using OpClearDisplay
    by (auto simp: clear_display_zone_assignment_def intro: keeps_surface [OF clear_display_surface_unchanged])
qed (auto simp: keeps_ops keeps_invalidate keeps_refl patch_display_zone_target_def patch_zone_controls_def
      clear_zone_effect_def keeps_edit_active insert_zone_layer_def remove_zone_layer_def reorder_zone_layers_def
      patch_zone_layer_effect_controls_def patch_zone_layer_controls_and_bindings_def
      intro: keeps_mutate keeps_replace keeps_upsert_primary keeps_upsert_display)

lemma sane_new: "sane scene_manager_new" "coherent scene_manager_new"
  by (simp_all add: sane_def scene_manager_new_def stack_sorted_def coherent_def next_zones_def
      active_scene_def active_scene_id_def stack_peek_def)

lemma scene_exec_fenced: "scene_exec M opn = Some M' \<Longrightarrow> fenced M M'"
proof (cases "stack_access opn")
  case True
  assume "scene_exec M opn = Some M'"
  with True show ?thesis by (cases opn) (auto simp: fenced_def priority_stack_mut_def)
next
  case False
  assume "scene_exec M opn = Some M'"
  from scene_exec_keeps [OF this False] show ?thesis by (simp add: keeps_def)
qed

lemma run_scene_fenced: "run scene_exec M ops = Some M' \<Longrightarrow> fenced M M'"
proof (induction ops arbitrary: M)
  case (Cons opn ops)
  then obtain N where "scene_exec M opn = Some N" "run scene_exec N ops = Some M'"
    by (auto split: option.splits)
  then show ?case using Cons.IH scene_exec_fenced fenced_trans by blast
qed simp

text \<open>
  Whether the resolved zones are up to date: a direct access to the stack leaves that open, the
  activation of a registered scene recomputes them.
\<close>

fun settles :: "bool \<Rightarrow> scene_manager \<Rightarrow> scene_op \<Rightarrow> bool" where
  "settles c M (OpPriorityStack _) = False"
| "settles c M (OpActivate i ov now) \<longleftrightarrow> c \<or> fmlookup (m_scenes M) i \<noteq> None"
| "settles c M opn = c"

fun plan_settled :: "bool \<Rightarrow> scene_manager \<Rightarrow> scene_op list \<Rightarrow> bool" where
  "plan_settled c M [] = c"
| "plan_settled c M (opn # ops) =
     (case scene_exec M opn of None \<Rightarrow> False | Some M' \<Rightarrow> plan_settled (settles c M opn) M' ops)"

lemma activate_coherent: "fmlookup (m_scenes M) i \<noteq> None \<Longrightarrow> coherent (fst (scene_activate M i ov now))"
  by (auto simp: scene_activate_def Let_def)

lemma sane_stack_access:
  assumes "sane M" "\<not> pushes_directly (OpPriorityStack sop)"
  shows "sane (priority_stack_mut M (\<lambda>s. stack_exec s sop))"
proof -
  have "set (stack_exec (m_stack M) sop) \<subseteq> set (m_stack M)"
    using assms(2) by (cases sop) (auto simp: stack_pop_def stack_remove_def stack_clear_def Let_def split: list.splits)
  from image_mono [OF this, of se_scene_id] have "se_scene_id ` set (stack_exec (m_stack M) sop) \<subseteq> fmdom' (m_scenes M)"
    using assms(1) unfolding sane_def by (meson order.trans)
  then show ?thesis
    using assms(1) stack_sorted_exec [of "m_stack M" sop] by (simp add: sane_def priority_stack_mut_def)
qed

lemma settled_step:
  assumes "scene_exec M opn = Some M'" "\<not> pushes_directly opn" "sane M" "c \<longrightarrow> coherent M"
  shows "sane M' \<and> (settles c M opn \<longrightarrow> coherent M')"
proof (cases "stack_access opn")
  case True
  then show ?thesis using assms(1-3) sane_stack_access by (cases opn) auto
next
  case False
  then have k: "sane M'" "coherent M \<longrightarrow> coherent M'" using scene_exec_keeps [OF assms(1) False] assms(3) by (simp_all add: keeps_def)
  show ?thesis
  proof (cases "\<exists>i ov now. opn = OpActivate i ov now")
    case True
    then show ?thesis using k assms(1,4) activate_coherent [of M] by auto
  next
    case other: False
    then have "settles c M opn = c" using False by (cases opn) auto
    then show ?thesis using k assms(4) by simp
  qed
qed

lemma run_settled:
  assumes "run scene_exec M ops = Some M'" "list_all (\<lambda>opn. \<not> pushes_directly opn) ops" "sane M" "c \<longrightarrow> coherent M"
  shows "sane M' \<and> (plan_settled c M ops \<longrightarrow> coherent M')"
  using assms
proof (induction ops arbitrary: M c)
  case (Cons opn ops)
  then obtain N where N: "scene_exec M opn = Some N" "run scene_exec N ops = Some M'"
    by (auto split: option.splits)
  have "sane N \<and> (settles c M opn \<longrightarrow> coherent N)" using settled_step [OF N(1)] Cons.prems(2-4) by simp
  then show ?case using Cons.IH [OF N(2), of "settles c M opn"] Cons.prems(2) N(1) by simp
qed simp

lemma unsettled_only_by_access: "list_all (\<lambda>opn. \<not> stack_access opn) ops \<Longrightarrow> plan_settled True M ops"
proof (induction ops arbitrary: M)
  case (Cons opn ops)
  then have "settles True M opn" by (cases opn) auto
  then show ?case using Cons scene_exec_total [of M opn] by (auto split: option.split)
qed simp

lemma run_scene_total: "\<exists>M'. run scene_exec M ops = Some M'"
proof (induction ops arbitrary: M)
  case (Cons opn ops)
  then show ?case using scene_exec_total [of M opn] by (auto split: option.split)
qed simp

end
