(* ===== verification/Scene_Validity.thy ===== *)
theory Scene_Validity
  imports Scene_Cache
begin

text \<open>
  The scene manager's edits keep every registered scene one that \<^verbatim>\<open>Scene::validate\<close> accepts. A
  zone counts by its \<open>shape\<close>: its output identifiers, its role and its display. Edits that keep
  the shapes keep validity; the others are treated one by one, the collapse of display zones after
  an identity migration included. Operations that are handed a layout need it to fit the scene,
  which \<open>op_fits\<close> states.
\<close>

section \<open>Shapes\<close>

text \<open>What validation across zones looks at in one zone.\<close>

definition shape :: "zone \<Rightarrow> string list \<times> zone_role \<times> device_id option" where
  "shape z = (layout_output_ids (z_layout z), z_role z, map_option df_device_id (z_display_target z))"

lemma zones_ok_Nil [simp]: "zones_ok []"
  by (simp add: zones_ok_def primary_count_def display_devices_def)

lemma zones_ok_Cons:
  "zones_ok (z # zs) \<longleftrightarrow>
     zones_ok zs \<and> zone_ok z \<and> distinct (layout_output_ids (z_layout z))
     \<and> set (layout_output_ids (z_layout z)) \<inter> set (scene_output_ids zs) = {}
     \<and> (z_role z = RolePrimary \<longrightarrow> primary_count zs = 0)
     \<and> (z_role z = RoleDisplay \<longrightarrow> df_device_id (the (z_display_target z)) \<notin> set (display_devices zs))"
  by (auto simp: zones_ok_def primary_count_def display_devices_def)

lemma mset_scene_output_ids: "mset zs = mset zs' \<Longrightarrow> mset (scene_output_ids zs) = mset (scene_output_ids zs')"
proof -
  assume "mset zs = mset zs'"
  then have "mset (map (\<lambda>z. mset (layout_output_ids (z_layout z))) zs)
      = mset (map (\<lambda>z. mset (layout_output_ids (z_layout z))) zs')"
    by simp
  then show ?thesis
    by (simp add: scene_output_ids_def mset_concat comp_def flip: sum_mset_sum_list)
qed

lemma zones_ok_mset: "mset zs = mset zs' \<Longrightarrow> zones_ok zs = zones_ok zs'"
proof -
  assume eq: "mset zs = mset zs'"
  have "distinct (scene_output_ids zs) = distinct (scene_output_ids zs')"
    using mset_scene_output_ids [OF eq] by (rule mset_eq_imp_distinct_iff)
  moreover have "primary_count zs = primary_count zs'"
    unfolding primary_count_def using eq by (metis mset_filter size_mset)
  moreover have "mset (display_devices zs) = mset (display_devices zs')"
    unfolding display_devices_def using eq by (simp only: mset_map mset_filter)
  then have "distinct (display_devices zs) = distinct (display_devices zs')"
    by (rule mset_eq_imp_distinct_iff)
  moreover have "list_all zone_ok zs = list_all zone_ok zs'"
    using mset_eq_setD [OF eq] by (simp add: list_all_iff)
  ultimately show ?thesis by (simp add: zones_ok_def)
qed

lemma zones_ok_list_update:
  "n < length zs \<Longrightarrow> zones_ok (zs[n := z]) \<longleftrightarrow> zones_ok (z # vec_remove n zs)"
  by (rule zones_ok_mset) (rule mset_list_update)

lemma zones_ok_split: "n < length zs \<Longrightarrow> zones_ok zs \<longleftrightarrow> zones_ok (zs ! n # vec_remove n zs)"
  by (rule zones_ok_mset) (rule mset_vec_remove)

lemma zones_ok_append: "zones_ok (zs @ [z]) \<longleftrightarrow> zones_ok (z # zs)"
  by (rule zones_ok_mset) simp

lemma output_ids_shape: "scene_output_ids zs = concat (map fst (map shape zs))"
  by (simp add: scene_output_ids_def shape_def comp_def)

lemma shape_output_ids: "map shape zs = map shape zs' \<Longrightarrow> scene_output_ids zs = scene_output_ids zs'"
  by (simp only: output_ids_shape)

lemma shape_cong:
  assumes "map shape zs = map shape zs'" "list_all (\<lambda>z. layers_ok (z_layers z)) zs'"
  shows "zones_ok zs \<Longrightarrow> zones_ok zs'"
  using assms
proof (induction zs arbitrary: zs')
  case (Cons z zs)
  then obtain z' zs'' where zs': "zs' = z' # zs''" "shape z' = shape z" "map shape zs = map shape zs''"
    by (auto simp: map_eq_Cons_conv Cons_eq_map_conv)
  have same: "primary_count zs'' = primary_count zs \<and> set (display_devices zs'') \<subseteq> set (display_devices zs)"
    if "list_all zone_ok zs"
    using zs'(3) that
  proof (induction zs arbitrary: zs'')
    case (Cons w ws)
    then obtain w' ws'' where ws: "zs'' = w' # ws''" "shape w' = shape w" "map shape ws = map shape ws''"
      by (auto simp: map_eq_Cons_conv Cons_eq_map_conv)
    from Cons.IH [OF ws(3)] Cons.prems(2) ws(2) show ?case
      unfolding ws(1) by (auto simp: primary_count_def display_devices_def shape_def zone_ok_def)
  qed (simp add: primary_count_def display_devices_def)
  have ok: "zones_ok zs''" using Cons zs' by (auto simp: zones_ok_Cons)
  have "zone_ok z'" "layout_output_ids (z_layout z') = layout_output_ids (z_layout z)" "z_role z' = z_role z"
    "z_role z = RoleDisplay \<Longrightarrow> df_device_id (the (z_display_target z')) = df_device_id (the (z_display_target z))"
    using Cons.prems(1,3) zs'(1,2) by (auto simp: zones_ok_Cons zone_ok_def shape_def)
  then show ?case
    using Cons.prems(1) ok same shape_output_ids [OF zs'(3)] unfolding zs'(1) zones_ok_Cons
    by (auto simp: zones_ok_def)
qed simp

lemma zones_ok_filter: "zones_ok zs \<Longrightarrow> zones_ok (filter P zs)"
proof (induction zs)
  case (Cons z zs)
  have "set (scene_output_ids (filter P zs)) \<subseteq> set (scene_output_ids zs)"
    by (auto simp: scene_output_ids_def)
  moreover have "primary_count (filter P zs) \<le> primary_count zs"
    unfolding primary_count_def by (induction zs) auto
  moreover have "set (display_devices (filter P zs)) \<subseteq> set (display_devices zs)"
    by (auto simp: display_devices_def)
  ultimately show ?case using Cons by (auto simp: zones_ok_Cons)
qed simp

lemma zones_ok_remove: "n < length zs \<Longrightarrow> zones_ok zs \<Longrightarrow> zones_ok (vec_remove n zs)"
  by (simp add: zones_ok_split [of n zs] zones_ok_Cons)

lemma zones_layers: "zones_ok zs \<Longrightarrow> list_all (\<lambda>z. layers_ok (z_layers z)) zs"
  by (auto simp: zones_ok_def list_all_iff zone_ok_def)

lemma zones_ok_update_same:
  assumes "zones_ok zs" "\<And>z. z \<in> set zs \<Longrightarrow> P z \<Longrightarrow> zone_ok z \<Longrightarrow> shape (f z) = shape z \<and> layers_ok (z_layers (f z))"
  shows "zones_ok (update_first P f zs)"
proof (rule shape_cong [OF _ _ assms(1)])
  have z: "zone_ok z" if "z \<in> set zs" for z
    using assms(1) that by (auto simp: zones_ok_def list_all_iff)
  show "map shape zs = map shape (update_first P f zs)"
    by (rule map_update_first [symmetric]) (use assms(2) z in blast)
  show "list_all (\<lambda>z. layers_ok (z_layers z)) (update_first P f zs)"
    using assms(2) z by (induction zs) (auto simp: zone_ok_def list_all_iff)
qed

section \<open>Edits keep the zones acceptable\<close>

lemma set_scene_output_ids: "set (scene_output_ids zs) = (\<Union>z \<in> set zs. set (layout_output_ids (z_layout z)))"
  by (simp add: scene_output_ids_def)

lemma set_vec_remove: "n < length zs \<Longrightarrow> set zs = insert (zs ! n) (set (vec_remove n zs))"
  using mset_eq_setD [OF mset_vec_remove [of n zs]] by simp

lemma primary_count_0: "primary_count zs = 0 \<longleftrightarrow> (\<forall>z \<in> set zs. z_role z \<noteq> RolePrimary)"
  by (auto simp: primary_count_def filter_empty_conv)

lemma is_display_device: "zone_ok z \<Longrightarrow> is_display_for d z \<longleftrightarrow> z_role z = RoleDisplay \<and> df_device_id (the (z_display_target z)) = d"
  by (auto simp: is_display_for_def targets_device_iff zone_ok_def)

lemma display_devices_iff:
  "list_all zone_ok zs \<Longrightarrow> d \<in> set (display_devices zs) \<longleftrightarrow> (\<exists>z \<in> set zs. is_display_for d z)"
  by (auto simp: display_devices_def list_all_iff is_display_device)

lemma zones_ok_zone: "zones_ok zs \<Longrightarrow> z \<in> set zs \<Longrightarrow> zone_ok z"
  by (auto simp: zones_ok_def list_all_iff)

lemma zones_ok_nth_same:
  assumes "zones_ok zs" "n < length zs" "shape z' = shape (zs ! n)" "layers_ok (z_layers z')"
  shows "zones_ok (zs[n := z'])"
proof (rule shape_cong [OF _ _ assms(1)])
  show "map shape zs = map shape (zs[n := z'])"
    using assms(2,3) by (metis list_update_id map_update nth_map)
  show "list_all (\<lambda>z. layers_ok (z_layers z)) (zs[n := z'])"
    using zones_layers [OF assms(1)] assms(2,4) by (auto simp: list_all_length nth_list_update)
qed

text \<open>
  Rewriting the layout of the one zone a predicate selects. The new layout must not repeat an
  output nor name one of the zones that are not selected.
\<close>

definition layout_fits :: "(zone \<Rightarrow> bool) \<Rightarrow> zone list \<Rightarrow> spatial_layout \<Rightarrow> bool" where
  "layout_fits P zs lay \<longleftrightarrow>
     distinct (layout_output_ids lay)
     \<and> set (layout_output_ids lay) \<inter> set (scene_output_ids (filter (\<lambda>z. \<not> P z) zs)) = {}"

lemma zones_ok_relayout:
  assumes ok: "zones_ok zs" and pos: "find_position P zs = Some n"
    and only: "\<forall>z \<in> set (vec_remove n zs). \<not> P z"
    and fits: "layout_fits P zs (z_layout z')"
    and role: "z_role z' = z_role (zs ! n)"
    and tgt: "map_option df_device_id (z_display_target z') = map_option df_device_id (z_display_target (zs ! n))"
    and layers: "layers_ok (z_layers z')"
  shows "zones_ok (zs[n := z'])"
proof -
  from pos have n: "n < length zs" using find_position_Some by metis
  from ok have split: "zones_ok (zs ! n # vec_remove n zs)" using zones_ok_split [OF n] by simp
  have "set (vec_remove n zs) \<subseteq> set (filter (\<lambda>z. \<not> P z) zs)"
    using only set_vec_remove [OF n] by auto
  then have "set (layout_output_ids (z_layout z')) \<inter> set (scene_output_ids (vec_remove n zs)) = {}"
    using fits unfolding layout_fits_def set_scene_output_ids by blast
  moreover have "zone_ok z'" "z_role z' = RoleDisplay \<Longrightarrow>
      df_device_id (the (z_display_target z')) = df_device_id (the (z_display_target (zs ! n)))"
    using split role tgt layers by (auto simp: zones_ok_Cons zone_ok_def)
  ultimately have "zones_ok (z' # vec_remove n zs)"
    using split role fits by (auto simp: zones_ok_Cons layout_fits_def)
  then show ?thesis by (simp add: zones_ok_list_update [OF n])
qed

lemma only_primary:
  assumes "zones_ok zs" "find_position (\<lambda>z. z_role z = RolePrimary) zs = Some n"
  shows "\<forall>z \<in> set (vec_remove n zs). z_role z \<noteq> RolePrimary"
  using assms find_position_Some [OF assms(2)] zones_ok_split [of n zs]
  by (simp add: zones_ok_Cons primary_count_0)

lemma only_display:
  assumes "zones_ok zs" "find_position (is_display_for d) zs = Some n"
  shows "\<forall>z \<in> set (vec_remove n zs). \<not> is_display_for d z"
proof -
  from find_position_Some [OF assms(2)] have n: "n < length zs" "is_display_for d (zs ! n)" by auto
  from assms(1) zones_ok_split [OF n(1)] have ok: "zones_ok (zs ! n # vec_remove n zs)" by simp
  then have "z_role (zs ! n) = RoleDisplay" "df_device_id (the (z_display_target (zs ! n))) = d"
    using n(2) by (auto simp: zones_ok_Cons is_display_device)
  then have "d \<notin> set (display_devices (vec_remove n zs))" using ok by (simp add: zones_ok_Cons)
  then show ?thesis
    using display_devices_iff [of "vec_remove n zs" d] ok by (auto simp: zones_ok_Cons zones_ok_def)
qed

lemma layers_ok_effect [simp]: "layers_ok [from_effect lid e ctl cbs pre]"
  by (simp add: layers_ok_def)

lemma layers_ok_Nil [simp]: "layers_ok []"
  by (simp add: layers_ok_def)

lemma bump_version_simps [simp]:
  "z_layers (bump_layers_version z) = z_layers z" "z_layers (bump_controls_version z) = z_layers z"
  "z_layout (bump_layers_version z) = z_layout z" "z_layout (bump_controls_version z) = z_layout z"
  "z_role (bump_layers_version z) = z_role z" "z_role (bump_controls_version z) = z_role z"
  "z_display_target (bump_layers_version z) = z_display_target z"
  "z_display_target (bump_controls_version z) = z_display_target z"
  by (simp_all add: bump_layers_version_def bump_controls_version_def)

lemma effect_stack_simps [simp]:
  "z_layout (replace_effect_layer_stack lid e ctl cbs pre z) = z_layout z"
  "z_display_target (replace_effect_layer_stack lid e ctl cbs pre z) = z_display_target z"
  "z_layers (replace_effect_layer_stack lid e ctl cbs pre z) = [from_effect lid e ctl cbs pre]"
  "layers_ok (z_layers (apply_effect_layer lid e ctl pre z))"
  "z_layout (apply_effect_layer lid e ctl pre z) = z_layout z"
  "z_role (apply_effect_layer lid e ctl pre z) = z_role z"
  "z_display_target (apply_effect_layer lid e ctl pre z) = z_display_target z"
  by (simp_all add: replace_effect_layer_stack_def apply_effect_layer_def)

subsection \<open>Output assignment\<close>

lemma drop_output_simps [simp]:
  "z_layers (drop_output o_id z) = z_layers z" "z_role (drop_output o_id z) = z_role z"
  "z_display_target (drop_output o_id z) = z_display_target z"
  "lay_zones (z_layout (drop_output o_id z)) = filter (\<lambda>x. out_id x \<noteq> o_id) (lay_zones (z_layout z))"
  by (simp_all add: drop_output_def)

lemma zone_ok_drop [simp]: "zone_ok (drop_output o_id z) = zone_ok z"
  by (simp add: zone_ok_def)

lemma drop_outputs:
  "scene_output_ids (map (drop_output o_id) zs) = filter (\<lambda>i. i \<noteq> o_id) (scene_output_ids zs)"
  "primary_count (map (drop_output o_id) zs) = primary_count zs"
  "display_devices (map (drop_output o_id) zs) = display_devices zs"
  by (induction zs) (auto simp: primary_count_def display_devices_def filter_map comp_def)

lemma zones_ok_drop: "zones_ok zs \<Longrightarrow> zones_ok (map (drop_output o_id) zs)"
  by (simp add: zones_ok_def drop_outputs list_all_iff)

lemma zones_ok_assign:
  assumes ok: "zones_ok zs" and n: "n < length zs"
  shows "zones_ok (assign_output n x pl zs)"
proof (cases "find_position (owns_output (out_id x)) zs = Some n")
  case True
  let ?z = "(zs ! n)\<lparr>z_layout := (z_layout (zs ! n))
     \<lparr>lay_zones := update_first (\<lambda>y. out_id y = out_id x) (\<lambda>_. x) (lay_zones (z_layout (zs ! n)))\<rparr>\<rparr>"
  have "shape ?z = shape (zs ! n)"
    by (simp add: shape_def map_update_first)
  moreover have "layers_ok (z_layers ?z)"
    using zones_layers [OF ok] n by (simp add: list_all_length)
  ultimately have "zones_ok (zs[n := ?z])" by (rule zones_ok_nth_same [OF ok n])
  then show ?thesis using True by (simp add: assign_output_def)
next
  case False
  let ?ds = "map (drop_output (out_id x)) zs"
  let ?z = "(?ds ! n)\<lparr>z_layout := (z_layout (?ds ! n))
     \<lparr>lay_zones := lay_zones (z_layout (?ds ! n))
        @ [place_output pl (length (lay_zones (z_layout (?ds ! n)))) x]\<rparr>\<rparr>"
  have n': "n < length ?ds" using n by simp
  have ok': "zones_ok (?ds ! n # vec_remove n ?ds)"
    using zones_ok_drop [OF ok] zones_ok_split [OF n'] by blast
  have pid: "out_id (place_output pl k x) = out_id x" for k
    by (simp add: place_output_def reset_device_zone_placement_def Let_def split: output_placement.split)
  have "out_id x \<notin> set (scene_output_ids ?ds)" by (simp add: drop_outputs)
  then have "out_id x \<notin> set (scene_output_ids (vec_remove n ?ds))"
    "out_id x \<notin> set (layout_output_ids (z_layout (?ds ! n)))"
    using set_vec_remove [OF n'] unfolding set_scene_output_ids by blast+
  then have "zones_ok (?z # vec_remove n ?ds)"
    using ok' by (auto simp: zones_ok_Cons zone_ok_def pid)
  then show ?thesis using False zones_ok_list_update [OF n'] by (simp add: assign_output_def Let_def)
qed

subsection \<open>Placement merges\<close>

text \<open>The fields of an output that say which hardware it drives.\<close>

definition hardware :: "zone_output \<Rightarrow> string \<times> string \<times> string option \<times> led_topology \<times> position list
    \<times> u32 list option \<times> output_component option" where
  "hardware x = (out_id x, out_device_id x, out_zone_name x, out_topology x, out_led_positions x,
     out_led_mapping x, out_attachment x)"

lemma hardware_merge [simp]: "hardware (merge_output s x) = hardware s"
  by (simp add: hardware_def merge_output_def)

lemma out_id_hardware: "out_id = fst \<circ> hardware"
  by (simp add: hardware_def comp_def)

lemma collect_outputs_lookup:
  "fmlookup (collect_outputs xs) i = find (\<lambda>x. out_id x = i) (rev xs)"
proof -
  have "fmlookup (foldl (\<lambda>m x. fmupd (out_id x) x m) m xs) i =
      (case find (\<lambda>x. out_id x = i) (rev xs) of None \<Rightarrow> fmlookup m i | Some x \<Rightarrow> Some x)" for m
    by (induction xs arbitrary: m) (auto simp: find_append split: option.split)
  then show ?thesis by (auto simp: collect_outputs_def split: option.split)
qed

lemma merge_outputs_hardware:
  "distinct (map out_id xs) \<Longrightarrow> (\<forall>x \<in> set xs. \<exists>s. fmlookup m (out_id x) = Some s \<and> out_id s = out_id x) \<Longrightarrow>
     map out_id (merge_outputs m xs) = map out_id xs
     \<and> (\<forall>y \<in> set (merge_outputs m xs). \<exists>s. fmlookup m (out_id y) = Some s \<and> hardware y = hardware s)"
proof (induction xs arbitrary: m)
  case (Cons x xs)
  then obtain s where s: "fmlookup m (out_id x) = Some s" "out_id s = out_id x" by auto
  have "\<forall>y \<in> set xs. \<exists>s. fmlookup (fmdrop (out_id x) m) (out_id y) = Some s \<and> out_id s = out_id y"
  proof
    fix y
    assume y: "y \<in> set xs"
    then have "out_id y \<in> set (map out_id xs)" by simp
    then have "out_id y \<noteq> out_id x" using Cons.prems(1) by (metis distinct.simps(2) list.simps(9))
    with y Cons.prems(2) show "\<exists>s. fmlookup (fmdrop (out_id x) m) (out_id y) = Some s \<and> out_id s = out_id y"
      by simp
  qed
  note ih = Cons.IH [OF _ this]
  have "out_id (merge_output s x) = out_id x" using s(2) by (simp add: merge_output_def)
  moreover have "hardware (merge_output s x) = hardware s" by simp
  ultimately show ?case
    using ih Cons.prems(1) s(1) by (auto split: if_splits)
qed simp

lemma merge_outputs_ids:
  assumes "card (set (layout_output_ids lay)) = length (lay_zones lay)"
    "set (map out_id stored) = set (layout_output_ids lay)"
  shows "map out_id (merge_outputs (collect_outputs stored) (lay_zones lay)) = layout_output_ids lay
    \<and> (\<forall>y \<in> set (merge_outputs (collect_outputs stored) (lay_zones lay)). \<exists>s \<in> set stored. hardware y = hardware s)"
proof -
  have d: "distinct (layout_output_ids lay)" using assms(1) by (metis card_distinct length_map)
  have ex: "\<exists>s. fmlookup (collect_outputs stored) i = Some s \<and> out_id s = i \<and> s \<in> set stored"
    if "i \<in> set (layout_output_ids lay)" for i
  proof -
    from that have "i \<in> out_id ` set stored" using assms(2) by simp
    then have "find (\<lambda>x. out_id x = i) (rev stored) \<noteq> None" by (auto simp: find_None_iff)
    then obtain s where s: "find (\<lambda>x. out_id x = i) (rev stored) = Some s" by auto
    then show ?thesis using find_in_set [OF s] by (auto simp: collect_outputs_lookup)
  qed
  have "\<forall>x \<in> set (lay_zones lay). \<exists>s. fmlookup (collect_outputs stored) (out_id x) = Some s \<and> out_id s = out_id x"
    using ex by auto
  from merge_outputs_hardware [OF d this]
  have m: "map out_id (merge_outputs (collect_outputs stored) (lay_zones lay)) = layout_output_ids lay"
    "\<forall>y \<in> set (merge_outputs (collect_outputs stored) (lay_zones lay)).
       \<exists>s. fmlookup (collect_outputs stored) (out_id y) = Some s \<and> hardware y = hardware s"
    by auto
  have "\<exists>s \<in> set stored. hardware y = hardware s"
    if "y \<in> set (merge_outputs (collect_outputs stored) (lay_zones lay))" for y
  proof -
    from that m(1) have "out_id y \<in> set (layout_output_ids lay)" by (metis image_eqI set_map)
    with ex m(2) that show ?thesis by (metis option.inject)
  qed
  with m(1) show ?thesis by blast
qed

lemma merge_layout_simps [simp]:
  "z_layers (merge_layout lay z) = z_layers z" "z_role (merge_layout lay z) = z_role z"
  "z_display_target (merge_layout lay z) = z_display_target z" "z_id (merge_layout lay z) = z_id z"
  "lay_zones (z_layout (merge_layout lay z)) =
     merge_outputs (collect_outputs (lay_zones (z_layout z))) (lay_zones lay)"
  by (simp_all add: merge_layout_def Let_def)

lemma zones_ok_merge_layout:
  assumes ok: "zones_ok zs" and n: "n < length zs"
    and ids: "card (set (layout_output_ids lay)) = length (lay_zones lay)"
      "set (layout_output_ids (z_layout (zs ! n))) = set (layout_output_ids lay)"
  shows "zones_ok (zs[n := merge_layout lay (zs ! n)])"
proof -
  have "layout_output_ids (z_layout (merge_layout lay (zs ! n))) = layout_output_ids lay"
    using merge_outputs_ids [OF ids(1), of "lay_zones (z_layout (zs ! n))"] ids(2) by simp
  moreover have "distinct (layout_output_ids lay)" using ids(1) by (metis card_distinct length_map)
  moreover have "zones_ok (zs ! n # vec_remove n zs)" using ok zones_ok_split [OF n] by simp
  ultimately have "zones_ok (merge_layout lay (zs ! n) # vec_remove n zs)"
    using ids(2) by (auto simp: zones_ok_Cons zone_ok_def)
  then show ?thesis by (simp add: zones_ok_list_update [OF n])
qed

subsection \<open>Promotion and reordering\<close>

definition demote :: "zone \<Rightarrow> zone" where
  "demote z = (if z_role z = RolePrimary then z\<lparr>z_role := RoleCustom\<rparr> else z)"

lemma demote_simps [simp]:
  "z_layers (demote z) = z_layers z" "z_layout (demote z) = z_layout z"
  "z_display_target (demote z) = z_display_target z" "z_role (demote z) \<noteq> RolePrimary"
  "z_role (demote z) = RoleDisplay \<longleftrightarrow> z_role z = RoleDisplay"
  by (simp_all add: demote_def)

lemma zone_ok_demote [simp]: "zone_ok (demote z) = zone_ok z"
  by (simp add: zone_ok_def)

lemma demote_all:
  "scene_output_ids (map demote zs) = scene_output_ids zs" "primary_count (map demote zs) = 0"
  "display_devices (map demote zs) = display_devices zs"
  by (induction zs) (simp_all add: primary_count_def display_devices_def)

lemma zones_ok_demote: "zones_ok zs \<Longrightarrow> zones_ok (map demote zs)"
  by (simp add: zones_ok_def demote_all list_all_iff)

lemma zones_ok_promote:
  assumes ok: "zones_ok zs" and n: "n < length zs"
  shows "zones_ok (promote_zone n zs)"
proof -
  let ?ds = "map demote zs"
  have n': "n < length ?ds" using n by simp
  have ok': "zones_ok (?ds ! n # vec_remove n ?ds)"
    using zones_ok_demote [OF ok] zones_ok_split [OF n'] by blast
  have "primary_count (vec_remove n ?ds) = 0"
    using demote_all(2) [of zs] set_vec_remove [OF n'] unfolding primary_count_0 by blast
  then have "zones_ok ((?ds ! n)\<lparr>z_role := RolePrimary, z_display_target := None\<rparr> # vec_remove n ?ds)"
    using ok' by (auto simp: zones_ok_Cons zone_ok_def)
  then have "zones_ok (?ds[n := (?ds ! n)\<lparr>z_role := RolePrimary, z_display_target := None\<rparr>])"
    by (simp only: zones_ok_list_update [OF n'])
  then show ?thesis by (simp add: promote_zone_def Let_def demote_def [abs_def])
qed

lemma length_promote [simp]: "length (promote_zone n zs) = length zs"
  by (simp add: promote_zone_def Let_def)

lemma zones_ok_move:
  "zones_ok zs \<Longrightarrow> n < length zs \<Longrightarrow> zones_ok (vec_insert m (zs ! n) (vec_remove n zs))"
  by (rule iffD1 [OF zones_ok_mset]) (simp_all add: mset_vec_insert mset_vec_remove [of n zs])

lemma length_vec: "n < length xs \<Longrightarrow> length (vec_remove n xs) = length xs - 1"
  "length (vec_insert m x xs) = Suc (length xs)"
  by (auto simp: vec_remove_def vec_insert_def)

lemma apply_zone_meta_shape [simp]:
  "shape (apply_zone_meta p z) = shape z" "z_layers (apply_zone_meta p z) = z_layers z"
  by (simp_all add: apply_zone_meta_def shape_def)

lemma zones_ok_meta:
  "zones_ok zs \<Longrightarrow> n < length zs \<Longrightarrow> zones_ok (zs[n := apply_zone_meta p (zs ! n)])"
  by (rule zones_ok_nth_same) (auto dest: zones_layers simp: list_all_length)

subsection \<open>Display collisions\<close>

lemma distinct_map_filter_wrt:
  "distinct (map f (filter P xs)) \<longleftrightarrow> sorted_wrt (\<lambda>x y. P x \<longrightarrow> P y \<longrightarrow> f x \<noteq> f y) xs"
  by (induction xs) auto

definition group_indices :: "(device_id \<times> nat list) list \<Rightarrow> device_id \<Rightarrow> nat set" where
  "group_indices gs d = (case map_of gs d of None \<Rightarrow> {} | Some ns \<Rightarrow> set ns)"

lemma group_add_indices: "group_indices (group_add d n gs) e = (if e = d then insert n (group_indices gs e) else group_indices gs e)"
proof -
  have "map_of (group_add d n gs) e =
      (if e = d then Some (case map_of gs d of None \<Rightarrow> [n] | Some ns \<Rightarrow> ns @ [n]) else map_of gs e)"
    by (induction gs) auto
  then show ?thesis by (simp add: group_indices_def split: option.split)
qed

lemma display_groups_indices:
  "list_all zone_ok zs \<Longrightarrow>
   group_indices (display_groups n zs gs) d = group_indices gs d \<union> {m. \<exists>k < length zs. m = n + k \<and> is_display_for d (zs ! k)}"
proof (induction n zs gs rule: display_groups.induct)
  case (2 n z zs gs)
  let ?gs = "if z_role z \<noteq> RoleDisplay then gs
        else case z_display_target z of None \<Rightarrow> gs | Some t \<Rightarrow> group_add (df_device_id t) n gs"
  have "group_indices ?gs d = group_indices gs d \<union> (if is_display_for d z then {n} else {})"
    by (auto simp: is_display_for_def targets_device_def group_add_indices split: option.split)
  moreover have "{m. \<exists>k < length (z # zs). m = n + k \<and> is_display_for d ((z # zs) ! k)} =
      (if is_display_for d z then {n} else {}) \<union> {m. \<exists>k < length zs. m = Suc n + k \<and> is_display_for d (zs ! k)}"
    by (auto simp: less_Suc_eq_0_disj)
  ultimately show ?case using 2 by auto
qed simp

lemma display_groups_pair:
  assumes "list_all zone_ok zs" "a < length zs" "b < length zs" "is_display_for d (zs ! a)" "is_display_for d (zs ! b)"
  shows "\<exists>ns. (d, ns) \<in> set (display_groups 0 zs []) \<and> a \<in> set ns \<and> b \<in> set ns"
proof -
  have "a \<in> group_indices (display_groups 0 zs []) d" "b \<in> group_indices (display_groups 0 zs []) d"
    using assms by (simp_all add: display_groups_indices [OF assms(1)])
  then show ?thesis
    by (auto simp: group_indices_def dest: map_of_SomeD split: option.splits)
qed

lemma drop_fold_dom:
  "fmdom' (foldl (\<lambda>m n. if n = s then m else fmupd (z_id (zs ! n)) v m) m ns)
     = fmdom' m \<union> {z_id (zs ! n) | n. n \<in> set ns \<and> n \<noteq> s}"
  by (induction ns arbitrary: m) auto

lemma group_survivors_dom:
  "fmdom' (group_survivors zs R m (d, ns)) =
     fmdom' m \<union> (if group_collapses zs R ns
                  then {z_id (zs ! n) | n. n \<in> set ns \<and> n \<noteq> choose_survivor zs ns R} else {})"
  by (simp add: group_survivors_def Let_def drop_fold_dom)

lemma collapse_dom_mono: "fmdom' m \<subseteq> fmdom' (foldl (group_survivors zs R) m gs)"
proof (induction gs arbitrary: m)
  case (Cons g gs)
  have "fmdom' m \<subseteq> fmdom' (group_survivors zs R m g)"
    by (cases g) (simp add: group_survivors_dom)
  then show ?case using Cons [of "group_survivors zs R m g"] by auto
qed simp

lemma collapse_dom:
  "(d, ns) \<in> set gs \<Longrightarrow> group_collapses zs R ns \<Longrightarrow> n \<in> set ns \<Longrightarrow> n \<noteq> choose_survivor zs ns R \<Longrightarrow>
     z_id (zs ! n) \<in> fmdom' (foldl (group_survivors zs R) m gs)"
proof (induction gs arbitrary: m)
  case (Cons g gs)
  show ?case
  proof (cases "g = (d, ns)")
    case True
    then have "z_id (zs ! n) \<in> fmdom' (group_survivors zs R m g)"
      using Cons.prems by (auto simp: group_survivors_dom)
    then show ?thesis using collapse_dom_mono [of "group_survivors zs R m g" zs R gs] by auto
  qed (use Cons in auto)
qed simp

text \<open>Of two display zones of one device, one of them retargeted, at least one is dropped.\<close>

lemma collapse_separates:
  assumes "list_all zone_ok zs" "a < length zs" "b < length zs" "a \<noteq> b"
    "is_display_for d (zs ! a)" "is_display_for d (zs ! b)" "z_id (zs ! a) \<in> R"
  shows "z_id (zs ! a) \<in> fmdom' (collapse_survivors zs R) \<or> z_id (zs ! b) \<in> fmdom' (collapse_survivors zs R)"
proof -
  obtain ns where ns: "(d, ns) \<in> set (display_groups 0 zs [])" "a \<in> set ns" "b \<in> set ns"
    using display_groups_pair [OF assms(1-3,5,6)] by blast
  have "card {a, b} \<le> card (set ns)" using ns by (intro card_mono) auto
  then have "2 \<le> length ns" using assms(4) card_length [of ns] by simp
  then have "group_collapses zs R ns"
    using ns(2) assms(7) by (auto simp: group_collapses_def list_ex_iff)
  then show ?thesis
    using collapse_dom [OF ns(1), of zs R _ fmempty] ns(2,3) assms(4)
    unfolding collapse_survivors_def by metis
qed

lemma zones_ok_collapse:
  assumes ids: "distinct (scene_output_ids zs)" and prim: "primary_count zs \<le> 1" and each: "list_all zone_ok zs"
    and fresh: "sorted_wrt (\<lambda>x y. z_role x = RoleDisplay \<longrightarrow> z_role y = RoleDisplay \<longrightarrow>
       z_id x \<notin> R \<longrightarrow> z_id y \<notin> R \<longrightarrow>
       df_device_id (the (z_display_target x)) \<noteq> df_device_id (the (z_display_target y))) zs"
    and gone: "\<And>z. z \<in> set zs \<Longrightarrow> Q z \<Longrightarrow> z_id z \<notin> fmdom' (collapse_survivors zs R)"
  shows "zones_ok (filter Q zs)"
proof -
  have "sorted_wrt (\<lambda>x y. (Q x \<and> z_role x = RoleDisplay) \<longrightarrow> (Q y \<and> z_role y = RoleDisplay) \<longrightarrow>
      df_device_id (the (z_display_target x)) \<noteq> df_device_id (the (z_display_target y))) zs"
    unfolding sorted_wrt_iff_nth_less
  proof (intro allI impI)
    fix a b
    assume ab: "a < b" "b < length zs" and q: "Q (zs ! a) \<and> z_role (zs ! a) = RoleDisplay"
      "Q (zs ! b) \<and> z_role (zs ! b) = RoleDisplay"
    have a: "a < length zs" using ab by simp
    let ?d = "\<lambda>n. df_device_id (the (z_display_target (zs ! n)))"
    show "?d a \<noteq> ?d b"
    proof
      assume eq: "?d a = ?d b"
      have "is_display_for (?d a) (zs ! a)" "is_display_for (?d a) (zs ! b)"
        using each a ab q eq by (auto simp: list_all_length is_display_device)
      moreover have "z_id (zs ! a) \<in> R \<or> z_id (zs ! b) \<in> R"
        using fresh [unfolded sorted_wrt_iff_nth_less] ab q eq by blast
      ultimately have "z_id (zs ! a) \<in> fmdom' (collapse_survivors zs R) \<or> z_id (zs ! b) \<in> fmdom' (collapse_survivors zs R)"
        using collapse_separates [OF each a ab(2)] collapse_separates [OF each ab(2) a] ab(1) by blast
      then show False using gone q a ab(2) by (metis nth_mem)
    qed
  qed
  then have dev: "distinct (display_devices (filter Q zs))"
    unfolding display_devices_def filter_filter distinct_map_filter_wrt
    by (simp add: conj_commute)
  have "scene_output_ids (filter Q zs) = concat (map (\<lambda>z. layout_output_ids (z_layout z)) (filter Q zs))"
    by (simp add: scene_output_ids_def)
  moreover have "distinct (scene_output_ids (filter Q zs))"
    using ids by (induction zs) (auto simp: set_scene_output_ids)
  moreover have "primary_count (filter Q zs) \<le> primary_count zs"
    unfolding primary_count_def by (induction zs) auto
  ultimately show ?thesis
    using prim each dev by (auto simp: zones_ok_def list_all_iff)
qed

lemma remap_zones_ok:
  assumes ok: "zones_ok (sc_zones sc)"
  shows "zones_ok (sc_zones (fst (remap_scene_devices lids phys sc)))"
proof -
  let ?zs = "sc_zones sc"
  let ?R = "retargeted_display_zones ?zs phys"
  define g where "g z = fst (remap_zone_device_bindings lids phys z)" for z
  let ?ws = "map g ?zs"
  have ws: "fst (remap_zones lids phys ?zs) = ?ws"
    by (simp add: remap_zones_def Let_def g_def)
  have ids: "distinct (scene_output_ids ?ws)"
    using ok by (simp add: zones_ok_def scene_output_ids_def comp_def g_def)
  have prim: "primary_count ?ws \<le> 1"
    using ok by (simp add: zones_ok_def primary_count_def filter_map comp_def g_def)
  have each: "list_all zone_ok ?ws"
    using ok by (auto simp: zones_ok_def list_all_iff zone_ok_def g_def remap_zone_target)
  have roles: "z_role (g z) = z_role z" "z_id (g z) = z_id z" for z
    by (simp_all add: g_def)
  have same: "df_device_id (the (z_display_target (g z))) = df_device_id (the (z_display_target z))"
    if z: "z \<in> set ?zs" "z_role z = RoleDisplay" "z_id z \<notin> ?R" for z
  proof -
    obtain t where t: "z_display_target z = Some t"
      using zones_ok_zone [OF ok z(1)] z(2) by (auto simp: zone_ok_def)
    then have "fmlookup phys (df_device_id t) = None"
      using z by (auto simp: retargeted_display_zones_def image_iff split: option.splits)
    then show ?thesis using t by (simp add: g_def remap_zone_target)
  qed
  have "sorted_wrt (\<lambda>x y. z_role x = RoleDisplay \<longrightarrow> z_role y = RoleDisplay \<longrightarrow>
      df_device_id (the (z_display_target x)) \<noteq> df_device_id (the (z_display_target y))) ?zs"
    using ok by (simp add: zones_ok_def display_devices_def distinct_map_filter_wrt)
  then have fresh: "sorted_wrt (\<lambda>x y. z_role x = RoleDisplay \<longrightarrow> z_role y = RoleDisplay \<longrightarrow>
       z_id x \<notin> ?R \<longrightarrow> z_id y \<notin> ?R \<longrightarrow>
       df_device_id (the (z_display_target x)) \<noteq> df_device_id (the (z_display_target y))) ?ws"
    unfolding sorted_wrt_map roles
    by (rule sorted_wrt_mono_rel [rotated]) (metis same)
  note col = zones_ok_collapse [OF ids prim each fresh]
  have none: "zones_ok ?ws" if "fmdom' (collapse_survivors ?ws ?R) = {}"
    using col [of "\<lambda>_. True"] that by simp
  have empty: "collapse_survivors ?ws {} = fmempty"
  proof -
    have "group_survivors ?ws {} m h = m" for m h
      by (simp add: group_survivors_def Let_def group_collapses_def list_ex_iff)
    then have "foldl (group_survivors ?ws {}) m gs = m" for m gs
      by (induction gs) auto
    then show ?thesis by (simp add: collapse_survivors_def)
  qed
  have "zones_ok (sc_zones (fst (collapse_retargeted_display_zones (sc\<lparr>sc_zones := ?ws\<rparr>) ?R)))"
    using none empty col [of "\<lambda>z. fmlookup (collapse_survivors ?ws ?R) (z_id z) = None"]
    by (simp add: collapse_retargeted_display_zones_def Let_def fmlookup_dom'_iff)
  then show ?thesis by (simp add: remap_scene_eq Let_def ws)
qed

section \<open>Operations keep every scene acceptable\<close>

definition scenes_valid :: "scene_manager \<Rightarrow> bool" where
  "scenes_valid M \<longleftrightarrow> (\<forall>i sc. fmlookup (m_scenes M) i = Some sc \<longrightarrow> header_ok sc \<and> zones_ok (sc_zones sc))"

text \<open>
  The layouts handed to the manager come from the layout service and are not validated by it.
  What the operations need of them: no output named twice, none that belongs to a zone the
  operation leaves alone.
\<close>

definition active_fits :: "scene_manager \<Rightarrow> (zone \<Rightarrow> bool) \<Rightarrow> spatial_layout \<Rightarrow> bool" where
  "active_fits M P lay = (case active_scene M of None \<Rightarrow> True | Some sc \<Rightarrow> layout_fits P (sc_zones sc) lay)"

fun op_fits :: "scene_manager \<Rightarrow> scene_op \<Rightarrow> bool" where
  "op_fits M (OpInstallDefault lay zid now) = distinct (layout_output_ids lay)"
| "op_fits M (OpUpsertPrimary e ctl pre lay zid lid) = active_fits M (\<lambda>z. z_role z \<noteq> RoleDisplay) lay"
| "op_fits M (OpSyncLayout lay) = active_fits M (\<lambda>z. z_role z \<noteq> RoleDisplay) lay"
| "op_fits M (OpUpsertDisplay d nm e ctl lay zid lid) = active_fits M (is_display_for d) lay"
| "op_fits M (OpEnsureSurface d nm lay zid) = active_fits M (is_display_for d) lay"
| "op_fits M (OpClearDisplay d nm lay zid) = active_fits M (is_display_for d) lay"
| "op_fits M opn = True"

definition fitting_exec :: "scene_manager \<Rightarrow> scene_op \<Rightarrow> scene_manager option" where
  "fitting_exec M opn = (if op_fits M opn then scene_exec M opn else None)"

lemma valid_cache [simp]:
  "scenes_valid (refresh_resolved_zones M) = scenes_valid M"
  "scenes_valid (invalidate_resolved_zones M) = scenes_valid M"
  by (simp_all add: scenes_valid_def)

lemma header_simps [simp]:
  "header_ok (sc\<lparr>sc_zones := zs\<rparr>) = header_ok sc" "header_ok (bump_zones_revision sc) = header_ok sc"
  "header_ok (sc\<lparr>sc_unassigned_behavior := b\<rparr>) = header_ok sc"
  by (simp_all add: header_ok_def bump_zones_revision_def)

lemma valid_put: "scenes_valid M \<Longrightarrow> header_ok sc \<Longrightarrow> zones_ok (sc_zones sc) \<Longrightarrow> scenes_valid (put_scene M i sc)"
  by (simp add: scenes_valid_def)

lemma valid_commit: "scenes_valid M \<Longrightarrow> header_ok sc \<Longrightarrow> zones_ok (sc_zones sc) \<Longrightarrow> scenes_valid (commit_scene M i sc)"
  by (simp add: commit_scene_def valid_put)

lemma valid_lookup: "scenes_valid M \<Longrightarrow> fmlookup (m_scenes M) i = Some sc \<Longrightarrow> header_ok sc \<and> zones_ok (sc_zones sc)"
  by (simp add: scenes_valid_def)

lemma valid_install:
  assumes "scenes_valid M" "distinct (layout_output_ids lay)"
  shows "scenes_valid (install_default_scene M lay zid now)"
proof -
  have head: "trim ''Default'' = ''Default''" "chars_count ''Default'' = 7" by code_simp+
  have z: "zones_ok [default_primary_zone zid lay]"
    using assms(2) by (simp add: zones_ok_Cons zone_ok_def default_primary_zone_def new_zone_def primary_count_def
        scene_output_ids_def)
  show ?thesis
    using assms(1) z head
    by (auto simp: install_default_scene_def Let_def scenes_valid_def header_ok_def validate_brightness_def
        validate_layout_ref_def)
qed

lemma valid_create: "scenes_valid M \<Longrightarrow> scenes_valid (fst (scene_create M sc))"
  by (auto simp: scene_create_def valid_put scene_validate_def scene_errors_iff split: sum.split if_splits)

lemma valid_update: "scenes_valid M \<Longrightarrow> scenes_valid (fst (scene_update M sc))"
  by (auto simp: scene_update_def valid_commit scene_validate_def scene_errors_iff split: sum.split option.split if_splits)

lemma valid_delete: "scenes_valid M \<Longrightarrow> scenes_valid (fst (scene_delete M i))"
  by (auto simp: scene_delete_def scenes_valid_def split: option.split)

lemma valid_activate: "scenes_valid M \<Longrightarrow> scenes_valid (fst (scene_activate M i ov now))"
  by (auto simp: scene_activate_def Let_def scenes_valid_def split: option.split)

lemma valid_stack_access [simp]: "scenes_valid (priority_stack_mut M f) = scenes_valid M"
  by (simp add: scenes_valid_def priority_stack_mut_def)

lemma valid_deactivate: "scenes_valid M \<Longrightarrow> scenes_valid (scene_deactivate_current M)"
  by (auto simp: scene_deactivate_current_def Let_def scenes_valid_def split: option.split prod.split)

lemma valid_edit_unlocked:
  assumes "scenes_valid M"
    and "\<And>sc sc' r. edit sc = Inr (sc', r) \<Longrightarrow> header_ok sc \<Longrightarrow> zones_ok (sc_zones sc) \<Longrightarrow> header_ok sc' \<and> zones_ok (sc_zones sc')"
  shows "scenes_valid (fst (edit_unlocked M i edit))"
  using assms(1) assms(2) [OF _ conjunct1 conjunct2, OF _ valid_lookup valid_lookup, OF _ assms(1) _ assms(1)]
  by (auto simp: edit_unlocked_def split: option.split sum.split intro!: valid_commit)

lemma valid_create_zone: "scenes_valid M \<Longrightarrow> scenes_valid (fst (create_zone M i nm col cv zid))"
  unfolding create_zone_def
  by (rule valid_edit_unlocked)
    (auto simp: Let_def zones_ok_append zones_ok_Cons zone_ok_def new_zone_def empty_scene_zone_layout_def
      split: prod.splits)

lemma valid_delete_zone: "scenes_valid M \<Longrightarrow> scenes_valid (fst (delete_zone M i zid))"
  unfolding delete_zone_def
  by (rule valid_edit_unlocked)
    (auto simp: Let_def split: option.splits if_splits intro!: zones_ok_remove dest: find_position_Some)

lemma valid_assign: "scenes_valid M \<Longrightarrow> scenes_valid (fst (assign_output_to_zone M i zid x pl))"
  unfolding assign_output_to_zone_def
  by (rule valid_edit_unlocked)
    (auto split: option.splits intro!: zones_ok_assign dest: find_position_Some)

lemma valid_unassign: "scenes_valid M \<Longrightarrow> scenes_valid (fst (unassign_output M i o_id))"
  unfolding unassign_output_def
  by (rule valid_edit_unlocked) (auto split: if_splits simp: zones_ok_drop)

lemma valid_zone_layout: "scenes_valid M \<Longrightarrow> scenes_valid (fst (update_zone_layout M i zid lay))"
  unfolding update_zone_layout_def
  by (rule valid_edit_unlocked)
    (auto simp: Let_def split: option.splits if_splits intro!: zones_ok_merge_layout dest: find_position_Some)

lemma valid_unassigned: "scenes_valid M \<Longrightarrow> scenes_valid (fst (set_unassigned_behavior M i b))"
proof -
  assume ok: "scenes_valid M"
  have "scenes_valid (fst (edit_unlocked M i (\<lambda>sc.
        case b of
          UbFallback zid \<Rightarrow>
            if list_ex (\<lambda>z. z_id z = zid \<and> z_display_target z = None) (sc_zones sc)
            then Inr (sc\<lparr>sc_unassigned_behavior := b\<rparr>, b) else Inl ZmZoneMissing
        | _ \<Rightarrow> Inr (sc\<lparr>sc_unassigned_behavior := b\<rparr>, b))))"
    by (rule valid_edit_unlocked [OF ok]) (auto split: unassigned_behavior.splits if_splits)
  then show ?thesis
    unfolding set_unassigned_behavior_def by (auto split: prod.split sum.split)
qed

lemma valid_edit_active:
  assumes ok: "scenes_valid M"
    and f: "\<And>z z'. f z = Some z' \<Longrightarrow> zone_ok z \<Longrightarrow> shape z' = shape z \<and> layers_ok (z_layers z')"
  shows "scenes_valid (fst (edit_active_zone M zid f))"
proof -
  have "zones_ok (update_first (\<lambda>z. z_id z = zid) (\<lambda>_. z') (sc_zones sc))"
    if "fmlookup (m_scenes M) i = Some sc" "find_zone zid sc = Some z" "f z = Some z'" for i sc z z'
  proof -
    have "update_first (\<lambda>z. z_id z = zid) (\<lambda>_. z') (sc_zones sc)
        = update_first (\<lambda>z. z_id z = zid) (\<lambda>z. case f z of None \<Rightarrow> z | Some w \<Rightarrow> w) (sc_zones sc)"
      using update_first_cong [of "\<lambda>z. z_id z = zid" "sc_zones sc" z "\<lambda>z. case f z of None \<Rightarrow> z | Some w \<Rightarrow> w"] that
      by (simp add: find_zone_def)
    also have "zones_ok \<dots>"
      using valid_lookup [OF ok that(1)] f
      by (intro zones_ok_update_same) (auto simp: zone_ok_def split: option.split)
    finally show ?thesis .
  qed
  then show ?thesis using ok valid_lookup [OF ok]
    by (auto simp: edit_active_zone_def Let_def edit_zone_def split: option.split intro!: valid_put)
qed

lemma valid_mutate:
  assumes ok: "scenes_valid M"
    and f: "\<And>z z'. f z = Some (Inr z') \<Longrightarrow> zone_ok z \<Longrightarrow> shape z' = shape z \<and> layers_ok (z_layers z')"
    and res: "mutate_zone_layers M i zid v f = Some (M', r)"
  shows "scenes_valid M'"
proof -
  have bump: "shape (bump_layers_version z) = shape z" for z by (simp add: shape_def)
  have "zones_ok (update_first (\<lambda>z. z_id z = zid) (\<lambda>_. bump_layers_version z') (sc_zones sc))"
    if "fmlookup (m_scenes M) i = Some sc" "find_zone zid sc = Some z" "f z = Some (Inr z')" for sc z z'
  proof -
    let ?f = "\<lambda>z. case f z of Some (Inr w) \<Rightarrow> bump_layers_version w | _ \<Rightarrow> z"
    have "update_first (\<lambda>z. z_id z = zid) (\<lambda>_. bump_layers_version z') (sc_zones sc)
        = update_first (\<lambda>z. z_id z = zid) ?f (sc_zones sc)"
      using update_first_cong [of "\<lambda>z. z_id z = zid" "sc_zones sc" z ?f] that by (simp add: find_zone_def)
    also have "zones_ok \<dots>"
      using valid_lookup [OF ok that(1)] f
      by (intro zones_ok_update_same) (auto simp: zone_ok_def bump split: option.split sum.split)
    finally show ?thesis .
  qed
  then show ?thesis using ok valid_lookup [OF ok] res
    by (auto simp: mutate_zone_layers_def Let_def edit_zone_def split: option.splits sum.splits if_splits
        intro!: valid_commit)
qed

subsection \<open>Layer edits\<close>

lemma layers_ok_mset: "mset ls = mset ls' \<Longrightarrow> layers_ok ls = layers_ok ls'"
  using mset_eq_imp_distinct_iff [of "map ly_id ls" "map ly_id ls'"] mset_eq_setD [of ls ls']
  by (simp add: layers_ok_def list_all_iff)

lemma layers_ok_Cons:
  "layers_ok (l # ls) \<longleftrightarrow> layers_ok ls \<and> layer_errors l = [] \<and> ly_id l \<notin> ly_id ` set ls"
  by (auto simp: layers_ok_def)

lemma layers_ok_insert:
  "layers_ok ls \<Longrightarrow> layer_errors l = [] \<Longrightarrow> ly_id l \<notin> ly_id ` set ls \<Longrightarrow>
     layers_ok (vec_insert n l ls) \<and> layers_ok (ls @ [l])"
  using layers_ok_mset [of "vec_insert n l ls" "l # ls"] layers_ok_mset [of "ls @ [l]" "l # ls"]
  by (simp add: mset_vec_insert layers_ok_Cons)

lemma layers_ok_remove: "n < length ls \<Longrightarrow> layers_ok ls \<Longrightarrow> layers_ok (vec_remove n ls)"
  using layers_ok_mset [OF mset_vec_remove [of n ls]] by (simp add: layers_ok_Cons)

lemma list_all_update_first: "(\<And>x. Q (f x) = Q x) \<Longrightarrow> list_all Q (update_first P f xs) = list_all Q xs"
  by (induction xs) auto

lemma layers_ok_update:
  "layers_ok ls \<Longrightarrow> (\<And>l. ly_id (f l) = ly_id l \<and> layer_errors (f l) = layer_errors l) \<Longrightarrow>
     layers_ok (update_first P f ls)"
  by (simp add: layers_ok_def map_update_first list_all_update_first)

lemma normalized_id [simp]: "ly_id (layer_normalized l) = ly_id l"
  by (simp add: layer_normalized_def)

lemma shape_layers [simp]: "shape (z\<lparr>z_layers := ls\<rparr>) = shape z"
  by (simp add: shape_def)

lemma insert_layer_ok:
  assumes "insert_layer l n z = Some (Inr z')" "zone_ok z"
  shows "shape z' = shape z \<and> layers_ok (z_layers z')"
proof -
  let ?l = "layer_normalized l"
  from assms(1) have "ly_id ?l \<notin> ly_id ` set (z_layers z)" "layer_errors ?l = []"
    by (force simp: insert_layer_def Let_def layer_validate_def list_ex_iff split: if_splits)+
  moreover from assms(1) have "\<exists>k. z' = z\<lparr>z_layers := vec_insert k ?l (z_layers z)\<rparr> \<or> z' = z\<lparr>z_layers := z_layers z @ [?l]\<rparr>"
    by (auto simp: insert_layer_def Let_def layer_validate_def split: if_splits option.splits)
  ultimately show ?thesis
    using layers_ok_insert [of "z_layers z" ?l] assms(2) by (auto simp: zone_ok_def)
qed

lemma remove_layer_ok:
  "remove_layer lid z = Some (Inr z') \<Longrightarrow> zone_ok z \<Longrightarrow> shape z' = shape z \<and> layers_ok (z_layers z')"
  by (auto simp: remove_layer_def zone_ok_def split: option.splits intro!: layers_ok_remove dest: find_position_Some)

lemma reorder_layers_ok:
  assumes "reorder_layers ids z = Some (Inr z')" "zone_ok z"
  shows "shape z' = shape z \<and> layers_ok (z_layers z')"
proof -
  have "card (set (map ly_id (z_layers z))) = length (z_layers z)"
    "card (set ids) = length ids" "set (map ly_id (z_layers z)) = set ids"
    by (rule ccontr, use assms(1) in \<open>simp add: reorder_layers_def del: set_map\<close>)+
  from reorder_layers_spec [OF this] assms(1)
  obtain ls where ls: "z' = z\<lparr>z_layers := ls\<rparr>" "mset ls = mset (z_layers z)" by auto
  from layers_ok_mset [OF ls(2)] assms(2) show ?thesis by (simp add: ls(1) zone_ok_def)
qed

lemma extend_controls_errors:
  "layer_errors (l\<lparr>ly_source := extend_controls upd (ly_source l)\<rparr>) = layer_errors l"
  "layer_errors (l\<lparr>ly_source := clear_and_extend upd clear (ly_source l)\<rparr>) = layer_errors l"
  by (cases "ly_source l"; simp add: layer_errors_def)+

lemma patch_layer_ok:
  "patch_layer_controls lid upd z = Some (Inr z') \<Longrightarrow> zone_ok z \<Longrightarrow> shape z' = shape z \<and> layers_ok (z_layers z')"
  "patch_layer_controls_and_bindings lid upd clear z = Some (Inr z') \<Longrightarrow> zone_ok z \<Longrightarrow>
     shape z' = shape z \<and> layers_ok (z_layers z')"
  by (auto simp: patch_layer_controls_def patch_layer_controls_and_bindings_def edit_layer_def zone_ok_def Let_def
      extend_controls_errors split: option.splits if_splits intro!: layers_ok_update)

lemma check_layer_stack_ok: "check_layer_stack ids ls = Inr () \<longleftrightarrow> layers_ok ls \<and> ly_id ` set ls \<inter> ids = {}"
  by (induction ids ls rule: check_layer_stack.induct)
    (auto simp: layers_ok_Cons layer_validate_def)

lemma valid_replace:
  "scenes_valid M \<Longrightarrow> replace_zone_layer_stack M i zid ls = Some (M', r) \<Longrightarrow> scenes_valid M'"
proof (cases "check_layer_stack {} ls")
  case (Inr u)
  assume "scenes_valid M" "replace_zone_layer_stack M i zid ls = Some (M', r)"
  moreover have "layers_ok ls" using Inr check_layer_stack_ok [of "{}" ls] by simp
  ultimately show ?thesis
    using valid_mutate [of M "\<lambda>z. Some (Inr (z\<lparr>z_layers := ls\<rparr>))" i zid None M' r] Inr
    by (simp add: replace_zone_layer_stack_def)
qed (simp add: replace_zone_layer_stack_def)

subsection \<open>Zone metadata and effects\<close>

lemma valid_zone_meta: "scenes_valid M \<Longrightarrow> scenes_valid (fst (update_zone_meta M i zid p))"
proof -
  assume ok: "scenes_valid M"
  show ?thesis
    using ok valid_lookup [OF ok]
    unfolding update_zone_meta_def Let_def
    by (auto split: option.split prod.split if_splits dest!: find_position_Some simp: length_vec min_def
        intro!: valid_commit zones_ok_meta zones_ok_promote zones_ok_move)
qed

lemma valid_apply_effect: "scenes_valid M \<Longrightarrow> scenes_valid (fst (apply_effect_to_zone M zid e ctl pre lid))"
proof -
  assume ok: "scenes_valid M"
  let ?f = "\<lambda>z. bump_controls_version ((apply_effect_layer lid e ctl pre z)\<lparr>z_enabled := True\<rparr>)"
  have "zones_ok (update_first (\<lambda>z. z_id z = zid) (\<lambda>_. ?f z) (sc_zones sc))"
    if "fmlookup (m_scenes M) i = Some sc" "find_zone zid sc = Some z" for i sc z
  proof -
    have "zones_ok (update_first (\<lambda>z. z_id z = zid) ?f (sc_zones sc))"
      by (rule zones_ok_update_same) (use valid_lookup [OF ok that(1)] in \<open>auto simp: shape_def\<close>)
    then show ?thesis
      using update_first_cong [of "\<lambda>z. z_id z = zid" "sc_zones sc" z ?f] that(2) by (simp add: find_zone_def)
  qed
  then show ?thesis using ok valid_lookup [OF ok]
    by (auto simp: apply_effect_to_zone_def Let_def edit_zone_def split: option.split intro!: valid_put)
qed

lemma patch_target_device [simp]: "df_device_id (patch_target b v t) = df_device_id t"
  by (simp add: patch_target_def display_face_target_normalized_def Let_def)

lemma valid_patch_target: "scenes_valid M \<Longrightarrow> scenes_valid (fst (patch_display_zone_target M zid b v))"
  unfolding patch_display_zone_target_def
  by (rule valid_edit_active) (auto simp: shape_def zone_ok_def)

lemma valid_patch_controls: "scenes_valid M \<Longrightarrow> scenes_valid (fst (patch_zone_controls M zid upd))"
  unfolding patch_zone_controls_def
  by (rule valid_edit_active)
    (auto simp: shape_def zone_ok_def extend_controls_errors split: if_splits intro!: layers_ok_update)

lemma valid_clear_effect: "scenes_valid M \<Longrightarrow> scenes_valid (fst (clear_zone_effect M zid))"
  unfolding clear_zone_effect_def
  by (rule valid_edit_active) (auto simp: shape_def zone_ok_def split: if_splits)

subsection \<open>Operations that bring a layout\<close>

lemma active_scene_lookup:
  "active_scene_id M = Some i \<Longrightarrow> fmlookup (m_scenes M) i = Some sc \<Longrightarrow> active_scene M = Some sc"
  by (simp add: active_scene_def)

lemma zones_ok_new:
  assumes "zones_ok zs" "layout_fits P zs (z_layout z)" "zone_ok z"
    and "\<forall>w \<in> set zs. \<not> P w"
    and "z_role z = RolePrimary \<Longrightarrow> \<forall>w \<in> set zs. z_role w \<noteq> RolePrimary"
    and "z_role z = RoleDisplay \<Longrightarrow> \<forall>w \<in> set zs. \<not> is_display_for (df_device_id (the (z_display_target z))) w"
  shows "zones_ok (zs @ [z])"
proof -
  have "filter (\<lambda>w. \<not> P w) zs = zs" using assms(4) by (simp add: filter_id_conv)
  then show ?thesis
    unfolding zones_ok_append zones_ok_Cons
    using assms display_devices_iff [of zs] by (auto simp: layout_fits_def primary_count_0 zones_ok_def)
qed

lemma fits_weaken: "layout_fits P zs lay \<Longrightarrow> (\<And>z. z \<in> set zs \<Longrightarrow> P z \<Longrightarrow> \<not> Q z \<Longrightarrow> lay_zones (z_layout z) = []) \<Longrightarrow> layout_fits Q zs lay"
  unfolding layout_fits_def set_scene_output_ids by fastforce

lemma find_position_find: "find P xs = Some x \<Longrightarrow> \<exists>n. find_position P xs = Some n \<and> xs ! n = x"
  by (auto simp: find_by_position split: option.splits)

lemma primary_layout_fits:
  assumes ok: "zones_ok (sc_zones sc)" and fits: "layout_fits (\<lambda>z. z_role z \<noteq> RoleDisplay) (sc_zones sc) full"
  shows "layout_fits (\<lambda>z. z_role z = RolePrimary) (sc_zones sc) (next_primary_layout sc full)"
proof (cases "scene_has_custom_led_zones sc")
  case False
  have "z_role z \<noteq> RoleCustom" if "z \<in> set (sc_zones sc)" for z
    using False zones_ok_zone [OF ok that] that
    by (auto simp: scene_has_custom_led_zones_def list_ex_iff is_custom_led_def zone_ok_def)
  then have "filter (\<lambda>z. z_role z \<noteq> RolePrimary) (sc_zones sc) = filter (\<lambda>z. \<not> z_role z \<noteq> RoleDisplay) (sc_zones sc)"
    by (intro filter_cong) (metis zone_role.exhaust zone_role.distinct(5))+
  then show ?thesis using fits False by (simp add: next_primary_layout_def layout_fits_def)
next
  case True
  show ?thesis
  proof (cases "primary_zone sc")
    case (Some z)
    then obtain n where n: "find_position (\<lambda>z. z_role z = RolePrimary) (sc_zones sc) = Some n" "sc_zones sc ! n = z"
      unfolding primary_zone_def by (auto dest: find_position_find)
    then have "n < length (sc_zones sc)" using find_position_Some by blast
    with ok n have sp: "zones_ok (z # vec_remove n (sc_zones sc))"
      "set (sc_zones sc) = insert z (set (vec_remove n (sc_zones sc)))"
      using zones_ok_split set_vec_remove by metis+
    have "z_role z = RolePrimary" using Some find_in_set by (fastforce simp: primary_zone_def)
    then have "set (filter (\<lambda>z. z_role z \<noteq> RolePrimary) (sc_zones sc)) \<subseteq> set (vec_remove n (sc_zones sc))"
      using sp(2) by auto
    then have "set (layout_output_ids (z_layout z)) \<inter> set (scene_output_ids (filter (\<lambda>z. z_role z \<noteq> RolePrimary) (sc_zones sc))) = {}"
      using sp(1) unfolding zones_ok_Cons set_scene_output_ids by blast
    then show ?thesis using True Some sp(1) by (simp add: next_primary_layout_def layout_fits_def zones_ok_Cons)
  next
    case None
    let ?lay = "unclaimed_primary_layout sc full"
    have sub: "set (layout_output_ids ?lay) \<subseteq> set (layout_output_ids full)"
      "set (layout_output_ids ?lay) \<inter> set (scene_output_ids (filter is_custom_led (sc_zones sc))) = {}"
      by (auto simp: unclaimed_primary_layout_def Let_def)
    have "distinct (layout_output_ids ?lay)"
      using fits by (simp add: layout_fits_def unclaimed_primary_layout_def Let_def distinct_map_filter)
    moreover have "z_role z = RoleDisplay \<or> is_custom_led z"
      if "z \<in> set (sc_zones sc)" "z_role z \<noteq> RolePrimary" for z
      using zones_ok_zone [OF ok that(1)] that(2)
      by (cases "z_role z") (auto simp: is_custom_led_def zone_ok_def)
    then have "set (scene_output_ids (filter (\<lambda>z. z_role z \<noteq> RolePrimary) (sc_zones sc))) \<subseteq>
        set (scene_output_ids (filter (\<lambda>z. \<not> z_role z \<noteq> RoleDisplay) (sc_zones sc)))
        \<union> set (scene_output_ids (filter is_custom_led (sc_zones sc)))"
      unfolding set_scene_output_ids by auto
    then have "set (layout_output_ids ?lay) \<inter> set (scene_output_ids (filter (\<lambda>z. z_role z \<noteq> RolePrimary) (sc_zones sc))) = {}"
      using sub fits unfolding layout_fits_def by blast
    ultimately show ?thesis
      using True None by (simp add: next_primary_layout_def layout_fits_def)
  qed
qed

lemma valid_upsert_primary:
  assumes ok: "scenes_valid M" and fits: "active_fits M (\<lambda>z. z_role z \<noteq> RoleDisplay) lay"
    and res: "upsert_primary_zone M e ctl pre lay zid lid = Some (M', r)"
  shows "scenes_valid M'"
proof (cases "Option.bind (active_scene_id M) (fmlookup (m_scenes M))")
  case None
  then show ?thesis using ok res
    by (auto simp: upsert_primary_zone_def bind_eq_None_conv split: option.splits)
next
  case (Some sc)
  then obtain i where i: "active_scene_id M = Some i" "fmlookup (m_scenes M) i = Some sc"
    by (auto simp: bind_eq_Some_conv)
  let ?P = "\<lambda>z. z_role z = RolePrimary"
  let ?lay = "next_primary_layout sc lay"
  have sc: "header_ok sc" "zones_ok (sc_zones sc)" using valid_lookup [OF ok i(2)] by auto
  have lf: "layout_fits ?P (sc_zones sc) ?lay"
    using primary_layout_fits [OF sc(2)] fits i by (simp add: active_fits_def active_scene_lookup)
  show ?thesis
  proof (cases "primary_zone sc")
    case None
    then have no: "\<forall>w \<in> set (sc_zones sc). \<not> ?P w" by (auto simp: primary_zone_def find_None_iff)
    let ?z = "replace_effect_layer_stack lid e ctl fmempty pre (default_primary_zone zid ?lay)"
    have "zones_ok (sc_zones sc @ [?z])"
      by (rule zones_ok_new [where P = ?P])
        (use sc lf no in \<open>auto simp: default_primary_zone_def new_zone_def zone_ok_def\<close>)
    then show ?thesis using res i None sc ok
      by (auto simp: upsert_primary_zone_def Let_def split: option.splits intro!: valid_put)
  next
    case (Some z)
    then obtain n where n: "find_position ?P (sc_zones sc) = Some n" "sc_zones sc ! n = z"
      unfolding primary_zone_def by (auto dest: find_position_find)
    have prim: "z_role z = RolePrimary" "z \<in> set (sc_zones sc)"
      using Some find_in_set by (fastforce simp: primary_zone_def)+
    then have "z_display_target z = None"
      using zones_ok_zone [OF sc(2) prim(2)] by (simp add: zone_ok_def)
    moreover have "layout_fits ?P (sc_zones sc) (if layout_eq (z_layout z) ?lay then z_layout z else ?lay)"
      using lf by (auto simp: layout_eq_def)
    ultimately have "zones_ok (update_first ?P
        (\<lambda>z. bump_controls_version
               ((apply_effect_layer lid e ctl pre z)
                  \<lparr>z_layout := (if layout_eq (z_layout z) ?lay then z_layout z else ?lay),
                   z_enabled := True, z_display_target := None, z_role := RolePrimary\<rparr>)) (sc_zones sc))"
      unfolding update_first_by_position using n prim(1)
      by (auto intro!: zones_ok_relayout [OF sc(2) n(1) only_primary [OF sc(2) n(1)]])
    then show ?thesis using res i Some sc ok
      by (auto simp: upsert_primary_zone_def Let_def split: option.splits if_splits intro!: valid_put)
  qed
qed

lemma return_display_same: "return_display_zone N d = Some (M', r) \<Longrightarrow> M' = N"
  by (auto simp: return_display_zone_def split: option.splits)

lemma display_target_device [simp]: "df_device_id (display_face_target_new d) = d"
  by (simp add: display_face_target_new_def)

text \<open>The two operations that rewrite or add a display zone.\<close>

lemma zones_ok_display_edit:
  assumes ok: "zones_ok zs" and fits: "layout_fits (is_display_for d) zs lay"
    and edit: "\<And>z. is_display_for d z \<Longrightarrow> zone_ok z \<Longrightarrow> z_layout (f z) = lay \<and> z_role (f z) = RoleDisplay
      \<and> map_option df_device_id (z_display_target (f z)) = Some d \<and> layers_ok (z_layers (f z))"
  shows "zones_ok (update_first (is_display_for d) f zs)"
proof (cases "find_position (is_display_for d) zs")
  case (Some n)
  have z: "n < length zs" "is_display_for d (zs ! n)" using find_position_Some [OF Some] by auto
  then have "zone_ok (zs ! n)" using zones_ok_zone [OF ok] by simp
  with z(2) have "z_role (zs ! n) = RoleDisplay" "map_option df_device_id (z_display_target (zs ! n)) = Some d"
    by (auto simp: is_display_for_def targets_device_iff)
  then show ?thesis
    unfolding update_first_by_position using Some edit [OF z(2) \<open>zone_ok (zs ! n)\<close>] fits
    by (auto intro!: zones_ok_relayout [OF ok Some only_display [OF ok Some]])
qed (simp add: update_first_by_position ok)

lemma zones_ok_display_new:
  assumes "zones_ok zs" "layout_fits (is_display_for d) zs lay" "find (is_display_for d) zs = None"
    "z_layout z = lay" "z_role z = RoleDisplay" "map_option df_device_id (z_display_target z) = Some d"
    "layers_ok (z_layers z)"
  shows "zones_ok (zs @ [z])"
  by (rule zones_ok_new [where P = "is_display_for d"]) (use assms in \<open>auto simp: zone_ok_def find_None_iff\<close>)

lemma valid_upsert_display:
  assumes ok: "scenes_valid M" and fits: "active_fits M (is_display_for d) lay"
    and res: "upsert_display_zone M d nm e ctl lay zid lid = Some (M', r)"
  shows "scenes_valid M'"
proof (cases "Option.bind (active_scene_id M) (fmlookup (m_scenes M))")
  case None
  then show ?thesis using ok res
    by (auto simp: upsert_display_zone_def bind_eq_None_conv split: option.splits)
next
  case (Some sc)
  then obtain i where i: "active_scene_id M = Some i" "fmlookup (m_scenes M) i = Some sc"
    by (auto simp: bind_eq_Some_conv)
  have sc: "header_ok sc" "zones_ok (sc_zones sc)" using valid_lookup [OF ok i(2)] by auto
  have lf: "layout_fits (is_display_for d) (sc_zones sc) lay"
    using fits i by (simp add: active_fits_def active_scene_lookup)
  show ?thesis
  proof (cases "display_zone_for sc d")
    case None
    then show ?thesis using res i sc ok
      by (auto simp: upsert_display_zone_def display_zone_for_def new_zone_def dest!: return_display_same
          intro!: valid_put zones_ok_display_new [OF sc(2) lf])
  next
    case (Some z)
    then show ?thesis using res i sc ok
      by (auto simp: upsert_display_zone_def dest!: return_display_same
          intro!: valid_put zones_ok_display_edit [OF sc(2) lf])
  qed
qed

lemma valid_surface:
  assumes ok: "scenes_valid M" and fits: "active_fits M (is_display_for d) lay"
    and edit: "\<And>z. is_display_for d z \<Longrightarrow> zone_ok z \<Longrightarrow> z_layout (fst (edit z)) = lay \<and> z_role (fst (edit z)) = RoleDisplay
      \<and> map_option df_device_id (z_display_target (fst (edit z))) = Some d \<and> layers_ok (z_layers (fst (edit z)))"
    and res: "upsert_surface M d edit (screen_surface_zone zid d nm lay) = Some (M', r)"
  shows "scenes_valid M'"
proof (cases "Option.bind (active_scene_id M) (fmlookup (m_scenes M))")
  case None
  then show ?thesis using ok res
    by (auto simp: upsert_surface_def bind_eq_None_conv split: option.splits)
next
  case (Some sc)
  then obtain i where i: "active_scene_id M = Some i" "fmlookup (m_scenes M) i = Some sc"
    by (auto simp: bind_eq_Some_conv)
  have sc: "header_ok sc" "zones_ok (sc_zones sc)" using valid_lookup [OF ok i(2)] by auto
  have lf: "layout_fits (is_display_for d) (sc_zones sc) lay"
    using fits i by (simp add: active_fits_def active_scene_lookup)
  show ?thesis
  proof (cases "display_zone_for sc d")
    case None
    then show ?thesis using res i sc ok
      by (auto simp: upsert_surface_def Let_def display_zone_for_def screen_surface_zone_def new_zone_def
          dest!: return_display_same intro!: valid_put zones_ok_display_new [OF sc(2) lf])
  next
    case (Some z)
    have "zones_ok (update_first (is_display_for d) (\<lambda>z. fst (edit z)) (sc_zones sc))"
      by (rule zones_ok_display_edit [OF sc(2) lf edit])
    then show ?thesis using res i sc ok Some
      by (auto simp: upsert_surface_def Let_def dest!: return_display_same split: if_splits intro!: valid_put)
  qed
qed

lemma sync_display_surface_ok:
  "is_display_for d z \<Longrightarrow> zone_ok z \<Longrightarrow>
     z_layout (fst (sync_display_surface d nm lay z)) = lay \<and> z_role (fst (sync_display_surface d nm lay z)) = RoleDisplay
     \<and> map_option df_device_id (z_display_target (fst (sync_display_surface d nm lay z))) = Some d
     \<and> layers_ok (z_layers (fst (sync_display_surface d nm lay z)))"
  by (auto simp: is_display_for_def targets_device_iff zone_ok_def sync_display_surface_def Let_def layout_eq_def)

lemma clear_display_surface_ok:
  "z_layout (fst (clear_display_surface d nm lay z)) = lay \<and> z_role (fst (clear_display_surface d nm lay z)) = RoleDisplay
     \<and> map_option df_device_id (z_display_target (fst (clear_display_surface d nm lay z))) = Some d
     \<and> layers_ok (z_layers (fst (clear_display_surface d nm lay z)))"
  by (simp add: clear_display_surface_def Let_def)

lemma align_fields [simp]:
  "z_role (fst (align_led_zone lay c z)) = z_role z"
  "z_display_target (fst (align_led_zone lay c z)) = z_display_target z"
  "z_layers (fst (align_led_zone lay c z)) = z_layers z" "z_id (fst (align_led_zone lay c z)) = z_id z"
  by (simp_all add: align_led_zone_def)

lemma align_custom_shape: "shape (fst (align_led_zone lay True z)) = shape z"
  by (simp add: align_led_zone_def shape_def)

lemma nth_in_vec_remove: "k < length xs \<Longrightarrow> k \<noteq> n \<Longrightarrow> xs ! k \<in> set (vec_remove n xs)"
  using nth_mem [of k "take n xs"] nth_mem [of "k - Suc n" "drop (Suc n) xs"]
  by (cases "k < n") (simp_all add: vec_remove_def)

lemma zones_ok_align:
  assumes ok: "zones_ok (sc_zones sc)"
    and fits: "layout_fits (\<lambda>z. z_role z \<noteq> RoleDisplay) (sc_zones sc) lay"
  shows "zones_ok (map (\<lambda>z. fst (align_led_zone lay (scene_has_custom_led_zones sc) z)) (sc_zones sc))"
proof (cases "scene_has_custom_led_zones sc")
  case True
  then show ?thesis
    using zones_layers [OF ok]
    by (intro shape_cong [OF _ _ ok]) (simp_all add: align_custom_shape list_all_iff)
next
  case False
  let ?P = "\<lambda>z. z_role z = RolePrimary"
  let ?zs = "sc_zones sc"
  have lf: "layout_fits ?P ?zs lay"
    using primary_layout_fits [OF ok fits] False by (simp add: next_primary_layout_def)
  have other: "fst (align_led_zone lay False z) = z" if "\<not> ?P z" for z
    using that by (simp add: align_led_zone_def)
  show ?thesis
  proof (cases "find_position ?P ?zs")
    case None
    then have "map (\<lambda>z. fst (align_led_zone lay False z)) ?zs = ?zs"
      using other by (intro map_idI) (auto simp: find_position_None)
    then show ?thesis using False ok by simp
  next
    case (Some n)
    have n: "n < length ?zs" "?P (?zs ! n)" using find_position_Some [OF Some] by auto
    have only: "\<forall>z \<in> set (vec_remove n ?zs). \<not> ?P z" by (rule only_primary [OF ok Some])
    have "map (\<lambda>z. fst (align_led_zone lay False z)) ?zs = ?zs[n := fst (align_led_zone lay False (?zs ! n))]"
    proof (rule nth_equalityI)
      fix k
      assume k: "k < length (map (\<lambda>z. fst (align_led_zone lay False z)) ?zs)"
      have "\<not> ?P (?zs ! k)" if "k \<noteq> n"
      proof -
        have "?zs ! k \<in> set (vec_remove n ?zs)" using k that by (simp add: nth_in_vec_remove)
        then show ?thesis using only by blast
      qed
      then show "map (\<lambda>z. fst (align_led_zone lay False z)) ?zs ! k
          = ?zs[n := fst (align_led_zone lay False (?zs ! n))] ! k"
        using k n(1) other by (cases "k = n") simp_all
    qed simp
    moreover have "z_layout (fst (align_led_zone lay False (?zs ! n))) = lay"
      using n(2) zones_ok_zone [OF ok nth_mem [OF n(1)]]
      by (auto simp: align_led_zone_def zone_ok_def layout_eq_def)
    then have "zones_ok (?zs[n := fst (align_led_zone lay False (?zs ! n))])"
      using lf zones_ok_zone [OF ok nth_mem [OF n(1)]]
      by (intro zones_ok_relayout [OF ok Some only]) (simp_all add: zone_ok_def)
    ultimately show ?thesis using False by simp
  qed
qed

lemma valid_sync:
  assumes ok: "scenes_valid M" and fits: "active_fits M (\<lambda>z. z_role z \<noteq> RoleDisplay) lay"
  shows "scenes_valid (fst (sync_primary_zone_layout M lay))"
proof (cases "Option.bind (active_scene_id M) (fmlookup (m_scenes M))")
  case None
  then show ?thesis using ok
    by (auto simp: sync_primary_zone_layout_def bind_eq_None_conv split: option.split)
next
  case (Some sc)
  then obtain i where i: "active_scene_id M = Some i" "fmlookup (m_scenes M) i = Some sc"
    by (auto simp: bind_eq_Some_conv)
  have sc: "header_ok sc" "zones_ok (sc_zones sc)" using valid_lookup [OF ok i(2)] by auto
  have "zones_ok (map (\<lambda>z. fst (align_led_zone lay (scene_has_custom_led_zones sc) z)) (sc_zones sc))"
    using zones_ok_align [OF sc(2)] fits i by (simp add: active_fits_def active_scene_lookup)
  then show ?thesis using ok i sc
    by (auto simp: sync_primary_zone_layout_def align_zones_def Let_def intro!: valid_put)
qed

subsection \<open>Every scene at once\<close>

lemma valid_fmmap:
  "scenes_valid M \<Longrightarrow> (\<And>sc. header_ok sc \<Longrightarrow> zones_ok (sc_zones sc) \<Longrightarrow> header_ok (f sc) \<and> zones_ok (sc_zones (f sc))) \<Longrightarrow>
     m_scenes N = fmmap f (m_scenes M) \<Longrightarrow> scenes_valid N"
  by (auto simp: scenes_valid_def)

lemma remap_source_errors [simp]: "source_validate (fst (remap_source mig src)) = source_validate src"
  by (cases src) (simp_all split: option.split)

lemma migrate_zone_layers_ok: "layers_ok (z_layers z) \<Longrightarrow> layers_ok (z_layers (fst (migrate_zone_effects mig z)))"
  by (auto simp: migrate_zone_effects_def remap_zone_effect_ids_def layers_ok_def list_all_iff comp_def layer_errors_def)

lemma valid_remap_effects: "scenes_valid M \<Longrightarrow> scenes_valid (fst (remap_effect_ids M mig))"
proof (rule valid_fmmap)
  fix sc
  assume sc: "header_ok sc" "zones_ok (sc_zones sc)"
  have "zones_ok (map (\<lambda>z. fst (migrate_zone_effects mig z)) (sc_zones sc))"
    by (rule shape_cong [OF _ _ sc(2)])
      (use zones_layers [OF sc(2)] in \<open>auto simp: shape_def list_all_iff migrate_zone_layers_ok\<close>)
  then show "header_ok (fst (migrate_scene_effects mig sc)) \<and> zones_ok (sc_zones (fst (migrate_scene_effects mig sc)))"
    using sc(1) by (simp add: migrate_scene_effects_def Let_def comp_def)
qed (simp_all add: remap_effect_ids_def Let_def)

lemma header_collapse [simp]: "header_ok (fst (collapse_retargeted_display_zones sc R)) = header_ok sc"
  by (simp add: collapse_retargeted_display_zones_def Let_def header_ok_def)

lemma remap_device_scenes:
  "m_scenes (fst (remap_device_bindings M lids phys)) = fmmap (\<lambda>sc. fst (remap_scene_devices lids phys sc)) (m_scenes M)"
  by (auto simp: remap_device_bindings_def Let_def split: prod.split)

lemma valid_remap_devices: "scenes_valid M \<Longrightarrow> scenes_valid (fst (remap_device_bindings M lids phys))"
proof (rule valid_fmmap [where f = "\<lambda>sc. fst (remap_scene_devices lids phys sc)"])
  fix sc
  assume "header_ok sc" "zones_ok (sc_zones sc)"
  then show "header_ok (fst (remap_scene_devices lids phys sc)) \<and> zones_ok (sc_zones (fst (remap_scene_devices lids phys sc)))"
    using remap_zones_ok by (simp add: remap_scene_eq Let_def)
qed (simp_all add: remap_device_scenes)

lemma valid_remove_displays: "scenes_valid M \<Longrightarrow> scenes_valid (fst (remove_display_zones_for_device M d order))"
  by (rule valid_fmmap [where f = "\<lambda>sc. sc\<lparr>sc_zones := filter (\<lambda>z. \<not> is_display_for d z) (sc_zones sc)\<rparr>"])
    (auto simp: zones_ok_filter remove_display_zones_for_device_def Let_def)

lemma valid_defaults:
  "scenes_valid M \<Longrightarrow> scenes_valid (set_default_display_zone M z)"
  "scenes_valid M \<Longrightarrow> scenes_valid (fst (remove_default_display_zone M d))"
  by (auto simp: set_default_display_zone_def remove_default_display_zone_def Let_def scenes_valid_def split: option.split)

lemmas valid_ops =
  valid_install valid_create valid_update valid_delete valid_activate valid_deactivate valid_remap_effects
  valid_remap_devices valid_create_zone valid_delete_zone valid_zone_meta valid_assign valid_unassign
  valid_unassigned valid_zone_layout valid_patch_target valid_patch_controls valid_apply_effect
  valid_clear_effect valid_sync valid_remove_displays valid_defaults

lemma layer_ops_valid:
  assumes ok: "scenes_valid M"
  shows "insert_zone_layer M i zid l n v = Some (M', r) \<Longrightarrow> scenes_valid M'"
    and "remove_zone_layer M i zid lid v = Some (M', r) \<Longrightarrow> scenes_valid M'"
    and "reorder_zone_layers M i zid ids v = Some (M', r) \<Longrightarrow> scenes_valid M'"
    and "patch_zone_layer_effect_controls M i zid lid upd v = Some (M', r) \<Longrightarrow> scenes_valid M'"
    and "patch_zone_layer_controls_and_bindings M i zid lid upd clear v = Some (M', r) \<Longrightarrow> scenes_valid M'"
  unfolding insert_zone_layer_def remove_zone_layer_def reorder_zone_layers_def
    patch_zone_layer_effect_controls_def patch_zone_layer_controls_and_bindings_def
  by (rule valid_mutate [OF ok insert_layer_ok] valid_mutate [OF ok remove_layer_ok]
      valid_mutate [OF ok reorder_layers_ok] valid_mutate [OF ok patch_layer_ok(1)]
      valid_mutate [OF ok patch_layer_ok(2)]; assumption)+

lemma fitting_exec_valid:
  assumes ok: "scenes_valid M" and exec: "fitting_exec M opn = Some M'"
  shows "scenes_valid M'"
proof -
  from exec have fits: "op_fits M opn" and run: "scene_exec M opn = Some M'"
    by (auto simp: fitting_exec_def split: if_splits)
  show ?thesis
  proof (cases opn)
    case (OpEnsureSurface d nm lay zid)
    then show ?thesis using ok fits run
      by (auto simp: ensure_display_zone_surface_def intro: valid_surface [OF _ _ sync_display_surface_ok])
  next
    case (OpClearDisplay d nm lay zid)
    then show ?thesis using ok fits run
      by (auto simp: clear_display_zone_assignment_def intro: valid_surface [OF _ _ clear_display_surface_ok])
  qed (use ok fits run in \<open>auto simp: valid_ops dest: layer_ops_valid [OF ok] valid_upsert_primary [OF ok]
      valid_upsert_display [OF ok] valid_replace [OF ok]\<close>)
qed

interpretation scenes: fallible_machine fitting_exec scenes_valid
  by unfold_locales (rule fitting_exec_valid)

end
