(* ===== verification/Scene_Props.thy ===== *)
theory Scene_Props
  imports Scene_Validity
begin

text \<open>
  The scene manager as a whole: what a plan snapshot shows the render thread, the revision as a
  fence, validity of every stored scene and the preview of a layout. The last section records what
  restored selections leave in the cache.
\<close>

section \<open>Previewing a layout\<close>

lemma align_display: "z_display_target z \<noteq> None \<Longrightarrow> align_led_zone lay c z = (z, False)"
  by (simp add: align_led_zone_def)

lemma align_effect [simp]: "effect_layer_id (fst (align_led_zone lay c z)) = effect_layer_id z"
  by (simp add: effect_layer_id_def first_effect_layer_def)

lemma align_is_display [simp]: "is_display_for d (fst (align_led_zone lay c z)) = is_display_for d z"
  by (simp add: is_display_for_def targets_device_def)

lemma find_map_same: "(\<And>x. P (f x) = P x) \<Longrightarrow> find P (map f xs) = map_option f (find P xs)"
  by (induction xs) auto

lemma resolve_align:
  "resolve (Some (bump_zones_revision (sc\<lparr>sc_zones := map (\<lambda>z. fst (align_led_zone lay c z)) (sc_zones sc)\<rparr>))) defaults
     = map (\<lambda>z. fst (align_led_zone lay c z)) (resolve (Some sc) defaults)"
proof -
  let ?a = "\<lambda>z. fst (align_led_zone lay c z)"
  let ?keep = "\<lambda>s z. case z_display_target z of
      None \<Rightarrow> False
    | Some t \<Rightarrow> \<not> (case display_zone_for s (df_device_id t) of None \<Rightarrow> False | Some w \<Rightarrow> effect_layer_id w \<noteq> None)"
  let ?sc = "bump_zones_revision (sc\<lparr>sc_zones := map ?a (sc_zones sc)\<rparr>)"
  have "display_zone_for ?sc d = map_option ?a (display_zone_for sc d)" for d
    by (simp add: display_zone_for_def find_map_same)
  then have keep: "?keep ?sc = ?keep sc"
    by (intro ext) (simp split: option.split)
  have "map ?a (filter (?keep sc) defaults) = filter (?keep sc) defaults"
    by (rule map_idI) (auto simp: align_display split: option.splits)
  then show ?thesis by (simp only: resolve_def option.case keep) simp
qed

lemma resolve_changed:
  "list_ex (\<lambda>z. snd (align_led_zone lay c z)) (resolve (Some sc) defaults)
     = list_ex (\<lambda>z. snd (align_led_zone lay c z)) (sc_zones sc)"
  by (auto simp: resolve_def list_ex_iff align_display split: option.splits)

lemma align_changed_differs:
  "snd (align_led_zone lay c z) \<Longrightarrow> \<not> (fst (align_led_zone lay c z) = z \<and> zone_reflexive z)"
  by (cases "z_layout z") (auto simp: align_led_zone_def layout_eq_def zone_reflexive_def zone.equality
      dest: arg_cong [of _ _ z_layout] split: if_splits)

lemma align_zones_differ:
  assumes "list_ex (\<lambda>z. snd (align_led_zone lay c z)) zs"
  shows "\<not> zones_eq zs (map (\<lambda>z. fst (align_led_zone lay c z)) zs)"
proof
  assume eq: "zones_eq zs (map (\<lambda>z. fst (align_led_zone lay c z)) zs)"
  from assms obtain z where z: "z \<in> set zs" "snd (align_led_zone lay c z)" by (auto simp: list_ex_iff)
  have "map (\<lambda>z. fst (align_led_zone lay c z)) zs = map (\<lambda>z. z) zs" using eq by (simp add: zones_eq_def)
  then have "fst (align_led_zone lay c z) = z" using z(1) unfolding map_eq_conv by blast
  moreover have "zone_reflexive z" using eq z(1) by (auto simp: zones_eq_def list_all_iff)
  ultimately show False using align_changed_differs [OF z(2)] by blast
qed

lemma preview_coherent:
  assumes coh: "coherent M"
  shows "resolved_zones_for_primary_layout M lay =
    (m_resolved (fst (sync_primary_zone_layout M lay)), m_resolved_revision (fst (sync_primary_zone_layout M lay)))"
proof (cases "active_scene M")
  case None
  then show ?thesis
    by (auto simp: resolved_zones_for_primary_layout_def sync_primary_zone_layout_def active_scene_def split: option.splits)
next
  case (Some sc)
  then obtain i where i: "active_scene_id M = Some i" "fmlookup (m_scenes M) i = Some sc"
    by (auto simp: active_scene_def split: option.splits)
  let ?c = "scene_has_custom_led_zones sc"
  let ?a = "\<lambda>z. fst (align_led_zone lay ?c z)"
  let ?sc = "bump_zones_revision (sc\<lparr>sc_zones := map ?a (sc_zones sc)\<rparr>)"
  have res: "m_resolved M = resolve (Some sc) (m_defaults M)"
    using coh Some by (simp add: coherent_def next_zones_resolve)
  have nxt: "next_zones (put_scene M i ?sc) = map ?a (m_resolved M)"
    by (simp add: next_zones_resolve active_after_put(2) [OF i(1)] resolve_align res)
  show ?thesis
  proof (cases "list_ex (\<lambda>z. snd (align_led_zone lay ?c z)) (sc_zones sc)")
    case True
    then have ch: "list_ex (\<lambda>z. snd (align_led_zone lay ?c z)) (m_resolved M)"
      by (simp add: res resolve_changed)
    then show ?thesis
      using True i Some align_zones_differ [OF ch] nxt
      by (simp add: resolved_zones_for_primary_layout_def sync_primary_zone_layout_def align_zones_def
          refresh_resolved_zones_def)
  next
    case False
    then have "\<not> list_ex (\<lambda>z. snd (align_led_zone lay ?c z)) (m_resolved M)"
      by (simp add: res resolve_changed)
    moreover have "fst (sync_primary_zone_layout M lay) = M"
      using False i align_zones_unchanged [of lay ?c "sc_zones sc" "map ?a (sc_zones sc)"]
      by (simp add: sync_primary_zone_layout_def align_zones_def put_same)
    ultimately show ?thesis
      using Some by (simp add: resolved_zones_for_primary_layout_def align_zones_def)
  qed
qed

section \<open>Properties\<close>

lemma run_new_settled:
  "run scene_exec scene_manager_new ops = Some M \<Longrightarrow> list_all (\<lambda>opn. \<not> pushes_directly opn) ops \<Longrightarrow>
     sane M \<and> (plan_settled True scene_manager_new ops \<longrightarrow> coherent M)"
  using run_settled [of scene_manager_new ops M True] sane_new by simp

text \<open>C22: However the scene manager is driven from its creation, direct accesses to its priority stack
  included, no operation panics. As long as nothing is pushed on the stack directly, the stack and
  the history name registered scenes only, and there is an active scene exactly when the stack is
  not empty. The zones a plan snapshot hands to the render thread are those a recomputation from the
  active scene and the default faces gives, provided that a registered scene has been activated since
  the last direct access to the stack, or that there was none.
\<close>

theorem snapshot_is_current:
  "\<exists>M. run scene_exec scene_manager_new ops = Some M
     \<and> (list_all (\<lambda>opn. \<not> pushes_directly opn) ops \<longrightarrow>
          (plan_settled True scene_manager_new ops \<longrightarrow> sp_zones (plan_snapshot M g) = next_zones M)
          \<and> se_scene_id ` set (m_stack M) \<union> set (m_history M) \<subseteq> fmdom' (m_scenes M)
          \<and> (active_scene M = None \<longleftrightarrow> m_stack M = []))"
proof -
  obtain M where M: "run scene_exec scene_manager_new ops = Some M" using run_scene_total by blast
  have "active_scene M = None \<longleftrightarrow> m_stack M = []" if ok: "sane M"
  proof (cases "m_stack M")
    case (Cons e es)
    then have "active_scene_id M = Some (se_scene_id e)" by (simp add: active_scene_id_def stack_peek_def)
    then show ?thesis using active_registered [OF ok] Cons by (force simp: active_scene_def)
  qed (simp add: active_scene_def active_scene_id_def stack_peek_def)
  then show ?thesis using M run_new_settled [OF M] by (auto simp: sane_def coherent_def plan_snapshot_def)
qed

text \<open>C23: The revision of the resolved zones never goes back, and between two snapshots with the same
  revision, short of its saturation, the zones are the same, whatever was done in between.
\<close>

theorem revision_fence:
  assumes "run scene_exec M ops = Some M'"
  shows "sp_zones_revision (plan_snapshot M g) \<le> sp_zones_revision (plan_snapshot M' g')
    \<and> (sp_zones_revision (plan_snapshot M' g') = sp_zones_revision (plan_snapshot M g)
       \<longrightarrow> sp_zones_revision (plan_snapshot M g) \<noteq> - 1
       \<longrightarrow> sp_zones (plan_snapshot M' g') = sp_zones (plan_snapshot M g))"
  using run_scene_fenced [OF assms] by (simp add: fenced_def plan_snapshot_def)

text \<open>C21: As long as the layouts handed in fit, every scene in the store passes \<^verbatim>\<open>Scene::validate\<close> after any
  sequence of operations: no output in two zones, at most one primary zone, one display zone per device,
  layers with distinct identifiers and valid values.
\<close>

theorem scenes_stay_valid:
  assumes "run fitting_exec scene_manager_new ops = Some M" "fmlookup (m_scenes M) i = Some sc"
  shows "scene_validate sc = Inr ()"
proof -
  have "scenes_valid scene_manager_new" by (simp add: scenes_valid_def scene_manager_new_def)
  then have "scenes_valid M" using assms(1) by (rule scenes.run_Some_inv)
  then show ?thesis using assms(2) by (simp add: scenes_valid_def scene_validate_Inr)
qed

text \<open>The zones and revision \<^verbatim>\<open>resolved_zones_for_primary_layout\<close> previews for a layout are the ones
  \<^verbatim>\<open>sync_primary_zone_layout\<close> publishes for it, without direct accesses to the priority stack.
\<close>

theorem preview_matches_publication:
  assumes "run scene_exec scene_manager_new ops = Some M" "list_all (\<lambda>opn. \<not> stack_access opn) ops"
  shows "resolved_zones_for_primary_layout M lay =
    (m_resolved (fst (sync_primary_zone_layout M lay)), m_resolved_revision (fst (sync_primary_zone_layout M lay)))"
proof -
  have "\<not> pushes_directly opn" if "\<not> stack_access opn" for opn using that by (cases opn) auto
  then have "list_all (\<lambda>opn. \<not> pushes_directly opn) ops" using assms(2) by (auto simp: list_all_iff)
  then have "coherent M" using run_new_settled [OF assms(1)] unsettled_only_by_access [OF assms(2)] by blast
  then show ?thesis by (rule preview_coherent)
qed

subsection \<open>Witnesses\<close>

definition sample_output :: zone_output where
  "sample_output =
     \<lparr>out_id = ''strip'', out_name = ''Strip'', out_device_id = ''usb:1'', out_zone_name = None,
      out_position = (Fin 0, Fin 0), out_size = (Fin 1, Fin 1), out_rotation = Fin 0, out_scale = Fin 1,
      out_display_order = 0, out_orientation = None, out_topology = TopoPoint, out_led_positions = [],
      out_led_mapping = None, out_sampling_mode = None, out_edge_behavior = None, out_shape = None,
      out_shape_preset = None, out_attachment = None, out_brightness = None\<rparr>"

definition sample_ops :: "scene_op list" where
  "sample_ops =
     [OpInstallDefault empty_default_spatial_layout 7 10,
      OpCreateZone SCENE_DEFAULT ''Desk'' None (640, 480) 8,
      OpAssignOutput SCENE_DEFAULT 7 sample_output Preserve,
      OpAssignOutput SCENE_DEFAULT 8 sample_output Preserve]"

lemmas sample_defs =
  sample_ops_def scene_manager_new_def install_default_scene_def Let_def put_scene_def
  default_primary_zone_def new_zone_def stack_push_def stack_sort_def refresh_resolved_zones_def
  create_zone_def edit_unlocked_def blocks_runtime_mutation_def commit_scene_def active_scene_id_def stack_peek_def
  assign_output_to_zone_def assign_output_def owns_output_def drop_output_def place_output_def bump_zones_revision_def
  empty_default_spatial_layout_def empty_scene_zone_layout_def sample_output_def fitting_exec_def

lemma sample_run:
  "\<exists>M sc. run fitting_exec scene_manager_new sample_ops = Some M \<and> fmlookup (m_scenes M) SCENE_DEFAULT = Some sc
     \<and> map (\<lambda>z. (z_id z, layout_output_ids (z_layout z))) (sc_zones sc) = [(7, []), (8, [''strip''])]"
  by (simp add: sample_defs)

theorem scenes_stay_valid_witness:
  "\<exists>M sc. run fitting_exec scene_manager_new sample_ops = Some M \<and> fmlookup (m_scenes M) SCENE_DEFAULT = Some sc
     \<and> map (\<lambda>z. (z_id z, layout_output_ids (z_layout z))) (sc_zones sc) = [(7, []), (8, [''strip''])]
     \<and> scene_validate sc = Inr ()"
proof -
  obtain M sc where M: "run fitting_exec scene_manager_new sample_ops = Some M"
    "fmlookup (m_scenes M) SCENE_DEFAULT = Some sc"
    "map (\<lambda>z. (z_id z, layout_output_ids (z_layout z))) (sc_zones sc) = [(7, []), (8, [''strip''])]"
    using sample_run by (elim exE conjE) (rule that)
  from M scenes_stay_valid [OF M(1,2)] show ?thesis by (intro exI conjI)
qed

theorem snapshot_is_current_witness:
  "\<exists>M. run scene_exec scene_manager_new
        [OpInstallDefault empty_default_spatial_layout 7 10, OpPriorityStack Clear, OpActivate SCENE_DEFAULT None 20] = Some M
     \<and> sp_zones (plan_snapshot M 1) = next_zones M"
proof -
  let ?ops = "[OpInstallDefault empty_default_spatial_layout 7 10, OpPriorityStack Clear, OpActivate SCENE_DEFAULT None 20]"
  have "plan_settled True scene_manager_new ?ops"
    by (simp add: install_default_scene_def scene_manager_new_def Let_def put_scene_def priority_stack_mut_def)
  moreover have "list_all (\<lambda>opn. \<not> pushes_directly opn) ?ops" by simp
  ultimately show ?thesis using snapshot_is_current [of ?ops 1] by blast
qed

definition sample_manager :: scene_manager where
  "sample_manager = with_default_layout empty_default_spatial_layout 7 10"

theorem revision_fence_witness:
  "run scene_exec sample_manager [OpDeactivate] = Some sample_manager
   \<and> sp_zones_revision (plan_snapshot sample_manager 1) = 1
   \<and> sp_zones (plan_snapshot sample_manager 2) = sp_zones (plan_snapshot sample_manager 1)"
proof -
  have "run scene_exec sample_manager [OpDeactivate] = Some sample_manager"
    "sp_zones_revision (plan_snapshot sample_manager 1) = 1"
    by (simp_all add: sample_manager_def with_default_layout_def sample_defs scene_deactivate_current_def
        is_default_scene_def plan_snapshot_def next_zones_def active_scene_def zones_eq_def saturating_succ_def)
  then show ?thesis
    using revision_fence [of sample_manager "[OpDeactivate]" sample_manager 1 2] by (simp add: plan_snapshot_def)
qed

theorem preview_matches_publication_witness:
  "\<exists>M. run scene_exec scene_manager_new sample_ops = Some M
     \<and> resolved_zones_for_primary_layout M (empty_scene_zone_layout 9 320 240) =
         (m_resolved (fst (sync_primary_zone_layout M (empty_scene_zone_layout 9 320 240))),
          m_resolved_revision (fst (sync_primary_zone_layout M (empty_scene_zone_layout 9 320 240))))"
  using run_scene_total [of scene_manager_new sample_ops] preview_matches_publication [of sample_ops]
  by (auto simp: sample_ops_def simp del: run.simps)

section \<open>Restored selections\<close>

text \<open>
  The daemon's two uses of \<^verbatim>\<open>priority_stack_mut\<close>: an explicitly empty selection, and the selection of
  a restored setup, where the activation follows at once.
\<close>

definition restore_inactive_selection :: "scene_manager \<Rightarrow> scene_manager" where
  "restore_inactive_selection M = invalidate_resolved_zones (priority_stack_mut M stack_clear)"

definition apply_portable_selection ::
    "scene_manager \<Rightarrow> scene_id option \<Rightarrow> instant \<Rightarrow> scene_manager \<times> (scene_fault + unit)" where
  "apply_portable_selection M selected now =
     (let M1 = priority_stack_mut M stack_clear
      in case selected of
           None \<Rightarrow> (invalidate_resolved_zones M1, Inr ())
         | Some i \<Rightarrow>
             (case fmlookup (m_scenes M1) i of
                None \<Rightarrow> (M1, Inl (SceneNotFound i))
              | Some sc \<Rightarrow> scene_activate M1 i (Some ((sc_transition sc)\<lparr>ts_duration_ms := 0\<rparr>)) now))"

lemma portable_selection_current:
  assumes "apply_portable_selection M (Some i) now = (M', Inr ())"
  shows "sp_zones (plan_snapshot M' g) = next_zones M'"
proof -
  have "coherent M'"
    using assms activate_coherent [of "priority_stack_mut M stack_clear" i]
    by (auto simp: apply_portable_selection_def Let_def split: option.splits) (metis fst_conv option.discI)
  then show ?thesis by (simp add: coherent_def plan_snapshot_def)
qed

lemma inactive_selection_keeps_zones:
  "active_scene_id (restore_inactive_selection M) = None"
  "sp_zones (plan_snapshot (restore_inactive_selection M) g) = m_resolved M"
  "next_zones (restore_inactive_selection M) =
     filter (\<lambda>z. z_display_target z \<noteq> None) (m_defaults M)"
  by (auto simp: restore_inactive_selection_def active_scene_id_def stack_clear_def stack_peek_def plan_snapshot_def
      next_zones_def active_scene_def default_covered_def not_None_eq invalidate_resolved_zones_def priority_stack_mut_def
      split: option.split intro!: filter_cong)

end
