(* ===== verification/Automation.thy ===== *)
theory Automation
  imports Scene_Types
begin

text \<open>
  The automation rule engine, \<^verbatim>\<open>hypercolor-core/src/scene/automation.rs\<close>: rules by name, the
  instant each last fired, trigger matching, conditions and cooldowns. \<open>order\<close> enumerates the
  rules the way the iteration over the map does; \<open>now\<close> is \<^verbatim>\<open>Instant::now()\<close>, whose readings never
  go back.

  The facts show that a rule with a cooldown fires at most once in any window of its length, and
  that an evaluation fires exactly the enabled, matching rules that are not cooling down, each
  once, whatever the order.
\<close>

section \<open>Rules\<close>

datatype trigger_source =
    TimeOfDay u8 u8
  | Sunset
  | Sunrise
  | AppLaunched string
  | AudioLevel f32
  | GameDetected
  | Manual

datatype action_kind = ActivateScene string | SetBrightness f32 | RestorePrevious

record automation_rule =
  ar_name :: string
  ar_trigger :: trigger_source
  ar_conditions :: "string list"
  ar_action :: action_kind
  ar_cooldown_secs :: u64
  ar_enabled :: bool

record automation_engine =
  ae_rules :: "(string, automation_rule) fmap"
  ae_last_fired :: "(string, instant) fmap"

definition automation_engine_new :: automation_engine where
  "automation_engine_new = \<lparr>ae_rules = fmempty, ae_last_fired = fmempty\<rparr>"

definition add_rule :: "automation_engine \<Rightarrow> automation_rule \<Rightarrow> automation_engine" where
  "add_rule E r = E\<lparr>ae_rules := fmupd (ar_name r) r (ae_rules E)\<rparr>"

definition remove_rule :: "automation_engine \<Rightarrow> string \<Rightarrow> automation_engine \<times> automation_rule option" where
  "remove_rule E nm =
     (E\<lparr>ae_last_fired := fmdrop nm (ae_last_fired E), ae_rules := fmdrop nm (ae_rules E)\<rparr>,
      fmlookup (ae_rules E) nm)"

definition set_enabled :: "automation_engine \<Rightarrow> string \<Rightarrow> bool \<Rightarrow> automation_engine \<times> bool" where
  "set_enabled E nm b =
     (case fmlookup (ae_rules E) nm of
        None \<Rightarrow> (E, False)
      | Some r \<Rightarrow> (E\<lparr>ae_rules := fmupd nm (r\<lparr>ar_enabled := b\<rparr>) (ae_rules E)\<rparr>, True))"

definition enable_rule :: "automation_engine \<Rightarrow> string \<Rightarrow> automation_engine \<times> bool" where
  "enable_rule E nm = set_enabled E nm True"

definition disable_rule :: "automation_engine \<Rightarrow> string \<Rightarrow> automation_engine \<times> bool" where
  "disable_rule E nm = set_enabled E nm False"

section \<open>Evaluation\<close>

fun trigger_matches :: "trigger_source \<Rightarrow> trigger_source \<Rightarrow> bool" where
  "trigger_matches (TimeOfDay rh rm) (TimeOfDay ih im) \<longleftrightarrow> rh = ih \<and> rm = im"
| "trigger_matches Sunset Sunset \<longleftrightarrow> True"
| "trigger_matches Sunrise Sunrise \<longleftrightarrow> True"
| "trigger_matches GameDetected GameDetected \<longleftrightarrow> True"
| "trigger_matches Manual Manual \<longleftrightarrow> True"
| "trigger_matches (AppLaunched a) (AppLaunched b) \<longleftrightarrow> a = b"
| "trigger_matches (AudioLevel thresh) (AudioLevel level) \<longleftrightarrow> f64_le thresh level"
| "trigger_matches _ _ \<longleftrightarrow> False"

definition evaluate_conditions :: "string list \<Rightarrow> bool" where
  "evaluate_conditions conds \<longleftrightarrow>
     list_all (\<lambda>c. let t = trim c in t = [] \<or> eq_ignore_ascii_case t ''true'') conds"

definition rule_candidate :: "trigger_source \<Rightarrow> automation_rule \<Rightarrow> bool" where
  "rule_candidate trig r \<longleftrightarrow>
     ar_enabled r \<and> trigger_matches (ar_trigger r) trig \<and> evaluate_conditions (ar_conditions r)"

definition candidates ::
    "automation_engine \<Rightarrow> trigger_source \<Rightarrow> string list \<Rightarrow> (string \<times> action_kind \<times> u64) list" where
  "candidates E trig order =
     map (\<lambda>r. (ar_name r, ar_action r, ar_cooldown_secs r))
       (filter (rule_candidate trig) (concat (map (\<lambda>k. case fmlookup (ae_rules E) k of None \<Rightarrow> [] | Some r \<Rightarrow> [r]) order)))"

definition as_secs :: "duration \<Rightarrow> nat" where
  "as_secs d = d div 1000000000"

definition cooling_down :: "(string, instant) fmap \<Rightarrow> instant \<Rightarrow> string \<Rightarrow> u64 \<Rightarrow> bool" where
  "cooling_down fired now nm cooldown \<longleftrightarrow>
     0 < cooldown
     \<and> (case fmlookup fired nm of
          None \<Rightarrow> False
        | Some prev \<Rightarrow> as_secs (saturating_duration_since now prev) < unat cooldown)"

definition fire_step ::
    "instant \<Rightarrow> (string, instant) fmap \<times> (string \<times> action_kind) list \<Rightarrow> string \<times> action_kind \<times> u64
     \<Rightarrow> (string, instant) fmap \<times> (string \<times> action_kind) list" where
  "fire_step now st c =
     (case (st, c) of ((fired, out), (nm, act, cooldown)) \<Rightarrow>
        if cooling_down fired now nm cooldown then (fired, out)
        else (fmupd nm now fired, out @ [(nm, act)]))"

definition evaluate ::
    "automation_engine \<Rightarrow> trigger_source \<Rightarrow> instant \<Rightarrow> string list
     \<Rightarrow> automation_engine \<times> (string \<times> action_kind) list" where
  "evaluate E trig now order =
     (let (fired, out) = foldl (fire_step now) (ae_last_fired E, []) (candidates E trig order)
      in (E\<lparr>ae_last_fired := fired\<rparr>, out))"

definition reset_cooldown :: "automation_engine \<Rightarrow> string \<Rightarrow> automation_engine" where
  "reset_cooldown E nm = E\<lparr>ae_last_fired := fmdrop nm (ae_last_fired E)\<rparr>"

definition reset_all_cooldowns :: "automation_engine \<Rightarrow> automation_engine" where
  "reset_all_cooldowns E = E\<lparr>ae_last_fired := fmempty\<rparr>"

section \<open>One evaluation\<close>

text \<open>Rules are stored under their names.\<close>

definition rules_named :: "automation_engine \<Rightarrow> bool" where
  "rules_named E \<longleftrightarrow> (\<forall>nm r. fmlookup (ae_rules E) nm = Some r \<longrightarrow> ar_name r = nm)"

lemma rules_named_ops [simp]:
  "rules_named automation_engine_new"
  "rules_named E \<Longrightarrow> rules_named (add_rule E r)"
  "rules_named E \<Longrightarrow> rules_named (fst (remove_rule E nm))"
  "rules_named E \<Longrightarrow> rules_named (fst (set_enabled E nm b))"
  "rules_named E \<Longrightarrow> rules_named (fst (evaluate E trig now order))"
  "rules_named E \<Longrightarrow> rules_named (reset_cooldown E nm)"
  "rules_named E \<Longrightarrow> rules_named (reset_all_cooldowns E)"
  by (auto simp: rules_named_def automation_engine_new_def add_rule_def remove_rule_def set_enabled_def
      evaluate_def reset_cooldown_def reset_all_cooldowns_def Let_def split: option.split prod.split)

lemma fire_fold:
  assumes "distinct (map fst cs)"
  shows "foldl (fire_step now) (fired, out) cs =
    (let go = filter (\<lambda>(nm, _, cd). \<not> cooling_down fired now nm cd) cs
     in (foldl (\<lambda>m c. fmupd (fst c) now m) fired go, out @ map (\<lambda>(nm, act, _). (nm, act)) go))"
  using assms
proof (induction cs arbitrary: fired out)
  case (Cons c cs)
  obtain nm act cd where c: "c = (nm, act, cd)" by (cases c)
  have fresh: "nm' \<noteq> nm" if "(nm', a, k) \<in> set cs" for nm' a k
    using Cons.prems that by (force simp: c)
  have same: "cooling_down (fmupd nm now fired) now nm' k = cooling_down fired now nm' k"
    if "(nm', a, k) \<in> set cs" for nm' a k
    using fresh [OF that] by (simp add: cooling_down_def)
  have "filter (\<lambda>(nm', _, k). \<not> cooling_down (fmupd nm now fired) now nm' k) cs
      = filter (\<lambda>(nm', _, k). \<not> cooling_down fired now nm' k) cs"
    using same by (intro filter_cong) auto
  then show ?case
    using Cons.IH [of "fmupd nm now fired"] Cons.IH [of fired] Cons.prems
    by (auto simp: c fire_step_def Let_def)
qed simp

lemma fmupd_fold_lookup:
  "fmlookup (foldl (\<lambda>m c. fmupd (fst c) now m) fired go) nm
     = (if nm \<in> fst ` set go then Some now else fmlookup fired nm)"
  by (induction go arbitrary: fired) auto

lemma candidate_names:
  assumes "rules_named E" "distinct order"
  shows "distinct (map fst (candidates E trig order))"
proof -
  have *: "map ar_name (concat (map (\<lambda>k. case fmlookup (ae_rules E) k of None \<Rightarrow> [] | Some r \<Rightarrow> [r]) ks))
      = filter (\<lambda>k. fmlookup (ae_rules E) k \<noteq> None) ks" for ks
    using assms(1) by (induction ks) (auto simp: rules_named_def split: option.split)
  have "distinct (map ar_name (filter (rule_candidate trig)
      (concat (map (\<lambda>k. case fmlookup (ae_rules E) k of None \<Rightarrow> [] | Some r \<Rightarrow> [r]) order))))"
    by (rule distinct_map_filter) (simp add: * assms(2))
  then show ?thesis by (simp add: candidates_def comp_def)
qed

lemma candidate_iff:
  assumes named: "rules_named E" and order: "set order = fmdom' (ae_rules E)"
  shows "(nm, act, cd) \<in> set (candidates E trig order) \<longleftrightarrow>
    (\<exists>r. fmlookup (ae_rules E) nm = Some r \<and> rule_candidate trig r \<and> act = ar_action r \<and> cd = ar_cooldown_secs r)"
proof -
  have key: "ar_name r = k" if "fmlookup (ae_rules E) k = Some r" for k r
    using named that by (simp add: rules_named_def)
  have listed: "r \<in> set (concat (map (\<lambda>k. case fmlookup (ae_rules E) k of None \<Rightarrow> [] | Some r \<Rightarrow> [r]) order))
      \<longleftrightarrow> (\<exists>k. fmlookup (ae_rules E) k = Some r)" for r
    unfolding set_concat set_map order
    by (force simp: fmlookup_dom'_iff split: option.splits)
  have "(nm, act, cd) \<in> set (candidates E trig order) \<longleftrightarrow>
      (\<exists>r. (\<exists>k. fmlookup (ae_rules E) k = Some r) \<and> rule_candidate trig r
         \<and> nm = ar_name r \<and> act = ar_action r \<and> cd = ar_cooldown_secs r)"
    unfolding candidates_def set_map set_filter image_iff listed by blast
  also have "\<dots> \<longleftrightarrow> (\<exists>r. fmlookup (ae_rules E) nm = Some r \<and> rule_candidate trig r
      \<and> act = ar_action r \<and> cd = ar_cooldown_secs r)"
    using key by metis
  finally show ?thesis .
qed

lemma evaluate_spec:
  assumes named: "rules_named E" and order: "set order = fmdom' (ae_rules E)" "distinct order"
  shows "(nm, act) \<in> set (snd (evaluate E trig now order)) \<longleftrightarrow>
      (\<exists>r. fmlookup (ae_rules E) nm = Some r \<and> rule_candidate trig r \<and> act = ar_action r
         \<and> \<not> cooling_down (ae_last_fired E) now nm (ar_cooldown_secs r))"
    and "distinct (map fst (snd (evaluate E trig now order)))"
    and "fmlookup (ae_last_fired (fst (evaluate E trig now order))) nm =
      (if nm \<in> fst ` set (snd (evaluate E trig now order)) then Some now else fmlookup (ae_last_fired E) nm)"
proof -
  let ?cs = "candidates E trig order"
  let ?go = "filter (\<lambda>(nm, _, cd). \<not> cooling_down (ae_last_fired E) now nm cd) ?cs"
  have d: "distinct (map fst ?cs)" by (rule candidate_names [OF named order(2)])
  have out: "snd (evaluate E trig now order) = map (\<lambda>(nm, act, _). (nm, act)) ?go"
    and last: "ae_last_fired (fst (evaluate E trig now order)) = foldl (\<lambda>m c. fmupd (fst c) now m) (ae_last_fired E) ?go"
    by (simp_all add: evaluate_def fire_fold [OF d] Let_def)
  show "(nm, act) \<in> set (snd (evaluate E trig now order)) \<longleftrightarrow>
      (\<exists>r. fmlookup (ae_rules E) nm = Some r \<and> rule_candidate trig r \<and> act = ar_action r
         \<and> \<not> cooling_down (ae_last_fired E) now nm (ar_cooldown_secs r))"
    using candidate_iff [OF named order(1), of nm act _ trig] unfolding out set_map set_filter
    by (auto simp: image_iff case_prod_beta)
  have names: "map fst (map (\<lambda>(nm, act, _). (nm, act)) ?go) = map fst ?go"
    by (simp add: comp_def case_prod_beta)
  then show "distinct (map fst (snd (evaluate E trig now order)))"
    unfolding out using distinct_map_filter [OF d] by metis
  have "fst ` set (snd (evaluate E trig now order)) = fst ` set ?go"
    unfolding out using arg_cong [OF names, of set] by (simp only: set_map)
  then show "fmlookup (ae_last_fired (fst (evaluate E trig now order))) nm =
      (if nm \<in> fst ` set (snd (evaluate E trig now order)) then Some now else fmlookup (ae_last_fired E) nm)"
    unfolding last by (simp only: fmupd_fold_lookup)
qed

section \<open>Cooldowns\<close>

datatype automation_op =
    AddRule automation_rule
  | RemoveRule string
  | EnableRule string
  | DisableRule string
  | Evaluate trigger_source instant "string list"
  | ResetCooldown string
  | ResetAllCooldowns

primrec automation_exec :: "automation_engine \<Rightarrow> automation_op \<Rightarrow> automation_engine" where
  "automation_exec E (AddRule r) = add_rule E r"
| "automation_exec E (RemoveRule nm) = fst (remove_rule E nm)"
| "automation_exec E (EnableRule nm) = fst (enable_rule E nm)"
| "automation_exec E (DisableRule nm) = fst (disable_rule E nm)"
| "automation_exec E (Evaluate trig now order) = fst (evaluate E trig now order)"
| "automation_exec E (ResetCooldown nm) = reset_cooldown E nm"
| "automation_exec E ResetAllCooldowns = reset_all_cooldowns E"

interpretation automation: invariant_machine automation_exec rules_named
proof unfold_locales
  fix E opn
  assume "rules_named E"
  then show "rules_named (automation_exec E opn)"
    by (cases opn) (simp_all add: enable_rule_def disable_rule_def)
qed

text \<open>Operations that leave the cooldown of a rule alone and do not run before an instant.\<close>

fun keeps_cooldown :: "string \<Rightarrow> instant \<Rightarrow> automation_op \<Rightarrow> bool" where
  "keeps_cooldown nm t (RemoveRule n) \<longleftrightarrow> n \<noteq> nm"
| "keeps_cooldown nm t (ResetCooldown n) \<longleftrightarrow> n \<noteq> nm"
| "keeps_cooldown nm t ResetAllCooldowns \<longleftrightarrow> False"
| "keeps_cooldown nm t (Evaluate _ now _) \<longleftrightarrow> t \<le> now"
| "keeps_cooldown nm t _ \<longleftrightarrow> True"

definition fired_since :: "string \<Rightarrow> instant \<Rightarrow> (string, instant) fmap \<Rightarrow> bool" where
  "fired_since nm t fired \<longleftrightarrow> (case fmlookup fired nm of None \<Rightarrow> False | Some u \<Rightarrow> t \<le> u)"

lemma fired_since_fmupd [simp]:
  "fired_since nm t (fmupd n now fired) \<longleftrightarrow> (if n = nm then t \<le> now else fired_since nm t fired)"
  by (simp add: fired_since_def)

lemma fire_fold_since:
  "fired_since nm t fired \<Longrightarrow> t \<le> now \<Longrightarrow>
     fired_since nm t (fst (foldl (fire_step now) (fired, out) cs))"
proof (induction cs arbitrary: fired out)
  case (Cons c cs)
  obtain n act cd where c: "c = (n, act, cd)" by (cases c)
  show ?case
    using Cons by (cases "cooling_down fired now n cd") (simp_all add: c fire_step_def)
qed simp

lemma fire_fold_fired:
  "nm \<in> fst ` set out \<longrightarrow> fired_since nm now fired \<Longrightarrow>
     nm \<in> fst ` set (snd (foldl (fire_step now) (fired, out) cs)) \<Longrightarrow>
     fired_since nm now (fst (foldl (fire_step now) (fired, out) cs))"
proof (induction cs arbitrary: fired out)
  case (Cons c cs)
  obtain n act cd where c: "c = (n, act, cd)" by (cases c)
  show ?case
  proof (cases "cooling_down fired now n cd")
    case True
    then show ?thesis using Cons by (simp add: c fire_step_def)
  next
    case False
    have "nm \<in> fst ` set (out @ [(n, act)]) \<longrightarrow> fired_since nm now (fmupd n now fired)"
      using Cons.prems(1) by auto
    then show ?thesis
      using Cons.IH [of "out @ [(n, act)]" "fmupd n now fired"] Cons.prems(2) False by (simp add: c fire_step_def)
  qed
qed simp

lemma evaluate_eq:
  "fst (evaluate E trig now order) =
     E\<lparr>ae_last_fired := fst (foldl (fire_step now) (ae_last_fired E, []) (candidates E trig order))\<rparr>"
  "snd (evaluate E trig now order) = snd (foldl (fire_step now) (ae_last_fired E, []) (candidates E trig order))"
  by (simp_all add: evaluate_def case_prod_beta)

lemma keeps_cooldown_exec:
  "keeps_cooldown nm t opn \<Longrightarrow> fired_since nm t (ae_last_fired E) \<Longrightarrow>
     fired_since nm t (ae_last_fired (automation_exec E opn))"
proof (cases opn)
  case (Evaluate trig now order)
  assume "keeps_cooldown nm t opn" "fired_since nm t (ae_last_fired E)"
  then show ?thesis using Evaluate by (simp add: evaluate_eq fire_fold_since)
qed (auto simp: add_rule_def remove_rule_def enable_rule_def disable_rule_def set_enabled_def reset_cooldown_def
      fired_since_def split: option.splits)

lemma keeps_cooldown_run:
  "list_all (keeps_cooldown nm t) ops \<Longrightarrow> fired_since nm t (ae_last_fired E) \<Longrightarrow>
     fired_since nm t (ae_last_fired (foldl automation_exec E ops))"
  by (induction ops arbitrary: E) (auto intro: keeps_cooldown_exec)

text \<open>C24: When a rule has fired and, with its cooldown neither reset nor dropped in between, fires again
  at a later evaluation, at least its cooldown has passed since, whatever rules were added, enabled,
  disabled or evaluated meanwhile.
\<close>

theorem cooldown_respected:
  assumes reach: "E = foldl automation_exec automation_engine_new ops"
    and fired: "nm \<in> fst ` set (snd (evaluate E trig t order))"
    and between: "list_all (keeps_cooldown nm t) ops'"
    and later: "E' = foldl automation_exec (fst (evaluate E trig t order)) ops'"
    and order: "set order' = fmdom' (ae_rules E')" "distinct order'"
    and again: "nm \<in> fst ` set (snd (evaluate E' trig' t' order'))"
    and rule: "fmlookup (ae_rules E') nm = Some r" "0 < ar_cooldown_secs r"
  shows "unat (ar_cooldown_secs r) * 1000000000 \<le> t' - t"
proof -
  have named: "rules_named E'"
    unfolding later by (intro automation.run_inv rules_named_ops) (simp add: reach automation.run_inv)
  have "fired_since nm t (ae_last_fired (fst (evaluate E trig t order)))"
    using fire_fold_fired [of nm "[]" t "ae_last_fired E" "candidates E trig order"] fired
    by (simp add: evaluate_eq)
  then have "fired_since nm t (ae_last_fired E')"
    unfolding later by (rule keeps_cooldown_run [OF between])
  then obtain u where u: "fmlookup (ae_last_fired E') nm = Some u" "t \<le> u"
    by (auto simp: fired_since_def split: option.splits)
  from again obtain act where "(nm, act) \<in> set (snd (evaluate E' trig' t' order'))" by force
  then have "\<not> cooling_down (ae_last_fired E') t' nm (ar_cooldown_secs r)"
    using evaluate_spec(1) [OF named order] rule(1) by auto
  then have "unat (ar_cooldown_secs r) \<le> (t' - u) div 1000000000"
    using u rule(2) by (simp add: cooling_down_def as_secs_def saturating_duration_since_def)
  then have "unat (ar_cooldown_secs r) * 1000000000 \<le> t' - u"
    by (simp add: less_eq_div_iff_mult_less_eq)
  then show ?thesis using u(2) by linarith
qed

definition sample_rule :: automation_rule where
  "sample_rule = \<lparr>ar_name = ''wake'', ar_trigger = Manual, ar_conditions = [], ar_action = RestorePrevious,
     ar_cooldown_secs = 5, ar_enabled = True\<rparr>"

theorem cooldown_respected_witness:
  "snd (evaluate (fst (evaluate (add_rule automation_engine_new sample_rule) Manual 100 [''wake'']))
      Manual 5000000100 [''wake'']) = [(''wake'', RestorePrevious)]
   \<and> unat (ar_cooldown_secs sample_rule) * 1000000000 \<le> 5000000100 - (100 :: nat)"
proof -
  let ?E = "foldl automation_exec automation_engine_new [AddRule sample_rule]"
  let ?E' = "foldl automation_exec (fst (evaluate ?E Manual 100 [''wake''])) []"
  note eval = automation_engine_new_def add_rule_def sample_rule_def evaluate_def candidates_def rule_candidate_def
    evaluate_conditions_def fire_step_def cooling_down_def as_secs_def saturating_duration_since_def Let_def
  have again: "snd (evaluate ?E' Manual 5000000100 [''wake'']) = [(''wake'', RestorePrevious)]"
    by (simp add: eval)
  have "unat (ar_cooldown_secs sample_rule) * 1000000000 \<le> 5000000100 - (100 :: nat)"
    by (rule cooldown_respected [where E = ?E and ops = "[AddRule sample_rule]" and nm = "''wake''" and trig = Manual
          and order = "[''wake'']" and ops' = "[]" and E' = ?E' and order' = "[''wake'']" and trig' = Manual])
      (use again in \<open>simp_all add: eval\<close>)
  with again show ?thesis by simp
qed

end
