(* ===== verification/Idempotency.thy ===== *)
theory Idempotency
  imports Ieee Rust_Str
begin

text \<open>
  \<^verbatim>\<open>Idempotency-Key\<close> handling of scene writes, \<^verbatim>\<open>hypercolor-daemon/src/api/idempotency.rs\<close>: the
  fingerprint of a request, the scope of a key, and the store that runs a keyed write once and
  answers its repeats from the recorded outcome. SHA-256 is the argument \<open>sha\<close>; a watch channel is
  a number, what a settlement sends on it a result of the operation; clock readings are arguments.
  The store's mutex makes every operation atomic, so concurrent requests are interleavings of
  \<open>idem_step\<close>.
\<close>

section \<open>Requests and keys\<close>

type_synonym fingerprint = "256 word"
type_synonym channel = nat

record keyed_request =
  rq_method :: bytes
  rq_target :: bytes
  rq_if_match :: "bytes list"
  rq_content_type :: "bytes option"
  rq_body :: bytes

definition absorb :: "bytes option \<Rightarrow> bytes" where
  "absorb part =
     (case part of
        None \<Rightarrow> [0]
      | Some p \<Rightarrow> 1 # le64 (if length p < 2 ^ 64 then of_nat (length p) else - 1) @ p)"

text \<open>The bytes the hasher absorbs, in order.\<close>

definition fingerprint_input :: "keyed_request \<Rightarrow> bytes" where
  "fingerprint_input q =
     absorb (Some (rq_method q)) @ absorb (Some (rq_target q))
     @ concat (map (\<lambda>line. absorb (Some line)) (rq_if_match q)) @ absorb None
     @ absorb (rq_content_type q) @ absorb (Some (rq_body q))"

definition fingerprint_of :: "(bytes \<Rightarrow> fingerprint) \<Rightarrow> keyed_request \<Rightarrow> fingerprint" where
  "fingerprint_of sha q = sha (fingerprint_input q)"

datatype key_error = KeyNotVisibleAscii | KeyEmpty | KeyTooLong | KeyBadCharacter

definition IDEMPOTENCY_KEY_MAX_LEN :: nat where
  "IDEMPOTENCY_KEY_MAX_LEN = 255"

definition strip_quotes :: "string \<Rightarrow> string" where
  "strip_quotes t =
     (case t of
        c # inner \<Rightarrow> if c = CHR 0x22 \<and> inner \<noteq> [] \<and> last inner = CHR 0x22 then butlast inner else t
      | [] \<Rightarrow> t)"

text \<open>The argument is the outcome of the header value's \<^verbatim>\<open>to_str\<close>.\<close>

definition parse_key :: "string option \<Rightarrow> key_error + string" where
  "parse_key raw =
     (case raw of
        None \<Rightarrow> Inl KeyNotVisibleAscii
      | Some s \<Rightarrow>
          let key = strip_quotes (trim s)
          in if key = [] then Inl KeyEmpty
             else if IDEMPOTENCY_KEY_MAX_LEN < length key then Inl KeyTooLong
             else if \<not> list_all (\<lambda>c. is_ascii_graphic c \<and> c \<noteq> CHR 0x22) key then Inl KeyBadCharacter
             else Inr key)"

definition scoped_key :: "string option \<Rightarrow> string \<Rightarrow> string" where
  "scoped_key scope key =
     (let scope = (case scope of None \<Rightarrow> [] | Some s \<Rightarrow> s)
      in fmt_dec (length scope) @ '':'' @ scope @ '':'' @ key)"

text \<open>
  What \<^verbatim>\<open>guard\<close> does before it reads the body: a request without the header, or to an operation
  that does not document it, goes through untouched; a bad key is refused; otherwise the key is
  scoped. \<open>matched\<close> is the path template the router matched, \<open>raw_key\<close> the header.
\<close>

type_synonym idempotent_routes = "(string, bytes list) fmap"

definition honors :: "idempotent_routes \<Rightarrow> bytes \<Rightarrow> string \<Rightarrow> bool" where
  "honors routes method matched =
     (let path = (if take 7 matched = ''/api/v1'' then drop 7 matched else matched)
      in case fmlookup routes path of None \<Rightarrow> False | Some methods \<Rightarrow> method \<in> set methods)"

datatype guard_entry = PassThrough | BadKey key_error | Keyed string

definition guard_key ::
    "idempotent_routes \<Rightarrow> bytes \<Rightarrow> string option \<Rightarrow> string option option \<Rightarrow> string option \<Rightarrow> guard_entry" where
  "guard_key routes method matched raw_key scope =
     (case raw_key of
        None \<Rightarrow> PassThrough
      | Some raw \<Rightarrow>
          if \<not> (case matched of None \<Rightarrow> False | Some path \<Rightarrow> honors routes method path) then PassThrough
          else (case parse_key raw of
                  Inl e \<Rightarrow> BadKey e
                | Inr key \<Rightarrow> Keyed (scoped_key scope key)))"

section \<open>The store\<close>

record retention =
  ret_entries :: nat
  ret_bytes :: nat
  ret_age :: duration
  ret_pending_entries :: nat
  ret_pending_bytes :: nat

definition default_retention :: retention where
  "default_retention =
     \<lparr>ret_entries = 1024, ret_bytes = 32 * 1024 * 1024, ret_age = from_secs 3600,
      ret_pending_entries = 64, ret_pending_bytes = 16 * 1024 * 1024\<rparr>"

record stored_response =
  resp_status :: u16
  resp_headers :: "(string \<times> bytes) list"
  resp_body :: bytes

definition response_weight :: "stored_response \<Rightarrow> nat" where
  "response_weight r = sum_list (map (\<lambda>(n, v). length n + length v) (resp_headers r)) + length (resp_body r)"

datatype outcome = Answered stored_response | Abandoned

primrec outcome_weight :: "outcome \<Rightarrow> nat" where
  "outcome_weight (Answered r) = response_weight r"
| "outcome_weight Abandoned = 0"

datatype idem_entry =
    InFlightEntry fingerprint channel
  | CompletedEntry fingerprint outcome u64 instant

record completed_record =
  cr_key :: string
  cr_sequence :: u64
  cr_completed_at :: instant

record idem_store =
  is_entries :: "(string, idem_entry) fmap"
  is_completed :: "completed_record list"
  is_completed_count :: nat
  is_stored_bytes :: nat
  is_pending_count :: nat
  is_pending_bytes :: nat
  is_next_sequence :: u64

record in_flight_request =
  if_key :: string
  if_fingerprint :: fingerprint
  if_request_bytes :: nat
  if_channel :: channel

datatype key_claim = Execute in_flight_request | Wait channel | Replay outcome | Mismatch | Busy

definition idem_store_new :: idem_store where
  "idem_store_new =
     \<lparr>is_entries = fmempty, is_completed = [], is_completed_count = 0, is_stored_bytes = 0,
      is_pending_count = 0, is_pending_bytes = 0, is_next_sequence = 0\<rparr>"

definition usize_saturating_add :: "nat \<Rightarrow> nat \<Rightarrow> nat" where
  "usize_saturating_add a b = min (a + b) (2 ^ 64 - 1)"

definition forget :: "string \<Rightarrow> idem_store \<Rightarrow> idem_store" where
  "forget key s =
     (case fmlookup (is_entries s) key of
        Some (CompletedEntry _ out _ _) \<Rightarrow>
          s\<lparr>is_entries := fmdrop key (is_entries s), is_completed_count := is_completed_count s - 1,
            is_stored_bytes := is_stored_bytes s - outcome_weight out\<rparr>
      | _ \<Rightarrow> s)"

definition evict_front :: "idem_store \<Rightarrow> idem_store \<times> bool" where
  "evict_front s =
     (case is_completed s of
        [] \<Rightarrow> (s, False)
      | r # rs \<Rightarrow>
          let s1 = s\<lparr>is_completed := rs\<rparr>;
              current = (case fmlookup (is_entries s1) (cr_key r) of
                           Some (CompletedEntry _ _ sequence _) \<Rightarrow> sequence = cr_sequence r
                         | _ \<Rightarrow> False)
          in (if current then forget (cr_key r) s1 else s1, True))"

lemma length_evict_front:
  "is_completed s = r # rs \<Longrightarrow> is_completed (fst (evict_front s)) = rs"
  by (simp add: evict_front_def forget_def Let_def split: option.split idem_entry.split)

function expire :: "instant \<Rightarrow> duration \<Rightarrow> idem_store \<Rightarrow> idem_store" where
  "expire now age s =
     (case is_completed s of
        [] \<Rightarrow> s
      | r # _ \<Rightarrow>
          if saturating_duration_since now (cr_completed_at r) < age then s
          else expire now age (fst (evict_front s)))"
  by pat_completeness auto
termination
  by (relation "measure (\<lambda>(_, _, s). length (is_completed s))") (auto simp: length_evict_front)

definition over_limits :: "retention \<Rightarrow> idem_store \<Rightarrow> bool" where
  "over_limits R s \<longleftrightarrow>
     max (ret_entries R) 1 < is_completed_count s
     \<or> (ret_bytes R < is_stored_bytes s \<and> 1 < is_completed_count s)"

function shrink_to :: "retention \<Rightarrow> idem_store \<Rightarrow> idem_store" where
  "shrink_to R s =
     (if over_limits R s then
        case is_completed s of
          [] \<Rightarrow> s
        | _ # _ \<Rightarrow> shrink_to R (fst (evict_front s))
      else s)"
  by pat_completeness auto
termination
  by (relation "measure (\<lambda>(_, s). length (is_completed s))") (auto simp: length_evict_front)

declare expire.simps [simp del] shrink_to.simps [simp del]

text \<open>A new execution is admitted when there is room for it.\<close>

definition admit ::
    "retention \<Rightarrow> idem_store \<Rightarrow> string \<Rightarrow> fingerprint \<Rightarrow> nat \<Rightarrow> channel \<Rightarrow> idem_store \<times> key_claim" where
  "admit R s key fp request_bytes ch =
     (if ret_pending_entries R \<le> is_pending_count s
         \<or> ret_pending_bytes R < usize_saturating_add (is_pending_bytes s) request_bytes
      then (s, Busy)
      else
        (s\<lparr>is_pending_count := is_pending_count s + 1,
           is_pending_bytes := usize_saturating_add (is_pending_bytes s) request_bytes,
           is_entries := fmupd key (InFlightEntry fp ch) (is_entries s)\<rparr>,
         Execute \<lparr>if_key = key, if_fingerprint = fp, if_request_bytes = request_bytes, if_channel = ch\<rparr>))"

definition claim_key_for ::
    "retention \<Rightarrow> idem_store \<Rightarrow> string \<Rightarrow> fingerprint \<Rightarrow> nat \<Rightarrow> instant \<Rightarrow> channel \<Rightarrow> idem_store \<times> key_claim" where
  "claim_key_for R s0 key fp request_bytes now ch =
     (let s = expire now (ret_age R) s0
      in case fmlookup (is_entries s) key of
           Some (InFlightEntry held done) \<Rightarrow> (s, if held = fp then Wait done else Mismatch)
         | Some (CompletedEntry held out _ completed_at) \<Rightarrow>
             if saturating_duration_since now completed_at < ret_age R
             then (s, if held = fp then Replay out else Mismatch)
             else admit R (forget key s) key fp request_bytes ch
         | None \<Rightarrow> admit R s key fp request_bytes ch)"

text \<open>The answer takes the place of the request in flight, at the end of the queue.\<close>

definition record_outcome ::
    "idem_store \<Rightarrow> string \<Rightarrow> fingerprint \<Rightarrow> nat \<Rightarrow> outcome \<Rightarrow> instant \<Rightarrow> idem_store" where
  "record_outcome s key fp request_bytes out now =
     (let sequence = is_next_sequence s
      in s\<lparr>is_pending_count := is_pending_count s - 1,
           is_pending_bytes := is_pending_bytes s - request_bytes,
           is_next_sequence := sequence + 1,
           is_entries := fmupd key (CompletedEntry fp out sequence now) (is_entries s),
           is_completed := is_completed s
             @ [\<lparr>cr_key = key, cr_sequence = sequence, cr_completed_at = now\<rparr>],
           is_completed_count := is_completed_count s + 1,
           is_stored_bytes := usize_saturating_add (is_stored_bytes s) (outcome_weight out)\<rparr>)"

definition store_settle ::
    "retention \<Rightarrow> idem_store \<Rightarrow> string \<Rightarrow> fingerprint \<Rightarrow> nat \<Rightarrow> outcome \<Rightarrow> instant \<Rightarrow> idem_store" where
  "store_settle R s key fp request_bytes out now =
     shrink_to R (expire now (ret_age R) (record_outcome s key fp request_bytes out now))"

text \<open>Settling a request stores its outcome and sends it to the waiters on its channel.\<close>

definition in_flight_settle ::
    "retention \<Rightarrow> idem_store \<Rightarrow> in_flight_request \<Rightarrow> outcome \<Rightarrow> instant \<Rightarrow> idem_store \<times> channel \<times> outcome" where
  "in_flight_settle R s tok out now =
     (store_settle R s (if_key tok) (if_fingerprint tok) (if_request_bytes tok) out now, if_channel tok, out)"

text \<open>Dropping an unsettled request.\<close>

definition in_flight_drop ::
    "retention \<Rightarrow> idem_store \<Rightarrow> in_flight_request \<Rightarrow> instant \<Rightarrow> idem_store \<times> channel \<times> outcome" where
  "in_flight_drop R s tok now = in_flight_settle R s tok Abandoned now"

section \<open>Answers\<close>

datatype reply = MismatchReply | BusyReply | StoredReply stored_response | AbandonedReply bool

definition mark_replayed :: "stored_response \<Rightarrow> stored_response" where
  "mark_replayed r =
     r\<lparr>resp_headers := filter (\<lambda>(n, _). n \<noteq> ''idempotency-replayed'') (resp_headers r)
         @ [(''idempotency-replayed'', [116, 114, 117, 101])]\<rparr>"

definition respond :: "outcome \<Rightarrow> bool \<Rightarrow> reply" where
  "respond out replayed =
     (case out of
        Abandoned \<Rightarrow> AbandonedReply replayed
      | Answered r \<Rightarrow> StoredReply (if replayed then mark_replayed r else r))"

text \<open>
  The reply of \<^verbatim>\<open>guard\<close> to a claim, given what the awaited channel or the request's own task
  delivered; nothing is delivered when the sender is gone or the task panicked.
\<close>

definition guard_reply :: "key_claim \<Rightarrow> outcome option \<Rightarrow> reply" where
  "guard_reply c delivered =
     (case c of
        Mismatch \<Rightarrow> MismatchReply
      | Busy \<Rightarrow> BusyReply
      | Replay out \<Rightarrow> respond out True
      | Wait _ \<Rightarrow> (case delivered of Some out \<Rightarrow> respond out True | None \<Rightarrow> AbandonedReply True)
      | Execute _ \<Rightarrow> (case delivered of Some out \<Rightarrow> respond out False | None \<Rightarrow> AbandonedReply False))"

end
