(* ===== verification/Idempotency_Props.thy ===== *)
theory Idempotency_Props
  imports Idempotency
begin

text \<open>
  What the idempotency store guarantees: request fingerprints and scoped keys are unambiguous,
  the queue of completions agrees with the entries, pending and completed counters are exact and
  bounded, a key runs once at a time, and an answer is replayed as long as retention allows.
\<close>

section \<open>Requests and keys are told apart\<close>

lemma le64_inj: "le64 v = le64 w \<longleftrightarrow> v = w"
proof
  assume eq: "le64 v = le64 w"
  show "v = w"
  proof (rule bit_word_eqI)
    fix n
    assume "n < LENGTH(64)"
    then have n: "n div 8 < 8" "8 * (n div 8) + n mod 8 = n" by auto
    have byte: "bit (ucast (drop_bit (8 * i) x) :: u8) j = bit x (8 * i + j)" if "j < 8" for i j and x :: u64
      using that by (simp add: bit_ucast_iff bit_drop_bit_eq)
    have "(ucast (drop_bit (8 * (n div 8)) v) :: u8) = ucast (drop_bit (8 * (n div 8)) w)"
      using arg_cong [OF eq, of "\<lambda>bs. bs ! (n div 8)"] n(1) by (simp add: le64_def)
    then have "bit (ucast (drop_bit (8 * (n div 8)) v) :: u8) (n mod 8) = bit (ucast (drop_bit (8 * (n div 8)) w) :: u8) (n mod 8)"
      by (rule arg_cong)
    then show "bit v n = bit w n" by (simp add: byte n(2))
  qed
qed simp

lemma absorb_Some_inj:
  assumes eq: "absorb (Some p) @ x = absorb (Some q) @ y" and len: "length p < 2 ^ 64" "length q < 2 ^ 64"
  shows "p = q \<and> x = y"
proof -
  have "le64 (of_nat (length p)) @ p @ x = le64 (of_nat (length q)) @ q @ y"
    using eq len by (simp add: absorb_def)
  then have "le64 (of_nat (length p)) = le64 (of_nat (length q))" and rest: "p @ x = q @ y"
    by simp_all
  then have "unat (of_nat (length p) :: u64) = unat (of_nat (length q) :: u64)"
    by (simp add: le64_inj)
  then have "length p = length q"
    using len by (simp add: unat_of_nat)
  then show ?thesis using rest by simp
qed

lemma absorb_hd: "hd (absorb None @ x) = 0" "hd (absorb (Some p) @ x) = 1"
  by (simp_all add: absorb_def)

lemma absorb_lines_inj:
  assumes "concat (map (\<lambda>l. absorb (Some l)) ls) @ absorb None @ x = concat (map (\<lambda>l. absorb (Some l)) ms) @ absorb None @ y"
    and "list_all (\<lambda>l. length l < 2 ^ 64) ls" "list_all (\<lambda>l. length l < 2 ^ 64) ms"
  shows "ls = ms \<and> x = y"
  using assms
proof (induction ls arbitrary: ms)
  case Nil
  then show ?case by (cases ms) (simp_all add: absorb_def)
next
  case (Cons l ls)
  show ?case
  proof (cases ms)
    case Nil
    with Cons.prems(1) show ?thesis by (simp add: absorb_def)
  next
    case (Cons m ms')
    have "absorb (Some l) @ (concat (map (\<lambda>l. absorb (Some l)) ls) @ absorb None @ x)
        = absorb (Some m) @ (concat (map (\<lambda>l. absorb (Some l)) ms') @ absorb None @ y)"
      using Cons.prems(1) Cons by simp
    from absorb_Some_inj [OF this] Cons.prems(2,3) Cons Cons.IH [of ms'] show ?thesis by auto
  qed
qed

definition request_fits :: "keyed_request \<Rightarrow> bool" where
  "request_fits q \<longleftrightarrow>
     length (rq_method q) < 2 ^ 64 \<and> length (rq_target q) < 2 ^ 64
     \<and> list_all (\<lambda>l. length l < 2 ^ 64) (rq_if_match q)
     \<and> (case rq_content_type q of None \<Rightarrow> True | Some c \<Rightarrow> length c < 2 ^ 64) \<and> length (rq_body q) < 2 ^ 64"

lemma fingerprint_input_inj:
  assumes "fingerprint_input q = fingerprint_input q'" "request_fits q" "request_fits q'"
  shows "q = q'"
proof -
  note fits = assms(2,3) [unfolded request_fits_def]
  have 1: "rq_method q = rq_method q'" and e1: "absorb (Some (rq_target q))
      @ (concat (map (\<lambda>line. absorb (Some line)) (rq_if_match q)) @ absorb None
      @ (absorb (rq_content_type q) @ absorb (Some (rq_body q)))) = absorb (Some (rq_target q'))
      @ (concat (map (\<lambda>line. absorb (Some line)) (rq_if_match q')) @ absorb None
      @ (absorb (rq_content_type q') @ absorb (Some (rq_body q'))))"
    using absorb_Some_inj [OF assms(1) [unfolded fingerprint_input_def]] fits by simp_all
  have 2: "rq_target q = rq_target q'" and e2: "concat (map (\<lambda>line. absorb (Some line)) (rq_if_match q)) @ absorb None
      @ (absorb (rq_content_type q) @ absorb (Some (rq_body q))) =
      concat (map (\<lambda>line. absorb (Some line)) (rq_if_match q')) @ absorb None
      @ (absorb (rq_content_type q') @ absorb (Some (rq_body q')))"
    using absorb_Some_inj [OF e1] fits by simp_all
  have 3: "rq_if_match q = rq_if_match q'"
    and e3: "absorb (rq_content_type q) @ absorb (Some (rq_body q)) = absorb (rq_content_type q') @ absorb (Some (rq_body q'))"
    using absorb_lines_inj [OF e2] fits by simp_all
  have "rq_content_type q = rq_content_type q' \<and> absorb (Some (rq_body q)) @ [] = absorb (Some (rq_body q')) @ []"
  proof (cases "rq_content_type q")
    case None
    then show ?thesis using e3 by (cases "rq_content_type q'") (simp_all add: absorb_def)
  next
    case (Some c)
    then obtain c' where c': "rq_content_type q' = Some c'"
      using e3 by (cases "rq_content_type q'") (simp_all add: absorb_def)
    with Some show ?thesis using absorb_Some_inj [of c _ c'] e3 fits by simp
  qed
  then have 4: "rq_content_type q = rq_content_type q'" "rq_body q = rq_body q'"
    using absorb_Some_inj [of "rq_body q" "[]" "rq_body q'" "[]"] fits by simp_all
  from 1 2 3 4 show ?thesis by simp
qed

lemma scoped_key_inj:
  assumes "scoped_key s k = scoped_key s' k'"
  shows "(case s of None \<Rightarrow> [] | Some x \<Rightarrow> x) = (case s' of None \<Rightarrow> [] | Some x \<Rightarrow> x) \<and> k = k'"
proof -
  let ?a = "case s of None \<Rightarrow> [] | Some x \<Rightarrow> x" and ?b = "case s' of None \<Rightarrow> [] | Some x \<Rightarrow> x"
  have eq: "fmt_dec (length ?a) @ CHR '':'' # (?a @ CHR '':'' # k) = fmt_dec (length ?b) @ CHR '':'' # (?b @ CHR '':'' # k')"
    using assms by (simp add: scoped_key_def Let_def)
  have "Some (fmt_dec (length ?a), ?a @ CHR '':'' # k) = Some (fmt_dec (length ?b), ?b @ CHR '':'' # k')"
    using arg_cong [OF eq, of "split_once (CHR '':'')"] unfolding split_once_append [OF fmt_dec_no_colon] .
  then have "fmt_dec (length ?a) = fmt_dec (length ?b)" and rest: "?a @ CHR '':'' # k = ?b @ CHR '':'' # k'"
    by (simp_all only: option.inject prod.inject)
  then have "length ?a = length ?b" by (simp add: fmt_dec_inj)
  then show ?thesis using rest by simp
qed

text \<open>A request is keyed only on an operation that honors the header and with a key of at most 255 visible
  characters, and two keyed requests share a stored key only with the same scope and the same key.\<close>

lemma guard_key_keyed:
  assumes "guard_key routes method matched raw scope = Keyed k"
  obtains path s key where "matched = Some path" "honors routes method path" "raw = Some s" "parse_key s = Inr key"
    "k = scoped_key scope key" "key \<noteq> []" "length key \<le> 255" "list_all is_ascii_graphic key"
  using assms
  by (auto simp: guard_key_def parse_key_def Let_def IDEMPOTENCY_KEY_MAX_LEN_def list_all_iff
      split: option.splits if_splits sum.splits)

lemma guard_key_separates:
  assumes "guard_key routes method matched raw (Some scope) = Keyed k"
    and "guard_key routes' method' matched' raw' (Some scope') = Keyed k"
  shows "scope = scope' \<and> (\<exists>s s'. raw = Some s \<and> raw' = Some s' \<and> parse_key s = parse_key s')"
  using assms by (elim guard_key_keyed) (auto dest!: scoped_key_inj)


section \<open>Completed answers\<close>

text \<open>The queue of completions and the completed entries describe the same answers.\<close>

definition completed_entry :: "idem_store \<Rightarrow> completed_record \<Rightarrow> bool" where
  "completed_entry s r \<longleftrightarrow>
     (\<exists>fp out. fmlookup (is_entries s) (cr_key r) = Some (CompletedEntry fp out (cr_sequence r) (cr_completed_at r)))"

definition entry_weight :: "idem_store \<Rightarrow> string \<Rightarrow> nat" where
  "entry_weight s k =
     (case fmlookup (is_entries s) k of Some (CompletedEntry _ out _ _) \<Rightarrow> outcome_weight out | _ \<Rightarrow> 0)"

abbreviation record_weight :: "idem_store \<Rightarrow> completed_record \<Rightarrow> nat" where
  "record_weight s r \<equiv> entry_weight s (cr_key r)"

definition completed_ok :: "idem_store \<Rightarrow> bool" where
  "completed_ok s \<longleftrightarrow>
     distinct (map cr_key (is_completed s)) \<and> sorted (map cr_completed_at (is_completed s))
     \<and> (\<forall>r \<in> set (is_completed s). completed_entry s r)
     \<and> (\<forall>k fp out n t. fmlookup (is_entries s) k = Some (CompletedEntry fp out n t) \<longrightarrow> k \<in> cr_key ` set (is_completed s))
     \<and> is_completed_count s = length (is_completed s)
     \<and> is_stored_bytes s = sum_list (map (record_weight s) (is_completed s))"

lemma evict_front_ok:
  assumes ok: "completed_ok s" and C: "is_completed s = r # rs"
  shows "fst (evict_front s) = s\<lparr>is_entries := fmdrop (cr_key r) (is_entries s), is_completed := rs,
      is_completed_count := length rs, is_stored_bytes := sum_list (map (record_weight s) rs)\<rparr>"
proof -
  obtain fp out where e: "fmlookup (is_entries s) (cr_key r) = Some (CompletedEntry fp out (cr_sequence r) (cr_completed_at r))"
    using ok C by (auto simp: completed_ok_def completed_entry_def)
  then have "record_weight s r = outcome_weight out" by (simp add: entry_weight_def)
  then show ?thesis
    using ok C e by (simp add: evict_front_def forget_def completed_ok_def)
qed

lemma completed_ok_evict:
  assumes ok: "completed_ok s" and C: "is_completed s = r # rs"
  shows "completed_ok (fst (evict_front s))"
proof -
  let ?s = "fst (evict_front s)"
  have away: "cr_key x \<noteq> cr_key r" if "x \<in> set rs" for x
  proof -
    have "cr_key r \<notin> cr_key ` set rs" using ok C by (simp add: completed_ok_def)
    then show ?thesis using that by (metis imageI)
  qed
  then have look: "fmlookup (is_entries ?s) (cr_key x) = fmlookup (is_entries s) (cr_key x)" if "x \<in> set rs" for x
    using that by (simp add: evict_front_ok [OF ok C])
  have w: "map (record_weight ?s) rs = map (record_weight s) rs"
    using look by (simp add: entry_weight_def)
  have "\<forall>x \<in> set rs. completed_entry ?s x"
    using ok C look by (simp add: completed_ok_def completed_entry_def)
  moreover have "k \<in> cr_key ` set rs" if "fmlookup (is_entries ?s) k = Some (CompletedEntry fp out n t)" for k fp out n t
  proof -
    have "k \<noteq> cr_key r" "fmlookup (is_entries s) k = Some (CompletedEntry fp out n t)"
      using that by (auto simp: evict_front_ok [OF ok C] split: if_splits)
    moreover then have "k \<in> cr_key ` set (r # rs)" using ok C unfolding completed_ok_def by metis
    ultimately show ?thesis by auto
  qed
  moreover have "is_completed ?s = rs" "is_completed_count ?s = length rs"
    "is_stored_bytes ?s = sum_list (map (record_weight s) rs)"
    by (simp_all add: evict_front_ok [OF ok C])
  moreover have "distinct (map cr_key rs)" "sorted (map cr_completed_at rs)"
    using ok C by (simp_all add: completed_ok_def)
  ultimately show ?thesis
    unfolding completed_ok_def by (simp only: w) blast
qed

text \<open>Evicting the oldest \<open>n\<close> answers.\<close>

definition evict :: "nat \<Rightarrow> idem_store \<Rightarrow> idem_store" where
  "evict n = (fst \<circ> evict_front) ^^ n"

lemma evict_Suc: "evict (Suc n) s = evict n (fst (evict_front s))"
  by (simp add: evict_def funpow_swap1)

lemma evict_0 [simp]: "evict 0 s = s"
  by (simp add: evict_def)

lemma evict_ok:
  assumes "completed_ok s" "n \<le> length (is_completed s)"
  shows "completed_ok (evict n s) \<and> is_completed (evict n s) = drop n (is_completed s)
    \<and> (\<forall>k. fmlookup (is_entries (evict n s)) k =
          (if k \<in> cr_key ` set (take n (is_completed s)) then None else fmlookup (is_entries s) k))
    \<and> is_pending_count (evict n s) = is_pending_count s \<and> is_pending_bytes (evict n s) = is_pending_bytes s"
  using assms
proof (induction n arbitrary: s)
  case (Suc n)
  then obtain r rs where C: "is_completed s = r # rs" by (cases "is_completed s") auto
  let ?s = "fst (evict_front s)"
  have ok: "completed_ok ?s" by (rule completed_ok_evict [OF Suc.prems(1) C])
  have eq: "is_completed ?s = rs" "is_entries ?s = fmdrop (cr_key r) (is_entries s)"
    "is_pending_count ?s = is_pending_count s" "is_pending_bytes ?s = is_pending_bytes s"
    by (simp_all add: evict_front_ok [OF Suc.prems(1) C])
  have "n \<le> length (is_completed ?s)" using Suc.prems(2) C eq(1) by simp
  from Suc.IH [OF ok this] show ?case
    unfolding evict_Suc using C eq by auto
qed simp

definition expired_record :: "instant \<Rightarrow> duration \<Rightarrow> completed_record \<Rightarrow> bool" where
  "expired_record now age r \<longleftrightarrow> \<not> saturating_duration_since now (cr_completed_at r) < age"

lemma expire_evicts:
  assumes "completed_ok s"
  shows "expire now age s = evict (length (takeWhile (expired_record now age) (is_completed s))) s"
  using assms
proof (induction now age s rule: expire.induct)
  case (1 now age s)
  show ?case
  proof (cases "is_completed s")
    case (Cons r rs)
    show ?thesis
    proof (cases "expired_record now age r")
      case True
      then have "expire now age s = expire now age (fst (evict_front s))"
        using Cons by (subst expire.simps) (simp add: expired_record_def)
      also have "\<dots> = evict (length (takeWhile (expired_record now age) (is_completed (fst (evict_front s))))) (fst (evict_front s))"
        using True Cons completed_ok_evict [OF 1(2) Cons] by (intro 1(1)) (auto simp: expired_record_def)
      finally show ?thesis
        using True Cons by (simp add: length_evict_front evict_Suc)
    next
      case False
      then show ?thesis
        using Cons by (subst expire.simps) (simp add: expired_record_def)
    qed
  qed (subst expire.simps, simp)
qed

lemma shrink_evicts:
  assumes "completed_ok s"
  shows "\<exists>n. n \<le> length (is_completed s) \<and> shrink_to R s = evict n s \<and> \<not> over_limits R (evict n s)
    \<and> (\<forall>m < n. over_limits R (evict m s))"
  using assms
proof (induction R s rule: shrink_to.induct)
  case (1 R s)
  show ?case
  proof (cases "over_limits R s")
    case True
    then have "0 < is_completed_count s" by (auto simp: over_limits_def)
    then obtain r rs where C: "is_completed s = r # rs"
      using 1(2) by (cases "is_completed s") (auto simp: completed_ok_def)
    let ?s = "fst (evict_front s)"
    from 1(1) [OF True C completed_ok_evict [OF 1(2) C]]
    obtain n where n: "n \<le> length (is_completed ?s)" "shrink_to R ?s = evict n ?s"
      "\<not> over_limits R (evict n ?s)" "\<forall>m < n. over_limits R (evict m ?s)" by auto
    have "over_limits R (evict m s)" if "m < Suc n" for m
      using that True n(4) by (cases m) (auto simp: evict_Suc)
    moreover have "shrink_to R s = evict (Suc n) s"
      using True C n(2) by (subst shrink_to.simps) (simp add: evict_Suc)
    ultimately show ?thesis
      using n C evict_front_ok [OF 1(2) C] by (intro exI [of _ "Suc n"]) (simp add: evict_Suc)
  next
    case False
    then show ?thesis by (intro exI [of _ 0]) (simp add: shrink_to.simps [of R s])
  qed
qed

lemma evict_kept: 
  assumes "completed_ok s" "n \<le> length (is_completed s)"
  shows "\<not> over_limits R s \<Longrightarrow> \<not> over_limits R (evict n s)"
    and "entry_weight (evict n s) k \<le> entry_weight s k"
proof -
  note ok = evict_ok [OF assms]
  show w: "entry_weight (evict n s) k \<le> entry_weight s k" for k
    using ok by (simp add: entry_weight_def)
  have "is_stored_bytes (evict n s) = sum_list (map (record_weight (evict n s)) (drop n (is_completed s)))"
    using ok by (simp add: completed_ok_def)
  also have "\<dots> \<le> sum_list (map (record_weight s) (drop n (is_completed s)))"
    by (intro sum_list_mono w)
  also have "\<dots> \<le> sum_list (map (record_weight s) (take n (is_completed s) @ drop n (is_completed s)))"
    by (simp only: map_append sum_list_append le_add2)
  also have "\<dots> = is_stored_bytes s" using assms(1) by (simp add: completed_ok_def)
  finally have "is_stored_bytes (evict n s) \<le> is_stored_bytes s" .
  moreover have "is_completed_count (evict n s) \<le> is_completed_count s"
    using ok assms(1) by (simp add: completed_ok_def)
  ultimately show "\<not> over_limits R s \<Longrightarrow> \<not> over_limits R (evict n s)"
    by (auto simp: over_limits_def)
qed

lemma expire_n: "length (takeWhile (expired_record now age) (is_completed s)) \<le> length (is_completed s)"
  by (rule length_takeWhile_le)

lemma expire_fresh:
  assumes ok: "completed_ok s" and r: "r \<in> set (is_completed (expire now age s))"
  shows "\<not> expired_record now age r"
proof -
  let ?P = "expired_record now age"
  have eq: "is_completed (expire now age s) = dropWhile ?P (is_completed s)"
    using evict_ok [OF ok expire_n] by (simp add: expire_evicts [OF ok] dropWhile_eq_drop)
  have "completed_ok (expire now age s)"
    using evict_ok [OF ok expire_n] by (simp add: expire_evicts [OF ok])
  then have "sorted (map cr_completed_at (is_completed (expire now age s)))"
    unfolding completed_ok_def by blast
  then have "sorted (map cr_completed_at (dropWhile ?P (is_completed s)))"
    unfolding eq .
  moreover obtain h hs where h: "dropWhile ?P (is_completed s) = h # hs"
    using r eq by (cases "dropWhile ?P (is_completed s)") auto
  ultimately have "cr_completed_at h \<le> cr_completed_at r" using r eq by auto
  moreover have "\<not> ?P h" using hd_dropWhile [of ?P "is_completed s"] h by simp
  ultimately show ?thesis
    by (auto simp: expired_record_def saturating_duration_since_def)
qed

text \<open>With the queue in order, the expiry pass leaves no expired answer behind.\<close>

lemma claim_key_for_eq:
  assumes ok: "completed_ok s"
  shows "claim_key_for R s key fp n now ch =
    (let s' = expire now (ret_age R) s
     in case fmlookup (is_entries s') key of
          Some (InFlightEntry held d) \<Rightarrow> (s', if held = fp then Wait d else Mismatch)
        | Some (CompletedEntry held out _ _) \<Rightarrow> (s', if held = fp then Replay out else Mismatch)
        | None \<Rightarrow> admit R s' key fp n ch)"
proof (cases "fmlookup (is_entries (expire now (ret_age R) s)) key")
  case (Some e)
  show ?thesis
  proof (cases e)
    case (CompletedEntry held out m t)
    let ?s = "expire now (ret_age R) s"
    have ok': "completed_ok ?s" using evict_ok [OF ok expire_n] by (simp add: expire_evicts [OF ok])
    then have "key \<in> cr_key ` set (is_completed ?s)"
      using Some CompletedEntry unfolding completed_ok_def by metis
    then obtain r where r: "r \<in> set (is_completed ?s)" "key = cr_key r" by blast
    then have "completed_entry ?s r" using ok' by (simp add: completed_ok_def)
    then have "cr_completed_at r = t" using Some CompletedEntry r(2) by (auto simp: completed_entry_def)
    then have "saturating_duration_since now t < ret_age R"
      using expire_fresh [OF ok r(1)] by (simp add: expired_record_def)
    then show ?thesis using Some CompletedEntry by (simp add: claim_key_for_def Let_def)
  qed (use Some in \<open>simp add: claim_key_for_def Let_def\<close>)
qed (simp add: claim_key_for_def Let_def)

section \<open>Requests in flight\<close>

record idem_system =
  sys_store :: idem_store
  sys_running :: "in_flight_request list"
  sys_clock :: instant

datatype idem_event =
    Claimed string fingerprint nat channel key_claim instant
  | Settled in_flight_request outcome instant

definition idem_init :: idem_system where
  "idem_init = \<lparr>sys_store = idem_store_new, sys_running = [], sys_clock = 0\<rparr>"

definition started :: "key_claim \<Rightarrow> in_flight_request list" where
  "started c = (case c of Execute tok \<Rightarrow> [tok] | _ \<Rightarrow> [])"

definition answer_limit :: nat where
  "answer_limit = 2 ^ 62"

text \<open>
  One request claiming its key, or one running request settling, which a drop does with
  \<open>Abandoned\<close>. The clock never goes back and a channel is fresh; an answer is far below the
  address space.
\<close>

inductive idem_step :: "retention \<Rightarrow> idem_system \<Rightarrow> idem_event \<Rightarrow> idem_system \<Rightarrow> bool" for R where
  claim: "sys_clock s \<le> now \<Longrightarrow> ch \<notin> if_channel ` set (sys_running s) \<Longrightarrow>
    claim_key_for R (sys_store s) key fp n now ch = (store', c) \<Longrightarrow>
    idem_step R s (Claimed key fp n ch c now)
      (s\<lparr>sys_store := store', sys_running := sys_running s @ started c, sys_clock := now\<rparr>)"
| settle: "sys_clock s \<le> now \<Longrightarrow> tok \<in> set (sys_running s) \<Longrightarrow> outcome_weight out \<le> answer_limit \<Longrightarrow>
    in_flight_settle R (sys_store s) tok out now = (store', ch, sent) \<Longrightarrow>
    idem_step R s (Settled tok out now)
      (s\<lparr>sys_store := store', sys_running := removeAll tok (sys_running s), sys_clock := now\<rparr>)"

inductive_cases idem_claimE: "idem_step R s (Claimed key fp n ch c now) s'"
inductive_cases idem_settleE: "idem_step R s (Settled tok out now) s'"

inductive idem_run :: "retention \<Rightarrow> idem_system \<Rightarrow> idem_event list \<Rightarrow> idem_system \<Rightarrow> bool" for R where
  idem_run_Nil: "idem_run R s [] s"
| idem_run_Cons: "idem_step R s e s' \<Longrightarrow> idem_run R s' es s'' \<Longrightarrow> idem_run R s (e # es) s''"

definition retention_fits :: "retention \<Rightarrow> bool" where
  "retention_fits R \<longleftrightarrow> ret_pending_bytes R < 2 ^ 64 - 1 \<and> ret_bytes R \<le> answer_limit"

definition running_ok :: "idem_store \<Rightarrow> in_flight_request list \<Rightarrow> bool" where
  "running_ok s toks \<longleftrightarrow>
     distinct (map if_key toks)
     \<and> (\<forall>k fp ch. fmlookup (is_entries s) k = Some (InFlightEntry fp ch) \<longleftrightarrow>
          (\<exists>tok \<in> set toks. if_key tok = k \<and> if_fingerprint tok = fp \<and> if_channel tok = ch))
     \<and> is_pending_count s = length toks \<and> is_pending_bytes s = sum_list (map if_request_bytes toks)"

definition sys_core :: "retention \<Rightarrow> idem_system \<Rightarrow> bool" where
  "sys_core R s \<longleftrightarrow>
     completed_ok (sys_store s) \<and> running_ok (sys_store s) (sys_running s)
     \<and> is_pending_count (sys_store s) \<le> ret_pending_entries R
     \<and> is_pending_bytes (sys_store s) \<le> ret_pending_bytes R
     \<and> (\<forall>k. entry_weight (sys_store s) k \<le> answer_limit)
     \<and> (\<forall>r \<in> set (is_completed (sys_store s)). cr_completed_at r \<le> sys_clock s)"

definition sys_ok :: "retention \<Rightarrow> idem_system \<Rightarrow> bool" where
  "sys_ok R s \<longleftrightarrow> sys_core R s \<and> \<not> over_limits R (sys_store s)"

lemma running_ok_evict:
  assumes ok: "completed_ok s" and n: "n \<le> length (is_completed s)" and run: "running_ok s toks"
  shows "running_ok (evict n s) toks"
proof -
  have "fmlookup (is_entries (evict n s)) k = Some (InFlightEntry fp ch) \<longleftrightarrow>
      fmlookup (is_entries s) k = Some (InFlightEntry fp ch)" for k fp ch
  proof (cases "k \<in> cr_key ` set (take n (is_completed s))")
    case True
    then obtain r where "r \<in> set (is_completed s)" "k = cr_key r" by (auto dest: in_set_takeD)
    then have "completed_entry s r" using ok by (simp add: completed_ok_def)
    then show ?thesis using True \<open>k = cr_key r\<close> evict_ok [OF ok n] by (auto simp: completed_entry_def)
  next
    case False
    then show ?thesis using evict_ok [OF ok n] by simp
  qed
  then show ?thesis
    using run evict_ok [OF ok n] by (simp add: running_ok_def)
qed

lemma sys_core_evict:
  assumes ok: "sys_core R s" and n: "n \<le> length (is_completed (sys_store s))" and now: "sys_clock s \<le> now"
  shows "sys_core R (s\<lparr>sys_store := evict n (sys_store s), sys_clock := now\<rparr>)"
proof -
  have c: "completed_ok (sys_store s)" using ok by (simp add: sys_core_def)
  note e = evict_ok [OF c n]
  have "cr_completed_at r \<le> now" if "r \<in> set (drop n (is_completed (sys_store s)))" for r
    using ok now in_set_dropD [OF that] by (force simp: sys_core_def)
  moreover have "entry_weight (evict n (sys_store s)) k \<le> answer_limit" for k
    using ok order_trans [OF evict_kept(2) [OF c n]] unfolding sys_core_def by blast
  ultimately show ?thesis
    using ok e running_ok_evict [OF c n] by (simp add: sys_core_def)
qed

lemma sys_core_completed: "sys_core R s \<Longrightarrow> completed_ok (sys_store s)"
  by (simp add: sys_core_def)

lemma expire_core:
  assumes "sys_core R s" "sys_clock s \<le> now"
  shows "sys_core R (s\<lparr>sys_store := expire now age (sys_store s), sys_clock := now\<rparr>)"
  using sys_core_evict [OF assms(1) expire_n assms(2)] by (simp add: expire_evicts sys_core_completed [OF assms(1)])

lemma completed_ok_in_flight:
  assumes ok: "completed_ok s" and none: "fmlookup (is_entries s) key = None"
  shows "completed_ok (s\<lparr>is_pending_count := pc, is_pending_bytes := pb,
      is_entries := fmupd key (InFlightEntry fp ch) (is_entries s)\<rparr>)"
    (is "completed_ok ?s")
proof -
  have away: "key \<noteq> cr_key r" if "r \<in> set (is_completed s)" for r
    using ok none that by (auto simp: completed_ok_def completed_entry_def)
  have "record_weight ?s r = record_weight s r" if "r \<in> set (is_completed s)" for r
    using away [OF that] by (simp add: entry_weight_def)
  then have w: "sum_list (map (record_weight ?s) (is_completed s)) = sum_list (map (record_weight s) (is_completed s))"
    by (intro arg_cong [where f = sum_list] map_cong refl)
  have "\<forall>r \<in> set (is_completed s). completed_entry ?s r"
    using ok away by (simp add: completed_ok_def completed_entry_def)
  moreover have "k \<in> cr_key ` set (is_completed s)" if "fmlookup (is_entries ?s) k = Some (CompletedEntry fp' out n t)" for k fp' out n t
  proof -
    have "fmlookup (is_entries s) k = Some (CompletedEntry fp' out n t)" using that by (simp split: if_splits)
    then show ?thesis using ok unfolding completed_ok_def by blast
  qed
  ultimately show ?thesis
    using ok w unfolding completed_ok_def by simp
qed

lemma admit_core:
  assumes ok: "sys_ok R s" and fits: "retention_fits R" and none: "fmlookup (is_entries (sys_store s)) key = None"
    and adm: "admit R (sys_store s) key fp n ch = (st, c)"
  shows "sys_ok R (s\<lparr>sys_store := st, sys_running := sys_running s @ started c\<rparr>)"
proof (cases "c = Busy")
  case True
  then show ?thesis using adm ok by (auto simp: admit_def started_def split: if_splits)
next
  case False
  let ?st = "sys_store s"
  have room: "is_pending_count ?st < ret_pending_entries R"
    "usize_saturating_add (is_pending_bytes ?st) n \<le> ret_pending_bytes R"
    and st: "st = ?st\<lparr>is_pending_count := is_pending_count ?st + 1,
        is_pending_bytes := usize_saturating_add (is_pending_bytes ?st) n,
        is_entries := fmupd key (InFlightEntry fp ch) (is_entries ?st)\<rparr>"
    and c: "c = Execute \<lparr>if_key = key, if_fingerprint = fp, if_request_bytes = n, if_channel = ch\<rparr>"
    using adm False by (auto simp: admit_def split: if_splits)
  have pb: "usize_saturating_add (is_pending_bytes ?st) n = is_pending_bytes ?st + n"
    using room(2) fits by (simp add: usize_saturating_add_def retention_fits_def min_def split: if_splits)
  note st = st [unfolded pb]
  have run: "running_ok ?st (sys_running s)" using ok by (simp add: sys_ok_def sys_core_def)
  have absent: "if_key tok \<noteq> key" if "tok \<in> set (sys_running s)" for tok
    using run none that by (force simp: running_ok_def)
  have "running_ok st (sys_running s @ started c)"
    using run absent by (auto simp: running_ok_def st c started_def split: if_splits)
  moreover have "completed_ok st"
    unfolding st using ok none by (intro completed_ok_in_flight) (simp_all add: sys_ok_def sys_core_def)
  moreover have "entry_weight st k \<le> answer_limit" for k
    using ok by (auto simp: sys_ok_def sys_core_def st entry_weight_def)
  ultimately show ?thesis
    using ok room [unfolded pb] by (simp add: sys_ok_def sys_core_def over_limits_def st)
qed

lemma claim_step_ok:
  assumes step: "idem_step R s (Claimed key fp n ch c now) s'" and ok: "sys_ok R s" and fits: "retention_fits R"
  shows "sys_ok R s'"
  using step
proof (rule idem_claimE)
  fix store'
  assume s': "s' = s\<lparr>sys_store := store', sys_running := sys_running s @ started c, sys_clock := now\<rparr>"
    and now: "sys_clock s \<le> now" and cl: "claim_key_for R (sys_store s) key fp n now ch = (store', c)"
  let ?st = "expire now (ret_age R) (sys_store s)" and ?s = "s\<lparr>sys_store := expire now (ret_age R) (sys_store s), sys_clock := now\<rparr>"
  have core: "sys_core R s" using ok by (simp add: sys_ok_def)
  have ok': "sys_ok R ?s"
    using expire_core [OF core now] evict_kept(1) [OF sys_core_completed [OF core] expire_n] ok
    by (simp add: sys_ok_def expire_evicts [OF sys_core_completed [OF core]])
  note cl' = cl [unfolded claim_key_for_eq [OF sys_core_completed [OF core]] Let_def]
  show ?thesis
  proof (cases "fmlookup (is_entries ?st) key")
    case None
    then have "admit R (sys_store ?s) key fp n ch = (store', c)" using cl' by simp
    from admit_core [OF ok' fits _ this] None show ?thesis by (simp add: s' sys_ok_def sys_core_def)
  next
    case (Some e)
    then have "store' = ?st" "started c = []"
      using cl' by (auto simp: started_def split: idem_entry.splits if_splits)
    then show ?thesis using ok' by (simp add: s')
  qed
qed

lemma stored_bytes_bound:
  assumes "sys_ok R s" "retention_fits R"
  shows "is_stored_bytes (sys_store s) \<le> answer_limit"
proof (cases "is_completed_count (sys_store s) \<le> 1")
  case True
  have ok: "completed_ok (sys_store s)" and w: "\<And>k. entry_weight (sys_store s) k \<le> answer_limit"
    using assms(1) by (simp_all add: sys_ok_def sys_core_def)
  show ?thesis
    using ok True w by (cases "is_completed (sys_store s)") (auto simp: completed_ok_def)
next
  case False
  then show ?thesis using assms by (auto simp: sys_ok_def over_limits_def retention_fits_def)
qed

lemma record_outcome_core:
  assumes ok: "sys_ok R s" and fits: "retention_fits R" and tok: "tok \<in> set (sys_running s)"
    and now: "sys_clock s \<le> now" and small: "outcome_weight out \<le> answer_limit"
  defines "st \<equiv> record_outcome (sys_store s) (if_key tok) (if_fingerprint tok) (if_request_bytes tok) out now"
  shows "sys_core R (s\<lparr>sys_store := st, sys_running := removeAll tok (sys_running s), sys_clock := now\<rparr>)"
proof -
  let ?old = "sys_store s" and ?key = "if_key tok"
  have core: "completed_ok ?old" "running_ok ?old (sys_running s)"
    and w: "\<And>k. entry_weight ?old k \<le> answer_limit" and t: "\<forall>r \<in> set (is_completed ?old). cr_completed_at r \<le> sys_clock s"
    and lim: "is_pending_count ?old \<le> ret_pending_entries R" "is_pending_bytes ?old \<le> ret_pending_bytes R"
    using ok by (simp_all add: sys_ok_def sys_core_def)
  have held: "fmlookup (is_entries ?old) ?key = Some (InFlightEntry (if_fingerprint tok) (if_channel tok))"
    using core(2) tok by (auto simp: running_ok_def)
  have bytes: "usize_saturating_add (is_stored_bytes ?old) (outcome_weight out) = is_stored_bytes ?old + outcome_weight out"
    using stored_bytes_bound [OF ok fits] small by (simp add: usize_saturating_add_def answer_limit_def)
  let ?r = "\<lparr>cr_key = ?key, cr_sequence = is_next_sequence ?old, cr_completed_at = now\<rparr>"
  have st: "is_completed st = is_completed ?old @ [?r]" "is_completed_count st = is_completed_count ?old + 1"
    "is_stored_bytes st = is_stored_bytes ?old + outcome_weight out"
    "is_entries st = fmupd ?key (CompletedEntry (if_fingerprint tok) out (is_next_sequence ?old) now) (is_entries ?old)"
    "is_pending_count st = is_pending_count ?old - 1" "is_pending_bytes st = is_pending_bytes ?old - if_request_bytes tok"
    by (simp_all add: st_def record_outcome_def Let_def bytes)
  have away: "?key \<noteq> cr_key r" if "r \<in> set (is_completed ?old)" for r
    using core(1) held that by (auto simp: completed_ok_def completed_entry_def)
  have w_old: "record_weight st r = record_weight ?old r" if "r \<in> set (is_completed ?old)" for r
    using away [OF that] by (simp add: entry_weight_def st)
  have stored: "is_stored_bytes st = sum_list (map (record_weight st) (is_completed st))"
  proof -
    have "sum_list (map (record_weight st) (is_completed ?old)) = sum_list (map (record_weight ?old) (is_completed ?old))"
      using w_old by (intro arg_cong [where f = sum_list] map_cong refl)
    moreover have "record_weight st ?r = outcome_weight out" by (simp add: entry_weight_def st)
    ultimately show ?thesis using core(1) unfolding completed_ok_def st by simp
  qed
  have "completed_ok st"
    unfolding completed_ok_def
  proof (intro conjI ballI allI impI)
    show "distinct (map cr_key (is_completed st))"
      using core(1) away by (auto simp: completed_ok_def st)
    show "sorted (map cr_completed_at (is_completed st))"
      using core(1) t now by (force simp: completed_ok_def st sorted_append)
    show "completed_entry st r" if "r \<in> set (is_completed st)" for r
      using core(1) away that by (auto simp: completed_ok_def completed_entry_def st)
    show "k \<in> cr_key ` set (is_completed st)" if "fmlookup (is_entries st) k = Some (CompletedEntry fp o' n u)" for k fp o' n u
    proof (cases "k = ?key")
      case False
      then have "fmlookup (is_entries ?old) k = Some (CompletedEntry fp o' n u)" using that by (simp add: st)
      then have "k \<in> cr_key ` set (is_completed ?old)" using core(1) unfolding completed_ok_def by blast
      then show ?thesis by (auto simp: st)
    qed (simp add: st)
  qed (use core(1) stored in \<open>simp_all add: completed_ok_def st(1,2)\<close>)
  moreover have "running_ok st (removeAll tok (sys_running s))"
  proof -
    have d: "distinct (map if_key (sys_running s))" using core(2) by (simp add: running_ok_def)
    then have uniq: "tok' = tok" if "tok' \<in> set (sys_running s)" "if_key tok' = ?key" for tok'
      using that tok by (metis distinct_map inj_onD)
    have rem: "removeAll tok (sys_running s) = remove1 tok (sys_running s)"
      using d by (simp add: distinct_map distinct_remove1_removeAll)
    have sums: "length (remove1 tok (sys_running s)) = length (sys_running s) - 1"
      "sum_list (map if_request_bytes (remove1 tok (sys_running s))) = sum_list (map if_request_bytes (sys_running s)) - if_request_bytes tok"
      using tok by (simp_all add: length_remove1 sum_list_map_remove1 [of tok "sys_running s"])
    have "distinct (map if_key (removeAll tok (sys_running s)))"
      using d by (simp add: distinct_map inj_on_def distinct_removeAll)
    moreover have "fmlookup (is_entries st) k = Some (InFlightEntry fp ch) \<longleftrightarrow>
        (\<exists>tok' \<in> set (removeAll tok (sys_running s)). if_key tok' = k \<and> if_fingerprint tok' = fp \<and> if_channel tok' = ch)" for k fp ch
    proof (cases "k = ?key")
      case True
      then show ?thesis using uniq by (auto simp: st)
    next
      case False
      then have "fmlookup (is_entries st) k = fmlookup (is_entries ?old) k" by (simp add: st)
      then show ?thesis using core(2) False by (auto simp: running_ok_def)
    qed
    ultimately show ?thesis
      using core(2) sums unfolding running_ok_def by (simp add: rem st)
  qed
  moreover have "entry_weight st k \<le> answer_limit" for k
    using w [of k] small by (simp add: entry_weight_def st)
  moreover have "cr_completed_at r \<le> now" if "r \<in> set (is_completed st)" for r
    using that t now by (force simp: st)
  ultimately show ?thesis
    using lim diff_le_self [THEN order_trans] by (simp add: sys_core_def st(5,6))
qed

lemma settle_step_ok:
  assumes step: "idem_step R s (Settled tok out now) s'" and ok: "sys_ok R s" and fits: "retention_fits R"
  shows "sys_ok R s'"
  using step
proof (rule idem_settleE)
  fix store' ch sent
  assume s': "s' = s\<lparr>sys_store := store', sys_running := removeAll tok (sys_running s), sys_clock := now\<rparr>"
    and now: "sys_clock s \<le> now" and tok: "tok \<in> set (sys_running s)" and small: "outcome_weight out \<le> answer_limit"
    and se: "in_flight_settle R (sys_store s) tok out now = (store', ch, sent)"
  let ?st = "record_outcome (sys_store s) (if_key tok) (if_fingerprint tok) (if_request_bytes tok) out now"
  let ?s = "s\<lparr>sys_store := expire now (ret_age R) ?st, sys_running := removeAll tok (sys_running s), sys_clock := now\<rparr>"
  have core: "sys_core R ?s"
    using expire_core [OF record_outcome_core [OF ok fits tok now small], of now "ret_age R"] by (simp add: sys_core_def)
  then obtain n where n: "n \<le> length (is_completed (sys_store ?s))"
    "shrink_to R (sys_store ?s) = evict n (sys_store ?s)" "\<not> over_limits R (evict n (sys_store ?s))"
    using shrink_evicts [OF sys_core_completed] by blast
  have "store' = evict n (sys_store ?s)"
    using se n(2) by (auto simp: in_flight_settle_def store_settle_def)
  then show ?thesis
    using sys_core_evict [OF core n(1), of now] n(3) by (simp add: s' sys_ok_def sys_core_def)
qed

lemma idem_step_ok: "idem_step R s e s' \<Longrightarrow> sys_ok R s \<Longrightarrow> retention_fits R \<Longrightarrow> sys_ok R s'"
  by (cases e) (auto intro: claim_step_ok settle_step_ok)

lemma idem_run_ok: "idem_run R s es s' \<Longrightarrow> sys_ok R s \<Longrightarrow> retention_fits R \<Longrightarrow> sys_ok R s'"
  by (induction rule: idem_run.induct) (auto intro: idem_step_ok)

lemma sys_ok_init: "sys_ok R idem_init"
  by (simp add: sys_ok_def sys_core_def idem_init_def idem_store_new_def completed_ok_def running_ok_def over_limits_def
      entry_weight_def)

section \<open>How long an answer is kept\<close>

text \<open>The answer to a key, with at most \<open>N\<close> younger ones weighing at most \<open>W\<close> together.\<close>

definition keeps_answer ::
    "idem_store \<Rightarrow> string \<Rightarrow> fingerprint \<Rightarrow> outcome \<Rightarrow> instant \<Rightarrow> nat \<Rightarrow> nat \<Rightarrow> bool" where
  "keeps_answer s key fp out t N W \<longleftrightarrow>
     (\<exists>pre r suf. is_completed s = pre @ r # suf \<and> cr_key r = key
        \<and> fmlookup (is_entries s) key = Some (CompletedEntry fp out (cr_sequence r) t)
        \<and> length suf \<le> N \<and> sum_list (map (record_weight s) suf) \<le> W)"

lemma keeps_answer_evict:
  assumes ok: "completed_ok s" and C: "is_completed s = pre @ r # suf" "cr_key r = key"
    and e: "fmlookup (is_entries s) key = Some (CompletedEntry fp out (cr_sequence r) t)"
    and lim: "length suf \<le> N" "sum_list (map (record_weight s) suf) \<le> W" and n: "n \<le> length pre"
  shows "keeps_answer (evict n s) key fp out t N W"
proof -
  have n': "n \<le> length (is_completed s)" using n C(1) by simp
  note ev = evict_ok [OF ok n']
  have "key \<notin> cr_key ` set (take n (is_completed s))"
    using ok n C by (auto simp: completed_ok_def dest: in_set_takeD)
  then have "fmlookup (is_entries (evict n s)) key = Some (CompletedEntry fp out (cr_sequence r) t)"
    using ev e by simp
  moreover have "is_completed (evict n s) = drop n pre @ r # suf" using ev n C(1) by simp
  moreover have "sum_list (map (record_weight (evict n s)) suf) \<le> sum_list (map (record_weight s) suf)"
    by (intro sum_list_mono evict_kept(2) [OF ok n'])
  ultimately show ?thesis
    using C(2) lim unfolding keeps_answer_def by fastforce
qed

lemma keeps_answer_expire:
  assumes ok: "completed_ok s" and kept: "keeps_answer s key fp out t N W"
    and young: "saturating_duration_since now t < age"
  shows "keeps_answer (expire now age s) key fp out t N W"
proof -
  obtain pre r suf where C: "is_completed s = pre @ r # suf" "cr_key r = key"
    and e: "fmlookup (is_entries s) key = Some (CompletedEntry fp out (cr_sequence r) t)"
    and lim: "length suf \<le> N" "sum_list (map (record_weight s) suf) \<le> W"
    using kept unfolding keeps_answer_def by blast
  have "completed_entry s r" using ok C(1) by (simp add: completed_ok_def)
  then have "cr_completed_at r = t" using e C(2) by (auto simp: completed_entry_def)
  then have fresh: "\<not> expired_record now age r" using young by (simp add: expired_record_def)
  have "length (takeWhile (expired_record now age) (pre @ r # suf)) \<le> length pre"
    using fresh length_takeWhile_le [of "expired_record now age" pre]
    by (cases "\<forall>x \<in> set pre. expired_record now age x") (auto simp: takeWhile_append)
  then show ?thesis
    unfolding expire_evicts [OF ok] C(1) by (intro keeps_answer_evict [OF ok C e lim])
qed

lemma keeps_answer_shrink:
  assumes ok: "completed_ok s" and kept: "keeps_answer s key fp out t N W"
    and room: "N < max (ret_entries R) 1" "outcome_weight out + W \<le> ret_bytes R"
  shows "keeps_answer (shrink_to R s) key fp out t N W"
proof -
  obtain pre r suf where C: "is_completed s = pre @ r # suf" "cr_key r = key"
    and e: "fmlookup (is_entries s) key = Some (CompletedEntry fp out (cr_sequence r) t)"
    and lim: "length suf \<le> N" "sum_list (map (record_weight s) suf) \<le> W"
    using kept unfolding keeps_answer_def by blast
  obtain n where n: "n \<le> length (is_completed s)" "shrink_to R s = evict n s" "\<forall>m < n. over_limits R (evict m s)"
    using shrink_evicts [OF ok] by blast
  have pre: "length pre \<le> length (is_completed s)" using C(1) by simp
  have "\<not> over_limits R (evict (length pre) s)"
  proof -
    note ev = evict_ok [OF ok pre]
    have comp: "is_completed (evict (length pre) s) = r # suf" using ev C(1) by simp
    have "is_completed_count (evict (length pre) s) = Suc (length suf)"
      "is_stored_bytes (evict (length pre) s) = sum_list (map (record_weight (evict (length pre) s)) (r # suf))"
      using conjunct1 [OF ev] unfolding completed_ok_def comp by simp_all
    moreover have "sum_list (map (record_weight (evict (length pre) s)) (r # suf)) \<le> sum_list (map (record_weight s) (r # suf))"
      by (intro sum_list_mono evict_kept(2) [OF ok pre])
    moreover have "record_weight s r = outcome_weight out" using e C(2) by (simp add: entry_weight_def)
    ultimately show ?thesis using lim room by (auto simp: over_limits_def max_def split: if_splits)
  qed
  then have "n \<le> length pre" using n(3) by (meson not_le)
  then show ?thesis unfolding n(2) by (rule keeps_answer_evict [OF ok C e lim])
qed

lemma keeps_answer_record:
  assumes kept: "keeps_answer s key fp out t N W" and other: "k' \<noteq> key" and fresh: "k' \<notin> cr_key ` set (is_completed s)"
  shows "keeps_answer (record_outcome s k' fp' n' out' now) key fp out t (Suc N) (W + outcome_weight out')"
proof -
  obtain pre r suf where C: "is_completed s = pre @ r # suf" "cr_key r = key"
    and e: "fmlookup (is_entries s) key = Some (CompletedEntry fp out (cr_sequence r) t)"
    and lim: "length suf \<le> N" "sum_list (map (record_weight s) suf) \<le> W"
    using kept unfolding keeps_answer_def by blast
  let ?s = "record_outcome s k' fp' n' out' now" and ?new = "\<lparr>cr_key = k', cr_sequence = is_next_sequence s, cr_completed_at = now\<rparr>"
  have entries: "is_entries ?s = fmupd k' (CompletedEntry fp' out' (is_next_sequence s) now) (is_entries s)"
    "is_completed ?s = pre @ r # (suf @ [?new])"
    using C(1) by (simp_all add: record_outcome_def Let_def)
  have "record_weight ?s x = record_weight s x" if "x \<in> set suf" for x
    using that fresh C(1) by (auto simp: entry_weight_def entries)
  then have "sum_list (map (record_weight ?s) suf) = sum_list (map (record_weight s) suf)"
    by (intro arg_cong [where f = sum_list] map_cong refl)
  then have "sum_list (map (record_weight ?s) (suf @ [?new])) \<le> W + outcome_weight out'"
    using lim by (simp add: entry_weight_def entries)
  moreover have "fmlookup (is_entries ?s) key = Some (CompletedEntry fp out (cr_sequence r) t)"
    using e other by (simp add: entries)
  moreover have "length (suf @ [?new]) \<le> Suc N" using lim by simp
  ultimately show ?thesis
    unfolding keeps_answer_def using entries(2) C(2) by blast
qed

fun settled_weights :: "idem_event list \<Rightarrow> nat list" where
  "settled_weights [] = []"
| "settled_weights (Claimed _ _ _ _ _ _ # es) = settled_weights es"
| "settled_weights (Settled _ out _ # es) = outcome_weight out # settled_weights es"

lemma idem_run_clock: "idem_run R s es s' \<Longrightarrow> sys_clock s \<le> sys_clock s'"
  by (induction rule: idem_run.induct) (auto elim!: idem_step.cases)

lemma keeps_answer_age:
  assumes "sys_core R s" "keeps_answer (sys_store s) key fp out t N W" "sys_clock s \<le> now" "now < t + age"
  shows "saturating_duration_since now t < age"
proof -
  obtain pre r suf where C: "is_completed (sys_store s) = pre @ r # suf" "cr_key r = key"
    and e: "fmlookup (is_entries (sys_store s)) key = Some (CompletedEntry fp out (cr_sequence r) t)"
    using assms(2) unfolding keeps_answer_def by blast
  have "completed_entry (sys_store s) r" "cr_completed_at r \<le> sys_clock s"
    using assms(1) C(1) by (simp_all add: sys_core_def completed_ok_def)
  then have "t \<le> sys_clock s" using e C(2) by (auto simp: completed_entry_def)
  then show ?thesis using assms(3,4) by (simp add: saturating_duration_since_def)
qed

lemma keeps_answer_claim:
  assumes step: "idem_step R s (Claimed key' fp' n ch c now) s'" and ok: "sys_ok R s"
    and kept: "keeps_answer (sys_store s) key fp out t N W" and young: "now < t + ret_age R"
  shows "keeps_answer (sys_store s') key fp out t N W"
  using step
proof (rule idem_claimE)
  fix store'
  assume s': "s' = s\<lparr>sys_store := store', sys_running := sys_running s @ started c, sys_clock := now\<rparr>"
    and now: "sys_clock s \<le> now" and cl: "claim_key_for R (sys_store s) key' fp' n now ch = (store', c)"
  have core: "sys_core R s" and c: "completed_ok (sys_store s)" using ok by (simp_all add: sys_ok_def sys_core_def)
  let ?st = "expire now (ret_age R) (sys_store s)"
  have k: "keeps_answer ?st key fp out t N W"
    using keeps_answer_age [OF core kept now young] by (rule keeps_answer_expire [OF c kept])
  have "store' = ?st \<or> fmlookup (is_entries ?st) key' = None \<and> is_completed store' = is_completed ?st
      \<and> is_entries store' = fmupd key' (InFlightEntry fp' ch) (is_entries ?st)"
    using cl unfolding claim_key_for_eq [OF c] Let_def
    by (auto simp: admit_def split: option.splits idem_entry.splits if_splits)
  then show ?thesis
  proof
    assume "store' = ?st"
    then show ?thesis using k by (simp add: s')
  next
    assume st: "fmlookup (is_entries ?st) key' = None \<and> is_completed store' = is_completed ?st
      \<and> is_entries store' = fmupd key' (InFlightEntry fp' ch) (is_entries ?st)"
    have "entry_weight store' x = entry_weight ?st x" for x
      using st by (auto simp: entry_weight_def)
    moreover have "key' \<noteq> key" using k st by (auto simp: keeps_answer_def)
    ultimately show ?thesis using k st by (simp add: s' keeps_answer_def)
  qed
qed

lemma keeps_answer_settle:
  assumes step: "idem_step R s (Settled tok out' now) s'" and ok: "sys_ok R s" and fits: "retention_fits R"
    and kept: "keeps_answer (sys_store s) key fp out t N W" and young: "now < t + ret_age R"
    and room: "Suc N < max (ret_entries R) 1" "outcome_weight out + (W + outcome_weight out') \<le> ret_bytes R"
  shows "keeps_answer (sys_store s') key fp out t (Suc N) (W + outcome_weight out')"
  using step
proof (rule idem_settleE)
  fix store' ch sent
  assume s': "s' = s\<lparr>sys_store := store', sys_running := removeAll tok (sys_running s), sys_clock := now\<rparr>"
    and now: "sys_clock s \<le> now" and tok: "tok \<in> set (sys_running s)" and small: "outcome_weight out' \<le> answer_limit"
    and se: "in_flight_settle R (sys_store s) tok out' now = (store', ch, sent)"
  let ?st = "record_outcome (sys_store s) (if_key tok) (if_fingerprint tok) (if_request_bytes tok) out' now"
  have held: "fmlookup (is_entries (sys_store s)) (if_key tok) = Some (InFlightEntry (if_fingerprint tok) (if_channel tok))"
    using ok tok by (auto simp: sys_ok_def sys_core_def running_ok_def)
  have core: "sys_core R s" and c: "completed_ok (sys_store s)" using ok by (simp_all add: sys_ok_def sys_core_def)
  have "if_key tok \<noteq> key" using kept held by (auto simp: keeps_answer_def)
  moreover have "if_key tok \<notin> cr_key ` set (is_completed (sys_store s))"
    using c held by (auto simp: completed_ok_def completed_entry_def)
  ultimately have 1: "keeps_answer ?st key fp out t (Suc N) (W + outcome_weight out')"
    by (intro keeps_answer_record kept)
  have ok1: "completed_ok ?st"
    using record_outcome_core [OF ok fits tok now small] by (simp add: sys_core_def)
  have 2: "keeps_answer (expire now (ret_age R) ?st) key fp out t (Suc N) (W + outcome_weight out')"
    using keeps_answer_age [OF core kept now young] by (rule keeps_answer_expire [OF ok1 1])
  have ok2: "completed_ok (expire now (ret_age R) ?st)"
    using evict_ok [OF ok1 expire_n] by (simp add: expire_evicts [OF ok1])
  have "store' = shrink_to R (expire now (ret_age R) ?st)"
    using se by (auto simp: in_flight_settle_def store_settle_def)
  then show ?thesis using keeps_answer_shrink [OF ok2 2 room] by (simp add: s')
qed

lemma keeps_answer_run:
  assumes "idem_run R s es s'" "sys_ok R s" "retention_fits R" "keeps_answer (sys_store s) key fp out t N W"
    "sys_clock s' < t + ret_age R" "N + length (settled_weights es) < max (ret_entries R) 1"
    "outcome_weight out + W + sum_list (settled_weights es) \<le> ret_bytes R"
  shows "\<exists>N' W'. keeps_answer (sys_store s') key fp out t N' W'"
  using assms
proof (induction arbitrary: N W rule: idem_run.induct)
  case (idem_run_Cons s e s' es s'')
  have young: "sys_clock s' < t + ret_age R"
    using idem_run_clock [OF idem_run_Cons.hyps(2)] idem_run_Cons.prems(4) by simp
  have ok': "sys_ok R s'" by (rule idem_step_ok) fact+
  show ?case
  proof (cases e)
    case (Claimed k' fp' n ch c now)
    have "now < t + ret_age R" using young idem_run_Cons.hyps(1) Claimed by (auto elim: idem_claimE)
    then have "keeps_answer (sys_store s') key fp out t N W"
      by (rule keeps_answer_claim [OF idem_run_Cons.hyps(1) [unfolded Claimed] idem_run_Cons.prems(1,3)])
    then show ?thesis
      by (rule idem_run_Cons.IH [OF ok' idem_run_Cons.prems(2)]) (use idem_run_Cons.prems Claimed in auto)
  next
    case (Settled tok out' now)
    have "now < t + ret_age R" using young idem_run_Cons.hyps(1) Settled by (auto elim: idem_settleE)
    then have "keeps_answer (sys_store s') key fp out t (Suc N) (W + outcome_weight out')"
      by (rule keeps_answer_settle [OF idem_run_Cons.hyps(1) [unfolded Settled] idem_run_Cons.prems(1,2,3)])
        (use idem_run_Cons.prems(5,6) Settled in auto)
    then show ?thesis
      by (rule idem_run_Cons.IH [OF ok' idem_run_Cons.prems(2)]) (use idem_run_Cons.prems Settled in auto)
  qed
qed blast

section \<open>Properties\<close>

lemma settle_keeps_answer:
  assumes step: "idem_step R s (Settled tok out t) s'" and ok: "sys_ok R s" and fits: "retention_fits R"
    and room: "outcome_weight out \<le> ret_bytes R" and age: "0 < ret_age R"
  shows "keeps_answer (sys_store s') (if_key tok) (if_fingerprint tok) out t 0 0"
  using step
proof (rule idem_settleE)
  fix store' ch sent
  assume s': "s' = s\<lparr>sys_store := store', sys_running := removeAll tok (sys_running s), sys_clock := t\<rparr>"
    and now: "sys_clock s \<le> t" and tok: "tok \<in> set (sys_running s)" and small: "outcome_weight out \<le> answer_limit"
    and se: "in_flight_settle R (sys_store s) tok out t = (store', ch, sent)"
  let ?st = "record_outcome (sys_store s) (if_key tok) (if_fingerprint tok) (if_request_bytes tok) out t"
  have 1: "keeps_answer ?st (if_key tok) (if_fingerprint tok) out t 0 0"
    unfolding keeps_answer_def
    by (intro exI [of _ "is_completed (sys_store s)"]
        exI [of _ "\<lparr>cr_key = if_key tok, cr_sequence = is_next_sequence (sys_store s), cr_completed_at = t\<rparr>"]
        exI [of _ "[]"]) (simp add: record_outcome_def Let_def)
  have ok1: "completed_ok ?st"
    using record_outcome_core [OF ok fits tok now small] by (simp add: sys_core_def)
  have ok2: "completed_ok (expire t (ret_age R) ?st)"
    using evict_ok [OF ok1 expire_n] by (simp add: expire_evicts [OF ok1])
  have 2: "keeps_answer (expire t (ret_age R) ?st) (if_key tok) (if_fingerprint tok) out t 0 0"
    using age by (intro keeps_answer_expire [OF ok1 1]) (simp add: saturating_duration_since_def)
  have "store' = shrink_to R (expire t (ret_age R) ?st)"
    using se by (auto simp: in_flight_settle_def store_settle_def)
  then show ?thesis using keeps_answer_shrink [OF ok2 2] room by (simp add: s')
qed

text \<open>C25: A retry of a keyed write gets the original's answer. Once a request that ran under a key has
  been answered, any later claim of that key is told to replay exactly that answer, or that the
  request differs, and never to execute, until the retention age has passed or younger answers
  fill the retention by number or by weight.
\<close>

theorem retry_gets_original_answer:
  assumes "idem_run R idem_init before s" "idem_step R s (Settled tok out t) s1" "idem_run R s1 after s2"
    and "retention_fits R" "length (settled_weights after) < max (ret_entries R) 1"
    and "outcome_weight out + sum_list (settled_weights after) \<le> ret_bytes R"
    and "sys_clock s2 \<le> now" "now < t + ret_age R"
  shows "snd (claim_key_for R (sys_store s2) (if_key tok) fp n now ch) =
    (if fp = if_fingerprint tok then Replay out else Mismatch)"
proof -
  have ok: "sys_ok R s" by (rule idem_run_ok [OF assms(1) sys_ok_init assms(4)])
  have ok1: "sys_ok R s1" by (rule idem_step_ok [OF assms(2) ok assms(4)])
  have ok2: "sys_ok R s2" by (rule idem_run_ok [OF assms(3) ok1 assms(4)])
  have clock: "t \<le> sys_clock s1" using assms(2) by (auto elim: idem_settleE)
  have "0 < ret_age R" using clock idem_run_clock [OF assms(3)] assms(7,8) by simp
  then have "keeps_answer (sys_store s1) (if_key tok) (if_fingerprint tok) out t 0 0"
    using assms(6) by (intro settle_keeps_answer [OF assms(2) ok assms(4)]) simp_all
  then obtain N W where kept: "keeps_answer (sys_store s2) (if_key tok) (if_fingerprint tok) out t N W"
    using keeps_answer_run [OF assms(3) ok1 assms(4), of "if_key tok" "if_fingerprint tok" out t 0 0] assms(5-8) by auto
  have c: "completed_ok (sys_store s2)" and core: "sys_core R s2" using ok2 by (simp_all add: sys_ok_def sys_core_def)
  have "keeps_answer (expire now (ret_age R) (sys_store s2)) (if_key tok) (if_fingerprint tok) out t N W"
    by (rule keeps_answer_expire [OF c kept keeps_answer_age [OF core kept assms(7,8)]])
  then show ?thesis
    unfolding claim_key_for_eq [OF c] Let_def keeps_answer_def by (elim exE conjE) simp
qed

text \<open>C26: At every moment each key has at most one request running. A claim of its key by anyone else
  waits for the running request or is refused as a mismatch. The counters are exact: as many
  requests and request bytes are pending as are running, and as many answers and answer bytes are
  stored as are queued, all within the configured limits.
\<close>

theorem keyed_writes_are_single_flight:
  assumes "idem_run R idem_init es s" "retention_fits R"
  shows "distinct (map if_key (sys_running s))
    \<and> (\<forall>tok \<in> set (sys_running s). \<forall>fp n now ch.
         snd (claim_key_for R (sys_store s) (if_key tok) fp n now ch) =
           (if fp = if_fingerprint tok then Wait (if_channel tok) else Mismatch))
    \<and> is_pending_count (sys_store s) = length (sys_running s)
    \<and> length (sys_running s) \<le> ret_pending_entries R
    \<and> is_pending_bytes (sys_store s) = sum_list (map if_request_bytes (sys_running s))
    \<and> sum_list (map if_request_bytes (sys_running s)) \<le> ret_pending_bytes R
    \<and> is_completed_count (sys_store s) = length (is_completed (sys_store s))
    \<and> length (is_completed (sys_store s)) \<le> max (ret_entries R) 1
    \<and> (is_stored_bytes (sys_store s) \<le> ret_bytes R \<or> length (is_completed (sys_store s)) \<le> 1)"
proof -
  have ok: "sys_ok R s" by (rule idem_run_ok [OF assms(1) sys_ok_init assms(2)])
  then have c: "completed_ok (sys_store s)" and run: "running_ok (sys_store s) (sys_running s)"
    by (simp_all add: sys_ok_def sys_core_def)
  have "snd (claim_key_for R (sys_store s) (if_key tok) fp n now ch) =
      (if fp = if_fingerprint tok then Wait (if_channel tok) else Mismatch)" if tok: "tok \<in> set (sys_running s)" for tok fp n now ch
  proof -
    have "running_ok (expire now (ret_age R) (sys_store s)) (sys_running s)"
      using running_ok_evict [OF c expire_n run] by (simp add: expire_evicts [OF c])
    then have "fmlookup (is_entries (expire now (ret_age R) (sys_store s))) (if_key tok)
        = Some (InFlightEntry (if_fingerprint tok) (if_channel tok))"
      using tok unfolding running_ok_def by blast
    then show ?thesis unfolding claim_key_for_eq [OF c] Let_def by simp
  qed
  moreover have "length (sys_running s) \<le> ret_pending_entries R" "sum_list (map if_request_bytes (sys_running s)) \<le> ret_pending_bytes R"
    using ok run by (simp_all add: sys_ok_def sys_core_def running_ok_def)
  moreover have "is_completed_count (sys_store s) = length (is_completed (sys_store s))"
    using c by (simp add: completed_ok_def)
  moreover have "length (is_completed (sys_store s)) \<le> max (ret_entries R) 1"
      "is_stored_bytes (sys_store s) \<le> ret_bytes R \<or> length (is_completed (sys_store s)) \<le> 1"
    using ok c by (auto simp: sys_ok_def completed_ok_def over_limits_def)
  ultimately show ?thesis
    using run unfolding running_ok_def by (intro conjI) blast+
qed

text \<open>Two requests feed the hash the same bytes only when their method, target, \<^verbatim>\<open>If-Match\<close> lines, content
  type and body are all equal, and two credentials never share a stored key.
\<close>

theorem keyed_requests_are_told_apart:
  assumes "request_fits q" "request_fits q'"
  shows "(fingerprint_input q = fingerprint_input q' \<longleftrightarrow> q = q')
    \<and> (scoped_key (Some scope) key = scoped_key (Some scope') key' \<longleftrightarrow> scope = scope' \<and> key = key')"
  using fingerprint_input_inj [OF _ assms] scoped_key_inj [of "Some scope" key "Some scope'" key'] by auto

subsection \<open>Witnesses\<close>

definition sample_token :: in_flight_request where
  "sample_token = \<lparr>if_key = ''0::k'', if_fingerprint = 1, if_request_bytes = 10, if_channel = 0\<rparr>"

definition sample_answer :: outcome where
  "sample_answer = Answered \<lparr>resp_status = 200, resp_headers = [], resp_body = [123, 125]\<rparr>"

definition sample_claimed :: idem_system where
  "sample_claimed = \<lparr>sys_store = fst (claim_key_for default_retention idem_store_new ''0::k'' 1 10 100 0),
     sys_running = [sample_token], sys_clock = 100\<rparr>"

lemma sample_claimed_run:
  "idem_run default_retention idem_init [Claimed ''0::k'' 1 10 0 (Execute sample_token) 100] sample_claimed"
proof -
  have c: "claim_key_for default_retention (sys_store idem_init) ''0::k'' 1 10 100 0 =
      (sys_store sample_claimed, Execute sample_token)"
    by (simp add: claim_key_for_def expire.simps admit_def idem_init_def idem_store_new_def default_retention_def Let_def
        usize_saturating_add_def sample_token_def sample_claimed_def)
  have "idem_step default_retention idem_init (Claimed ''0::k'' 1 10 0 (Execute sample_token) 100) sample_claimed"
    using idem_step.claim [OF _ _ c] by (simp add: idem_init_def sample_claimed_def started_def)
  then show ?thesis by (rule idem_run_Cons) (rule idem_run_Nil)
qed

lemma default_retention_fits: "retention_fits default_retention"
  by (simp add: retention_fits_def default_retention_def answer_limit_def)

theorem keyed_writes_are_single_flight_witness:
  "idem_run default_retention idem_init [Claimed ''0::k'' 1 10 0 (Execute sample_token) 100] sample_claimed
   \<and> snd (claim_key_for default_retention (sys_store sample_claimed) ''0::k'' 1 10 150 5) = Wait 0
   \<and> snd (claim_key_for default_retention (sys_store sample_claimed) ''0::k'' 2 10 150 5) = Mismatch"
proof -
  have "snd (claim_key_for default_retention (sys_store sample_claimed) (if_key sample_token) fp 10 150 5)
      = (if fp = if_fingerprint sample_token then Wait (if_channel sample_token) else Mismatch)" for fp
  proof -
    have "sample_token \<in> set (sys_running sample_claimed)" by (simp add: sample_claimed_def)
    then show ?thesis
      using keyed_writes_are_single_flight [OF sample_claimed_run default_retention_fits] by blast
  qed
  from this [of 1] this [of 2] sample_claimed_run show ?thesis by (simp add: sample_token_def)
qed

theorem retry_gets_original_answer_witness:
  "\<exists>s. idem_step default_retention sample_claimed (Settled sample_token sample_answer 200) s
     \<and> snd (claim_key_for default_retention (sys_store s) ''0::k'' 1 10 300 5) = Replay sample_answer
     \<and> snd (claim_key_for default_retention (sys_store s) ''0::k'' 2 10 300 5) = Mismatch"
proof -
  obtain s where s: "idem_step default_retention sample_claimed (Settled sample_token sample_answer 200) s"
    and clock: "sys_clock s = 200"
    using idem_step.settle [of sample_claimed 200 sample_token sample_answer default_retention]
    by (auto simp: sample_claimed_def sample_answer_def response_weight_def answer_limit_def in_flight_settle_def)
  have "snd (claim_key_for default_retention (sys_store s) (if_key sample_token) fp 10 300 5)
      = (if fp = if_fingerprint sample_token then Replay sample_answer else Mismatch)" for fp
    by (rule retry_gets_original_answer [OF sample_claimed_run s idem_run_Nil default_retention_fits])
      (simp_all add: clock default_retention_def sample_answer_def response_weight_def from_secs_def)
  from this [of 1] this [of 2] s show ?thesis by (intro exI [of _ s]) (simp add: sample_token_def)
qed

definition sample_request :: "bytes \<Rightarrow> bytes \<Rightarrow> keyed_request" where
  "sample_request target body =
     \<lparr>rq_method = [80, 85, 84], rq_target = target, rq_if_match = [], rq_content_type = None, rq_body = body\<rparr>"

theorem keyed_requests_are_told_apart_witness:
  "fingerprint_input (sample_request [47] [49]) \<noteq> fingerprint_input (sample_request [47, 49] [])
   \<and> scoped_key (Some ''a'') ''b:c'' \<noteq> scoped_key (Some ''a:b'') ''c''"
proof -
  have "request_fits (sample_request t b)" if "t = [47] \<or> t = [47, 49]" "b = [49] \<or> b = []" for t b
    using that by (auto simp: request_fits_def sample_request_def)
  then show ?thesis
    using keyed_requests_are_told_apart [of "sample_request [47] [49]" "sample_request [47, 49] []" "''a''" "''b:c''" "''a:b''" "''c''"]
    by (simp add: sample_request_def)
qed

end
