(* ===== verification/Breaker.thy ===== *)
theory Breaker
  imports Ieee
begin

text \<open>
  The circuit breaker in front of the shared Servo worker,
  \<^verbatim>\<open>hypercolor-core/src/effect/servo/circuit_breaker.rs\<close>: failures counted while closed, a cooldown
  that grows with every opening, and a half-open state after it. Clock readings are arguments; the
  atomics are fields, each method one step. The telemetry counter is left out, and so is a poisoned
  lock, which needs a panic inside an assignment.

  The facts show that the breaker stays transparent below its threshold, opens at it, and then
  refuses attempts until the cooldown after its last failure is over and admits them from then on.
\<close>

section \<open>Model\<close>

datatype circuit_state = CbClosed | CbOpen | CbHalfOpen

record breaker =
  cb_failures :: u32
  cb_consecutive_opens :: u32
  cb_state :: circuit_state
  cb_next_retry :: "instant option"

definition FAILURE_THRESHOLD :: u32 where "FAILURE_THRESHOLD = 3"
definition BASE_COOLDOWN :: duration where "BASE_COOLDOWN = from_secs 30"
definition MAX_COOLDOWN :: duration where "MAX_COOLDOWN = from_secs 300"

definition breaker_new :: breaker where
  "breaker_new = \<lparr>cb_failures = 0, cb_consecutive_opens = 0, cb_state = CbClosed, cb_next_retry = None\<rparr>"

text \<open>
  \<^verbatim>\<open>shift\<close> is at most 8, so the shift and the conversion to 32 bits never fail; a product past
  the range of durations is the cap.
\<close>

definition cooldown_for_opens :: "u32 \<Rightarrow> duration" where
  "cooldown_for_opens opens =
     (let shift = min (unat opens - 1) 8;
          scaled = BASE_COOLDOWN * 2 ^ shift
      in min (if scaled < duration_limit then scaled else MAX_COOLDOWN) MAX_COOLDOWN)"

definition cooldown_elapsed :: "breaker \<Rightarrow> instant \<Rightarrow> bool" where
  "cooldown_elapsed b now \<longleftrightarrow> (case cb_next_retry b of None \<Rightarrow> True | Some deadline \<Rightarrow> deadline \<le> now)"

definition set_next_retry :: "breaker \<Rightarrow> duration \<Rightarrow> instant \<Rightarrow> breaker" where
  "set_next_retry b cooldown now = b\<lparr>cb_next_retry := Some (now + cooldown)\<rparr>"

definition open_breaker :: "breaker \<Rightarrow> instant \<Rightarrow> breaker" where
  "open_breaker b now =
     (let opens = cb_consecutive_opens b + 1
      in set_next_retry (b\<lparr>cb_state := CbOpen, cb_consecutive_opens := opens\<rparr>) (cooldown_for_opens opens) now)"

definition current_cooldown :: "breaker \<Rightarrow> duration" where
  "current_cooldown b = cooldown_for_opens (max (cb_consecutive_opens b) 1)"

definition can_attempt :: "breaker \<Rightarrow> instant \<Rightarrow> breaker \<times> bool" where
  "can_attempt b now =
     (case cb_state b of
        CbClosed \<Rightarrow> (b, True)
      | CbHalfOpen \<Rightarrow> (b, True)
      | CbOpen \<Rightarrow> if cooldown_elapsed b now then (b\<lparr>cb_state := CbHalfOpen\<rparr>, True) else (b, False))"

definition record_success :: "breaker \<Rightarrow> breaker" where
  "record_success b =
     b\<lparr>cb_failures := 0, cb_consecutive_opens := 0, cb_state := CbClosed, cb_next_retry := None\<rparr>"

definition record_failure :: "breaker \<Rightarrow> instant \<Rightarrow> breaker" where
  "record_failure b now =
     (case cb_state b of
        CbClosed \<Rightarrow>
          let previous = cb_failures b;
              b1 = b\<lparr>cb_failures := previous + 1\<rparr>
          in if FAILURE_THRESHOLD \<le> previous + 1 then open_breaker b1 now else b1
      | CbHalfOpen \<Rightarrow> open_breaker b now
      | CbOpen \<Rightarrow> set_next_retry b (current_cooldown b) now)"

definition cooldown_remaining :: "breaker \<Rightarrow> instant \<Rightarrow> duration option" where
  "cooldown_remaining b now =
     (case cb_next_retry b of
        None \<Rightarrow> None
      | Some deadline \<Rightarrow> if deadline \<le> now then None else Some (deadline - now))"

datatype breaker_op = Attempt instant | Success | Failure instant

primrec breaker_exec :: "breaker \<Rightarrow> breaker_op \<Rightarrow> breaker" where
  "breaker_exec b (Attempt now) = fst (can_attempt b now)"
| "breaker_exec b Success = record_success b"
| "breaker_exec b (Failure now) = record_failure b now"

section \<open>Invariant\<close>

definition breaker_ok :: "breaker \<Rightarrow> bool" where
  "breaker_ok b \<longleftrightarrow>
     (cb_state b = CbClosed \<longrightarrow> cb_failures b < 3 \<and> cb_next_retry b = None)
     \<and> (cb_state b = CbOpen \<longrightarrow> cb_next_retry b \<noteq> None)"

interpretation servo_breaker: invariant_machine breaker_exec breaker_ok
proof unfold_locales
  fix b opn
  assume "breaker_ok b"
  then show "breaker_ok (breaker_exec b opn)"
    by (cases opn; cases "cb_state b")
      (auto simp: breaker_ok_def can_attempt_def record_success_def record_failure_def open_breaker_def set_next_retry_def
        Let_def FAILURE_THRESHOLD_def not_le)
qed

lemma cooldown_for_opens_eq:
  "cooldown_for_opens opens = from_secs (min (30 * 2 ^ (unat opens - 1)) 300)"
proof -
  define n where "n = unat opens - 1"
  have eq: "cooldown_for_opens opens = min (30 * 2 ^ min n 8 * 1000000000) (300 * 1000000000)"
    by (simp add: cooldown_for_opens_def Let_def BASE_COOLDOWN_def MAX_COOLDOWN_def from_secs_def duration_limit_def
        n_def min_def)
  have "min (30 * 2 ^ min n 8) 300 = min (30 * 2 ^ n) (300 :: nat)"
  proof (cases "n \<le> 8")
    case False
    then have "(2 :: nat) ^ 8 \<le> 2 ^ n" by (intro power_increasing) simp_all
    with False show ?thesis by (simp add: min_def)
  qed (simp add: min_def)
  then show ?thesis
    unfolding eq nat_mult_min_left [symmetric] by (simp only: n_def from_secs_def)
qed

lemma threshold_simps [simp]:
  "\<not> FAILURE_THRESHOLD \<le> 1" "\<not> FAILURE_THRESHOLD \<le> 2" "FAILURE_THRESHOLD \<le> 3"
  by (simp_all add: FAILURE_THRESHOLD_def word_le_nat_alt)

section \<open>Throttling\<close>

text \<open>
  A stretch of attempts and failures of an open breaker that last failed at \<open>t\<close>, every attempt before
  the deadline that is then in force; a failure moves the deadline.
\<close>

fun last_failure :: "instant \<Rightarrow> breaker_op list \<Rightarrow> instant" where
  "last_failure t [] = t"
| "last_failure t (Failure now # ops) = last_failure now ops"
| "last_failure t (_ # ops) = last_failure t ops"

fun waiting :: "duration \<Rightarrow> instant \<Rightarrow> breaker_op list \<Rightarrow> bool" where
  "waiting cd t [] \<longleftrightarrow> True"
| "waiting cd t (Attempt now # ops) \<longleftrightarrow> now < t + cd \<and> waiting cd t ops"
| "waiting cd t (Failure now # ops) \<longleftrightarrow> waiting cd now ops"
| "waiting cd t (Success # ops) \<longleftrightarrow> False"

definition shut_until :: "instant \<Rightarrow> u32 \<Rightarrow> breaker \<Rightarrow> bool" where
  "shut_until u opens b \<longleftrightarrow>
     cb_state b = CbOpen \<and> cb_consecutive_opens b = opens \<and> cb_next_retry b = Some u"

lemma shut_attempt: "shut_until u opens b \<Longrightarrow> snd (can_attempt b now) \<longleftrightarrow> u \<le> now"
  by (simp add: shut_until_def can_attempt_def cooldown_elapsed_def)

lemma shut_refused: "shut_until u opens b \<Longrightarrow> now < u \<Longrightarrow> fst (can_attempt b now) = b"
  by (simp add: shut_until_def can_attempt_def cooldown_elapsed_def)

lemma shut_admits:
  "shut_until u opens b \<Longrightarrow> u \<le> now \<Longrightarrow>
     cb_state (fst (can_attempt b now)) = CbHalfOpen \<and> cb_consecutive_opens (fst (can_attempt b now)) = opens"
  by (simp add: shut_until_def can_attempt_def cooldown_elapsed_def)

lemma shut_failure:
  assumes "shut_until u opens b" "0 < opens"
  shows "shut_until (now + cooldown_for_opens opens) opens (record_failure b now)"
proof -
  have "1 \<le> opens" using assms(2) by (simp add: word_le_nat_alt word_less_nat_alt)
  then have "max opens 1 = opens" by (rule max_absorb1)
  then show ?thesis using assms(1) by (simp add: shut_until_def record_failure_def set_next_retry_def current_cooldown_def)
qed

lemma shut_run:
  assumes "shut_until (t + cooldown_for_opens opens) opens b" "waiting (cooldown_for_opens opens) t ops" "0 < opens"
  shows "shut_until (last_failure t ops + cooldown_for_opens opens) opens (foldl breaker_exec b ops)"
  using assms
proof (induction ops arbitrary: t b)
  case (Cons opn ops)
  show ?case
  proof (cases opn)
    case (Attempt now)
    then have "fst (can_attempt b now) = b" using Cons.prems(1,2) by (auto intro: shut_refused)
    then show ?thesis using Cons Attempt by simp
  next
    case (Failure now)
    then show ?thesis using Cons.IH [OF shut_failure [OF Cons.prems(1,3)]] Cons.prems(2,3) by simp
  qed (use Cons.prems in simp)
qed simp

lemma success_admits: "snd (can_attempt (record_success b) now)"
  by (simp add: can_attempt_def record_success_def)

text \<open>The half-open breaker lets every attempt through until one reports back.\<close>

lemma half_open_admits_all:
  "cb_state b = CbHalfOpen \<Longrightarrow> foldl breaker_exec b (map Attempt ts) = b \<and> snd (can_attempt b now)"
  by (induction ts) (simp_all add: can_attempt_def)

lemma opens_at_threshold:
  "cb_state (foldl breaker_exec (record_success b) (map Failure ts)) = (if length ts < 3 then CbClosed else CbOpen)"
proof -
  have stays: "cb_state (foldl breaker_exec c (map Failure us)) = CbOpen" if "cb_state c = CbOpen" for c us
    using that by (induction us arbitrary: c) (auto simp: record_failure_def set_next_retry_def)
  consider "ts = []" | t where "ts = [t]" | t u where "ts = [t, u]" | t u v ws where "ts = t # u # v # ws"
    by (metis list.exhaust)
  then show ?thesis
    by cases (auto simp: record_success_def record_failure_def open_breaker_def set_next_retry_def Let_def
        intro!: stays)
qed

text \<open>C27: After a success the breaker stays closed for two failures and opens at the third. However it
  was driven before, when a failure opens it for the \<open>n\<close>-th time in a row (short of \<open>2 ^ 32\<close> times), it
  cools down for \<open>min (30 * 2 ^ (n - 1)) 300\<close> seconds from that failure, or from the last failure
  reported since, and through every stretch of attempts and failures an attempt passes exactly when
  that time is over. The attempt that passes leaves the breaker half-open: every further attempt
  passes too, not only one probe, until a failure opens it for the next time in a row. A success
  reported at any moment, the cooldown included, closes it at once.
\<close>

theorem breaker_throttles:
  assumes reach: "b = foldl breaker_exec breaker_new ops"
    and opens: "cb_state b \<noteq> CbOpen" "cb_state (record_failure b t) = CbOpen"
    and count: "n = unat (cb_consecutive_opens b) + 1" "n < 2 ^ 32"
    and cd: "cd = from_secs (min (30 * 2 ^ (n - 1)) 300)"
    and between: "waiting cd t ops'"
    and B: "B = foldl breaker_exec (record_failure b t) ops'"
  shows "(snd (can_attempt B now) \<longleftrightarrow> last_failure t ops' + cd \<le> now)
    \<and> (last_failure t ops' + cd \<le> now \<longrightarrow>
         (\<forall>ts. snd (can_attempt (foldl breaker_exec (fst (can_attempt B now)) (map Attempt ts)) now'))
         \<and> cb_state (record_failure (fst (can_attempt B now)) t') = CbOpen
         \<and> cb_consecutive_opens (record_failure (fst (can_attempt B now)) t') = cb_consecutive_opens B + 1)
    \<and> unat (cb_consecutive_opens B) = n
    \<and> snd (can_attempt (record_success B) now')
    \<and> (cb_state b = CbClosed \<longrightarrow> cooldown_remaining b t = None)
    \<and> cb_state (foldl breaker_exec (record_success b) (map Failure ts')) = (if length ts' < 3 then CbClosed else CbOpen)"
proof -
  let ?o = "cb_consecutive_opens b + 1"
  have n: "unat ?o = n"
    using count by (simp add: unat_word_ariths)
  obtain f where opened: "record_failure b t = open_breaker (b\<lparr>cb_failures := f\<rparr>) t"
  proof (cases "cb_state b")
    case CbClosed
    then show ?thesis using opens that [of "cb_failures b + 1"]
      by (auto simp: record_failure_def Let_def split: if_splits)
  next
    case CbHalfOpen
    then show ?thesis using that [of "cb_failures b"] by (simp add: record_failure_def)
  qed (use opens in simp)
  have cd': "cd = cooldown_for_opens ?o" using cd by (simp add: cooldown_for_opens_eq n)
  have pos: "0 < ?o" using n count(1) by (simp add: word_less_nat_alt)
  have "shut_until (t + cd) ?o (record_failure b t)"
    unfolding opened by (simp add: shut_until_def open_breaker_def set_next_retry_def Let_def cd')
  then have shut: "shut_until (last_failure t ops' + cd) ?o B"
    using shut_run [of t ?o _ ops'] between pos unfolding B cd' by blast
  have "cb_state (record_failure h t') = CbOpen \<and> cb_consecutive_opens (record_failure h t') = cb_consecutive_opens h + 1"
    if "cb_state h = CbHalfOpen" for h
    using that by (simp add: record_failure_def open_breaker_def set_next_retry_def Let_def)
  moreover have "breaker_ok b"
    unfolding reach by (rule servo_breaker.run_inv) (simp add: breaker_ok_def breaker_new_def word_less_nat_alt)
  ultimately show ?thesis
    using shut_attempt [OF shut, of now] shut_admits [OF shut, of now] half_open_admits_all n shut
    by (simp add: opens_at_threshold success_admits shut_until_def breaker_ok_def cooldown_remaining_def)
qed

theorem breaker_throttles_witness:
  "let b = foldl breaker_exec breaker_new [Failure 1, Attempt 2, Failure 3];
       B = foldl breaker_exec (record_failure b 10) [Attempt 15, Failure 20, Attempt 25]
   in \<not> snd (can_attempt B 30000000019) \<and> snd (can_attempt B 30000000020)"
proof -
  let ?b = "foldl breaker_exec breaker_new [Failure 1, Attempt 2, Failure 3]"
  have b: "cb_state ?b = CbClosed" "cb_consecutive_opens ?b = 0" "cb_state (record_failure ?b 10) = CbOpen"
    by (simp_all add: breaker_new_def record_failure_def can_attempt_def open_breaker_def
        set_next_retry_def Let_def)
  have "snd (can_attempt (foldl breaker_exec (record_failure ?b 10) [Attempt 15, Failure 20, Attempt 25]) now) \<longleftrightarrow>
      30000000020 \<le> now" for now
    using breaker_throttles [OF refl, of "[Failure 1, Attempt 2, Failure 3]" 10 1 30000000000
        "[Attempt 15, Failure 20, Attempt 25]" _ now, OF _ _ _ _ _ _ refl] b
    by (simp add: from_secs_def del: foldl_Cons)
  then show ?thesis unfolding Let_def by simp
qed

end
