(* ===== verification/Hex_Color.thy ===== *)
theory Hex_Color
  imports Rust_Str
begin

text \<open>
  Hex colours: \<^verbatim>\<open>hypercolor-color/src/hex.rs\<close> and the two encoded colour types of
  \<^verbatim>\<open>types.rs\<close>. A text is its UTF-8 bytes, one \<open>char\<close> each. Linear-light colours are not
  modelled.
\<close>

unbundle bit_operations_syntax

section \<open>Colours and the parser\<close>

record rgb =
  rgb_r :: u8
  rgb_g :: u8
  rgb_b :: u8

record rgba =
  rgba_r :: u8
  rgba_g :: u8
  rgba_b :: u8
  rgba_a :: u8

definition to_rgba :: "rgb \<Rightarrow> rgba" where
  "to_rgba c = \<lparr>rgba_r = rgb_r c, rgba_g = rgb_g c, rgba_b = rgb_b c, rgba_a = 255\<rparr>"

definition to_rgb :: "rgba \<Rightarrow> rgb" where
  "to_rgb c = \<lparr>rgb_r = rgba_r c, rgb_g = rgba_g c, rgb_b = rgba_b c\<rparr>"

datatype color_parse_error = BadLength nat | BadDigit

definition nibble :: "u8 \<Rightarrow> color_parse_error + u8" where
  "nibble byte =
     (if 48 \<le> byte \<and> byte \<le> 57 then Inr (byte - 48)
      else if 97 \<le> byte \<and> byte \<le> 102 then Inr (byte - 97 + 10)
      else if 65 \<le> byte \<and> byte \<le> 70 then Inr (byte - 65 + 10)
      else Inl BadDigit)"

definition pair :: "u8 \<Rightarrow> u8 \<Rightarrow> color_parse_error + u8" where
  "pair high low =
     (case nibble high of
        Inl e \<Rightarrow> Inl e
      | Inr h \<Rightarrow> (case nibble low of Inl e \<Rightarrow> Inl e | Inr l \<Rightarrow> Inr (push_bit 4 h OR l)))"

text \<open>\<^verbatim>\<open>strip_prefix('#').unwrap_or(s)\<close>, as bytes.\<close>

definition hash_stripped :: "string \<Rightarrow> string" where
  "hash_stripped s = (case strip_prefix ''#'' s of Some r \<Rightarrow> r | None \<Rightarrow> s)"

definition as_bytes :: "string \<Rightarrow> bytes" where
  "as_bytes = map (\<lambda>c. word_of_nat (of_char c))"

text \<open>The struct expressions evaluate their fields in order, so the first bad digit is the error.\<close>

definition rgb_fields :: "u8 \<times> u8 \<Rightarrow> u8 \<times> u8 \<Rightarrow> u8 \<times> u8 \<Rightarrow> color_parse_error + rgba" where
  "rgb_fields r g b =
     (case pair (fst r) (snd r) of
        Inl e \<Rightarrow> Inl e
      | Inr r \<Rightarrow> (case pair (fst g) (snd g) of
           Inl e \<Rightarrow> Inl e
         | Inr g \<Rightarrow> (case pair (fst b) (snd b) of
              Inl e \<Rightarrow> Inl e
            | Inr b \<Rightarrow> Inr \<lparr>rgba_r = r, rgba_g = g, rgba_b = b, rgba_a = 255\<rparr>)))"

definition with_alpha :: "color_parse_error + rgba \<Rightarrow> u8 \<times> u8 \<Rightarrow> color_parse_error + rgba" where
  "with_alpha c a =
     (case c of
        Inl e \<Rightarrow> Inl e
      | Inr c \<Rightarrow> (case pair (fst a) (snd a) of Inl e \<Rightarrow> Inl e | Inr a \<Rightarrow> Inr (c\<lparr>rgba_a := a\<rparr>)))"

definition parse_channels :: "string \<Rightarrow> color_parse_error + rgba" where
  "parse_channels s =
     (case as_bytes (hash_stripped s) of
        [r, g, b] \<Rightarrow> rgb_fields (r, r) (g, g) (b, b)
      | [r, g, b, a] \<Rightarrow> with_alpha (rgb_fields (r, r) (g, g) (b, b)) (a, a)
      | [r1, r0, g1, g0, b1, b0] \<Rightarrow> rgb_fields (r1, r0) (g1, g0) (b1, b0)
      | [r1, r0, g1, g0, b1, b0, a1, a0] \<Rightarrow> with_alpha (rgb_fields (r1, r0) (g1, g0) (b1, b0)) (a1, a0)
      | ds \<Rightarrow> Inl (BadLength (length ds)))"

definition rgb_from_hex :: "string \<Rightarrow> color_parse_error + rgb" where
  "rgb_from_hex s =
     (let digits = length (hash_stripped s)
      in if digits = 3 \<or> digits = 6
         then (case parse_channels s of Inl e \<Rightarrow> Inl e | Inr c \<Rightarrow> Inr (to_rgb c))
         else Inl (BadLength digits))"

definition rgba_from_hex :: "string \<Rightarrow> color_parse_error + rgba" where
  "rgba_from_hex = parse_channels"

definition to_hex :: "rgb \<Rightarrow> string" where
  "to_hex c = ''#'' @ fmt_hex False 2 (unat (rgb_r c)) @ fmt_hex False 2 (unat (rgb_g c))
     @ fmt_hex False 2 (unat (rgb_b c))"

section \<open>Facts\<close>

lemma nibble_hex_char:
  "d < 16 \<Longrightarrow> nibble (word_of_nat (of_char (hex_char False d))) = Inr (word_of_nat d)"
proof -
  assume "d < 16"
  then have "d \<in> {0, 1, 2, 3, 4, 5, 6, 7, 8, 9, 10, 11, 12, 13, 14, 15}"
    unfolding insert_iff empty_iff by arith
  then show ?thesis by (elim insertE) (simp_all add: nibble_def hex_char_def)
qed

lemma zero_digit: "char_of (48 :: nat) = CHR ''0''"
  by code_simp

lemma nibbles_make_byte:
  fixes h l :: u8
  assumes "l < 16"
  shows "push_bit 4 h OR l = 16 * h + l"
proof -
  have "l = take_bit 4 l"
    using assms by (simp add: word_unat_eq_iff take_bit_eq_mod unat_mod word_less_nat_alt)
  then have "\<not> bit l i" if "4 \<le> i" for i
    using that by (metis bit_take_bit_iff leD)
  then have "push_bit 4 h OR l = push_bit 4 h + l"
    by (intro disjunctive_add_eq_or [symmetric] bit_eqI) (auto simp: bit_simps)
  then show ?thesis by (simp add: push_bit_eq_mult)
qed

lemma fmt_hex_byte:
  fixes b :: u8
  obtains h l where "fmt_hex False 2 (unat b) = [h, l]"
    and "pair (word_of_nat (of_char h)) (word_of_nat (of_char l)) = Inr b"
proof -
  let ?n = "unat b"
  have n: "?n < 256" using unsigned_less [of b] by simp
  let ?h = "hex_char False (?n div 16)" and ?l = "hex_char False (?n mod 16)"
  have "fmt_hex False 2 ?n = [?h, ?l]"
    using n by (simp add: fmt_hex_def hex_rev.simps [of False ?n] hex_rev.simps [of False "?n div 16"]
        hex_char_def zero_digit)
  moreover have "push_bit 4 (word_of_nat (?n div 16)) OR word_of_nat (?n mod 16) = b"
  proof -
    have "(word_of_nat (?n mod 16) :: u8) < 16" by (simp add: word_less_nat_alt unat_of_nat)
    then have "push_bit 4 (word_of_nat (?n div 16)) OR word_of_nat (?n mod 16)
        = (16 * word_of_nat (?n div 16) + word_of_nat (?n mod 16) :: u8)"
      by (rule nibbles_make_byte)
    also have "\<dots> = word_of_nat (16 * (?n div 16) + ?n mod 16)"
      by (simp only: of_nat_add of_nat_mult of_nat_numeral)
    also have "\<dots> = b" by (simp only: mult_div_mod_eq) simp
    finally show ?thesis .
  qed
  ultimately show thesis
    using that [of ?h ?l] n by (simp add: pair_def nibble_hex_char)
qed

lemma hash_stripped_hash [simp]: "hash_stripped (CHR ''#'' # s) = s"
  by (simp add: hash_stripped_def)

text \<open>Which texts a parse accepts, and what it says of the others.\<close>

definition is_hex_byte :: "u8 \<Rightarrow> bool" where
  "is_hex_byte b \<longleftrightarrow> (\<exists>n. nibble b = Inr n)"

lemma pair_error: "pair h l = Inl e \<Longrightarrow> e = BadDigit"
  by (auto simp: pair_def nibble_def split: sum.splits if_splits)

lemma pair_ok: "(\<exists>b. pair h l = Inr b) \<longleftrightarrow> is_hex_byte h \<and> is_hex_byte l"
  by (auto simp: pair_def is_hex_byte_def split: sum.splits)

lemma rgb_fields_cases:
  "(\<exists>c. rgb_fields r g b = Inr c)
     \<and> is_hex_byte (fst r) \<and> is_hex_byte (snd r) \<and> is_hex_byte (fst g) \<and> is_hex_byte (snd g)
     \<and> is_hex_byte (fst b) \<and> is_hex_byte (snd b)
   \<or> rgb_fields r g b = Inl BadDigit
     \<and> \<not> (is_hex_byte (fst r) \<and> is_hex_byte (snd r) \<and> is_hex_byte (fst g) \<and> is_hex_byte (snd g)
            \<and> is_hex_byte (fst b) \<and> is_hex_byte (snd b))"
  using pair_ok [of "fst r" "snd r"] pair_ok [of "fst g" "snd g"] pair_ok [of "fst b" "snd b"]
    pair_error [of "fst r" "snd r"] pair_error [of "fst g" "snd g"] pair_error [of "fst b" "snd b"]
  by (cases "pair (fst r) (snd r)"; cases "pair (fst g) (snd g)"; cases "pair (fst b) (snd b)")
    (auto simp: rgb_fields_def)

lemma length_as_bytes: "length (as_bytes s) = length s"
  by (simp add: as_bytes_def)

lemma list_of_3: "length xs = 3 \<Longrightarrow> \<exists>a b c. xs = [a, b, c]"
  by (auto simp: length_Suc_conv numeral_3_eq_3)

lemma list_of_6: "length xs = 6 \<Longrightarrow> \<exists>a b c d e f. xs = [a, b, c, d, e, f]"
  by (auto simp: length_Suc_conv eval_nat_numeral)

lemma from_hex_six:
  assumes "hash_stripped s = [r1, r0, g1, g0, b1, b0]"
    and "pair (word_of_nat (of_char r1)) (word_of_nat (of_char r0)) = Inr (rgb_r c)"
    and "pair (word_of_nat (of_char g1)) (word_of_nat (of_char g0)) = Inr (rgb_g c)"
    and "pair (word_of_nat (of_char b1)) (word_of_nat (of_char b0)) = Inr (rgb_b c)"
  shows "rgb_from_hex s = Inr c"
  using assms by (simp add: rgb_from_hex_def parse_channels_def as_bytes_def rgb_fields_def to_rgb_def)

lemma hash_not_hex: "pair (word_of_nat (of_char (CHR ''#''))) l \<noteq> Inr b"
  by (simp add: pair_def nibble_def)

lemma from_hex_verdict:
  "let ds = as_bytes (hash_stripped s) in
     if length ds \<noteq> 3 \<and> length ds \<noteq> 6 then rgb_from_hex s = Inl (BadLength (length ds))
     else if list_all is_hex_byte ds then \<exists>c. rgb_from_hex s = Inr c
     else rgb_from_hex s = Inl BadDigit"
proof -
  let ?ds = "as_bytes (hash_stripped s)"
  consider r g b where "?ds = [r, g, b]"
    | r1 r0 g1 g0 b1 b0 where "?ds = [r1, r0, g1, g0, b1, b0]"
    | "length ?ds \<noteq> 3" "length ?ds \<noteq> 6"
    using list_of_3 [of ?ds] list_of_6 [of ?ds] by blast
  then show ?thesis
  proof cases
    case 1
    then have "length (hash_stripped s) = 3" by (metis length_as_bytes length_Cons list.size(3) numeral_3_eq_3)
    with 1 show ?thesis using rgb_fields_cases [of "(r, r)" "(g, g)" "(b, b)"]
      by (auto simp: Let_def rgb_from_hex_def parse_channels_def)
  next
    case 2
    then have "length (hash_stripped s) = length [r1, r0, g1, g0, b1, b0]" by (metis length_as_bytes)
    then have "length (hash_stripped s) = 6" by simp
    with 2 show ?thesis using rgb_fields_cases [of "(r1, r0)" "(g1, g0)" "(b1, b0)"]
      by (auto simp: Let_def rgb_from_hex_def parse_channels_def)
  next
    case 3
    then show ?thesis by (simp add: rgb_from_hex_def length_as_bytes)
  qed
qed

text \<open>
  \<^verbatim>\<open>Rgb::from_hex\<close> is the inverse of \<^verbatim>\<open>to_hex\<close> on every colour, with or without the
  leading \<open>#\<close>. On any text it decides by the bytes after one optional \<open>#\<close>: any count but 3 or 6 is
  refused with that count, then any byte that is not a hex digit is refused as a bad digit, and
  everything else parses; a three-digit text means the six-digit text with every digit doubled.
\<close>

lemma hex_color_roundtrip:
  "rgb_from_hex (to_hex c) = Inr c \<and> rgb_from_hex (tl (to_hex c)) = Inr c
   \<and> (let ds = as_bytes (hash_stripped s) in
       (if length ds \<noteq> 3 \<and> length ds \<noteq> 6 then rgb_from_hex s = Inl (BadLength (length ds))
        else if list_all is_hex_byte ds then \<exists>c. rgb_from_hex s = Inr c
        else rgb_from_hex s = Inl BadDigit))
   \<and> rgb_from_hex [CHR ''#'', x, y, z] = rgb_from_hex [CHR ''#'', x, x, y, y, z, z]"
proof (intro conjI)
  obtain r1 r0 where r: "fmt_hex False 2 (unat (rgb_r c)) = [r1, r0]"
    "pair (word_of_nat (of_char r1)) (word_of_nat (of_char r0)) = Inr (rgb_r c)" by (rule fmt_hex_byte)
  obtain g1 g0 where g: "fmt_hex False 2 (unat (rgb_g c)) = [g1, g0]"
    "pair (word_of_nat (of_char g1)) (word_of_nat (of_char g0)) = Inr (rgb_g c)" by (rule fmt_hex_byte)
  obtain b1 b0 where b: "fmt_hex False 2 (unat (rgb_b c)) = [b1, b0]"
    "pair (word_of_nat (of_char b1)) (word_of_nat (of_char b0)) = Inr (rgb_b c)" by (rule fmt_hex_byte)
  show "rgb_from_hex (to_hex c) = Inr c"
    using r g b by (intro from_hex_six [of _ r1 r0 g1 g0 b1 b0]) (simp_all add: to_hex_def)
  have "r1 \<noteq> CHR ''#''" using r(2) hash_not_hex by auto
  then have "hash_stripped (tl (to_hex c)) = [r1, r0, g1, g0, b1, b0]"
    using r g b by (simp add: to_hex_def hash_stripped_def)
  then show "rgb_from_hex (tl (to_hex c)) = Inr c"
    using r g b by (intro from_hex_six [of _ r1 r0 g1 g0 b1 b0]) simp_all
  show "rgb_from_hex [CHR ''#'', x, y, z] = rgb_from_hex [CHR ''#'', x, x, y, y, z, z]"
    by (simp add: rgb_from_hex_def parse_channels_def as_bytes_def)
qed (rule from_hex_verdict)

end
