(* ===== verification/Session.thy ===== *)
theory Session
  imports Hex_Color Ieee
begin

text \<open>
  Session awareness and output power. From \<^verbatim>\<open>hypercolor-types/src/session.rs\<close> the events,
  configuration and actions; from \<^verbatim>\<open>hypercolor-core/src/session\<close> the deduplication of the merged
  monitor streams and the policy; from \<^verbatim>\<open>hypercolor-daemon/src/output_power.rs\<close> (and
  \<^verbatim>\<open>output_power/portable.rs\<close>) the power state and its updates; from
  \<^verbatim>\<open>hypercolor-daemon/src/session.rs\<close> the loop that turns events into transition tasks, and from
  \<^verbatim>\<open>domain/output.rs\<close> the user's power operations.

  A transition task is asynchronous code: between two of its reads or writes of the power state
  other code may run. Its model is the phase it will execute next, one phase per atomic access,
  and \<open>task_step\<close> executes one phase. \<open>session_trans\<close> interleaves these phases with session
  events, configuration changes and user operations. An event may cancel the task between any two
  phases, which includes every await point of the code. Waiting times, discovery scans and the
  release of devices are outputs of a step; the code behind them is not modelled here.
\<close>

section \<open>Events, configuration and actions\<close>

type_synonym color = "u8 \<times> u8 \<times> u8"

datatype session_event =
    ScreenLocked
  | ScreenUnlocked
  | SessionInactive
  | SessionActive
  | Suspending
  | HostResumed
  | IdleEntered duration
  | IdleExited
  | LidClosed
  | LidOpened

datatype sleep_behavior = BehaveOff | BehaveDim | BehaveScene | BehaveIgnore
datatype off_output_behavior = OffStatic | OffRelease
datatype idle_backend = IdleAuto | IdleWayland | IdleX11 | IdleDbus | IdleDisabled

record session_config =
  sc_enabled :: bool
  sc_idle_enabled :: bool
  sc_idle_backend :: idle_backend
  sc_idle_dim_timeout_secs :: u64
  sc_idle_off_timeout_secs :: u64
  sc_off_output_behavior :: off_output_behavior
  sc_off_output_color :: string
  sc_on_screen_lock :: sleep_behavior
  sc_screen_lock_brightness :: f32
  sc_screen_lock_scene :: string
  sc_screen_lock_fade_ms :: u64
  sc_screen_unlock_fade_ms :: u64
  sc_on_suspend :: sleep_behavior
  sc_suspend_fade_ms :: u64
  sc_resume_fade_ms :: u64
  sc_on_lid_close :: sleep_behavior
  sc_lid_close_brightness :: f32
  sc_lid_close_scene :: string
  sc_lid_close_fade_ms :: u64
  sc_lid_open_fade_ms :: u64

definition default_session_config :: session_config where
  "default_session_config =
     \<lparr>sc_enabled = True, sc_idle_enabled = True, sc_idle_backend = IdleAuto,
      sc_idle_dim_timeout_secs = 120, sc_idle_off_timeout_secs = 600,
      sc_off_output_behavior = OffStatic, sc_off_output_color = ''#000000'',
      sc_on_screen_lock = BehaveIgnore, sc_screen_lock_brightness = Fin 0,
      sc_screen_lock_scene = [], sc_screen_lock_fade_ms = 2000, sc_screen_unlock_fade_ms = 500,
      sc_on_suspend = BehaveOff, sc_suspend_fade_ms = 300, sc_resume_fade_ms = 150,
      sc_on_lid_close = BehaveOff, sc_lid_close_brightness = Fin 0, sc_lid_close_scene = [],
      sc_lid_close_fade_ms = 500, sc_lid_open_fade_ms = 300\<rparr>"

datatype sleep_act =
    SleepIgnore
  | SleepDim f32 u64
  | SleepOff u64 off_output_behavior color
  | SleepScene string u64

datatype wake_act = WakeRestore u64 | WakeScene string u64

section \<open>Deduplication of the monitor streams\<close>

record dedup_state =
  dd_screen_locked :: bool
  dd_session_inactive :: bool
  dd_lid_closed :: bool
  dd_idle :: bool
  dd_suspended :: bool

definition default_dedup :: dedup_state where
  "default_dedup = \<lparr>dd_screen_locked = False, dd_session_inactive = False, dd_lid_closed = False,
     dd_idle = False, dd_suspended = False\<rparr>"

fun should_forward :: "session_event \<Rightarrow> dedup_state \<Rightarrow> bool \<times> dedup_state" where
  "should_forward ScreenLocked d =
     (if dd_screen_locked d then (False, d) else (True, d\<lparr>dd_screen_locked := True\<rparr>))"
| "should_forward ScreenUnlocked d =
     (if \<not> dd_screen_locked d then (False, d) else (True, d\<lparr>dd_screen_locked := False\<rparr>))"
| "should_forward SessionInactive d =
     (if dd_session_inactive d then (False, d) else (True, d\<lparr>dd_session_inactive := True\<rparr>))"
| "should_forward SessionActive d =
     (if \<not> dd_session_inactive d then (False, d) else (True, d\<lparr>dd_session_inactive := False\<rparr>))"
| "should_forward Suspending d =
     (if dd_suspended d then (False, d) else (True, d\<lparr>dd_suspended := True\<rparr>))"
| "should_forward HostResumed d =
     (if \<not> dd_suspended d then (False, d) else (True, d\<lparr>dd_suspended := False\<rparr>))"
| "should_forward (IdleEntered idle_duration) d =
     (if dd_idle d then (False, d) else (True, d\<lparr>dd_idle := True\<rparr>))"
| "should_forward IdleExited d =
     (if \<not> dd_idle d then (False, d) else (True, d\<lparr>dd_idle := False\<rparr>))"
| "should_forward LidClosed d =
     (if dd_lid_closed d then (False, d) else (True, d\<lparr>dd_lid_closed := True\<rparr>))"
| "should_forward LidOpened d =
     (if \<not> dd_lid_closed d then (False, d) else (True, d\<lparr>dd_lid_closed := False\<rparr>))"

text \<open>The forwarder task: what it sends for the events it receives, in order.\<close>

fun forward_events :: "dedup_state \<Rightarrow> session_event list \<Rightarrow> session_event list" where
  "forward_events d [] = []"
| "forward_events d (e # es) =
     (let (sent, d') = should_forward e d in (if sent then [e] else []) @ forward_events d' es)"

section \<open>Policy\<close>

definition IDLE_DIM_BRIGHTNESS :: f32 where "IDLE_DIM_BRIGHTNESS = f32_of_rat (3 / 10)"
definition IDLE_DIM_FADE_MS :: u64 where "IDLE_DIM_FADE_MS = 3000"
definition IDLE_OFF_FADE_MS :: u64 where "IDLE_OFF_FADE_MS = 5000"

definition parse_static_color :: "string \<Rightarrow> color" where
  "parse_static_color raw =
     (case rgb_from_hex (trim raw) of
        Inl e \<Rightarrow> (0, 0, 0) | Inr c \<Rightarrow> (rgb_r c, rgb_g c, rgb_b c))"

definition sleep_action_from_behavior ::
  "off_output_behavior \<Rightarrow> string \<Rightarrow> sleep_behavior \<Rightarrow> f32 \<Rightarrow> string \<Rightarrow> u64 \<Rightarrow> sleep_act" where
  "sleep_action_from_behavior off_behavior off_color behavior level scene_name fade_ms =
     (case behavior of
        BehaveIgnore \<Rightarrow> SleepIgnore
      | BehaveOff \<Rightarrow> SleepOff fade_ms off_behavior (parse_static_color off_color)
      | BehaveDim \<Rightarrow> SleepDim (f32_clamp level (Fin 0) (Fin 1)) fade_ms
      | BehaveScene \<Rightarrow> if trim scene_name = [] then SleepIgnore else SleepScene scene_name fade_ms)"

definition as_secs :: "duration \<Rightarrow> nat" where
  "as_secs d = d div 1000000000"

fun sleep_action :: "session_config \<Rightarrow> session_event \<Rightarrow> sleep_act option" where
  "sleep_action c (IdleEntered idle_duration) =
     (if \<not> sc_idle_enabled c then None
      else if unat (sc_idle_off_timeout_secs c) \<le> as_secs idle_duration
      then Some (SleepOff IDLE_OFF_FADE_MS (sc_off_output_behavior c)
             (parse_static_color (sc_off_output_color c)))
      else if unat (sc_idle_dim_timeout_secs c) \<le> as_secs idle_duration
      then Some (SleepDim IDLE_DIM_BRIGHTNESS IDLE_DIM_FADE_MS)
      else None)"
| "sleep_action c Suspending =
     Some (sleep_action_from_behavior (sc_off_output_behavior c) (sc_off_output_color c)
       (sc_on_suspend c) (Fin 0) [] (sc_suspend_fade_ms c))"
| "sleep_action c LidClosed =
     Some (sleep_action_from_behavior (sc_off_output_behavior c) (sc_off_output_color c)
       (sc_on_lid_close c) (sc_lid_close_brightness c) (sc_lid_close_scene c) (sc_lid_close_fade_ms c))"
| "sleep_action c ScreenLocked =
     Some (sleep_action_from_behavior (sc_off_output_behavior c) (sc_off_output_color c)
       (sc_on_screen_lock c) (sc_screen_lock_brightness c) (sc_screen_lock_scene c)
       (sc_screen_lock_fade_ms c))"
| "sleep_action c SessionInactive =
     Some (sleep_action_from_behavior (sc_off_output_behavior c) (sc_off_output_color c)
       (sc_on_screen_lock c) (sc_screen_lock_brightness c) (sc_screen_lock_scene c)
       (sc_screen_lock_fade_ms c))"
| "sleep_action c _ = None"

fun wake_action :: "session_config \<Rightarrow> session_event \<Rightarrow> wake_act option" where
  "wake_action c ScreenUnlocked = Some (WakeRestore (sc_screen_unlock_fade_ms c))"
| "wake_action c SessionActive = Some (WakeRestore (sc_screen_unlock_fade_ms c))"
| "wake_action c HostResumed = Some (WakeRestore (sc_resume_fade_ms c))"
| "wake_action c IdleExited = (if \<not> sc_idle_enabled c then None else Some (WakeRestore 300))"
| "wake_action c LidOpened = Some (WakeRestore (sc_lid_open_fade_ms c))"
| "wake_action c _ = None"

section \<open>The power state\<close>

datatype output_override = NoOverride | OverridePaused | OverrideStopped

record output_power_state =
  global_brightness :: f32
  session_brightness :: f32
  output_override :: output_override
  session_sleeping :: bool
  transition_generation :: u64
  off_behavior :: off_output_behavior
  off_color :: color
  manual_off_color :: color

definition default_output_power :: output_power_state where
  "default_output_power =
     \<lparr>global_brightness = Fin 1, session_brightness = Fin 1, output_override = NoOverride,
      session_sleeping = False, transition_generation = 0, off_behavior = OffStatic,
      off_color = (0, 0, 0), manual_off_color = (0, 0, 0)\<rparr>"

text \<open>\<^verbatim>\<open>OutputPower::new\<close>, given the stored brightness, which the settings store clamps.\<close>

definition output_power_new :: "f32 \<Rightarrow> output_power_state" where
  "output_power_new stored = default_output_power\<lparr>global_brightness := stored\<rparr>"

definition sleeping :: "output_power_state \<Rightarrow> bool" where
  "sleeping p \<longleftrightarrow> output_override p \<noteq> NoOverride \<or> session_sleeping p"

definition manually_paused :: "output_power_state \<Rightarrow> bool" where
  "manually_paused p \<longleftrightarrow> output_override p = OverridePaused"

definition reported_paused :: "output_power_state \<Rightarrow> bool" where
  "reported_paused p = sleeping p"

definition effective_off_output_behavior :: "output_power_state \<Rightarrow> off_output_behavior" where
  "effective_off_output_behavior p =
     (case output_override p of
        OverridePaused \<Rightarrow> OffStatic | OverrideStopped \<Rightarrow> OffRelease | NoOverride \<Rightarrow> off_behavior p)"

definition session_release_active :: "output_power_state \<Rightarrow> bool" where
  "session_release_active p \<longleftrightarrow>
     session_sleeping p \<and> output_override p = NoOverride \<and> off_behavior p = OffRelease"

definition effective_off_output_color :: "output_power_state \<Rightarrow> color" where
  "effective_off_output_color p =
     (case output_override p of
        OverridePaused \<Rightarrow> manual_off_color p | OverrideStopped \<Rightarrow> (0, 0, 0) | NoOverride \<Rightarrow> off_color p)"

definition effective_brightness :: "output_power_state \<Rightarrow> f32" where
  "effective_brightness p =
     (if sleeping p then Fin 0
      else f32_clamp (f32_mul (global_brightness p) (session_brightness p)) (Fin 0) (Fin 1))"

datatype output_reconnect_scope = ReconnectAll | ReconnectNetwork

datatype session_output =
    OutPaused
  | OutResumed
  | OutSessionChanged session_event
  | OutDeviceSettingsChanged
  | OutBrightnessChanged u8 u8
  | OutFullReconnectScan
  | OutHostResumeScan
  | OutReleaseDevices
  | OutReleaseNetworkDevices
  | OutScheduleReconnect output_reconnect_scope
  | OutStaticSnapshot color
  | OutClearFrameTimings
  | OutRenderPause
  | OutRenderResume
  | OutSaveRuntimeSession

datatype power_transition_kind = TransUnchanged | TransPaused | TransResumed

definition power_transition :: "output_power_state \<Rightarrow> output_power_state \<Rightarrow> power_transition_kind" where
  "power_transition previous current =
     (if output_override current = OverrideStopped then TransUnchanged
      else if \<not> sleeping previous \<and> sleeping current then TransPaused
      else if sleeping previous \<and> \<not> sleeping current then TransResumed
      else TransUnchanged)"

fun publish_power_transition :: "power_transition_kind \<Rightarrow> session_output list" where
  "publish_power_transition TransPaused = [OutPaused]"
| "publish_power_transition TransResumed = [OutResumed]"
| "publish_power_transition TransUnchanged = []"

text \<open>\<^verbatim>\<open>(brightness.clamp(0.0, 1.0) * 100.0).round() as u8\<close>: half away from zero, NaN to 0.\<close>

definition brightness_percent :: "f32 \<Rightarrow> u8" where
  "brightness_percent b =
     (case f32_mul (f32_clamp b (Fin 0) (Fin 1)) (Fin 100) of
        Fin q \<Rightarrow> of_int (min 255 (max 0 \<lfloor>q + 1 / 2\<rfloor>)) | Inf neg \<Rightarrow> if neg then 0 else 255 | NaN \<Rightarrow> 0)"

section \<open>Updates of the power state\<close>

definition update_for_generation ::
  "u64 \<Rightarrow> (output_power_state \<Rightarrow> output_power_state) \<Rightarrow> output_power_state \<Rightarrow> output_power_state \<times> bool" where
  "update_for_generation generation upd p =
     (if transition_generation p = generation then (upd p, True) else (p, False))"

definition update_with_events_for_generation ::
  "u64 \<Rightarrow> (output_power_state \<Rightarrow> output_power_state) \<Rightarrow> output_power_state
     \<Rightarrow> output_power_state \<times> bool \<times> session_output list" where
  "update_with_events_for_generation generation upd p =
     (if transition_generation p = generation
      then (upd p, True, publish_power_transition (power_transition p (upd p)))
      else (p, False, []))"

definition update_state_with_events ::
  "(output_power_state \<Rightarrow> output_power_state) \<Rightarrow> output_power_state
     \<Rightarrow> output_power_state \<times> session_output list" where
  "update_state_with_events upd p = (upd p, publish_power_transition (power_transition p (upd p)))"

definition begin_session_transition :: "output_power_state \<Rightarrow> output_power_state \<times> u64" where
  "begin_session_transition p =
     (let g = transition_generation p + 1 in (p\<lparr>transition_generation := g\<rparr>, g))"

definition clear_session_sleep ::
  "u64 \<Rightarrow> output_power_state \<Rightarrow> output_power_state \<times> bool \<times> session_output list" where
  "clear_session_sleep generation =
     update_with_events_for_generation generation (\<lambda>p. p\<lparr>session_sleeping := False\<rparr>)"

definition pause_for_session ::
  "u64 \<Rightarrow> off_output_behavior \<Rightarrow> color \<Rightarrow> output_power_state
     \<Rightarrow> output_power_state \<times> bool \<times> session_output list" where
  "pause_for_session generation output_behavior static_color =
     update_with_events_for_generation generation
       (\<lambda>p. p\<lparr>session_brightness := Fin 0, session_sleeping := True,
             off_behavior := output_behavior, off_color := static_color\<rparr>)"

definition set_manual_pause ::
  "bool \<Rightarrow> color \<Rightarrow> output_power_state \<Rightarrow> output_power_state \<times> session_output list" where
  "set_manual_pause paused static_color =
     update_state_with_events
       (\<lambda>p. let q = p\<lparr>transition_generation := transition_generation p + 1,
                      output_override := (if paused then OverridePaused else NoOverride),
                      manual_off_color := static_color\<rparr>
            in if \<not> paused then q\<lparr>session_sleeping := False, session_brightness := Fin 1\<rparr> else q)"

definition restore_manual_pause :: "color \<Rightarrow> output_power_state \<Rightarrow> output_power_state" where
  "restore_manual_pause static_color p =
     p\<lparr>output_override := OverridePaused, manual_off_color := static_color\<rparr>"

definition restore_output_stopped :: "output_power_state \<Rightarrow> output_power_state" where
  "restore_output_stopped p = p\<lparr>output_override := OverrideStopped\<rparr>"

definition set_output_stopped :: "output_power_state \<Rightarrow> output_power_state \<times> session_output list" where
  "set_output_stopped =
     update_state_with_events
       (\<lambda>p. p\<lparr>transition_generation := transition_generation p + 1, output_override := OverrideStopped\<rparr>)"

definition clear_output_override :: "output_power_state \<Rightarrow> output_power_state \<times> session_output list" where
  "clear_output_override =
     update_state_with_events
       (\<lambda>p. p\<lparr>transition_generation := transition_generation p + 1, output_override := NoOverride,
             session_sleeping := False, session_brightness := Fin 1\<rparr>)"

text \<open>
  \<^verbatim>\<open>set_brightness_observed\<close>: \<open>admitted\<close> says that the settings store took the value; on an
  error nothing is published and the live value stays.
\<close>

definition set_brightness_observed ::
  "bool \<Rightarrow> f32 \<Rightarrow> output_power_state \<Rightarrow> output_power_state \<times> session_output list" where
  "set_brightness_observed admitted b p =
     (if \<not> admitted then (p, [])
      else (p\<lparr>global_brightness := b\<rparr>,
            [OutDeviceSettingsChanged,
             OutBrightnessChanged (brightness_percent (global_brightness p)) (brightness_percent b)]))"

definition set_global_brightness ::
  "bool \<Rightarrow> f32 \<Rightarrow> output_power_state \<Rightarrow> output_power_state \<times> session_output list" where
  "set_global_brightness admitted b = set_brightness_observed admitted (f32_clamp b (Fin 0) (Fin 1))"

record portable_output =
  po_brightness :: f32
  po_enabled :: bool
  po_paused :: bool

definition prepare_portable_output :: "portable_output \<Rightarrow> output_power_state \<Rightarrow> bool" where
  "prepare_portable_output expected p \<longleftrightarrow>
     \<not> (\<not> (global_brightness p = po_brightness expected \<and> global_brightness p \<noteq> NaN)
        \<or> manually_paused p \<noteq> po_paused expected
        \<or> (output_override p \<noteq> OverrideStopped) \<noteq> po_enabled expected)"

definition publish_portable_output ::
  "portable_output \<Rightarrow> output_power_state \<Rightarrow> output_power_state \<times> session_output list" where
  "publish_portable_output desired previous =
     (let (p, outs) = update_state_with_events
            (\<lambda>p. p\<lparr>global_brightness := po_brightness desired,
                  output_override :=
                    (if \<not> po_enabled desired then OverrideStopped
                     else if po_paused desired then OverridePaused else NoOverride),
                  transition_generation := transition_generation p + 1\<rparr>) previous
      in (p, outs @ (if global_brightness previous = po_brightness desired \<and> po_brightness desired \<noteq> NaN
                     then []
                     else [OutBrightnessChanged (brightness_percent (global_brightness previous))
                             (brightness_percent (po_brightness desired))])))"

section \<open>Transition tasks\<close>

definition FADE_STEP_MS :: nat where "FADE_STEP_MS = 16"

text \<open>\<^verbatim>\<open>u16::try_from((fade_ms / FADE_STEP_MS).max(1)).unwrap_or(u16::MAX)\<close>.\<close>

definition fade_steps :: "u64 \<Rightarrow> u16" where
  "fade_steps fade_ms =
     (let n = max (unat fade_ms div FADE_STEP_MS) 1 in if n < 2 ^ 16 then word_of_nat n else 65535)"

text \<open>The brightness set at a step of a fade.\<close>

definition fade_brightness :: "f32 \<Rightarrow> f32 \<Rightarrow> u16 \<Rightarrow> nat \<Rightarrow> f32" where
  "fade_brightness start target steps step =
     (let progress = f32_div (Fin (of_nat step)) (Fin (of_nat (unat steps)))
      in f32_add start (f32_mul (f32_sub target start) progress))"

datatype task_phase =
    EnsureAwake \<comment> \<open>the snapshot of \<^verbatim>\<open>ensure_awake\<close>\<close>
  | WakeSnapshot session_event \<comment> \<open>the snapshot of a restore\<close>
  | FullReconnectScan
  | HostResumeScan
  | ClearSleep
  | FadeStart \<comment> \<open>the snapshot of \<^verbatim>\<open>fade_session_to\<close>\<close>
  | FadeStep f32 nat
  | FadeEnd
  | PauseOutput
  | ReleaseCheck
  | ReleaseDevices

record transition_task =
  tt_generation :: u64
  tt_phase :: task_phase
  tt_target :: f32
  tt_fade_ms :: u64
  tt_off :: "(off_output_behavior \<times> color) option" \<comment> \<open>what follows the fade of an \<open>Off\<close> action\<close>

abbreviation at_phase :: "transition_task \<Rightarrow> task_phase \<Rightarrow> transition_task option" where
  "at_phase t ph \<equiv> Some (t\<lparr>tt_phase := ph\<rparr>)"

type_synonym task_result = "output_power_state \<times> transition_task option \<times> session_output list"

text \<open>The snapshot of \<^verbatim>\<open>ensure_awake\<close> decides whether there is a sleep to end first.\<close>

definition ensure_awake_step :: "output_power_state \<Rightarrow> transition_task \<Rightarrow> task_result" where
  "ensure_awake_step p t =
     (if \<not> session_sleeping p
      then (p, if transition_generation p = tt_generation t then at_phase t FadeStart else None, [])
      else (p, at_phase t (if session_release_active p then FullReconnectScan else ClearSleep), []))"

definition wake_snapshot_step ::
  "session_event \<Rightarrow> output_power_state \<Rightarrow> transition_task \<Rightarrow> task_result" where
  "wake_snapshot_step event p t =
     (p, at_phase t (if session_release_active p then FullReconnectScan
                     else if event = HostResumed then HostResumeScan else ClearSleep), [])"

definition clear_sleep_step :: "output_power_state \<Rightarrow> transition_task \<Rightarrow> task_result" where
  "clear_sleep_step p t =
     (let (p', applied, outs) = clear_session_sleep (tt_generation t) p
      in (p', if applied then at_phase t FadeStart else None, outs))"

definition fade_target :: "transition_task \<Rightarrow> f32" where
  "fade_target t = f32_clamp (tt_target t) (Fin 0) (Fin 1)"

definition F32_EPSILON :: rat where "F32_EPSILON = 1 / 8388608"

definition fade_start_step :: "output_power_state \<Rightarrow> transition_task \<Rightarrow> task_result" where
  "fade_start_step p t =
     (let start = session_brightness p
      in (p, at_phase t
               (if tt_fade_ms t = 0 \<or> f64_le (f32_abs (f32_sub start (fade_target t))) (Fin F32_EPSILON)
                then FadeEnd else FadeStep start 1), []))"

definition fade_step_step ::
  "f32 \<Rightarrow> nat \<Rightarrow> output_power_state \<Rightarrow> transition_task \<Rightarrow> task_result" where
  "fade_step_step start step p t =
     (let steps = fade_steps (tt_fade_ms t);
          (p', applied) = update_for_generation (tt_generation t)
            (\<lambda>p. p\<lparr>session_brightness := fade_brightness start (fade_target t) steps step\<rparr>) p
      in (p', if \<not> applied then None
              else at_phase t (if step < unat steps then FadeStep start (step + 1) else FadeEnd), []))"

definition fade_end_step :: "output_power_state \<Rightarrow> transition_task \<Rightarrow> task_result" where
  "fade_end_step p t =
     (let (p', applied) = update_for_generation (tt_generation t)
            (\<lambda>p. p\<lparr>session_brightness := fade_target t\<rparr>) p
      in (p', if applied \<and> tt_off t \<noteq> None then at_phase t PauseOutput else None, []))"

definition pause_output_step :: "output_power_state \<Rightarrow> transition_task \<Rightarrow> task_result" where
  "pause_output_step p t =
     (case tt_off t of
        None \<Rightarrow> (p, None, [])
      | Some (output_behavior, static_color) \<Rightarrow>
          (let (p', applied, outs) = pause_for_session (tt_generation t) output_behavior static_color p
           in (p', if applied then at_phase t ReleaseCheck else None, outs)))"

definition release_check_step :: "output_power_state \<Rightarrow> transition_task \<Rightarrow> task_result" where
  "release_check_step p t = (p, if session_release_active p then at_phase t ReleaseDevices else None, [])"

definition task_step :: "output_power_state \<Rightarrow> transition_task \<Rightarrow> task_result" where
  "task_step p t =
     (case tt_phase t of
        EnsureAwake \<Rightarrow> ensure_awake_step p t
      | WakeSnapshot event \<Rightarrow> wake_snapshot_step event p t
      | FullReconnectScan \<Rightarrow> (p, at_phase t ClearSleep, [OutFullReconnectScan])
      | HostResumeScan \<Rightarrow> (p, at_phase t ClearSleep, [OutHostResumeScan])
      | ClearSleep \<Rightarrow> clear_sleep_step p t
      | FadeStart \<Rightarrow> fade_start_step p t
      | FadeStep start step \<Rightarrow> fade_step_step start step p t
      | FadeEnd \<Rightarrow> fade_end_step p t
      | PauseOutput \<Rightarrow> pause_output_step p t
      | ReleaseCheck \<Rightarrow> release_check_step p t
      | ReleaseDevices \<Rightarrow> (p, None, [OutReleaseDevices]))"

section \<open>The session loop\<close>

text \<open>Scene actions are announced as unimplemented and spawn nothing.\<close>

fun spawn_sleep_transition ::
  "sleep_act \<Rightarrow> output_power_state \<Rightarrow> output_power_state \<times> transition_task option" where
  "spawn_sleep_transition SleepIgnore p = (p, None)"
| "spawn_sleep_transition (SleepDim level fade_ms) p =
     (let (p', g) = begin_session_transition p
      in (p', Some \<lparr>tt_generation = g, tt_phase = EnsureAwake, tt_target = level,
                    tt_fade_ms = fade_ms, tt_off = None\<rparr>))"
| "spawn_sleep_transition (SleepOff fade_ms output_behavior static_color) p =
     (let (p', g) = begin_session_transition p
      in (p', Some \<lparr>tt_generation = g, tt_phase = EnsureAwake, tt_target = Fin 0,
                    tt_fade_ms = fade_ms, tt_off = Some (output_behavior, static_color)\<rparr>))"
| "spawn_sleep_transition (SleepScene scene_name fade_ms) p = (p, None)"

fun spawn_wake_transition ::
  "wake_act \<Rightarrow> session_event \<Rightarrow> output_power_state \<Rightarrow> output_power_state \<times> transition_task option" where
  "spawn_wake_transition (WakeRestore fade_ms) event p =
     (let (p', g) = begin_session_transition p
      in (p', Some \<lparr>tt_generation = g, tt_phase = WakeSnapshot event, tt_target = Fin 1,
                    tt_fade_ms = fade_ms, tt_off = None\<rparr>))"
| "spawn_wake_transition (WakeScene scene_name fade_ms) event p = (p, None)"

record session_system =
  ss_power :: output_power_state
  ss_task :: "transition_task option"
  ss_config :: session_config

text \<open>
  The body of \<^verbatim>\<open>run_session_loop\<close> for one received event: the running task is cancelled before
  the policy is asked.
\<close>

definition handle_session_event ::
  "session_event \<Rightarrow> session_system \<Rightarrow> session_system \<times> session_output list" where
  "handle_session_event event s =
     (if \<not> sc_enabled (ss_config s) then (s, [OutSessionChanged event])
      else
        (let (p, task) =
           (case sleep_action (ss_config s) event of
              Some action \<Rightarrow> spawn_sleep_transition action (ss_power s)
            | None \<Rightarrow>
                (case wake_action (ss_config s) event of
                   Some action \<Rightarrow> spawn_wake_transition action event (ss_power s)
                 | None \<Rightarrow> (ss_power s, None)))
         in (s\<lparr>ss_power := p, ss_task := task\<rparr>, [OutSessionChanged event])))"

section \<open>Power operations of the user\<close>

definition released_output_reconnect_scope :: "output_power_state \<Rightarrow> output_reconnect_scope option" where
  "released_output_reconnect_scope previous =
     (if session_release_active previous then Some ReconnectAll
      else if output_override previous = OverrideStopped then Some ReconnectNetwork
      else None)"

definition schedule_released_output_reconnect :: "output_power_state \<Rightarrow> session_output list" where
  "schedule_released_output_reconnect previous =
     (case released_output_reconnect_scope previous of
        Some scope \<Rightarrow> [OutScheduleReconnect scope] | None \<Rightarrow> [])"

datatype output_power_mode = ModePaused | ModeRunning

fun set_power :: "output_power_mode \<Rightarrow> output_power_state \<Rightarrow> output_power_state \<times> session_output list" where
  "set_power ModePaused previous =
     (let (p, outs) = set_manual_pause True (0, 0, 0) previous
      in (p, outs @ schedule_released_output_reconnect previous
             @ [OutStaticSnapshot (0, 0, 0), OutClearFrameTimings, OutRenderPause, OutSaveRuntimeSession]))"
| "set_power ModeRunning previous =
     (let (p, outs) = clear_output_override previous
      in (p, outs @ [OutRenderResume] @ schedule_released_output_reconnect previous
             @ [OutSaveRuntimeSession]))"

definition observed_power :: "output_power_state \<Rightarrow> output_power_mode" where
  "observed_power p = (if sleeping p then ModePaused else ModeRunning)"

definition quiesce_after_effect_stop :: "output_power_state \<Rightarrow> output_power_state \<times> session_output list" where
  "quiesce_after_effect_stop p =
     (let (p', outs) = set_output_stopped p
      in (p', [OutRenderPause] @ outs
              @ [OutReleaseNetworkDevices, OutStaticSnapshot (0, 0, 0), OutClearFrameTimings]))"

definition reconcile_static_hold :: "output_power_state \<Rightarrow> session_output list" where
  "reconcile_static_hold p =
     (if \<not> sleeping p \<or> effective_off_output_behavior p \<noteq> OffStatic then []
      else [OutStaticSnapshot (effective_off_output_color p)])"

text \<open>
  \<^verbatim>\<open>patch_output\<close>: an empty patch and a brightness outside the unit interval are refused with
  nothing changed; a brightness the settings store refuses ends the patch before the power mode is
  looked at.
\<close>

datatype output_error = EmptyPatch | BrightnessOutOfRange | PersistFailed

definition set_brightness ::
  "bool \<Rightarrow> f32 \<Rightarrow> output_power_state \<Rightarrow> output_error + (output_power_state \<times> session_output list)" where
  "set_brightness admitted b p =
     (if \<not> (f64_le (Fin 0) b \<and> f64_le b (Fin 1)) then Inl BrightnessOutOfRange
      else if \<not> admitted then Inl PersistFailed
      else Inr (set_global_brightness admitted b p))"

definition patch_output ::
  "bool \<Rightarrow> output_power_mode option \<Rightarrow> f32 option \<Rightarrow> output_power_state
     \<Rightarrow> output_error + (output_power_state \<times> session_output list)" where
  "patch_output admitted mode level p =
     (if mode = None \<and> level = None then Inl EmptyPatch
      else
        (case (case level of Some b \<Rightarrow> set_brightness admitted b p | None \<Rightarrow> Inr (p, [])) of
           Inl e \<Rightarrow> Inl e
         | Inr (p', outs) \<Rightarrow>
             (case mode of
                None \<Rightarrow> Inr (p', outs)
              | Some m \<Rightarrow> (let (p'', outs') = set_power m p' in Inr (p'', outs @ outs')))))"

text \<open>The end of a portable restore: publication, then the render loop follows the power state.\<close>

definition commit_portable_output ::
  "portable_output \<Rightarrow> output_power_state \<Rightarrow> output_power_state \<times> session_output list" where
  "commit_portable_output desired previous =
     (let (p, outs) = publish_portable_output desired previous
      in (p, outs @ [if sleeping p then OutRenderPause else OutRenderResume]))"

datatype output_op =
    OpSetPower output_power_mode
  | OpManualPause bool color
  | OpStop
  | OpBrightness bool f32
  | OpPortable portable_output portable_output

fun output_op_step :: "output_op \<Rightarrow> output_power_state \<Rightarrow> output_power_state \<times> session_output list" where
  "output_op_step (OpSetPower m) p = set_power m p"
| "output_op_step (OpManualPause paused c) p = set_manual_pause paused c p"
| "output_op_step OpStop p = quiesce_after_effect_stop p"
| "output_op_step (OpBrightness admitted b) p =
     (case set_brightness admitted b p of Inl e \<Rightarrow> (p, []) | Inr r \<Rightarrow> r)"
| "output_op_step (OpPortable expected desired) p =
     (if prepare_portable_output expected p then commit_portable_output desired p else (p, []))"

section \<open>Interleavings\<close>

datatype session_label =
    LEvent session_event
  | LTask
  | LOp output_op
  | LConfig session_config

inductive session_trans ::
  "session_system \<Rightarrow> session_label \<Rightarrow> session_output list \<Rightarrow> session_system \<Rightarrow> bool" where
  st_event: "handle_session_event e s = (s', outs) \<Longrightarrow> session_trans s (LEvent e) outs s'"
| st_task: "ss_task s = Some t \<Longrightarrow> task_step (ss_power s) t = (p, task, outs) \<Longrightarrow>
     session_trans s LTask outs (s\<lparr>ss_power := p, ss_task := task\<rparr>)"
| st_op: "output_op_step op (ss_power s) = (p, outs) \<Longrightarrow>
     session_trans s (LOp op) outs (s\<lparr>ss_power := p\<rparr>)"
| st_config: "session_trans s (LConfig c) [] (s\<lparr>ss_config := c\<rparr>)"

inductive session_run ::
  "session_system \<Rightarrow> (session_label \<times> session_output list) list \<Rightarrow> session_system \<Rightarrow> bool" where
  sr_nil: "session_run s [] s"
| sr_cons: "session_trans s l outs s' \<Longrightarrow> session_run s' tr s'' \<Longrightarrow> session_run s ((l, outs) # tr) s''"

inductive_cases session_trans_eventE: "session_trans s (LEvent e) outs s'"
inductive_cases session_trans_taskE: "session_trans s LTask outs s'"
inductive_cases session_trans_opE: "session_trans s (LOp op) outs s'"
inductive_cases session_trans_configE: "session_trans s (LConfig c) outs s'"
inductive_cases session_run_nilE: "session_run s [] s'"
inductive_cases session_run_consE: "session_run s (x # tr) s'"

inductive_simps session_trans_event: "session_trans s (LEvent e) outs s'"
inductive_simps session_trans_task: "session_trans s LTask outs s'"
inductive_simps session_trans_op: "session_trans s (LOp op) outs s'"
inductive_simps session_trans_config: "session_trans s (LConfig c) outs s'"

text \<open>The power state a daemon starts from: the stored brightness and the latch of its last run.\<close>

definition startup_power :: "f32 \<Rightarrow> bool \<Rightarrow> bool \<Rightarrow> output_power_state" where
  "startup_power stored output_stopped was_paused =
     (let p = output_power_new stored
      in if output_stopped then restore_output_stopped p
         else if was_paused then restore_manual_pause (0, 0, 0) p else p)"

definition startup_system :: "f32 \<Rightarrow> bool \<Rightarrow> bool \<Rightarrow> session_config \<Rightarrow> session_system" where
  "startup_system stored output_stopped was_paused c =
     \<lparr>ss_power = startup_power stored output_stopped was_paused, ss_task = None, ss_config = c\<rparr>"

end
