(* ===== verification/Session_Tasks.thy ===== *)
theory Session_Tasks
  imports Session
begin

text \<open>
  The two ends of a session transition: which monitor events reach the session loop, as changes of
  level per source, and where a transition task ends when nothing else runs. \<open>run_task\<close> executes
  a task to its end; its termination measure bounds the number of phases by the steps of the fade
  and eight.
\<close>

section \<open>Deduplication forwards changes of level\<close>

datatype event_source = SrcLock | SrcActivity | SrcSuspend | SrcIdle | SrcLid

fun source_of :: "session_event \<Rightarrow> event_source" where
  "source_of ScreenLocked = SrcLock"
| "source_of ScreenUnlocked = SrcLock"
| "source_of SessionInactive = SrcActivity"
| "source_of SessionActive = SrcActivity"
| "source_of Suspending = SrcSuspend"
| "source_of HostResumed = SrcSuspend"
| "source_of (IdleEntered d) = SrcIdle"
| "source_of IdleExited = SrcIdle"
| "source_of LidClosed = SrcLid"
| "source_of LidOpened = SrcLid"

fun level_of :: "session_event \<Rightarrow> bool" where
  "level_of ScreenLocked = True"
| "level_of SessionInactive = True"
| "level_of Suspending = True"
| "level_of (IdleEntered d) = True"
| "level_of LidClosed = True"
| "level_of _ = False"

text \<open>The level a source reported last, low before its first event.\<close>

definition level_after :: "session_event list \<Rightarrow> event_source \<Rightarrow> bool" where
  "level_after es src = fold (\<lambda>e l. if source_of e = src then level_of e else l) es False"

fun dedup_level :: "dedup_state \<Rightarrow> event_source \<Rightarrow> bool" where
  "dedup_level d SrcLock = dd_screen_locked d"
| "dedup_level d SrcActivity = dd_session_inactive d"
| "dedup_level d SrcSuspend = dd_suspended d"
| "dedup_level d SrcIdle = dd_idle d"
| "dedup_level d SrcLid = dd_lid_closed d"

lemma should_forward_level:
  assumes "should_forward e d = (sent, d')"
  shows "sent \<longleftrightarrow> level_of e \<noteq> dedup_level d (source_of e)"
    and "dedup_level d' src = (if source_of e = src then level_of e else dedup_level d src)"
  using assms by (cases e; cases src; auto split: if_splits)+

lemma forward_events_changes:
  assumes "\<And>src. dedup_level d src = level_after seen src"
  shows "forward_events d es =
    map snd (filter (\<lambda>(past, e). level_of e \<noteq> level_after past (source_of e))
      (map (\<lambda>i. (seen @ take i es, es ! i)) [0..<length es]))"
  using assms
proof (induction es arbitrary: d seen)
  case (Cons e es)
  obtain sent d' where step: "should_forward e d = (sent, d')" by force
  have "dedup_level d' src = level_after (seen @ [e]) src" for src
    using should_forward_level(2) [OF step, of src] Cons.prems by (simp add: level_after_def)
  from Cons.IH [OF this]
  have "forward_events d' es =
    map snd (filter (\<lambda>(past, e). level_of e \<noteq> level_after past (source_of e))
      (map (\<lambda>i. (seen @ take i (e # es), (e # es) ! i)) (map Suc [0..<length es])))"
    by (simp add: comp_def)
  then show ?case
    using should_forward_level(1) [OF step] Cons.prems step
    by (simp add: upt_conv_Cons map_Suc_upt del: upt_Suc)
qed simp

lemma idle_repeats_dropped: "dd_idle d \<Longrightarrow> forward_events d (map IdleEntered ds) = []"
  by (induction ds) simp_all

text \<open>
  The forwarder sends an event exactly when it changes the level its source (lock, session
  activity, suspend, idle, lid) reported last; all other events are dropped and the order is kept.
  In particular a longer idle duration reported before the user returns is dropped: with the
  default thresholds, an idle period announced after 120 to 600 seconds dims the output once and
  never turns it off, whatever is reported later in it.
\<close>

lemma dedup_forwards_level_changes:
  "forward_events default_dedup es =
     map snd (filter (\<lambda>(past, e). level_of e \<noteq> level_after past (source_of e))
       (map (\<lambda>i. (take i es, es ! i)) [0..<length es]))
   \<and> map (sleep_action default_session_config)
       (forward_events default_dedup
          (IdleEntered ((120 + extra mod 480) * 1000000000) # map IdleEntered ds))
     = [Some (SleepDim IDLE_DIM_BRIGHTNESS IDLE_DIM_FADE_MS)]"
proof
  have "dedup_level default_dedup src = level_after [] src" for src
    by (cases src) (simp_all add: default_dedup_def level_after_def)
  from forward_events_changes [OF this, of es]
  show "forward_events default_dedup es =
     map snd (filter (\<lambda>(past, e). level_of e \<noteq> level_after past (source_of e))
       (map (\<lambda>i. (take i es, es ! i)) [0..<length es]))" by simp
  have "extra mod 480 < 480" by simp
  then have "\<not> 600 \<le> 120 + extra mod 480" by linarith
  then show "map (sleep_action default_session_config)
       (forward_events default_dedup
          (IdleEntered ((120 + extra mod 480) * 1000000000) # map IdleEntered ds))
     = [Some (SleepDim IDLE_DIM_BRIGHTNESS IDLE_DIM_FADE_MS)]"
    by (simp add: default_dedup_def idle_repeats_dropped default_session_config_def as_secs_def)
qed

section \<open>Completion of a transition\<close>

definition task_rank :: "transition_task \<Rightarrow> nat" where
  "task_rank t =
     (let n = unat (fade_steps (tt_fade_ms t))
      in case tt_phase t of
           EnsureAwake \<Rightarrow> n + 8
         | WakeSnapshot e \<Rightarrow> n + 8
         | FullReconnectScan \<Rightarrow> n + 7
         | HostResumeScan \<Rightarrow> n + 7
         | ClearSleep \<Rightarrow> n + 6
         | FadeStart \<Rightarrow> n + 5
         | FadeStep start k \<Rightarrow> 5 + (n - k)
         | FadeEnd \<Rightarrow> 4
         | PauseOutput \<Rightarrow> 3
         | ReleaseCheck \<Rightarrow> 2
         | ReleaseDevices \<Rightarrow> 1)"

lemmas task_step_defs = task_step_def ensure_awake_step_def wake_snapshot_step_def clear_sleep_step_def
  fade_start_step_def fade_step_step_def fade_end_step_def pause_output_step_def release_check_step_def
  clear_session_sleep_def pause_for_session_def update_for_generation_def
  update_with_events_for_generation_def

lemma fade_steps_pos: "0 < unat (fade_steps ms)"
  by (simp add: fade_steps_def Let_def unat_of_nat less_max_iff_disj)

lemma task_step_rank: "task_step p t = (p', Some t', outs) \<Longrightarrow> task_rank t' < task_rank t"
  using fade_steps_pos [of "tt_fade_ms t"]
  by (cases "tt_phase t") (auto simp: task_step_defs task_rank_def Let_def split: if_splits option.splits)

function run_task :: "output_power_state \<Rightarrow> transition_task \<Rightarrow> output_power_state \<times> session_output list" where
  "run_task p t =
     (case task_step p t of
        (p', None, outs) \<Rightarrow> (p', outs)
      | (p', Some t', outs) \<Rightarrow> (let (p'', outs') = run_task p' t' in (p'', outs @ outs')))"
  by pat_completeness auto
termination by (relation "measure (\<lambda>(p, t). task_rank t)") (auto dest: task_step_rank [OF sym])


declare run_task.simps [simp del]

lemma run_task_step:
  "task_step p t = (p', None, outs) \<Longrightarrow> run_task p t = (p', outs)"
  "task_step p t = (p', Some t', []) \<Longrightarrow> run_task p t = run_task p' t'"
  "task_step p t = (p', Some t', outs) \<Longrightarrow>
     run_task p t = (fst (run_task p' t'), outs @ snd (run_task p' t'))"
  by (simp_all add: run_task.simps [of p t] split_beta)

abbreviation settle :: "output_power_state \<Rightarrow> transition_task \<Rightarrow> output_power_state \<times> session_output list" where
  "settle p t \<equiv> run_task p (t\<lparr>tt_phase := FadeEnd\<rparr>)"

lemma settle_overwrites:
  assumes "transition_generation p = tt_generation t"
  shows "settle (p\<lparr>session_brightness := b\<rparr>) t = settle p t"
  using assms
  by (simp add: run_task.simps [of p "t\<lparr>tt_phase := FadeEnd\<rparr>"]
      run_task.simps [of "p\<lparr>session_brightness := b\<rparr>" "t\<lparr>tt_phase := FadeEnd\<rparr>"]
      task_step_def fade_end_step_def update_for_generation_def)

lemma fade_steps_settle:
  assumes "transition_generation p = tt_generation t"
  shows "run_task p (t\<lparr>tt_phase := FadeStep start k\<rparr>) = settle p t"
  using assms
proof (induction "unat (fade_steps (tt_fade_ms t)) - k" arbitrary: p k)
  case 0
  let ?p = "p\<lparr>session_brightness := fade_brightness start (fade_target t) (fade_steps (tt_fade_ms t)) k\<rparr>"
  have "run_task p (t\<lparr>tt_phase := FadeStep start k\<rparr>) = settle ?p t"
    using 0 by (intro run_task_step(2)) (simp add: task_step_def fade_step_step_def update_for_generation_def
        fade_target_def)
  also have "\<dots> = settle p t" using 0(2) by (rule settle_overwrites)
  finally show ?case .
next
  case (Suc n)
  let ?p = "p\<lparr>session_brightness := fade_brightness start (fade_target t) (fade_steps (tt_fade_ms t)) k\<rparr>"
  have "task_step p (t\<lparr>tt_phase := FadeStep start k\<rparr>) = (?p, Some (t\<lparr>tt_phase := FadeStep start (k + 1)\<rparr>), [])"
    using Suc.hyps(2) Suc.prems
    by (simp add: task_step_def fade_step_step_def update_for_generation_def fade_target_def Let_def)
  then have "run_task p (t\<lparr>tt_phase := FadeStep start k\<rparr>) = run_task ?p (t\<lparr>tt_phase := FadeStep start (k + 1)\<rparr>)"
    by (rule run_task_step(2))
  also have "\<dots> = settle ?p t" using Suc by (intro Suc.hyps(1)) simp_all
  also have "\<dots> = settle p t" using Suc.prems by (rule settle_overwrites)
  finally show ?case .
qed

lemma fade_settle:
  assumes "transition_generation p = tt_generation t"
  shows "run_task p (t\<lparr>tt_phase := FadeStart\<rparr>) = settle p t"
  using fade_steps_settle [OF assms, of "session_brightness p" 1]
    run_task_step(2) [of p "t\<lparr>tt_phase := FadeStart\<rparr>" p]
  by (simp add: task_step_def fade_start_step_def fade_target_def Let_def split: if_splits)

lemma clear_sleep_settle:
  assumes "transition_generation p = tt_generation t"
  shows "run_task p (t\<lparr>tt_phase := ClearSleep\<rparr>) =
    (fst (settle (p\<lparr>session_sleeping := False\<rparr>) t),
     (if session_sleeping p \<and> output_override p = NoOverride then [OutResumed] else [])
       @ snd (settle (p\<lparr>session_sleeping := False\<rparr>) t))"
proof -
  let ?p = "p\<lparr>session_sleeping := False\<rparr>"
  have "publish_power_transition (power_transition p ?p) =
      (if session_sleeping p \<and> output_override p = NoOverride then [OutResumed] else [])"
    by (cases "output_override p") (auto simp: power_transition_def sleeping_def)
  then have "task_step p (t\<lparr>tt_phase := ClearSleep\<rparr>) =
      (?p, Some (t\<lparr>tt_phase := FadeStart\<rparr>),
       if session_sleeping p \<and> output_override p = NoOverride then [OutResumed] else [])"
    using assms by (simp add: task_step_def clear_sleep_step_def clear_session_sleep_def
        update_with_events_for_generation_def)
  from run_task_step(3) [OF this] fade_settle [of ?p t] assms show ?thesis by simp
qed

text \<open>What a transition says on its way to the fade, when nothing else runs.\<close>

definition wake_outputs :: "output_power_state \<Rightarrow> session_output list" where
  "wake_outputs p = (if session_sleeping p \<and> output_override p = NoOverride then [OutResumed] else [])"

lemma ensure_awake_settle:
  assumes "transition_generation p = tt_generation t"
  shows "run_task p (t\<lparr>tt_phase := EnsureAwake\<rparr>) =
    (fst (settle (p\<lparr>session_sleeping := False\<rparr>) t),
     (if session_release_active p then [OutFullReconnectScan] else []) @ wake_outputs p
       @ snd (settle (p\<lparr>session_sleeping := False\<rparr>) t))"
proof -
  consider "\<not> session_sleeping p" | "session_release_active p"
    | "session_sleeping p" "\<not> session_release_active p" by (auto simp: session_release_active_def)
  then show ?thesis
  proof cases
    case 1
    then have "p\<lparr>session_sleeping := False\<rparr> = p" by (simp add: output_power_state.equality)
    then have "settle (p\<lparr>session_sleeping := False\<rparr>) t = settle p t" by (rule arg_cong)
    with 1 show ?thesis using assms fade_settle [of p t]
        run_task_step(2) [of p "t\<lparr>tt_phase := EnsureAwake\<rparr>" p "t\<lparr>tt_phase := FadeStart\<rparr>"]
      by (simp add: task_step_def ensure_awake_step_def wake_outputs_def session_release_active_def)
  next
    case 2
    then have "session_sleeping p" by (simp add: session_release_active_def)
    with 2 show ?thesis using clear_sleep_settle [OF assms]
        run_task_step(2) [of p "t\<lparr>tt_phase := EnsureAwake\<rparr>" p "t\<lparr>tt_phase := FullReconnectScan\<rparr>"]
        run_task_step(3) [of p "t\<lparr>tt_phase := FullReconnectScan\<rparr>" p "t\<lparr>tt_phase := ClearSleep\<rparr>" "[OutFullReconnectScan]"]
      by (simp add: task_step_def ensure_awake_step_def wake_outputs_def)
  next
    case 3
    then show ?thesis using clear_sleep_settle [OF assms]
        run_task_step(2) [of p "t\<lparr>tt_phase := EnsureAwake\<rparr>" p "t\<lparr>tt_phase := ClearSleep\<rparr>"]
      by (simp add: task_step_def ensure_awake_step_def wake_outputs_def)
  qed
qed

lemma wake_snapshot_settle:
  assumes "transition_generation p = tt_generation t"
  shows "run_task p (t\<lparr>tt_phase := WakeSnapshot e\<rparr>) =
    (fst (settle (p\<lparr>session_sleeping := False\<rparr>) t),
     (if session_release_active p then [OutFullReconnectScan]
      else if e = HostResumed then [OutHostResumeScan] else []) @ wake_outputs p
       @ snd (settle (p\<lparr>session_sleeping := False\<rparr>) t))"
  using clear_sleep_settle [OF assms]
    run_task_step(2) [of p "t\<lparr>tt_phase := WakeSnapshot e\<rparr>" p]
    run_task_step(3) [of p "t\<lparr>tt_phase := FullReconnectScan\<rparr>" p "t\<lparr>tt_phase := ClearSleep\<rparr>" "[OutFullReconnectScan]"]
    run_task_step(3) [of p "t\<lparr>tt_phase := HostResumeScan\<rparr>" p "t\<lparr>tt_phase := ClearSleep\<rparr>" "[OutHostResumeScan]"]
  by (auto simp: task_step_def wake_snapshot_step_def wake_outputs_def)

lemma settle_plain:
  assumes "transition_generation p = tt_generation t" "tt_off t = None"
  shows "settle p t = (p\<lparr>session_brightness := fade_target t\<rparr>, [])"
  using assms by (intro run_task_step(1)) (simp add: task_step_def fade_end_step_def update_for_generation_def fade_target_def)

lemma settle_off:
  assumes g: "transition_generation p = tt_generation t" and off: "tt_off t = Some (beh, col)"
    and awake: "\<not> session_sleeping p"
  shows "settle p t =
    (p\<lparr>session_brightness := Fin 0, session_sleeping := True, off_behavior := beh, off_color := col\<rparr>,
     if output_override p = NoOverride
     then OutPaused # (if beh = OffRelease then [OutReleaseDevices] else []) else [])"
proof -
  let ?q = "p\<lparr>session_brightness := Fin 0, session_sleeping := True, off_behavior := beh, off_color := col\<rparr>"
  let ?outs = "if output_override p = NoOverride then [OutPaused] else []"
  have "publish_power_transition (power_transition (p\<lparr>session_brightness := b\<rparr>) ?q) = ?outs" for b
    using awake by (cases "output_override p") (auto simp: power_transition_def sleeping_def)
  then have pause: "task_step (p\<lparr>session_brightness := fade_target t\<rparr>) (t\<lparr>tt_phase := PauseOutput\<rparr>) =
      (?q, Some (t\<lparr>tt_phase := ReleaseCheck\<rparr>), ?outs)"
    using g off by (simp add: task_step_def pause_output_step_def pause_for_session_def
        update_with_events_for_generation_def)
  have "settle p t = run_task (p\<lparr>session_brightness := fade_target t\<rparr>) (t\<lparr>tt_phase := PauseOutput\<rparr>)"
    using g off by (intro run_task_step(2)) (simp add: task_step_def fade_end_step_def update_for_generation_def fade_target_def)
  also have "\<dots> = (fst (run_task ?q (t\<lparr>tt_phase := ReleaseCheck\<rparr>)), ?outs @ snd (run_task ?q (t\<lparr>tt_phase := ReleaseCheck\<rparr>)))"
    by (rule run_task_step(3) [OF pause])
  also have "run_task ?q (t\<lparr>tt_phase := ReleaseCheck\<rparr>) =
      (?q, if output_override p = NoOverride \<and> beh = OffRelease then [OutReleaseDevices] else [])"
    using run_task_step(1) [of ?q "t\<lparr>tt_phase := ReleaseDevices\<rparr>" ?q "[OutReleaseDevices]"]
    by (auto simp add: run_task.simps [of ?q "t\<lparr>tt_phase := ReleaseCheck\<rparr>"]
        task_step_def release_check_step_def session_release_active_def)
  finally show ?thesis by simp
qed

text \<open>C33: Left alone, every transition task ends, and ends where its action says. From any power
  state, the task of an \<open>Off\<close> action of any fade length leaves the session asleep at brightness 0
  with the configured hold behaviour and colour; the task of a \<open>Dim\<close> action leaves it awake at the
  clamped level; the task of a restore leaves it awake at full brightness. Nothing else of the
  power state changes but the generation. The outputs are exactly: the reconnect or resume scan
  that a released or resuming host needs, \<open>Resumed\<close> if a sleep ended, \<open>Paused\<close> if a sleep began,
  and the release of the devices when the behaviour is to release them; under a user override
  neither power event nor release is emitted.
\<close>

theorem session_transition_completes:
  "(let (p1, task) = spawn_sleep_transition (SleepOff ms beh col) p
    in run_task p1 (the task) =
      (p1\<lparr>session_brightness := Fin 0, session_sleeping := True, off_behavior := beh, off_color := col\<rparr>,
       (if session_release_active p then [OutFullReconnectScan] else []) @ wake_outputs p
       @ (if output_override p = NoOverride
          then OutPaused # (if beh = OffRelease then [OutReleaseDevices] else []) else [])))
   \<and> (let (p1, task) = spawn_sleep_transition (SleepDim level ms) p
      in run_task p1 (the task) =
        (p1\<lparr>session_brightness := f32_clamp level (Fin 0) (Fin 1), session_sleeping := False\<rparr>,
         (if session_release_active p then [OutFullReconnectScan] else []) @ wake_outputs p))
   \<and> (let (p1, task) = spawn_wake_transition (WakeRestore ms) event p
      in run_task p1 (the task) =
        (p1\<lparr>session_brightness := Fin 1, session_sleeping := False\<rparr>,
         (if session_release_active p then [OutFullReconnectScan]
          else if event = HostResumed then [OutHostResumeScan] else []) @ wake_outputs p))"
proof (intro conjI)
  define q where "q = fst (begin_session_transition p)"
  define g where "g = transition_generation q"
  have q: "begin_session_transition p = (q, g)" "session_release_active q = session_release_active p"
    "wake_outputs q = wake_outputs p" "output_override q = output_override p"
    by (simp_all add: q_def g_def begin_session_transition_def Let_def session_release_active_def wake_outputs_def)
  let ?t = "\<lambda>ph target off. \<lparr>tt_generation = g, tt_phase = ph, tt_target = target, tt_fade_ms = ms, tt_off = off\<rparr>"
  show "let (p1, task) = spawn_sleep_transition (SleepOff ms beh col) p
    in run_task p1 (the task) =
      (p1\<lparr>session_brightness := Fin 0, session_sleeping := True, off_behavior := beh, off_color := col\<rparr>,
       (if session_release_active p then [OutFullReconnectScan] else []) @ wake_outputs p
       @ (if output_override p = NoOverride
          then OutPaused # (if beh = OffRelease then [OutReleaseDevices] else []) else []))"
    using ensure_awake_settle [of q "?t EnsureAwake (Fin 0) (Some (beh, col))"]
      settle_off [of "q\<lparr>session_sleeping := False\<rparr>" "?t EnsureAwake (Fin 0) (Some (beh, col))" beh col]
    by (simp add: q g_def)
  show "let (p1, task) = spawn_sleep_transition (SleepDim level ms) p
      in run_task p1 (the task) =
        (p1\<lparr>session_brightness := f32_clamp level (Fin 0) (Fin 1), session_sleeping := False\<rparr>,
         (if session_release_active p then [OutFullReconnectScan] else []) @ wake_outputs p)"
    using ensure_awake_settle [of q "?t EnsureAwake level None"]
      settle_plain [of "q\<lparr>session_sleeping := False\<rparr>" "?t EnsureAwake level None"]
    by (simp add: q g_def fade_target_def)
  show "let (p1, task) = spawn_wake_transition (WakeRestore ms) event p
      in run_task p1 (the task) =
        (p1\<lparr>session_brightness := Fin 1, session_sleeping := False\<rparr>,
         (if session_release_active p then [OutFullReconnectScan]
          else if event = HostResumed then [OutHostResumeScan] else []) @ wake_outputs p)"
    using wake_snapshot_settle [of q "?t (WakeSnapshot event) (Fin 1) None" event]
      settle_plain [of "q\<lparr>session_sleeping := False\<rparr>" "?t (WakeSnapshot event) (Fin 1) None"]
    by (simp add: q g_def fade_target_def f32_clamp_def)
qed

lemma run_task_is_run:
  assumes "ss_task s = Some t"
  shows "\<exists>tr. session_run s tr (s\<lparr>ss_power := fst (run_task (ss_power s) t), ss_task := None\<rparr>)
    \<and> set (map fst tr) \<subseteq> {LTask} \<and> length tr \<le> task_rank t
    \<and> concat (map snd tr) = snd (run_task (ss_power s) t)"
  using assms
proof (induction "task_rank t" arbitrary: s t rule: less_induct)
  case less
  obtain p task outs where step: "task_step (ss_power s) t = (p, task, outs)" by (metis prod_cases3)
  let ?s = "s\<lparr>ss_power := p, ss_task := task\<rparr>"
  have tr: "session_trans s LTask outs ?s" using less.prems step by (rule st_task)
  show ?case
  proof (cases task)
    case None
    have "0 < task_rank t" by (simp add: task_rank_def Let_def split: task_phase.splits)
    then have "session_run s [(LTask, outs)] ?s \<and> set (map fst [(LTask, outs)]) \<subseteq> {LTask}
      \<and> length [(LTask, outs)] \<le> task_rank t \<and> concat (map snd [(LTask, outs)]) = outs"
      using tr by (auto intro: session_run.intros)
    then show ?thesis using step None by (intro exI [of _ "[(LTask, outs)]"]) (simp add: run_task_step(1))
  next
    case (Some t')
    then have rank: "task_rank t' < task_rank t" using step by (intro task_step_rank) simp
    obtain tr' where "session_run ?s tr' (?s\<lparr>ss_power := fst (run_task p t'), ss_task := None\<rparr>)"
      "set (map fst tr') \<subseteq> {LTask}" "length tr' \<le> task_rank t'" "concat (map snd tr') = snd (run_task p t')"
      using less.hyps [OF rank, of ?s] Some by auto
    then show ?thesis using tr step Some rank
      by (intro exI [of _ "(LTask, outs) # tr'"]) (auto simp: run_task_step(3) intro: session_run.intros)
  qed
qed

end
