(* ===== verification/Session_Props.thy ===== *)
theory Session_Props
  imports Session_Tasks
begin

text \<open>
  Properties of all interleavings of session events, transition tasks, user operations and
  configuration changes: generations fence off superseded tasks, the published power events track
  the power state, brightness stays in the unit interval under binary32 rounding, and a
  transition cancelled by an event without an action leaves the output where it was.
\<close>

section \<open>Invariants of runs\<close>

text \<open>What every step with an allowed label keeps, every run of such steps keeps.\<close>

locale session_invariant =
  fixes inv :: "session_system \<Rightarrow> bool"
    and allowed :: "session_label \<Rightarrow> bool"
  assumes step_keeps: "session_trans s l outs s' \<Longrightarrow> inv s \<Longrightarrow> allowed l \<Longrightarrow> inv s'"
begin

lemma run_keeps: "session_run s tr s' \<Longrightarrow> inv s \<Longrightarrow> \<forall>l \<in> set (map fst tr). allowed l \<Longrightarrow> inv s'"
  by (induction rule: session_run.induct) (auto intro: step_keeps)

end

section \<open>Generations fence off superseded tasks\<close>

lemma task_step_generation:
  assumes "task_step p t = (p', task, outs)"
  shows "transition_generation p' = transition_generation p"
    and "task = Some t' \<Longrightarrow> tt_generation t' = tt_generation t"
  using assms by (cases "tt_phase t"; auto simp: task_step_defs Let_def split: if_splits option.splits)+

fun is_power_event :: "session_output \<Rightarrow> bool" where
  "is_power_event OutPaused = True"
| "is_power_event OutResumed = True"
| "is_power_event _ = False"

lemma stale_task_step:
  assumes "task_step p t = (p', task, outs)" "transition_generation p \<noteq> tt_generation t"
  shows "p' = p" and "filter is_power_event outs = []"
  using assms by (cases "tt_phase t"; auto simp: task_step_defs Let_def split: if_splits option.splits)+

text \<open>The operations that take output over from a running transition.\<close>

fun takes_over :: "output_op \<Rightarrow> bool" where
  "takes_over (OpSetPower m) = True"
| "takes_over (OpManualPause paused c) = True"
| "takes_over OpStop = True"
| "takes_over _ = False"

lemmas output_op_defs = set_manual_pause_def set_output_stopped_def clear_output_override_def
  quiesce_after_effect_stop_def commit_portable_output_def publish_portable_output_def
  set_brightness_def set_global_brightness_def set_brightness_observed_def update_state_with_events_def

lemma set_power_generation:
  "transition_generation (fst (set_power m p)) = transition_generation p + 1"
  by (cases m) (simp_all add: output_op_defs Let_def)

lemma output_op_generation:
  "\<exists>k \<le> 1. transition_generation (fst (output_op_step op p)) = transition_generation p + word_of_nat k
     \<and> (takes_over op \<longrightarrow> k = 1)"
proof (cases op)
  case (OpSetPower m)
  then show ?thesis using set_power_generation [of m p] by (intro exI [of _ 1]) simp
next
  case (OpManualPause paused c)
  then show ?thesis by (intro exI [of _ 1]) (simp add: output_op_defs Let_def)
next
  case OpStop
  then show ?thesis by (intro exI [of _ 1]) (simp add: output_op_defs Let_def)
next
  case (OpBrightness admitted b)
  then show ?thesis by (intro exI [of _ 0]) (simp add: output_op_defs Let_def)
next
  case (OpPortable expected desired)
  then show ?thesis
    by (cases "prepare_portable_output expected p")
      (auto simp: output_op_defs Let_def intro: exI [of _ 0] exI [of _ 1])
qed

text \<open>An event either starts a task of a new generation or leaves the power state alone.\<close>

definition starts :: "transition_task \<Rightarrow> output_power_state \<Rightarrow> output_power_state \<Rightarrow> bool" where
  "starts t p p' \<longleftrightarrow>
     p' = p\<lparr>transition_generation := transition_generation p + 1\<rparr>
     \<and> tt_generation t = transition_generation p'"

lemma spawn_sleep_cases:
  "spawn_sleep_transition a p = (p', task) \<Longrightarrow>
     task = None \<and> p' = p \<or>
     (\<exists>t. task = Some t \<and> starts t p p' \<and> tt_phase t = EnsureAwake
        \<and> (tt_target t = Fin 0 \<or> (\<exists>level ms. a = SleepDim level ms \<and> tt_target t = level)))"
  by (cases a) (auto simp: begin_session_transition_def starts_def Let_def)

lemma spawn_wake_cases:
  "spawn_wake_transition a e p = (p', task) \<Longrightarrow>
     task = None \<and> p' = p \<or>
     (\<exists>t. task = Some t \<and> starts t p p' \<and> tt_phase t = WakeSnapshot e \<and> tt_target t = Fin 1)"
  by (cases a) (auto simp: begin_session_transition_def starts_def Let_def)

lemma handle_event_cases:
  assumes "handle_session_event e s = (s', outs)"
  shows "outs = [OutSessionChanged e]" "ss_config s' = ss_config s"
    and "s' = s \<or> ss_task s' = None \<and> ss_power s' = ss_power s \<or>
      (\<exists>t. ss_task s' = Some t \<and> starts t (ss_power s) (ss_power s')
         \<and> tt_phase t \<in> {EnsureAwake, WakeSnapshot e}
         \<and> (tt_target t \<in> {Fin 0, Fin 1} \<or>
              (\<exists>level ms. sleep_action (ss_config s) e = Some (SleepDim level ms) \<and> tt_target t = level)))"
proof -
  show "outs = [OutSessionChanged e]" "ss_config s' = ss_config s"
    using assms by (auto simp: handle_session_event_def split_beta Let_def split: if_splits)
  consider "\<not> sc_enabled (ss_config s)"
    | a where "sc_enabled (ss_config s)" "sleep_action (ss_config s) e = Some a"
    | a where "sc_enabled (ss_config s)" "sleep_action (ss_config s) e = None" "wake_action (ss_config s) e = Some a"
    | "sc_enabled (ss_config s)" "sleep_action (ss_config s) e = None" "wake_action (ss_config s) e = None"
    by fastforce
  then show "s' = s \<or> ss_task s' = None \<and> ss_power s' = ss_power s \<or>
      (\<exists>t. ss_task s' = Some t \<and> starts t (ss_power s) (ss_power s')
         \<and> tt_phase t \<in> {EnsureAwake, WakeSnapshot e}
         \<and> (tt_target t \<in> {Fin 0, Fin 1} \<or>
              (\<exists>level ms. sleep_action (ss_config s) e = Some (SleepDim level ms) \<and> tt_target t = level)))"
  proof cases
    case (2 a)
    obtain p task where sp: "spawn_sleep_transition a (ss_power s) = (p, task)" by force
    then have "s' = s\<lparr>ss_power := p, ss_task := task\<rparr>" using assms 2 by (simp add: handle_session_event_def)
    then show ?thesis using spawn_sleep_cases [OF sp] 2 by auto
  next
    case (3 a)
    obtain p task where sp: "spawn_wake_transition a e (ss_power s) = (p, task)" by force
    then have "s' = s\<lparr>ss_power := p, ss_task := task\<rparr>" using assms 3 by (simp add: handle_session_event_def)
    then show ?thesis using spawn_wake_cases [OF sp] 3 by auto
  qed (use assms in \<open>auto simp: handle_session_event_def\<close>)
qed

text \<open>How many generations the running task, if any, is behind the power state.\<close>

definition behind :: "nat \<Rightarrow> session_system \<Rightarrow> bool" where
  "behind n s \<longleftrightarrow>
     (case ss_task s of
        None \<Rightarrow> True
      | Some t \<Rightarrow> transition_generation (ss_power s) = tt_generation t + word_of_nat n)"

lemma behind_step:
  assumes "session_trans s l outs s'" "behind n s"
  shows "\<exists>n' \<le> Suc n. behind n' s' \<and> ((\<forall>e. l \<noteq> LEvent e) \<longrightarrow> n \<le> n')
    \<and> ((\<exists>op. l = LOp op \<and> takes_over op) \<longrightarrow> n' = Suc n)"
  using assms
proof cases
  case (st_event e)
  then have "behind 0 s' \<or> behind n s'" using assms(2)
      handle_event_cases(3) [OF st_event(2)] by (auto simp: behind_def starts_def)
  then obtain n' where "n' \<le> n" "behind n' s'" by auto
  then show ?thesis using st_event by (intro exI [of _ n']) simp
next
  case (st_task t p task)
  have "behind n s'"
  proof (cases task)
    case (Some t')
    then have "tt_generation t' = tt_generation t" by (rule task_step_generation(2) [OF st_task(4)])
    then show ?thesis using Some assms(2) st_task task_step_generation(1) [OF st_task(4)]
      by (simp add: behind_def)
  qed (simp add: behind_def st_task(2))
  then show ?thesis using st_task by (intro exI [of _ n]) simp
next
  case (st_op op p)
  obtain k where k: "k \<le> 1" "transition_generation p = transition_generation (ss_power s) + word_of_nat k"
    "takes_over op \<longrightarrow> k = 1"
    using output_op_generation [of op "ss_power s"] st_op by auto
  then have "behind (n + k) s'" using assms(2) st_op by (auto simp: behind_def split: option.splits)
  with k st_op show ?thesis by (intro exI [of _ "n + k"]) auto
next
  case (st_config c)
  then have "behind n s'" using assms(2) by (simp add: behind_def split: option.splits)
  with st_config show ?thesis by (intro exI [of _ n]) simp
qed

lemma behind_run:
  "session_run s tr s' \<Longrightarrow> behind n s \<Longrightarrow> \<exists>n' \<le> n + length tr. behind n' s'"
proof (induction arbitrary: n rule: session_run.induct)
  case (sr_cons s l outs s' tr s'')
  obtain m where "m \<le> Suc n" "behind m s'" using behind_step [OF sr_cons(1,4)] by blast
  with sr_cons.IH [of m] obtain n' where "n' \<le> m + length tr" "behind n' s''" by blast
  with \<open>m \<le> Suc n\<close> show ?case by (intro exI [of _ n']) simp
qed auto


text \<open>The power operations of a list of labels alone, with what they publish.\<close>

fun user_run :: "session_label list \<Rightarrow> output_power_state \<Rightarrow> output_power_state \<times> session_output list" where
  "user_run [] p = (p, [])"
| "user_run (LOp op # ls) p =
     (let (p', outs) = output_op_step op p; (p'', outs') = user_run ls p' in (p'', outs @ outs'))"
| "user_run (l # ls) p = user_run ls p"

lemma superseded_task_is_inert:
  assumes "session_run s tr s'" and "\<forall>e. LEvent e \<notin> set (map fst tr)"
    and "behind n s" "0 < n" "n + length tr < 2 ^ 64"
  shows "ss_power s' = fst (user_run (map fst tr) (ss_power s))
    \<and> filter is_power_event (concat (map snd tr)) =
        filter is_power_event (snd (user_run (map fst tr) (ss_power s)))"
  using assms
proof (induction arbitrary: n rule: session_run.induct)
  case (sr_cons s l outs s' tr s'')
  obtain m where m: "m \<le> Suc n" "behind m s'" "n \<le> m"
    using behind_step [OF sr_cons(1,5)] sr_cons.prems(1) by auto
  have IH: "ss_power s'' = fst (user_run (map fst tr) (ss_power s'))
    \<and> filter is_power_event (concat (map snd tr)) =
        filter is_power_event (snd (user_run (map fst tr) (ss_power s')))"
    using sr_cons.prems m by (intro sr_cons.IH [of m]) auto
  from sr_cons(1) show ?case
  proof cases
    case (st_event e)
    then show ?thesis using sr_cons.prems(1) by auto
  next
    case (st_task t p task)
    have "(word_of_nat n :: u64) \<noteq> 0"
      using sr_cons.prems(3,4) nat_dvd_not_less [of n "2 ^ 64"] by (simp add: word_of_nat_eq_0_iff)
    then have "transition_generation (ss_power s) \<noteq> tt_generation t"
      using sr_cons.prems(2) st_task by (simp add: behind_def)
    from stale_task_step [OF st_task(4) this] IH st_task show ?thesis by simp
  next
    case (st_op op p)
    then show ?thesis using IH by (simp add: split_beta)
  next
    case (st_config c)
    then show ?thesis using IH by simp
  qed
qed simp

lemma session_run_append:
  "session_run s (tr1 @ tr2) s'' \<longleftrightarrow> (\<exists>s'. session_run s tr1 s' \<and> session_run s' tr2 s'')"
proof (induction tr1 arbitrary: s)
  case Nil
  then show ?case by (auto intro: session_run.intros elim: session_run_nilE)
next
  case (Cons x tr1)
  then show ?case
    by (cases x) (fastforce intro: session_run.intros elim: session_run_consE)
qed

text \<open>C31: The user's decision stands. Once the user pauses, resumes or stops the output, a
  transition task that was running at that moment (started by a lock, a lid, a suspend or their
  ends, at any point of its work) has no further effect on the power state and publishes no power
  event, however its remaining steps interleave with what follows: until the next session event,
  the power state and the power events are those of the user's operations alone. The only bound is
  that fewer than \<open>2 ^ 64\<close> steps were taken since the daemon started, after which a generation
  number could come back.
\<close>

theorem user_power_choice_stands:
  assumes "session_run (startup_system stored stopped paused c) (tr1 @ (LOp op, outs) # tr2) s'"
    and "takes_over op" and "\<forall>e. LEvent e \<notin> set (map fst tr2)"
    and "length (tr1 @ (LOp op, outs) # tr2) < 2 ^ 64"
  shows "\<exists>s1. session_run (startup_system stored stopped paused c) tr1 s1
    \<and> (let p = fst (output_op_step op (ss_power s1))
       in ss_power s' = fst (user_run (map fst tr2) p)
        \<and> filter is_power_event (concat (map snd tr2)) =
            filter is_power_event (snd (user_run (map fst tr2) p)))"
proof -
  obtain s1 s2 where s1: "session_run (startup_system stored stopped paused c) tr1 s1"
    and op: "session_trans s1 (LOp op) outs s2" and s2: "session_run s2 tr2 s'"
    using assms(1) unfolding session_run_append by (auto elim: session_run_consE)
  have "behind 0 (startup_system stored stopped paused c)" by (simp add: behind_def startup_system_def)
  then obtain n where n: "n \<le> length tr1" "behind n s1" using behind_run [OF s1] by force
  then have "behind (Suc n) s2" using behind_step [OF op] assms(2) by blast
  then have "ss_power s' = fst (user_run (map fst tr2) (ss_power s2))
    \<and> filter is_power_event (concat (map snd tr2)) =
        filter is_power_event (snd (user_run (map fst tr2) (ss_power s2)))"
    using superseded_task_is_inert [OF s2 assms(3)] n(1) assms(4) by simp
  moreover have "ss_power s2 = fst (output_op_step op (ss_power s1))"
    using op by (auto elim: session_trans_opE)
  ultimately show ?thesis using s1 by (intro exI [of _ s1]) (simp add: Let_def)
qed

section \<open>What observers are told\<close>

text \<open>
  An observer starts from the reported state, follows \<open>Paused\<close> and \<open>Resumed\<close>, and knows of a stop
  of the effects through \<^verbatim>\<open>EffectStopped\<close>, which the code relies on instead of \<open>Paused\<close>.
\<close>

fun follow_event :: "session_output \<Rightarrow> bool \<Rightarrow> bool" where
  "follow_event OutPaused d = True"
| "follow_event OutResumed d = False"
| "follow_event _ d = d"

fun observe :: "session_label \<times> session_output list \<Rightarrow> bool \<Rightarrow> bool" where
  "observe (LOp OpStop, outs) d = True"
| "observe (l, outs) d = fold follow_event outs d"

fun restores_stopped :: "session_label \<Rightarrow> bool" where
  "restores_stopped (LOp (OpPortable expected desired)) \<longleftrightarrow> \<not> po_enabled desired"
| "restores_stopped _ \<longleftrightarrow> False"

lemma published_power_change:
  "output_override q \<noteq> OverrideStopped \<or> sleeping p \<Longrightarrow>
     fold follow_event (publish_power_transition (power_transition p q)) (sleeping p) = sleeping q"
  by (auto simp: power_transition_def sleeping_def)

lemma sleeping_irrelevant:
  "sleeping (p\<lparr>transition_generation := g\<rparr>) = sleeping p"
  "sleeping (p\<lparr>session_brightness := b\<rparr>) = sleeping p"
  "sleeping (p\<lparr>global_brightness := b\<rparr>) = sleeping p"
  by (simp_all add: sleeping_def)

lemma stopped_sleeps: "output_override p = OverrideStopped \<Longrightarrow> sleeping p"
  by (simp add: sleeping_def)

lemma task_step_told:
  assumes "task_step p t = (p', task, outs)"
  shows "fold follow_event outs (sleeping p) = sleeping p'"
  using assms published_power_change [of "p\<lparr>session_sleeping := False\<rparr>" p]
    published_power_change [of "p\<lparr>session_brightness := Fin 0, session_sleeping := True,
      off_behavior := fst (the (tt_off t)), off_color := snd (the (tt_off t))\<rparr>" p] stopped_sleeps [of p]
  by (cases "tt_phase t") (auto simp: task_step_defs sleeping_irrelevant Let_def split: if_splits option.splits)

lemma follow_others: "list_all (\<lambda>x. \<not> is_power_event x) outs \<Longrightarrow> fold follow_event outs d = d"
proof (induction outs arbitrary: d)
  case (Cons x outs)
  then show ?case by (cases x) simp_all
qed simp

lemma reconnect_not_power [simp]:
  "fold follow_event (schedule_released_output_reconnect p) d = d"
  by (rule follow_others) (simp add: schedule_released_output_reconnect_def split: option.splits)

lemma output_op_told:
  assumes "output_op_step op p = (p', outs)" "op \<noteq> OpStop" "\<not> restores_stopped (LOp op)"
  shows "fold follow_event outs (sleeping p) = sleeping p'"
proof (cases op)
  case (OpSetPower m)
  then show ?thesis using assms(1)
    by (cases m) (auto simp: output_op_defs Let_def published_power_change)
next
  case (OpManualPause paused c)
  then show ?thesis using assms(1) by (auto simp: output_op_defs Let_def published_power_change)
next
  case OpStop
  then show ?thesis using assms(2) by simp
next
  case (OpBrightness admitted b)
  then show ?thesis using assms(1) by (auto simp: output_op_defs sleeping_irrelevant Let_def split: if_splits)
next
  case (OpPortable expected desired)
  then show ?thesis using assms
    by (auto simp: output_op_defs Let_def split_beta published_power_change split: if_splits)
qed

lemma trans_told:
  assumes "session_trans s l outs s'" "\<not> restores_stopped l"
  shows "observe (l, outs) (reported_paused (ss_power s)) = reported_paused (ss_power s')"
  using assms(1)
proof cases
  case (st_event e)
  then show ?thesis using handle_event_cases(1,3) [OF st_event(2)]
    by (auto simp: reported_paused_def starts_def sleeping_irrelevant)
next
  case (st_task t p task)
  then show ?thesis using task_step_told by (simp add: reported_paused_def)
next
  case (st_op op p)
  show ?thesis
  proof (cases "op = OpStop")
    case True
    then show ?thesis using st_op by (auto simp: reported_paused_def sleeping_def output_op_defs Let_def)
  next
    case False
    then have "observe (l, outs) d = fold follow_event outs d" for d using st_op by (cases op) simp_all
    then show ?thesis using output_op_told [of op "ss_power s" p outs] False st_op assms(2)
      by (simp add: reported_paused_def)
  qed
next
  case (st_config c)
  then show ?thesis by simp
qed

text \<open>C32: An observer that follows the published \<open>Paused\<close> and \<open>Resumed\<close> events and the stops of the
  effects always knows whether the output is reported as paused, in every interleaving of session
  events, transition tasks, user operations and configuration changes, provided that no portable
  setup is restored with its output disabled: such a restore darkens a running output with neither
  event.
\<close>

theorem power_events_track_state:
  "session_run s tr s' \<Longrightarrow> \<forall>l \<in> set (map fst tr). \<not> restores_stopped l \<Longrightarrow>
     fold observe tr (reported_paused (ss_power s)) = reported_paused (ss_power s')
     \<and> (let (p, outs) = commit_portable_output (desired\<lparr>po_enabled := False\<rparr>) default_output_power
        in reported_paused p \<and> \<not> reported_paused default_output_power \<and> filter is_power_event outs = [])"
proof
  assume "session_run s tr s'" "\<forall>l \<in> set (map fst tr). \<not> restores_stopped l"
  then show "fold observe tr (reported_paused (ss_power s)) = reported_paused (ss_power s')"
    by (induction rule: session_run.induct) (simp_all add: trans_told)
  show "let (p, outs) = commit_portable_output (desired\<lparr>po_enabled := False\<rparr>) default_output_power
        in reported_paused p \<and> \<not> reported_paused default_output_power \<and> filter is_power_event outs = []"
    by (simp add: output_op_defs Let_def power_transition_def reported_paused_def sleeping_def
        default_output_power_def)
qed

section \<open>Brightness stays in the unit interval\<close>

definition unit_f32 :: "f32 \<Rightarrow> bool" where
  "unit_f32 x \<longleftrightarrow> (case x of Fin q \<Rightarrow> 0 \<le> q \<and> q \<le> 1 \<and> rnd32 q = q | _ \<Rightarrow> False)"

definition is_f32 :: "f32 \<Rightarrow> bool" where
  "is_f32 x \<longleftrightarrow> (case x of Fin q \<Rightarrow> rnd32 q = q | _ \<Rightarrow> True)"

lemma rnd32_1 [simp]: "rnd32 1 = 1"
  using rnd32_of_nat [of 1] by simp

lemma rnd32_unit: "0 \<le> q \<Longrightarrow> q \<le> 1 \<Longrightarrow> 0 \<le> rnd32 q \<and> rnd32 q \<le> 1"
  using rnd32_mono [of q 1] by auto

lemma unit_f32_clamp: "is_f32 x \<Longrightarrow> x \<noteq> NaN \<Longrightarrow> unit_f32 (f32_clamp x (Fin 0) (Fin 1))"
  by (cases x) (auto simp: is_f32_def unit_f32_def f32_clamp_def Let_def)

text \<open>
  One step of an upward fade cannot pass 1: the rounded rise exceeds the exact one by at most half
  the spacing below 1, and a sum that close above 1 is rounded back to it.
\<close>

lemma rounded_rise:
  assumes "0 \<le> s" "s \<le> t" "t \<le> 1"
  shows "rnd32 (s + rnd32 (t - s)) \<le> 1"
proof -
  have "s + rnd32 (t - s) \<le> 1 + 1 / 2 ^ 25"
  proof (cases "t - s = 0 \<or> t - s = 1")
    case True
    then show ?thesis using assms by auto
  next
    case False
    let ?d = "t - s"
    from False assms have d: "0 < ?d" "?d < 1" by auto
    have "(2::rat) powi binexp ?d < 2 powi 0" using binexp_bounds(1) [OF d(1)] d(2) by simp
    then have "binexp ?d \<le> - 1" unfolding two_powi_less_iff by simp
    then have "ulp_of 23 (- 126) ?d \<le> 2 powi (- 1 - 23)"
      unfolding ulp_of_def by (intro power_int_increasing) auto
    also have "\<dots> = (1 / 2 ^ 24 :: rat)" by (simp add: power_int_def power_divide)
    finally have "ulp_of 23 (- 126) ?d / 2 \<le> 1 / 2 ^ 25" by simp
    moreover have "\<bar>rnd32 ?d - ?d\<bar> \<le> ulp_of 23 (- 126) ?d / 2"
      using round_pos_near [of 23 "- 126" ?d] d by (simp add: rnd32_def round_to_def)
    ultimately have "\<bar>rnd32 ?d - ?d\<bar> \<le> 1 / 2 ^ 25" by (rule order_trans [rotated])
    then have "rnd32 ?d \<le> ?d + 1 / 2 ^ 25" by linarith
    then show ?thesis using assms(3) by simp
  qed
  then have "rnd32 (s + rnd32 (t - s)) \<le> rnd32 (1 + 1 / 2 ^ 25)" by (rule rnd32_mono)
  also have "\<dots> = of_int 8388608 * 2 powi (0 - 23)"
    by (rule rnd32_eqI) (simp_all add: power_int_def power_divide)
  also have "\<dots> = 1" by (simp add: power_int_def power_divide)
  finally show ?thesis .
qed

lemma interpolation_unit:
  assumes s: "0 \<le> s" "s \<le> 1" "rnd32 s = s" and t: "0 \<le> t" "t \<le> 1" and x: "0 \<le> x" "x \<le> 1"
  defines "r \<equiv> rnd32 (s + rnd32 (rnd32 (t - s) * x))"
  shows "0 \<le> r" "r \<le> 1"
proof -
  let ?d = "rnd32 (t - s)" and ?m = "rnd32 (rnd32 (t - s) * x)"
  have "0 \<le> r \<and> r \<le> 1"
  proof (cases "s \<le> t")
    case True
    then have d: "0 \<le> ?d" by (intro rnd32_nonneg) simp
    then have "?d * x \<le> ?d" using x by (simp add: mult_left_le)
    then have "?m \<le> ?d" using rnd32_mono [of "?d * x" ?d] by simp
    then have "r \<le> rnd32 (s + ?d)" unfolding r_def by (intro rnd32_mono) simp
    moreover have "0 \<le> ?m" using d x by (intro rnd32_nonneg) simp
    ultimately show ?thesis using rounded_rise [OF s(1) True t(2)] s by (auto simp: r_def)
  next
    case False
    then have d: "?d \<le> 0" using rnd32_mono [of "t - s" 0] by simp
    have "rnd32 (- s) \<le> ?d" using t by (intro rnd32_mono) simp
    then have sd: "- s \<le> ?d" using s by simp
    have "?d \<le> ?d * x" using d x mult_left_mono_neg [of x 1 ?d] by simp
    then have "?d \<le> ?m" using rnd32_mono [of ?d "?d * x"] by simp
    moreover have "?m \<le> 0" using d x rnd32_mono [of "?d * x" 0] by (simp add: mult_nonpos_nonneg)
    ultimately have "0 \<le> r" "r \<le> rnd32 s" using sd unfolding r_def by (auto intro!: rnd32_nonneg rnd32_mono)
    then show ?thesis using s by simp
  qed
  then show "0 \<le> r" "r \<le> 1" by simp_all
qed

lemma of_nat_fraction: "a \<le> b \<Longrightarrow> 0 < b \<Longrightarrow> 0 \<le> (of_nat a / of_nat b :: rat) \<and> (of_nat a / of_nat b :: rat) \<le> 1"
  by simp

lemma fade_brightness_unit:
  assumes "unit_f32 start" "unit_f32 target" "step \<le> unat steps" "0 < unat steps"
  shows "unit_f32 (fade_brightness start target steps step)"
proof -
  obtain s t where st: "start = Fin s" "target = Fin t"
    using assms(1,2) by (auto simp: unit_f32_def split: f64.splits)
  let ?q = "of_nat step / of_nat (unat steps) :: rat"
  have q: "0 \<le> ?q" "?q \<le> 1" using of_nat_fraction [OF assms(3,4)] by blast+
  then have x: "f32_of_rat ?q = Fin (rnd32 ?q)" "0 \<le> rnd32 ?q" "rnd32 ?q \<le> 1"
    using rnd32_unit [of ?q] by (simp_all add: f32_of_rat_small)
  have s: "0 \<le> s" "s \<le> 1" "rnd32 s = s" and t: "0 \<le> t" "t \<le> 1"
    using assms(1,2) by (simp_all add: st unit_f32_def)
  have "- 1 \<le> t - s" "t - s \<le> 1" using s t by simp_all
  then have d: "f32_of_rat (t - s) = Fin (rnd32 (t - s))" "- 1 \<le> rnd32 (t - s)" "rnd32 (t - s) \<le> 1"
    using rnd32_mono [of "- 1" "t - s"] rnd32_mono [of "t - s" 1] by (simp_all add: f32_of_rat_small)
  let ?p = "rnd32 (t - s) * rnd32 ?q"
  have "\<bar>?p\<bar> \<le> 1 * 1" unfolding abs_mult using d x by (intro mult_mono) (auto simp: abs_le_iff)
  then have p: "- 1 \<le> ?p" "?p \<le> 1" by (simp_all add: abs_le_iff)
  then have m: "f32_of_rat ?p = Fin (rnd32 ?p)" "- 1 \<le> rnd32 ?p" "rnd32 ?p \<le> 1"
    using rnd32_mono [of "- 1" ?p] rnd32_mono [of ?p 1] by (simp_all add: f32_of_rat_small)
  have "\<bar>s + rnd32 ?p\<bar> \<le> 2" using s m by (simp add: abs_le_iff)
  moreover have "(of_nat (unat steps) :: rat) \<noteq> 0" using assms(4) by (simp only: of_nat_eq_0_iff)
  ultimately have "fade_brightness start target steps step = Fin (rnd32 (s + rnd32 ?p))"
    by (simp only: fade_brightness_def st Let_def f32_div.simps if_False x(1) f32_sub_def f64_neg.simps
        f32_add.simps f32_mul.simps add_uminus_conv_diff d(1) m(1) f32_of_rat_small)
  then show ?thesis using interpolation_unit [OF s t x(2,3)] by (simp add: unit_f32_def)
qed

lemma f32_mul_unit: "unit_f32 a \<Longrightarrow> unit_f32 b \<Longrightarrow> unit_f32 (f32_mul a b)"
proof -
  assume u: "unit_f32 a" "unit_f32 b"
  then obtain x y where xy: "a = Fin x" "b = Fin y" by (auto simp: unit_f32_def split: f64.splits)
  with u have b: "0 \<le> x * y" "x * y \<le> 1" by (simp_all add: unit_f32_def mult_le_one)
  then show ?thesis using rnd32_unit [OF b] by (simp add: xy unit_f32_def f32_of_rat_small)
qed


text \<open>
  Inputs a run may bring in: levels are binary32 numbers, NaN excluded, and the brightness of a
  portable setup is one its validation accepts.
\<close>

definition config_levels_ok :: "session_config \<Rightarrow> bool" where
  "config_levels_ok c \<longleftrightarrow>
     is_f32 (sc_screen_lock_brightness c) \<and> sc_screen_lock_brightness c \<noteq> NaN \<and>
     is_f32 (sc_lid_close_brightness c) \<and> sc_lid_close_brightness c \<noteq> NaN"

fun label_levels_ok :: "session_label \<Rightarrow> bool" where
  "label_levels_ok (LConfig c) \<longleftrightarrow> config_levels_ok c"
| "label_levels_ok (LOp (OpBrightness admitted b)) \<longleftrightarrow> is_f32 b"
| "label_levels_ok (LOp (OpPortable expected desired)) \<longleftrightarrow> unit_f32 (po_brightness desired)"
| "label_levels_ok _ \<longleftrightarrow> True"

definition task_levels_ok :: "transition_task \<Rightarrow> bool" where
  "task_levels_ok t \<longleftrightarrow>
     is_f32 (tt_target t) \<and> tt_target t \<noteq> NaN \<and>
     (case tt_phase t of
        FadeStep start k \<Rightarrow> unit_f32 start \<and> k \<le> unat (fade_steps (tt_fade_ms t)) | _ \<Rightarrow> True)"

definition levels_ok :: "session_system \<Rightarrow> bool" where
  "levels_ok s \<longleftrightarrow>
     unit_f32 (session_brightness (ss_power s)) \<and> unit_f32 (global_brightness (ss_power s)) \<and>
     config_levels_ok (ss_config s) \<and> (case ss_task s of None \<Rightarrow> True | Some t \<Rightarrow> task_levels_ok t)"

lemma unit_f32_ends [simp]: "unit_f32 (Fin 0)" "unit_f32 (Fin 1)"
  by (simp_all add: unit_f32_def)

lemma is_f32_ends [simp]: "is_f32 (Fin 0)" "is_f32 (Fin 1)"
  by (simp_all add: is_f32_def)

lemma fade_target_unit: "task_levels_ok t \<Longrightarrow> unit_f32 (fade_target t)"
  by (simp add: task_levels_ok_def fade_target_def unit_f32_clamp)

lemma task_step_levels:
  assumes "task_step p t = (p', task, outs)" "task_levels_ok t" "unit_f32 (session_brightness p)"
  shows "unit_f32 (session_brightness p')" "global_brightness p' = global_brightness p"
    and "task = Some t' \<Longrightarrow> task_levels_ok t'"
proof -
  note target = fade_target_unit [OF assms(2)] and pos = fade_steps_pos [of "tt_fade_ms t"]
  have fade: "unit_f32 (fade_brightness start (fade_target t) (fade_steps (tt_fade_ms t)) k)"
    if "tt_phase t = FadeStep start k" for start k
    using assms(2) that target pos by (intro fade_brightness_unit) (auto simp: task_levels_ok_def)
  show "unit_f32 (session_brightness p')"
    using assms fade target
    by (cases "tt_phase t") (auto simp: task_step_defs Let_def split: if_splits option.splits)
  show "global_brightness p' = global_brightness p"
    using assms(1) by (cases "tt_phase t") (auto simp: task_step_defs Let_def split: if_splits option.splits)
  show "task_levels_ok t'" if "task = Some t'"
    using assms that pos
    by (cases "tt_phase t") (auto simp: task_step_defs task_levels_ok_def Let_def split: if_splits option.splits)
qed

lemma dim_level_clamped:
  "sleep_action_from_behavior ob oc beh level name ms = SleepDim x ms' \<Longrightarrow> x = f32_clamp level (Fin 0) (Fin 1)"
  by (cases beh) (simp_all add: sleep_action_from_behavior_def split: if_splits)

lemma unit_f32_plain: "unit_f32 x \<Longrightarrow> is_f32 x \<and> x \<noteq> NaN"
  by (cases x) (simp_all add: unit_f32_def is_f32_def)

lemma sleep_dim_level:
  assumes act: "sleep_action c e = Some (SleepDim level ms)" and c: "config_levels_ok c"
  shows "is_f32 level \<and> level \<noteq> NaN"
proof -
  have "level = IDLE_DIM_BRIGHTNESS
      \<or> (\<exists>b \<in> {sc_screen_lock_brightness c, sc_lid_close_brightness c, Fin 0}. level = f32_clamp b (Fin 0) (Fin 1))"
    using act by (cases e) (simp_all split: if_splits, (drule dim_level_clamped, simp)+)
  moreover have "is_f32 IDLE_DIM_BRIGHTNESS \<and> IDLE_DIM_BRIGHTNESS \<noteq> NaN"
    by (simp add: IDLE_DIM_BRIGHTNESS_def f32_of_rat_small is_f32_def)
  moreover have "is_f32 b \<and> b \<noteq> NaN" if "b \<in> {sc_screen_lock_brightness c, sc_lid_close_brightness c, Fin 0}" for b
    using that c by (auto simp: config_levels_ok_def)
  ultimately show ?thesis using unit_f32_plain [OF unit_f32_clamp] by metis
qed

lemma output_op_levels:
  assumes "output_op_step op p = (p', outs)" "label_levels_ok (LOp op)"
    and "unit_f32 (session_brightness p)" "unit_f32 (global_brightness p)"
  shows "unit_f32 (session_brightness p') \<and> unit_f32 (global_brightness p')"
proof (cases op)
  case (OpSetPower m)
  then show ?thesis using assms by (cases m) (auto simp: output_op_defs Let_def)
next
  case (OpBrightness admitted b)
  have "unit_f32 (f32_clamp b (Fin 0) (Fin 1))" if "f64_le (Fin 0) b"
    using that assms(2) OpBrightness by (intro unit_f32_clamp) (auto simp: f64_le_def)
  then show ?thesis using assms OpBrightness by (auto simp: output_op_defs split: if_splits)
qed (use assms in \<open>auto simp: output_op_defs Let_def split_beta split: if_splits\<close>)

lemma levels_ok_step:
  assumes "session_trans s l outs s'" "levels_ok s" "label_levels_ok l"
  shows "levels_ok s'"
  using assms(1)
proof cases
  case (st_event e)
  note ev = handle_event_cases [OF st_event(2)]
  have dim: "is_f32 level \<and> level \<noteq> NaN" if "sleep_action (ss_config s) e = Some (SleepDim level ms)" for level ms
    using sleep_dim_level [OF that] assms(2) by (simp add: levels_ok_def)
  from ev(3) show ?thesis using assms(2) ev(2) dim
    by (auto simp: levels_ok_def starts_def task_levels_ok_def)
next
  case (st_task t p task)
  then have ok: "task_levels_ok t" "unit_f32 (session_brightness (ss_power s))"
    using assms(2) by (simp_all add: levels_ok_def)
  note step = task_step_levels [OF st_task(4) ok]
  have "case task of None \<Rightarrow> True | Some t' \<Rightarrow> task_levels_ok t'" using step(3) by (cases task) auto
  then show ?thesis using assms(2) st_task step(1,2) by (simp add: levels_ok_def)
next
  case (st_op op p)
  then show ?thesis using assms output_op_levels [of op "ss_power s" p outs] by (auto simp: levels_ok_def)
next
  case (st_config c)
  then show ?thesis using assms by (auto simp: levels_ok_def split: option.splits)
qed

interpretation levels: session_invariant levels_ok label_levels_ok
  by unfold_locales (rule levels_ok_step)

text \<open>C34: In every interleaving of session events, transition tasks, user operations and configuration
  changes, from a daemon started with a stored brightness between 0 and 1, the session brightness,
  the global brightness and the brightness the render thread applies are binary32 numbers between
  0 and 1, the intermediate steps of every fade with their rounding included, provided that the
  configured levels are not NaN.
\<close>

theorem brightness_stays_in_unit_interval:
  assumes "session_run (startup_system stored stopped paused c) tr s"
    and "unit_f32 stored" "config_levels_ok c" "\<forall>l \<in> set (map fst tr). label_levels_ok l"
  shows "unit_f32 (session_brightness (ss_power s)) \<and> unit_f32 (global_brightness (ss_power s))
    \<and> unit_f32 (effective_brightness (ss_power s))"
proof -
  have "levels_ok (startup_system stored stopped paused c)"
    using assms(2,3) by (simp add: levels_ok_def startup_system_def startup_power_def output_power_new_def
        default_output_power_def restore_output_stopped_def restore_manual_pause_def Let_def)
  then have ok: "levels_ok s" using levels.run_keeps [OF assms(1)] assms(4) by blast
  then have "unit_f32 (f32_mul (global_brightness (ss_power s)) (session_brightness (ss_power s)))"
    by (intro f32_mul_unit) (simp_all add: levels_ok_def)
  then have "unit_f32 (effective_brightness (ss_power s))"
    using unit_f32_clamp by (auto simp: effective_brightness_def unit_f32_def is_f32_def f32_clamp_def Let_def
        split: f64.splits)
  then show ?thesis using ok by (simp add: levels_ok_def)
qed

section \<open>Events without an action\<close>

lemma session_run_snoc:
  "session_run s tr s' \<Longrightarrow> session_trans s' l outs s'' \<Longrightarrow> session_run s (tr @ [(l, outs)]) s''"
  by (simp add: session_run_append) (blast intro: session_run.intros)

text \<open>The first \<open>k\<close> steps of a fade, undisturbed.\<close>

lemma fade_run:
  assumes "ss_task s = Some (t\<lparr>tt_phase := FadeStep start 1\<rparr>)"
    and "transition_generation (ss_power s) = tt_generation t"
    and "1 \<le> k" "k \<le> unat (fade_steps (tt_fade_ms t))"
  shows "session_run s (replicate k (LTask, []))
    (s\<lparr>ss_power := (ss_power s)\<lparr>session_brightness :=
          fade_brightness start (fade_target t) (fade_steps (tt_fade_ms t)) k\<rparr>,
       ss_task := Some (t\<lparr>tt_phase :=
          (if k < unat (fade_steps (tt_fade_ms t)) then FadeStep start (k + 1) else FadeEnd)\<rparr>)\<rparr>)"
  using assms(3,4)
proof (induction k rule: nat_induct_at_least)
  case base
  have "task_step (ss_power s) (t\<lparr>tt_phase := FadeStep start 1\<rparr>) =
     ((ss_power s)\<lparr>session_brightness := fade_brightness start (fade_target t) (fade_steps (tt_fade_ms t)) 1\<rparr>,
      Some (t\<lparr>tt_phase := (if 1 < unat (fade_steps (tt_fade_ms t)) then FadeStep start (1 + 1) else FadeEnd)\<rparr>), [])"
    using assms(2) by (simp add: task_step_def fade_step_step_def update_for_generation_def fade_target_def Let_def)
  from st_task [OF assms(1) this] show ?case by (auto intro: session_run.intros)
next
  case (Suc k)
  let ?n = "unat (fade_steps (tt_fade_ms t))"
  let ?b = "\<lambda>k. fade_brightness start (fade_target t) (fade_steps (tt_fade_ms t)) k"
  let ?s = "s\<lparr>ss_power := (ss_power s)\<lparr>session_brightness := ?b k\<rparr>,
              ss_task := Some (t\<lparr>tt_phase := FadeStep start (k + 1)\<rparr>)\<rparr>"
  have run: "session_run s (replicate k (LTask, [])) ?s" using Suc by simp
  have "task_step (ss_power ?s) (t\<lparr>tt_phase := FadeStep start (k + 1)\<rparr>) =
     ((ss_power s)\<lparr>session_brightness := ?b (Suc k)\<rparr>,
      Some (t\<lparr>tt_phase := (if Suc k < ?n then FadeStep start (Suc k + 1) else FadeEnd)\<rparr>), [])"
    using assms(2) by (simp add: task_step_def fade_step_step_def update_for_generation_def fade_target_def Let_def)
  from session_run_snoc [OF run st_task [OF _ this]] show ?case
    by (simp add: replicate_append_same [symmetric])
qed

text \<open>With no task and no event or user operation, the power state stays.\<close>

interpretation idle: session_invariant "\<lambda>s. ss_task s = None \<and> ss_power s = p"
    "\<lambda>l. l = LTask \<or> (\<exists>c. l = LConfig c)" for p
  by unfold_locales (auto elim: session_trans_taskE session_trans_configE)

lemma lid_fade_steps: "fade_steps 500 = 31" "unat (fade_steps 500) = 31"
  by (simp_all add: fade_steps_def FADE_STEP_MS_def)

lemma lid_fade_positive:
  assumes "k \<le> 30"
  shows "f64_less (Fin 0) (fade_brightness (Fin 1) (Fin 0) 31 k)"
proof -
  let ?q = "of_nat k / 31 :: rat"
  have "(of_nat k :: rat) \<le> of_nat 30" using assms by (simp only: of_nat_le_iff)
  then have q: "0 \<le> ?q" "?q \<le> 31 / 32" by simp_all
  have "rnd32 (31 / 32) = of_int 16252928 * 2 powi (- 1 - 23)"
    by (rule rnd32_eqI) (simp_all add: power_int_def power_divide)
  then have "rnd32 (31 / 32) = 31 / 32" by (simp add: power_int_def power_divide)
  then have r: "0 \<le> rnd32 ?q" "rnd32 ?q \<le> 31 / 32" using q rnd32_mono [of ?q "31 / 32"] by auto
  have "rnd32 (1 / 32) = of_int 8388608 * 2 powi (- 5 - 23)"
    by (rule rnd32_eqI) (simp_all add: power_int_def power_divide)
  then have "rnd32 (1 / 32) = 1 / 32" by (simp add: power_int_def power_divide)
  then have "1 / 32 \<le> rnd32 (1 - rnd32 ?q)" using r rnd32_mono [of "1 / 32" "1 - rnd32 ?q"] by simp
  moreover have "fade_brightness (Fin 1) (Fin 0) 31 k = Fin (rnd32 (1 - rnd32 ?q))"
    using q r by (simp add: fade_brightness_def f32_sub_def f32_of_rat_small abs_le_iff)
  ultimately show ?thesis by simp
qed

text \<open>Closing the lid with the default configuration, and the first \<open>k\<close> steps of its fade.\<close>

definition lid_started :: output_power_state where
  "lid_started = default_output_power\<lparr>transition_generation := 1\<rparr>"

definition lid_task :: "task_phase \<Rightarrow> transition_task" where
  "lid_task ph = \<lparr>tt_generation = 1, tt_phase = ph, tt_target = Fin 0, tt_fade_ms = 500,
      tt_off = Some (OffStatic, parse_static_color ''#000000'')\<rparr>"

definition lid_system :: "task_phase \<Rightarrow> session_system" where
  "lid_system ph = \<lparr>ss_power = lid_started, ss_task = Some (lid_task ph), ss_config = default_session_config\<rparr>"

lemma lid_event:
  "session_trans (startup_system (Fin 1) False False default_session_config) (LEvent LidClosed)
     [OutSessionChanged LidClosed] (lid_system EnsureAwake)"
  by (rule st_event) (simp add: handle_session_event_def startup_system_def startup_power_def output_power_new_def
      default_session_config_def sleep_action_from_behavior_def begin_session_transition_def
      default_output_power_def lid_system_def lid_started_def lid_task_def)

lemma task_trans:
  "task_step p t = (p', task, outs) \<Longrightarrow>
     session_trans \<lparr>ss_power = p, ss_task = Some t, ss_config = c\<rparr> LTask outs
       \<lparr>ss_power = p', ss_task = task, ss_config = c\<rparr>"
  using st_task [of "\<lparr>ss_power = p, ss_task = Some t, ss_config = c\<rparr>" t p' task outs] by simp

lemma lid_wakes: "session_trans (lid_system EnsureAwake) LTask [] (lid_system FadeStart)"
  unfolding lid_system_def
  by (rule task_trans) (simp add: task_step_def ensure_awake_step_def default_output_power_def lid_task_def lid_started_def)

lemma lid_fade_starts: "session_trans (lid_system FadeStart) LTask [] (lid_system (FadeStep (Fin 1) 1))"
  unfolding lid_system_def
  by (rule task_trans) (simp add: task_step_def fade_start_step_def fade_target_def lid_task_def lid_started_def
      default_output_power_def f32_clamp_def f32_sub_def f32_of_rat_small f64_le_def F32_EPSILON_def Let_def)

lemma lid_fade_run:
  assumes "1 \<le> k" "k \<le> 31"
  obtains s where "session_run (startup_system (Fin 1) False False default_session_config)
      ((LEvent LidClosed, [OutSessionChanged LidClosed]) # replicate (2 + k) (LTask, [])) s"
    and "ss_power s = lid_started\<lparr>session_brightness := fade_brightness (Fin 1) (Fin 0) 31 k\<rparr>"
    and "ss_config s = default_session_config"
proof -
  have t: "fade_target (lid_task ph) = Fin 0" "tt_fade_ms (lid_task ph) = 500"
    "(lid_task ph)\<lparr>tt_phase := ph'\<rparr> = lid_task ph'" "ss_task (lid_system ph) = Some (lid_task ph)"
    "ss_power (lid_system ph) = lid_started" "ss_config (lid_system ph) = default_session_config"
    "transition_generation lid_started = tt_generation (lid_task ph)" for ph ph'
    by (simp_all add: lid_task_def lid_system_def lid_started_def fade_target_def f32_clamp_def)
  obtain s where "session_run (lid_system (FadeStep (Fin 1) 1)) (replicate k (LTask, [])) s"
    "ss_power s = lid_started\<lparr>session_brightness := fade_brightness (Fin 1) (Fin 0) 31 k\<rparr>"
    "ss_config s = default_session_config"
    using fade_run [where s = "lid_system (FadeStep (Fin 1) 1)" and t = "lid_task FadeStart" and start = "Fin 1" and k = k] assms
    by (auto simp: t lid_fade_steps)
  then have "session_run (startup_system (Fin 1) False False default_session_config)
      ((LEvent LidClosed, [OutSessionChanged LidClosed]) # replicate (2 + k) (LTask, [])) s"
    using lid_event lid_wakes lid_fade_starts by (auto intro: session_run.intros)
  then show thesis using that \<open>ss_power s = _\<close> \<open>ss_config s = _\<close> by blast
qed

text \<open>C35: An event whose action is to do nothing still cancels the transition under way. With the
  default configuration, which ignores screen locks, closing the lid starts a fade to black in 31
  steps; if the screen is locked after any \<open>k\<close> of them, the task is gone, the output is neither
  asleep nor back at full brightness but stands at the level of step \<open>k\<close>, above 0 before the last
  step, and no execution changes the power state again until another session event or a user
  operation.
\<close>

theorem ignored_event_strands_fade:
  assumes "1 \<le> k" "k \<le> 31"
  shows "\<exists>s. session_run (startup_system (Fin 1) False False default_session_config)
      ((LEvent LidClosed, [OutSessionChanged LidClosed]) # replicate (2 + k) (LTask, [])
        @ [(LEvent ScreenLocked, [OutSessionChanged ScreenLocked])]) s
    \<and> \<not> sleeping (ss_power s)
    \<and> session_brightness (ss_power s) = fade_brightness (Fin 1) (Fin 0) 31 k
    \<and> (k = 31 \<or> f64_less (Fin 0) (session_brightness (ss_power s)))
    \<and> (\<forall>tr s'. session_run s tr s' \<longrightarrow> (\<forall>l \<in> set (map fst tr). l = LTask \<or> (\<exists>c. l = LConfig c))
          \<longrightarrow> ss_power s' = ss_power s)"
proof -
  let ?b = "fade_brightness (Fin 1) (Fin 0) 31 k"
  obtain s1 where s1: "session_run (startup_system (Fin 1) False False default_session_config)
      ((LEvent LidClosed, [OutSessionChanged LidClosed]) # replicate (2 + k) (LTask, [])) s1"
    "ss_power s1 = lid_started\<lparr>session_brightness := ?b\<rparr>" "ss_config s1 = default_session_config"
    using assms by (rule lid_fade_run)
  let ?s = "s1\<lparr>ss_task := None\<rparr>"
  have "session_trans s1 (LEvent ScreenLocked) [OutSessionChanged ScreenLocked] ?s"
    by (rule st_event) (simp add: handle_session_event_def s1 default_session_config_def sleep_action_from_behavior_def)
  from session_run_snoc [OF s1(1) this]
  have "session_run (startup_system (Fin 1) False False default_session_config)
      ((LEvent LidClosed, [OutSessionChanged LidClosed]) # replicate (2 + k) (LTask, [])
        @ [(LEvent ScreenLocked, [OutSessionChanged ScreenLocked])]) ?s" by simp
  moreover have "\<not> sleeping (ss_power ?s)" "session_brightness (ss_power ?s) = ?b"
    by (simp_all add: s1 sleeping_def lid_started_def default_output_power_def)
  moreover have "k = 31 \<or> f64_less (Fin 0) ?b" using lid_fade_positive [of k] assms by linarith
  moreover have "\<forall>tr s'. session_run ?s tr s' \<longrightarrow> (\<forall>l \<in> set (map fst tr). l = LTask \<or> (\<exists>c. l = LConfig c))
      \<longrightarrow> ss_power s' = ss_power ?s"
    using idle.run_keeps [of ?s _ _ "ss_power ?s"] by auto
  ultimately show ?thesis by (intro exI [of _ ?s]) simp
qed

theorem ignored_event_strands_fade_witness:
  "\<exists>s. session_run (startup_system (Fin 1) False False default_session_config)
      ((LEvent LidClosed, [OutSessionChanged LidClosed]) # replicate 17 (LTask, [])
        @ [(LEvent ScreenLocked, [OutSessionChanged ScreenLocked])]) s
    \<and> \<not> sleeping (ss_power s) \<and> f64_less (Fin 0) (session_brightness (ss_power s))"
  using ignored_event_strands_fade [of 15] by (auto simp del: replicate.simps)

lemma lid_then_pause:
  obtains outs s' where "session_run (startup_system (Fin 1) False False default_session_config)
      ([(LEvent LidClosed, [OutSessionChanged LidClosed])]
        @ (LOp (OpManualPause True (0, 0, 0)), outs) # [(LTask, [])]) s'"
proof -
  obtain p outs where op: "output_op_step (OpManualPause True (0, 0, 0)) lid_started = (p, outs)" by force
  let ?s = "(lid_system EnsureAwake)\<lparr>ss_power := p\<rparr>"
  have "session_trans (lid_system EnsureAwake) (LOp (OpManualPause True (0, 0, 0))) outs ?s"
    using op by (intro st_op) (simp add: lid_system_def)
  moreover have "task_step p (lid_task EnsureAwake) = (p, None, [])"
    using op by (auto simp: task_step_def ensure_awake_step_def lid_task_def lid_started_def default_output_power_def
        output_op_defs Let_def)
  then have "session_trans ?s LTask [] (?s\<lparr>ss_power := p, ss_task := None\<rparr>)"
    by (intro st_task [of _ "lid_task EnsureAwake"]) (simp_all add: lid_system_def)
  ultimately have "session_run (startup_system (Fin 1) False False default_session_config)
      [(LEvent LidClosed, [OutSessionChanged LidClosed]), (LOp (OpManualPause True (0, 0, 0)), outs), (LTask, [])]
      (?s\<lparr>ss_power := p, ss_task := None\<rparr>)" using lid_event by (blast intro: session_run.intros)
  then show thesis using that by simp
qed

theorem user_power_choice_stands_witness:
  "\<exists>outs s'. session_run (startup_system (Fin 1) False False default_session_config)
      ([(LEvent LidClosed, [OutSessionChanged LidClosed])]
        @ (LOp (OpManualPause True (0, 0, 0)), outs) # [(LTask, [])]) s'
    \<and> output_override (ss_power s') = OverridePaused"
proof -
  obtain outs s' where run: "session_run (startup_system (Fin 1) False False default_session_config)
      ([(LEvent LidClosed, [OutSessionChanged LidClosed])]
        @ (LOp (OpManualPause True (0, 0, 0)), outs) # [(LTask, [])]) s'" by (rule lid_then_pause)
  then have "output_override (ss_power s') = OverridePaused"
    using user_power_choice_stands [OF run] by (auto simp: output_op_defs Let_def)
  with run show ?thesis by blast
qed

theorem power_events_track_state_witness:
  "\<exists>s'. session_run (startup_system (Fin 1) False False default_session_config)
      ((LEvent LidClosed, [OutSessionChanged LidClosed]) # replicate 17 (LTask, [])) s'
    \<and> \<not> reported_paused (ss_power s')"
proof -
  obtain s where run: "session_run (startup_system (Fin 1) False False default_session_config)
      ((LEvent LidClosed, [OutSessionChanged LidClosed]) # replicate (2 + 15) (LTask, [])) s"
    by (rule lid_fade_run [of 15]) simp_all
  have "fold observe (replicate n (LTask, [])) d = d" for n d by (induction n) simp_all
  then have "\<not> reported_paused (ss_power s)"
    using power_events_track_state [OF run]
    by (simp add: startup_system_def startup_power_def output_power_new_def default_output_power_def
        reported_paused_def sleeping_def del: replicate.simps)
  with run show ?thesis by (auto simp del: replicate.simps)
qed

theorem brightness_stays_in_unit_interval_witness:
  "\<exists>s'. session_run (startup_system (Fin 1) False False default_session_config)
      ((LEvent LidClosed, [OutSessionChanged LidClosed]) # replicate 17 (LTask, [])) s'
    \<and> unit_f32 (effective_brightness (ss_power s'))"
proof -
  obtain s where run: "session_run (startup_system (Fin 1) False False default_session_config)
      ((LEvent LidClosed, [OutSessionChanged LidClosed]) # replicate (2 + 15) (LTask, [])) s"
    by (rule lid_fade_run [of 15]) simp_all
  have "unit_f32 (effective_brightness (ss_power s))"
    using brightness_stays_in_unit_interval [OF run]
    by (auto simp: config_levels_ok_def default_session_config_def simp del: replicate.simps)
  with run show ?thesis by (auto simp del: replicate.simps)
qed

text \<open>
  Publishing a portable setup starts a new generation, so a fade under way when it is published
  ends there: the session brightness keeps its intermediate value until the next session event or
  user operation.
\<close>

lemma user_run_without_ops:
  "\<forall>l \<in> set ls. l = LTask \<or> (\<exists>c. l = LConfig c) \<Longrightarrow> user_run ls p = (p, [])"
  by (induction ls) auto

lemma portable_restore_strands_fade:
  assumes "session_trans s (LOp (OpPortable expected desired)) outs s'" "session_run s' tr s''"
    and "prepare_portable_output expected (ss_power s)"
    and "ss_task s = Some t" "tt_generation t = transition_generation (ss_power s)"
    and "\<forall>l \<in> set (map fst tr). l = LTask \<or> (\<exists>c. l = LConfig c)" "length tr < 2 ^ 64 - 1"
  shows "session_brightness (ss_power s'') = session_brightness (ss_power s)"
proof -
  have p: "ss_task s' = ss_task s" "transition_generation (ss_power s') = transition_generation (ss_power s) + 1"
    "session_brightness (ss_power s') = session_brightness (ss_power s)"
    using assms(1,3) by (auto elim!: session_trans_opE simp: output_op_defs Let_def split_beta)
  then have "behind 1 s'" using assms(4,5) by (simp add: behind_def)
  moreover have "\<forall>e. LEvent e \<notin> set (map fst tr)" using assms(6) by blast
  ultimately have "ss_power s'' = fst (user_run (map fst tr) (ss_power s'))"
    using superseded_task_is_inert [OF assms(2), of 1] assms(7) by auto
  then show ?thesis using user_run_without_ops [OF assms(6)] p(3) by simp
qed

end
