(* ===== verification/Net_Addr.thy ===== *)
theory Net_Addr
  imports Rust_Str
begin

text \<open>
  Network addresses as the API security layer uses them: \<^verbatim>\<open>std::net::IpAddr\<close> with its parser,
  the address rules and CIDR blocks of \<^verbatim>\<open>hypercolor-daemon/src/api/security.rs\<close>, and what a
  loopback proxy says of its client, \<^verbatim>\<open>api/forwarded.rs\<close>. An address is a word; a header map is
  the list of its entries in order, a value being \<open>None\<close> when it is not readable text
  (\<^verbatim>\<open>to_str\<close> fails). Readable header values are ASCII.
\<close>

unbundle bit_operations_syntax

section \<open>Addresses and their parser\<close>

datatype ip_addr = V4 "32 word" | V6 "128 word"

fun is_loopback :: "ip_addr \<Rightarrow> bool" where
  "is_loopback (V4 a) \<longleftrightarrow> drop_bit 24 a = 127"
| "is_loopback (V6 a) \<longleftrightarrow> a = 1"

fun is_ipv6 :: "ip_addr \<Rightarrow> bool" where
  "is_ipv6 (V4 a) \<longleftrightarrow> False"
| "is_ipv6 (V6 a) \<longleftrightarrow> True"

text \<open>
  The parser of \<^verbatim>\<open>core::net::parser\<close>. A reader returns what it read and the rest, or \<open>None\<close> with
  nothing consumed. \<open>read_digits\<close> takes every digit of the radix and fails past \<open>mx\<close> of them.
\<close>

definition digit_of :: "nat \<Rightarrow> char \<Rightarrow> nat option" where
  "digit_of radix c = (case hex_val c of Some d \<Rightarrow> if d < radix then Some d else None | None \<Rightarrow> None)"

fun read_digits :: "nat \<Rightarrow> nat \<Rightarrow> nat \<Rightarrow> nat \<Rightarrow> string \<Rightarrow> (nat \<times> nat \<times> string) option" where
  "read_digits radix mx n acc [] = Some (acc, n, [])"
| "read_digits radix mx n acc (c # cs) =
     (case digit_of radix c of
        None \<Rightarrow> Some (acc, n, c # cs)
      | Some d \<Rightarrow> if mx < n + 1 then None else read_digits radix mx (n + 1) (acc * radix + d) cs)"

definition read_number :: "nat \<Rightarrow> nat \<Rightarrow> nat \<Rightarrow> bool \<Rightarrow> string \<Rightarrow> (nat \<times> string) option" where
  "read_number radix mx limit allow_zero_prefix s =
     (case read_digits radix mx 0 0 s of
        None \<Rightarrow> None
      | Some (v, n, rest) \<Rightarrow>
          if limit \<le> v then None
          else if n = 0 then None
          else if \<not> allow_zero_prefix \<and> hd s = CHR ''0'' \<and> 1 < n then None
          else Some (v, rest))"

definition read_separator :: "char \<Rightarrow> nat \<Rightarrow> (string \<Rightarrow> ('a \<times> string) option) \<Rightarrow> string \<Rightarrow> ('a \<times> string) option" where
  "read_separator sep i inner s =
     (if 0 < i then (case s of c # cs \<Rightarrow> if c = sep then inner cs else None | [] \<Rightarrow> None) else inner s)"

fun read_octets :: "nat \<Rightarrow> nat \<Rightarrow> string \<Rightarrow> (nat list \<times> string) option" where
  "read_octets 0 i s = Some ([], s)"
| "read_octets (Suc n) i s =
     (case read_separator (CHR ''.'') i (read_number 10 3 256 False) s of
        None \<Rightarrow> None
      | Some (v, rest) \<Rightarrow> map_option (\<lambda>(vs, rest). (v # vs, rest)) (read_octets n (i + 1) rest))"

definition be_digits :: "nat \<Rightarrow> nat list \<Rightarrow> 'a::len word" where
  "be_digits k ds = foldl (\<lambda>acc d. push_bit k acc OR word_of_nat d) 0 ds"

definition read_ipv4 :: "string \<Rightarrow> (32 word \<times> string) option" where
  "read_ipv4 s = map_option (\<lambda>(vs, rest). (be_digits 8 vs, rest)) (read_octets 4 0 s)"

text \<open>
  The groups of an IPv6 address, at most \<open>n\<close> from index \<open>i\<close> on; an embedded IPv4 address takes the
  place of the last two and ends them.
\<close>

fun read_groups :: "nat \<Rightarrow> nat \<Rightarrow> string \<Rightarrow> nat list \<times> bool \<times> string" where
  "read_groups 0 i s = ([], False, s)"
| "read_groups (Suc n) i s =
     (case (if 0 < n then read_separator (CHR '':'') i read_ipv4 s else None) of
        Some (v4, rest) \<Rightarrow> ([unat (drop_bit 16 v4), unat (take_bit 16 v4)], True, rest)
      | None \<Rightarrow>
          (case read_separator (CHR '':'') i (read_number 16 4 65536 True) s of
             None \<Rightarrow> ([], False, s)
           | Some (g, rest) \<Rightarrow>
               (let (gs, v4, rest') = read_groups n (i + 1) rest in (g # gs, v4, rest'))))"

definition read_ipv6 :: "string \<Rightarrow> (128 word \<times> string) option" where
  "read_ipv6 s =
     (let (head, head_v4, rest) = read_groups 8 0 s
      in if length head = 8 then Some (be_digits 16 head, rest)
         else if head_v4 then None
         else (case strip_prefix ''::'' rest of
                 None \<Rightarrow> None
               | Some rest' \<Rightarrow>
                   (let (tail, _, rest'') = read_groups (8 - (length head + 1)) 0 rest'
                    in Some (be_digits 16
                          (head @ replicate (8 - length head - length tail) 0 @ tail), rest''))))"

definition parse_ipv6 :: "string \<Rightarrow> 128 word option" where
  "parse_ipv6 s = (case read_ipv6 s of Some (a, []) \<Rightarrow> Some a | _ \<Rightarrow> None)"

definition parse_ip :: "string \<Rightarrow> ip_addr option" where
  "parse_ip s =
     (case read_ipv4 s of
        Some (a, rest) \<Rightarrow> if rest = [] then Some (V4 a) else None
      | None \<Rightarrow> map_option V6 (parse_ipv6 s))"

text \<open>\<^verbatim>\<open>str::parse::<u8>\<close>: an optional plus sign and at least one digit, no overflow.\<close>

fun decimal_digits :: "nat \<Rightarrow> string \<Rightarrow> nat option" where
  "decimal_digits acc [] = Some acc"
| "decimal_digits acc (c # cs) =
     (case digit_of 10 c of
        None \<Rightarrow> None
      | Some d \<Rightarrow> if 255 < 10 * acc + d then None else decimal_digits (10 * acc + d) cs)"

definition parse_u8 :: "string \<Rightarrow> u8 option" where
  "parse_u8 s =
     (let ds = (case s of [] \<Rightarrow> [] | c # cs \<Rightarrow> if c = CHR ''+'' then cs else s)
      in if ds = [] then None else map_option word_of_nat (decimal_digits 0 ds))"

section \<open>Address rules\<close>

datatype client_address_rule = Exact ip_addr | Cidr ip_addr u8

fun cidr_prefix_valid :: "ip_addr \<Rightarrow> u8 \<Rightarrow> bool" where
  "cidr_prefix_valid (V4 a) prefix \<longleftrightarrow> prefix \<le> 32"
| "cidr_prefix_valid (V6 a) prefix \<longleftrightarrow> prefix \<le> 128"

definition masked_v4 :: "32 word \<Rightarrow> u8 \<Rightarrow> 32 word" where
  "masked_v4 address prefix =
     (let m = (if prefix = 0 then 0 else push_bit (32 - unat prefix) (- 1)) in address AND m)"

definition masked_v6 :: "128 word \<Rightarrow> u8 \<Rightarrow> 128 word" where
  "masked_v6 address prefix =
     (let m = (if prefix = 0 then 0 else push_bit (128 - unat prefix) (- 1)) in address AND m)"

fun cidr_contains :: "ip_addr \<Rightarrow> u8 \<Rightarrow> ip_addr \<Rightarrow> bool" where
  "cidr_contains (V4 network) prefix (V4 client) \<longleftrightarrow> masked_v4 network prefix = masked_v4 client prefix"
| "cidr_contains (V6 network) prefix (V6 client) \<longleftrightarrow> masked_v6 network prefix = masked_v6 client prefix"
| "cidr_contains _ _ _ \<longleftrightarrow> False"

definition parse_rule :: "string \<Rightarrow> client_address_rule option" where
  "parse_rule raw =
     (case split_once (CHR ''/'') raw of
        Some (network, prefix) \<Rightarrow>
          (case parse_ip network of
             None \<Rightarrow> None
           | Some ip \<Rightarrow>
               (case parse_u8 prefix of
                  None \<Rightarrow> None
                | Some n \<Rightarrow> if cidr_prefix_valid ip n then Some (Cidr ip n) else None))
      | None \<Rightarrow> map_option Exact (parse_ip raw))"

fun rule_matches :: "client_address_rule \<Rightarrow> ip_addr \<Rightarrow> bool" where
  "rule_matches (Exact ip) client \<longleftrightarrow> ip = client"
| "rule_matches (Cidr network prefix) client \<longleftrightarrow> cidr_contains network prefix client"

fun rule_network :: "client_address_rule \<Rightarrow> ip_addr" where
  "rule_network (Exact ip) = ip"
| "rule_network (Cidr network prefix) = network"

fun is_loopback_only :: "client_address_rule \<Rightarrow> bool" where
  "is_loopback_only (Exact ip) \<longleftrightarrow> is_loopback ip"
| "is_loopback_only (Cidr (V4 network) prefix) \<longleftrightarrow> 8 \<le> prefix \<and> drop_bit 24 network = 127"
| "is_loopback_only (Cidr (V6 network) prefix) \<longleftrightarrow> prefix = 128 \<and> network = 1"

definition private_network_rules :: "client_address_rule list" where
  "private_network_rules =
     [Cidr (V4 0x0A000000) 8, Cidr (V4 0xAC100000) 12, Cidr (V4 0xC0A80000) 16, Cidr (V4 0xA9FE0000) 16,
      Cidr (V6 0xFC000000000000000000000000000000) 7, Cidr (V6 0xFE800000000000000000000000000000) 10]"

text \<open>
  A block holds exactly the addresses of its family that agree with its network on the leading
  \<open>prefix\<close> bits.
\<close>

lemma cidr_contains_v4:
  assumes "prefix \<le> 32"
  shows "cidr_contains (V4 a) prefix (V4 b) \<longleftrightarrow>
    (\<forall>i < 32. 32 - unat prefix \<le> i \<longrightarrow> bit a i = bit b i)"
proof (cases "prefix = 0")
  case True
  then show ?thesis by (simp add: masked_v4_def)
next
  case False
  then show ?thesis using assms by (auto simp: masked_v4_def bit_eq_iff [of "_ AND _"] bit_simps word_le_nat_alt)
qed

lemma cidr_contains_v6:
  assumes "prefix \<le> 128"
  shows "cidr_contains (V6 a) prefix (V6 b) \<longleftrightarrow>
    (\<forall>i < 128. 128 - unat prefix \<le> i \<longrightarrow> bit a i = bit b i)"
proof (cases "prefix = 0")
  case True
  then show ?thesis by (simp add: masked_v6_def)
next
  case False
  then show ?thesis using assms by (auto simp: masked_v6_def bit_eq_iff [of "_ AND _"] bit_simps word_le_nat_alt)
qed

section \<open>Headers\<close>

type_synonym headers = "(string \<times> string option) list"

definition header_get_all :: "headers \<Rightarrow> string \<Rightarrow> string option list" where
  "header_get_all hs name = map snd (filter (\<lambda>(n, v). n = name) hs)"

definition header_get :: "headers \<Rightarrow> string \<Rightarrow> string option option" where
  "header_get hs name = (case header_get_all hs name of [] \<Rightarrow> None | v # vs \<Rightarrow> Some v)"

text \<open>\<^verbatim>\<open>headers.get(name).and_then(|v| v.to_str().ok())\<close>.\<close>

definition header_text :: "headers \<Rightarrow> string \<Rightarrow> string option" where
  "header_text hs name = (case header_get hs name of Some (Some v) \<Rightarrow> Some v | _ \<Rightarrow> None)"

fun split_on :: "char \<Rightarrow> string \<Rightarrow> string list" where
  "split_on d [] = [[]]"
| "split_on d (c # cs) =
     (if c = d then [] # split_on d cs
      else (case split_on d cs of [] \<Rightarrow> [[c]] | w # ws \<Rightarrow> (c # w) # ws))"

definition strip_suffix :: "string \<Rightarrow> string \<Rightarrow> string option" where
  "strip_suffix suf s = map_option rev (strip_prefix (rev suf) (rev s))"

section \<open>Forwarding headers\<close>

definition FORWARDING_HEADERS :: "string list" where
  "FORWARDING_HEADERS = [''forwarded'', ''x-forwarded-for'', ''x-real-ip'']"

definition forwarding_present :: "headers \<Rightarrow> bool" where
  "forwarding_present hs \<longleftrightarrow> list_ex (\<lambda>name. header_get hs name \<noteq> None) FORWARDING_HEADERS"

definition last_header :: "headers \<Rightarrow> string \<Rightarrow> string option option" where
  "last_header hs name =
     (case header_get_all hs name of [] \<Rightarrow> None | vs \<Rightarrow> Some (last vs))"

definition is_port_suffix :: "string \<Rightarrow> bool" where
  "is_port_suffix rest =
     (case strip_prefix '':'' rest of
        Some port \<Rightarrow> port \<noteq> [] \<and> list_all is_ascii_digit port | None \<Rightarrow> False)"

definition unquoted :: "string \<Rightarrow> string" where
  "unquoted node =
     (case strip_prefix [CHR 0x22] node of
        Some inner \<Rightarrow> (case strip_suffix [CHR 0x22] inner of Some n \<Rightarrow> n | None \<Rightarrow> node)
      | None \<Rightarrow> node)"

definition parse_node :: "string \<Rightarrow> ip_addr option" where
  "parse_node raw =
     (let node = unquoted (trim raw)
      in case parse_ip node of
           Some address \<Rightarrow> Some address
         | None \<Rightarrow>
             (case strip_prefix ''['' node of
                Some bracketed \<Rightarrow>
                  (case split_once (CHR '']'') bracketed of
                     None \<Rightarrow> None
                   | Some (inner, rest) \<Rightarrow>
                       if \<not> (rest = [] \<or> is_port_suffix rest) then None
                       else map_option V6 (parse_ipv6 inner))
              | None \<Rightarrow>
                  (case split_once (CHR '':'') node of
                     None \<Rightarrow> None
                   | Some (address, _) \<Rightarrow>
                       if \<not> is_port_suffix (drop (length address) node) then None
                       else (case parse_ip address of
                               Some (V4 a) \<Rightarrow> Some (V4 a) | _ \<Rightarrow> None))))"

definition last_list_element :: "string \<Rightarrow> string" where
  "last_list_element v = trim (last (split_on (CHR '','') v))"

text \<open>The scan of \<^verbatim>\<open>split_unquoted\<close>; the part under way is kept reversed.\<close>

fun split_unquoted_from :: "char \<Rightarrow> bool \<Rightarrow> bool \<Rightarrow> string \<Rightarrow> string \<Rightarrow> string list option" where
  "split_unquoted_from sep quoted escaped part [] = (if quoted then None else Some [rev part])"
| "split_unquoted_from sep quoted escaped part (c # cs) =
     (if escaped then split_unquoted_from sep quoted False (c # part) cs
      else if quoted \<and> c = CHR 0x5C then split_unquoted_from sep quoted True (c # part) cs
      else if c = CHR 0x22 then split_unquoted_from sep (\<not> quoted) False (c # part) cs
      else if \<not> quoted \<and> c = sep
      then map_option ((#) (rev part)) (split_unquoted_from sep quoted False [] cs)
      else split_unquoted_from sep quoted False (c # part) cs)"

definition split_unquoted :: "string \<Rightarrow> char \<Rightarrow> string list option" where
  "split_unquoted v sep = split_unquoted_from sep False False [] v"

fun forwarded_node :: "string option \<Rightarrow> string list \<Rightarrow> string option option" where
  "forwarded_node node [] = Some node"
| "forwarded_node node (pair # pairs) =
     (if trim pair = [] then forwarded_node node pairs
      else (case split_once (CHR ''='') pair of
              None \<Rightarrow> None
            | Some (key, v) \<Rightarrow>
                if eq_ignore_ascii_case (trim key) ''for''
                then (if node \<noteq> None then None else forwarded_node (Some v) pairs)
                else forwarded_node node pairs))"

definition last_forwarded_for :: "string \<Rightarrow> ip_addr option" where
  "last_forwarded_for v =
     (case split_unquoted v (CHR '','') of
        None \<Rightarrow> None
      | Some elements \<Rightarrow>
          (case split_unquoted (last elements) (CHR '';'') of
             None \<Rightarrow> None
           | Some pairs \<Rightarrow>
               (case forwarded_node None pairs of
                  Some (Some node) \<Rightarrow> parse_node node | _ \<Rightarrow> None)))"

definition nearest_hop_claims :: "headers \<Rightarrow> ip_addr option list" where
  "nearest_hop_claims hs =
     (case last_header hs ''x-forwarded-for'' of
        None \<Rightarrow> [] | Some v \<Rightarrow> [case v of Some v \<Rightarrow> parse_node (last_list_element v) | None \<Rightarrow> None])
   @ (case last_header hs ''x-real-ip'' of
        None \<Rightarrow> [] | Some v \<Rightarrow> [case v of Some v \<Rightarrow> parse_node v | None \<Rightarrow> None])
   @ (case last_header hs ''forwarded'' of
        None \<Rightarrow> [] | Some v \<Rightarrow> [case v of Some v \<Rightarrow> last_forwarded_for v | None \<Rightarrow> None])"

text \<open>
  A forwarding header is present exactly when it makes a claim, so a relayed request always claims
  something.
\<close>

lemma claims_iff_forwarding: "nearest_hop_claims hs \<noteq> [] \<longleftrightarrow> forwarding_present hs"
  by (auto simp: nearest_hop_claims_def forwarding_present_def FORWARDING_HEADERS_def last_header_def header_get_def
      split: list.splits)

text \<open>Neither the order nor the content of other headers matters, nor any entry but the last of each.\<close>

lemma claims_use_last_entries:
  assumes "\<And>name. name \<in> set FORWARDING_HEADERS \<Longrightarrow> last_header hs name = last_header hs' name"
  shows "nearest_hop_claims hs = nearest_hop_claims hs'"
  using assms by (simp add: nearest_hop_claims_def FORWARDING_HEADERS_def)

end
