(* ===== verification/Security.thy ===== *)
theory Security
  imports Net_Addr Ieee "HOL-Library.Finite_Map"
begin

text \<open>
  The security layer of the HTTP API: \<^verbatim>\<open>hypercolor-daemon/src/api/security.rs\<close> with
  \<^verbatim>\<open>host_names.rs\<close>, \<^verbatim>\<open>credential_authority.rs\<close>, \<^verbatim>\<open>is_loopback_origin\<close> of \<^verbatim>\<open>api/mod.rs\<close> and the
  network section of \<^verbatim>\<open>hypercolor-types/src/config/network.rs\<close>.

  \<open>enforce_security\<close> is the middleware: it refuses a request or hands it on with the security
  context it has earned. A request carries what the code reads of it, its extensions included. The
  parsers of URIs and authorities belong to the \<^verbatim>\<open>http\<close> crate and a credential authority to a
  downstream build; both are arguments. \<^verbatim>\<open>ct_eq\<close> is equality, whatever its timing. A grant says
  whether its revocation token is cancelled at the moment of the request. Clock readings are
  arguments. A log of refused hosts is kept as a list.
\<close>

section \<open>Configuration\<close>

datatype network_access_mode = LocalOnly | LanTrusted | LanProtected | CustomMode
datatype network_client_scope = LocalSubnets | PrivateRanges | CustomScope

record network_config =
  nc_access_mode :: network_access_mode
  nc_client_scope :: network_client_scope
  nc_remote_access :: bool
  nc_allow_unauthenticated :: bool
  nc_allowed_clients :: "string list"
  nc_allowed_hosts :: "string list"

definition remote_access_enabled :: "network_config \<Rightarrow> bool" where
  "remote_access_enabled c \<longleftrightarrow>
     nc_remote_access c \<or> nc_access_mode c \<in> {LanTrusted, LanProtected}"

definition unauthenticated_remote_access_allowed :: "network_config \<Rightarrow> bool" where
  "unauthenticated_remote_access_allowed c \<longleftrightarrow>
     (case nc_access_mode c of
        LanTrusted \<Rightarrow> True
      | LanProtected \<Rightarrow> False
      | _ \<Rightarrow> nc_allow_unauthenticated c)"

definition network_bind_requires_auth :: "network_config \<Rightarrow> bool" where
  "network_bind_requires_auth c \<longleftrightarrow>
     (case nc_access_mode c of
        LanTrusted \<Rightarrow> False
      | LanProtected \<Rightarrow> True
      | _ \<Rightarrow> \<not> unauthenticated_remote_access_allowed c)"

section \<open>Contexts and credentials\<close>

datatype access_tier = TierRead | TierControl
datatype protected_control = ProtDenied | ProtGranted
datatype request_locality = FromNetwork | FromLoopback | InProcess

record auth_context =
  ac_security_enabled :: bool
  ac_granted_tier :: "access_tier option"
  ac_protected_control :: protected_control
  ac_locality :: request_locality
  ac_presented_credential :: bool

datatype credential_tier = CredRead | CredControl

record credential_grant =
  cg_tier :: credential_tier
  cg_credential_id :: string
  cg_revoked :: bool

definition clamped_to :: "credential_tier \<Rightarrow> credential_grant \<Rightarrow> credential_grant" where
  "clamped_to cap g =
     g\<lparr>cg_tier := (if cg_tier g = CredControl \<and> cap = CredControl then CredControl else CredRead)\<rparr>"

record credential_authority =
  ca_ceiling :: credential_tier
  ca_authenticate :: "string \<Rightarrow> credential_grant option"

definition unsecured :: auth_context where
  "unsecured = \<lparr>ac_security_enabled = False, ac_granted_tier = None, ac_protected_control = ProtDenied,
     ac_locality = FromNetwork, ac_presented_credential = False\<rparr>"

definition preflight :: auth_context where
  "preflight = \<lparr>ac_security_enabled = True, ac_granted_tier = None, ac_protected_control = ProtDenied,
     ac_locality = FromNetwork, ac_presented_credential = False\<rparr>"

definition anonymous :: auth_context where
  "anonymous = preflight"

definition authenticated :: "access_tier \<Rightarrow> auth_context" where
  "authenticated tier = \<lparr>ac_security_enabled = True, ac_granted_tier = Some tier,
     ac_protected_control = (case tier of TierRead \<Rightarrow> ProtDenied | TierControl \<Rightarrow> ProtGranted),
     ac_locality = FromNetwork, ac_presented_credential = True\<rparr>"

definition authority_grant :: "credential_tier \<Rightarrow> auth_context" where
  "authority_grant tier = \<lparr>ac_security_enabled = True,
     ac_granted_tier = Some (case tier of CredRead \<Rightarrow> TierRead | CredControl \<Rightarrow> TierControl),
     ac_protected_control = ProtDenied, ac_locality = FromNetwork, ac_presented_credential = True\<rparr>"

definition daemon_session :: "bool \<Rightarrow> auth_context" where
  "daemon_session enabled = \<lparr>ac_security_enabled = enabled, ac_granted_tier = Some TierControl,
     ac_protected_control = ProtGranted, ac_locality = FromNetwork, ac_presented_credential = True\<rparr>"

definition with_locality :: "auth_context \<Rightarrow> request_locality \<Rightarrow> auth_context" where
  "with_locality c l = c\<lparr>ac_locality := l\<rparr>"

definition can_control :: "auth_context \<Rightarrow> bool" where
  "can_control c \<longleftrightarrow> \<not> ac_security_enabled c \<or> ac_granted_tier c = Some TierControl"

definition can_protected_control :: "auth_context \<Rightarrow> bool" where
  "can_protected_control c \<longleftrightarrow> ac_protected_control c = ProtGranted"

definition context_is_loopback :: "auth_context \<Rightarrow> bool" where
  "context_is_loopback c \<longleftrightarrow> ac_locality c = FromLoopback"

definition can_read_system_status :: "auth_context \<Rightarrow> bool" where
  "can_read_system_status c \<longleftrightarrow> \<not> ac_security_enabled c \<or> ac_granted_tier c \<noteq> None"

record auth_config =
  au_control_key :: "string option"
  au_read_key :: "string option"

definition normalize_api_key :: "string option \<Rightarrow> string option" where
  "normalize_api_key v = (case v of Some key \<Rightarrow> if trim key = [] then None else Some key | None \<Rightarrow> None)"

definition secret_matches :: "string option \<Rightarrow> string \<Rightarrow> bool" where
  "secret_matches configured presented =
     (case configured of Some c \<Rightarrow> c = presented | None \<Rightarrow> False)"

definition starts_with :: "string \<Rightarrow> string \<Rightarrow> bool" where
  "starts_with s p \<longleftrightarrow> strip_prefix p s \<noteq> None"

definition resolve_token_tier :: "string \<Rightarrow> auth_config \<Rightarrow> access_tier option" where
  "resolve_token_tier token auth =
     (if secret_matches (au_control_key auth) token
      then (if starts_with token ''hc_ak_r_'' then Some TierRead else Some TierControl)
      else if secret_matches (au_read_key auth) token then Some TierRead
      else None)"

definition resolve_environment_key :: "string \<Rightarrow> auth_config \<Rightarrow> (access_tier \<times> string) option" where
  "resolve_environment_key token auth =
     (case resolve_token_tier token auth of
        None \<Rightarrow> None
      | Some tier \<Rightarrow>
          Some (tier, if secret_matches (au_control_key auth) token
                      then ''environment:control'' else ''environment:read''))"

section \<open>Network access policy\<close>

datatype scope_error = NoLocalSubnets | InterfaceError string | CustomScopeEmpty

record network_policy =
  np_allowed_clients :: "client_address_rule list"
  np_invalid_rules :: "string list"
  np_scope_errors :: "scope_error list"
  np_unauthenticated_remote :: bool

definition empty_policy :: network_policy where
  "empty_policy = \<lparr>np_allowed_clients = [], np_invalid_rules = [], np_scope_errors = [],
     np_unauthenticated_remote = False\<rparr>"

text \<open>The listed rules, then those that do not parse; blank entries are skipped.\<close>

definition listed_rules :: "string list \<Rightarrow> client_address_rule list" where
  "listed_rules raws = List.map_filter parse_rule (filter (\<lambda>t. t \<noteq> []) (map trim raws))"

definition unparsed_rules :: "string list \<Rightarrow> string list" where
  "unparsed_rules raws = filter (\<lambda>t. parse_rule t = None) (filter (\<lambda>t. t \<noteq> []) (map trim raws))"

definition from_config_with_local_subnets ::
  "network_config \<Rightarrow> string + client_address_rule list \<Rightarrow> network_policy" where
  "from_config_with_local_subnets c subnets =
     (let managed = remote_access_enabled c \<and> nc_access_mode c \<noteq> CustomMode;
          (scope_rules, scope_errs) =
            (if \<not> managed then ([], [])
             else (case nc_client_scope c of
                     LocalSubnets \<Rightarrow>
                       (case subnets of
                          Inr rules \<Rightarrow> if rules \<noteq> [] then (rules, []) else ([], [NoLocalSubnets])
                        | Inl e \<Rightarrow> ([], [InterfaceError e]))
                   | PrivateRanges \<Rightarrow> (private_network_rules, [])
                   | CustomScope \<Rightarrow> ([], [])));
          allowed = scope_rules @ listed_rules (nc_allowed_clients c);
          invalid = unparsed_rules (nc_allowed_clients c);
          custom_errs = (if managed \<and> nc_client_scope c = CustomScope \<and> allowed = [] \<and> invalid = []
                         then [CustomScopeEmpty] else [])
      in \<lparr>np_allowed_clients = allowed, np_invalid_rules = invalid,
          np_scope_errors = scope_errs @ custom_errs,
          np_unauthenticated_remote = unauthenticated_remote_access_allowed c\<rparr>)"

record remote_client_families =
  rcf_ipv4 :: bool
  rcf_ipv6 :: bool

fun admits_family_of :: "remote_client_families \<Rightarrow> ip_addr \<Rightarrow> bool" where
  "admits_family_of f (V4 a) = rcf_ipv4 f"
| "admits_family_of f (V6 a) = rcf_ipv6 f"

definition policy_open :: "network_policy \<Rightarrow> bool" where
  "policy_open p \<longleftrightarrow> np_allowed_clients p = [] \<and> np_invalid_rules p = [] \<and> np_scope_errors p = []"

definition remote_client_families_of :: "network_policy \<Rightarrow> remote_client_families" where
  "remote_client_families_of p =
     (if policy_open p then \<lparr>rcf_ipv4 = True, rcf_ipv6 = True\<rparr>
      else if np_invalid_rules p \<noteq> [] \<or> np_scope_errors p \<noteq> [] then \<lparr>rcf_ipv4 = False, rcf_ipv6 = False\<rparr>
      else
        (let admits = (\<lambda>ipv6. list_ex (\<lambda>r. \<not> is_loopback_only r \<and> is_ipv6 (rule_network r) = ipv6)
                         (np_allowed_clients p))
         in \<lparr>rcf_ipv4 = admits False, rcf_ipv6 = admits True\<rparr>))"

section \<open>Requests\<close>

datatype http_method = GET | HEAD | OPTIONS | POST | PUT | PATCH | DELETE | OtherMethod string

record request =
  rq_method :: http_method
  rq_path :: string
  rq_query :: "string option"
  rq_authority :: "string option"
  rq_headers :: headers
  rq_peer :: "ip_addr option"
  rq_grant :: "credential_grant option"
  rq_trusted_local :: bool
  rq_session_replay :: bool
  rq_context :: "auth_context option"
  rq_scope :: "string option"

datatype client_origin_kind = Direct ip_addr | ForwardedBy "ip_addr option list"

definition client_origin :: "request \<Rightarrow> client_origin_kind option" where
  "client_origin r =
     (case rq_peer r of
        None \<Rightarrow> None
      | Some peer \<Rightarrow>
          if is_loopback peer \<and> forwarding_present (rq_headers r)
          then Some (ForwardedBy (nearest_hop_claims (rq_headers r)))
          else Some (Direct peer))"

text \<open>The rate-limit key; addresses and the two fixed words print to different texts.\<close>

datatype client_key = KeyIp ip_addr | KeyForwarded | KeyUnknown

definition client_identity :: "request \<Rightarrow> client_key" where
  "client_identity r =
     (case client_origin r of
        Some (Direct ip) \<Rightarrow> KeyIp ip
      | Some (ForwardedBy claims) \<Rightarrow>
          (case List.map_filter id claims of ip # _ \<Rightarrow> KeyIp ip | [] \<Rightarrow> KeyForwarded)
      | None \<Rightarrow> KeyUnknown)"

definition request_is_loopback :: "request \<Rightarrow> bool" where
  "request_is_loopback r = (case client_origin r of Some (Direct ip) \<Rightarrow> is_loopback ip | _ \<Rightarrow> False)"

definition request_is_relayed :: "request \<Rightarrow> bool" where
  "request_is_relayed r = (case client_origin r of Some (ForwardedBy claims) \<Rightarrow> True | _ \<Rightarrow> False)"

datatype operation_class = OpRead | OpWrite | OpDiscovery | OpPairing

record rate_decision =
  rd_allowed :: bool
  rd_limit :: nat
  rd_remaining :: nat
  rd_reset_epoch_secs :: nat
  rd_retry_after_secs :: nat

datatype security_error =
    InvalidApiKey
  | MissingApiKey
  | CrossSiteLoopback
  | CrossSiteKeyless
  | RelayNeedsKey
  | ForeignHost string
  | ReadOnlyKey
  | ClientIpRequired
  | InvalidRules "string list"
  | ScopeUnavailable "scope_error list"
  | ClientNotAllowed ip_addr
  | RateLimited operation_class rate_decision

definition reject_request :: "network_policy \<Rightarrow> request \<Rightarrow> security_error option" where
  "reject_request p r =
     (if policy_open p then None
      else
        (case (case client_origin r of
                 Some (Direct ip) \<Rightarrow> Some [ip]
               | Some (ForwardedBy claims) \<Rightarrow>
                   if claims \<noteq> [] \<and> None \<notin> set claims then Some (map the claims) else None
               | None \<Rightarrow> None) of
           None \<Rightarrow> Some ClientIpRequired
         | Some addresses \<Rightarrow>
             (let remote = filter (\<lambda>ip. \<not> is_loopback ip) addresses
              in if remote = [] then None
                 else if np_invalid_rules p \<noteq> [] then Some (InvalidRules (np_invalid_rules p))
                 else if np_scope_errors p \<noteq> [] then Some (ScopeUnavailable (np_scope_errors p))
                 else map_option ClientNotAllowed
                        (List.find (\<lambda>ip. \<not> list_ex (\<lambda>rule. rule_matches rule ip) (np_allowed_clients p)) remote))))"

section \<open>Paths\<close>

definition path_within :: "string \<Rightarrow> string \<Rightarrow> bool" where
  "path_within path prefix \<longleftrightarrow>
     path = prefix \<or> (case strip_prefix prefix path of Some rest \<Rightarrow> starts_with rest ''/'' | None \<Rightarrow> False)"

record static_asset_surface =
  sas_mounted :: bool
  sas_dynamic_prefixes :: "string list"

definition ALWAYS_DYNAMIC_PREFIXES :: "string list" where
  "ALWAYS_DYNAMIC_PREFIXES = [''/api'', ''/health'']"

definition static_mounted :: "string list \<Rightarrow> static_asset_surface" where
  "static_mounted prefixes =
     \<lparr>sas_mounted = True, sas_dynamic_prefixes = ALWAYS_DYNAMIC_PREFIXES @ prefixes\<rparr>"

definition static_unmounted :: static_asset_surface where
  "static_unmounted = \<lparr>sas_mounted = False, sas_dynamic_prefixes = []\<rparr>"

definition static_serves :: "static_asset_surface \<Rightarrow> string \<Rightarrow> bool" where
  "static_serves s path \<longleftrightarrow> sas_mounted s \<and> \<not> list_ex (path_within path) (sas_dynamic_prefixes s)"

definition is_docs_exempt_path :: "string \<Rightarrow> bool" where
  "is_docs_exempt_path path \<longleftrightarrow> path = ''/api/v1/openapi.json'' \<or> path_within path ''/api/v1/docs''"

definition is_bearer_exempt :: "string \<Rightarrow> static_asset_surface \<Rightarrow> bool" where
  "is_bearer_exempt path assets \<longleftrightarrow>
     path = ''/health'' \<or> is_docs_exempt_path path \<or> static_serves assets path"

definition is_optional_system_auth :: "http_method \<Rightarrow> string \<Rightarrow> bool" where
  "is_optional_system_auth m path \<longleftrightarrow> m \<in> {GET, HEAD} \<and> path = ''/api/v1/system''"

definition required_tier_for_method :: "http_method \<Rightarrow> access_tier" where
  "required_tier_for_method m = (if m \<in> {GET, HEAD, OPTIONS} then TierRead else TierControl)"

definition is_mutating_request :: "http_method \<Rightarrow> bool" where
  "is_mutating_request m \<longleftrightarrow> m \<notin> {GET, HEAD, OPTIONS}"

fun tier_satisfies :: "access_tier \<Rightarrow> access_tier \<Rightarrow> bool" where
  "tier_satisfies TierControl _ = True"
| "tier_satisfies TierRead TierRead = True"
| "tier_satisfies TierRead TierControl = False"

definition path_segments :: "string \<Rightarrow> string list" where
  "path_segments path = split_on (CHR ''/'') (trim_matches (\<lambda>c. c = CHR ''/'') path)"

definition is_pairing_path :: "string \<Rightarrow> bool" where
  "is_pairing_path path =
     (case path_segments path of
        [a, b, c, d, e] \<Rightarrow> a = ''api'' \<and> b = ''v1'' \<and> c = ''devices'' \<and> e = ''pair'' | _ \<Rightarrow> False)"

definition classify_operation :: "http_method \<Rightarrow> string \<Rightarrow> operation_class" where
  "classify_operation m path =
     (if m = POST \<and> path = ''/api/v1/devices/discover'' then OpDiscovery
      else if is_pairing_path path \<and> m \<in> {POST, DELETE} then OpPairing
      else if m \<in> {GET, HEAD, OPTIONS} then OpRead
      else OpWrite)"

section \<open>Public routes\<close>

record public_route_entry =
  pr_method :: http_method
  pr_path :: string
  pr_class :: operation_class

record public_route_table =
  prt_routes :: "public_route_entry list"
  prt_withheld :: "string list"

definition empty_route_table :: public_route_table where
  "empty_route_table = \<lparr>prt_routes = [], prt_withheld = []\<rparr>"

datatype route_error = PathNotRooted | PathNotExact | EngineRoute | EngineMount

fun segments_match :: "string list \<Rightarrow> string list \<Rightarrow> bool" where
  "segments_match [] [] = True"
| "segments_match (t # ts) (p # ps) \<longleftrightarrow>
     (t = p \<or> starts_with t ''{'' \<and> strip_suffix ''}'' t \<noteq> None) \<and> segments_match ts ps"
| "segments_match _ _ = False"

definition template_matches :: "string \<Rightarrow> string \<Rightarrow> bool" where
  "template_matches template path = segments_match (path_segments template) (path_segments path)"

definition validate_public_route :: "string \<Rightarrow> string \<Rightarrow> string list \<Rightarrow> string list \<Rightarrow> route_error option" where
  "validate_public_route path api_prefix engine_routes reserved =
     (case strip_prefix ''/'' path of
        None \<Rightarrow> Some PathNotRooted
      | Some rest \<Rightarrow>
          if rest = [] \<or>
             list_ex (\<lambda>seg. seg = [] \<or> list_ex (\<lambda>c. c \<in> set ''{}*?#'') seg) (split_on (CHR ''/'') rest)
          then Some PathNotExact
          else if list_ex (\<lambda>t. template_matches t path) engine_routes then Some EngineRoute
          else if is_docs_exempt_path (api_prefix @ path)
               \<or> list_ex (path_within (api_prefix @ path)) reserved then Some EngineMount
          else None)"

text \<open>A declared route: its method, path and rate class, as the extension states them.\<close>

fun table_step :: "string \<Rightarrow> string list \<Rightarrow> string list \<Rightarrow> http_method \<times> string \<times> operation_class
    \<Rightarrow> public_route_table \<Rightarrow> public_route_table" where
  "table_step api_prefix engine_routes reserved (m, path, cls) t =
     (if validate_public_route path api_prefix engine_routes reserved \<noteq> None
      then (if is_docs_exempt_path (api_prefix @ path)
            then t\<lparr>prt_withheld := prt_withheld t @ [api_prefix @ path]\<rparr> else t)
      else t\<lparr>prt_routes := prt_routes t @ [\<lparr>pr_method = m, pr_path = api_prefix @ path, pr_class = cls\<rparr>]\<rparr>)"

definition from_extensions ::
  "(http_method \<times> string \<times> operation_class) list \<Rightarrow> string \<Rightarrow> string list \<Rightarrow> string list \<Rightarrow> public_route_table" where
  "from_extensions declared api_prefix engine_routes reserved =
     fold (table_step api_prefix engine_routes reserved) declared empty_route_table"

definition withholds_exemption :: "public_route_table \<Rightarrow> string \<Rightarrow> bool" where
  "withholds_exemption t path \<longleftrightarrow> path \<in> set (prt_withheld t)"

definition class_for :: "public_route_table \<Rightarrow> http_method \<Rightarrow> string \<Rightarrow> operation_class option" where
  "class_for t m path =
     map_option pr_class
       (List.find (\<lambda>r. pr_path r = path \<and> (pr_method r = m \<or> pr_method r = GET \<and> m = HEAD)) (prt_routes t))"

section \<open>Rate limiting\<close>

definition RATE_WINDOW :: duration where "RATE_WINDOW = from_secs 60"
definition READ_LIMIT_PER_MIN :: nat where "READ_LIMIT_PER_MIN = 120"
definition WRITE_LIMIT_PER_MIN :: nat where "WRITE_LIMIT_PER_MIN = 60"
definition DISCOVERY_LIMIT_PER_MIN :: nat where "DISCOVERY_LIMIT_PER_MIN = 2"
definition PAIRING_LIMIT_PER_MIN :: nat where "PAIRING_LIMIT_PER_MIN = 6"

record client_window =
  cw_window_start :: instant
  cw_read_count :: nat
  cw_write_count :: nat
  cw_pairing_count :: nat

record rate_limiter =
  rl_clients :: "(client_key, client_window) fmap"
  rl_discovery_window_start :: instant
  rl_discovery_count :: nat

text \<open>The readings one check takes: the start, the two \<^verbatim>\<open>elapsed\<close> calls, and the wall clock in seconds.\<close>

record clock_readings =
  ck_now :: instant
  ck_discovery :: instant
  ck_window :: instant
  ck_epoch :: nat

definition rate_limiter_new :: "instant \<Rightarrow> rate_limiter" where
  "rate_limiter_new now =
     \<lparr>rl_clients = fmempty, rl_discovery_window_start = now, rl_discovery_count = 0\<rparr>"

definition remaining_window_secs :: "instant \<Rightarrow> instant \<Rightarrow> nat" where
  "remaining_window_secs start now = (RATE_WINDOW - saturating_duration_since now start) div 1000000000"

definition saturating_u64 :: "nat \<Rightarrow> nat" where
  "saturating_u64 n = min n (2 ^ 64 - 1)"

fun class_limit :: "operation_class \<Rightarrow> nat" where
  "class_limit OpRead = READ_LIMIT_PER_MIN"
| "class_limit OpWrite = WRITE_LIMIT_PER_MIN"
| "class_limit OpDiscovery = WRITE_LIMIT_PER_MIN"
| "class_limit OpPairing = PAIRING_LIMIT_PER_MIN"

fun class_count :: "operation_class \<Rightarrow> client_window \<Rightarrow> nat" where
  "class_count OpRead w = cw_read_count w"
| "class_count OpWrite w = cw_write_count w"
| "class_count OpDiscovery w = cw_write_count w"
| "class_count OpPairing w = cw_pairing_count w"

fun count_request :: "operation_class \<Rightarrow> client_window \<Rightarrow> client_window" where
  "count_request OpRead w = w\<lparr>cw_read_count := cw_read_count w + 1\<rparr>"
| "count_request OpWrite w = w\<lparr>cw_write_count := cw_write_count w + 1\<rparr>"
| "count_request OpDiscovery w = w\<lparr>cw_write_count := cw_write_count w + 1\<rparr>"
| "count_request OpPairing w = w\<lparr>cw_pairing_count := cw_pairing_count w + 1\<rparr>"

definition fresh_window :: "instant \<Rightarrow> client_window" where
  "fresh_window now = \<lparr>cw_window_start = now, cw_read_count = 0, cw_write_count = 0, cw_pairing_count = 0\<rparr>"

definition retain_windows :: "instant \<Rightarrow> rate_limiter \<Rightarrow> rate_limiter" where
  "retain_windows now l =
     l\<lparr>rl_clients := fmfilter
         (\<lambda>k. case fmlookup (rl_clients l) k of
                Some w \<Rightarrow> saturating_duration_since now (cw_window_start w) < RATE_WINDOW | None \<Rightarrow> False)
         (rl_clients l)\<rparr>"

definition roll_discovery :: "clock_readings \<Rightarrow> rate_limiter \<Rightarrow> rate_limiter" where
  "roll_discovery ck l =
     (if RATE_WINDOW \<le> saturating_duration_since (ck_discovery ck) (rl_discovery_window_start l)
      then l\<lparr>rl_discovery_window_start := ck_now ck, rl_discovery_count := 0\<rparr> else l)"

definition refusal :: "nat \<Rightarrow> nat \<Rightarrow> nat \<Rightarrow> rate_decision" where
  "refusal limit epoch retry_after =
     \<lparr>rd_allowed = False, rd_limit = limit, rd_remaining = 0,
      rd_reset_epoch_secs = saturating_u64 (epoch + retry_after), rd_retry_after_secs = retry_after\<rparr>"

text \<open>
  The window of the client and its count. The counters are 32 bits wide and stop at their limits,
  far below saturation.
\<close>

definition spend :: "client_key \<Rightarrow> operation_class \<Rightarrow> clock_readings \<Rightarrow> rate_limiter
    \<Rightarrow> rate_limiter \<times> rate_decision" where
  "spend client cls ck l =
     (let w0 = (case fmlookup (rl_clients l) client of Some w \<Rightarrow> w | None \<Rightarrow> fresh_window (ck_now ck));
          w = (if RATE_WINDOW \<le> saturating_duration_since (ck_window ck) (cw_window_start w0)
               then fresh_window (ck_now ck) else w0);
          limit = class_limit cls;
          retry_after = remaining_window_secs (cw_window_start w) (ck_now ck)
      in if limit \<le> class_count cls w
         then (l\<lparr>rl_clients := fmupd client w (rl_clients l)\<rparr>, refusal limit (ck_epoch ck) retry_after)
         else
           (let w' = count_request cls w
            in (l\<lparr>rl_clients := fmupd client w' (rl_clients l)\<rparr>,
                \<lparr>rd_allowed = True, rd_limit = limit, rd_remaining = limit - class_count cls w',
                 rd_reset_epoch_secs =
                   saturating_u64 (ck_epoch ck + (if retry_after = 0 then 60 else retry_after)),
                 rd_retry_after_secs = retry_after\<rparr>)))"

definition check_and_record :: "client_key \<Rightarrow> operation_class \<Rightarrow> clock_readings \<Rightarrow> rate_limiter
    \<Rightarrow> rate_limiter \<times> rate_decision" where
  "check_and_record client cls ck l =
     (let l1 = roll_discovery ck (retain_windows (ck_now ck) l)
      in if cls = OpDiscovery \<and> DISCOVERY_LIMIT_PER_MIN \<le> rl_discovery_count l1
         then (l1, refusal DISCOVERY_LIMIT_PER_MIN (ck_epoch ck)
                     (remaining_window_secs (rl_discovery_window_start l1) (ck_now ck)))
         else spend client cls ck
                (if cls = OpDiscovery then l1\<lparr>rl_discovery_count := rl_discovery_count l1 + 1\<rparr> else l1))"

section \<open>Tokens\<close>

definition parse_bearer_header :: "string \<Rightarrow> string option" where
  "parse_bearer_header v =
     (case split_once (CHR '' '') v of
        None \<Rightarrow> None
      | Some (scheme, token) \<Rightarrow>
          if eq_ignore_ascii_case scheme ''bearer'' \<and> token \<noteq> [] then Some token else None)"

definition query_token :: "string \<Rightarrow> string option" where
  "query_token kv0 =
     (let (key, v) = (case split_once (CHR ''='') kv0 of Some kv \<Rightarrow> kv | None \<Rightarrow> (kv0, []))
      in if key = ''token'' \<and> v \<noteq> [] then Some v else None)"

definition token_from_query :: "string option \<Rightarrow> string option" where
  "token_from_query q =
     (case q of
        None \<Rightarrow> None
      | Some q \<Rightarrow> (case List.map_filter query_token (split_on (CHR ''&'') q) of t # _ \<Rightarrow> Some t | [] \<Rightarrow> None))"

definition allows_query_token :: "request \<Rightarrow> bool" where
  "allows_query_token r \<longleftrightarrow>
     rq_path r = ''/api/v1/ws'' \<and> rq_method r = GET
     \<and> (case header_text (rq_headers r) ''upgrade'' of
          Some v \<Rightarrow> eq_ignore_ascii_case v ''websocket'' | None \<Rightarrow> False)"

definition extract_token :: "request \<Rightarrow> string option" where
  "extract_token r =
     (case header_get (rq_headers r) ''authorization'' of
        Some None \<Rightarrow> None
      | Some (Some v) \<Rightarrow>
          (case parse_bearer_header v of
             Some token \<Rightarrow> Some token
           | None \<Rightarrow> if allows_query_token r then token_from_query (rq_query r) else None)
      | None \<Rightarrow> if allows_query_token r then token_from_query (rq_query r) else None)"

section \<open>Hosts and origins\<close>

record uri_parts =
  up_scheme :: "string option"
  up_authority :: "string option"
  up_host :: "string option"

record authority_parts =
  ap_text :: string
  ap_host :: string

record http_lib =
  lib_uri :: "string \<Rightarrow> uri_parts option"
  lib_authority :: "string \<Rightarrow> authority_parts option"

definition unbracketed :: "string \<Rightarrow> string" where
  "unbracketed host =
     (case strip_prefix ''['' host of
        Some inner \<Rightarrow> (case strip_suffix '']'' inner of Some h \<Rightarrow> h | None \<Rightarrow> host)
      | None \<Rightarrow> host)"

definition authority_host :: "http_lib \<Rightarrow> string \<Rightarrow> string option" where
  "authority_host lib raw =
     (case lib_authority lib (trim raw) of
        None \<Rightarrow> None
      | Some a \<Rightarrow>
          if CHR ''@'' \<in> set (ap_text a) then None
          else
            (let host = unbracketed (ap_host a);
                 host = (case strip_suffix ''.'' host of Some h \<Rightarrow> h | None \<Rightarrow> host)
             in if host = [] then None else Some (to_ascii_lowercase host)))"

record host_allowlist =
  ha_names :: "string list"
  ha_any_host :: bool
  ha_logged :: "string list"

definition MAX_LOGGED_REFUSALS :: nat where "MAX_LOGGED_REFUSALS = 32"

text \<open>\<^verbatim>\<open>HostAllowlist::new\<close>; the sorted array of the code is only searched.\<close>

definition host_allowlist_new :: "http_lib \<Rightarrow> string list \<Rightarrow> host_allowlist" where
  "host_allowlist_new lib names =
     (let trimmed = map trim names
      in \<lparr>ha_names = remdups (List.map_filter (authority_host lib) (filter (\<lambda>n. n \<noteq> ''*'') trimmed)),
          ha_any_host = (''*'' \<in> set trimmed), ha_logged = []\<rparr>)"

definition default_hosts :: host_allowlist where
  "default_hosts = \<lparr>ha_names = [], ha_any_host = False, ha_logged = []\<rparr>"

definition ends_with :: "string \<Rightarrow> string \<Rightarrow> bool" where
  "ends_with s suf \<longleftrightarrow> strip_suffix suf s \<noteq> None"

definition host_admits :: "http_lib \<Rightarrow> host_allowlist \<Rightarrow> string \<Rightarrow> bool" where
  "host_admits lib h authority =
     (ha_any_host h \<or>
      (case authority_host lib authority of
         None \<Rightarrow> False
       | Some host \<Rightarrow>
           parse_ip host \<noteq> None \<or> host = ''localhost'' \<or> ends_with host ''.localhost''
           \<or> host \<in> set (ha_names h)))"

definition log_refusal :: "string \<Rightarrow> host_allowlist \<Rightarrow> host_allowlist" where
  "log_refusal host h =
     (if length (ha_logged h) < MAX_LOGGED_REFUSALS \<and> host \<notin> set (ha_logged h)
      then h\<lparr>ha_logged := host # ha_logged h\<rparr> else h)"

definition is_loopback_origin :: "http_lib \<Rightarrow> string option \<Rightarrow> bool" where
  "is_loopback_origin lib origin =
     (case origin of
        None \<Rightarrow> False
      | Some txt0 \<Rightarrow>
          (case lib_uri lib txt0 of
             None \<Rightarrow> False
           | Some u \<Rightarrow>
               up_scheme u \<in> {Some ''http'', Some ''https''} \<and>
               (case up_host u of
                  None \<Rightarrow> False
                | Some host \<Rightarrow>
                    eq_ignore_ascii_case host ''localhost'' \<or>
                    (case parse_ip (unbracketed host) of Some ip \<Rightarrow> is_loopback ip | None \<Rightarrow> False))))"

definition is_own_origin :: "http_lib \<Rightarrow> string option \<Rightarrow> headers \<Rightarrow> bool" where
  "is_own_origin lib origin hs =
     (case (origin, header_text hs ''host'') of
        (Some txt0, Some host) \<Rightarrow>
          (case lib_uri lib txt0 of
             None \<Rightarrow> False
           | Some u \<Rightarrow>
               up_scheme u \<in> {Some ''http'', Some ''https''} \<and>
               (case up_authority u of
                  Some a \<Rightarrow> eq_ignore_ascii_case a (trim host) | None \<Rightarrow> False))
      | _ \<Rightarrow> False)"

definition TRUSTED_TAURI_ORIGINS :: "string list" where
  "TRUSTED_TAURI_ORIGINS = [''tauri://localhost'', ''http://tauri.localhost'', ''https://tauri.localhost'']"

definition is_trusted_tauri_origin :: "string option \<Rightarrow> bool" where
  "is_trusted_tauri_origin origin =
     (case origin of
        Some txt0 \<Rightarrow> list_ex (eq_ignore_ascii_case txt0) TRUSTED_TAURI_ORIGINS | None \<Rightarrow> False)"

definition is_cross_site_request :: "request \<Rightarrow> bool" where
  "is_cross_site_request r \<longleftrightarrow> header_text (rq_headers r) ''sec-fetch-site'' = Some ''cross-site''"

definition is_foreign_page_write :: "http_lib \<Rightarrow> request \<Rightarrow> bool" where
  "is_foreign_page_write lib r \<longleftrightarrow>
     is_mutating_request (rq_method r) \<and>
     (is_cross_site_request r \<or>
      (case header_get (rq_headers r) ''origin'' of
         Some origin \<Rightarrow> \<not> is_loopback_origin lib origin \<and> \<not> is_own_origin lib origin (rq_headers r)
       | None \<Rightarrow> False))"

section \<open>The middleware\<close>

record security_state =
  sec_auth :: auth_config
  sec_launcher_credential :: "string option"
  sec_attested_credential :: "string option"
  sec_authority :: "credential_authority option"
  sec_network :: network_policy
  sec_rate_limiter :: rate_limiter
  sec_static_assets :: static_asset_surface
  sec_public_routes :: public_route_table
  sec_hosts :: host_allowlist

definition security_enabled :: "security_state \<Rightarrow> bool" where
  "security_enabled st \<longleftrightarrow>
     au_control_key (sec_auth st) \<noteq> None \<or> au_read_key (sec_auth st) \<noteq> None \<or> sec_authority st \<noteq> None"

definition keyless_remote_client_families :: "security_state \<Rightarrow> remote_client_families" where
  "keyless_remote_client_families st =
     (if security_enabled st then \<lparr>rcf_ipv4 = False, rcf_ipv6 = False\<rparr>
      else remote_client_families_of (sec_network st))"

definition is_session_credential :: "security_state \<Rightarrow> string \<Rightarrow> bool" where
  "is_session_credential st token \<longleftrightarrow>
     secret_matches (sec_launcher_credential st) token \<or> secret_matches (sec_attested_credential st) token"

record resolved_credential =
  rc_context :: auth_context
  rc_grant :: "credential_grant option"
  rc_scope :: "string option"

definition authority_resolves :: "security_state \<Rightarrow> string \<Rightarrow> credential_grant option" where
  "authority_resolves st token =
     (case sec_authority st of
        None \<Rightarrow> None
      | Some a \<Rightarrow>
          (case ca_authenticate a token of
             None \<Rightarrow> None
           | Some g \<Rightarrow> if cg_revoked g then None else Some (clamped_to (ca_ceiling a) g)))"

definition resolve_presented_token :: "security_state \<Rightarrow> string \<Rightarrow> resolved_credential option" where
  "resolve_presented_token st token =
     (case resolve_environment_key token (sec_auth st) of
        Some (tier, key) \<Rightarrow>
          Some \<lparr>rc_context = authenticated tier, rc_grant = None, rc_scope = Some key\<rparr>
      | None \<Rightarrow>
          (case authority_resolves st token of
             Some g \<Rightarrow> Some \<lparr>rc_context = authority_grant (cg_tier g), rc_grant = Some g,
                              rc_scope = Some (''credential:'' @ cg_credential_id g)\<rparr>
           | None \<Rightarrow> None))"

definition resolve_loopback_token :: "security_state \<Rightarrow> string \<Rightarrow> resolved_credential option" where
  "resolve_loopback_token st token =
     (if is_session_credential st token
      then Some \<lparr>rc_context = daemon_session (security_enabled st), rc_grant = None,
                 rc_scope = Some ''daemon-session''\<rparr>
      else resolve_presented_token st token)"

definition attach :: "resolved_credential \<Rightarrow> request_locality \<Rightarrow> request \<Rightarrow> request" where
  "attach c l r =
     r\<lparr>rq_context := Some (with_locality (rc_context c) l),
       rq_grant := (case rc_grant c of Some g \<Rightarrow> Some g | None \<Rightarrow> rq_grant r),
       rq_scope := (case rc_scope c of Some s \<Rightarrow> Some s | None \<Rightarrow> rq_scope r)\<rparr>"

definition has_trusted_tauri_session :: "security_state \<Rightarrow> request \<Rightarrow> bool" where
  "has_trusted_tauri_session st r \<longleftrightarrow>
     (case header_get (rq_headers r) ''origin'' of Some o' \<Rightarrow> is_trusted_tauri_origin o' | None \<Rightarrow> False)
     \<and> (case extract_token r of Some token \<Rightarrow> is_session_credential st token | None \<Rightarrow> False)"

text \<open>The names a request calls the daemon by; \<open>None\<close> is an unreadable header.\<close>

definition named_hosts :: "request \<Rightarrow> string option list" where
  "named_hosts r =
     header_get_all (rq_headers r) ''host''
     @ (case rq_authority r of Some a \<Rightarrow> [Some a] | None \<Rightarrow> [])
     @ concat (map (\<lambda>v. case v of Some lst \<Rightarrow> map Some (split_on (CHR '','') lst) | None \<Rightarrow> [None])
         (header_get_all (rq_headers r) ''x-forwarded-host''))"

definition MAX_REFUSED_HOST_CHARS :: nat where "MAX_REFUSED_HOST_CHARS = 260"

definition refuse_foreign_host :: "http_lib \<Rightarrow> security_state \<Rightarrow> request \<Rightarrow> string option" where
  "refuse_foreign_host lib st r =
     map_option (\<lambda>h. take MAX_REFUSED_HOST_CHARS (case h of Some host \<Rightarrow> host | None \<Rightarrow> ''(unreadable)''))
       (List.find (\<lambda>h. \<not> (case h of Some host \<Rightarrow> host_admits lib (sec_hosts st) host | None \<Rightarrow> False))
          (named_hosts r))"

datatype security_outcome =
    Refused security_error
  | Served request "rate_decision option"

type_synonym security_result = "security_outcome \<times> security_state"

definition refuse_host :: "string \<Rightarrow> security_state \<Rightarrow> security_result" where
  "refuse_host host st =
     (Refused (ForeignHost host), st\<lparr>sec_hosts := log_refusal host (sec_hosts st)\<rparr>)"

definition rate_limited ::
  "security_state \<Rightarrow> clock_readings \<Rightarrow> request \<Rightarrow> operation_class \<Rightarrow> security_result" where
  "rate_limited st ck r cls =
     (let (l, d) = check_and_record (client_identity r) cls ck (sec_rate_limiter st);
          st' = st\<lparr>sec_rate_limiter := l\<rparr>
      in if \<not> rd_allowed d then (Refused (RateLimited cls d), st') else (Served r (Some d), st'))"

text \<open>The branch of requests straight from a loopback peer.\<close>

definition serve_loopback :: "http_lib \<Rightarrow> security_state \<Rightarrow> request \<Rightarrow> security_result" where
  "serve_loopback lib st r =
     (if is_foreign_page_write lib r \<and> \<not> has_trusted_tauri_session st r
      then (Refused CrossSiteLoopback, st)
      else
        (case map_option (resolve_loopback_token st) (extract_token r) of
           Some (Some c) \<Rightarrow> (Served (attach c FromLoopback r) None, st)
         | unresolved \<Rightarrow>
             if unresolved = Some None \<and> is_optional_system_auth (rq_method r) (rq_path r)
             then (Refused InvalidApiKey, st)
             else
               (case refuse_foreign_host lib st r of
                  Some host \<Rightarrow> refuse_host host st
                | None \<Rightarrow>
                    (Served (r\<lparr>rq_context := Some (with_locality unsecured FromLoopback)\<rparr>) None, st))))"

text \<open>The branch of a daemon that holds no key and no authority.\<close>

definition serve_keyless :: "http_lib \<Rightarrow> security_state \<Rightarrow> request \<Rightarrow> security_result" where
  "serve_keyless lib st r =
     (if is_optional_system_auth (rq_method r) (rq_path r) \<and> extract_token r \<noteq> None
      then (Refused InvalidApiKey, st)
      else if rq_context r \<noteq> None then (Served r None, st)
      else
        (case refuse_foreign_host lib st r of
           Some host \<Rightarrow> refuse_host host st
         | None \<Rightarrow>
             if is_foreign_page_write lib r \<and> \<not> has_trusted_tauri_session st r
             then (Refused CrossSiteKeyless, st)
             else if request_is_relayed r \<and> \<not> np_unauthenticated_remote (sec_network st)
             then (Refused RelayNeedsKey, st)
             else (Served (r\<lparr>rq_context := Some (with_locality unsecured FromNetwork)\<rparr>) None, st)))"

text \<open>The credential a request already carries, resolved before it reached this layer.\<close>

definition carried_credential :: "request \<Rightarrow> resolved_credential option" where
  "carried_credential r =
     (case rq_context r of
        Some c \<Rightarrow>
          if ac_security_enabled c \<and> ac_granted_tier c \<noteq> None
          then Some \<lparr>rc_context = c, rc_grant = rq_grant r, rc_scope = rq_scope r\<rparr> else None
      | None \<Rightarrow> None)"

text \<open>Which credential a request of a keyed daemon stands on: none, one, or a refusal.\<close>

definition standing_credential ::
  "security_state \<Rightarrow> request \<Rightarrow> security_error + resolved_credential option" where
  "standing_credential st r =
     (if rq_method r = OPTIONS then Inr (carried_credential r)
      else
        (case (case carried_credential r of
                 Some c \<Rightarrow> Inr (Some c)
               | None \<Rightarrow>
                   (case extract_token r of
                      Some token \<Rightarrow>
                        (case resolve_presented_token st token of
                           Some c \<Rightarrow> Inr (Some c) | None \<Rightarrow> Inl InvalidApiKey)
                    | None \<Rightarrow>
                        if is_optional_system_auth (rq_method r) (rq_path r) then Inr None
                        else Inl MissingApiKey)) of
           Inl e \<Rightarrow> Inl e
         | Inr c \<Rightarrow>
             (case c of
                Some found \<Rightarrow>
                  (case ac_granted_tier (rc_context found) of
                     Some granted \<Rightarrow>
                       if tier_satisfies granted (required_tier_for_method (rq_method r))
                       then Inr (Some found) else Inl ReadOnlyKey
                   | None \<Rightarrow> Inr (Some found))
              | None \<Rightarrow> Inr None)))"

definition serve_keyed :: "security_state \<Rightarrow> clock_readings \<Rightarrow> request \<Rightarrow> security_result" where
  "serve_keyed st ck r =
     (case standing_credential st r of
        Inl e \<Rightarrow> (Refused e, st)
      | Inr c \<Rightarrow>
          (let r' = (case c of
                       Some found \<Rightarrow> attach found FromNetwork r
                     | None \<Rightarrow> r\<lparr>rq_context := Some preflight\<rparr>)
           in rate_limited st ck r' (classify_operation (rq_method r) (rq_path r))))"

definition enforce_security ::
  "http_lib \<Rightarrow> security_state \<Rightarrow> clock_readings \<Rightarrow> request \<Rightarrow> security_result" where
  "enforce_security lib st ck r0 =
     (if (case rq_grant r0 of Some g \<Rightarrow> cg_revoked g | None \<Rightarrow> False) then (Refused InvalidApiKey, st)
      else if rq_trusted_local r0
      then (Served (r0\<lparr>rq_trusted_local := False,
                       rq_context := Some (with_locality (authenticated TierControl) InProcess),
                       rq_scope := Some ''in-process''\<rparr>) None, st)
      else
        (let replayed = rq_session_replay r0;
             r = r0\<lparr>rq_session_replay := False\<rparr>
         in case (if replayed then None else reject_request (sec_network st) r) of
              Some e \<Rightarrow> (Refused e, st)
            | None \<Rightarrow>
                if \<not> request_is_loopback r \<and>
                   (case extract_token r of Some token \<Rightarrow> is_session_credential st token | None \<Rightarrow> False)
                then (Refused InvalidApiKey, st)
                else if is_bearer_exempt (rq_path r) (sec_static_assets st)
                        \<and> \<not> withholds_exemption (sec_public_routes st) (rq_path r)
                then (Served (r\<lparr>rq_grant := None, rq_context := Some unsecured\<rparr>) None, st)
                else
                  (case class_for (sec_public_routes st) (rq_method r) (rq_path r) of
                     Some cls \<Rightarrow>
                       rate_limited st ck (r\<lparr>rq_grant := None, rq_context := Some anonymous\<rparr>) cls
                   | None \<Rightarrow>
                       if replayed \<and>
                          (case rq_context r of
                             Some c \<Rightarrow> \<not> ac_security_enabled c \<and> (context_is_loopback c \<or> \<not> security_enabled st)
                           | None \<Rightarrow> False)
                       then (Served r None, st)
                       else if request_is_loopback r then serve_loopback lib st r
                       else if \<not> security_enabled st then serve_keyless lib st r
                       else serve_keyed st ck r)))"

end
