(* ===== verification/Security_Props.thy ===== *)
theory Security_Props
  imports Security
begin

text \<open>
  What the API security layer guarantees, in five properties: which network writes are served, who
  holds protected control, that a web page cannot ride authority nobody presented, that the report
  of keyless remote access is exact, and what the rate limiter bounds over any run of checks. They
  rest on two case rules, \<open>served_cases\<close> for the branches of the middleware and
  \<open>resolve_presented_cases\<close> for the source of a credential, and on an invariant of one client's
  window.
\<close>

section \<open>What is served\<close>

text \<open>A request as it comes off the network: no extension but its peer address.\<close>

definition fresh :: "request \<Rightarrow> bool" where
  "fresh r \<longleftrightarrow> rq_grant r = None \<and> \<not> rq_trusted_local r \<and> \<not> rq_session_replay r
     \<and> rq_context r = None \<and> rq_scope r = None"

definition exempt_path :: "security_state \<Rightarrow> request \<Rightarrow> bool" where
  "exempt_path st r \<longleftrightarrow> is_bearer_exempt (rq_path r) (sec_static_assets st)
     \<and> \<not> withholds_exemption (sec_public_routes st) (rq_path r)"

definition public_path :: "security_state \<Rightarrow> request \<Rightarrow> bool" where
  "public_path st r \<longleftrightarrow> class_for (sec_public_routes st) (rq_method r) (rq_path r) \<noteq> None"

lemma rate_limited_served:
  "rate_limited st ck r cls = (Served r' d, st') \<Longrightarrow> r' = r \<and> (\<exists>dec. d = Some dec \<and> rd_allowed dec)"
  by (auto simp: rate_limited_def split_beta Let_def split: if_splits)

lemma fresh_not_replayed: "fresh r \<Longrightarrow> r\<lparr>rq_session_replay := False\<rparr> = r"
  by (cases r) (simp add: fresh_def)

lemma enforce_fresh:
  assumes "fresh r"
  shows "enforce_security lib st ck r =
    (case reject_request (sec_network st) r of
       Some e \<Rightarrow> (Refused e, st)
     | None \<Rightarrow>
         if \<not> request_is_loopback r \<and>
            (case extract_token r of Some token \<Rightarrow> is_session_credential st token | None \<Rightarrow> False)
         then (Refused InvalidApiKey, st)
         else if exempt_path st r then (Served (r\<lparr>rq_context := Some unsecured\<rparr>) None, st)
         else (case class_for (sec_public_routes st) (rq_method r) (rq_path r) of
                 Some cls \<Rightarrow> rate_limited st ck (r\<lparr>rq_context := Some anonymous\<rparr>) cls
               | None \<Rightarrow>
                   if request_is_loopback r then serve_loopback lib st r
                   else if \<not> security_enabled st then serve_keyless lib st r
                   else serve_keyed st ck r))"
proof -
  have f: "rq_grant r = None" "\<not> rq_trusted_local r" "\<not> rq_session_replay r" using assms by (simp_all add: fresh_def)
  have g: "r\<lparr>rq_grant := None, rq_context := c\<rparr> = r\<lparr>rq_context := c\<rparr>" for c using f by (cases r) simp
  show ?thesis
    unfolding enforce_security_def Let_def fresh_not_replayed [OF assms] g exempt_path_def [symmetric]
    by (simp only: f option.case if_False simp_thms split: option.split)
qed

lemma served_cases:
  assumes "enforce_security lib st ck r = (Served r' d, st')" and "fresh r"
  obtains (exempt) "exempt_path st r" "rq_context r' = Some unsecured"
    | (public) "\<not> exempt_path st r" "public_path st r" "rq_context r' = Some anonymous"
    | (loopback) "\<not> exempt_path st r" "\<not> public_path st r" "request_is_loopback r"
        "serve_loopback lib st r = (Served r' d, st')"
    | (keyless) "\<not> exempt_path st r" "\<not> public_path st r" "\<not> request_is_loopback r" "\<not> security_enabled st"
        "serve_keyless lib st r = (Served r' d, st')"
    | (keyed) "\<not> exempt_path st r" "\<not> public_path st r" "\<not> request_is_loopback r" "security_enabled st"
        "serve_keyed st ck r = (Served r' d, st')"
  using assms(1) unfolding enforce_fresh [OF assms(2)] public_path_def
  by (auto split: if_splits option.splits dest!: rate_limited_served)

lemma served_admitted:
  assumes "enforce_security lib st ck r = (Served r' d, st')" "fresh r"
  shows "reject_request (sec_network st) r = None"
    and "\<not> request_is_loopback r \<Longrightarrow> extract_token r = Some token \<Longrightarrow> \<not> is_session_credential st token"
  using assms(1) unfolding enforce_fresh [OF assms(2)]
  by (auto split: if_splits option.splits)

section \<open>Credentials\<close>

text \<open>A bearer that stands for control: the control key, or a live authority credential that no key shadows.\<close>

definition control_token :: "security_state \<Rightarrow> string \<Rightarrow> bool" where
  "control_token st token \<longleftrightarrow>
     (case resolve_token_tier token (sec_auth st) of
        Some tier \<Rightarrow> tier = TierControl
      | None \<Rightarrow>
          (\<exists>a g. sec_authority st = Some a \<and> ca_authenticate a token = Some g \<and> \<not> cg_revoked g
             \<and> cg_tier g = CredControl \<and> ca_ceiling a = CredControl))"

lemma authenticated_tier [simp]:
  "ac_granted_tier (authenticated t) = Some t" "ac_security_enabled (authenticated t)"
  "ac_presented_credential (authenticated t)"
  by (simp_all add: authenticated_def)

lemma authority_grant_tier [simp]:
  "ac_granted_tier (authority_grant t) = Some (case t of CredRead \<Rightarrow> TierRead | CredControl \<Rightarrow> TierControl)"
  "ac_security_enabled (authority_grant t)" "ac_protected_control (authority_grant t) = ProtDenied"
  "ac_presented_credential (authority_grant t)"
  by (simp_all add: authority_grant_def)

lemma resolve_presented_cases:
  assumes "resolve_presented_token st token = Some c"
  obtains (key) tier where "resolve_token_tier token (sec_auth st) = Some tier" "rc_context c = authenticated tier"
    | (grant) g where "resolve_token_tier token (sec_auth st) = None" "authority_resolves st token = Some g"
        "rc_context c = authority_grant (cg_tier g)"
  using assms that
  by (auto simp: resolve_presented_token_def resolve_environment_key_def split: option.splits prod.splits)

lemma control_token_iff:
  "control_token st token \<longleftrightarrow>
     (\<exists>c. resolve_presented_token st token = Some c \<and> ac_granted_tier (rc_context c) = Some TierControl)"
  by (auto simp: control_token_def resolve_presented_token_def resolve_environment_key_def authority_resolves_def
      clamped_to_def split: option.splits)

lemma fresh_carries_nothing: "fresh r \<Longrightarrow> carried_credential r = None"
  by (simp add: fresh_def carried_credential_def)

lemma resolved_has_tier: "resolve_presented_token st token = Some c \<Longrightarrow> \<exists>t. ac_granted_tier (rc_context c) = Some t"
  by (erule resolve_presented_cases) simp_all

lemma standing_fresh:
  assumes "fresh r" "standing_credential st r = Inr (Some c)"
  obtains token where "extract_token r = Some token" "resolve_presented_token st token = Some c"
  using assms
  by (auto simp: standing_credential_def fresh_carries_nothing split: if_splits option.splits sum.splits)

lemma standing_write:
  assumes "fresh r" "is_mutating_request (rq_method r)"
  shows "(\<exists>c. standing_credential st r = Inr c) \<longleftrightarrow>
    (\<exists>token. extract_token r = Some token \<and> control_token st token)"
proof -
  have m: "rq_method r \<noteq> OPTIONS" "\<not> is_optional_system_auth (rq_method r) (rq_path r)"
    "required_tier_for_method (rq_method r) = TierControl"
    using assms(2) by (auto simp: is_mutating_request_def is_optional_system_auth_def required_tier_for_method_def)
  have tier: "tier_satisfies t TierControl \<longleftrightarrow> t = TierControl" for t by (cases t) simp_all
  note st = standing_credential_def [of st r] m fresh_carries_nothing [OF assms(1)] control_token_iff tier
  show ?thesis
  proof (cases "extract_token r")
    case None
    then show ?thesis by (simp add: st)
  next
    case (Some token)
    show ?thesis
    proof (cases "resolve_presented_token st token")
      case None
      then show ?thesis using Some by (simp add: st)
    next
      case found: (Some c)
      then show ?thesis using Some resolved_has_tier [OF found] by (auto simp: st split: if_splits)
    qed
  qed
qed

lemma client_origin_ext [simp]:
  "client_identity (r\<lparr>rq_context := x\<rparr>) = client_identity r"
  "client_identity (attach c l r) = client_identity r"
  by (cases "rq_peer r"; simp add: client_identity_def client_origin_def attach_def)+

lemma rate_limited_iff:
  "(\<exists>r' d st'. rate_limited st ck r cls = (Served r' d, st')) \<longleftrightarrow>
     rd_allowed (snd (check_and_record (client_identity r) cls ck (sec_rate_limiter st)))"
  by (auto simp: rate_limited_def split_beta Let_def)

text \<open>C36: On a daemon with a key or a credential authority, a write that comes from the network is
  served exactly when the network policy admits its client, it presents a bearer that stands for
  control (the control key unless it is marked read-only, or a live authority credential of
  control tier within the authority's ceiling; never the desktop session credential), and the rate
  limit of its class has room. Excepted are the paths exempt from authentication and the public
  routes declared at assembly.
\<close>

theorem network_writes_need_control_key:
  assumes "fresh r" "security_enabled st" "\<not> request_is_loopback r" "is_mutating_request (rq_method r)"
    and "\<not> exempt_path st r" "\<not> public_path st r"
  shows "(\<exists>r' d st'. enforce_security lib st ck r = (Served r' d, st')) \<longleftrightarrow>
    reject_request (sec_network st) r = None
    \<and> (\<exists>token. extract_token r = Some token \<and> control_token st token \<and> \<not> is_session_credential st token)
    \<and> rd_allowed (snd (check_and_record (client_identity r)
        (classify_operation (rq_method r) (rq_path r)) ck (sec_rate_limiter st)))"
proof -
  have keyed: "(\<exists>r' d st'. serve_keyed st ck r = (Served r' d, st')) \<longleftrightarrow>
      (\<exists>token. extract_token r = Some token \<and> control_token st token)
      \<and> rd_allowed (snd (check_and_record (client_identity r)
          (classify_operation (rq_method r) (rq_path r)) ck (sec_rate_limiter st)))"
    unfolding standing_write [OF assms(1,4), symmetric]
    by (auto simp: serve_keyed_def Let_def rate_limited_iff split: sum.splits option.splits)
  have "class_for (sec_public_routes st) (rq_method r) (rq_path r) = None"
    using assms(6) by (simp add: public_path_def)
  then have "enforce_security lib st ck r =
      (case reject_request (sec_network st) r of
         Some e \<Rightarrow> (Refused e, st)
       | None \<Rightarrow>
           if (case extract_token r of Some token \<Rightarrow> is_session_credential st token | None \<Rightarrow> False)
           then (Refused InvalidApiKey, st) else serve_keyed st ck r)"
    unfolding enforce_fresh [OF assms(1)] using assms by (simp split: option.split)
  then show ?thesis using keyed by (auto split: option.splits if_splits)
qed

text \<open>C38: Protected control, which opens the operator's own operations, is given to a request from
  outside the process only for the desktop session credential presented straight over loopback, or
  for the control key itself, and not when that key is marked read-only; no authority credential
  ever carries it.
\<close>

theorem protected_control_is_operators:
  assumes "enforce_security lib st ck r = (Served r' d, st')" "fresh r"
    and "rq_context r' = Some c" "can_protected_control c"
  shows "\<exists>token. extract_token r = Some token \<and>
    (request_is_loopback r \<and> is_session_credential st token
     \<or> au_control_key (sec_auth st) = Some token \<and> \<not> starts_with token ''hc_ak_r_'')"
proof -
  have presented: "au_control_key (sec_auth st) = Some token \<and> \<not> starts_with token ''hc_ak_r_''"
    if "resolve_presented_token st token = Some x" "ac_protected_control (rc_context x) = ProtGranted" for token x
    using that by (elim resolve_presented_cases)
      (auto simp: authenticated_def resolve_token_tier_def secret_matches_def split: if_splits option.splits access_tier.splits)
  from assms(1,2) show ?thesis
  proof (cases rule: served_cases)
    case loopback
    then show ?thesis using assms(3,4) presented
      by (auto simp: serve_loopback_def attach_def with_locality_def can_protected_control_def unsecured_def
          refuse_host_def resolve_loopback_token_def split: if_splits option.splits)
  next
    case keyed
    then show ?thesis using assms(3,4) presented
      by (auto simp: serve_keyed_def Let_def attach_def with_locality_def can_protected_control_def preflight_def
          dest!: rate_limited_served elim!: standing_fresh [OF assms(2)] split: sum.splits option.splits)
  next
    case keyless
    then show ?thesis using assms(2,3,4)
      by (auto simp: serve_keyless_def with_locality_def can_protected_control_def unsecured_def
          refuse_host_def fresh_def split: if_splits option.splits)
  qed (use assms in \<open>simp_all add: can_protected_control_def unsecured_def anonymous_def preflight_def\<close>)
qed

section \<open>Ambient authority\<close>

definition admitted_host :: "http_lib \<Rightarrow> security_state \<Rightarrow> string option \<Rightarrow> bool" where
  "admitted_host lib st h = (case h of Some host \<Rightarrow> host_admits lib (sec_hosts st) host | None \<Rightarrow> False)"

lemma no_foreign_host:
  "refuse_foreign_host lib st r = None \<longleftrightarrow> (\<forall>h \<in> set (named_hosts r). admitted_host lib st h)"
  unfolding refuse_foreign_host_def admitted_host_def [symmetric] by (auto simp: find_None_iff)

text \<open>C37: A web page cannot ride authority that a request has without presenting a credential. Outside
  the exempt and public paths, whatever is served without a credential to a caller that may then
  control the daemon (over loopback, or from the network on a daemon without keys) names the
  daemon in every host header only by admitted names, so a DNS-rebinding page is out; if it writes,
  it is not marked cross-site and its origin, if any, is a loopback origin or the daemon's own; and
  if a proxy relayed it, unauthenticated remote access is enabled.
\<close>

theorem ambient_authority_cannot_be_ridden:
  assumes "enforce_security lib st ck r = (Served r' d, st')" "fresh r"
    and "rq_context r' = Some c" "\<not> ac_presented_credential c" "can_control c"
    and "\<not> exempt_path st r" "\<not> public_path st r"
  shows "(\<forall>h \<in> set (named_hosts r). admitted_host lib st h)
    \<and> (is_mutating_request (rq_method r) \<longrightarrow>
         \<not> is_cross_site_request r
         \<and> (\<forall>origin. header_get (rq_headers r) ''origin'' = Some origin \<longrightarrow>
              is_loopback_origin lib origin \<or> is_own_origin lib origin (rq_headers r)))
    \<and> (request_is_relayed r \<longrightarrow> \<not> security_enabled st \<and> np_unauthenticated_remote (sec_network st))"
proof -
  have session: "\<not> has_trusted_tauri_session st r"
    if "extract_token r = None \<or> (\<exists>t. extract_token r = Some t \<and> \<not> is_session_credential st t)"
    using that by (auto simp: has_trusted_tauri_session_def split: option.splits)
  have page: "is_mutating_request (rq_method r) \<longrightarrow> \<not> is_cross_site_request r
      \<and> (\<forall>origin. header_get (rq_headers r) ''origin'' = Some origin \<longrightarrow>
           is_loopback_origin lib origin \<or> is_own_origin lib origin (rq_headers r))"
    if "\<not> is_foreign_page_write lib r"
    using that by (auto simp: is_foreign_page_write_def)
  from assms(1,2) show ?thesis
  proof (cases rule: served_cases)
    case loopback
    then have "\<not> request_is_relayed r"
      by (auto simp: request_is_loopback_def request_is_relayed_def split: option.splits client_origin_kind.splits)
    have cred: "ac_presented_credential (rc_context x)" if "resolve_loopback_token st token = Some x" for token x
      using that by (auto simp: resolve_loopback_token_def daemon_session_def split: if_splits elim: resolve_presented_cases)
    then have un: "map_option (resolve_loopback_token st) (extract_token r) \<in> {None, Some None}"
      using loopback(4) assms(3,4)
      by (auto simp: serve_loopback_def attach_def with_locality_def refuse_host_def split: if_splits option.splits)
    then have "refuse_foreign_host lib st r = None" "\<not> is_foreign_page_write lib r \<or> has_trusted_tauri_session st r"
      using loopback(4) by (auto simp: serve_loopback_def refuse_host_def split: if_splits option.splits)
    moreover have "\<not> has_trusted_tauri_session st r"
      using un by (intro session) (auto simp: resolve_loopback_token_def split: option.splits if_splits)
    ultimately show ?thesis using page \<open>\<not> request_is_relayed r\<close> by (simp add: no_foreign_host)
  next
    case keyless
    have "\<not> has_trusted_tauri_session st r"
      using served_admitted(2) [OF assms(1,2) keyless(3)] by (intro session) auto
    then have "refuse_foreign_host lib st r = None" "\<not> is_foreign_page_write lib r"
      "request_is_relayed r \<longrightarrow> np_unauthenticated_remote (sec_network st)"
      using keyless(5) assms(2)
      by (auto simp: serve_keyless_def refuse_host_def fresh_def split: if_splits option.splits)
    then show ?thesis using page keyless(4) by (simp add: no_foreign_host)
  next
    case keyed
    then have "ac_security_enabled c \<and> ac_granted_tier c = None \<or> ac_presented_credential c"
      using assms(3)
      by (auto simp: serve_keyed_def Let_def attach_def with_locality_def preflight_def
          dest!: rate_limited_served elim!: standing_fresh [OF assms(2)] resolve_presented_cases
          split: sum.splits option.splits)
    then show ?thesis using assms(4,5) by (auto simp: can_control_def)
  qed (use assms in simp_all)
qed

section \<open>Who the network policy admits\<close>

fun rule_valid :: "client_address_rule \<Rightarrow> bool" where
  "rule_valid (Exact ip) = True"
| "rule_valid (Cidr ip prefix) = cidr_prefix_valid ip prefix"

lemma parse_rule_valid: "parse_rule raw = Some rule \<Longrightarrow> rule_valid rule"
  by (auto simp: parse_rule_def split: option.splits if_splits)

lemma rule_matches_family: "rule_matches rule ip \<Longrightarrow> is_ipv6 ip = is_ipv6 (rule_network rule)"
  by (cases "(rule, ip)" rule: rule_matches.cases) (auto elim: cidr_contains.elims)

lemma loopback_v4_bits: "drop_bit 24 (a :: 32 word) = 127 \<longleftrightarrow> (\<forall>i < 8. bit a (24 + i) \<longleftrightarrow> i < 7)"
proof -
  have "drop_bit 24 a = 127 \<longleftrightarrow> (\<forall>i < 32. bit (drop_bit 24 a) i = bit (mask 7 :: 32 word) i)"
    by (simp add: bit_eq_iff mask_eq_exp_minus_1)
  also have "\<dots> \<longleftrightarrow> (\<forall>i < 32. bit a (24 + i) \<longleftrightarrow> i < 7)"
    by (simp add: bit_simps)
  also have "\<dots> \<longleftrightarrow> (\<forall>i < 8. bit a (24 + i) \<longleftrightarrow> i < 7)"
  proof
    assume *: "\<forall>i < 8. bit a (24 + i) \<longleftrightarrow> i < 7"
    have high: "\<not> bit a (24 + i)" if "\<not> i < 8" for i using that by (intro impossible_bit) simp
    show "\<forall>i < 32. bit a (24 + i) \<longleftrightarrow> i < 7"
    proof (intro allI impI)
      fix i :: nat
      show "bit a (24 + i) \<longleftrightarrow> i < 7" using * high [of i] by (cases "i < 8") simp_all
    qed
  qed simp
  finally show ?thesis .
qed

lemma loopback_only_sound:
  assumes "is_loopback_only rule" "rule_valid rule" "rule_matches rule ip"
  shows "is_loopback ip"
proof (cases rule)
  case (Cidr network prefix)
  show ?thesis
  proof (cases network)
    case (V4 a)
    then obtain b where b: "ip = V4 b" using assms(3) Cidr by (cases ip) simp_all
    have p: "8 \<le> unat prefix" "prefix \<le> 32" using assms(1,2) Cidr V4 by (simp_all add: word_le_nat_alt)
    then have "bit a (24 + i) = bit b (24 + i)" if "i < 8" for i
      using assms(3) that Cidr V4 b cidr_contains_v4 [OF p(2), of a b] by simp
    then show ?thesis using assms(1) Cidr V4 b by (simp add: loopback_v4_bits)
  next
    case (V6 a)
    then obtain b where b: "ip = V6 b" using assms(3) Cidr by (cases ip) simp_all
    have p: "unat prefix = 128" "prefix \<le> 128" using assms(1) Cidr V6 by simp_all
    then have "a = b"
      using assms(3) Cidr V6 b cidr_contains_v6 [OF p(2), of a b] by (intro bit_word_eqI) simp
    then show ?thesis using assms(1) Cidr V6 b by simp
  qed
qed (use assms in simp)

lemma loopback_only_complete:
  assumes "\<not> is_loopback_only rule" "rule_valid rule"
  shows "\<exists>ip. rule_matches rule ip \<and> \<not> is_loopback ip"
proof (cases "is_loopback (rule_network rule)")
  case False
  then show ?thesis
    by (cases rule; cases "rule_network rule") (auto intro: exI [of _ "rule_network rule"])
next
  case True
  show ?thesis
  proof (cases rule)
    case (Exact ip)
    then show ?thesis using True assms by simp
  next
    case (Cidr network prefix)
    show ?thesis
    proof (cases network)
      case (V4 a)
      then have p: "unat prefix < 8" "prefix \<le> 32" using assms True Cidr by (auto simp: word_le_nat_alt)
      have "cidr_contains (V4 a) prefix (V4 (flip_bit 24 a))"
        using p by (subst cidr_contains_v4) (auto simp: bit_simps)
      moreover have "\<not> is_loopback (V4 (flip_bit 24 a))"
        using True Cidr V4 by (auto simp: loopback_v4_bits bit_simps intro!: exI [of _ 0])
      ultimately show ?thesis using Cidr V4 by (intro exI [of _ "V4 (flip_bit 24 a)"]) simp
    next
      case (V6 a)
      then have a: "a = 1" and p: "prefix \<le> 128" "prefix \<noteq> 128" using assms True Cidr by auto
      then have "unat prefix < 128" by (simp add: word_le_nat_alt word_unat_eq_iff)
      then have "cidr_contains (V6 a) prefix (V6 0)"
        using p a by (subst cidr_contains_v6) (auto simp: bit_simps)
      then show ?thesis using Cidr V6 by (intro exI [of _ "V6 0"]) simp
    qed
  qed
qed

lemma reject_direct:
  assumes "rq_peer r = Some ip" "\<not> is_loopback ip"
  shows "reject_request p r = None \<longleftrightarrow> policy_open p \<or>
    np_invalid_rules p = [] \<and> np_scope_errors p = [] \<and> (\<exists>rule \<in> set (np_allowed_clients p). rule_matches rule ip)"
  using assms by (auto simp: reject_request_def client_origin_def find_None_iff list_ex_iff)

lemma family_has_remote_address: "\<exists>ip. is_ipv6 ip = b \<and> \<not> is_loopback ip"
  by (cases b) (auto intro: exI [of _ "V6 0"] exI [of _ "V4 0"])

lemma policy_families_exact:
  assumes "list_all rule_valid (np_allowed_clients p)"
  shows "admits_family_of (remote_client_families_of p) ip0 \<longleftrightarrow>
    (\<exists>ip. is_ipv6 ip = is_ipv6 ip0 \<and> \<not> is_loopback ip \<and>
       (policy_open p \<or> np_invalid_rules p = [] \<and> np_scope_errors p = []
          \<and> (\<exists>rule \<in> set (np_allowed_clients p). rule_matches rule ip)))"
proof (cases "policy_open p \<or> np_invalid_rules p \<noteq> [] \<or> np_scope_errors p \<noteq> []")
  case True
  then show ?thesis
    using family_has_remote_address [of "is_ipv6 ip0"]
    by (cases ip0) (auto simp: remote_client_families_of_def policy_open_def)
next
  case False
  have "(\<exists>rule \<in> set (np_allowed_clients p). \<not> is_loopback_only rule \<and> is_ipv6 (rule_network rule) = b) \<longleftrightarrow>
      (\<exists>ip. is_ipv6 ip = b \<and> \<not> is_loopback ip \<and> (\<exists>rule \<in> set (np_allowed_clients p). rule_matches rule ip))" for b
    using assms loopback_only_sound loopback_only_complete rule_matches_family
    unfolding list_all_iff by metis
  then show ?thesis using False
    by (cases ip0) (auto simp: remote_client_families_of_def list_ex_iff Let_def)
qed

text \<open>C39: What the daemon reports as open to keyless remote control is exact. In a family of
  addresses it reports true if and only if no credential is configured and some address of that
  family other than loopback exists from which the network policy rejects no request, whatever the
  request says; the policy may come from any mix of listed addresses, blocks and scopes.
\<close>

theorem keyless_families_are_exact:
  assumes "list_all rule_valid (np_allowed_clients (sec_network st))"
  shows "admits_family_of (keyless_remote_client_families st) ip0 \<longleftrightarrow>
    \<not> security_enabled st \<and>
    (\<exists>ip. is_ipv6 ip = is_ipv6 ip0 \<and> \<not> is_loopback ip
       \<and> (\<forall>r. rq_peer r = Some ip \<longrightarrow> reject_request (sec_network st) r = None))"
proof (cases "security_enabled st")
  case True
  then show ?thesis by (cases ip0) (simp_all add: keyless_remote_client_families_def)
next
  case False
  have "(\<forall>r. rq_peer r = Some ip \<longrightarrow> reject_request p r = None) \<longleftrightarrow>
      policy_open p \<or> np_invalid_rules p = [] \<and> np_scope_errors p = []
        \<and> (\<exists>rule \<in> set (np_allowed_clients p). rule_matches rule ip)" if "\<not> is_loopback ip" for ip p
    using reject_direct [OF _ that] by (metis request.select_convs(6))
  with False show ?thesis
    using policy_families_exact [OF assms, of ip0] by (auto simp: keyless_remote_client_families_def)
qed

lemma config_rules_valid:
  assumes "\<And>rules. subnets = Inr rules \<Longrightarrow> list_all rule_valid rules"
  shows "list_all rule_valid (np_allowed_clients (from_config_with_local_subnets c subnets))"
proof -
  have "list_all rule_valid (listed_rules raws)" for raws
    by (auto simp: listed_rules_def list_all_iff List.map_filter_def dest: parse_rule_valid)
  moreover have "list_all rule_valid private_network_rules" by (simp add: private_network_rules_def)
  ultimately show ?thesis
    using assms by (auto simp: from_config_with_local_subnets_def Let_def
        split: network_client_scope.splits sum.splits if_splits)
qed

section \<open>Rate limiting over a run\<close>

type_synonym rate_check = "client_key \<times> operation_class \<times> clock_readings"

text \<open>Discovery is counted with the client's writes.\<close>

fun budget_of :: "operation_class \<Rightarrow> operation_class" where
  "budget_of OpDiscovery = OpWrite"
| "budget_of cls = cls"

text \<open>How many checks of one client and budget are allowed from \<open>a\<close> on and before \<open>e\<close>.\<close>

definition counts_for :: "instant \<Rightarrow> instant \<Rightarrow> client_key \<Rightarrow> operation_class \<Rightarrow> rate_check \<Rightarrow> bool" where
  "counts_for a e k b c = (case c of (client, cls, ck) \<Rightarrow>
     client = k \<and> budget_of cls = budget_of b \<and> a \<le> ck_now ck \<and> ck_now ck < e)"

fun allowed_in :: "instant \<Rightarrow> instant \<Rightarrow> client_key \<Rightarrow> operation_class \<Rightarrow> rate_limiter \<Rightarrow> rate_check list \<Rightarrow> nat" where
  "allowed_in a e k b l [] = 0"
| "allowed_in a e k b l ((client, cls, ck) # cs) =
     (let (l', d) = check_and_record client cls ck l
      in (if rd_allowed d \<and> counts_for a e k b (client, cls, ck) then 1 else 0) + allowed_in a e k b l' cs)"

text \<open>What a budget sees of a client: when its window opened and how much of it is spent.\<close>

definition budget_view :: "operation_class \<Rightarrow> client_key \<Rightarrow> rate_limiter \<Rightarrow> (instant \<times> nat) option" where
  "budget_view b k l = map_option (\<lambda>w. (cw_window_start w, class_count b w)) (fmlookup (rl_clients l) k)"

definition live_view :: "instant \<Rightarrow> (instant \<times> nat) option \<Rightarrow> (instant \<times> nat) option" where
  "live_view now v = (case v of Some (s, c) \<Rightarrow> if now - s < RATE_WINDOW then Some (s, c) else None | None \<Rightarrow> None)"

definition opened_view :: "clock_readings \<Rightarrow> (instant \<times> nat) option \<Rightarrow> instant \<times> nat" where
  "opened_view ck v =
     (case v of None \<Rightarrow> (ck_now ck, 0)
      | Some (s, c) \<Rightarrow> if RATE_WINDOW \<le> ck_window ck - s then (ck_now ck, 0) else (s, c))"

lemma class_count_step [simp]:
  "class_count b (count_request cls w) = class_count b w + (if budget_of cls = budget_of b then 1 else 0)"
  "cw_window_start (count_request cls w) = cw_window_start w"
  "class_count b (fresh_window t) = 0" "cw_window_start (fresh_window t) = t"
  by (cases b; cases cls; simp add: fresh_window_def)+

lemma class_budget:
  "budget_of cls = budget_of b \<Longrightarrow> class_limit cls = class_limit b \<and> class_count cls w = class_count b w"
  by (cases b; cases cls) simp_all

lemma retained_view [simp]: "budget_view b k (retain_windows now l) = live_view now (budget_view b k l)"
  by (simp add: budget_view_def live_view_def retain_windows_def saturating_duration_since_def split: option.split)

lemma rolled_clients [simp]: "rl_clients (roll_discovery ck l) = rl_clients l"
  by (simp add: roll_discovery_def)

lemma budget_view_cong: "rl_clients l = rl_clients l' \<Longrightarrow> budget_view b k l = budget_view b k l'"
  by (simp add: budget_view_def)

lemma spend_other: "k \<noteq> client \<Longrightarrow> budget_view b k (fst (spend client cls ck l)) = budget_view b k l"
  by (simp add: spend_def Let_def budget_view_def)

lemma spend_own:
  assumes "opened_view ck (budget_view b client l) = (s, c)"
  shows "budget_view b client (fst (spend client cls ck l)) =
      Some (s, c + (if rd_allowed (snd (spend client cls ck l)) \<and> budget_of cls = budget_of b then 1 else 0))"
    and "rd_allowed (snd (spend client cls ck l)) \<Longrightarrow> budget_of cls = budget_of b \<Longrightarrow> c < class_limit b"
proof -
  define w0 where "w0 = (case fmlookup (rl_clients l) client of Some w \<Rightarrow> w | None \<Rightarrow> fresh_window (ck_now ck))"
  define w where "w = (if RATE_WINDOW \<le> saturating_duration_since (ck_window ck) (cw_window_start w0)
    then fresh_window (ck_now ck) else w0)"
  have w: "cw_window_start w = s" "class_count b w = c"
    using assms by (auto simp: opened_view_def budget_view_def w_def w0_def saturating_duration_since_def
        split: option.splits if_splits)
  have sp: "fst (spend client cls ck l) = l\<lparr>rl_clients :=
        fmupd client (if class_limit cls \<le> class_count cls w then w else count_request cls w) (rl_clients l)\<rparr>"
    "rd_allowed (snd (spend client cls ck l)) \<longleftrightarrow> class_count cls w < class_limit cls"
    by (auto simp: spend_def Let_def w_def w0_def refusal_def not_less)
  show "budget_view b client (fst (spend client cls ck l)) =
      Some (s, c + (if rd_allowed (snd (spend client cls ck l)) \<and> budget_of cls = budget_of b then 1 else 0))"
    using w by (simp add: sp budget_view_def not_le)
  show "rd_allowed (snd (spend client cls ck l)) \<Longrightarrow> budget_of cls = budget_of b \<Longrightarrow> c < class_limit b"
    using w class_budget [of cls b w] by (simp add: sp)
qed

text \<open>
  How the allowed checks from \<open>a\<close> on relate to the window that is open at time \<open>t\<close>. They lie in
  that window and at most one before it, or the window opened after the end of the interval.
\<close>

definition rate_inv :: "instant \<Rightarrow> instant \<Rightarrow> nat \<Rightarrow> instant \<Rightarrow> nat \<Rightarrow> (instant \<times> nat) option \<Rightarrow> bool" where
  "rate_inv a e limit t n v \<longleftrightarrow> (t < a \<longrightarrow> n = 0) \<and>
     (case v of
        None \<Rightarrow> n \<le> limit \<or> e \<le> t \<and> n \<le> 2 * limit
      | Some (s, c) \<Rightarrow> s \<le> t \<and> c \<le> limit \<and>
          n \<le> (if s < a then c else if s < e then limit + c else 2 * limit))"

lemma rate_inv_bound: "rate_inv a e limit t n v \<Longrightarrow> n \<le> 2 * limit"
  by (auto simp: rate_inv_def split: option.splits if_splits)

lemma rate_inv_live:
  assumes "rate_inv a e limit t n v" "t \<le> ck_now ck" "e \<le> a + RATE_WINDOW"
  shows "rate_inv a e limit (ck_now ck) n (live_view (ck_now ck) v)"
  using assms by (auto simp: rate_inv_def live_view_def split: option.splits if_splits)

lemma rate_inv_opened:
  assumes "rate_inv a e limit (ck_now ck) n v" "ck_window ck \<le> ck_now ck + \<delta>" "e = a + RATE_WINDOW - \<delta>"
  shows "rate_inv a e limit (ck_now ck) n (Some (opened_view ck v))"
  using assms by (auto simp: rate_inv_def opened_view_def split: option.splits if_splits)

lemma rate_inv_counted:
  assumes "rate_inv a e limit t n (Some (s, c))" "c < limit"
  shows "rate_inv a e limit t (n + (if a \<le> t \<and> t < e then 1 else 0)) (Some (s, c + 1))"
  using assms by (auto simp: rate_inv_def split: if_splits)

lemma rate_inv_spend:
  assumes inv: "rate_inv a e (class_limit b) (ck_now ck) n (budget_view b k l)"
    and "ck_window ck \<le> ck_now ck + \<delta>" "e = a + RATE_WINDOW - \<delta>"
  shows "rate_inv a e (class_limit b) (ck_now ck)
    (n + (if rd_allowed (snd (spend client cls ck l)) \<and> counts_for a e k b (client, cls, ck) then 1 else 0))
    (budget_view b k (fst (spend client cls ck l)))"
proof (cases "client = k")
  case True
  obtain s c where v: "opened_view ck (budget_view b k l) = (s, c)" by force
  have "rate_inv a e (class_limit b) (ck_now ck) n (Some (s, c))" using rate_inv_opened [OF assms] v by simp
  then show ?thesis
    using rate_inv_counted [of a e "class_limit b" "ck_now ck" n s c] spend_own [of ck b client l s c cls] v True
    by (auto simp: counts_for_def)
qed (use inv in \<open>auto simp: spend_other counts_for_def\<close>)

lemma rate_inv_check:
  assumes inv: "rate_inv a e (class_limit b) t n (budget_view b k l)" and "t \<le> ck_now ck"
    and e: "e = a + RATE_WINDOW - \<delta>" and ck: "ck_window ck \<le> ck_now ck + \<delta>"
    and chk: "check_and_record client cls ck l = (l', d)"
  shows "rate_inv a e (class_limit b) (ck_now ck)
    (n + (if rd_allowed d \<and> counts_for a e k b (client, cls, ck) then 1 else 0)) (budget_view b k l')"
proof -
  let ?l = "roll_discovery ck (retain_windows (ck_now ck) l)"
  have live: "rate_inv a e (class_limit b) (ck_now ck) n (budget_view b k m)" if "rl_clients m = rl_clients ?l" for m
    using rate_inv_live [OF inv assms(2)] that e
      budget_view_cong [of m "retain_windows (ck_now ck) l" b k] by simp
  let ?m = "if cls = OpDiscovery then ?l\<lparr>rl_discovery_count := rl_discovery_count ?l + 1\<rparr> else ?l"
  consider "l' = ?l" "\<not> rd_allowed d" | "spend client cls ck ?m = (l', d)"
    using chk unfolding check_and_record_def Let_def by (auto simp: refusal_def split: if_splits)
  then show ?thesis
  proof cases
    case 1
    then show ?thesis using live [of ?l] by simp
  next
    case 2
    have "rl_clients ?m = rl_clients ?l" by simp
    from rate_inv_spend [OF live [OF this] ck e, of client cls] show ?thesis by (simp only: 2 fst_conv snd_conv)
  qed
qed

definition readings_within :: "duration \<Rightarrow> rate_check \<Rightarrow> bool" where
  "readings_within \<delta> c = (case c of (client, cls, ck) \<Rightarrow> ck_window ck \<le> ck_now ck + \<delta>)"

definition check_time :: "rate_check \<Rightarrow> instant" where
  "check_time c = ck_now (snd (snd c))"

lemma rate_inv_run:
  assumes "rate_inv a e (class_limit b) t n (budget_view b k l)" "e = a + RATE_WINDOW - \<delta>"
    and "sorted (t # map check_time cs)" "list_all (readings_within \<delta>) cs"
  shows "n + allowed_in a e k b l cs \<le> 2 * class_limit b"
  using assms
proof (induction cs arbitrary: t n l)
  case Nil
  then show ?case using rate_inv_bound by simp
next
  case (Cons c cs)
  obtain client cls ck where c: "c = (client, cls, ck)" by (cases c) auto
  obtain l' d where chk: "check_and_record client cls ck l = (l', d)" by force
  have "rate_inv a e (class_limit b) (ck_now ck)
    (n + (if rd_allowed d \<and> counts_for a e k b (client, cls, ck) then 1 else 0)) (budget_view b k l')"
    using Cons.prems c by (intro rate_inv_check [OF Cons.prems(1) _ Cons.prems(2) _ chk]) (auto simp: readings_within_def check_time_def)
  from Cons.IH [OF this] Cons.prems show ?case by (simp add: c chk check_time_def add.assoc)
qed

text \<open>C40: The limiter bounds every sliding minute, not only its own windows. Whatever clients call in
  whatever order from the start on, with the clock never going back and the two readings of a
  check at most \<open>\<delta>\<close> apart, one client is allowed at most twice the limit of a budget (reads;
  writes and discoveries; pairings) within any interval of \<open>RATE_WINDOW - \<delta>\<close>.
\<close>

theorem rate_limit_bounds_any_minute:
  assumes "sorted (map check_time cs)" "list_all (readings_within \<delta>) cs"
  shows "allowed_in a (a + RATE_WINDOW - \<delta>) k b (rate_limiter_new start) cs \<le> 2 * class_limit b"
proof -
  have "budget_view b k (rate_limiter_new start) = None" by (simp add: budget_view_def rate_limiter_new_def)
  then have "rate_inv a (a + RATE_WINDOW - \<delta>) (class_limit b) 0 0 (budget_view b k (rate_limiter_new start))"
    by (simp add: rate_inv_def)
  from rate_inv_run [OF this refl _ assms(2)] assms(1) show ?thesis by simp
qed

section \<open>Instances\<close>

definition sample_lib :: http_lib where
  "sample_lib = \<lparr>lib_uri = (\<lambda>s. None), lib_authority = (\<lambda>s. Some \<lparr>ap_text = s, ap_host = s\<rparr>)\<rparr>"

definition sample_state :: security_state where
  "sample_state =
     \<lparr>sec_auth = \<lparr>au_control_key = Some ''key'', au_read_key = None\<rparr>, sec_launcher_credential = Some ''launch'',
      sec_attested_credential = None, sec_authority = None, sec_network = empty_policy,
      sec_rate_limiter = rate_limiter_new 0, sec_static_assets = static_unmounted,
      sec_public_routes = empty_route_table, sec_hosts = default_hosts\<rparr>"

definition sample_request :: "http_method \<Rightarrow> ip_addr \<Rightarrow> headers \<Rightarrow> request" where
  "sample_request m ip hs =
     \<lparr>rq_method = m, rq_path = ''/api/v1/effects'', rq_query = None, rq_authority = None, rq_headers = hs,
      rq_peer = Some ip, rq_grant = None, rq_trusted_local = False, rq_session_replay = False,
      rq_context = None, rq_scope = None\<rparr>"

definition sample_clock :: "nat \<Rightarrow> clock_readings" where
  "sample_clock t = \<lparr>ck_now = t, ck_discovery = t, ck_window = t, ck_epoch = 0\<rparr>"

definition bearer :: "string \<Rightarrow> headers" where
  "bearer token = [(''authorization'', Some (''Bearer '' @ token))]"

lemmas sample_defs = sample_lib_def sample_state_def sample_request_def sample_clock_def bearer_def

lemma first_check_allowed: "rd_allowed (snd (check_and_record client OpWrite ck (rate_limiter_new t)))"
proof -
  have "fmlookup (rl_clients (roll_discovery ck (retain_windows (ck_now ck) (rate_limiter_new t)))) client = None"
    by (simp add: retain_windows_def rate_limiter_new_def)
  then show ?thesis
    by (simp add: check_and_record_def Let_def spend_def fresh_window_def WRITE_LIMIT_PER_MIN_def)
qed

lemma sample_write:
  defines "r \<equiv> sample_request POST (V4 0xC0A80105) (bearer ''key'')"
  shows "fresh r" "security_enabled sample_state" "\<not> request_is_loopback r" "is_mutating_request (rq_method r)"
    "\<not> exempt_path sample_state r" "\<not> public_path sample_state r" "reject_request (sec_network sample_state) r = None"
    "extract_token r = Some ''key''" "control_token sample_state ''key''" "\<not> is_session_credential sample_state ''key''"
    "rd_allowed (snd (check_and_record (client_identity r)
        (classify_operation (rq_method r) (rq_path r)) (sample_clock 5) (sec_rate_limiter sample_state)))"
proof -
  have cls: "classify_operation POST ''/api/v1/effects'' = OpWrite" by code_simp
  have addr: "drop_bit 24 (0xC0A80105 :: 32 word) \<noteq> 127" by code_simp
  show "fresh r" by (simp add: r_def fresh_def sample_defs)
  show "security_enabled sample_state" by (simp add: security_enabled_def sample_defs)
  show "is_mutating_request (rq_method r)" by (simp add: r_def is_mutating_request_def sample_defs)
  show "\<not> request_is_loopback r" by (simp add: r_def request_is_loopback_def client_origin_def sample_defs addr)
  show "\<not> exempt_path sample_state r" by (simp add: r_def exempt_path_def sample_defs is_bearer_exempt_def is_docs_exempt_path_def path_within_def static_serves_def static_unmounted_def)
  show "\<not> public_path sample_state r" by (simp add: r_def public_path_def sample_defs class_for_def empty_route_table_def)
  show "reject_request (sec_network sample_state) r = None" by (simp add: reject_request_def sample_defs empty_policy_def policy_open_def)
  show "extract_token r = Some ''key''" by (simp add: r_def, code_simp)
  show "control_token sample_state ''key''" by (simp add: control_token_def sample_defs resolve_token_tier_def secret_matches_def starts_with_def)
  show "\<not> is_session_credential sample_state ''key''" by (simp add: is_session_credential_def sample_defs secret_matches_def)
  show "rd_allowed (snd (check_and_record (client_identity r)
        (classify_operation (rq_method r) (rq_path r)) (sample_clock 5) (sec_rate_limiter sample_state)))"
    by (simp add: first_check_allowed r_def sample_defs cls)
qed

theorem network_writes_need_control_key_witness:
  "\<exists>r' d st'. enforce_security sample_lib sample_state (sample_clock 5)
     (sample_request POST (V4 0xC0A80105) (bearer ''key'')) = (Served r' d, st')"
  using network_writes_need_control_key [OF sample_write(1-6), of sample_lib "sample_clock 5"] sample_write(7-) by blast

text \<open>The daemon session over loopback, and a local tool with no credential there.\<close>

lemma sample_loopback:
  assumes "hs \<in> {bearer ''launch'', [(''host'', Some ''localhost'')]}"
  defines "r \<equiv> sample_request PUT (V4 0x7F000001) hs"
  shows "fresh r" "\<not> exempt_path sample_state r" "\<not> public_path sample_state r"
    "enforce_security sample_lib sample_state (sample_clock 5) r = serve_loopback sample_lib sample_state r"
proof -
  have addr: "drop_bit 24 (0x7F000001 :: 32 word) = 127" by code_simp
  show f: "fresh r" by (simp add: r_def fresh_def sample_defs)
  show x: "\<not> exempt_path sample_state r"
    by (simp add: r_def exempt_path_def sample_defs is_bearer_exempt_def is_docs_exempt_path_def path_within_def
        static_serves_def static_unmounted_def)
  show p: "\<not> public_path sample_state r"
    by (simp add: r_def public_path_def sample_defs class_for_def empty_route_table_def)
  have "request_is_loopback r"
    using assms(1) by (auto simp: r_def request_is_loopback_def client_origin_def sample_defs addr
        forwarding_present_def FORWARDING_HEADERS_def header_get_def header_get_all_def)
  then show "enforce_security sample_lib sample_state (sample_clock 5) r = serve_loopback sample_lib sample_state r"
    using x p by (simp add: enforce_fresh [OF f] public_path_def reject_request_def policy_open_def
        sample_state_def empty_policy_def)
qed

lemma sample_session_served:
  "serve_loopback sample_lib sample_state (sample_request PUT (V4 0x7F000001) (bearer ''launch'')) =
     (Served ((sample_request PUT (V4 0x7F000001) (bearer ''launch''))
        \<lparr>rq_context := Some (with_locality (daemon_session True) FromLoopback), rq_scope := Some ''daemon-session''\<rparr>) None,
      sample_state)"
proof -
  have t: "extract_token (sample_request PUT (V4 0x7F000001) (bearer ''launch'')) = Some ''launch''" by code_simp
  have w: "\<not> is_foreign_page_write sample_lib (sample_request PUT (V4 0x7F000001) (bearer ''launch''))" by code_simp
  show ?thesis
    by (simp add: serve_loopback_def t w resolve_loopback_token_def is_session_credential_def secret_matches_def
        security_enabled_def attach_def) (simp add: sample_defs)
qed

lemma sample_tool_served:
  "serve_loopback sample_lib sample_state (sample_request PUT (V4 0x7F000001) [(''host'', Some ''localhost'')]) =
     (Served ((sample_request PUT (V4 0x7F000001) [(''host'', Some ''localhost'')])
        \<lparr>rq_context := Some (with_locality unsecured FromLoopback)\<rparr>) None, sample_state)"
proof -
  let ?r = "sample_request PUT (V4 0x7F000001) [(''host'', Some ''localhost'')]"
  have t: "extract_token ?r = None" by code_simp
  have w: "\<not> is_foreign_page_write sample_lib ?r" by code_simp
  have a: "authority_host sample_lib ''localhost'' = Some ''localhost''" by code_simp
  have h: "refuse_foreign_host sample_lib sample_state ?r = None"
    by (simp add: refuse_foreign_host_def named_hosts_def sample_request_def header_get_all_def host_admits_def a)
  show ?thesis by (simp add: serve_loopback_def t w h)
qed

theorem protected_control_is_operators_witness:
  "\<exists>token. extract_token (sample_request PUT (V4 0x7F000001) (bearer ''launch'')) = Some token \<and>
    (request_is_loopback (sample_request PUT (V4 0x7F000001) (bearer ''launch''))
       \<and> is_session_credential sample_state token
     \<or> au_control_key (sec_auth sample_state) = Some token \<and> \<not> starts_with token ''hc_ak_r_'')"
  by (rule protected_control_is_operators
        [OF sample_loopback(4) [of "bearer ''launch''", unfolded sample_session_served] sample_loopback(1)])
    (simp add: can_protected_control_def with_locality_def daemon_session_def)+

theorem ambient_authority_cannot_be_ridden_witness:
  "list_all (admitted_host sample_lib sample_state)
       (named_hosts (sample_request PUT (V4 0x7F000001) [(''host'', Some ''localhost'')]))
     \<and> \<not> is_cross_site_request (sample_request PUT (V4 0x7F000001) [(''host'', Some ''localhost'')])
     \<and> \<not> request_is_relayed (sample_request PUT (V4 0x7F000001) [(''host'', Some ''localhost'')])"
proof -
  let ?r = "sample_request PUT (V4 0x7F000001) [(''host'', Some ''localhost'')]"
  have "(\<forall>h \<in> set (named_hosts ?r). admitted_host sample_lib sample_state h)
    \<and> (is_mutating_request (rq_method ?r) \<longrightarrow>
         \<not> is_cross_site_request ?r
         \<and> (\<forall>origin. header_get (rq_headers ?r) ''origin'' = Some origin \<longrightarrow>
              is_loopback_origin sample_lib origin \<or> is_own_origin sample_lib origin (rq_headers ?r)))
    \<and> (request_is_relayed ?r \<longrightarrow>
         \<not> security_enabled sample_state \<and> np_unauthenticated_remote (sec_network sample_state))"
    by (rule ambient_authority_cannot_be_ridden
          [OF sample_loopback(4) [of "[(''host'', Some ''localhost'')]", unfolded sample_tool_served] sample_loopback(1)])
      (simp add: sample_loopback with_locality_def unsecured_def can_control_def)+
  moreover have "is_mutating_request (rq_method ?r)" by (simp add: is_mutating_request_def sample_request_def)
  ultimately show ?thesis using sample_write(2) by (simp add: list_all_iff)
qed

text \<open>A daemon without keys that admits one private block and its own machine.\<close>

definition keyless_state :: security_state where
  "keyless_state = sample_state\<lparr>sec_auth := \<lparr>au_control_key = None, au_read_key = None\<rparr>,
     sec_network := empty_policy\<lparr>np_allowed_clients := [Cidr (V4 0xC0A80000) 16, Exact (V6 1)]\<rparr>\<rparr>"

theorem keyless_families_are_exact_witness:
  "admits_family_of (keyless_remote_client_families keyless_state) (V4 0) \<and>
   (\<exists>ip. is_ipv6 ip = False \<and> \<not> is_loopback ip
      \<and> reject_request (sec_network keyless_state) (sample_request PUT ip []) = None)"
proof -
  have v: "list_all rule_valid (np_allowed_clients (sec_network keyless_state))"
    by (simp add: keyless_state_def)
  have "\<not> is_loopback_only (Cidr (V4 0xC0A80000) 16)" by code_simp
  then have "admits_family_of (keyless_remote_client_families keyless_state) (V4 0)"
    by (simp add: keyless_remote_client_families_def security_enabled_def remote_client_families_of_def
        policy_open_def keyless_state_def sample_state_def empty_policy_def del: is_loopback_only.simps)
  then show ?thesis using keyless_families_are_exact [OF v, of "V4 0"] by (auto simp: sample_request_def)
qed

theorem rate_limit_bounds_any_minute_witness:
  "allowed_in 0 (0 + RATE_WINDOW - 1) KeyUnknown OpPairing (rate_limiter_new 0)
     [(KeyUnknown, OpPairing, sample_clock 0), (KeyUnknown, OpPairing, sample_clock 7)] \<le> 2 * class_limit OpPairing"
  by (rule rate_limit_bounds_any_minute)
    (simp_all add: check_time_def readings_within_def sample_clock_def)

end
