(* ===== verification/Spec2Isabelle.thy ===== *)
theory Spec2Isabelle
  imports Lifecycle_Props Fps_Props Dmx Artnet Ddp E131 Tinyuz_Props Wireless_Frame Razer_Props
    Registry_Props Scene_Props Automation Idempotency_Props Breaker Session_Props
    Security_Props
begin

text \<open>
  Verification of Hypercolor, an RGB lighting engine: a daemon that discovers LED devices, keeps
  them connected, composes scenes of zones and layers into frames and sends the frames out in the
  devices' wire formats.

  \<^bold>\<open>Parts and how they meet.\<close> Scanners report hardware to the device registry with an identity claim.
  The lifecycle manager runs one connection state machine per device and tells an executor what
  to connect, disconnect and retry. The scene manager owns scenes, arbitrates which one is active
  through the priority stack and publishes a plan of zones; automation rules ask for scene
  changes. Clients edit scenes over HTTP, behind a security layer that decides who may read, write and
  administer, and where a keyed write runs once however often it is retried.
  Locks, lids and suspends dim or darken the output through a session loop whose transitions run
  beside the user's own pause and resume.
  The render loop paces itself with the adaptive frame-rate controller, and a circuit breaker
  stands in front of the effect renderer. Frames leave through pixel protocol builders and the
  encoders of the hardware abstraction layer.

  \<^bold>\<open>Theories.\<close> All sources are under \<^verbatim>\<open>src/crates/\<close>.

  \<^item> \<open>Prelude\<close>: machine integers, byte orders, slice operations, runs of machines that may panic, and
    the locales \<open>fallible_machine\<close> and \<open>invariant_machine\<close>: an invariant that every operation keeps holds
    along every run. Most stateful components interpret one of them.
  \<^item> \<open>Ieee\<close>: rounding to nearest even on the grid of any binary format (monotone, idempotent, within half
    a spacing), the binary64 and binary32 operations over it, and \<^verbatim>\<open>std::time::Duration\<close>. \<open>Rust_Str\<close>:
    the \<^verbatim>\<open>str\<close> operations the code uses. \<open>Hex_Color\<close> (\<^verbatim>\<open>hypercolor-color/src/hex.rs\<close>): hex colours round
    trip, and the verdict of the parser on every text.
  \<^item> \<open>Device_Types\<close> (\<^verbatim>\<open>hypercolor-types/src/device.rs\<close>), \<open>State_Machine\<close>
    (\<^verbatim>\<open>hypercolor-core/src/device/state_machine.rs\<close>), \<open>Reconnect\<close> (its invariant, retry budget,
    flap escalation and delay bounds).
  \<^item> \<open>Lifecycle\<close> (\<^verbatim>\<open>device/lifecycle.rs\<close>) and \<open>Lifecycle_Props\<close>: every handler with the actions it
    emits. The set of timers an executor keeps by obeying the actions is the manager's scheduled set
    after every event sequence; actions mean what the state change says; reconnecting devices
    stay live.
  \<^item> \<open>Portable\<close> (\<^verbatim>\<open>hypercolor-types/src/portable.rs\<close>), \<open>Registry\<close> (\<^verbatim>\<open>device/registry.rs\<close>,
    \<^verbatim>\<open>device/registry/portable.rs\<close>) and \<open>Registry_Props\<close>: identity claims and keys; the indexes stay
    inverse under every operation; rediscovery is idempotent; pins, quarantine and re-binds.
  \<^item> \<open>Fps\<close>, \<open>Fps_Props\<close> (\<^verbatim>\<open>engine/fps.rs\<close>): tiers go down after consecutive misses, up only after
    sustained headroom, and never above the ceiling.
  \<^item> \<open>Dmx\<close>, \<open>Sequences\<close>, \<open>Artnet\<close>, \<open>Ddp\<close>, \<open>E131\<close> (\<^verbatim>\<open>hypercolor-pixel-protocols/src\<close>): packet
    bytes, sequence numbers, and that a frame is partitioned and reassembled.
  \<^item> \<open>Tinyuz\<close>, \<open>Tinyuz_Stream\<close>, \<open>Tinyuz_Props\<close> (\<^verbatim>\<open>hypercolor-hal/src/drivers/lianli/wireless/tinyuz.rs\<close>):
    the compressor and decompressor, an abstract stream of tokens between them, and the round trip.
  \<^item> \<open>Wireless_Frame\<close> (\<^verbatim>\<open>lianli/wireless/frame.rs\<close>): radio envelopes relayed in USB packets. Composed with
    the codec: the pixels of a frame come out of the envelopes a receiver collects.
  \<^item> \<open>Hal_Protocol\<close> (\<^verbatim>\<open>hypercolor-hal/src/protocol.rs\<close>): commands and the recycled command buffer, behind
    the locale \<open>command_sink\<close>. \<open>Razer\<close>, \<open>Razer_Props\<close> (\<^verbatim>\<open>drivers/razer/\<close>): the word-wide checksum is the
    plain one, reports and responses round trip with every error, and a device that applies the
    reports of a frame shows the frame.
  \<^item> \<open>Scene_Layers\<close>, \<open>Scene_Types\<close> (\<^verbatim>\<open>hypercolor-types/src/{spatial,layer,scene,identity,effect}.rs\<close>,
    \<^verbatim>\<open>control/mod.rs\<close>): the content of scenes, normalisation and validation, with a declarative form of
    what validation accepts.
  \<^item> \<open>Scene_Stack\<close> (\<^verbatim>\<open>scene/priority.rs\<close>), \<open>Scene_Manager\<close>, \<open>Scene_Edits\<close>, \<open>Scene_Ops\<close>,
    \<open>Scene_Remap\<close> (\<^verbatim>\<open>scene/mod.rs\<close>, \<^verbatim>\<open>scene/display_collisions.rs\<close>): every operation of the scene
    manager, direct access to its priority stack included, and the machine \<open>scene_exec\<close> over them.
    \<open>Scene_Cache\<close> shows that each but the direct access keeps the published
    zones equal to a recomputation and moves their revision with every change, \<open>Scene_Validity\<close> that
    stored scenes stay valid, \<open>Scene_Props\<close> states the results.
  \<^item> \<open>Automation\<close> (\<^verbatim>\<open>scene/automation.rs\<close>): rules, triggers and cooldowns.
  \<^item> \<open>Idempotency\<close>, \<open>Idempotency_Props\<close> (\<^verbatim>\<open>hypercolor-daemon/src/api/idempotency.rs\<close>): the store of keyed
    writes as a step relation over interleaved requests. A key runs at most once at a time, its answer
    is replayed while it is retained, and requests and credentials are told apart.
  \<^item> \<open>Breaker\<close> (\<^verbatim>\<open>effect/servo/circuit_breaker.rs\<close>): attempts are refused until
    the cooldown after the last failure is over, and admitted from then on.
  \<^item> \<open>Session\<close> (\<^verbatim>\<open>hypercolor-types/src/session.rs\<close>, \<^verbatim>\<open>hypercolor-core/src/session/\<close>,
    \<^verbatim>\<open>hypercolor-daemon/src/{session,output_power}.rs\<close>, the power operations of \<^verbatim>\<open>domain/output.rs\<close>): transition
    tasks as phases between two accesses of the power state, interleaved with events and user
    operations by the step relation \<open>session_trans\<close>. \<open>Session_Tasks\<close>: duplicates of a level are dropped;
    a task left alone ends where its action says. \<open>Session_Props\<close>: a user's choice is never undone by a
    superseded task, published events track the power state, every brightness stays in the unit
    interval, and a transition cancelled by an ignored event strands the output; the locale
    \<open>session_invariant\<close> carries what steps keep to runs.
  \<^item> \<open>Net_Addr\<close> (\<^verbatim>\<open>api/forwarded.rs\<close>, the address rules of \<^verbatim>\<open>api/security.rs\<close>): addresses and their
    parser, CIDR blocks, and what a proxy claims of its client. \<open>Security\<close> (\<^verbatim>\<open>api/security.rs\<close>,
    \<^verbatim>\<open>host_names.rs\<close>, \<^verbatim>\<open>credential_authority.rs\<close>, \<^verbatim>\<open>hypercolor-types/src/config/network.rs\<close>): the
    middleware \<open>enforce_security\<close> with its network policy, credentials, hosts, public routes and rate
    limiter. \<open>Security_Props\<close>: exactly which network writes are served, who holds protected control,
    that no web page rides ambient authority, that the report of keyless access is exact, and a bound
    on what the limiter allows in any minute.

  \<^bold>\<open>Correspondence.\<close> A struct is a record, an enum a datatype, a \<^verbatim>\<open>HashMap\<close> a finite map, a \<^verbatim>\<open>Vec\<close> a
  list, an unsigned integer a word of its width (saturating and wrapping operations written out),
  lengths and indexes \<^verbatim>\<open>usize\<close> as \<open>nat\<close>. \<^verbatim>\<open>&mut self\<close> methods take and return the state. \<^verbatim>\<open>Result\<close>
  is a sum with the error on the left; an outer \<open>option\<close> is the panic of an \<^verbatim>\<open>expect\<close>, an assertion
  or an index. Clock readings and fresh UUIDs are arguments of the operation that takes them,
  and the readings a device handler takes in one call are one argument;
  the order in which a hash map is iterated is an argument wherever the result depends on it. The
  driver-specific part of device information is a type parameter of the registry, compared by equality
  (a NaN in a driver's layout hints, unequal to itself in the code, is left out). Strings are lists
  of UTF-8 bytes; \<^verbatim>\<open>trim\<close> and case conversion are exact on ASCII. \<^verbatim>\<open>f32\<close> values are the
  binary64 carrier restricted by binary32 rounding, with one zero.

  \<^bold>\<open>Bounds.\<close> Loops that count are structural or have a measure; nothing is cut by fuel. The round
  trip of the compressor asks for inputs shorter than \<open>2 ^ 50\<close> bytes, far above a frame, so that
  positions stay below the width of \<^verbatim>\<open>usize\<close>; a radio transfer asks for at most 254 data envelopes,
  the most its one-byte counter names. Delay bounds are those of the default policy. Revision
  fences hold short of the saturation of a 64-bit counter. The facts on retained answers ask for
  limits and answers below \<open>2 ^ 62\<close> bytes, so that byte counts do not saturate. SHA-256 is a parameter:
  what is shown of fingerprints is that distinct requests feed it distinct bytes. Notification
  channels are numbers. The generation fence of output power holds for runs of fewer than \<open>2 ^ 64\<close>
  steps, when generations cannot come back. The rate limiter reads the clock more than once per check;
  its bound shrinks the minute by the spread of the readings. A transition task has at most eight
  phases more than its fade has steps. The native byte order is an argument of the Razer checksum.

  \<^bold>\<open>Not modelled.\<close> User interfaces, the HTTP and WebSocket API besides its security and idempotency
  layers and output power, the platform session monitors, persistence, installers and operating
  system bindings are I/O around the parts above. The URI and authority parsers of the \<^verbatim>\<open>http\<close> crate
  and the credential authority of a downstream build are arguments of the security layer; its
  response headers, its reading of the environment and its constant-time comparison are left out.
  The render pipeline, effects and GPU code
  compute pixels through third-party engines. Screen, audio and sensor capture, discovery transports,
  the asynchronous output queue and the remaining device drivers are left for later. Serde
  encodings are derived code.
\<close>

end
